(* ===== verification/Prelude.thy ===== *)
theory Prelude
  imports Complex_Main
begin

text \<open>
  The ground the component theories stand on: the collections their automation uses,
  results that carry an exception, Django's \<open>QuerySet.first\<close>, and the pieces of
  Python's \<open>str\<close> the code calls.

  Strings are \<^typ>\<open>string\<close> (a list of bytes), so \<open>str.lower\<close> and \<open>str.strip\<close> are
  modelled on ASCII text: the tables and literals they are compared with are ASCII.
\<close>

named_theorems db_simps \<open>projections and updates of the modelled tables\<close>
named_theorems frame \<open>what an operation leaves unchanged\<close>
named_theorems inv_intros \<open>preservation of the components' invariants\<close>

type_synonym uuid = nat

subsection \<open>Results that may carry an exception\<close>

fun res_bind :: "'e + 'a \<Rightarrow> ('a \<Rightarrow> 'e + 'b) \<Rightarrow> 'e + 'b" where
  "res_bind (Inl e) f = Inl e"
| "res_bind (Inr a) f = f a"

definition guard_res :: "bool \<Rightarrow> 'e \<Rightarrow> 'e + unit" where
  "guard_res b e = (if b then Inr () else Inl e)"

lemma res_bind_Inr: "res_bind m f = Inr b \<longleftrightarrow> (\<exists>a. m = Inr a \<and> f a = Inr b)"
  by (cases m) auto

lemma res_bind_Inl: "res_bind m f = Inl e \<longleftrightarrow> m = Inl e \<or> (\<exists>a. m = Inr a \<and> f a = Inl e)"
  by (cases m) auto

lemma guard_res_Inr [simp]: "guard_res b e = Inr u \<longleftrightarrow> b"
  by (simp add: guard_res_def)

lemma guard_res_Inl [simp]: "guard_res b e = Inl x \<longleftrightarrow> \<not> b \<and> x = e"
  by (auto simp: guard_res_def)

text \<open>A loop that stops at its first exception.\<close>

fun each :: "('a \<Rightarrow> 'e + unit) \<Rightarrow> 'a list \<Rightarrow> 'e + unit" where
  "each f [] = Inr ()"
| "each f (x # xs) = res_bind (f x) (\<lambda>_. each f xs)"

lemma each_Inr [simp]: "each f xs = Inr u \<longleftrightarrow> (\<forall>x\<in>set xs. f x = Inr ())"
  by (induction xs) (auto simp: res_bind_Inr)

subsection \<open>Query sets\<close>

text \<open>
  \<open>QuerySet.first()\<close> of an unordered query set orders it by primary key.
\<close>

definition first_pk :: "('r \<Rightarrow> uuid) \<Rightarrow> 'r list \<Rightarrow> 'r option" where
  "first_pk pk rs = (if rs = [] then None else Some (arg_min_list pk rs))"

lemma first_pk_None [simp]: "first_pk pk rs = None \<longleftrightarrow> rs = []"
  by (simp add: first_pk_def)

lemma first_pk_Nil [simp]: "first_pk pk [] = None"
  by (simp add: first_pk_def)

lemma first_pk_single [simp]: "first_pk pk [r] = Some r"
  by (simp add: first_pk_def)

lemma first_pk_in: "first_pk pk rs = Some r \<Longrightarrow> r \<in> set rs"
  by (auto simp: first_pk_def arg_min_list_in split: if_splits)

lemma first_pk_Some_iff: "(\<exists>r. first_pk pk rs = Some r) \<longleftrightarrow> rs \<noteq> []"
  by (simp add: first_pk_def)

lemma first_pk_filterD:
  "first_pk pk (filter P rs) = Some r \<Longrightarrow> r \<in> set rs \<and> P r"
  by (drule first_pk_in) simp

text \<open>
  \<open>order_by("-t").first()\<close> and \<open>max(rows, key=t)\<close>: the first row with the greatest
  timestamp.
\<close>

fun newest_by :: "('r \<Rightarrow> int) \<Rightarrow> 'r list \<Rightarrow> 'r option" where
  "newest_by t [] = None"
| "newest_by t (r # rs) = (case newest_by t rs of
       None \<Rightarrow> Some r
     | Some s \<Rightarrow> if t r < t s then Some s else Some r)"

lemma newest_by_None [simp]: "newest_by t rs = None \<longleftrightarrow> rs = []"
  by (cases rs) (auto split: option.splits)

lemma newest_by_in: "newest_by t rs = Some r \<Longrightarrow> r \<in> set rs"
  by (induction rs arbitrary: r) (auto split: option.splits if_splits)

lemma newest_by_max: "newest_by t rs = Some r \<Longrightarrow> x \<in> set rs \<Longrightarrow> t x \<le> t r"
proof (induction rs arbitrary: r x)
  case (Cons y ys)
  show ?case
  proof (cases "newest_by t ys")
    case None
    with Cons.prems show ?thesis by simp
  next
    case (Some s)
    have s: "\<And>z. z \<in> set ys \<Longrightarrow> t z \<le> t s" by (rule Cons.IH [OF Some])
    show ?thesis
    proof (cases "t y < t s")
      case True
      with Some Cons.prems s [of x] show ?thesis by auto
    next
      case False
      with Some Cons.prems s [of x] show ?thesis by auto
    qed
  qed
qed simp

lemma newest_by_append: "(\<And>x. x \<in> set rs \<Longrightarrow> t x < t r) \<Longrightarrow> newest_by t (rs @ [r]) = Some r"
  by (induction rs) auto

text \<open>The row of a table with a given primary key.\<close>

definition by_pk :: "('r \<Rightarrow> uuid) \<Rightarrow> 'r list \<Rightarrow> uuid \<Rightarrow> 'r option" where
  "by_pk pk rs k = List.find (\<lambda>r. pk r = k) rs"

lemma by_pk_Some: "by_pk pk rs k = Some r \<Longrightarrow> r \<in> set rs \<and> pk r = k"
  by (auto simp: by_pk_def find_Some_iff dest: nth_mem)

lemma by_pk_None: "by_pk pk rs k = None \<longleftrightarrow> k \<notin> pk ` set rs"
  by (auto simp: by_pk_def find_None_iff)

text \<open>Saving a row replaces the row with the same primary key.\<close>

definition save_row :: "('r \<Rightarrow> uuid) \<Rightarrow> 'r \<Rightarrow> 'r list \<Rightarrow> 'r list" where
  "save_row pk r rs = map (\<lambda>x. if pk x = pk r then r else x) rs"

lemma save_row_pks [simp]: "map pk (save_row pk r rs) = map pk rs"
  by (induction rs) (auto simp: save_row_def)

lemma save_row_set: "x \<in> set (save_row pk r rs) \<Longrightarrow> x = r \<or> x \<in> set rs \<and> pk x \<noteq> pk r"
  by (auto simp: save_row_def split: if_splits)

text \<open>What a query sees of a table after a save.\<close>

lemma map_filter_save_row:
  "(\<And>x. x \<in> set rs \<Longrightarrow> pk x = pk r \<Longrightarrow> Q x = Q r \<and> (Q r \<longrightarrow> f x = f r)) \<Longrightarrow>
   map f (filter Q (save_row pk r rs)) = map f (filter Q rs)"
  by (induction rs) (auto simp: save_row_def)

lemma filter_save_row:
  "(\<And>x. x \<in> set rs \<Longrightarrow> pk x = pk r \<Longrightarrow> \<not> Q x) \<Longrightarrow> \<not> Q r \<Longrightarrow> filter Q (save_row pk r rs) = filter Q rs"
  by (induction rs) (auto simp: save_row_def)

lemma map_save_row:
  "(\<And>x. x \<in> set rs \<Longrightarrow> pk x = pk r \<Longrightarrow> f x = f r) \<Longrightarrow> map f (save_row pk r rs) = map f rs"
  by (induction rs) (auto simp: save_row_def)

lemma by_pk_Cons: "by_pk pk (x # xs) k = (if pk x = k then Some x else by_pk pk xs k)"
  by (simp add: by_pk_def)

lemma by_pk_Nil [simp]: "by_pk pk [] k = None"
  by (simp add: by_pk_def)

lemma by_pk_unique: "distinct (map pk rs) \<Longrightarrow> r \<in> set rs \<Longrightarrow> pk r = k \<Longrightarrow> by_pk pk rs k = Some r"
  by (induction rs) (auto simp: by_pk_Cons image_iff)

lemma by_pk_save_row:
  "by_pk pk (save_row pk r rs) k =
     (if pk r = k \<and> k \<in> pk ` set rs then Some r else by_pk pk rs k)"
  by (induction rs) (auto simp: save_row_def by_pk_Cons)

lemma by_pk_filter_save:
  "k \<in> pk ` set rs \<Longrightarrow> pk r = k \<Longrightarrow> P r \<Longrightarrow> by_pk pk (filter P (save_row pk r rs)) k = Some r"
  by (induction rs) (auto simp: by_pk_Cons save_row_def)

lemma by_pk_filter:
  "(\<And>r. r \<in> set rs \<Longrightarrow> pk r = k \<Longrightarrow> P r) \<Longrightarrow> by_pk pk (filter P rs) k = by_pk pk rs k"
  by (induction rs) (auto simp: by_pk_Cons)

lemma by_pk_append:
  "by_pk pk (xs @ ys) k = (case by_pk pk xs k of Some r \<Rightarrow> Some r | None \<Rightarrow> by_pk pk ys k)"
  by (induction xs) (auto simp: by_pk_Cons)

lemma distinct_map_save_row:
  assumes "distinct (map pk cs)" "distinct (map f cs)" "c \<in> set cs" "pk c = pk c'"
    "f c' = f c \<or> f c' \<notin> f ` {x \<in> set cs. pk x \<noteq> pk c'}"
  shows "distinct (map f (save_row pk c' cs))"
  using assms
proof (induction cs)
  case Nil
  then show ?case by simp
next
  case (Cons x xs)
  show ?case
  proof (cases "pk x = pk c'")
    case True
    with Cons.prems have "x = c" and xs: "pk c' \<notin> pk ` set xs" "distinct (map f xs)"
      by (auto simp: rev_image_eqI)
    from xs(1) have id: "save_row pk c' xs = xs"
      by (auto simp: save_row_def intro!: map_idI) (metis image_eqI)
    have "f c' \<notin> f ` set xs"
    proof
      assume "f c' \<in> f ` set xs"
      then obtain y where y: "y \<in> set xs" "f c' = f y" by auto
      with xs(1) have "pk y \<noteq> pk c'" by (metis image_eqI)
      with y have "f c' \<in> f ` {z \<in> set (x # xs). pk z \<noteq> pk c'}" by auto
      with Cons.prems(5) have "f c' = f c" by blast
      with y have "f c = f y" by simp
      with Cons.prems(2) y(1) \<open>x = c\<close> show False by auto
    qed
    with xs id show ?thesis using True by (simp add: save_row_def)
  next
    case False
    with Cons.prems have "c \<in> set xs" by auto
    moreover have "f x \<notin> f ` set (save_row pk c' xs)"
      using Cons.prems False \<open>c \<in> set xs\<close> by (auto simp: image_iff dest!: save_row_set)
    ultimately show ?thesis using Cons False by (auto simp: save_row_def)
  qed
qed


text \<open>
  A conditional unique constraint: rows satisfying \<open>P\<close> that agree on \<open>f\<close> are one row.
\<close>

definition key_unique :: "('r \<Rightarrow> uuid) \<Rightarrow> ('r \<Rightarrow> 'k) \<Rightarrow> ('r \<Rightarrow> bool) \<Rightarrow> 'r list \<Rightarrow> bool" where
  "key_unique pk f P rs \<longleftrightarrow>
     (\<forall>x \<in> set rs. \<forall>y \<in> set rs. P x \<longrightarrow> P y \<longrightarrow> f x = f y \<longrightarrow> pk x = pk y)"

lemma key_uniqueD:
  "key_unique pk f P rs \<Longrightarrow> x \<in> set rs \<Longrightarrow> y \<in> set rs \<Longrightarrow> P x \<Longrightarrow> P y \<Longrightarrow> f x = f y \<Longrightarrow> pk x = pk y"
  unfolding key_unique_def by blast

lemma key_uniqueI:
  "(\<And>x y. x \<in> set rs \<Longrightarrow> y \<in> set rs \<Longrightarrow> P x \<Longrightarrow> P y \<Longrightarrow> f x = f y \<Longrightarrow> pk x = pk y)
   \<Longrightarrow> key_unique pk f P rs"
  unfolding key_unique_def by blast

lemma key_unique_subset:
  "key_unique pk f P rs \<Longrightarrow> set rs' \<subseteq> set rs \<Longrightarrow> key_unique pk f P rs'"
  unfolding key_unique_def by blast

lemma key_unique_filter: "key_unique pk f P rs \<Longrightarrow> key_unique pk f P (filter Q rs)"
  by (erule key_unique_subset) auto

lemma key_unique_append:
  assumes u: "key_unique pk f P rs" and r: "P r \<Longrightarrow> (\<And>x. x \<in> set rs \<Longrightarrow> P x \<Longrightarrow> f x \<noteq> f r)"
  shows "key_unique pk f P (rs @ [r])"
proof (rule key_uniqueI)
  fix x y
  assume xy: "x \<in> set (rs @ [r])" "y \<in> set (rs @ [r])" "P x" "P y" "f x = f y"
  show "pk x = pk y"
  proof (cases "x = r \<or> y = r")
    case True
    then show ?thesis using xy r [of x] r [of y] by auto
  next
    case False
    then show ?thesis using xy key_uniqueD [OF u, of x y] by simp
  qed
qed

lemma key_unique_save_row:
  assumes u: "key_unique pk f P rs"
    and r: "P r \<Longrightarrow> (\<And>x. x \<in> set rs \<Longrightarrow> pk x \<noteq> pk r \<Longrightarrow> P x \<Longrightarrow> f x \<noteq> f r)"
  shows "key_unique pk f P (save_row pk r rs)"
proof (rule key_uniqueI)
  fix x y
  assume xy: "x \<in> set (save_row pk r rs)" "y \<in> set (save_row pk r rs)" "P x" "P y" "f x = f y"
  show "pk x = pk y"
  proof (cases "x = r \<or> y = r")
    case True
    then show ?thesis using save_row_set [OF xy(1)] save_row_set [OF xy(2)] xy(3-5) r [of x] r [of y] by auto
  next
    case False
    then show ?thesis
      using save_row_set [OF xy(1)] save_row_set [OF xy(2)] xy(3-5) key_uniqueD [OF u, of x y] by simp
  qed
qed

subsection \<open>Sums over query sets\<close>

text \<open>\<open>aggregate(Sum(f)) or Decimal(0)\<close>: SQL's NULL over no rows becomes zero.\<close>

definition sum_of :: "('r \<Rightarrow> rat) \<Rightarrow> ('r \<Rightarrow> bool) \<Rightarrow> 'r list \<Rightarrow> rat" where
  "sum_of f P rs = sum_list (map f (filter P rs))"

lemma sum_of_Nil [simp]: "sum_of f P [] = 0"
  by (simp add: sum_of_def)

lemma sum_of_Cons [simp]: "sum_of f P (r # rs) = (if P r then f r else 0) + sum_of f P rs"
  by (simp add: sum_of_def)

lemma sum_of_append [simp]: "sum_of f P (xs @ ys) = sum_of f P xs + sum_of f P ys"
  by (simp add: sum_of_def)

lemma sum_of_nonneg: "(\<And>r. r \<in> set rs \<Longrightarrow> 0 \<le> f r) \<Longrightarrow> 0 \<le> sum_of f P rs"
  by (induction rs) auto

lemma sum_of_split:
  "sum_of f P rs = sum_of f (\<lambda>r. P r \<and> Q r) rs + sum_of f (\<lambda>r. P r \<and> \<not> Q r) rs"
  by (induction rs) auto

lemma sum_of_filter: "sum_of f P (filter Q rs) = sum_of f (\<lambda>r. Q r \<and> P r) rs"
  by (induction rs) auto

lemma sum_of_cong:
  "(\<And>r. r \<in> set rs \<Longrightarrow> P r = Q r) \<Longrightarrow> sum_of f P rs = sum_of f Q rs"
  by (induction rs) auto

subsection \<open>Strings\<close>

definition lower_char :: "char \<Rightarrow> char" where
  "lower_char c = (let n = of_char c :: nat in if 65 \<le> n \<and> n \<le> 90 then char_of (n + 32) else c)"

definition upper_char :: "char \<Rightarrow> char" where
  "upper_char c = (let n = of_char c :: nat in if 97 \<le> n \<and> n \<le> 122 then char_of (n - 32) else c)"

definition str_lower :: "string \<Rightarrow> string" where
  "str_lower s = map lower_char s"

definition str_upper :: "string \<Rightarrow> string" where
  "str_upper s = map upper_char s"

definition is_space :: "char \<Rightarrow> bool" where
  "is_space c = (let n = of_char c :: nat in n = 32 \<or> (9 \<le> n \<and> n \<le> 13) \<or> (28 \<le> n \<and> n \<le> 31))"

definition str_strip :: "string \<Rightarrow> string" where
  "str_strip s = rev (dropWhile is_space (rev (dropWhile is_space s)))"

text \<open>Python's \<open>p in s\<close>.\<close>

fun str_in :: "string \<Rightarrow> string \<Rightarrow> bool" where
  "str_in p [] = (p = [])"
| "str_in p (c # s) = (take (length p) (c # s) = p \<or> str_in p s)"

lemma str_in_iff: "str_in p s \<longleftrightarrow> (\<exists>u v. s = u @ p @ v)"
proof (induction s)
  case Nil
  then show ?case by simp
next
  case (Cons c s)
  show ?case
  proof
    assume "str_in p (c # s)"
    then consider "take (length p) (c # s) = p" | "str_in p s" by auto
    then show "\<exists>u v. c # s = u @ p @ v"
    proof cases
      case 1
      then have "c # s = [] @ p @ drop (length p) (c # s)"
        using append_take_drop_id [of "length p" "c # s"] by simp
      then show ?thesis by blast
    next
      case 2
      with Cons.IH obtain u v where "c # s = (c # u) @ p @ v" by auto
      then show ?thesis by blast
    qed
  next
    assume "\<exists>u v. c # s = u @ p @ v"
    then obtain u v where uv: "c # s = u @ p @ v" by blast
    show "str_in p (c # s)"
    proof (cases u)
      case Nil
      with uv have "take (length p) (c # s) = p" by simp
      then show ?thesis by simp
    next
      case (Cons a u')
      with uv have "s = u' @ p @ v" by simp
      with Cons.IH have "str_in p s" by blast
      then show ?thesis by simp
    qed
  qed
qed

lemma length_str_lower [simp]: "length (str_lower s) = length s"
  by (simp add: str_lower_def)

text \<open>An optional string as a Python truth value.\<close>

definition str_or :: "string option \<Rightarrow> string \<Rightarrow> string" where
  "str_or s d = (case s of None \<Rightarrow> d | Some t \<Rightarrow> if t = [] then d else t)"

lemma str_or_simps [simp]:
  "str_or None d = d" "str_or (Some []) d = d" "str_or (Some (c # t)) d = c # t"
  by (simp_all add: str_or_def)

text \<open>\<open>str\<close> of a UUID: its 128 bits in hexadecimal, in groups of 8, 4, 4, 4 and 12.\<close>

definition hex_digit :: "nat \<Rightarrow> char" where
  "hex_digit n = ''0123456789abcdef'' ! (n mod 16)"

fun hex_digits :: "nat \<Rightarrow> nat \<Rightarrow> string" where
  "hex_digits 0 n = []"
| "hex_digits (Suc w) n = hex_digits w (n div 16) @ [hex_digit n]"

definition uuid_str :: "uuid \<Rightarrow> string" where
  "uuid_str k = hex_digits 8 (k div 16 ^ 24) @ ''-'' @ hex_digits 4 (k div 16 ^ 20) @ ''-'' @
     hex_digits 4 (k div 16 ^ 16) @ ''-'' @ hex_digits 4 (k div 16 ^ 12) @ ''-'' @ hex_digits 12 k"

lemma length_hex_digits [simp]: "length (hex_digits w n) = w"
  by (induction w arbitrary: n) simp_all

lemma length_uuid_str [simp]: "length (uuid_str k) = 36"
  by (simp add: uuid_str_def)

text \<open>Decimal rendering of a number, and the dash the messages use, as UTF-8.\<close>

fun nat_str :: "nat \<Rightarrow> string" where
  "nat_str n = (if n < 10 then [''0123456789'' ! n] else nat_str (n div 10) @ [''0123456789'' ! (n mod 10)])"

declare nat_str.simps [simp del]

definition em_dash :: string where
  "em_dash = map char_of [226 :: nat, 128, 148]"

end
