(* ===== verification/Exceptions.thy ===== *)
theory Exceptions
  imports Prelude
begin

text \<open>
  core/exceptions.py: the exceptions the endpoints raise and the one handler that turns
  each into the response shape every client relies on. Rendering an exception to a status
  and a body is Django REST framework's own work (\<open>drf_default_exception_handler\<close>), which
  is not under src/: it is the parameter \<open>drf\<close> of the handler.
\<close>

text \<open>DRF's error data: a message, a list of errors, or errors by field.\<close>

datatype detail = Str string | Seq "detail list" | Dict "(string \<times> detail) list"

datatype exc =
    ValidationError detail
  | BusinessRuleError string string "(string \<times> detail) list option"
  | APIException nat string detail
  | Http404 string
  | Unhandled string

text \<open>\<open>DRFValidationError(msg)\<close> wraps a bare message into a one-item list.\<close>

fun drf_validation_error :: "detail \<Rightarrow> exc" where
  "drf_validation_error (Str m) = ValidationError (Seq [Str m])"
| "drf_validation_error d = ValidationError d"

definition field_error :: "string \<Rightarrow> string \<Rightarrow> exc" where
  "field_error f m = ValidationError (Dict [(f, Seq [Str m])])"

definition ConflictError :: "string \<Rightarrow> exc" where
  "ConflictError m = APIException 409 ''conflict'' (Str m)"

definition AIServiceUnavailable :: "string \<Rightarrow> exc" where
  "AIServiceUnavailable m = APIException 502 ''ai_service_unavailable'' (Str m)"

definition NotificationServiceUnavailable :: "string \<Rightarrow> exc" where
  "NotificationServiceUnavailable m = APIException 502 ''notification_service_unavailable'' (Str m)"

definition NotFound :: "string \<Rightarrow> exc" where
  "NotFound m = APIException 404 ''not_found'' (Str m)"

definition PermissionDenied :: "string \<Rightarrow> exc" where
  "PermissionDenied m = APIException 403 ''permission_denied'' (Str m)"

definition AuthenticationFailed :: "string \<Rightarrow> exc" where
  "AuthenticationFailed m = APIException 401 ''authentication_failed'' (Str m)"

definition InvalidToken :: "string \<Rightarrow> exc" where
  "InvalidToken m = APIException 401 ''token_not_valid'' (Str m)"

text \<open>\<open>_first_message\<close>: the first non-empty message of a field map, the first item of a
  list, \<open>str(data)\<close> otherwise.\<close>

fun first_message :: "detail \<Rightarrow> string option"
  and first_field_message :: "(string \<times> detail) list \<Rightarrow> string option" where
  "first_message (Str s) = Some s"
| "first_message (Seq []) = Some ''[]''"
| "first_message (Seq (d # ds)) = first_message d"
| "first_message (Dict kvs) = first_field_message kvs"
| "first_field_message [] = None"
| "first_field_message ((k, v) # kvs) =
     (case first_message v of
        Some m \<Rightarrow> if m \<noteq> [] then Some m else first_field_message kvs
      | None \<Rightarrow> first_field_message kvs)"

record error_response =
  resp_status :: nat
  err_code :: string
  err_message :: "string option"
  err_fields :: "detail option"

definition default_code :: "exc \<Rightarrow> string" where
  "default_code e = (case e of
       APIException st c d \<Rightarrow> c
     | ValidationError d \<Rightarrow> ''invalid''
     | BusinessRuleError m c f \<Rightarrow> ''invalid''
     | _ \<Rightarrow> ''error'')"

definition message_or_default :: "detail \<Rightarrow> string option" where
  "message_or_default d =
     (case first_message d of
        Some m \<Rightarrow> if m \<noteq> [] then Some m else Some ''An error occurred.''
      | None \<Rightarrow> Some ''An error occurred.'')"

definition is_dict :: "detail \<Rightarrow> bool" where
  "is_dict d = (case d of Dict kvs \<Rightarrow> True | _ \<Rightarrow> False)"

definition api_exception_handler :: "(exc \<Rightarrow> (nat \<times> detail) option) \<Rightarrow> exc \<Rightarrow> error_response option"
where
  "api_exception_handler drf e =
     (case drf e of
        None \<Rightarrow> None
      | Some (st, data) \<Rightarrow>
          Some (case e of
              BusinessRuleError m c f \<Rightarrow>
                \<lparr>resp_status = 422, err_code = c, err_message = first_message (Seq [Str m]),
                 err_fields = map_option Dict f\<rparr>
            | ValidationError d \<Rightarrow>
                \<lparr>resp_status = 422, err_code = ''validation_error'',
                 err_message = message_or_default data,
                 err_fields = (if is_dict data then Some data else None)\<rparr>
            | _ \<Rightarrow>
                \<lparr>resp_status = st, err_code = default_code e,
                 err_message = message_or_default data, err_fields = None\<rparr>))"

lemma first_message_of_field:
  "(k, v) \<in> set kvs \<Longrightarrow> first_message v = Some m \<Longrightarrow> m \<noteq> [] \<Longrightarrow>
   \<exists>m'. first_field_message kvs = Some m' \<and> m' \<noteq> []"
  by (induction kvs) (auto split: option.splits)

lemma message_or_default_nonempty: "\<exists>m. message_or_default d = Some m \<and> m \<noteq> []"
  by (auto simp: message_or_default_def split: option.splits)

lemma field_message:
  assumes "(k, v) \<in> set kvs" "first_message v = Some m" "m \<noteq> []"
  shows "\<exists>m'. message_or_default (Dict kvs) = Some m' \<and> first_field_message kvs = Some m' \<and> m' \<noteq> []"
  using first_message_of_field [OF assms] by (auto simp: message_or_default_def)

end
