(* ===== verification/Calendar.thy ===== *)
theory Calendar
  imports Prelude
begin

text \<open>
  \<open>datetime.date\<close> and the \<open>calendar\<close> functions the code uses: the proleptic Gregorian
  calendar, dates compared as (year, month, day), \<open>timedelta(days=n)\<close> as \<open>n\<close> steps of one
  day. Python's bounds on the year (1 to 9999) are not modelled. The text formats the
  query parameters use (\<open>YYYY-MM\<close>) are read by \<open>split_on\<close> and \<open>py_int\<close>.
\<close>

datatype date = Date (year: int) (month: int) (day: int)

instantiation date :: linorder
begin

definition less_date :: "date \<Rightarrow> date \<Rightarrow> bool" where
  "less_date d e \<longleftrightarrow> year d < year e \<or> year d = year e \<and>
     (month d < month e \<or> month d = month e \<and> day d < day e)"

definition less_eq_date :: "date \<Rightarrow> date \<Rightarrow> bool" where
  "less_eq_date d e \<longleftrightarrow> d < e \<or> d = e"

instance
  by standard (auto simp: less_date_def less_eq_date_def intro: date.expand)

end

definition is_leap :: "int \<Rightarrow> bool" where
  "is_leap y \<longleftrightarrow> y mod 4 = 0 \<and> (y mod 100 \<noteq> 0 \<or> y mod 400 = 0)"

text \<open>\<open>calendar.monthrange(y, m)[1]\<close> for a month in 1..12.\<close>

definition days_in_month :: "int \<Rightarrow> int \<Rightarrow> int" where
  "days_in_month y m =
     (if m = 2 then (if is_leap y then 29 else 28)
      else if m \<in> {4, 6, 9, 11} then 30 else 31)"

definition valid_date :: "date \<Rightarrow> bool" where
  "valid_date d \<longleftrightarrow> 1 \<le> month d \<and> month d \<le> 12 \<and> 1 \<le> day d
     \<and> day d \<le> days_in_month (year d) (month d)"

fun next_day :: "date \<Rightarrow> date" where
  "next_day (Date y m d) =
     (if d < days_in_month y m then Date y m (d + 1)
      else if m < 12 then Date y (m + 1) 1 else Date (y + 1) 1 1)"

fun prev_day :: "date \<Rightarrow> date" where
  "prev_day (Date y m d) =
     (if 1 < d then Date y m (d - 1)
      else if 1 < m then Date y (m - 1) (days_in_month y (m - 1)) else Date (y - 1) 12 31)"

definition add_days :: "date \<Rightarrow> int \<Rightarrow> date" where
  "add_days d n = (if 0 \<le> n then (next_day ^^ nat n) d else (prev_day ^^ nat (- n)) d)"

subsection \<open>Ordinals\<close>

definition days_before_year :: "int \<Rightarrow> int" where
  "days_before_year y = (y - 1) * 365 + (y - 1) div 4 - (y - 1) div 100 + (y - 1) div 400"

definition days_before_month :: "int \<Rightarrow> int \<Rightarrow> int" where
  "days_before_month y m =
     [0, 0, 31, 59, 90, 120, 151, 181, 212, 243, 273, 304, 334] ! nat m
       + (if 2 < m \<and> is_leap y then 1 else 0)"

fun ordinal :: "date \<Rightarrow> int" where
  "ordinal (Date y m d) = days_before_year y + days_before_month y m + d"

lemma month_cases:
  fixes m :: int
  assumes "1 \<le> m" "m \<le> 12"
  shows "m = 1 \<or> m = 2 \<or> m = 3 \<or> m = 4 \<or> m = 5 \<or> m = 6 \<or> m = 7 \<or> m = 8 \<or> m = 9
    \<or> m = 10 \<or> m = 11 \<or> m = 12"
  using assms by arith

lemma div_pred:
  fixes y k :: int
  assumes k: "0 < k"
  shows "y div k = (y - 1) div k + (if y mod k = 0 then 1 else 0)"
proof -
  have e: "y - 1 = (y mod k - 1) + (y div k) * k" by simp
  have "(y - 1) div k = (y mod k - 1) div k + y div k"
    by (subst e) (use k in simp)
  moreover have "(y mod k - 1) div k = (if y mod k = 0 then - 1 else 0)"
  proof (cases "y mod k = 0")
    case True
    with k show ?thesis by (simp add: div_eq_minus1)
  next
    case False
    have "0 \<le> y mod k" "y mod k < k" using k by simp_all
    with False have "0 \<le> y mod k - 1" "y mod k - 1 < k" by linarith+
    then have "(y mod k - 1) div k = 0" by (rule div_pos_pos_trivial)
    with False show ?thesis by simp
  qed
  ultimately show ?thesis by simp
qed

lemma leap_count:
  fixes u :: int
  assumes "a = a' + (if P then 1 else 0)" "b = b' + (if Q then 1 else 0)"
    and "c = c' + (if R then 1 else 0)" and "Q \<Longrightarrow> P" "R \<Longrightarrow> Q"
  shows "(u + 1 - 1) * 365 + a - b + c
    = (u - 1) * 365 + a' - b' + c' + 365 + (if P \<and> (\<not> Q \<or> R) then 1 else 0)"
  using assms by (cases P; cases Q; cases R) simp_all

lemma days_before_next_year:
  "days_before_year (y + 1) = days_before_year y + 365 + (if is_leap y then 1 else 0)"
  unfolding days_before_year_def is_leap_def add_diff_cancel_right' not_not
proof -
  have "y mod 100 = 0 \<Longrightarrow> y mod 4 = 0" "y mod 400 = 0 \<Longrightarrow> y mod 100 = 0"
    using dvd_trans [of 4 100 y] dvd_trans [of 100 400 y] by (auto simp: mod_eq_0_iff_dvd)
  from leap_count [OF div_pred [where k = 4 and y = y] div_pred [where k = 100 and y = y]
      div_pred [where k = 400 and y = y] this, of y]
  show "y * 365 + y div 4 - y div 100 + y div 400 =
    (y - 1) * 365 + (y - 1) div 4 - (y - 1) div 100 + (y - 1) div 400 + 365 +
    (if y mod 4 = 0 \<and> (y mod 100 \<noteq> 0 \<or> y mod 400 = 0) then 1 else 0)"
    unfolding add_diff_cancel_right' by (simp only: zero_less_numeral simp_thms)
qed

lemma days_before_next_month:
  "1 \<le> m \<Longrightarrow> m < 12 \<Longrightarrow> days_before_month y (m + 1) = days_before_month y m + days_in_month y m"
  using month_cases [of m] by (auto simp: days_before_month_def days_in_month_def)

lemma days_before_month_ends:
  "days_before_month y 1 = 0"
  "days_before_month y 12 + 31 = 365 + (if is_leap y then 1 else 0)"
  by (auto simp: days_before_month_def)

lemma days_in_month_pos: "28 \<le> days_in_month y m \<and> days_in_month y m \<le> 31"
  by (simp add: days_in_month_def)

lemma ordinal_next_day: "valid_date d \<Longrightarrow> valid_date (next_day d) \<and> ordinal (next_day d) = ordinal d + 1"
proof (cases d)
  case (Date y m k)
  assume "valid_date d"
  then show ?thesis
    using Date days_before_next_month [of m y] days_before_next_year [of y]
      days_before_month_ends [of y] days_before_month_ends [of "y + 1"] days_in_month_pos [of y "m + 1"]
    by (auto simp: valid_date_def days_in_month_def [of y 12] days_in_month_def [of "y + 1" 1])
qed

lemma ordinal_prev_day: "valid_date d \<Longrightarrow> valid_date (prev_day d) \<and> ordinal (prev_day d) = ordinal d - 1"
proof (cases d)
  case (Date y m k)
  assume "valid_date d"
  then show ?thesis
    using Date days_before_next_month [of "m - 1" y] days_before_next_year [of "y - 1"]
      days_before_month_ends [of y] days_before_month_ends [of "y - 1"]
      days_in_month_pos [of y "m - 1"]
    by (auto simp: valid_date_def days_in_month_def [of "y - 1" 12])
qed

lemma ordinal_add_days:
  assumes "valid_date d"
  shows "valid_date (add_days d n) \<and> ordinal (add_days d n) = ordinal d + n"
proof -
  have "valid_date ((next_day ^^ k) d) \<and> ordinal ((next_day ^^ k) d) = ordinal d + int k" for k
    by (induction k) (use assms ordinal_next_day in auto)
  moreover have "valid_date ((prev_day ^^ k) d) \<and> ordinal ((prev_day ^^ k) d) = ordinal d - int k" for k
    by (induction k) (use assms ordinal_prev_day in auto)
  ultimately show ?thesis by (simp add: add_days_def)
qed

lemma days_before_year_mono: "y < z \<Longrightarrow> days_before_year (y + 1) \<le> days_before_year z"
  unfolding zless_iff_Suc_zadd
proof (elim exE)
  fix n assume "z = y + int (Suc n)"
  then show ?thesis
  proof (induction n arbitrary: z)
    case 0
    then show ?case by (simp add: algebra_simps)
  next
    case (Suc n)
    from Suc.IH [of "z - 1"] Suc.prems have "days_before_year (y + 1) \<le> days_before_year (z - 1)"
      by simp
    then show ?case using days_before_next_year [of "z - 1"] by (simp split: if_splits)
  qed
qed

lemma days_before_later_month:
  assumes a: "1 \<le> a" and ab: "a < b" and b: "b \<le> 12"
  shows "days_before_month u a + days_in_month u a \<le> days_before_month u b"
  using ab b
proof (induction rule: int_gr_induct)
  case base
  with a show ?case by (simp add: days_before_next_month)
next
  case (step i)
  with a days_before_next_month [of i u] days_in_month_pos [of u i] show ?case by simp
qed

lemma ordinal_less:
  assumes d: "valid_date d" and e: "valid_date e" and less: "d < e"
  shows "ordinal d < ordinal e"
proof -
  obtain y m k where D: "d = Date y m k" by (cases d)
  obtain y' m' k' where E: "e = Date y' m' k'" by (cases e)
  have in_year: "days_before_month u a + days_in_month u a \<le> 365 + (if is_leap u then 1 else 0)"
    if "1 \<le> a" "a \<le> 12" for u a
    using month_cases [OF that] by (auto simp: days_before_month_def days_in_month_def)
  have pos: "0 \<le> days_before_month y' m'"
    using e E month_cases [of m'] by (auto simp: valid_date_def days_before_month_def)
  consider "y < y'" | "y = y'" "m < m'" | "y = y'" "m = m'" "k < k'"
    using less D E by (auto simp: less_date_def)
  then show ?thesis
  proof cases
    case 1
    with days_before_year_mono [of y y'] days_before_next_year [of y] in_year [of m y] pos d e D E
    show ?thesis by (simp add: valid_date_def)
  next
    case 2
    with days_before_later_month [of m m' y] d e D E show ?thesis by (simp add: valid_date_def)
  next
    case 3
    with D E show ?thesis by simp
  qed
qed

lemma ordinal_less_iff: "valid_date d \<Longrightarrow> valid_date e \<Longrightarrow> d < e \<longleftrightarrow> ordinal d < ordinal e"
  using ordinal_less [of d e] ordinal_less [of e d] by (metis linorder_neqE order_less_asym)

lemma ordinal_le_iff: "valid_date d \<Longrightarrow> valid_date e \<Longrightarrow> d \<le> e \<longleftrightarrow> ordinal d \<le> ordinal e"
  using ordinal_less_iff [of e d] by (simp add: not_less [symmetric])

lemma ordinal_inj: "valid_date d \<Longrightarrow> valid_date e \<Longrightarrow> ordinal d = ordinal e \<Longrightarrow> d = e"
  using ordinal_less_iff [of d e] ordinal_less_iff [of e d] by (metis less_irrefl linorder_neqE)

subsection \<open>Reading \<open>YYYY-MM\<close>\<close>

fun split_on :: "char \<Rightarrow> string \<Rightarrow> string list" where
  "split_on c [] = [[]]"
| "split_on c (x # xs) =
     (if x = c then [] # split_on c xs
      else case split_on c xs of [] \<Rightarrow> [[x]] | w # ws \<Rightarrow> (x # w) # ws)"

definition digit_val :: "char \<Rightarrow> int option" where
  "digit_val c = (let n = of_char c :: nat in if 48 \<le> n \<and> n \<le> 57 then Some (int n - 48) else None)"

fun digits_val :: "int \<Rightarrow> string \<Rightarrow> int option" where
  "digits_val acc [] = Some acc"
| "digits_val acc (c # cs) =
     (case digit_val c of None \<Rightarrow> None | Some k \<Rightarrow> digits_val (10 * acc + k) cs)"

text \<open>\<open>int(s)\<close>: blanks around it and one sign are allowed; \<open>None\<close> is \<open>ValueError\<close>.
  (Python's digit-group underscores are not modelled.)\<close>

definition py_int :: "string \<Rightarrow> int option" where
  "py_int s = (case str_strip s of
       [] \<Rightarrow> None
     | c # cs \<Rightarrow>
         if c = CHR ''-'' then (if cs = [] then None else map_option uminus (digits_val 0 cs))
         else if c = CHR ''+'' then (if cs = [] then None else digits_val 0 cs)
         else digits_val 0 (c # cs))"

text \<open>\<open>year, month = (int(p) for p in period.split("-"))\<close>: a \<open>ValueError\<close> for a part that
  is no number and for any count of parts but two.\<close>

definition parse_period :: "string \<Rightarrow> (int \<times> int) option" where
  "parse_period s = (case split_on CHR ''-'' s of
       [a, b] \<Rightarrow> (case (py_int a, py_int b) of (Some y, Some m) \<Rightarrow> Some (y, m) | _ \<Rightarrow> None)
     | _ \<Rightarrow> None)"

definition in_month :: "int \<Rightarrow> int \<Rightarrow> date \<Rightarrow> bool" where
  "in_month y m d \<longleftrightarrow> year d = y \<and> month d = m"

end
