(* ===== verification/Numeric.thy ===== *)
theory Numeric
  imports Prelude
begin

text \<open>
  Python's \<open>Decimal\<close> and \<open>float\<close> arithmetic, as far as the code relies on it.
  A number is the rational it denotes. \<open>Decimal\<close> rounds the result of an operation to
  28 significant digits, half to even (the default context); \<open>float\<close> rounds to 53
  significant bits, half to even; both are \<open>round_sig\<close>. \<open>quantize\<close> rounds to a fixed
  number of decimal places with the mode the call names (half to even by default).
  Exponent limits are not modelled: the columns hold at most 24 digits.
\<close>

subsection \<open>Rounding to an integer\<close>

definition rhe :: "rat \<Rightarrow> int" where
  "rhe x = (let f = \<lfloor>x\<rfloor>; d = x - of_int f
            in if d < 1/2 then f else if 1/2 < d then f + 1 else if even f then f else f + 1)"

definition rhu :: "rat \<Rightarrow> int" where
  "rhu x = (if 0 \<le> x then \<lfloor>x + 1/2\<rfloor> else - \<lfloor>1/2 - x\<rfloor>)"

definition rdown :: "rat \<Rightarrow> int" where
  "rdown x = (if 0 \<le> x then \<lfloor>x\<rfloor> else \<lceil>x\<rceil>)"

lemma rhe_cases: "rhe x = \<lfloor>x\<rfloor> \<or> rhe x = \<lfloor>x\<rfloor> + 1"
  by (simp add: rhe_def Let_def)

lemma rhe_of_int [simp]: "rhe (of_int k) = k"
  by (simp add: rhe_def)

lemma rhe_int_eqs [simp]: "rhe 0 = 0" "rhe 1 = 1" "rhe (numeral n) = numeral n"
  using rhe_of_int [of 0] rhe_of_int [of 1] rhe_of_int [of "numeral n"] by simp_all

lemma rhe_err: "\<bar>of_int (rhe x) - x\<bar> \<le> 1/2"
proof -
  have "of_int \<lfloor>x\<rfloor> \<le> x" "x < of_int \<lfloor>x\<rfloor> + 1" using floor_correct [of x] by auto
  then show ?thesis unfolding rhe_def Let_def by (auto simp: abs_if simp del: of_int_floor_le)
qed

lemma rhe_mono:
  assumes "x \<le> y" shows "rhe x \<le> rhe y"
proof (cases "\<lfloor>x\<rfloor> = \<lfloor>y\<rfloor>")
  case True
  with assms show ?thesis by (auto simp: rhe_def Let_def)
next
  case False
  with assms have "\<lfloor>x\<rfloor> + 1 \<le> \<lfloor>y\<rfloor>" using floor_mono [OF assms] by linarith
  with rhe_cases [of x] rhe_cases [of y] show ?thesis by linarith
qed

lemma rhe_minus: "rhe (- x) = - rhe x"
proof -
  have l: "of_int \<lfloor>x\<rfloor> \<le> x" "x < of_int \<lfloor>x\<rfloor> + 1" using floor_correct [of x] by auto
  show ?thesis
  proof (cases "x = of_int \<lfloor>x\<rfloor>")
    case True
    then have "rhe x = \<lfloor>x\<rfloor>" using rhe_of_int [of "\<lfloor>x\<rfloor>"] by simp
    moreover have "rhe (- x) = - \<lfloor>x\<rfloor>" using True rhe_of_int [of "- \<lfloor>x\<rfloor>"] by simp
    ultimately show ?thesis by simp
  next
    case False
    then have "of_int \<lfloor>x\<rfloor> < x" using l(1) by (metis order_le_neq_trans)
    with l(2) have "of_int (- \<lfloor>x\<rfloor> - 1) \<le> - x \<and> - x < of_int (- \<lfloor>x\<rfloor> - 1) + 1" by auto
    then have f: "\<lfloor>- x\<rfloor> = - \<lfloor>x\<rfloor> - 1" by (metis floor_unique)
    show ?thesis by (auto simp: rhe_def Let_def f)
  qed
qed

lemma rdown_nonneg: "0 \<le> x \<Longrightarrow> 0 \<le> rdown x \<and> of_int (rdown x) \<le> x \<and> x < of_int (rdown x) + 1"
  using floor_correct [of x] by (auto simp: rdown_def)

lemma rdown_of_int [simp]: "rdown (of_int k) = k"
  by (simp add: rdown_def)

subsection \<open>Quantizing\<close>

definition quantize_he :: "nat \<Rightarrow> rat \<Rightarrow> rat" where
  "quantize_he n x = of_int (rhe (x * 10 ^ n)) / 10 ^ n"

definition quantize_hu :: "nat \<Rightarrow> rat \<Rightarrow> rat" where
  "quantize_hu n x = of_int (rhu (x * 10 ^ n)) / 10 ^ n"

text \<open>A value a column of \<open>n\<close> decimal places can hold.\<close>

definition places :: "nat \<Rightarrow> rat \<Rightarrow> bool" where
  "places n x \<longleftrightarrow> of_int \<lfloor>x * 10 ^ n\<rfloor> = x * 10 ^ n"

lemma placesI: "x * 10 ^ n = of_int k \<Longrightarrow> places n x"
  by (simp add: places_def)

lemma placesE: "places n x \<Longrightarrow> (\<And>k. x = of_int k / 10 ^ n \<Longrightarrow> thesis) \<Longrightarrow> thesis"
  by (simp add: places_def) (metis nonzero_mult_div_cancel_right power_not_zero zero_neq_numeral)

lemma places_frac [simp]: "places n (of_int k / 10 ^ n)"
  by (rule placesI [of _ _ k]) simp

lemma places_0 [simp]: "places n 0"
  by (simp add: places_def)

lemma places_quantize_he [simp]: "places n (quantize_he n x)"
  by (simp add: quantize_he_def)

lemma places_quantize_hu [simp]: "places n (quantize_hu n x)"
  by (simp add: quantize_hu_def)

lemma places_add [simp]: "places n x \<Longrightarrow> places n y \<Longrightarrow> places n (x + y)"
  by (elim placesE, rule placesI [where k = "_ + _"]) (simp add: field_simps)

lemma places_minus [simp]: "places n x \<Longrightarrow> places n (- x)"
  by (elim placesE, rule placesI [where k = "- _"]) (simp add: field_simps)

lemma places_diff [simp]: "places n x \<Longrightarrow> places n y \<Longrightarrow> places n (x - y)"
  using places_add [of n x "- y"] by simp

lemma quantize_he_places: "places n x \<Longrightarrow> quantize_he n x = x"
  by (elim placesE) (simp add: quantize_he_def)

lemma quantize_he_err: "\<bar>quantize_he n x - x\<bar> \<le> 1 / (2 * 10 ^ n)"
proof -
  have "\<bar>of_int (rhe (x * 10 ^ n)) - x * 10 ^ n\<bar> \<le> 1/2" by (rule rhe_err)
  then have "\<bar>of_int (rhe (x * 10 ^ n)) - x * 10 ^ n\<bar> / 10 ^ n \<le> (1/2) / 10 ^ n"
    by (rule divide_right_mono) simp
  moreover have "\<bar>of_int (rhe (x * 10 ^ n)) - x * 10 ^ n\<bar> / 10 ^ n
      = \<bar>of_int (rhe (x * 10 ^ n)) / 10 ^ n - x\<bar>"
    by (subst abs_div_pos) (simp_all add: diff_divide_distrib)
  ultimately show ?thesis by (simp add: quantize_he_def)
qed

lemma quantize_he_mono: "x \<le> y \<Longrightarrow> quantize_he n x \<le> quantize_he n y"
  by (simp add: quantize_he_def divide_right_mono rhe_mono mult_right_mono)

lemma quantize_he_0 [simp]: "quantize_he n 0 = 0"
  by (simp add: quantize_he_def)

lemma quantize_he_nonneg: "0 \<le> x \<Longrightarrow> 0 \<le> quantize_he n x"
  using quantize_he_mono [of 0 x n] by simp

subsection \<open>Rounding to significant digits\<close>

fun ndig :: "nat \<Rightarrow> nat \<Rightarrow> nat" where
  "ndig b n = (if b < 2 \<or> n = 0 then 0 else Suc (ndig b (n div b)))"

declare ndig.simps [simp del]

lemma ndig_bounds:
  assumes "2 \<le> b" "0 < n"
  shows "0 < ndig b n \<and> b ^ (ndig b n - 1) \<le> n \<and> n < b ^ ndig b n"
  using assms
proof (induction b n rule: ndig.induct)
  case (1 b n)
  show ?case
  proof (cases "n div b = 0")
    case True
    then have "n < b" using 1 by (simp add: div_eq_0_iff)
    moreover have "ndig b n = 1"
      using 1(2,3) True by (simp add: ndig.simps [of b n] ndig.simps [of b 0])
    ultimately show ?thesis using 1 by simp
  next
    case False
    let ?d = "ndig b (n div b)"
    from False 1 have IH: "0 < ?d" "b ^ (?d - 1) \<le> n div b" "n div b < b ^ ?d" by auto
    have s: "ndig b n = Suc ?d" using 1 by (simp add: ndig.simps [of b n])
    have "b ^ ?d = b * b ^ (?d - 1)" using IH(1) by (metis power_eq_if less_numeral_extra(3))
    also have "\<dots> \<le> b * (n div b)" using IH(2) by simp
    also have "\<dots> \<le> n" by simp
    finally have lo: "b ^ ?d \<le> n" .
    have "n div b < b ^ ?d" by (fact IH(3))
    then have "n < b * b ^ ?d" using 1(2) by (simp add: div_less_iff_less_mult mult.commute)
    with s lo show ?thesis by simp
  qed
qed

text \<open>The exponent of the leading digit: the largest \<open>e\<close> with \<open>b powi e \<le> x\<close>.\<close>

definition magn :: "nat \<Rightarrow> rat \<Rightarrow> int" where
  "magn b x = (if 1 \<le> x then int (ndig b (nat \<lfloor>x\<rfloor>)) - 1
               else - int (ndig b (nat (\<lceil>1 / x\<rceil> - 1))))"

lemma magn_bounds:
  assumes b: "2 \<le> b" and x: "0 < x"
  shows "of_nat b powi magn b x \<le> x \<and> x < of_nat b powi (magn b x + 1)"
proof (cases "1 \<le> x")
  case True
  let ?n = "nat \<lfloor>x\<rfloor>"
  have n: "0 < ?n" "of_nat ?n \<le> x" "x < of_nat ?n + 1" using True floor_correct [of x] by (auto simp: le_floor_iff)
  from ndig_bounds [OF b n(1)]
  have d: "0 < ndig b ?n" "b ^ (ndig b ?n - 1) \<le> ?n" "?n < b ^ ndig b ?n" by auto
  have "rat_of_nat (b ^ (ndig b ?n - 1)) \<le> of_nat ?n" using d(2) by (rule of_nat_mono)
  moreover have "rat_of_nat ?n + 1 \<le> of_nat (b ^ ndig b ?n)"
    using d(3) by (metis Suc_leI of_nat_mono of_nat_Suc add.commute)
  ultimately have "of_nat b ^ (ndig b ?n - 1) \<le> x" "x < of_nat b ^ ndig b ?n"
    using n unfolding of_nat_power by linarith+
  moreover have "magn b x = int (ndig b ?n - 1)"
    using True d(1) by (simp add: magn_def of_nat_diff)
  moreover have "magn b x + 1 = int (ndig b ?n)"
    using True by (simp add: magn_def)
  ultimately show ?thesis by (metis power_int_of_nat)
next
  case False
  let ?m = "\<lceil>1 / x\<rceil>" and ?n = "nat (\<lceil>1 / x\<rceil> - 1)"
  have x1: "1 < 1 / x" using False x by simp
  then have m2: "2 \<le> ?m" by (simp add: less_ceiling_iff)
  have n: "0 < ?n" "rat_of_nat ?n < 1 / x" "1 / x \<le> of_nat ?n + 1" using m2 by linarith+
  from ndig_bounds [OF b n(1)]
  have d: "0 < ndig b ?n" "b ^ (ndig b ?n - 1) \<le> ?n" "?n < b ^ ndig b ?n" by auto
  have bp: "0 < rat_of_nat b" using b by simp
  have lo: "rat_of_nat b ^ (ndig b ?n - 1) < 1 / x"
    using le_less_trans [OF of_nat_mono [OF d(2)] n(2)] unfolding of_nat_power .
  have "rat_of_nat ?n + 1 \<le> of_nat (b ^ ndig b ?n)"
    using d(3) by (metis Suc_leI of_nat_mono of_nat_Suc add.commute)
  with n(3) have hi: "1 / x \<le> rat_of_nat b ^ ndig b ?n" by simp
  have "rat_of_nat b powi (- int (ndig b ?n)) \<le> x"
    using hi x bp by (simp add: power_int_minus field_simps)
  moreover have "x < rat_of_nat b powi (- int (ndig b ?n) + 1)"
  proof -
    have "- int (ndig b ?n) + 1 = - int (ndig b ?n - 1)" using d(1) by simp
    moreover have "x < rat_of_nat b powi (- int (ndig b ?n - 1))"
      unfolding power_int_minus power_int_of_nat using lo x bp by (simp add: field_simps)
    ultimately show ?thesis by metis
  qed
  ultimately show ?thesis using False by (simp add: magn_def)
qed

definition round_sig :: "nat \<Rightarrow> nat \<Rightarrow> rat \<Rightarrow> rat" where
  "round_sig b p x =
     (if x = 0 then 0
      else let u = of_nat b powi (magn b \<bar>x\<bar> - int p + 1) in of_int (rhe (x / u)) * u)"

lemma round_sig_0 [simp]: "round_sig b p 0 = 0"
  by (simp add: round_sig_def)

lemma round_sig_minus: "round_sig b p (- x) = - round_sig b p x"
  using rhe_minus [of "x / _"] by (simp add: round_sig_def Let_def)

lemma round_sig_pos_bounds:
  assumes b: "2 \<le> b" and p: "0 < p" and x: "0 < x"
  shows "of_nat b powi magn b x \<le> round_sig b p x"
    and "round_sig b p x \<le> of_nat b powi (magn b x + 1)"
proof -
  let ?B = "rat_of_nat b" and ?M = "magn b x"
  let ?u = "?B powi (?M - int p + 1)"
  have B: "0 < ?B" using b by simp
  then have u: "0 < ?u" by simp
  from magn_bounds [OF b x] have lo: "?B powi ?M \<le> x" and hi: "x < ?B powi (?M + 1)" by auto
  have e1: "?B powi ?M = of_int (int b ^ (p - 1)) * ?u"
  proof -
    have "?B powi ?M = ?B powi (int (p - 1) + (?M - int p + 1))" using p by simp
    also have "\<dots> = ?B powi int (p - 1) * ?u" using B by (subst power_int_add) auto
    finally show ?thesis by (simp add: power_int_of_nat)
  qed
  have e2: "?B powi (?M + 1) = of_int (int b ^ p) * ?u"
  proof -
    have "?B powi (?M + 1) = ?B powi (int p + (?M - int p + 1))" by simp
    also have "\<dots> = ?B powi int p * ?u" using B by (subst power_int_add) auto
    finally show ?thesis by (simp add: power_int_of_nat)
  qed
  have r: "round_sig b p x = of_int (rhe (x / ?u)) * ?u"
    using x by (simp add: round_sig_def Let_def)
  have "of_int (int b ^ (p - 1)) * ?u \<le> x" using lo unfolding e1 .
  then have "of_int (int b ^ (p - 1)) \<le> x / ?u" using u by (subst pos_le_divide_eq) auto
  then have "int b ^ (p - 1) \<le> rhe (x / ?u)" using rhe_mono rhe_of_int by metis
  then have "rat_of_int (int b ^ (p - 1)) \<le> of_int (rhe (x / ?u))" by (simp only: of_int_le_iff)
  then show "?B powi ?M \<le> round_sig b p x"
    unfolding r e1 using u by (rule mult_right_mono [OF _ less_imp_le])
  have "x \<le> of_int (int b ^ p) * ?u" using hi unfolding e2 by (rule less_imp_le)
  then have "x / ?u \<le> of_int (int b ^ p)" using u by (subst pos_divide_le_eq) auto
  then have "rhe (x / ?u) \<le> int b ^ p" using rhe_mono rhe_of_int by metis
  then have "rat_of_int (rhe (x / ?u)) \<le> of_int (int b ^ p)" by (simp only: of_int_le_iff)
  then show "round_sig b p x \<le> ?B powi (?M + 1)"
    unfolding r e2 using u by (rule mult_right_mono [OF _ less_imp_le])
qed

lemma round_sig_nonneg:
  assumes "2 \<le> b" "0 < p" "0 \<le> x" shows "0 \<le> round_sig b p x"
proof (cases "x = 0")
  case False
  with assms have "0 < rat_of_nat b powi magn b x" by simp
  also have "\<dots> \<le> round_sig b p x" using assms False by (intro round_sig_pos_bounds) auto
  finally show ?thesis by simp
qed simp

lemma round_sig_mono_pos:
  assumes b: "2 \<le> b" and p: "0 < p" and x: "0 < x" and xy: "x \<le> y"
  shows "round_sig b p x \<le> round_sig b p y"
proof -
  have y: "0 < y" using x xy by simp
  have B: "1 < rat_of_nat b" using b by simp
  have "rat_of_nat b powi magn b x < of_nat b powi (magn b y + 1)"
    using magn_bounds [OF b x] magn_bounds [OF b y] xy by linarith
  then have le: "magn b x \<le> magn b y"
    using B power_int_increasing [of "magn b y + 1" "magn b x" "rat_of_nat b"] by force
  show ?thesis
  proof (cases "magn b x = magn b y")
    case True
    let ?u = "rat_of_nat b powi (magn b y - int p + 1)"
    have u: "0 < ?u" using B by simp
    have "rhe (x / ?u) \<le> rhe (y / ?u)" using xy u by (intro rhe_mono divide_right_mono) auto
    then have "rat_of_int (rhe (x / ?u)) * ?u \<le> of_int (rhe (y / ?u)) * ?u"
      using u by (intro mult_right_mono) auto
    with True x y show ?thesis by (simp add: round_sig_def Let_def)
  next
    case False
    have "round_sig b p x \<le> of_nat b powi (magn b x + 1)" by (rule round_sig_pos_bounds [OF b p x])
    also have "\<dots> \<le> of_nat b powi magn b y"
      using False le B by (intro power_int_increasing) auto
    also have "\<dots> \<le> round_sig b p y" by (rule round_sig_pos_bounds [OF b p y])
    finally show ?thesis .
  qed
qed

lemma round_sig_mono:
  assumes b: "2 \<le> b" and p: "0 < p" and xy: "x \<le> y"
  shows "round_sig b p x \<le> round_sig b p y"
proof -
  consider "0 < x" | "x \<le> 0" "0 \<le> y" | "y < 0" by linarith
  then show ?thesis
  proof cases
    case 1
    with b p xy show ?thesis by (simp add: round_sig_mono_pos)
  next
    case 2
    then have "0 \<le> round_sig b p (- x)" "0 \<le> round_sig b p y"
      using round_sig_nonneg [OF b p] by auto
    then show ?thesis by (simp add: round_sig_minus)
  next
    case 3
    then have "round_sig b p (- y) \<le> round_sig b p (- x)"
      using xy by (intro round_sig_mono_pos [OF b p]) auto
    then show ?thesis by (simp add: round_sig_minus)
  qed
qed

text \<open>A number with at most \<open>p\<close> digits is not changed.\<close>

lemma round_sig_exact:
  assumes b: "2 \<le> b" and k: "\<bar>k\<bar> < int b ^ p" and x: "x = of_int k * of_nat b powi j"
  shows "round_sig b p x = x"
proof (cases "x = 0")
  case False
  let ?B = "rat_of_nat b" and ?M = "magn b \<bar>x\<bar>"
  have B: "1 < ?B" using b by simp
  have "?B powi ?M \<le> \<bar>x\<bar>" using magn_bounds [OF b] False by auto
  also have "\<dots> = of_int \<bar>k\<bar> * ?B powi j" using B x by (simp add: abs_mult)
  also have "\<dots> < of_int (int b ^ p) * ?B powi j"
    using k B by (intro mult_strict_right_mono) (auto simp only: of_int_less_iff, simp)
  also have "\<dots> = ?B powi (int p + j)" using B by (simp add: power_int_add power_int_of_nat)
  finally have "?M < int p + j"
    using B power_int_increasing [of "int p + j" ?M ?B] by force
  then obtain d where d: "j = (?M - int p + 1) + int d" by (metis add_le_cancel_left
      zle_iff_zadd add.commute zless_imp_add1_zle diff_add_eq le_diff_eq diff_diff_eq2 add_diff_eq)
  let ?u = "?B powi (?M - int p + 1)"
  have u: "?u \<noteq> 0" using B by simp
  have xd: "x = of_int (k * int b ^ d) * ?u"
  proof -
    have "?B powi j = ?u * ?B powi int d" using B by (subst d, subst power_int_add) auto
    with x show ?thesis by (simp add: mult_ac)
  qed
  then have "x / ?u = of_int (k * int b ^ d)" using u by (metis nonzero_mult_div_cancel_right)
  then have "rhe (x / ?u) = k * int b ^ d" by (metis rhe_of_int)
  moreover have "round_sig b p x = of_int (rhe (x / ?u)) * ?u"
    using False by (simp add: round_sig_def Let_def)
  ultimately show ?thesis using xd by metis
qed simp

subsection \<open>Decimal and float\<close>

definition dec :: "rat \<Rightarrow> rat" where
  "dec x = round_sig 10 28 x"

definition flt :: "rat \<Rightarrow> rat" where
  "flt x = round_sig 2 53 x"

text \<open>\<open>round(x, n)\<close> on a float: the nearest \<open>n\<close>-place decimal, as a float again.\<close>

definition py_round :: "nat \<Rightarrow> rat \<Rightarrow> rat" where
  "py_round n x = flt (quantize_he n x)"

lemma dec_mono: "x \<le> y \<Longrightarrow> dec x \<le> dec y"
  by (simp add: dec_def round_sig_mono)

lemma flt_mono: "x \<le> y \<Longrightarrow> flt x \<le> flt y"
  by (simp add: flt_def round_sig_mono)

lemma dec_0 [simp]: "dec 0 = 0"
  by (simp add: dec_def)

lemma flt_0 [simp]: "flt 0 = 0"
  by (simp add: flt_def)

lemma py_round_0 [simp]: "py_round n 0 = 0"
  by (simp add: py_round_def)

lemma py_round_mono: "x \<le> y \<Longrightarrow> py_round n x \<le> py_round n y"
  by (simp add: py_round_def flt_mono quantize_he_mono)

lemma dec_nonneg: "0 \<le> x \<Longrightarrow> 0 \<le> dec x"
  by (simp add: dec_def round_sig_nonneg)

lemma flt_nonneg: "0 \<le> x \<Longrightarrow> 0 \<le> flt x"
  by (simp add: flt_def round_sig_nonneg)

lemma dec_exact: "\<bar>k\<bar> < 10 ^ 28 \<Longrightarrow> x * 10 ^ n = of_int k \<Longrightarrow> dec x = x"
  unfolding dec_def
  by (rule round_sig_exact [of 10 k 28 x "- int n"])
     (auto simp: power_int_minus power_int_of_nat field_simps)

lemma flt_exact: "\<bar>k\<bar> < 2 ^ 53 \<Longrightarrow> x * 2 ^ n = of_int k \<Longrightarrow> flt x = x"
  unfolding flt_def
  by (rule round_sig_exact [of 2 k 53 x "- int n"])
     (auto simp: power_int_minus power_int_of_nat field_simps)

lemma dec_of_int: "\<bar>k\<bar> < 10 ^ 28 \<Longrightarrow> dec (of_int k) = of_int k"
  by (rule dec_exact [of k _ 0]) auto

lemma flt_of_int: "\<bar>k\<bar> < 2 ^ 53 \<Longrightarrow> flt (of_int k) = of_int k"
  by (rule flt_exact [of k _ 0]) auto

lemma dec_flt_consts [simp]:
  "dec 1 = 1" "dec 100 = 100" "flt 1 = 1" "flt 100 = 100" "flt 80 = 80"
  using dec_of_int [of 1] dec_of_int [of 100] flt_of_int [of 1] flt_of_int [of 100]
    flt_of_int [of 80] by simp_all

end
