(* ===== verification/Model.thy ===== *)
theory Model
  imports Exceptions Calendar Numeric
begin

text \<open>
  The tables of core/models/ as records and lists of rows, the effects a request or a
  worker leaves outside the database (events, emails, queued tasks, stored files), and
  the state every component works on. A UUID is a natural number; the state carries the
  stream \<open>uuid_src\<close> that \<open>uuid.uuid4\<close> draws from and the number of draws so far. A
  \<open>Decimal\<close> column is the rational it holds, a timestamp a number, and an absent value
  (SQL NULL, Python None) is \<open>None\<close>.
\<close>

subsection \<open>Rows\<close>

record category =
  cat_id :: uuid
  cat_name :: string
  cat_label :: string
  cat_type :: string
  cat_fallback :: bool

record user =
  user_id :: uuid
  user_name :: string
  user_email :: string
  user_phone :: "string option"
  employment_status :: "string option"
  income_bracket :: "string option"
  monthly_income :: "rat option"
  income_steadiness :: "string option"
  dependents_count :: int
  user_status :: string
  email_verified :: bool
  password :: "string option"

record consent =
  con_id :: uuid
  con_user :: uuid
  consent_type :: string
  policy_version :: string
  granted_at :: "int option"
  revoked_at :: "int option"
  con_created :: int

record preference =
  pref_id :: uuid
  pref_user :: uuid
  pref_language :: string
  pref_currency_format :: string
  pref_date_format :: string
  pref_cycle_start_day :: int
  pref_default_view :: string
  retain_raw_documents :: bool

datatype link_type = Manual | Synced

record bank_account =
  acc_id :: uuid
  acc_user :: uuid
  bank_name :: string
  account_type :: "string option"
  account_number :: string
  acc_currency :: string
  is_active :: bool
  link_type :: link_type
  acc_connection :: "uuid option"
  external_account_id :: "string option"

datatype conn_status = Pending_otp | Linked | Revoked | Failed

record connection =
  conn_id :: uuid
  conn_user :: uuid
  provider_slug :: string
  conn_status :: conn_status
  external_customer_id :: "string option"
  access_token :: "string option"
  refresh_token :: "string option"
  oauth_state :: "string option"
  error_reason :: "string option"
  linked_at :: "int option"

record txn =
  txn_id :: uuid
  txn_user :: uuid
  txn_account :: uuid
  txn_statement :: "uuid option"
  transaction_date :: date
  merchant_raw :: "string option"
  merchant_normalized :: "string option"
  txn_category :: "uuid option"
  amount :: rat
  txn_currency :: string
  is_recurring :: bool
  source :: string
  balance :: "rat option"
  transaction_type :: "string option"
  txn_created :: int

datatype st_status = Uploaded | Extracted | Normalized | Approved

datatype phase = Extraction | Normalization

record statement =
  st_id :: uuid
  st_user :: uuid
  st_account :: "uuid option"
  seaweed_file_id :: string
  checksum :: string
  file_size :: "nat option"
  file_type :: "string option"
  status :: st_status
  failure_reason :: "string option"
  failed_phase :: "phase option"
  is_processing :: bool
  start_transaction_date :: "date option"
  last_transaction_date :: "date option"
  upload_date :: int

record ocr_result =
  ocr_id :: uuid
  ocr_statement :: uuid
  ocr_file :: string
  ocr_engine :: string
  ocr_confidence :: rat
  processed_at :: int

text \<open>One transaction of the normalization agent's proposal. \<open>prop_date\<close> is what
  \<open>date.fromisoformat\<close> makes of the text, \<open>None\<close> where it raises.\<close>

record proposed =
  prop_date :: "date option"
  prop_merchant :: "string option"
  prop_amount :: rat
  prop_type :: "string option"

text \<open>The proposal; \<open>nj_transactions\<close> is \<open>None\<close> where the key is missing.\<close>

record normalized_json =
  nj_bank_name :: "string option"
  nj_account_number :: "string option"
  nj_transactions :: "proposed list option"

record normalized_row =
  nz_id :: uuid
  nz_statement :: uuid
  nz_payload :: normalized_json
  model_used :: string
  adjusted_at :: int

record anomaly =
  an_id :: uuid
  an_txn :: "uuid option"
  an_user :: uuid
  an_account :: "uuid option"
  an_category :: "string option"
  an_month :: string
  an_amount :: "rat option"
  an_reason :: string
  severity :: string
  resolved :: bool

record budget =
  b_id :: uuid
  b_user :: uuid
  b_name :: string
  b_template_key :: "string option"

record allocation =
  al_id :: uuid
  al_budget :: uuid
  al_category :: uuid
  al_percentage :: rat
  al_amount :: rat

text \<open>\<open>budget_history.previous_values\<close>: category name, percentage and amount as floats.\<close>

type_synonym snapshot = "(string \<times> rat \<times> rat) list"

record history =
  h_id :: uuid
  h_budget :: uuid
  h_previous :: snapshot
  h_changed_via :: string
  h_changed_at :: int

record goal =
  g_id :: uuid
  g_user :: uuid
  g_name :: string
  g_target :: rat
  g_months :: int
  g_created :: date

text \<open>A transaction as a bank's feed sends it; \<open>feed_date\<close> is what \<open>date.fromisoformat\<close> makes of the
  first ten characters, \<open>None\<close> where it raises.\<close>

record feed_txn =
  feed_external_id :: "string option"
  feed_date :: "date option"
  feed_merchant :: "string option"
  feed_amount :: rat
  feed_type :: "string option"
  feed_currency :: "string option"
  feed_balance :: "rat option"

subsection \<open>Effects\<close>

text \<open>Queued Celery messages. A pipeline message carries its target, its job, its poll
  counter and Celery's own count of retries.\<close>

datatype task =
    Process_pipeline uuid st_status "string option" nat nat
  | Ingest_synced uuid "feed_txn list"
  | Send_reset_email string string
  | Data_export uuid

datatype effect =
    Statement_status uuid uuid st_status bool "string option" "phase option"
  | Transaction_synced uuid uuid nat "uuid list"
  | Anomaly_detected uuid uuid "uuid list"
  | Notified uuid string
  | Embed_requested "uuid list"
  | Stored_file string
  | Deleted_prefix string

subsection \<open>The state\<close>

record db =
  users :: "user list"
  consents :: "consent list"
  preferences :: "preference list"
  categories :: "category list"
  accounts :: "bank_account list"
  connections :: "connection list"
  txns :: "txn list"
  statements :: "statement list"
  ocr_results :: "ocr_result list"
  normalized_records :: "normalized_row list"
  anomalies :: "anomaly list"
  budgets :: "budget list"
  allocations :: "allocation list"
  histories :: "history list"
  goals :: "goal list"
  uuid_src :: "nat \<Rightarrow> uuid"
  draws :: nat
  queue :: "task list"
  effects :: "effect list"

definition empty_db :: db where
  "empty_db = \<lparr>users = [], consents = [], preferences = [], categories = [], accounts = [],
     connections = [], txns = [], statements = [], ocr_results = [], normalized_records = [],
     anomalies = [], budgets = [], allocations = [], histories = [], goals = [],
     uuid_src = id, draws = 0, queue = [], effects = []\<rparr>"

definition fresh :: "db \<Rightarrow> uuid" where
  "fresh d = uuid_src d (draws d)"

definition draw :: "db \<Rightarrow> db" where
  "draw d = d\<lparr>draws := Suc (draws d)\<rparr>"

definition emit :: "effect \<Rightarrow> db \<Rightarrow> db" where
  "emit e d = d\<lparr>effects := effects d @ [e]\<rparr>"

definition enqueue :: "task \<Rightarrow> db \<Rightarrow> db" where
  "enqueue t d = d\<lparr>queue := queue d @ [t]\<rparr>"

lemma emit_simps [simp]:
  "users (emit e d) = users d" "consents (emit e d) = consents d"
  "preferences (emit e d) = preferences d" "categories (emit e d) = categories d"
  "accounts (emit e d) = accounts d" "connections (emit e d) = connections d"
  "txns (emit e d) = txns d" "statements (emit e d) = statements d"
  "ocr_results (emit e d) = ocr_results d" "normalized_records (emit e d) = normalized_records d"
  "anomalies (emit e d) = anomalies d" "budgets (emit e d) = budgets d"
  "allocations (emit e d) = allocations d" "histories (emit e d) = histories d"
  "goals (emit e d) = goals d" "uuid_src (emit e d) = uuid_src d" "draws (emit e d) = draws d"
  "queue (emit e d) = queue d" "effects (emit e d) = effects d @ [e]"
  by (simp_all add: emit_def)

lemma draw_simps [simp]:
  "users (draw d) = users d" "consents (draw d) = consents d"
  "preferences (draw d) = preferences d" "categories (draw d) = categories d"
  "accounts (draw d) = accounts d" "connections (draw d) = connections d"
  "txns (draw d) = txns d" "statements (draw d) = statements d"
  "ocr_results (draw d) = ocr_results d" "normalized_records (draw d) = normalized_records d"
  "anomalies (draw d) = anomalies d" "budgets (draw d) = budgets d"
  "allocations (draw d) = allocations d" "histories (draw d) = histories d"
  "goals (draw d) = goals d" "uuid_src (draw d) = uuid_src d" "draws (draw d) = Suc (draws d)"
  "queue (draw d) = queue d" "effects (draw d) = effects d"
  by (simp_all add: draw_def)

lemma enqueue_simps [simp]:
  "users (enqueue t d) = users d"
  "consents (enqueue t d) = consents d"
  "preferences (enqueue t d) = preferences d"
  "categories (enqueue t d) = categories d"
  "accounts (enqueue t d) = accounts d"
  "connections (enqueue t d) = connections d"
  "txns (enqueue t d) = txns d"
  "statements (enqueue t d) = statements d"
  "ocr_results (enqueue t d) = ocr_results d"
  "normalized_records (enqueue t d) = normalized_records d"
  "anomalies (enqueue t d) = anomalies d"
  "budgets (enqueue t d) = budgets d"
  "allocations (enqueue t d) = allocations d"
  "histories (enqueue t d) = histories d"
  "goals (enqueue t d) = goals d"
  "uuid_src (enqueue t d) = uuid_src d"
  "draws (enqueue t d) = draws d"
  "effects (enqueue t d) = effects d"
  "queue (enqueue t d) = queue d @ [t]"
  by (simp_all add: enqueue_def)

text \<open>
  \<open>uuid4\<close> never repeats: the stream is injective, and every primary key of the table
  comes from a draw already made.
\<close>

definition drawn :: "db \<Rightarrow> uuid list \<Rightarrow> bool" where
  "drawn d ks \<longleftrightarrow> inj (uuid_src d) \<and> set ks \<subseteq> uuid_src d ` {..<draws d}"

lemma fresh_not_drawn: "drawn d ks \<Longrightarrow> fresh d \<notin> set ks"
proof
  assume d: "drawn d ks" and "fresh d \<in> set ks"
  then obtain i where "i < draws d" "uuid_src d i = uuid_src d (draws d)"
    unfolding drawn_def fresh_def by (metis imageE lessThan_iff subsetD)
  with d show False by (auto simp: drawn_def dest: injD)
qed

lemma drawn_fresh: "drawn d ks \<Longrightarrow> uuid_src d' = uuid_src d \<Longrightarrow> draws d' = Suc (draws d)
    \<Longrightarrow> drawn d' (ks @ [fresh d])"
  by (auto simp: drawn_def fresh_def lessThan_Suc)

lemma drawn_mono: "drawn d ks \<Longrightarrow> uuid_src d' = uuid_src d \<Longrightarrow> draws d \<le> draws d'
    \<Longrightarrow> set ks' \<subseteq> set ks \<Longrightarrow> drawn d' ks'"
  by (force simp: drawn_def)

type_synonym 'a response = "(exc + 'a) \<times> db"

end
