(* ===== verification/Categories.thy ===== *)
theory Categories
  imports Model
begin

text \<open>
  core/models/categories/: the seeded taxonomy (core/migrations/0011_category.py), the
  keyword guess for a bare merchant name and the resolution of a raw category string to a
  row of the table.
\<close>

subsection \<open>The seeded taxonomy\<close>

definition CATEGORY_SEED_DATA :: "(string \<times> string \<times> string \<times> bool) list" where
  "CATEGORY_SEED_DATA =
    [(''housing'', ''Housing'', ''expense'', False),
     (''food'', ''Food'', ''expense'', False),
     (''transport'', ''Transport'', ''expense'', False),
     (''savings'', ''Savings'', ''expense'', False),
     (''lifestyle'', ''Lifestyle'', ''expense'', False),
     (''other'', ''Other'', ''expense'', True),
     (''salary'', ''Salary'', ''income'', False),
     (''transfers_in'', ''Transfers In'', ''income'', False),
     (''other_income'', ''Other Income'', ''income'', True)]"

text \<open>\<open>bulk_create\<close> of the seed: one row per entry, with a new id.\<close>

definition seed_category :: "(string \<times> string \<times> string \<times> bool) \<Rightarrow> db \<Rightarrow> db" where
  "seed_category row d =
     (case row of (name, label, ty, fallback) \<Rightarrow>
        (draw d)\<lparr>categories := categories d @
           [\<lparr>cat_id = fresh d, cat_name = name, cat_label = label, cat_type = ty,
             cat_fallback = fallback\<rparr>]\<rparr>)"

definition seed_categories :: "db \<Rightarrow> db" where
  "seed_categories d = fold seed_category CATEGORY_SEED_DATA d"

definition remove_seeded_categories :: "db \<Rightarrow> db" where
  "remove_seeded_categories d =
     d\<lparr>categories := filter (\<lambda>c. cat_name c \<notin> set (map fst CATEGORY_SEED_DATA)) (categories d)\<rparr>"

subsection \<open>The keyword guess\<close>

definition EXPENSE_KEYWORD_CATEGORIES :: "(string \<times> string) list" where
  "EXPENSE_KEYWORD_CATEGORIES =
    [(''carrefour'', ''groceries''),
     (''spinneys'', ''groceries''),
     (''kazyon'', ''groceries''),
     (''grocery'', ''groceries''),
     (''groceries'', ''groceries''),
     (''supermarket'', ''groceries''),
     (''talabat'', ''dining''),
     (''mcdonald'', ''dining''),
     (''kfc'', ''dining''),
     (''starbucks'', ''dining''),
     (''costa'', ''dining''),
     (''cafe'', ''dining''),
     (''coffee'', ''dining''),
     (''restaurant'', ''dining''),
     (''uber'', ''transportation''),
     (''careem'', ''transportation''),
     (''swvl'', ''transportation''),
     (''metro'', ''transportation''),
     (''taxi'', ''transportation''),
     (''fuel'', ''transportation''),
     (''petrol'', ''transportation''),
     (''vodafone'', ''utilities''),
     (''orange eg'', ''utilities''),
     (''etisalat'', ''utilities''),
     (''electricity'', ''utilities''),
     (''water bill'', ''utilities''),
     (''internet'', ''utilities''),
     (''rent'', ''rent''),
     (''amazon'', ''shopping''),
     (''noon'', ''shopping''),
     (''jumia'', ''shopping''),
     (''mall'', ''shopping''),
     (''netflix'', ''entertainment''),
     (''spotify'', ''entertainment''),
     (''cinema'', ''entertainment''),
     (''gym'', ''entertainment'')]"

definition INCOME_KEYWORD_CATEGORIES :: "(string \<times> string) list" where
  "INCOME_KEYWORD_CATEGORIES =
    [(''salary'', ''salary''),
     (''payroll'', ''salary''),
     (''transfer'', ''transfer''),
     (''refund'', ''transfer'')]"

definition is_credit :: "string option \<Rightarrow> bool" where
  "is_credit ty \<longleftrightarrow> str_lower (str_strip (str_or ty '''')) = ''credit''"

fun first_keyword :: "(string \<times> string) list \<Rightarrow> string \<Rightarrow> string option" where
  "first_keyword [] lowered = None"
| "first_keyword ((keyword, cat) # ks) lowered =
     (if str_in keyword lowered then Some cat else first_keyword ks lowered)"

definition guess_category_from_merchant :: "string option \<Rightarrow> string option \<Rightarrow> string option" where
  "guess_category_from_merchant merchant ty =
     (case merchant of
        None \<Rightarrow> None
      | Some m \<Rightarrow>
          if m = [] then None
          else
            let keywords = if is_credit ty then INCOME_KEYWORD_CATEGORIES
                           else EXPENSE_KEYWORD_CATEGORIES
            in case first_keyword keywords (str_lower m) of
                 Some cat \<Rightarrow> Some cat
               | None \<Rightarrow> Some m)"

subsection \<open>Resolution\<close>

definition CATEGORY_ALIASES :: "(string \<times> string) list" where
  "CATEGORY_ALIASES =
    [(''groceries'', ''food''),
     (''dining'', ''food''),
     (''restaurants'', ''food''),
     (''transportation'', ''transport''),
     (''utilities'', ''housing''),
     (''bills'', ''housing''),
     (''rent'', ''housing''),
     (''shopping'', ''lifestyle''),
     (''entertainment'', ''lifestyle''),
     (''health'', ''other''),
     (''income'', ''other_income''),
     (''transfer'', ''transfers_in'')]"

definition category_named :: "category list \<Rightarrow> string \<Rightarrow> category option" where
  "category_named cs name = first_pk cat_id (filter (\<lambda>c. cat_name c = name) cs)"

definition fallback_category :: "category list \<Rightarrow> bool \<Rightarrow> category option" where
  "fallback_category cs is_income =
     first_pk cat_id (filter (\<lambda>c. cat_fallback c \<and>
        cat_type c = (if is_income then ''income'' else ''expense'')) cs)"

definition resolve_category :: "category list \<Rightarrow> string option \<Rightarrow> string option \<Rightarrow> category option" where
  "resolve_category cs raw ty =
     (case raw of
        None \<Rightarrow> None
      | Some r \<Rightarrow>
          let key = str_lower (str_strip r)
          in case category_named cs key of
               Some c \<Rightarrow> Some c
             | None \<Rightarrow>
                 (case (case map_of CATEGORY_ALIASES key of
                          None \<Rightarrow> None
                        | Some alias \<Rightarrow> category_named cs alias) of
                    Some c \<Rightarrow> Some c
                  | None \<Rightarrow> fallback_category cs (is_credit ty)))"


subsection \<open>A taxonomy in place\<close>

text \<open>
  What the migrations leave: every seeded row is there, names are unique, no category is
  called by an alias, and each direction has one fallback row.
\<close>

definition taxonomy :: "category list \<Rightarrow> bool" where
  "taxonomy cs \<longleftrightarrow>
     distinct (map cat_name cs) \<and>
     (\<forall>(name, label, ty, fallback) \<in> set CATEGORY_SEED_DATA.
        \<exists>c \<in> set cs. cat_name c = name \<and> cat_type c = ty \<and> cat_fallback c = fallback) \<and>
     cat_name ` set cs \<inter> fst ` set CATEGORY_ALIASES = {} \<and>
     (\<forall>c \<in> set cs. \<forall>c' \<in> set cs.
        cat_fallback c \<and> cat_fallback c' \<and> cat_type c = cat_type c' \<longrightarrow> c = c')"

definition side :: "string option \<Rightarrow> string" where
  "side ty = (if is_credit ty then ''income'' else ''expense'')"

lemma category_named_Some: "category_named cs n = Some c \<Longrightarrow> c \<in> set cs \<and> cat_name c = n"
  unfolding category_named_def by (rule first_pk_filterD)

lemma fallback_category_Some:
  "fallback_category cs i = Some c \<Longrightarrow>
   c \<in> set cs \<and> cat_fallback c \<and> cat_type c = (if i then ''income'' else ''expense'')"
  unfolding fallback_category_def by (rule first_pk_filterD)

lemma category_named_None: "category_named cs n = None \<longleftrightarrow> n \<notin> cat_name ` set cs"
  by (auto simp: category_named_def filter_empty_conv)

lemma category_named_unique:
  assumes "distinct (map cat_name cs)" "c \<in> set cs"
  shows "category_named cs (cat_name c) = Some c"
proof -
  from assms(2) have "category_named cs (cat_name c) \<noteq> None"
    by (auto simp: category_named_None)
  then obtain c' where c': "category_named cs (cat_name c) = Some c'" by blast
  then have "c' \<in> set cs" "cat_name c' = cat_name c"
    by (auto dest: category_named_Some)
  with assms have "c' = c" by (auto simp: distinct_map dest: inj_onD)
  with c' show ?thesis by simp
qed

lemma taxonomy_named:
  assumes "taxonomy cs" "(name, label, ty, fb) \<in> set CATEGORY_SEED_DATA"
  obtains c where "category_named cs name = Some c" "c \<in> set cs" "cat_type c = ty"
    "cat_fallback c = fb" "cat_name c = name"
proof -
  have "\<forall>(name, label, ty, fallback) \<in> set CATEGORY_SEED_DATA.
      \<exists>c \<in> set cs. cat_name c = name \<and> cat_type c = ty \<and> cat_fallback c = fallback"
    using assms(1) by (simp add: taxonomy_def)
  from bspec [OF this assms(2)] obtain c where
    c: "c \<in> set cs" "cat_name c = name" "cat_type c = ty" "cat_fallback c = fb" by auto
  with assms(1) have "category_named cs name = Some c"
    using category_named_unique [of cs c] by (simp add: taxonomy_def)
  with c that show thesis by blast
qed

lemma taxonomy_fallback:
  assumes "taxonomy cs"
  obtains c where "fallback_category cs i = Some c"
    "c \<in> set cs" "cat_fallback c" "cat_type c = (if i then ''income'' else ''expense'')"
proof -
  have "(if i then (''other_income'', ''Other Income'', ''income'', True)
         else (''other'', ''Other'', ''expense'', True)) \<in> set CATEGORY_SEED_DATA"
    by (simp add: CATEGORY_SEED_DATA_def)
  then obtain c where "c \<in> set cs" "cat_fallback c" "cat_type c = (if i then ''income'' else ''expense'')"
    using assms by (cases i) (force elim: taxonomy_named)+
  then have "fallback_category cs i \<noteq> None"
    by (auto simp: fallback_category_def filter_empty_conv)
  then show thesis using that by (auto dest: fallback_category_Some)
qed

lemma first_keyword_in: "first_keyword ks s = Some g \<Longrightarrow> g \<in> set (map snd ks)"
  by (induction ks s rule: first_keyword.induct) (auto split: if_splits)

lemma first_keyword_sound:
  "first_keyword ks s = Some g \<Longrightarrow> \<exists>k. (k, g) \<in> set ks \<and> str_in k s"
  by (induction ks s rule: first_keyword.induct) (auto split: if_splits)

lemma first_keyword_None: "first_keyword ks s = None \<longleftrightarrow> (\<forall>(k, g) \<in> set ks. \<not> str_in k s)"
  by (induction ks s rule: first_keyword.induct) auto

text \<open>Where each label of the keyword tables lands in the seeded taxonomy.\<close>

definition seeded_name :: "string \<Rightarrow> string" where
  "seeded_name g = (case map_of CATEGORY_ALIASES g of None \<Rightarrow> g | Some a \<Rightarrow> a)"

definition label_ok :: "string \<Rightarrow> string \<Rightarrow> bool" where
  "label_ok ty g \<longleftrightarrow>
     str_lower (str_strip g) = g \<and>
     list_ex (\<lambda>(name, label, t, fb). name = seeded_name g \<and> t = ty) CATEGORY_SEED_DATA"

lemma alias_targets:
  "list_all (\<lambda>a. a \<in> set (map fst CATEGORY_SEED_DATA)) (map snd CATEGORY_ALIASES)"
  by code_simp

lemma expense_labels: "list_all (label_ok ''expense'') (remdups (map snd EXPENSE_KEYWORD_CATEGORIES))"
  by code_simp

lemma income_labels: "list_all (label_ok ''income'') (remdups (map snd INCOME_KEYWORD_CATEGORIES))"
  by code_simp


lemma label_resolves:
  assumes "taxonomy cs" "label_ok t g"
  shows "\<exists>c. resolve_category cs (Some g) ty = Some c \<and> c \<in> set cs \<and> cat_type c = t"
proof -
  from assms(2) obtain label fb where seed: "(seeded_name g, label, t, fb) \<in> set CATEGORY_SEED_DATA"
    by (auto simp: label_ok_def list_ex_iff)
  then obtain c where c: "category_named cs (seeded_name g) = Some c" "c \<in> set cs" "cat_type c = t"
    using taxonomy_named [OF assms(1) seed] by metis
  show ?thesis
  proof (cases "category_named cs g")
    case None
    then have "seeded_name g \<noteq> g" using c(1) by auto
    then obtain a where "map_of CATEGORY_ALIASES g = Some a" "seeded_name g = a"
      by (auto simp: seeded_name_def split: option.splits)
    with None c assms(2) show ?thesis
      by (simp add: resolve_category_def label_ok_def)
  next
    case (Some c')
    then have "g \<in> cat_name ` set cs" by (auto dest: category_named_Some)
    then have "map_of CATEGORY_ALIASES g = None"
      using assms(1) by (auto simp: taxonomy_def map_of_eq_None_iff)
    then have "seeded_name g = g" by (simp add: seeded_name_def)
    with c Some assms(2) show ?thesis by (simp add: resolve_category_def label_ok_def)
  qed
qed

lemma resolve_category_in:
  "resolve_category cs raw ty = Some c \<Longrightarrow> c \<in> set cs"
  by (auto simp: resolve_category_def Let_def dest: category_named_Some fallback_category_Some
      split: option.splits)

lemma is_credit_consts [simp]:
  "is_credit None = False" "is_credit (Some ''credit'')" "\<not> is_credit (Some ''debit'')"
  by code_simp+

text \<open>The seed itself: what \<open>seed_categories\<close> leaves in an empty table is a taxonomy.\<close>

lemma seed_category_categories:
  "categories (seed_category (n, l, t, f) d) = categories d @
     [\<lparr>cat_id = fresh d, cat_name = n, cat_label = l, cat_type = t, cat_fallback = f\<rparr>]"
  by (simp add: seed_category_def)

lemma seed_fold_categories:
  "\<exists>ids. length ids = length rows \<and> categories (fold seed_category rows d) = categories d @
     map (\<lambda>(i, name, label, ty, fallback).
        \<lparr>cat_id = i, cat_name = name, cat_label = label, cat_type = ty,
         cat_fallback = fallback\<rparr>) (zip ids rows)"
proof (induction rows arbitrary: d)
  case Nil
  then show ?case by simp
next
  case (Cons r rows)
  obtain n l t f where r: "r = (n, l, t, f)" by (cases r)
  from Cons.IH [of "seed_category r d"] obtain ids where
    "length ids = length rows"
    "categories (fold seed_category (r # rows) d) = categories (seed_category r d) @
     map (\<lambda>(i, name, label, ty, fallback).
        \<lparr>cat_id = i, cat_name = name, cat_label = label, cat_type = ty,
         cat_fallback = fallback\<rparr>) (zip ids rows)" by auto
  then show ?case
    by (intro exI [of _ "fresh d # ids"]) (simp add: r seed_category_categories)
qed

lemma CATEGORY_SEED_DATA_length: "length CATEGORY_SEED_DATA = 9"
  by (simp add: CATEGORY_SEED_DATA_def)

lemma seeded_taxonomy:
  assumes "categories d = []"
  shows "taxonomy (categories (seed_categories d))"
proof -
  obtain ids where ids: "length ids = 9" "categories (seed_categories d) =
     map (\<lambda>(i, name, label, ty, fallback).
        \<lparr>cat_id = i, cat_name = name, cat_label = label, cat_type = ty,
         cat_fallback = fallback\<rparr>) (zip ids CATEGORY_SEED_DATA)"
    using seed_fold_categories [of CATEGORY_SEED_DATA d] assms
    by (auto simp: seed_categories_def CATEGORY_SEED_DATA_length)
  from ids(1) obtain i1 i2 i3 i4 i5 i6 i7 i8 i9 where "ids = [i1, i2, i3, i4, i5, i6, i7, i8, i9]"
    by (auto simp: numeral_eq_Suc length_Suc_conv)
  with ids(2) show ?thesis
    by (simp add: taxonomy_def CATEGORY_SEED_DATA_def CATEGORY_ALIASES_def)
qed


subsection \<open>The admin endpoints\<close>

text \<open>
  core/views/categories.py with its serializers. A request's field is \<open>None\<close> where the
  body leaves it out; DRF trims a \<open>CharField\<close>, collects the errors of all fields, and
  checks \<open>name\<close> unique with the row itself excluded on an update. The constraint on
  \<open>is_fallback\<close> is the database's alone: breaking it raises an \<open>IntegrityError\<close>.
\<close>

record category_req =
  req_name :: "string option"
  req_label :: "string option"
  req_type :: "string option"
  req_fallback :: "bool option"

definition char_errors :: "string \<Rightarrow> bool \<Rightarrow> string option \<Rightarrow> (string \<times> detail) list" where
  "char_errors field required v =
     (case v of
        None \<Rightarrow> if required then [(field, Seq [Str ''This field is required.''])] else []
      | Some s \<Rightarrow>
          if str_strip s = [] then [(field, Seq [Str ''This field may not be blank.''])]
          else if 100 < length (str_strip s)
          then [(field, Seq [Str ''Ensure this field has no more than 100 characters.''])]
          else [])"

definition name_errors :: "bool \<Rightarrow> category list \<Rightarrow> string option \<Rightarrow> (string \<times> detail) list" where
  "name_errors required others v =
     (case char_errors ''name'' required v of
        [] \<Rightarrow> if v \<noteq> None \<and> str_strip (the v) \<in> cat_name ` set others
              then [(''name'', Seq [Str ''category with this name already exists.''])] else []
      | es \<Rightarrow> es)"

definition type_errors :: "bool \<Rightarrow> string option \<Rightarrow> (string \<times> detail) list" where
  "type_errors required v =
     (case v of
        None \<Rightarrow> if required then [(''category_type'', Seq [Str ''This field is required.''])] else []
      | Some s \<Rightarrow> if s \<in> {''income'', ''expense''} then []
                  else [(''category_type'', Seq [Str ''Not a valid choice.''])])"

definition req_errors :: "bool \<Rightarrow> category list \<Rightarrow> category_req \<Rightarrow> (string \<times> detail) list" where
  "req_errors required others r =
     name_errors required others (req_name r) @ char_errors ''label'' required (req_label r) @
     type_errors required (req_type r)"

definition fallback_clash :: "category \<Rightarrow> category list \<Rightarrow> bool" where
  "fallback_clash c others \<longleftrightarrow>
     cat_fallback c \<and> (\<exists>c' \<in> set others. cat_fallback c' \<and> cat_type c' = cat_type c)"

definition create_category :: "category_req \<Rightarrow> db \<Rightarrow> category response" where
  "create_category r d =
     (case req_errors True (categories d) r of
        [] \<Rightarrow>
          let c = \<lparr>cat_id = fresh d, cat_name = str_strip (the (req_name r)),
                   cat_label = str_strip (the (req_label r)), cat_type = the (req_type r),
                   cat_fallback = case_option False id (req_fallback r)\<rparr>
          in if fallback_clash c (categories d) then (Inl (Unhandled ''IntegrityError''), draw d)
             else (Inr c, (draw d)\<lparr>categories := categories d @ [c]\<rparr>)
      | es \<Rightarrow> (Inl (ValidationError (Dict es)), d))"

definition update_category :: "uuid \<Rightarrow> category_req \<Rightarrow> db \<Rightarrow> category response" where
  "update_category k r d =
     (case by_pk cat_id (categories d) k of
        None \<Rightarrow> (Inl (Http404 ''No Category matches the given query.''), d)
      | Some c \<Rightarrow>
          let others = filter (\<lambda>c'. cat_id c' \<noteq> k) (categories d)
          in case req_errors False others r of
               [] \<Rightarrow>
                 let c' = c\<lparr>cat_name := case_option (cat_name c) str_strip (req_name r),
                            cat_label := case_option (cat_label c) str_strip (req_label r),
                            cat_type := case_option (cat_type c) id (req_type r),
                            cat_fallback := case_option (cat_fallback c) id (req_fallback r)\<rparr>
                 in if fallback_clash c' others then (Inl (Unhandled ''IntegrityError''), d)
                    else (Inr c', d\<lparr>categories := save_row cat_id c' (categories d)\<rparr>)
             | es \<Rightarrow> (Inl (ValidationError (Dict es)), d))"

definition category_in_use :: "db \<Rightarrow> uuid \<Rightarrow> bool" where
  "category_in_use d k \<longleftrightarrow>
     list_ex (\<lambda>t. txn_category t = Some k) (txns d) \<or>
     list_ex (\<lambda>a. al_category a = k) (allocations d)"

definition delete_category :: "uuid \<Rightarrow> db \<Rightarrow> unit response" where
  "delete_category k d =
     (case by_pk cat_id (categories d) k of
        None \<Rightarrow> (Inl (Http404 ''No Category matches the given query.''), d)
      | Some c \<Rightarrow>
          if category_in_use d k
          then (Inl (ConflictError ''This category is still in use by existing transactions or budget allocations and cannot be deleted.''), d)
          else (Inr (), d\<lparr>categories := filter (\<lambda>c'. cat_id c' \<noteq> k) (categories d)\<rparr>))"

datatype category_op =
    Create_category category_req
  | Update_category uuid category_req
  | Delete_category uuid

fun category_step :: "category_op \<Rightarrow> db \<Rightarrow> db" where
  "category_step (Create_category r) d = snd (create_category r d)"
| "category_step (Update_category k r) d = snd (update_category k r d)"
| "category_step (Delete_category k) d = snd (delete_category k d)"

text \<open>
  What the table's constraints and the protected foreign keys keep.
\<close>

definition known_type :: "string \<Rightarrow> bool" where
  "known_type ty \<longleftrightarrow> ty = ''income'' \<or> ty = ''expense''"

definition category_rows_ok :: "category list \<Rightarrow> bool" where
  "category_rows_ok cs \<longleftrightarrow>
     distinct (map cat_id cs) \<and> distinct (map cat_name cs) \<and>
     key_unique cat_id cat_type cat_fallback cs \<and>
     (\<forall>c \<in> set cs. known_type (cat_type c))"

definition categories_ok :: "db \<Rightarrow> bool" where
  "categories_ok d \<longleftrightarrow>
     drawn d (map cat_id (categories d)) \<and> category_rows_ok (categories d) \<and>
     (\<forall>t \<in> set (txns d). \<forall>k. txn_category t = Some k \<longrightarrow> k \<in> cat_id ` set (categories d)) \<and>
     (\<forall>a \<in> set (allocations d). al_category a \<in> cat_id ` set (categories d))"

lemma req_errors_Nil:
  assumes "req_errors required others r = []"
  shows "case_option (\<not> required) (\<lambda>n. str_strip n \<notin> cat_name ` set others) (req_name r)"
    and "case_option (\<not> required) known_type (req_type r)"
proof -
  have n: "name_errors required others (req_name r) = []" and t: "type_errors required (req_type r) = []"
    using assms by (simp_all add: req_errors_def)
  show "case_option (\<not> required) (\<lambda>n. str_strip n \<notin> cat_name ` set others) (req_name r)"
    using n by (cases "req_name r") (auto simp: name_errors_def char_errors_def split: if_splits)
  show "case_option (\<not> required) known_type (req_type r)"
    using t by (cases "req_type r") (auto simp: type_errors_def known_type_def split: if_splits)
qed

lemma create_category_cases:
  obtains
    (err) e d' where "create_category r d = (Inl e, d')" "d' = d \<or> d' = draw d"
  | (ok) c where "create_category r d = (Inr c, (draw d)\<lparr>categories := categories d @ [c]\<rparr>)"
      "cat_id c = fresh d" "cat_name c \<notin> cat_name ` set (categories d)"
      "known_type (cat_type c)" "\<not> fallback_clash c (categories d)"
proof (cases "req_errors True (categories d) r")
  case Nil
  from req_errors_Nil [OF this] obtain n ty where
    nt: "req_name r = Some n" "str_strip n \<notin> cat_name ` set (categories d)"
      "req_type r = Some ty" "known_type ty"
    by (cases "req_name r"; cases "req_type r") auto
  let ?c = "\<lparr>cat_id = fresh d, cat_name = str_strip n, cat_label = str_strip (the (req_label r)),
     cat_type = ty, cat_fallback = case_option False id (req_fallback r)\<rparr>"
  have "create_category r d = (if fallback_clash ?c (categories d)
      then (Inl (Unhandled ''IntegrityError''), draw d)
      else (Inr ?c, (draw d)\<lparr>categories := categories d @ [?c]\<rparr>))"
    using Nil nt by (simp add: create_category_def Let_def)
  then show thesis using nt that by (cases "fallback_clash ?c (categories d)") auto
next
  case (Cons e es)
  then show thesis using that(1) by (simp add: create_category_def)
qed

lemma update_category_cases:
  obtains
    (err) e where "update_category k r d = (Inl e, d)"
  | (ok) c c' where "update_category k r d = (Inr c', d\<lparr>categories := save_row cat_id c' (categories d)\<rparr>)"
      "by_pk cat_id (categories d) k = Some c" "cat_id c' = k"
      "cat_name c' = cat_name c \<or> cat_name c' \<notin> cat_name ` {x \<in> set (categories d). cat_id x \<noteq> k}"
      "cat_type c' = cat_type c \<or> known_type (cat_type c')"
      "\<not> fallback_clash c' (filter (\<lambda>x. cat_id x \<noteq> k) (categories d))"
proof (cases "by_pk cat_id (categories d) k")
  case None
  then show thesis using that(1) by (simp add: update_category_def)
next
  case (Some c)
  let ?others = "filter (\<lambda>x. cat_id x \<noteq> k) (categories d)"
  show thesis
  proof (cases "req_errors False ?others r")
    case Nil
    define c' where "c' = c\<lparr>cat_name := case_option (cat_name c) str_strip (req_name r),
       cat_label := case_option (cat_label c) str_strip (req_label r),
       cat_type := case_option (cat_type c) id (req_type r),
       cat_fallback := case_option (cat_fallback c) id (req_fallback r)\<rparr>"
    have eq: "update_category k r d = (if fallback_clash c' ?others
        then (Inl (Unhandled ''IntegrityError''), d)
        else (Inr c', d\<lparr>categories := save_row cat_id c' (categories d)\<rparr>))"
      using Nil Some by (simp add: update_category_def Let_def c'_def)
    have k: "cat_id c' = k" using by_pk_Some [OF Some] by (simp add: c'_def)
    have n: "cat_name c' = cat_name c \<or> cat_name c' \<notin> cat_name ` {x \<in> set (categories d). cat_id x \<noteq> k}"
      using req_errors_Nil(1) [OF Nil] by (cases "req_name r") (auto simp: c'_def)
    have ty: "cat_type c' = cat_type c \<or> known_type (cat_type c')"
      using req_errors_Nil(2) [OF Nil] by (cases "req_type r") (auto simp: c'_def)
    show thesis
    proof (cases "fallback_clash c' ?others")
      case True
      with eq that(1) show thesis by simp
    next
      case False
      with eq that(2) [OF _ Some k n ty] show thesis by simp
    qed
  next
    case (Cons e es)
    then show thesis using that(1) Some by (simp add: update_category_def Let_def)
  qed
qed


subsection \<open>What the endpoints keep\<close>

lemma no_clash:
  "\<not> fallback_clash c others \<Longrightarrow> cat_fallback c \<Longrightarrow> c' \<in> set others \<Longrightarrow> cat_fallback c' \<Longrightarrow>
   cat_type c' \<noteq> cat_type c"
  by (auto simp: fallback_clash_def)

lemma category_rows_ok_append:
  assumes "category_rows_ok cs" "cat_id c \<notin> cat_id ` set cs" "cat_name c \<notin> cat_name ` set cs"
    "known_type (cat_type c)" and clash: "\<not> fallback_clash c cs"
  shows "category_rows_ok (cs @ [c])"
  using assms(1-4) no_clash [OF clash]
  by (auto simp: category_rows_ok_def intro!: key_unique_append)

lemma category_rows_ok_save:
  assumes ok: "category_rows_ok cs" and "by_pk cat_id cs k = Some c" "cat_id c' = k"
    and n: "cat_name c' = cat_name c \<or> cat_name c' \<notin> cat_name ` {x \<in> set cs. cat_id x \<noteq> k}"
    and ty: "cat_type c' = cat_type c \<or> known_type (cat_type c')"
    and clash: "\<not> fallback_clash c' (filter (\<lambda>x. cat_id x \<noteq> k) cs)"
  shows "category_rows_ok (save_row cat_id c' cs)"
proof -
  have c: "c \<in> set cs" "cat_id c = cat_id c'"
    using by_pk_Some [OF assms(2)] assms(3) by auto
  have "distinct (map cat_name (save_row cat_id c' cs))"
    using n assms(3) ok by (intro distinct_map_save_row [OF _ _ c]) (simp_all add: category_rows_ok_def)
  moreover have "known_type (cat_type x)" if "x \<in> set (save_row cat_id c' cs)" for x
    using save_row_set [OF that] ty ok c(1) by (auto simp: category_rows_ok_def)
  moreover have "key_unique cat_id cat_type cat_fallback (save_row cat_id c' cs)"
    using ok assms(3) no_clash [OF clash] by (intro key_unique_save_row) (auto simp: category_rows_ok_def)
  ultimately show ?thesis using ok by (simp add: category_rows_ok_def)
qed

lemma category_rows_ok_filter: "category_rows_ok cs \<Longrightarrow> category_rows_ok (filter P cs)"
  by (auto simp: category_rows_ok_def distinct_map_filter key_unique_filter)

lemma create_category_keeps:
  assumes "categories_ok d"
  shows "categories_ok (snd (create_category r d))"
proof (cases rule: create_category_cases [of r d])
  case (err e d')
  with assms show ?thesis
    by (auto simp: categories_ok_def intro: drawn_mono)
next
  case (ok c)
  have fresh: "cat_id c \<notin> cat_id ` set (categories d)"
    using assms ok(2) fresh_not_drawn [of d "map cat_id (categories d)"] by (simp add: categories_ok_def)
  have "drawn ((draw d)\<lparr>categories := categories d @ [c]\<rparr>) (map cat_id (categories d) @ [fresh d])"
    using assms by (intro drawn_fresh) (auto simp: categories_ok_def)
  moreover have "category_rows_ok (categories d @ [c])"
    using assms ok fresh by (intro category_rows_ok_append) (auto simp: categories_ok_def)
  ultimately show ?thesis
    using assms ok(2) by (simp add: ok(1) categories_ok_def)
qed

lemma update_category_keeps:
  assumes "categories_ok d"
  shows "categories_ok (snd (update_category k r d))"
proof (cases rule: update_category_cases [where k = k and r = r and d = d])
  case (err e)
  with assms show ?thesis by simp
next
  case (ok c c')
  have ids: "cat_id ` set (save_row cat_id c' (categories d)) = cat_id ` set (categories d)"
    by (metis save_row_pks set_map)
  have "drawn (d\<lparr>categories := save_row cat_id c' (categories d)\<rparr>)
      (map cat_id (save_row cat_id c' (categories d)))"
    using assms by (auto simp: categories_ok_def drawn_def)
  moreover have "category_rows_ok (save_row cat_id c' (categories d))"
    using assms ok by (intro category_rows_ok_save) (auto simp: categories_ok_def)
  ultimately show ?thesis
    using assms by (simp add: ok(1) categories_ok_def ids)
qed

lemma delete_category_keeps:
  assumes "categories_ok d"
  shows "categories_ok (snd (delete_category k d))"
proof (cases "by_pk cat_id (categories d) k = None \<or> category_in_use d k")
  case True
  with assms show ?thesis by (auto simp: delete_category_def split: option.splits)
next
  case False
  then have "snd (delete_category k d) = d\<lparr>categories := filter (\<lambda>c'. cat_id c' \<noteq> k) (categories d)\<rparr>"
    by (auto simp: delete_category_def)
  moreover have "drawn (d\<lparr>categories := filter (\<lambda>c'. cat_id c' \<noteq> k) (categories d)\<rparr>)
      (map cat_id (filter (\<lambda>c'. cat_id c' \<noteq> k) (categories d)))"
    using assms by (auto simp: categories_ok_def elim!: drawn_mono)
  moreover have "j \<in> cat_id ` set (filter (\<lambda>c'. cat_id c' \<noteq> k) (categories d))"
    if "j \<in> cat_id ` set (categories d)" "j \<noteq> k" for j
    using that by auto
  ultimately show ?thesis
    using False assms by (auto simp: categories_ok_def category_in_use_def list_ex_iff category_rows_ok_filter)
qed

text \<open>C8. Whatever the admin endpoints do to the taxonomy, in any order and with any
  request, ids and names stay unique, each direction keeps at most one fallback, every
  type stays income or expense, and no transaction or budget allocation is left
  pointing at a category that is gone.\<close>

theorem category_admin_invariant:
  assumes "categories_ok d"
  shows "categories_ok (fold category_step ops d)"
  using assms
proof (induction ops arbitrary: d)
  case Nil
  then show ?case by simp
next
  case (Cons op ops)
  then have "categories_ok (category_step op d)"
    by (cases op) (simp_all add: create_category_keeps update_category_keeps delete_category_keeps)
  with Cons.IH show ?case by simp
qed

theorem category_admin_invariant_witness:
  "categories_ok (fold category_step
     [Create_category \<lparr>req_name = Some ''pets'', req_label = Some ''Pets'',
        req_type = Some ''expense'', req_fallback = None\<rparr>,
      Delete_category 0]
     empty_db)"
  by (rule category_admin_invariant)
    (simp add: categories_ok_def category_rows_ok_def empty_db_def drawn_def key_unique_def)

subsection \<open>What resolution promises\<close>

text \<open>A merchant name containing a keyword of its own direction always resolves to a
  category of that direction: money in to an income category, money out to an expense
  one.\<close>

theorem keyword_lands_on_its_side:
  assumes "taxonomy cs" "m \<noteq> []"
    "k \<in> fst ` set (if is_credit ty then INCOME_KEYWORD_CATEGORIES else EXPENSE_KEYWORD_CATEGORIES)"
    "str_in k (str_lower m)"
  shows "\<exists>c. resolve_category cs (guess_category_from_merchant (Some m) ty) ty = Some c \<and>
           c \<in> set cs \<and> cat_type c = side ty"
proof -
  let ?ks = "if is_credit ty then INCOME_KEYWORD_CATEGORIES else EXPENSE_KEYWORD_CATEGORIES"
  from assms(3,4) have "first_keyword ?ks (str_lower m) \<noteq> None"
    unfolding first_keyword_None by auto
  then obtain g where g: "first_keyword ?ks (str_lower m) = Some g" by blast
  then have "g \<in> set (map snd ?ks)" by (rule first_keyword_in)
  then have "label_ok (side ty) g"
    using expense_labels income_labels by (auto simp: list_all_iff side_def split: if_splits)
  with assms(1,2) g show ?thesis
    by (simp add: guess_category_from_merchant_def Let_def label_resolves)
qed

theorem keyword_lands_on_its_side_witness:
  "\<exists>c. resolve_category (categories (seed_categories empty_db))
         (guess_category_from_merchant (Some ''CARREFOUR MAADI'') (Some ''debit'')) (Some ''debit'') = Some c \<and>
       c \<in> set (categories (seed_categories empty_db)) \<and> cat_type c = side (Some ''debit'')"
proof (rule keyword_lands_on_its_side)
  show "taxonomy (categories (seed_categories empty_db))"
    by (rule seeded_taxonomy) (simp add: empty_db_def)
  show "''carrefour'' \<in> fst ` set (if is_credit (Some ''debit'') then INCOME_KEYWORD_CATEGORIES
      else EXPENSE_KEYWORD_CATEGORIES)"
    by (simp add: EXPENSE_KEYWORD_CATEGORIES_def)
  show "str_in ''carrefour'' (str_lower ''CARREFOUR MAADI'')" by code_simp
qed simp

text \<open>Resolution never loses a named category: over the seeded taxonomy every raw
  string resolves, to the category it names, else to the one its alias stands for, else to
  the fallback of the transaction's own direction; only a missing string stays
  uncategorised.\<close>

theorem resolve_category_total:
  assumes "taxonomy cs"
  shows "\<exists>c. resolve_category cs (Some r) ty = Some c \<and> c \<in> set cs \<and>
     (let key = str_lower (str_strip r) in
      if key \<in> cat_name ` set cs then cat_name c = key
      else (case map_of CATEGORY_ALIASES key of
              Some alias \<Rightarrow> cat_name c = alias
            | None \<Rightarrow> cat_fallback c \<and> cat_type c = side ty))"
proof -
  let ?key = "str_lower (str_strip r)"
  show ?thesis
  proof (cases "category_named cs ?key")
    case (Some c)
    then have c: "c \<in> set cs" "cat_name c = ?key" by (auto dest: category_named_Some)
    then have "?key \<in> cat_name ` set cs" by (metis image_eqI)
    with Some c show ?thesis by (simp add: resolve_category_def)
  next
    case None
    then have no: "?key \<notin> cat_name ` set cs" by (simp add: category_named_None)
    show ?thesis
    proof (cases "map_of CATEGORY_ALIASES ?key")
      case None': None
      obtain c where "fallback_category cs (is_credit ty) = Some c" "c \<in> set cs" "cat_fallback c"
        "cat_type c = (if is_credit ty then ''income'' else ''expense'')"
        by (rule taxonomy_fallback [OF assms])
      with None None' no show ?thesis by (simp add: resolve_category_def side_def)
    next
      case (Some a)
      then have "a \<in> snd ` set CATEGORY_ALIASES" by (metis map_of_SomeD image_eqI snd_conv)
      then have "a \<in> set (map fst CATEGORY_SEED_DATA)"
        using alias_targets by (auto simp: list_all_iff)
      then obtain l t fb where "(a, l, t, fb) \<in> set CATEGORY_SEED_DATA" by auto
      then obtain c where "category_named cs a = Some c" "c \<in> set cs" "cat_name c = a"
        by (rule taxonomy_named [OF assms])
      with None Some no show ?thesis by (simp add: resolve_category_def)
    qed
  qed
qed

theorem resolve_category_total_witness:
  "let cs = categories (seed_categories empty_db); key = str_lower (str_strip '' Rent '') in
   \<exists>c. resolve_category cs (Some '' Rent '') (Some ''credit'') = Some c \<and> c \<in> set cs \<and>
     (if key \<in> cat_name ` set cs then cat_name c = key
      else (case map_of CATEGORY_ALIASES key of
              Some alias \<Rightarrow> cat_name c = alias
            | None \<Rightarrow> cat_fallback c \<and> cat_type c = side (Some ''credit'')))"
  using resolve_category_total [OF seeded_taxonomy, of empty_db "'' Rent ''" "Some ''credit''"]
  by (simp add: empty_db_def Let_def)

text \<open>Undoing the seeding migration removes exactly the seeded names: what the table
  held under other names before the migration is what it holds after.\<close>

theorem seed_then_remove:
  "categories (remove_seeded_categories (seed_categories d)) =
     filter (\<lambda>c. cat_name c \<notin> set (map fst CATEGORY_SEED_DATA)) (categories d)"
proof -
  obtain ids where "length ids = length CATEGORY_SEED_DATA"
    "categories (seed_categories d) = categories d @
     map (\<lambda>(i, name, label, ty, fallback).
        \<lparr>cat_id = i, cat_name = name, cat_label = label, cat_type = ty,
         cat_fallback = fallback\<rparr>) (zip ids CATEGORY_SEED_DATA)"
    using seed_fold_categories [of CATEGORY_SEED_DATA d] by (auto simp: seed_categories_def)
  then show ?thesis
    by (auto simp: remove_seeded_categories_def filter_empty_conv dest!: set_zip_rightD
        intro!: rev_image_eqI)
qed

end
