(* ===== verification/Ledger.thy ===== *)
theory Ledger
  imports Categories "HOL-Library.List_Lexorder" "HOL-Library.Char_ord"
begin

text \<open>
  The ledger: core/models/aggregations/transaction.py, core/models/profile/bank_account.py,
  the transaction endpoints of core/views/aggregations.py and the account endpoints of
  core/views/profile.py. What a DRF serializer makes of a request body is an argument
  (\<open>Inl\<close> its errors, \<open>Inr\<close> its validated data), so each handler is the code between the
  serializer and the response. The AI service's embedding pass is best effort: its calls
  are \<open>Embed_requested\<close> entries of \<open>effects\<close> and its failures are swallowed.
\<close>

subsection \<open>Accounts and who may write to them\<close>

definition is_synced :: "bank_account \<Rightarrow> bool" where
  "is_synced a \<longleftrightarrow> link_type a = Synced"

definition assert_account_mutable :: "bank_account \<Rightarrow> exc + unit" where
  "assert_account_mutable a =
     guard_res (\<not> is_synced a)
       (BusinessRuleError ''This account is bank-integrated and syncs automatically; it can't be edited or deleted manually.''
          ''synced_account_read_only'' None)"

definition assert_bank_not_already_synced :: "uuid \<Rightarrow> string \<Rightarrow> db \<Rightarrow> exc + unit" where
  "assert_bank_not_already_synced u name d =
     guard_res (\<not> list_ex (\<lambda>a. acc_user a = u \<and> link_type a = Synced \<and>
                              str_lower (bank_name a) = str_lower name) (accounts d))
       (BusinessRuleError ''This bank is already connected; its accounts can only arrive through sync.''
          ''bank_account_source_of_truth'' None)"

definition owned_account :: "uuid \<Rightarrow> uuid \<Rightarrow> db \<Rightarrow> bank_account option" where
  "owned_account u k d = by_pk acc_id (filter (\<lambda>a. acc_user a = u) (accounts d)) k"

definition owned_txn :: "uuid \<Rightarrow> uuid \<Rightarrow> db \<Rightarrow> txn option" where
  "owned_txn u k d = by_pk txn_id (filter (\<lambda>t. txn_user t = u) (txns d)) k"

text \<open>\<open>instance.account\<close>: the row the foreign key points at.\<close>

definition account_of :: "db \<Rightarrow> txn \<Rightarrow> bank_account option" where
  "account_of d t = by_pk acc_id (accounts d) (txn_account t)"

definition mutable_ref :: "db \<Rightarrow> txn \<Rightarrow> exc + unit" where
  "mutable_ref d t = (case account_of d t of
       None \<Rightarrow> Inr ()
     | Some a \<Rightarrow> assert_account_mutable a)"

subsection \<open>The identity of a ledger row\<close>

type_synonym ledger_key = "uuid \<times> uuid \<times> date \<times> rat \<times> string option \<times> string option"

definition ledger_key :: "txn \<Rightarrow> ledger_key" where
  "ledger_key t = (txn_user t, txn_account t, transaction_date t, amount t, merchant_raw t, transaction_type t)"

definition matching :: "ledger_key \<Rightarrow> txn list \<Rightarrow> txn list" where
  "matching k ts = filter (\<lambda>t. ledger_key t = k) ts"

definition is_duplicate ::
  "txn list \<Rightarrow> uuid \<Rightarrow> uuid \<Rightarrow> date \<Rightarrow> rat \<Rightarrow> string option \<Rightarrow> string option \<Rightarrow> bool" where
  "is_duplicate ts u a dt am m ty \<longleftrightarrow> matching (u, a, dt, am, m, ty) ts \<noteq> []"

text \<open>The constraint \<open>unique_ledger_transaction_match\<close>: SQL counts NULLs as distinct.\<close>

definition unique_clash :: "txn \<Rightarrow> txn list \<Rightarrow> bool" where
  "unique_clash t others \<longleftrightarrow>
     merchant_raw t \<noteq> None \<and> transaction_type t \<noteq> None \<and> matching (ledger_key t) others \<noteq> []"

subsection \<open>The balance of an account\<close>

text \<open>\<open>order_by("-transaction_date", "-created_at").first()\<close>: the latest row, the first of
  its equals in the table's order.\<close>

definition later :: "txn \<Rightarrow> txn \<Rightarrow> bool" where
  "later s t \<longleftrightarrow> transaction_date t < transaction_date s \<or>
     transaction_date s = transaction_date t \<and> txn_created t < txn_created s"

fun newest :: "txn list \<Rightarrow> txn option" where
  "newest [] = None"
| "newest (t # ts) = (case newest ts of
       None \<Rightarrow> Some t
     | Some s \<Rightarrow> if later s t then Some s else Some t)"

definition account_rows :: "uuid \<Rightarrow> txn list \<Rightarrow> txn list" where
  "account_rows a ts = filter (\<lambda>t. txn_account t = a) ts"

definition credits :: "txn list \<Rightarrow> rat" where
  "credits ts = sum_of amount (\<lambda>t. transaction_type t = Some ''credit'') ts"

definition outflows :: "txn list \<Rightarrow> rat" where
  "outflows ts = sum_of amount (\<lambda>t. transaction_type t = None \<or> transaction_type t \<noteq> Some ''credit'') ts"

definition current_balance :: "uuid \<Rightarrow> txn list \<Rightarrow> rat" where
  "current_balance a ts =
     (let rows = account_rows a ts;
          anchor = newest (filter (\<lambda>t. balance t \<noteq> None) rows);
          base = (case anchor of None \<Rightarrow> 0 | Some t \<Rightarrow> the (balance t));
          movements = (case anchor of
              None \<Rightarrow> rows
            | Some t \<Rightarrow> filter (\<lambda>s. transaction_date t < transaction_date s \<or>
                transaction_date s = transaction_date t \<and> txn_created t < txn_created s) rows)
      in dec (dec (base + credits movements) - outflows movements))"

subsection \<open>Transactions\<close>

record txn_data =
  d_date :: date
  d_merchant :: "string option"
  d_category :: "uuid option"
  d_amount :: rat
  d_currency :: "string option"
  d_type :: "string option"
  d_recurring :: bool

definition embed_best_effort :: "uuid list \<Rightarrow> db \<Rightarrow> db" where
  "embed_best_effort ids d = emit (Embed_requested ids) d"

definition insert_txn :: "txn \<Rightarrow> db \<Rightarrow> db" where
  "insert_txn t d = (draw d)\<lparr>txns := txns d @ [t]\<rparr>"

definition manual_txn :: "int \<Rightarrow> uuid \<Rightarrow> bank_account \<Rightarrow> txn_data \<Rightarrow> db \<Rightarrow> txn" where
  "manual_txn now u a x d =
     \<lparr>txn_id = fresh d, txn_user = u, txn_account = acc_id a, txn_statement = None,
      transaction_date = d_date x, merchant_raw = d_merchant x, merchant_normalized = None,
      txn_category = d_category x, amount = d_amount x,
      txn_currency = str_or (d_currency x) (acc_currency a),
      is_recurring = d_recurring x, source = ''manual'', balance = None,
      transaction_type = d_type x, txn_created = now\<rparr>"

definition post_transaction ::
  "int \<Rightarrow> uuid \<Rightarrow> uuid option \<Rightarrow> detail + txn_data \<Rightarrow> db \<Rightarrow> txn response" where
  "post_transaction now u account_id validated d =
     (case account_id of
        None \<Rightarrow> (Inl (ValidationError (Dict [(''account_id'', Str ''This field is required.'')])), d)
      | Some k \<Rightarrow>
         (case owned_account u k d of
            None \<Rightarrow> (Inl (Http404 ''No BankAccount matches the given query.''), d)
          | Some a \<Rightarrow>
             (case assert_account_mutable a of
                Inl e \<Rightarrow> (Inl e, d)
              | Inr _ \<Rightarrow>
                 (case validated of
                    Inl es \<Rightarrow> (Inl (ValidationError es), d)
                  | Inr x \<Rightarrow>
                     (case first_pk txn_id
                        (matching (u, acc_id a, d_date x, d_amount x, d_merchant x, d_type x) (txns d)) of
                        Some dup \<Rightarrow>
                          (Inl (BusinessRuleError ''A transaction matching this date, amount, merchant, and direction already exists.''
                             ''duplicate_transaction'' (Some [(''transaction_id'', Str (uuid_str (txn_id dup)))])), d)
                      | None \<Rightarrow>
                          let t = manual_txn now u a x d
                          in (Inr t, embed_best_effort [txn_id t] (insert_txn t d)))))))"

text \<open>The fields a PATCH body carries, validated; a field it leaves out is \<open>None\<close>.\<close>

record txn_patch =
  p_category :: "uuid option option"
  p_merchant :: "string option option"
  p_amount :: "rat option"
  p_date :: "date option"
  p_type :: "string option option"
  p_recurring :: "bool option"

definition apply_patch :: "txn_patch \<Rightarrow> txn \<Rightarrow> txn" where
  "apply_patch p t = t\<lparr>
     txn_category := case_option (txn_category t) id (p_category p),
     merchant_raw := case_option (merchant_raw t) id (p_merchant p),
     amount := case_option (amount t) id (p_amount p),
     transaction_date := case_option (transaction_date t) id (p_date p),
     transaction_type := case_option (transaction_type t) id (p_type p),
     is_recurring := case_option (is_recurring t) id (p_recurring p)\<rparr>"

text \<open>\<open>SyncedTransactionPatchSerializer\<close> has only these two fields.\<close>

definition synced_patch :: "txn_patch \<Rightarrow> txn_patch" where
  "synced_patch p = \<lparr>p_category = p_category p, p_merchant = None, p_amount = None, p_date = None,
     p_type = None, p_recurring = p_recurring p\<rparr>"

definition embedding_relevant :: "txn_patch \<Rightarrow> bool" where
  "embedding_relevant p \<longleftrightarrow> p_merchant p \<noteq> None \<or> p_category p \<noteq> None \<or> p_amount p \<noteq> None \<or> p_date p \<noteq> None"

definition save_patched :: "txn_patch \<Rightarrow> txn \<Rightarrow> db \<Rightarrow> txn response" where
  "save_patched p t d =
     (let t' = apply_patch p t
      in if unique_clash t' (filter (\<lambda>s. txn_id s \<noteq> txn_id t) (txns d))
         then (Inl (Unhandled ''IntegrityError''), d)
         else let d' = d\<lparr>txns := save_row txn_id t' (txns d)\<rparr>
              in (Inr t', if embedding_relevant p then embed_best_effort [txn_id t] d' else d'))"

definition disallowed_fields :: "string list \<Rightarrow> string list" where
  "disallowed_fields keys = sort (remdups (filter (\<lambda>k. k \<notin> {''category'', ''is_recurring''}) keys))"

definition patch_transaction ::
  "uuid \<Rightarrow> uuid \<Rightarrow> string list \<Rightarrow> detail + txn_patch \<Rightarrow> db \<Rightarrow> txn response" where
  "patch_transaction u k keys validated d =
     (case owned_txn u k d of
        None \<Rightarrow> (Inl (Http404 ''No Transaction matches the given query.''), d)
      | Some t \<Rightarrow>
         if source t = ''synced'' then
           if disallowed_fields keys \<noteq> []
           then (Inl (BusinessRuleError ''Synced transactions only allow editing category and recurring status.''
                  ''synced_transaction_limited_edit''
                  (Some [(''fields'', Seq (map Str (disallowed_fields keys)))])), d)
           else (case validated of
                   Inl es \<Rightarrow> (Inl (ValidationError es), d)
                 | Inr p \<Rightarrow> save_patched (synced_patch p) t d)
         else
           (case mutable_ref d t of
              Inl e \<Rightarrow> (Inl e, d)
            | Inr _ \<Rightarrow>
               (case validated of
                  Inl es \<Rightarrow> (Inl (ValidationError es), d)
                | Inr p \<Rightarrow> save_patched p t d)))"

text \<open>Deleting a row cascades to the anomaly flags that point at it.\<close>

definition delete_txn :: "uuid \<Rightarrow> db \<Rightarrow> db" where
  "delete_txn k d = d\<lparr>txns := filter (\<lambda>t. txn_id t \<noteq> k) (txns d),
     anomalies := filter (\<lambda>f. an_txn f \<noteq> Some k) (anomalies d)\<rparr>"

definition delete_transaction :: "uuid \<Rightarrow> uuid \<Rightarrow> db \<Rightarrow> unit response" where
  "delete_transaction u k d =
     (case owned_txn u k d of
        None \<Rightarrow> (Inl (Http404 ''No Transaction matches the given query.''), d)
      | Some t \<Rightarrow>
         (case mutable_ref d t of
            Inl e \<Rightarrow> (Inl e, d)
          | Inr _ \<Rightarrow> (Inr (), delete_txn k d)))"

subsection \<open>Bulk delete\<close>

datatype skip_reason = Not_found | Account_not_mutable

record bulk_state =
  bulk_deleted :: "uuid list"
  bulk_skipped :: "(uuid \<times> skip_reason) list"
  bulk_db :: db

text \<open>
  The loop over the requested ids. \<open>found_by_id\<close> is read once before it, so a repeated id
  meets the same instance again, whose primary key Django has cleared: \<open>delete\<close> raises
  \<open>ValueError\<close> and the transaction rolls back.
\<close>

fun bulk_delete_loop :: "uuid \<Rightarrow> db \<Rightarrow> uuid list \<Rightarrow> bulk_state \<Rightarrow> exc + bulk_state" where
  "bulk_delete_loop u d0 [] s = Inr s"
| "bulk_delete_loop u d0 (k # ks) s =
     (case owned_txn u k d0 of
        None \<Rightarrow> bulk_delete_loop u d0 ks (s\<lparr>bulk_skipped := bulk_skipped s @ [(k, Not_found)]\<rparr>)
      | Some t \<Rightarrow>
         (case mutable_ref d0 t of
            Inl e \<Rightarrow> bulk_delete_loop u d0 ks (s\<lparr>bulk_skipped := bulk_skipped s @ [(k, Account_not_mutable)]\<rparr>)
          | Inr _ \<Rightarrow>
             if k \<in> set (bulk_deleted s) then Inl (Unhandled ''ValueError'')
             else bulk_delete_loop u d0 ks
                    (s\<lparr>bulk_deleted := bulk_deleted s @ [k], bulk_db := delete_txn k (bulk_db s)\<rparr>)))"

definition bulk_delete_transactions ::
  "uuid \<Rightarrow> detail + uuid list \<Rightarrow> db \<Rightarrow> (uuid list \<times> (uuid \<times> skip_reason) list) response" where
  "bulk_delete_transactions u validated d =
     (case validated of
        Inl es \<Rightarrow> (Inl (ValidationError es), d)
      | Inr ids \<Rightarrow>
         (case bulk_delete_loop u d ids \<lparr>bulk_deleted = [], bulk_skipped = [], bulk_db = d\<rparr> of
            Inl e \<Rightarrow> (Inl e, d)
          | Inr s \<Rightarrow> (Inr (bulk_deleted s, bulk_skipped s), bulk_db s)))"

subsection \<open>Accounts\<close>

record account_data =
  a_bank_name :: string
  a_type :: "string option"
  a_number :: string
  a_currency :: string
  a_active :: bool

definition post_account :: "uuid \<Rightarrow> detail + account_data \<Rightarrow> db \<Rightarrow> bank_account response" where
  "post_account u validated d =
     (case validated of
        Inl es \<Rightarrow> (Inl (ValidationError es), d)
      | Inr x \<Rightarrow>
         (case assert_bank_not_already_synced u (a_bank_name x) d of
            Inl e \<Rightarrow> (Inl e, d)
          | Inr _ \<Rightarrow>
              let a = \<lparr>acc_id = fresh d, acc_user = u, bank_name = a_bank_name x,
                       account_type = a_type x, account_number = a_number x,
                       acc_currency = a_currency x, is_active = a_active x, link_type = Manual,
                       acc_connection = None, external_account_id = None\<rparr>
              in (Inr a, (draw d)\<lparr>accounts := accounts d @ [a]\<rparr>)))"

record account_patch =
  ap_bank_name :: "string option"
  ap_type :: "string option option"
  ap_number :: "string option"
  ap_currency :: "string option"
  ap_active :: "bool option"

definition apply_account_patch :: "account_patch \<Rightarrow> bank_account \<Rightarrow> bank_account" where
  "apply_account_patch p a = a\<lparr>
     bank_name := case_option (bank_name a) id (ap_bank_name p),
     account_type := case_option (account_type a) id (ap_type p),
     account_number := case_option (account_number a) id (ap_number p),
     acc_currency := case_option (acc_currency a) id (ap_currency p),
     is_active := case_option (is_active a) id (ap_active p)\<rparr>"

text \<open>\<open>raw_bank_name\<close> is \<open>request.data.get("bank_name")\<close>, before the serializer trims it.\<close>

definition patch_account ::
  "uuid \<Rightarrow> uuid \<Rightarrow> string option \<Rightarrow> detail + account_patch \<Rightarrow> db \<Rightarrow> bank_account response" where
  "patch_account u k raw_bank_name validated d =
     (case owned_account u k d of
        None \<Rightarrow> (Inl (Http404 ''No BankAccount matches the given query.''), d)
      | Some a \<Rightarrow>
         (case res_bind (assert_account_mutable a) (\<lambda>_.
                 case raw_bank_name of
                   None \<Rightarrow> Inr ()
                 | Some n \<Rightarrow> if n = [] then Inr () else assert_bank_not_already_synced u n d) of
            Inl e \<Rightarrow> (Inl e, d)
          | Inr _ \<Rightarrow>
             (case validated of
                Inl es \<Rightarrow> (Inl (ValidationError es), d)
              | Inr p \<Rightarrow>
                  let a' = apply_account_patch p a
                  in (Inr a', d\<lparr>accounts := save_row acc_id a' (accounts d)\<rparr>))))"

text \<open>
  A hard delete: the account's transactions and anomaly flags go with it, and its
  statements lose the reference.
\<close>

definition delete_account_row :: "uuid \<Rightarrow> db \<Rightarrow> db" where
  "delete_account_row k d = d\<lparr>
     accounts := filter (\<lambda>a. acc_id a \<noteq> k) (accounts d),
     txns := filter (\<lambda>t. txn_account t \<noteq> k) (txns d),
     anomalies := filter (\<lambda>f. an_account f \<noteq> Some k \<and>
        (\<forall>t \<in> set (account_rows k (txns d)). an_txn f \<noteq> Some (txn_id t))) (anomalies d),
     statements := map (\<lambda>s. if st_account s = Some k then s\<lparr>st_account := None\<rparr> else s) (statements d)\<rparr>"

definition delete_account :: "uuid \<Rightarrow> uuid \<Rightarrow> db \<Rightarrow> unit response" where
  "delete_account u k d =
     (case owned_account u k d of
        None \<Rightarrow> (Inl (Http404 ''No BankAccount matches the given query.''), d)
      | Some a \<Rightarrow>
         (case assert_account_mutable a of
            Inl e \<Rightarrow> (Inl e, d)
          | Inr _ \<Rightarrow> (Inr (), delete_account_row k d)))"

text \<open>Everything a user can do to the ledger, as one step.\<close>

datatype ledger_op =
    Post_txn int "uuid option" "detail + txn_data"
  | Patch_txn uuid "string list" "detail + txn_patch"
  | Delete_txn uuid
  | Bulk_delete_txns "detail + uuid list"
  | Post_account "detail + account_data"
  | Patch_account uuid "string option" "detail + account_patch"
  | Delete_account uuid

fun ledger_step :: "uuid \<times> ledger_op \<Rightarrow> db \<Rightarrow> db" where
  "ledger_step (u, Post_txn now k v) d = snd (post_transaction now u k v d)"
| "ledger_step (u, Patch_txn k keys v) d = snd (patch_transaction u k keys v d)"
| "ledger_step (u, Delete_txn k) d = snd (delete_transaction u k d)"
| "ledger_step (u, Bulk_delete_txns v) d = snd (bulk_delete_transactions u v d)"
| "ledger_step (u, Post_account v) d = snd (post_account u v d)"
| "ledger_step (u, Patch_account k n v) d = snd (patch_account u k n v d)"
| "ledger_step (u, Delete_account k) d = snd (delete_account u k d)"

end
