(* ===== verification/Profile.thy ===== *)
theory Profile
  imports Ledger
begin

text \<open>
  core/views/profile.py beyond the accounts: the profile itself and its deletion, the
  preferences, the consent log and the data export, with the models they work on
  (core/models/profile/) and the consent check of core/permissions.py.
\<close>

subsection \<open>Consent\<close>

text \<open>The latest record \<^emph>\<open>of one type\<close> decides.\<close>

definition consent_log :: "uuid \<Rightarrow> string \<Rightarrow> db \<Rightarrow> consent list" where
  "consent_log u ty d = filter (\<lambda>c. con_user c = u \<and> consent_type c = ty) (consents d)"

definition has_active_consent :: "uuid \<Rightarrow> string \<Rightarrow> db \<Rightarrow> bool" where
  "has_active_consent u ty d =
     (case newest_by con_created (consent_log u ty d) of
        None \<Rightarrow> False
      | Some c \<Rightarrow> granted_at c \<noteq> None \<and> revoked_at c = None)"

definition require_consent :: "uuid \<Rightarrow> db \<Rightarrow> exc + unit" where
  "require_consent u d = guard_res (has_active_consent u ''data_processing'' d)
     (PermissionDenied ''Data processing consent is required for this action.'')"

definition add_consent :: "consent \<Rightarrow> db \<Rightarrow> db" where
  "add_consent c d = (draw d)\<lparr>consents := consents d @ [c]\<rparr>"

text \<open>The validated body is the consent type and the policy version.\<close>

definition grant_consent :: "int \<Rightarrow> uuid \<Rightarrow> detail + string \<times> string \<Rightarrow> db \<Rightarrow> consent response" where
  "grant_consent now u validated d =
     (case validated of
        Inl es \<Rightarrow> (Inl (ValidationError es), d)
      | Inr (ty, policy) \<Rightarrow>
          let c = \<lparr>con_id = fresh d, con_user = u, consent_type = ty, policy_version = policy,
                   granted_at = Some now, revoked_at = None, con_created = now\<rparr>
          in (Inr c, add_consent c d))"

definition revoke_consent :: "int \<Rightarrow> uuid \<Rightarrow> uuid \<Rightarrow> db \<Rightarrow> unit response" where
  "revoke_consent now u k d =
     (case by_pk con_id (filter (\<lambda>c. con_user c = u) (consents d)) k of
        None \<Rightarrow> (Inl (Http404 ''No ConsentRecord matches the given query.''), d)
      | Some target \<Rightarrow>
          (Inr (), add_consent \<lparr>con_id = fresh d, con_user = u, consent_type = consent_type target,
             policy_version = policy_version target, granted_at = None, revoked_at = Some now,
             con_created = now\<rparr> d))"

text \<open>GET lists the log newest first.\<close>

definition list_consents :: "uuid \<Rightarrow> db \<Rightarrow> consent list" where
  "list_consents u d = rev (sort_key con_created (filter (\<lambda>c. con_user c = u) (consents d)))"

subsection \<open>Preferences\<close>

definition default_preference :: "uuid \<Rightarrow> uuid \<Rightarrow> preference" where
  "default_preference k u = \<lparr>pref_id = k, pref_user = u, pref_language = ''en'',
     pref_currency_format = ''symbol'', pref_date_format = ''DD/MM/YYYY'', pref_cycle_start_day = 1,
     pref_default_view = ''monthly'', retain_raw_documents = False\<rparr>"

text \<open>\<open>get_or_create(user=...)\<close>: the row, created with its defaults where it is missing.\<close>

definition get_preferences :: "uuid \<Rightarrow> db \<Rightarrow> preference \<times> db" where
  "get_preferences u d =
     (case List.find (\<lambda>p. pref_user p = u) (preferences d) of
        Some p \<Rightarrow> (p, d)
      | None \<Rightarrow> let p = default_preference (fresh d) u
                in (p, (draw d)\<lparr>preferences := preferences d @ [p]\<rparr>))"

record preference_patch =
  pp_language :: "string option"
  pp_currency_format :: "string option"
  pp_date_format :: "string option"
  pp_cycle_start_day :: "int option"
  pp_default_view :: "string option"
  pp_retain :: "bool option"

definition apply_preference_patch :: "preference_patch \<Rightarrow> preference \<Rightarrow> preference" where
  "apply_preference_patch q p = p\<lparr>
     pref_language := case_option (pref_language p) id (pp_language q),
     pref_currency_format := case_option (pref_currency_format p) id (pp_currency_format q),
     pref_date_format := case_option (pref_date_format p) id (pp_date_format q),
     pref_cycle_start_day := case_option (pref_cycle_start_day p) id (pp_cycle_start_day q),
     pref_default_view := case_option (pref_default_view p) id (pp_default_view q),
     retain_raw_documents := case_option (retain_raw_documents p) id (pp_retain q)\<rparr>"

definition patch_preferences :: "uuid \<Rightarrow> detail + preference_patch \<Rightarrow> db \<Rightarrow> preference response" where
  "patch_preferences u validated d =
     (case get_preferences u d of
        (p, d') \<Rightarrow>
          (case validated of
             Inl es \<Rightarrow> (Inl (ValidationError es), d')
           | Inr q \<Rightarrow>
               let p' = apply_preference_patch q p
               in (Inr p', d'\<lparr>preferences := save_row pref_id p' (preferences d')\<rparr>)))"

subsection \<open>The profile\<close>

text \<open>The writable fields of \<open>UserSerializer\<close>; the read-only ones are ignored.\<close>

record user_patch =
  up_name :: "string option"
  up_phone :: "string option"
  up_employment :: "string option option"
  up_bracket :: "string option option"
  up_income :: "rat option option"
  up_steadiness :: "string option option"
  up_dependents :: "int option"

definition apply_user_patch :: "user_patch \<Rightarrow> user \<Rightarrow> user" where
  "apply_user_patch q x = x\<lparr>
     user_name := case_option (user_name x) id (up_name q),
     user_phone := case_option (user_phone x) Some (up_phone q),
     employment_status := case_option (employment_status x) id (up_employment q),
     income_bracket := case_option (income_bracket x) id (up_bracket q),
     monthly_income := case_option (monthly_income x) id (up_income q),
     income_steadiness := case_option (income_steadiness x) id (up_steadiness q),
     dependents_count := case_option (dependents_count x) id (up_dependents q)\<rparr>"

definition patch_me :: "user \<Rightarrow> detail + user_patch \<Rightarrow> db \<Rightarrow> user response" where
  "patch_me me validated d =
     (case validated of
        Inl es \<Rightarrow> (Inl (ValidationError es), d)
      | Inr q \<Rightarrow>
          let me' = apply_user_patch q me
          in (Inr me', d\<lparr>users := save_row user_id me' (users d)\<rparr>))"

definition user_is_active :: "user \<Rightarrow> bool" where
  "user_is_active x \<longleftrightarrow> user_status x = ''active''"

definition has_usable_password :: "user \<Rightarrow> bool" where
  "has_usable_password x \<longleftrightarrow> password x \<noteq> None"

text \<open>Deleting the user cascades through every table.\<close>

definition delete_user_rows :: "uuid \<Rightarrow> db \<Rightarrow> db" where
  "delete_user_rows u d =
     (let sts = map st_id (filter (\<lambda>s. st_user s = u) (statements d));
          bs = map b_id (filter (\<lambda>b. b_user b = u) (budgets d))
      in d\<lparr>users := filter (\<lambda>x. user_id x \<noteq> u) (users d),
           consents := filter (\<lambda>c. con_user c \<noteq> u) (consents d),
           preferences := filter (\<lambda>p. pref_user p \<noteq> u) (preferences d),
           accounts := filter (\<lambda>a. acc_user a \<noteq> u) (accounts d),
           connections := filter (\<lambda>c. conn_user c \<noteq> u) (connections d),
           txns := filter (\<lambda>t. txn_user t \<noteq> u) (txns d),
           statements := filter (\<lambda>s. st_user s \<noteq> u) (statements d),
           ocr_results := filter (\<lambda>r. ocr_statement r \<notin> set sts) (ocr_results d),
           normalized_records := filter (\<lambda>r. nz_statement r \<notin> set sts) (normalized_records d),
           anomalies := filter (\<lambda>f. an_user f \<noteq> u) (anomalies d),
           budgets := filter (\<lambda>b. b_user b \<noteq> u) (budgets d),
           allocations := filter (\<lambda>a. al_budget a \<notin> set bs) (allocations d),
           histories := filter (\<lambda>h. h_budget h \<notin> set bs) (histories d),
           goals := filter (\<lambda>g. g_user g \<noteq> u) (goals d)\<rparr>)"

definition delete_me :: "user \<Rightarrow> db \<Rightarrow> unit response" where
  "delete_me me d = (Inr (), delete_user_rows (user_id me) d)"

text \<open>A data export goes only to an address known to be the user's.\<close>

definition request_export :: "user \<Rightarrow> db \<Rightarrow> unit response" where
  "request_export me d =
     (if \<not> email_verified me \<and> has_usable_password me
      then (Inl (PermissionDenied (''Verify your email before requesting a data export '' @ em_dash @
              '' this makes sure it's sent to an address you actually control.'')), d)
      else (Inr (), enqueue (Data_export (user_id me)) d))"

subsection \<open>What the consent log decides\<close>

lemma consent_log_add:
  "consent_log u ty (add_consent c d) =
     consent_log u ty d @ (if con_user c = u \<and> consent_type c = ty then [c] else [])"
  by (simp add: consent_log_def add_consent_def)

lemma newest_consent_add:
  assumes "\<forall>c' \<in> set (consents d). con_created c' < con_created c"
  shows "has_active_consent u ty (add_consent c d) =
     (if con_user c = u \<and> consent_type c = ty then granted_at c \<noteq> None \<and> revoked_at c = None
      else has_active_consent u ty d)"
proof -
  have "newest_by con_created (consent_log u ty d @ [c]) = Some c"
    using assms by (intro newest_by_append) (auto simp: consent_log_def)
  then show ?thesis by (simp add: has_active_consent_def consent_log_add)
qed

text \<open>The log of a user's grants and revokes, with the time of each.\<close>

datatype consent_op = Grant string string | Revoke uuid

fun consent_step :: "uuid \<times> int \<times> consent_op \<Rightarrow> db \<Rightarrow> db" where
  "consent_step (u, now, Grant ty policy) d = snd (grant_consent now u (Inr (ty, policy)) d)"
| "consent_step (u, now, Revoke k) d = snd (revoke_consent now u k d)"

lemma consent_step_cases:
  "consent_step (u, now, op) d = d \<or>
   (\<exists>c. consent_step (u, now, op) d = add_consent c d \<and> con_created c = now \<and> con_user c = u)"
  by (cases op) (auto simp: grant_consent_def revoke_consent_def Let_def split: option.splits)

text \<open>C7. Consent is decided per type by the latest record alone: granting makes the check
  of that type pass and revoking a record makes the check of its type fail, whatever came
  before, and neither changes the check of another type or of another user; the log itself
  only ever grows.\<close>

theorem consent_latest_wins:
  assumes "\<forall>c \<in> set (consents d). con_created c < now"
  shows "has_active_consent v ty' (consent_step (u, now, op) d) =
      (case op of
         Grant ty policy \<Rightarrow> (v = u \<and> ty' = ty) \<or> has_active_consent v ty' d
       | Revoke k \<Rightarrow>
           (case by_pk con_id (filter (\<lambda>c. con_user c = u) (consents d)) k of
              None \<Rightarrow> has_active_consent v ty' d
            | Some target \<Rightarrow> \<not> (v = u \<and> ty' = consent_type target) \<and> has_active_consent v ty' d)) \<and>
    (\<exists>cs. consents (consent_step (u, now, op) d) = consents d @ cs)"
proof
  show "has_active_consent v ty' (consent_step (u, now, op) d) =
      (case op of
         Grant ty policy \<Rightarrow> (v = u \<and> ty' = ty) \<or> has_active_consent v ty' d
       | Revoke k \<Rightarrow>
           (case by_pk con_id (filter (\<lambda>c. con_user c = u) (consents d)) k of
              None \<Rightarrow> has_active_consent v ty' d
            | Some target \<Rightarrow> \<not> (v = u \<and> ty' = consent_type target) \<and> has_active_consent v ty' d))"
  proof (cases op)
    case (Grant ty policy)
    with assms show ?thesis by (auto simp: grant_consent_def Let_def newest_consent_add)
  next
    case (Revoke k)
    with assms show ?thesis
      by (auto simp: revoke_consent_def newest_consent_add split: option.splits)
  qed
  show "\<exists>cs. consents (consent_step (u, now, op) d) = consents d @ cs"
    using consent_step_cases [of u now op d] by (auto simp: add_consent_def)
qed

theorem consent_latest_wins_witness:
  "has_active_consent 1 ''data_processing'' (consent_step (1, 5, Grant ''data_processing'' ''v1'') empty_db) \<and>
   (\<exists>cs. consents (consent_step (1, 5, Grant ''data_processing'' ''v1'') empty_db) = consents empty_db @ cs)"
  using consent_latest_wins [of empty_db 5 1 "''data_processing''" 1 "Grant ''data_processing'' ''v1''"]
  by (simp add: empty_db_def)

end
