(* ===== verification/Statements.thy ===== *)
theory Statements
  imports Profile
begin

text \<open>
  Bank statements: core/models/statements/, core/views/statements.py,
  core/serializers/statements.py, core/tasks/statements.py and the object keys of
  services/file_storage.py. The AI service is the parameter \<open>ai\<close> (what each call answers,
  by the number of calls made so far), the object store's answer to a write and SHA-256
  are arguments; a Celery message is an entry of \<open>queue\<close>, and a worker takes one and runs
  it as one tick.
\<close>

subsection \<open>The model's properties\<close>

definition latest_ocr_run :: "db \<Rightarrow> uuid \<Rightarrow> ocr_result option" where
  "latest_ocr_run d k = newest_by processed_at (filter (\<lambda>r. ocr_statement r = k) (ocr_results d))"

definition latest_normalized_record :: "db \<Rightarrow> uuid \<Rightarrow> normalized_row option" where
  "latest_normalized_record d k =
     newest_by adjusted_at (filter (\<lambda>r. nz_statement r = k) (normalized_records d))"

definition normalized_payload :: "db \<Rightarrow> uuid \<Rightarrow> normalized_json option" where
  "normalized_payload d k = map_option nz_payload (latest_normalized_record d k)"

definition is_fully_processed :: "statement \<Rightarrow> bool" where
  "is_fully_processed s \<longleftrightarrow> status s = Approved"

definition save_statement :: "statement \<Rightarrow> db \<Rightarrow> db" where
  "save_statement s d = d\<lparr>statements := save_row st_id s (statements d)\<rparr>"

definition owned_statement :: "uuid \<Rightarrow> uuid \<Rightarrow> db \<Rightarrow> statement option" where
  "owned_statement u k d = by_pk st_id (filter (\<lambda>s. st_user s = u) (statements d)) k"

definition no_statement :: exc where
  "no_statement = Http404 ''No StatementFile matches the given query.''"

subsection \<open>Object keys\<close>

definition raw_statement_key :: "uuid \<Rightarrow> uuid \<Rightarrow> string \<Rightarrow> string" where
  "raw_statement_key u k ext = ''pfm-statements-raw/'' @ uuid_str u @ ''/'' @ uuid_str k @ ''/original.'' @ ext"

definition ocr_artifact_key :: "uuid \<Rightarrow> uuid \<Rightarrow> string" where
  "ocr_artifact_key u k = ''pfm-statements-ocr/'' @ uuid_str u @ ''/'' @ uuid_str k @ ''/''"

definition normalized_artifact_key :: "uuid \<Rightarrow> uuid \<Rightarrow> string" where
  "normalized_artifact_key u k =
     ''pfm-statements-normalized/'' @ uuid_str u @ ''/'' @ uuid_str k @ ''/normalized.json''"

subsection \<open>Upload\<close>

definition MAX_STATEMENT_UPLOAD_BYTES :: nat where
  "MAX_STATEMENT_UPLOAD_BYTES = 20 * 1024 * 1024"

definition ALLOWED_STATEMENT_EXTENSIONS :: "string list" where
  "ALLOWED_STATEMENT_EXTENSIONS = [''jpeg'', ''jpg'', ''pdf'', ''png'']"

definition ALLOWED_STATEMENT_CONTENT_TYPES :: "string list" where
  "ALLOWED_STATEMENT_CONTENT_TYPES = [''application/pdf'', ''image/png'', ''image/jpeg'']"

record upload =
  f_name :: string
  f_size :: nat
  f_content_type :: "string option"
  f_bytes :: string

text \<open>\<open>name.rsplit(".", 1)[-1].lower() if "." in name else default\<close>.\<close>

definition file_extension :: "string \<Rightarrow> string \<Rightarrow> string" where
  "file_extension dflt name =
     (if CHR ''.'' \<in> set name then str_lower (rev (takeWhile (\<lambda>c. c \<noteq> CHR ''.'') (rev name))) else dflt)"

definition validate_statement_upload :: "upload \<Rightarrow> exc + unit" where
  "validate_statement_upload f =
     (if MAX_STATEMENT_UPLOAD_BYTES < f_size f then
        Inl (drf_validation_error (Str (''File is too large ('' @ nat_str (f_size f) @ '' bytes) '' @ em_dash @
          '' the maximum is '' @ nat_str MAX_STATEMENT_UPLOAD_BYTES @ '' bytes.'')))
      else if file_extension '''' (f_name f) \<notin> set ALLOWED_STATEMENT_EXTENSIONS then
        Inl (drf_validation_error (Str (''Unsupported file type '' @ [CHR 0x27] @ file_extension '''' (f_name f) @
          [CHR 0x27] @ '' '' @ em_dash @ '' only jpeg, jpg, pdf, png files are accepted.'')))
      else if (case f_content_type f of None \<Rightarrow> False
               | Some ct \<Rightarrow> ct \<noteq> [] \<and> ct \<notin> set ALLOWED_STATEMENT_CONTENT_TYPES) then
        Inl (drf_validation_error (Str (''Unsupported content type '' @ [CHR 0x27] @ the (f_content_type f) @
          [CHR 0x27] @ '' for a bank statement upload.'')))
      else Inr ())"

text \<open>\<open>raise ValidationError({"file": exc.detail})\<close>.\<close>

definition under_file :: "exc \<Rightarrow> exc" where
  "under_file e = (case e of ValidationError det \<Rightarrow> ValidationError (Dict [(''file'', det)]) | _ \<Rightarrow> e)"

subsection \<open>Advancing the pipeline\<close>

fun rank :: "st_status \<Rightarrow> nat" where
  "rank Uploaded = 0"
| "rank Extracted = 1"
| "rank Normalized = 2"
| "rank Approved = 3"

fun phase_for_status :: "st_status \<Rightarrow> phase option" where
  "phase_for_status Uploaded = Some Extraction"
| "phase_for_status Extracted = Some Normalization"
| "phase_for_status Normalized = None"
| "phase_for_status Approved = None"

definition validate_advance :: "statement \<Rightarrow> st_status \<Rightarrow> exc + nat" where
  "validate_advance s target =
     (if status s = Approved then
        Inl (BusinessRuleError ''This statement has already been approved and cannot be retried.''
               ''already_approved'' None)
      else if is_processing s then
        Inl (BusinessRuleError ''This statement is currently being processed; try again shortly.''
               ''already_processing'' None)
      else if rank target \<le> rank (status s) then
        Inl (BusinessRuleError (''Target status must be ahead of the statement's current status.'')
               ''invalid_status_transition'' None)
      else Inr (rank target))"

definition advance_statement_to :: "statement \<Rightarrow> st_status \<Rightarrow> db \<Rightarrow> statement response" where
  "advance_statement_to s target d =
     (case validate_advance s target of
        Inl e \<Rightarrow> (Inl e, d)
      | Inr r \<Rightarrow>
          let s' = s\<lparr>is_processing := True\<rparr>
          in (Inr s', enqueue (Process_pipeline (st_id s) target None 0 0) (save_statement s' d)))"

text \<open>\<open>stored\<close> is what the object store's write raises, if it does.\<close>

definition create_statement_from_upload ::
  "(string \<Rightarrow> string) \<Rightarrow> (string \<Rightarrow> string \<Rightarrow> string option) \<Rightarrow> int \<Rightarrow> uuid \<Rightarrow> upload option \<Rightarrow>
   st_status option \<Rightarrow> db \<Rightarrow> statement response" where
  "create_statement_from_upload sha256 store now u file target d =
     (case file of
        None \<Rightarrow> (Inl (ValidationError (Dict [(''file'', Str ''This field is required.'')])), d)
      | Some f \<Rightarrow>
         (case validate_statement_upload f of
            Inl e \<Rightarrow> (Inl (under_file e), d)
          | Inr _ \<Rightarrow>
             let digest = sha256 (f_bytes f)
             in if list_ex (\<lambda>s. st_user s = u \<and> checksum s = digest) (statements d)
                then (Inl (ValidationError (Dict [(''file'', Str ''This exact file has already been uploaded.'')])), d)
                else
                  let ext = file_extension ''bin'' (f_name f);
                      k = fresh d;
                      key = raw_statement_key u k ext
                  in case store key (f_bytes f) of
                       Some msg \<Rightarrow>
                         (Inl (BusinessRuleError (''The file could not be stored: '' @ msg) ''storage_failed'' None), draw d)
                     | None \<Rightarrow>
                         let s = \<lparr>st_id = k, st_user = u, st_account = None, seaweed_file_id = key,
                                  checksum = digest, file_size = Some (length (f_bytes f)),
                                  file_type = Some ext, status = Uploaded, failure_reason = None,
                                  failed_phase = None, is_processing = False,
                                  start_transaction_date = None, last_transaction_date = None,
                                  upload_date = now\<rparr>;
                             d' = emit (Stored_file key) ((draw d)\<lparr>statements := statements d @ [s]\<rparr>)
                         in advance_statement_to s (case_option Normalized id target) d'))"

text \<open>POST /statements: consent, then the body's serializer, then the upload.\<close>

definition post_statement ::
  "(string \<Rightarrow> string) \<Rightarrow> (string \<Rightarrow> string \<Rightarrow> string option) \<Rightarrow> int \<Rightarrow> uuid \<Rightarrow>
   detail + upload \<times> st_status option \<Rightarrow> db \<Rightarrow> statement response" where
  "post_statement sha256 store now u validated d =
     (case require_consent u d of
        Inl e \<Rightarrow> (Inl e, d)
      | Inr _ \<Rightarrow>
         (case validated of
            Inl es \<Rightarrow> (Inl (ValidationError es), d)
          | Inr (f, target) \<Rightarrow> create_statement_from_upload sha256 store now u (Some f) target d))"

text \<open>PATCH /statements/{id}: the serializer admits only these two targets.\<close>

definition ADVANCE_TARGET_CHOICES :: "st_status list" where
  "ADVANCE_TARGET_CHOICES = [Extracted, Normalized]"

definition patch_statement :: "uuid \<Rightarrow> uuid \<Rightarrow> detail + st_status \<Rightarrow> db \<Rightarrow> statement response" where
  "patch_statement u k validated d =
     (case owned_statement u k d of
        None \<Rightarrow> (Inl no_statement, d)
      | Some s \<Rightarrow>
         (case validated of
            Inl es \<Rightarrow> (Inl (ValidationError es), d)
          | Inr target \<Rightarrow>
              if target \<in> set ADVANCE_TARGET_CHOICES then advance_statement_to s target d
              else (Inl (field_error ''status'' ''Not a valid choice.''), d)))"

subsection \<open>The pipeline's phases\<close>

definition POLL_INTERVAL_SECONDS :: nat where
  "POLL_INTERVAL_SECONDS = 15"

definition MAX_POLL_ATTEMPTS :: nat where
  "MAX_POLL_ATTEMPTS = 240"

text \<open>What a job of the AI service ends with.\<close>

datatype job_result =
    Extraction_result string string rat
  | Normalization_result normalized_json string

datatype job_state = Job_running | Job_succeeded job_result | Job_failed "string option"

text \<open>
  The service's answers: \<open>Inl\<close> is the text of the exception a call raises. The first
  argument counts the calls made before.
\<close>

record ai_client =
  submit_job :: "nat \<Rightarrow> phase \<Rightarrow> uuid \<Rightarrow> string + string"
  get_job_status :: "nat \<Rightarrow> string \<Rightarrow> string + job_state"

text \<open>\<open>_PHASE_SUBMIT\<close>: extraction submits the statement, normalization its latest OCR run.\<close>

definition phase_submit :: "ai_client \<Rightarrow> nat \<Rightarrow> phase \<Rightarrow> statement \<Rightarrow> db \<Rightarrow> string + string" where
  "phase_submit ai n ph s d =
     (case ph of
        Extraction \<Rightarrow> submit_job ai n Extraction (st_id s)
      | Normalization \<Rightarrow>
          (case latest_ocr_run d (st_id s) of
             None \<Rightarrow> Inl (CHR 0x27 # ''NoneType'' @ CHR 0x27 # '' object has no attribute '' @
                            CHR 0x27 # ''id'' @ [CHR 0x27])
           | Some r \<Rightarrow> submit_job ai n Normalization (ocr_id r)))"

text \<open>A DECIMAL(4, 3) column rounds to three places and refuses what needs more digits.\<close>

definition finalize_extraction_phase ::
  "int \<Rightarrow> statement \<Rightarrow> job_result \<Rightarrow> db \<Rightarrow> (string + statement) \<times> db" where
  "finalize_extraction_phase now s res d =
     (case res of
        Normalization_result js m \<Rightarrow> (Inl (CHR 0x27 # ''prefix'' @ [CHR 0x27]), d)
      | Extraction_result prefix engine conf \<Rightarrow>
          if 10 \<le> \<bar>quantize_he 3 conf\<bar> then (Inl ''InvalidOperation'', draw d)
          else
            let r = \<lparr>ocr_id = fresh d, ocr_statement = st_id s, ocr_file = prefix,
                     ocr_engine = engine, ocr_confidence = quantize_he 3 conf, processed_at = now\<rparr>;
                s' = s\<lparr>status := Extracted, failure_reason := None, failed_phase := None,
                       is_processing := False\<rparr>
            in (Inr s', save_statement s' ((draw d)\<lparr>ocr_results := ocr_results d @ [r]\<rparr>)))"

text \<open>
  \<open>BankAccount.objects.get_or_create(user, bank_name, account_number)\<close>: the one account
  that matches, else a new manual one; more than one raises.
\<close>

definition resolve_account :: "uuid \<Rightarrow> string \<Rightarrow> string \<Rightarrow> db \<Rightarrow> (string + uuid) \<times> db" where
  "resolve_account u name number d =
     (case filter (\<lambda>a. acc_user a = u \<and> bank_name a = name \<and> account_number a = number) (accounts d) of
        [] \<Rightarrow> (Inr (fresh d), (draw d)\<lparr>accounts := accounts d @
                [\<lparr>acc_id = fresh d, acc_user = u, bank_name = name, account_type = None,
                  account_number = number, acc_currency = ''EGP'', is_active = True,
                  link_type = Manual, acc_connection = None, external_account_id = None\<rparr>]\<rparr>)
      | [a] \<Rightarrow> (Inr (acc_id a), d)
      | _ \<Rightarrow> (Inl ''get() returned more than one BankAccount'', d))"

fun min_date :: "date \<Rightarrow> date list \<Rightarrow> date" where
  "min_date m [] = m"
| "min_date m (x # xs) = min_date (if x < m then x else m) xs"

fun max_date :: "date \<Rightarrow> date list \<Rightarrow> date" where
  "max_date m [] = m"
| "max_date m (x # xs) = max_date (if m < x then x else m) xs"

text \<open>\<open>date.fromisoformat\<close> of every proposed transaction; the first bad one raises.\<close>

fun proposed_dates :: "proposed list \<Rightarrow> string + date list" where
  "proposed_dates [] = Inr []"
| "proposed_dates (p # ps) =
     (case prop_date p of
        None \<Rightarrow> Inl ''Invalid isoformat string''
      | Some x \<Rightarrow> res_bind (proposed_dates ps) (\<lambda>xs. Inr (x # xs)))"

definition statement_account ::
  "statement \<Rightarrow> normalized_json \<Rightarrow> db \<Rightarrow> (string + uuid) \<times> db" where
  "statement_account s js d =
     (case st_account s of
        Some a \<Rightarrow> (Inr a, d)
      | None \<Rightarrow> resolve_account (st_user s) (str_or (nj_bank_name js) ''Unknown Bank'')
                  (str_or (nj_account_number js) ''unknown'') d)"

definition finalize_normalization_phase ::
  "int \<Rightarrow> statement \<Rightarrow> job_result \<Rightarrow> db \<Rightarrow> (string + statement) \<times> db" where
  "finalize_normalization_phase now s res d =
     (case res of
        Extraction_result p e c \<Rightarrow> (Inl (CHR 0x27 # ''normalized_json'' @ [CHR 0x27]), d)
      | Normalization_result js model \<Rightarrow>
         (case statement_account s js d of
            (Inl e, d1) \<Rightarrow> (Inl e, d1)
          | (Inr a, d1) \<Rightarrow>
             (case nj_transactions js of
                None \<Rightarrow> (Inl (CHR 0x27 # ''transactions'' @ [CHR 0x27]), d1)
              | Some ps \<Rightarrow>
                 (case proposed_dates ps of
                    Inl e \<Rightarrow> (Inl e, d1)
                  | Inr dates \<Rightarrow>
                      let r = \<lparr>nz_id = fresh d1, nz_statement = st_id s, nz_payload = js,
                               model_used = model, adjusted_at = now\<rparr>;
                          s1 = s\<lparr>st_account := Some a, status := Normalized, failure_reason := None,
                                 failed_phase := None, is_processing := False\<rparr>;
                          s2 = (case dates of [] \<Rightarrow> s1
                                | x # xs \<Rightarrow> s1\<lparr>start_transaction_date := Some (min_date x xs),
                                              last_transaction_date := Some (max_date x xs)\<rparr>)
                      in (Inr s2, emit (Notified (st_user s) ''Your statement is ready to review'')
                            (save_statement s2 ((draw d1)\<lparr>normalized_records := normalized_records d1 @ [r]\<rparr>)))))))"

definition phase_finalize :: "phase \<Rightarrow> int \<Rightarrow> statement \<Rightarrow> job_result \<Rightarrow> db \<Rightarrow> (string + statement) \<times> db" where
  "phase_finalize ph = (case ph of Extraction \<Rightarrow> finalize_extraction_phase
                                 | Normalization \<Rightarrow> finalize_normalization_phase)"

definition fail_phase :: "statement \<Rightarrow> phase \<Rightarrow> string \<Rightarrow> db \<Rightarrow> statement \<times> db" where
  "fail_phase s ph reason d =
     (let s' = s\<lparr>failure_reason := Some reason, failed_phase := Some ph, is_processing := False\<rparr>
      in (s', save_statement s' d))"

lemma finalize_status:
  "phase_finalize ph now s res d = (Inr s', d') \<Longrightarrow>
   status s' = (case ph of Extraction \<Rightarrow> Extracted | Normalization \<Rightarrow> Normalized) \<and>
   st_id s' = st_id s \<and> st_user s' = st_user s \<and> \<not> is_processing s' \<and>
   failure_reason s' = None \<and> failed_phase s' = None"
  by (auto simp: phase_finalize_def finalize_extraction_phase_def finalize_normalization_phase_def Let_def
      split: phase.splits job_result.splits if_splits option.splits sum.splits prod.splits list.splits)

lemma phase_rank:
  "phase_for_status st = Some ph \<Longrightarrow>
   rank (case ph of Extraction \<Rightarrow> Extracted | Normalization \<Rightarrow> Normalized) = Suc (rank st)"
  by (cases st) auto

subsection \<open>One run of the task\<close>

text \<open>How the loop of \<open>process_statement_pipeline\<close> ends: it falls out of the loop with the
  statement it holds, hands itself back to Celery, raises, or raises because Celery's own
  retry count is spent.\<close>

datatype tick_end =
    Finished statement
  | Retry_later string nat
  | Raised string
  | Retries_exhausted string

definition mark_processing :: "statement \<Rightarrow> db \<Rightarrow> statement \<times> db" where
  "mark_processing s d =
     (if is_processing s then (s, d)
      else let s' = s\<lparr>is_processing := True\<rparr> in (s', save_statement s' d))"

lemma mark_processing_status:
  "mark_processing s d = (s', d') \<Longrightarrow> status s' = status s \<and> st_id s' = st_id s \<and> st_user s' = st_user s \<and>
     is_processing s'"
  by (auto simp: mark_processing_def Let_def split: if_splits)

definition fail_and_stop :: "statement \<Rightarrow> phase \<Rightarrow> string \<Rightarrow> nat \<Rightarrow> db \<Rightarrow> tick_end \<times> nat \<times> db" where
  "fail_and_stop s ph reason n d =
     (case fail_phase s ph reason d of (s', d') \<Rightarrow> (Finished s', n, d'))"

definition poll_budget_message :: "string \<Rightarrow> string" where
  "poll_budget_message j = ''AI service job '' @ j @ '' did not complete after '' @
     nat_str MAX_POLL_ATTEMPTS @ '' polls ('' @ nat_str (MAX_POLL_ATTEMPTS * POLL_INTERVAL_SECONDS) @ ''s)''"

definition obtain_job ::
  "ai_client \<Rightarrow> nat \<Rightarrow> phase \<Rightarrow> statement \<Rightarrow> string option \<Rightarrow> db \<Rightarrow> (string + string) \<times> nat" where
  "obtain_job ai n ph s job d =
     (case job of Some j \<Rightarrow> (Inr j, n) | None \<Rightarrow> (phase_submit ai n ph s d, Suc n))"

text \<open>
  \<open>poll\<close> is the task's own counter, reset at every phase; \<open>retries\<close> is Celery's, never
  reset. \<open>self.retry(max_retries=240)\<close> raises once the next retry would exceed the limit.
\<close>

function pipeline_loop ::
  "ai_client \<Rightarrow> int \<Rightarrow> st_status \<Rightarrow> nat \<Rightarrow> statement \<Rightarrow> string option \<Rightarrow> nat \<Rightarrow> nat \<Rightarrow> db \<Rightarrow>
   tick_end \<times> nat \<times> db" where
  "pipeline_loop ai now target retries s job poll n d =
     (if rank target \<le> rank (status s) then (Finished s, n, d)
      else
       (case phase_for_status (status s) of
          None \<Rightarrow> (Finished s, n, d)
        | Some ph \<Rightarrow>
           (case mark_processing s d of (s1, d1) \<Rightarrow>
             (case obtain_job ai n ph s1 job d1 of
                (Inl e, n1) \<Rightarrow> fail_and_stop s1 ph e n1 d1
              | (Inr j, n1) \<Rightarrow>
                 (case get_job_status ai n1 j of
                    Inl e \<Rightarrow> fail_and_stop s1 ph e (Suc n1) d1
                  | Inr (Job_failed err) \<Rightarrow>
                      fail_and_stop s1 ph (str_or err ''AI service job failed'') (Suc n1) d1
                  | Inr Job_running \<Rightarrow>
                      if MAX_POLL_ATTEMPTS \<le> poll then
                        fail_and_stop s1 ph (poll_budget_message j) (Suc n1) d1
                      else if MAX_POLL_ATTEMPTS < Suc retries then
                        (Retries_exhausted (''Can't retry core.tasks.statements.process_statement_pipeline''), Suc n1, d1)
                      else (Retry_later j (Suc poll), Suc n1, d1)
                  | Inr (Job_succeeded res) \<Rightarrow>
                     (case phase_finalize ph now s1 res d1 of
                        (Inl e, d2) \<Rightarrow> (Raised e, Suc n1, d2)
                      | (Inr s2, d2) \<Rightarrow>
                          pipeline_loop ai now target retries s2 None 0 (Suc n1) d2))))))"
  by pat_completeness auto

termination
proof (relation "measure (\<lambda>(ai, now, target, retries, s, job, poll, n, d). 3 - rank (status s))", goal_cases)
  case 1
  then show ?case by simp
next
  case (2 ai now target retries s job poll n d ph s1 d1 sub n1 j st res fin d2 s2)
  have "status s1 = status s" using mark_processing_status [OF 2(3) [symmetric]] by simp
  moreover have "phase_finalize ph now s1 res d1 = (Inr s2, d2)" using 2(8,9) by simp
  then have "status s2 = (case ph of Extraction \<Rightarrow> Extracted | Normalization \<Rightarrow> Normalized)"
    by (rule finalize_status [THEN conjunct1])
  ultimately show ?case using phase_rank [OF 2(2)] 2(2) by (cases "status s") auto
qed

declare pipeline_loop.simps [simp del]

definition publish_status :: "statement \<Rightarrow> db \<Rightarrow> db" where
  "publish_status s d = emit (Statement_status (st_user s) (st_id s) (status s) (is_processing s)
     (failure_reason s) (failed_phase s)) d"

text \<open>The handler of any other exception: reload the row, clear the flag, record the reason.\<close>

definition record_crash :: "uuid \<Rightarrow> string \<Rightarrow> db \<Rightarrow> statement option \<times> db" where
  "record_crash k e d =
     (case by_pk st_id (statements d) k of
        None \<Rightarrow> (None, d)
      | Some s \<Rightarrow>
          let s' = s\<lparr>is_processing := False, failure_reason := Some e,
                     failed_phase := (case failed_phase s of Some ph \<Rightarrow> Some ph
                                      | None \<Rightarrow> phase_for_status (status s))\<rparr>
          in (Some s', save_statement s' d))"

definition after_crash :: "uuid \<Rightarrow> string \<Rightarrow> bool \<Rightarrow> db \<Rightarrow> db" where
  "after_crash k e publish d =
     (case record_crash k e d of
        (None, d') \<Rightarrow> d'
      | (Some s', d') \<Rightarrow> if publish then publish_status s' d' else d')"

text \<open>One execution; the first component is the message of the next poll, if any.\<close>

definition process_statement_pipeline ::
  "ai_client \<Rightarrow> int \<Rightarrow> uuid \<Rightarrow> st_status \<Rightarrow> string option \<Rightarrow> nat \<Rightarrow> nat \<Rightarrow> nat \<Rightarrow> db \<Rightarrow>
   (string \<times> nat) option \<times> nat \<times> db" where
  "process_statement_pipeline ai now k target job poll retries n d =
     (case by_pk st_id (statements d) k of
        None \<Rightarrow> (None, n, d)
      | Some s \<Rightarrow>
         (case pipeline_loop ai now target retries s job poll n d of
            (Finished s', n', d') \<Rightarrow> (None, n', publish_status s' d')
          | (Retry_later j p, n', d') \<Rightarrow> (Some (j, p), n', d')
          | (Raised e, n', d') \<Rightarrow> (None, n', after_crash k e True d')
          | (Retries_exhausted e, n', d') \<Rightarrow> (None, n', after_crash k e False d')))"

text \<open>Celery only reschedules while its retry count allows it.\<close>

lemma pipeline_loop_retry:
  "fst (pipeline_loop ai now target retries s job poll n d) = Retry_later j q \<Longrightarrow> retries < MAX_POLL_ATTEMPTS"
proof (induction ai now target retries s job poll n d rule: pipeline_loop.induct)
  case (1 ai now target retries s job poll n d)
  from 1(2) show ?case
    by (subst (asm) pipeline_loop.simps)
      (auto simp: fail_and_stop_def fail_phase_def Let_def dest: 1(1)
        split: if_splits option.splits prod.splits sum.splits job_state.splits)
qed

lemma pipeline_loop_retry_eq:
  "pipeline_loop ai now target retries s job poll n d = (Retry_later j q, rest) \<Longrightarrow> retries < MAX_POLL_ATTEMPTS"
  using pipeline_loop_retry [of ai now target retries s job poll n d j q] by simp

lemma process_retry:
  "fst (process_statement_pipeline ai now k target job poll retries n d) = Some jq \<Longrightarrow>
   retries < MAX_POLL_ATTEMPTS"
  by (auto simp: process_statement_pipeline_def split: option.splits prod.splits tick_end.splits
      dest: pipeline_loop_retry_eq)

text \<open>A message run to its end with nothing in between: the number of runs, and the state.\<close>

function run_to_end ::
  "ai_client \<Rightarrow> (nat \<Rightarrow> int) \<Rightarrow> uuid \<Rightarrow> st_status \<Rightarrow> string option \<Rightarrow> nat \<Rightarrow> nat \<Rightarrow> nat \<Rightarrow> db \<Rightarrow> nat \<times> db" where
  "run_to_end ai clock k target job poll retries n d =
     (case process_statement_pipeline ai (clock retries) k target job poll retries n d of
        (None, n', d') \<Rightarrow> (1, d')
      | (Some (j, q), n', d') \<Rightarrow>
          (case run_to_end ai clock k target (Some j) q (Suc retries) n' d' of (t, d'') \<Rightarrow> (Suc t, d'')))"
  by pat_completeness auto

termination
proof (relation "measure (\<lambda>(ai, clock, k, target, job, poll, retries, n, d). MAX_POLL_ATTEMPTS - retries)", goal_cases)
  case (2 ai clock k target job poll retries n d again rest jq n' d' j q)
  then have "retries < MAX_POLL_ATTEMPTS"
    by (intro process_retry [of ai "clock retries" k target job poll retries n d jq]) (metis fst_conv)
  then show ?case by simp
qed simp

declare run_to_end.simps [simp del]

text \<open>A worker takes the \<open>i\<close>th message; a poll to come is a new message.\<close>

definition take_message :: "nat \<Rightarrow> db \<Rightarrow> db" where
  "take_message i d = d\<lparr>queue := take i (queue d) @ drop (Suc i) (queue d)\<rparr>"

definition run_pipeline_message :: "ai_client \<Rightarrow> int \<Rightarrow> nat \<Rightarrow> nat \<Rightarrow> db \<Rightarrow> nat \<times> db" where
  "run_pipeline_message ai now i n d =
     (if length (queue d) \<le> i then (n, d)
      else
       (case queue d ! i of
          Process_pipeline k target job poll retries \<Rightarrow>
            (case process_statement_pipeline ai now k target job poll retries n (take_message i d) of
               (None, n', d') \<Rightarrow> (n', d')
             | (Some (j, p), n', d') \<Rightarrow>
                 (n', enqueue (Process_pipeline k target (Some j) p (Suc retries)) d'))
        | _ \<Rightarrow> (n, d)))"

subsection \<open>Approval\<close>

record approval_row =
  ar_date :: date
  ar_merchant :: "string option"
  ar_category :: "string option"
  ar_amount :: rat
  ar_type :: "string option"
  ar_balance :: "rat option"
  ar_merchant_normalized :: "string option"

text \<open>An over-long merchant is cut, not refused.\<close>

definition validate_merchant_raw :: "string option \<Rightarrow> string option" where
  "validate_merchant_raw v = map_option (take 1024) v"

record approval_result =
  res_date :: date
  res_merchant :: "string option"
  res_amount :: rat
  res_transaction_id :: "uuid option"
  res_duplicate_of :: "uuid option"

definition approved_txn :: "int \<Rightarrow> statement \<Rightarrow> uuid \<Rightarrow> approval_row \<Rightarrow> db \<Rightarrow> txn" where
  "approved_txn now s a r d =
     \<lparr>txn_id = fresh d, txn_user = st_user s, txn_account = a, txn_statement = Some (st_id s),
      transaction_date = ar_date r, merchant_raw = ar_merchant r,
      merchant_normalized = ar_merchant_normalized r,
      txn_category = map_option cat_id (resolve_category (categories d) (ar_category r) (ar_type r)),
      amount = ar_amount r, txn_currency = ''EGP'', is_recurring = False, source = ''statement'',
      balance = ar_balance r, transaction_type = ar_type r, txn_created = now\<rparr>"

definition approval_key :: "statement \<Rightarrow> uuid \<Rightarrow> approval_row \<Rightarrow> ledger_key" where
  "approval_key s a r = (st_user s, a, ar_date r, ar_amount r, ar_merchant r, ar_type r)"

definition approve_row :: "int \<Rightarrow> statement \<Rightarrow> uuid \<Rightarrow> approval_row \<Rightarrow> db \<Rightarrow> approval_result \<times> db" where
  "approve_row now s a r d =
     (case first_pk txn_id (matching (approval_key s a r) (txns d)) of
        Some old \<Rightarrow> (\<lparr>res_date = ar_date r, res_merchant = ar_merchant r, res_amount = ar_amount r,
                       res_transaction_id = None, res_duplicate_of = Some (txn_id old)\<rparr>, d)
      | None \<Rightarrow> (\<lparr>res_date = ar_date r, res_merchant = ar_merchant r, res_amount = ar_amount r,
                   res_transaction_id = Some (fresh d), res_duplicate_of = None\<rparr>,
                 insert_txn (approved_txn now s a r d) d))"

fun approve_rows :: "int \<Rightarrow> statement \<Rightarrow> uuid \<Rightarrow> approval_row list \<Rightarrow> db \<Rightarrow> approval_result list \<times> db" where
  "approve_rows now s a [] d = ([], d)"
| "approve_rows now s a (r # rs) d =
     (case approve_row now s a r d of (x, d1) \<Rightarrow>
        (case approve_rows now s a rs d1 of (xs, d2) \<Rightarrow> (x # xs, d2)))"

definition override_account :: "uuid \<Rightarrow> uuid option \<Rightarrow> statement \<Rightarrow> db \<Rightarrow> statement response" where
  "override_account u account_id s d =
     (case account_id of
        None \<Rightarrow> (Inr s, d)
      | Some a \<Rightarrow>
         (case owned_account u a d of
            None \<Rightarrow> (Inl (Http404 ''No BankAccount matches the given query.''), d)
          | Some _ \<Rightarrow> let s' = s\<lparr>st_account := Some a\<rparr> in (Inr s', save_statement s' d)))"

definition commit_approval ::
  "int \<Rightarrow> statement \<Rightarrow> uuid \<Rightarrow> approval_row list \<Rightarrow> db \<Rightarrow> (st_status \<times> approval_result list) \<times> db" where
  "commit_approval now s a rows d =
     (case approve_rows now s a rows d of (results, d1) \<Rightarrow>
        let s' = s\<lparr>status := Approved, failure_reason := None, failed_phase := None\<rparr>;
            d2 = save_statement s' d1;
            new_ids = List.map_filter res_transaction_id results
        in ((Approved, results), if new_ids = [] then d2 else embed_best_effort new_ids d2))"

definition approve_statement ::
  "int \<Rightarrow> uuid \<Rightarrow> uuid \<Rightarrow> detail + uuid option \<times> approval_row list \<Rightarrow> db \<Rightarrow>
   (st_status \<times> approval_result list) response" where
  "approve_statement now u k validated d =
     (case owned_statement u k d of
        None \<Rightarrow> (Inl no_statement, d)
      | Some s \<Rightarrow>
         if status s \<noteq> Normalized then
           (Inl (BusinessRuleError ''This statement is not awaiting transaction approval.''
                   ''invalid_status_transition'' None), d)
         else
           (case validated of
              Inl es \<Rightarrow> (Inl (ValidationError es), d)
            | Inr (account_id, rows) \<Rightarrow>
               (case override_account u account_id s d of
                  (Inl e, d1) \<Rightarrow> (Inl e, d1)
                | (Inr s1, d1) \<Rightarrow>
                   (case st_account s1 of
                      None \<Rightarrow> (Inl (Unhandled ''AttributeError''), d1)
                    | Some a \<Rightarrow>
                       (case by_pk acc_id (accounts d1) a of
                          None \<Rightarrow> (Inl (Unhandled ''DoesNotExist''), d1)
                        | Some acct \<Rightarrow>
                           (case assert_account_mutable acct of
                              Inl e \<Rightarrow> (Inl e, d1)
                            | Inr _ \<Rightarrow>
                                (case commit_approval now s1 a
                                   (map (\<lambda>r. r\<lparr>ar_merchant := validate_merchant_raw (ar_merchant r)\<rparr>) rows) d1 of
                                   (res, d2) \<Rightarrow> (Inr res, d2))))))))"

subsection \<open>Deletion\<close>

text \<open>The files go unless the user keeps them; the ledger rows stay and lose the link.\<close>

definition delete_statement_row :: "uuid \<Rightarrow> db \<Rightarrow> db" where
  "delete_statement_row k d = d\<lparr>
     statements := filter (\<lambda>s. st_id s \<noteq> k) (statements d),
     ocr_results := filter (\<lambda>r. ocr_statement r \<noteq> k) (ocr_results d),
     normalized_records := filter (\<lambda>r. nz_statement r \<noteq> k) (normalized_records d),
     txns := map (\<lambda>t. if txn_statement t = Some k then t\<lparr>txn_statement := None\<rparr> else t) (txns d)\<rparr>"

definition statement_prefixes :: "uuid \<Rightarrow> string \<Rightarrow> string list" where
  "statement_prefixes u k = map (\<lambda>b. b @ ''/'' @ uuid_str u @ ''/'' @ k @ ''/'')
     [''pfm-statements-raw'', ''pfm-statements-ocr'', ''pfm-statements-normalized'']"

definition delete_files :: "uuid \<Rightarrow> string \<Rightarrow> db \<Rightarrow> db" where
  "delete_files u k d =
     (case get_preferences u d of (p, d1) \<Rightarrow>
        if retain_raw_documents p then d1
        else fold (\<lambda>x. emit (Deleted_prefix x)) (statement_prefixes u k) d1)"

definition delete_statement_file :: "statement \<Rightarrow> db \<Rightarrow> db" where
  "delete_statement_file s d =
     delete_statement_row (st_id s) (delete_files (st_user s) (uuid_str (st_id s)) d)"

definition delete_statement :: "uuid \<Rightarrow> uuid \<Rightarrow> db \<Rightarrow> unit response" where
  "delete_statement u k d =
     (case owned_statement u k d of
        None \<Rightarrow> (Inl no_statement, d)
      | Some s \<Rightarrow> (Inr (), delete_statement_file s d))"

text \<open>
  Not atomic. A repeated id meets the same instance, whose primary key Django has set to
  None: its files are looked for under \<open>None\<close> and its delete raises \<open>ValueError\<close>, with the
  rows before it already gone.
\<close>

fun bulk_delete_statements_loop ::
  "uuid \<Rightarrow> db \<Rightarrow> uuid list \<Rightarrow> uuid list \<times> uuid list \<Rightarrow> db \<Rightarrow> (uuid list \<times> uuid list) response" where
  "bulk_delete_statements_loop u d0 [] acc d = (Inr acc, d)"
| "bulk_delete_statements_loop u d0 (k # ks) (del, skip) d =
     (case owned_statement u k d0 of
        None \<Rightarrow> bulk_delete_statements_loop u d0 ks (del, skip @ [k]) d
      | Some s \<Rightarrow>
          if k \<in> set del then (Inl (Unhandled ''ValueError''), delete_files (st_user s) ''None'' d)
          else bulk_delete_statements_loop u d0 ks (del @ [k], skip) (delete_statement_file s d))"

definition bulk_delete_statements :: "uuid \<Rightarrow> detail + uuid list \<Rightarrow> db \<Rightarrow> (uuid list \<times> uuid list) response" where
  "bulk_delete_statements u validated d =
     (case validated of
        Inl es \<Rightarrow> (Inl (ValidationError es), d)
      | Inr ids \<Rightarrow> bulk_delete_statements_loop u d ids ([], []) d)"

subsection \<open>Reading a statement\<close>

datatype shown_transactions =
    Nothing_shown
  | Proposed_batch "proposed list"
  | Ledger_rows "txn list"

definition get_transactions :: "statement \<Rightarrow> db \<Rightarrow> shown_transactions" where
  "get_transactions s d =
     (case status s of
        Normalized \<Rightarrow>
          (case normalized_payload d (st_id s) of
             None \<Rightarrow> Nothing_shown
           | Some js \<Rightarrow> Proposed_batch (case_option [] id (nj_transactions js)))
      | Approved \<Rightarrow>
          Ledger_rows (rev (sort_key transaction_date (filter (\<lambda>t. txn_statement t = Some (st_id s)) (txns d))))
      | _ \<Rightarrow> Nothing_shown)"

definition get_bank_name :: "statement \<Rightarrow> db \<Rightarrow> string option" where
  "get_bank_name s d = Option.bind (normalized_payload d (st_id s)) nj_bank_name"

definition get_account_number :: "statement \<Rightarrow> db \<Rightarrow> string option" where
  "get_account_number s d = Option.bind (normalized_payload d (st_id s)) nj_account_number"

definition get_model_used :: "statement \<Rightarrow> db \<Rightarrow> string option" where
  "get_model_used s d = map_option model_used (latest_normalized_record d (st_id s))"

definition get_adjusted_at :: "statement \<Rightarrow> db \<Rightarrow> int option" where
  "get_adjusted_at s d = map_option adjusted_at (latest_normalized_record d (st_id s))"

definition get_ocr_result :: "uuid \<Rightarrow> uuid \<Rightarrow> db \<Rightarrow> exc + uuid \<times> string \<times> rat \<times> int" where
  "get_ocr_result u k d =
     (case owned_statement u k d of
        None \<Rightarrow> Inl no_statement
      | Some s \<Rightarrow>
         (case latest_ocr_run d (st_id s) of
            None \<Rightarrow> Inl (NotFound ''OCR result not available yet.'')
          | Some r \<Rightarrow> Inr (st_id s, ocr_engine r, ocr_confidence r, processed_at r)))"

text \<open>\<open>fetch\<close> is \<open>get_object_stream\<close>: the body and its content type, if the object exists.\<close>

definition download_ocr_artifact ::
  "(string \<Rightarrow> (string \<times> string option) option) \<Rightarrow> uuid \<Rightarrow> uuid \<Rightarrow> db \<Rightarrow> exc + string \<times> string \<times> string" where
  "download_ocr_artifact fetch u k d =
     (case owned_statement u k d of
        None \<Rightarrow> Inl no_statement
      | Some s \<Rightarrow>
         (case latest_ocr_run d (st_id s) of
            None \<Rightarrow> Inl (NotFound ''OCR result not available yet.'')
          | Some r \<Rightarrow>
             (case fetch (ocr_artifact_key (st_user s) (st_id s) @ ''document.md'') of
                None \<Rightarrow> Inl (NotFound ''OCR document not available yet.'')
              | Some (body, ct) \<Rightarrow>
                  Inr (body, str_or ct ''text/markdown'', uuid_str (st_id s) @ ''-document.md''))))"

end
