(* ===== verification/Ledger_Laws.thy ===== *)
theory Ledger_Laws
  imports Ledger
begin

text \<open>
  What the ledger's endpoints keep. Every handler refines a sequence of primitive changes
  (\<open>ledger_change\<close>), and the invariants are proved once per primitive change.
\<close>

subsection \<open>The invariant of the ledger\<close>

definition full_key :: "txn \<Rightarrow> bool" where
  "full_key t \<longleftrightarrow> merchant_raw t \<noteq> None \<and> transaction_type t \<noteq> None"

definition owned_rows :: "bank_account list \<Rightarrow> txn list \<Rightarrow> bool" where
  "owned_rows as ts \<longleftrightarrow>
     (\<forall>t \<in> set ts. \<exists>a \<in> set as. acc_id a = txn_account t \<and> acc_user a = txn_user t)"

definition ledger_ok :: "db \<Rightarrow> bool" where
  "ledger_ok d \<longleftrightarrow>
     drawn d (map txn_id (txns d)) \<and> distinct (map txn_id (txns d)) \<and>
     drawn d (map acc_id (accounts d)) \<and> distinct (map acc_id (accounts d)) \<and>
     owned_rows (accounts d) (txns d) \<and>
     key_unique txn_id ledger_key full_key (txns d)"

lemma ledger_okD:
  assumes "ledger_ok d"
  shows "drawn d (map txn_id (txns d))" "distinct (map txn_id (txns d))"
    "drawn d (map acc_id (accounts d))" "distinct (map acc_id (accounts d))"
    "owned_rows (accounts d) (txns d)" "key_unique txn_id ledger_key full_key (txns d)"
  using assms by (simp_all add: ledger_ok_def)

lemma ledger_okI:
  assumes "drawn d (map txn_id (txns d))" "distinct (map txn_id (txns d))"
    "drawn d (map acc_id (accounts d))" "distinct (map acc_id (accounts d))"
    "owned_rows (accounts d) (txns d)" "key_unique txn_id ledger_key full_key (txns d)"
  shows "ledger_ok d"
  using assms by (simp add: ledger_ok_def)

lemma distinct_pkD: "distinct (map pk rs) \<Longrightarrow> x \<in> set rs \<Longrightarrow> y \<in> set rs \<Longrightarrow> pk x = pk y \<Longrightarrow> x = y"
  by (auto simp: distinct_map dest: inj_onD)

lemma by_pk_distinct: "distinct (map pk rs) \<Longrightarrow> r \<in> set rs \<Longrightarrow> by_pk pk rs (pk r) = Some r"
  by (cases "by_pk pk rs (pk r)") (auto simp: by_pk_None dest: by_pk_Some distinct_pkD)

lemma owned_txn_Some:
  "owned_txn u k d = Some t \<Longrightarrow> t \<in> set (txns d) \<and> txn_user t = u \<and> txn_id t = k"
  by (auto simp: owned_txn_def dest: by_pk_Some)

lemma owned_account_Some:
  "owned_account u k d = Some a \<Longrightarrow> a \<in> set (accounts d) \<and> acc_user a = u \<and> acc_id a = k"
  by (auto simp: owned_account_def dest: by_pk_Some)

lemma owned_txn_iff:
  assumes "distinct (map txn_id (txns d))"
  shows "owned_txn u k d = Some t \<longleftrightarrow> t \<in> set (txns d) \<and> txn_user t = u \<and> txn_id t = k"
proof
  assume t: "t \<in> set (txns d) \<and> txn_user t = u \<and> txn_id t = k"
  then have "distinct (map txn_id (filter (\<lambda>s. txn_user s = u) (txns d)))"
    using assms by (simp add: distinct_map_filter)
  with t show "owned_txn u k d = Some t"
    using by_pk_distinct [of txn_id "filter (\<lambda>s. txn_user s = u) (txns d)" t]
    by (auto simp: owned_txn_def)
qed (rule owned_txn_Some)

text \<open>The accounts a bank feeds, and the rows on them.\<close>

definition synced_ids :: "db \<Rightarrow> uuid set" where
  "synced_ids d = acc_id ` {a \<in> set (accounts d). link_type a = Synced}"

definition on_synced :: "db \<Rightarrow> txn \<Rightarrow> bool" where
  "on_synced d t \<longleftrightarrow> txn_account t \<in> synced_ids d"

lemma mutable_ref_iff:
  assumes "distinct (map acc_id (accounts d))"
  shows "mutable_ref d t = Inr x \<longleftrightarrow> \<not> on_synced d t"
proof (cases "account_of d t")
  case None
  then have "txn_account t \<notin> acc_id ` set (accounts d)"
    by (simp add: account_of_def by_pk_None)
  with None show ?thesis
    by (auto simp: mutable_ref_def on_synced_def synced_ids_def)
next
  case (Some a)
  then have a: "a \<in> set (accounts d)" "acc_id a = txn_account t"
    by (auto simp: account_of_def dest: by_pk_Some)
  have "on_synced d t \<longleftrightarrow> link_type a = Synced"
  proof
    assume "on_synced d t"
    then obtain b where "b \<in> set (accounts d)" "link_type b = Synced" "acc_id b = txn_account t"
      by (auto simp: on_synced_def synced_ids_def)
    with a distinct_pkD [OF assms, of a b] show "link_type a = Synced" by simp
  qed (use a in \<open>force simp: on_synced_def synced_ids_def\<close>)
  with Some show ?thesis
    by (simp add: mutable_ref_def assert_account_mutable_def is_synced_def)
qed

subsection \<open>Primitive changes\<close>

inductive ledger_change :: "uuid \<Rightarrow> db \<Rightarrow> db \<Rightarrow> bool" for u where
  quiet: "accounts d' = accounts d \<Longrightarrow> txns d' = txns d \<Longrightarrow> uuid_src d' = uuid_src d \<Longrightarrow>
    draws d \<le> draws d' \<Longrightarrow> ledger_change u d d'"
| add_txn: "a \<in> set (accounts d) \<Longrightarrow> acc_user a = u \<Longrightarrow> link_type a \<noteq> Synced \<Longrightarrow>
    txn_account t = acc_id a \<Longrightarrow> txn_user t = u \<Longrightarrow> txn_id t = fresh d \<Longrightarrow>
    matching (ledger_key t) (txns d) = [] \<Longrightarrow> ledger_change u d (insert_txn t d)"
| patch_txn: "t \<in> set (txns d) \<Longrightarrow> txn_user t = u \<Longrightarrow>
    (on_synced d t \<longrightarrow> source t = ''synced'' \<and> p = synced_patch p) \<Longrightarrow>
    \<not> unique_clash (apply_patch p t) (filter (\<lambda>s. txn_id s \<noteq> txn_id t) (txns d)) \<Longrightarrow>
    ledger_change u d (d\<lparr>txns := save_row txn_id (apply_patch p t) (txns d)\<rparr>)"
| drop_txn: "t \<in> set (txns d) \<Longrightarrow> txn_user t = u \<Longrightarrow> \<not> on_synced d t \<Longrightarrow>
    ledger_change u d (delete_txn (txn_id t) d)"
| add_account: "acc_user a = u \<Longrightarrow> acc_id a = fresh d \<Longrightarrow> link_type a \<noteq> Synced \<Longrightarrow> acc_connection a = None \<Longrightarrow>
    ledger_change u d ((draw d)\<lparr>accounts := accounts d @ [a]\<rparr>)"
| patch_account: "a \<in> set (accounts d) \<Longrightarrow> acc_user a = u \<Longrightarrow> link_type a \<noteq> Synced \<Longrightarrow>
    ledger_change u d (d\<lparr>accounts := save_row acc_id (apply_account_patch p a) (accounts d)\<rparr>)"
| drop_account: "a \<in> set (accounts d) \<Longrightarrow> acc_user a = u \<Longrightarrow> link_type a \<noteq> Synced \<Longrightarrow>
    ledger_change u d (delete_account_row (acc_id a) d)"

abbreviation ledger_moves :: "uuid \<Rightarrow> db \<Rightarrow> db \<Rightarrow> bool" where
  "ledger_moves u \<equiv> (ledger_change u)\<^sup>*\<^sup>*"

lemma moves_refl: "ledger_moves u d d" by simp

lemma moves_one: "ledger_change u d d' \<Longrightarrow> ledger_moves u d d'" by simp

lemma moves_quiet:
  "accounts d' = accounts d \<Longrightarrow> txns d' = txns d \<Longrightarrow> uuid_src d' = uuid_src d \<Longrightarrow>
   draws d \<le> draws d' \<Longrightarrow> ledger_moves u d d'"
  by (rule moves_one, rule quiet)

lemma moves_then_emit: "ledger_change u d d' \<Longrightarrow> ledger_moves u d (emit e d')"
  by (rule rtranclp_trans [OF moves_one moves_quiet]) auto

subsection \<open>Every handler is a sequence of primitive changes\<close>

lemma assert_mutable_Inr [simp]: "assert_account_mutable a = Inr x \<longleftrightarrow> link_type a \<noteq> Synced"
  by (simp add: assert_account_mutable_def is_synced_def)

lemma assert_mutable_manual [simp]: "link_type a \<noteq> Synced \<Longrightarrow> assert_account_mutable a = Inr ()"
  by (simp add: assert_account_mutable_def is_synced_def guard_res_def)

lemma post_transaction_moves: "ledger_moves u d (snd (post_transaction now u k v d))"
proof (cases "\<exists>t. fst (post_transaction now u k v d) = Inr t")
  case True
  then obtain acc a x where
    *: "k = Some acc" "owned_account u acc d = Some a" "assert_account_mutable a = Inr ()" "v = Inr x"
      "matching (u, acc_id a, d_date x, d_amount x, d_merchant x, d_type x) (txns d) = []"
    by (auto simp: post_transaction_def split: option.splits sum.splits)
  let ?t = "manual_txn now u a x d"
  have "ledger_change u d (insert_txn ?t d)"
    using * owned_account_Some [OF *(2)]
    by (intro add_txn [of a]) (auto simp: manual_txn_def ledger_key_def)
  moreover have "snd (post_transaction now u k v d) = emit (Embed_requested [txn_id ?t]) (insert_txn ?t d)"
    using * by (simp add: post_transaction_def embed_best_effort_def Let_def)
  ultimately show ?thesis by (simp only: moves_then_emit)
next
  case False
  then have "snd (post_transaction now u k v d) = d"
    by (auto simp: post_transaction_def Let_def split: option.splits sum.splits)
  then show ?thesis by simp
qed

lemma synced_patch_idem [simp]: "synced_patch (synced_patch p) = synced_patch p"
  by (simp add: synced_patch_def)

lemma save_patched_moves:
  assumes "t \<in> set (txns d)" "txn_user t = u" "on_synced d t \<longrightarrow> source t = ''synced'' \<and> p = synced_patch p"
  shows "ledger_moves u d (snd (save_patched p t d))"
proof (cases "unique_clash (apply_patch p t) (filter (\<lambda>s. txn_id s \<noteq> txn_id t) (txns d))")
  case True
  then show ?thesis by (simp add: save_patched_def)
next
  case False
  with assms have c: "ledger_change u d (d\<lparr>txns := save_row txn_id (apply_patch p t) (txns d)\<rparr>)"
    by (intro patch_txn)
  from False show ?thesis
    using moves_one [OF c] moves_then_emit [OF c, of "Embed_requested [txn_id t]"]
    by (simp add: save_patched_def embed_best_effort_def Let_def del: r_into_rtranclp)
qed

lemma patch_transaction_moves:
  assumes "distinct (map acc_id (accounts d))"
  shows "ledger_moves u d (snd (patch_transaction u k keys v d))"
proof (cases "owned_txn u k d")
  case None
  then show ?thesis by (simp add: patch_transaction_def)
next
  case (Some t)
  note t = owned_txn_Some [OF Some]
  show ?thesis
  proof (cases "source t = ''synced''")
    case True
    have "ledger_moves u d (snd (save_patched (synced_patch p) t d))" for p
      using t True by (intro save_patched_moves) auto
    with Some True show ?thesis
      by (simp add: patch_transaction_def split: sum.splits)
  next
    case False
    have "ledger_moves u d (snd (save_patched p t d))" if "mutable_ref d t = Inr ()" for p
      using t that by (intro save_patched_moves) (auto simp: mutable_ref_iff [OF assms])
    with Some False show ?thesis
      by (auto simp: patch_transaction_def split: sum.splits)
  qed
qed

lemma delete_transaction_moves:
  assumes "distinct (map acc_id (accounts d))"
  shows "ledger_moves u d (snd (delete_transaction u k d))"
proof (cases "\<exists>t. owned_txn u k d = Some t \<and> mutable_ref d t = Inr ()")
  case True
  then obtain t where t: "owned_txn u k d = Some t" "mutable_ref d t = Inr ()" by blast
  then have "ledger_change u d (delete_txn (txn_id t) d)"
    using owned_txn_Some [OF t(1)] by (intro drop_txn) (auto simp: mutable_ref_iff [OF assms])
  with t owned_txn_Some [OF t(1)] show ?thesis
    by (simp add: delete_transaction_def)
next
  case False
  then have "snd (delete_transaction u k d) = d"
    by (auto simp: delete_transaction_def split: option.splits sum.splits)
  then show ?thesis by simp
qed

lemma post_account_moves: "ledger_moves u d (snd (post_account u v d))"
proof (cases "\<exists>a. fst (post_account u v d) = Inr a")
  case True
  then obtain a where "snd (post_account u v d) = (draw d)\<lparr>accounts := accounts d @ [a]\<rparr>"
    "acc_user a = u" "acc_id a = fresh d" "link_type a \<noteq> Synced" "acc_connection a = None"
    by (auto simp: post_account_def Let_def split: sum.splits)
  then show ?thesis using moves_one [OF add_account [of a u d]] by simp
next
  case False
  then have "snd (post_account u v d) = d"
    by (auto simp: post_account_def Let_def split: sum.splits)
  then show ?thesis by simp
qed

lemma patch_account_moves: "ledger_moves u d (snd (patch_account u k n v d))"
proof (cases "\<exists>a. fst (patch_account u k n v d) = Inr a")
  case True
  then obtain a p where "snd (patch_account u k n v d) =
      d\<lparr>accounts := save_row acc_id (apply_account_patch p a) (accounts d)\<rparr>"
    "owned_account u k d = Some a" "assert_account_mutable a = Inr ()"
    by (auto simp: patch_account_def Let_def res_bind_Inr split: sum.splits option.splits)
  then show ?thesis
    using moves_one [OF patch_account [of a d u p]] owned_account_Some [of u k d a] by simp
next
  case False
  then have "snd (patch_account u k n v d) = d"
    by (auto simp: patch_account_def Let_def split: sum.splits option.splits)
  then show ?thesis by simp
qed

lemma delete_account_moves: "ledger_moves u d (snd (delete_account u k d))"
proof (cases "\<exists>a. owned_account u k d = Some a \<and> link_type a \<noteq> Synced")
  case True
  then obtain a where a: "owned_account u k d = Some a" "link_type a \<noteq> Synced" by blast
  then have "ledger_change u d (delete_account_row (acc_id a) d)"
    using owned_account_Some [OF a(1)] by (intro drop_account) auto
  with a owned_account_Some [OF a(1)] show ?thesis
    by (simp add: delete_account_def assert_account_mutable_def is_synced_def guard_res_def)
next
  case False
  then have "snd (delete_account u k d) = d"
    by (auto simp: delete_account_def assert_account_mutable_def is_synced_def guard_res_def
        split: option.splits)
  then show ?thesis by simp
qed

text \<open>
  The bulk loop only ever deletes rows that were the caller's and mutable when it began.
\<close>

lemma delete_txn_simps [simp]:
  "accounts (delete_txn k d) = accounts d" "uuid_src (delete_txn k d) = uuid_src d"
  "draws (delete_txn k d) = draws d" "statements (delete_txn k d) = statements d"
  "ocr_results (delete_txn k d) = ocr_results d" "queue (delete_txn k d) = queue d"
  "normalized_records (delete_txn k d) = normalized_records d"
  "txns (delete_txn k d) = filter (\<lambda>t. txn_id t \<noteq> k) (txns d)"
  by (simp_all add: delete_txn_def)

definition deletable :: "uuid \<Rightarrow> db \<Rightarrow> uuid \<Rightarrow> bool" where
  "deletable u d k \<longleftrightarrow> (\<exists>t. owned_txn u k d = Some t \<and> mutable_ref d t = Inr ())"

definition why_skipped :: "uuid \<Rightarrow> db \<Rightarrow> uuid \<Rightarrow> skip_reason" where
  "why_skipped u d k = (if owned_txn u k d = None then Not_found else Account_not_mutable)"

lemma bulk_loop_step:
  "bulk_delete_loop u d0 (k # ks) s =
     (if \<not> deletable u d0 k then
        bulk_delete_loop u d0 ks (s\<lparr>bulk_skipped := bulk_skipped s @ [(k, why_skipped u d0 k)]\<rparr>)
      else if k \<in> set (bulk_deleted s) then Inl (Unhandled ''ValueError'')
      else bulk_delete_loop u d0 ks
             (s\<lparr>bulk_deleted := bulk_deleted s @ [k], bulk_db := delete_txn k (bulk_db s)\<rparr>))"
  by (auto simp: deletable_def why_skipped_def split: option.splits sum.splits)

declare bulk_delete_loop.simps(2) [simp del]

lemma bulk_loop_result:
  assumes "bulk_delete_loop u d0 ks s = Inr s'"
  shows "bulk_deleted s' = bulk_deleted s @ filter (deletable u d0) ks \<and>
         bulk_skipped s' = bulk_skipped s @
           map (\<lambda>k. (k, why_skipped u d0 k)) (filter (\<lambda>k. \<not> deletable u d0 k) ks) \<and>
         bulk_db s' = fold delete_txn (filter (deletable u d0) ks) (bulk_db s)"
  using assms
proof (induction ks arbitrary: s)
  case Nil
  then show ?case by simp
next
  case (Cons k ks)
  show ?case
  proof (cases "deletable u d0 k")
    case True
    with Cons.prems have "k \<notin> set (bulk_deleted s)"
      "bulk_delete_loop u d0 ks
         (s\<lparr>bulk_deleted := bulk_deleted s @ [k], bulk_db := delete_txn k (bulk_db s)\<rparr>) = Inr s'"
      by (auto simp: bulk_loop_step split: if_splits)
    with Cons.IH [OF this(2)] True show ?thesis by simp
  next
    case False
    with Cons.prems have "bulk_delete_loop u d0 ks
        (s\<lparr>bulk_skipped := bulk_skipped s @ [(k, why_skipped u d0 k)]\<rparr>) = Inr s'"
      by (simp add: bulk_loop_step)
    from Cons.IH [OF this] False show ?thesis by simp
  qed
qed

lemma bulk_loop_distinct:
  assumes "bulk_delete_loop u d0 ks s = Inr s'" "distinct (bulk_deleted s)"
  shows "distinct (bulk_deleted s')"
  using assms
  by (induction ks arbitrary: s) (auto simp: bulk_loop_step split: if_splits)

lemma bulk_loop_succeeds:
  assumes "distinct (bulk_deleted s @ filter (deletable u d0) ks)"
  shows "\<exists>s'. bulk_delete_loop u d0 ks s = Inr s'"
  using assms
  by (induction ks arbitrary: s) (auto simp: bulk_loop_step)

lemma bulk_loop_fails:
  assumes "bulk_delete_loop u d0 ks s = Inl e"
  shows "e = Unhandled ''ValueError''"
  using assms
  by (induction ks arbitrary: s) (auto simp: bulk_loop_step split: if_splits)

lemma fold_delete_txn [simp]:
  "accounts (fold delete_txn ks d) = accounts d" "uuid_src (fold delete_txn ks d) = uuid_src d"
  "draws (fold delete_txn ks d) = draws d" "statements (fold delete_txn ks d) = statements d"
  "ocr_results (fold delete_txn ks d) = ocr_results d" "queue (fold delete_txn ks d) = queue d"
  "normalized_records (fold delete_txn ks d) = normalized_records d"
  "txns (fold delete_txn ks d) = filter (\<lambda>t. txn_id t \<notin> set ks) (txns d)"
  by (induction ks arbitrary: d) (auto intro!: filter_cong)

lemma fold_delete_moves:
  assumes "\<And>k. k \<in> set ks \<Longrightarrow> \<exists>t \<in> set (txns d). txn_id t = k \<and> txn_user t = u \<and> \<not> on_synced d t"
    and "distinct ks"
  shows "ledger_moves u d (fold delete_txn ks d)"
  using assms
proof (induction ks arbitrary: d)
  case Nil
  then show ?case by simp
next
  case (Cons k ks)
  from Cons.prems(1) [of k] obtain t where t: "t \<in> set (txns d)" "txn_id t = k" "txn_user t = u"
    "\<not> on_synced d t" by auto
  then have "ledger_change u d (delete_txn k d)" using drop_txn [of t d u] by simp
  moreover have "ledger_moves u (delete_txn k d) (fold delete_txn ks (delete_txn k d))"
  proof (rule Cons.IH)
    fix k' assume "k' \<in> set ks"
    with Cons.prems obtain t' where "t' \<in> set (txns d)" "txn_id t' = k'" "txn_user t' = u"
      "\<not> on_synced d t'" "k' \<noteq> k" by (metis distinct.simps(2) list.set_intros(2))
    then show "\<exists>t \<in> set (txns (delete_txn k d)). txn_id t = k' \<and> txn_user t = u \<and> \<not> on_synced (delete_txn k d) t"
      by (auto simp: on_synced_def synced_ids_def)
  qed (use Cons.prems(2) in simp)
  ultimately show ?case by (simp add: converse_rtranclp_into_rtranclp)
qed

lemma deletable_iff:
  assumes "distinct (map txn_id (txns d))" "distinct (map acc_id (accounts d))"
  shows "deletable u d k \<longleftrightarrow> (\<exists>t \<in> set (txns d). txn_id t = k \<and> txn_user t = u \<and> \<not> on_synced d t)"
  by (auto simp: deletable_def owned_txn_iff [OF assms(1)] mutable_ref_iff [OF assms(2)])

lemma bulk_delete_moves:
  assumes "distinct (map txn_id (txns d))" "distinct (map acc_id (accounts d))"
  shows "ledger_moves u d (snd (bulk_delete_transactions u v d))"
proof (cases v)
  case (Inl es)
  then show ?thesis by (simp add: bulk_delete_transactions_def)
next
  case (Inr ids)
  let ?s = "\<lparr>bulk_deleted = [], bulk_skipped = [], bulk_db = d\<rparr>"
  show ?thesis
  proof (cases "bulk_delete_loop u d ids ?s")
    case (Inl e)
    with Inr show ?thesis by (simp add: bulk_delete_transactions_def)
  next
    case (Inr s)
    from bulk_loop_result [OF this] bulk_loop_distinct [OF this]
    have "bulk_db s = fold delete_txn (filter (deletable u d) ids) d"
      "distinct (filter (deletable u d) ids)" by simp_all
    with Inr \<open>v = Inr ids\<close> show ?thesis
      by (auto simp: bulk_delete_transactions_def deletable_iff [OF assms] intro!: fold_delete_moves)
  qed
qed

lemma ledger_step_moves:
  assumes "ledger_ok d"
  shows "ledger_moves u d (ledger_step (u, op) d)"
  using ledger_okD [OF assms]
  by (cases op) (simp_all add: post_transaction_moves patch_transaction_moves delete_transaction_moves
      bulk_delete_moves post_account_moves patch_account_moves delete_account_moves)

subsection \<open>What a primitive change keeps\<close>

lemma insert_txn_simps [simp]:
  "accounts (insert_txn t d) = accounts d" "txns (insert_txn t d) = txns d @ [t]"
  "uuid_src (insert_txn t d) = uuid_src d" "draws (insert_txn t d) = Suc (draws d)"
  by (simp_all add: insert_txn_def)

lemma delete_account_simps [simp]:
  "accounts (delete_account_row k d) = filter (\<lambda>a. acc_id a \<noteq> k) (accounts d)"
  "txns (delete_account_row k d) = filter (\<lambda>t. txn_account t \<noteq> k) (txns d)"
  "uuid_src (delete_account_row k d) = uuid_src d" "draws (delete_account_row k d) = draws d"
  by (simp_all add: delete_account_row_def)

lemma apply_patch_simps [simp]:
  "txn_id (apply_patch p t) = txn_id t" "txn_user (apply_patch p t) = txn_user t"
  "txn_account (apply_patch p t) = txn_account t" "source (apply_patch p t) = source t"
  "txn_statement (apply_patch p t) = txn_statement t" "balance (apply_patch p t) = balance t"
  "txn_created (apply_patch p t) = txn_created t"
  by (simp_all add: apply_patch_def)

lemma apply_account_patch_simps [simp]:
  "acc_id (apply_account_patch p a) = acc_id a" "acc_user (apply_account_patch p a) = acc_user a"
  "link_type (apply_account_patch p a) = link_type a" "acc_connection (apply_account_patch p a) = acc_connection a"
  by (simp_all add: apply_account_patch_def)

lemma drawn_subset: "drawn d ks \<Longrightarrow> uuid_src d' = uuid_src d \<Longrightarrow> draws d \<le> draws d' \<Longrightarrow>
    set ks' \<subseteq> set ks \<Longrightarrow> drawn d' ks'"
  by (rule drawn_mono)

lemma owned_rows_accounts:
  assumes "owned_rows as ts" "map (\<lambda>a. (acc_id a, acc_user a)) as' = map (\<lambda>a. (acc_id a, acc_user a)) as"
  shows "owned_rows as' ts"
proof -
  have "set (map (\<lambda>a. (acc_id a, acc_user a)) as') = set (map (\<lambda>a. (acc_id a, acc_user a)) as)"
    by (simp only: assms(2))
  then have *: "(\<lambda>a. (acc_id a, acc_user a)) ` set as' = (\<lambda>a. (acc_id a, acc_user a)) ` set as" by simp
  show ?thesis
    unfolding owned_rows_def
  proof
    fix t assume "t \<in> set ts"
    with assms(1) have "(txn_account t, txn_user t) \<in> (\<lambda>a. (acc_id a, acc_user a)) ` set as"
      by (force simp: owned_rows_def)
    then have "(txn_account t, txn_user t) \<in> (\<lambda>a. (acc_id a, acc_user a)) ` set as'" by (simp only: *)
    then show "\<exists>a \<in> set as'. acc_id a = txn_account t \<and> acc_user a = txn_user t" by auto
  qed
qed

lemma quiet_keeps_ok:
  "ledger_ok d \<Longrightarrow> accounts d' = accounts d \<Longrightarrow> txns d' = txns d \<Longrightarrow> uuid_src d' = uuid_src d \<Longrightarrow>
   draws d \<le> draws d' \<Longrightarrow> ledger_ok d'"
  by (intro ledger_okI) (auto dest: ledger_okD elim: drawn_mono)

lemma insert_keeps_ok:
  assumes "ledger_ok d" "a \<in> set (accounts d)" "txn_account t = acc_id a" "txn_user t = acc_user a"
    "txn_id t = fresh d" "matching (ledger_key t) (txns d) = []"
  shows "ledger_ok (insert_txn t d)"
proof -
  note ok = ledger_okD [OF assms(1)]
  have f: "fresh d \<notin> set (map txn_id (txns d))" by (rule fresh_not_drawn [OF ok(1)])
  have "key_unique txn_id ledger_key full_key (txns d @ [t])"
    using ok(6) assms(6) by (intro key_unique_append) (auto simp: matching_def filter_empty_conv)
  moreover have "drawn (insert_txn t d) (map txn_id (txns d) @ [fresh d])"
    using ok(1) by (rule drawn_fresh) simp_all
  moreover have "drawn (insert_txn t d) (map acc_id (accounts d))"
    using ok(3) by (rule drawn_mono) simp_all
  ultimately show ?thesis
    using f assms ok(2,4,5) by (intro ledger_okI) (auto simp: owned_rows_def)
qed

lemma save_txn_keeps_ok:
  assumes "ledger_ok d" "t \<in> set (txns d)"
    "\<not> unique_clash (apply_patch p t) (filter (\<lambda>s. txn_id s \<noteq> txn_id t) (txns d))"
  shows "ledger_ok (d\<lparr>txns := save_row txn_id (apply_patch p t) (txns d)\<rparr>)"
proof -
  note ok = ledger_okD [OF assms(1)]
  let ?ts = "save_row txn_id (apply_patch p t) (txns d)"
  have "full_key (apply_patch p t) \<Longrightarrow> s \<in> set (txns d) \<Longrightarrow> txn_id s \<noteq> txn_id t \<Longrightarrow>
      ledger_key s \<noteq> ledger_key (apply_patch p t)" for s
    using assms(3) by (auto simp: unique_clash_def full_key_def matching_def filter_empty_conv)
  then have "key_unique txn_id ledger_key full_key ?ts"
    using ok(6) by (intro key_unique_save_row) auto
  moreover have "owned_rows (accounts d) ?ts"
    using ok(5) assms(2) by (auto simp: owned_rows_def dest!: save_row_set)
  ultimately show ?thesis using ok(1-4) by (intro ledger_okI) (simp_all add: drawn_def)
qed

lemma drop_txn_keeps_ok: "ledger_ok d \<Longrightarrow> ledger_ok (delete_txn k d)"
proof -
  assume "ledger_ok d"
  note ok = ledger_okD [OF this]
  let ?ts = "filter (\<lambda>s. txn_id s \<noteq> k) (txns d)"
  have "drawn (delete_txn k d) (map txn_id ?ts)" by (rule drawn_mono [OF ok(1)]) auto
  moreover have "drawn (delete_txn k d) (map acc_id (accounts d))" by (rule drawn_mono [OF ok(3)]) auto
  ultimately show ?thesis
    using ok(2,4,5,6) by (intro ledger_okI) (auto simp: owned_rows_def distinct_map_filter key_unique_filter)
qed

lemma add_account_keeps_ok:
  assumes "ledger_ok d" "acc_id a = fresh d"
  shows "ledger_ok ((draw d)\<lparr>accounts := accounts d @ [a]\<rparr>)"
proof -
  note ok = ledger_okD [OF assms(1)]
  have f: "fresh d \<notin> set (map acc_id (accounts d))" by (rule fresh_not_drawn [OF ok(3)])
  let ?d = "(draw d)\<lparr>accounts := accounts d @ [a]\<rparr>"
  have "drawn ?d (map acc_id (accounts d) @ [fresh d])" using ok(3) by (rule drawn_fresh) simp_all
  moreover have "drawn ?d (map txn_id (txns d))" using ok(1) by (rule drawn_mono) simp_all
  ultimately show ?thesis
    using f assms(2) ok(2,4,5,6) by (intro ledger_okI) (auto simp: owned_rows_def)
qed

lemma save_account_keeps_ok:
  assumes "ledger_ok d" "old \<in> set (accounts d)" "acc_id a = acc_id old" "acc_user a = acc_user old"
  shows "ledger_ok (d\<lparr>accounts := save_row acc_id a (accounts d)\<rparr>)"
proof -
  note ok = ledger_okD [OF assms(1)]
  have same: "b = old" if "b \<in> set (accounts d)" "acc_id b = acc_id old" for b
    using distinct_pkD [OF ok(4)] that assms(2) by auto
  have "owned_rows (save_row acc_id a (accounts d)) (txns d)"
    by (rule owned_rows_accounts [OF ok(5)], rule map_save_row) (auto simp: assms(3,4) dest: same)
  then show ?thesis using ok by (intro ledger_okI) (simp_all add: drawn_def)
qed

lemma drop_account_keeps_ok: "ledger_ok d \<Longrightarrow> ledger_ok (delete_account_row k d)"
proof -
  assume "ledger_ok d"
  note ok = ledger_okD [OF this]
  let ?d = "delete_account_row k d"
  have "drawn ?d (map txn_id (filter (\<lambda>s. txn_account s \<noteq> k) (txns d)))"
    by (rule drawn_mono [OF ok(1)]) auto
  moreover have "drawn ?d (map acc_id (filter (\<lambda>b. acc_id b \<noteq> k) (accounts d)))"
    by (rule drawn_mono [OF ok(3)]) auto
  moreover have "owned_rows (filter (\<lambda>b. acc_id b \<noteq> k) (accounts d)) (filter (\<lambda>s. txn_account s \<noteq> k) (txns d))"
    using ok(5) unfolding owned_rows_def by fastforce
  ultimately show ?thesis
    using ok(2,4,6) by (intro ledger_okI) (simp_all add: distinct_map_filter key_unique_filter)
qed

lemma change_keeps_ledger_ok:
  assumes "ledger_change u d d'" "ledger_ok d"
  shows "ledger_ok d'"
  using assms(1)
proof cases
  case quiet
  with assms(2) show ?thesis by (rule quiet_keeps_ok)
next
  case (add_txn a t)
  with assms(2) show ?thesis by (simp only:) (rule insert_keeps_ok [of d a], simp_all)
next
  case (patch_txn t p)
  with assms(2) show ?thesis by (simp only:) (rule save_txn_keeps_ok)
next
  case (drop_txn t)
  with assms(2) show ?thesis by (simp only: drop_txn_keeps_ok)
next
  case (add_account a)
  with assms(2) show ?thesis by (simp only: add_account_keeps_ok)
next
  case (patch_account a p)
  with assms(2) show ?thesis by (simp only:) (rule save_account_keeps_ok [of d a], simp_all)
next
  case (drop_account a)
  with assms(2) show ?thesis by (simp only: drop_account_keeps_ok)
qed

text \<open>The bank's own record of a row: all of it but the two fields the user may set.\<close>

definition bank_record :: "txn \<Rightarrow> txn" where
  "bank_record t = t\<lparr>txn_category := None, is_recurring := False\<rparr>"

definition bank_rows :: "db \<Rightarrow> txn list" where
  "bank_rows d = map bank_record (filter (on_synced d) (txns d))"

definition synced_accounts :: "db \<Rightarrow> bank_account list" where
  "synced_accounts d = filter (\<lambda>a. link_type a = Synced) (accounts d)"

lemma synced_ids_accounts: "synced_ids d = acc_id ` set (synced_accounts d)"
  by (auto simp: synced_ids_def synced_accounts_def)

lemma on_synced_cong: "synced_accounts d' = synced_accounts d \<Longrightarrow> on_synced d' = on_synced d"
  by (simp add: fun_eq_iff on_synced_def synced_ids_accounts)

lemma bank_rows_cong:
  assumes "synced_accounts d' = synced_accounts d"
    and "map bank_record (filter (on_synced d) (txns d')) = bank_rows d"
  shows "bank_rows d' = bank_rows d"
  using assms by (simp add: bank_rows_def on_synced_cong [OF assms(1)])

lemma bank_record_synced_patch: "bank_record (apply_patch (synced_patch p) t) = bank_record t"
  by (simp add: bank_record_def apply_patch_def synced_patch_def)

lemma change_keeps_synced:
  assumes "ledger_change u d d'" "ledger_ok d"
  shows "synced_accounts d' = synced_accounts d \<and> bank_rows d' = bank_rows d"
proof -
  have acc_same: "b = a" if "a \<in> set (accounts d)" "b \<in> set (accounts d)" "acc_id b = acc_id a" for a b
    using distinct_pkD [OF ledger_okD(4) [OF assms(2)] that(2,1,3)] .
  have txn_same: "s = t" if "t \<in> set (txns d)" "s \<in> set (txns d)" "txn_id s = txn_id t" for s t
    using distinct_pkD [OF ledger_okD(2) [OF assms(2)] that(2,1,3)] .
  have manual: "acc_id a \<notin> synced_ids d" if "a \<in> set (accounts d)" "link_type a \<noteq> Synced" for a
    using that by (auto simp: synced_ids_def dest: acc_same [of a])
  have "synced_accounts d' = synced_accounts d \<and>
      map bank_record (filter (on_synced d) (txns d')) = bank_rows d"
    using assms(1)
  proof cases
    case quiet
    then show ?thesis by (simp add: synced_accounts_def bank_rows_def)
  next
    case (add_txn a t)
    then show ?thesis
      using manual [of a] by (simp add: synced_accounts_def bank_rows_def on_synced_def)
  next
    case (patch_txn t p)
    have "map bank_record (filter (on_synced d) (save_row txn_id (apply_patch p t) (txns d))) = bank_rows d"
      unfolding bank_rows_def
    proof (rule map_filter_save_row)
      fix s assume "s \<in> set (txns d)" "txn_id s = txn_id (apply_patch p t)"
      then have "s = t" using txn_same patch_txn(2) by simp
      moreover have "bank_record t = bank_record (apply_patch p t)" if "on_synced d t"
      proof -
        from patch_txn(4) that have "p = synced_patch p" by simp
        then show ?thesis by (metis bank_record_synced_patch)
      qed
      ultimately show "on_synced d s = on_synced d (apply_patch p t) \<and>
          (on_synced d (apply_patch p t) \<longrightarrow> bank_record s = bank_record (apply_patch p t))"
        by (simp add: on_synced_def)
    qed
    then show ?thesis by (simp add: patch_txn(1) synced_accounts_def)
  next
    case (drop_txn t)
    have "filter (on_synced d) (filter (\<lambda>s. txn_id s \<noteq> txn_id t) (txns d)) = filter (on_synced d) (txns d)"
      using drop_txn(4) by (auto intro!: filter_cong dest: txn_same [OF drop_txn(2)])
    then show ?thesis by (simp add: drop_txn(1) synced_accounts_def bank_rows_def)
  next
    case (add_account a)
    then show ?thesis by (simp add: synced_accounts_def bank_rows_def)
  next
    case (patch_account a p)
    have "filter (\<lambda>a. link_type a = Synced) (save_row acc_id (apply_account_patch p a) (accounts d)) =
        filter (\<lambda>a. link_type a = Synced) (accounts d)"
      using patch_account(4) by (intro filter_save_row) (auto dest: acc_same [OF patch_account(2)])
    then show ?thesis by (simp add: patch_account(1) synced_accounts_def bank_rows_def)
  next
    case (drop_account a)
    have "filter (\<lambda>a. link_type a = Synced) (filter (\<lambda>b. acc_id b \<noteq> acc_id a) (accounts d)) =
        filter (\<lambda>a. link_type a = Synced) (accounts d)"
      using drop_account(4) by (auto intro!: filter_cong dest: acc_same [OF drop_account(2)])
    moreover have "filter (on_synced d) (filter (\<lambda>s. txn_account s \<noteq> acc_id a) (txns d)) =
        filter (on_synced d) (txns d)"
      using manual [OF drop_account(2,4)] by (auto simp: on_synced_def intro!: filter_cong)
    ultimately show ?thesis by (simp add: drop_account(1) synced_accounts_def bank_rows_def)
  qed
  then show ?thesis using bank_rows_cong by simp
qed

text \<open>What the other users hold.\<close>

lemma change_keeps_others:
  assumes "ledger_change u d d'" "ledger_ok d" "v \<noteq> u"
  shows "filter (\<lambda>t. txn_user t = v) (txns d') = filter (\<lambda>t. txn_user t = v) (txns d) \<and>
         filter (\<lambda>a. acc_user a = v) (accounts d') = filter (\<lambda>a. acc_user a = v) (accounts d)"
proof -
  have acc_same: "b = a" if "a \<in> set (accounts d)" "b \<in> set (accounts d)" "acc_id b = acc_id a" for a b
    using distinct_pkD [OF ledger_okD(4) [OF assms(2)] that(2,1,3)] .
  have txn_same: "s = t" if "t \<in> set (txns d)" "s \<in> set (txns d)" "txn_id s = txn_id t" for s t
    using distinct_pkD [OF ledger_okD(2) [OF assms(2)] that(2,1,3)] .
  have owner: "txn_user t = acc_user a" if "t \<in> set (txns d)" "a \<in> set (accounts d)" "txn_account t = acc_id a" for t a
  proof -
    from ledger_okD(5) [OF assms(2)] that(1) obtain b where "b \<in> set (accounts d)"
      "acc_id b = txn_account t" "acc_user b = txn_user t" by (auto simp: owned_rows_def)
    with that acc_same [of a b] show ?thesis by simp
  qed
  show ?thesis
    using assms(1)
  proof cases
    case (patch_txn t p)
    then show ?thesis using assms(3)
      by (auto intro!: filter_save_row dest: txn_same [OF patch_txn(2)])
  next
    case (drop_txn t)
    then show ?thesis using assms(3)
      by (auto intro!: filter_cong dest: txn_same [OF drop_txn(2)])
  next
    case (patch_account a p)
    then show ?thesis using assms(3)
      by (auto intro!: filter_save_row dest: acc_same [OF patch_account(2)])
  next
    case (drop_account a)
    then show ?thesis using assms(3)
      by (auto intro!: filter_cong dest: acc_same [OF drop_account(2)] owner [OF _ drop_account(2)])
  qed (use assms(3) in auto)
qed

subsection \<open>The properties\<close>

lemma moves_keep:
  assumes "ledger_moves u d d'" "ledger_ok d"
  shows "ledger_ok d' \<and> synced_accounts d' = synced_accounts d \<and> bank_rows d' = bank_rows d"
  using assms
  by (induction rule: rtranclp_induct) (auto dest: change_keeps_ledger_ok change_keeps_synced)

lemma moves_keep_others:
  assumes "ledger_moves u d d'" "ledger_ok d" "v \<noteq> u"
  shows "filter (\<lambda>t. txn_user t = v) (txns d') = filter (\<lambda>t. txn_user t = v) (txns d) \<and>
         filter (\<lambda>a. acc_user a = v) (accounts d') = filter (\<lambda>a. acc_user a = v) (accounts d)"
  using assms
proof (induction rule: rtranclp_induct)
  case (step d1 d2)
  then show ?case using moves_keep [of u d d1] change_keeps_others [of u d1 d2 v] by simp
qed simp

text \<open>Only a bank's own accounts hang on a connection.\<close>

definition manual_unlinked :: "db \<Rightarrow> bool" where
  "manual_unlinked d \<longleftrightarrow> (\<forall>a \<in> set (accounts d). acc_connection a \<noteq> None \<longrightarrow> link_type a = Synced)"

lemma moves_keep_unlinked:
  assumes "ledger_moves u d d'" "manual_unlinked d"
  shows "manual_unlinked d'"
  using assms
proof (induction rule: rtranclp_induct)
  case (step d1 d2)
  from step.IH [OF step.prems] have d1: "manual_unlinked d1" .
  from step.hyps(2) show ?case
  proof cases
    case (patch_account a p)
    then show ?thesis using d1 by (auto simp: manual_unlinked_def dest!: save_row_set)
  qed (use d1 in \<open>auto simp: manual_unlinked_def\<close>)
qed simp

lemma run_keeps_ok:
  "ledger_ok d \<Longrightarrow> ledger_ok (fold ledger_step ops d)"
proof (induction ops arbitrary: d)
  case (Cons op ops)
  then show ?case
    by (cases op) (auto dest: moves_keep [OF ledger_step_moves])
qed simp

text \<open>C1. Whatever sequence of transaction and account requests the users make, every
  transaction keeps an owner that owns its account, ids stay unique, and no two rows ever
  share user, account, date, amount, merchant and direction.\<close>

theorem ledger_invariant:
  assumes "ledger_ok d"
  shows "ledger_ok (fold ledger_step ops d)"
  using run_keeps_ok [OF assms] .

text \<open>C2. The bank is the source of truth for what it feeds: no sequence of user requests
  changes a synced account, or adds, removes or alters a transaction on one, the category
  and the recurring flag apart.\<close>

theorem synced_ledger_read_only:
  assumes "ledger_ok d"
  shows "synced_accounts (fold ledger_step ops d) = synced_accounts d \<and>
         bank_rows (fold ledger_step ops d) = bank_rows d"
  using assms
proof (induction ops arbitrary: d)
  case (Cons op ops)
  obtain u o' where op: "op = (u, o')" by (cases op)
  have "ledger_ok (ledger_step op d)" "synced_accounts (ledger_step op d) = synced_accounts d"
    "bank_rows (ledger_step op d) = bank_rows d"
    using moves_keep [OF ledger_step_moves [OF Cons.prems] Cons.prems, of u o'] by (simp_all add: op)
  with Cons.IH [of "ledger_step op d"] show ?case by simp
qed simp

text \<open>Requests of other users never touch a user's accounts or transactions.\<close>

theorem other_users_ledger_untouched:
  assumes "ledger_ok d" "\<forall>(u, op) \<in> set ops. u \<noteq> v"
  shows "filter (\<lambda>t. txn_user t = v) (txns (fold ledger_step ops d)) = filter (\<lambda>t. txn_user t = v) (txns d) \<and>
         filter (\<lambda>a. acc_user a = v) (accounts (fold ledger_step ops d)) = filter (\<lambda>a. acc_user a = v) (accounts d)"
  using assms
proof (induction ops arbitrary: d)
  case (Cons op ops)
  obtain u o' where op: "op = (u, o')" by (cases op)
  have "ledger_ok (ledger_step op d)"
    using moves_keep [OF ledger_step_moves [OF Cons.prems(1)] Cons.prems(1), of u o'] by (simp add: op)
  moreover have "v \<noteq> u" using Cons.prems(2) op by auto
  ultimately show ?case
    using moves_keep_others [OF ledger_step_moves [OF Cons.prems(1)] Cons.prems(1), of v u o']
      Cons.IH [of "ledger_step op d"] Cons.prems(2) by (simp add: op)
qed simp

text \<open>A small ledger for the witnesses: user 1 with a manual account 10 and a synced account
  11, user 2 with a manual account 12.\<close>

definition sample_account :: "uuid \<Rightarrow> uuid \<Rightarrow> link_type \<Rightarrow> bank_account" where
  "sample_account k u l = \<lparr>acc_id = k, acc_user = u, bank_name = ''NBE'', account_type = None,
     account_number = ''1000'', acc_currency = ''EGP'', is_active = True, link_type = l,
     acc_connection = None, external_account_id = None\<rparr>"

definition sample_txn :: "uuid \<Rightarrow> uuid \<Rightarrow> uuid \<Rightarrow> string \<Rightarrow> rat \<Rightarrow> txn" where
  "sample_txn k u a src x = \<lparr>txn_id = k, txn_user = u, txn_account = a, txn_statement = None,
     transaction_date = Date 2026 7 k, merchant_raw = Some ''Shop'', merchant_normalized = None,
     txn_category = None, amount = x, txn_currency = ''EGP'', is_recurring = False, source = src,
     balance = None, transaction_type = Some ''debit'', txn_created = int k\<rparr>"

definition sample_ledger :: db where
  "sample_ledger = empty_db\<lparr>
     accounts := [sample_account 10 1 Manual, sample_account 11 1 Synced, sample_account 12 2 Manual],
     txns := [sample_txn 20 1 10 ''manual'' 5, sample_txn 21 1 11 ''synced'' 7, sample_txn 22 2 12 ''manual'' 9],
     draws := 100\<rparr>"

definition sample_ops :: "(uuid \<times> ledger_op) list" where
  "sample_ops =
    [(1, Post_txn 50 (Some 10) (Inr \<lparr>d_date = Date 2026 7 2, d_merchant = Some ''Cafe'', d_category = None,
        d_amount = 3, d_currency = None, d_type = Some ''debit'', d_recurring = False\<rparr>)),
     (1, Patch_txn 21 [''is_recurring''] (Inr \<lparr>p_category = None, p_merchant = None, p_amount = None,
        p_date = None, p_type = None, p_recurring = Some True\<rparr>)),
     (1, Bulk_delete_txns (Inr [20, 21, 22])),
     (1, Delete_account 11)]"

lemma sample_ledger_ok: "ledger_ok sample_ledger"
  by (simp add: ledger_ok_def sample_ledger_def empty_db_def sample_account_def sample_txn_def
      owned_rows_def key_unique_def ledger_key_def full_key_def drawn_def)

theorem ledger_invariant_witness: "ledger_ok (fold ledger_step sample_ops sample_ledger)"
  using ledger_invariant [OF sample_ledger_ok] .

theorem synced_ledger_read_only_witness:
  "synced_accounts (fold ledger_step sample_ops sample_ledger) = synced_accounts sample_ledger \<and>
   bank_rows (fold ledger_step sample_ops sample_ledger) = bank_rows sample_ledger"
  using synced_ledger_read_only [OF sample_ledger_ok] .

theorem other_users_ledger_untouched_witness:
  "filter (\<lambda>t. txn_user t = 2) (txns (fold ledger_step sample_ops sample_ledger)) =
     filter (\<lambda>t. txn_user t = 2) (txns sample_ledger) \<and>
   filter (\<lambda>a. acc_user a = 2) (accounts (fold ledger_step sample_ops sample_ledger)) =
     filter (\<lambda>a. acc_user a = 2) (accounts sample_ledger)"
  by (rule other_users_ledger_untouched [OF sample_ledger_ok]) (simp add: sample_ops_def)

text \<open>A bulk delete of distinct ids is a partition: the deleted ids are exactly the
  caller's rows on mutable accounts, every other id is reported with its reason, both in
  the order asked, and exactly the deleted rows are gone.\<close>

theorem bulk_delete_partition:
  assumes "distinct ids"
  shows "\<exists>d'. bulk_delete_transactions u (Inr ids) d =
     (Inr (filter (deletable u d) ids,
           map (\<lambda>k. (k, why_skipped u d k)) (filter (\<lambda>k. \<not> deletable u d k) ids)), d') \<and>
     txns d' = filter (\<lambda>t. \<not> (txn_id t \<in> set ids \<and> deletable u d (txn_id t))) (txns d) \<and>
     accounts d' = accounts d"
proof -
  let ?s = "\<lparr>bulk_deleted = [], bulk_skipped = [], bulk_db = d\<rparr>"
  obtain s where s: "bulk_delete_loop u d ids ?s = Inr s"
    using bulk_loop_succeeds [of ?s u d ids] assms by auto
  from bulk_loop_result [OF s] show ?thesis
    by (auto simp: bulk_delete_transactions_def s intro!: filter_cong)
qed

theorem bulk_delete_partition_witness:
  "\<exists>d'. bulk_delete_transactions 1 (Inr [20, 21, 22]) sample_ledger =
     (Inr (filter (deletable 1 sample_ledger) [20, 21, 22],
           map (\<lambda>k. (k, why_skipped 1 sample_ledger k)) (filter (\<lambda>k. \<not> deletable 1 sample_ledger k) [20, 21, 22])), d') \<and>
     txns d' = filter (\<lambda>t. \<not> (txn_id t \<in> set [20, 21, 22] \<and> deletable 1 sample_ledger (txn_id t))) (txns sample_ledger) \<and>
     accounts d' = accounts sample_ledger"
  by (rule bulk_delete_partition) simp

text \<open>A repeated id is what the loop does not survive.\<close>

lemma bulk_delete_repeated_id:
  "fst (bulk_delete_transactions 1 (Inr [20, 20]) sample_ledger) = Inl (Unhandled ''ValueError'')"
  by code_simp

text \<open>Recording a transaction: on a mutable account of the caller a valid body either
  meets a row with the same date, amount, merchant and direction, and is refused with that
  row's id and nothing written, or adds exactly one row, the caller's own, with source
  \<open>manual\<close> whatever the client sent.\<close>

theorem post_transaction_outcome:
  assumes "owned_account u k d = Some a" "link_type a = Manual"
  shows "case first_pk txn_id (matching (u, k, d_date x, d_amount x, d_merchant x, d_type x) (txns d)) of
      Some dup \<Rightarrow> (\<exists>m. post_transaction now u (Some k) (Inr x) d =
          (Inl (BusinessRuleError m ''duplicate_transaction''
             (Some [(''transaction_id'', Str (uuid_str (txn_id dup)))])), d))
    | None \<Rightarrow> (\<exists>t d'. post_transaction now u (Some k) (Inr x) d = (Inr t, d') \<and>
          txns d' = txns d @ [t] \<and> accounts d' = accounts d \<and> source t = ''manual'' \<and>
          ledger_key t = (u, k, d_date x, d_amount x, d_merchant x, d_type x))"
proof -
  have "acc_id a = k" "link_type a \<noteq> Synced" using owned_account_Some [OF assms(1)] assms(2) by auto
  then show ?thesis
    by (cases "first_pk txn_id (matching (u, k, d_date x, d_amount x, d_merchant x, d_type x) (txns d))")
      (simp_all add: post_transaction_def assms(1) Let_def embed_best_effort_def manual_txn_def ledger_key_def)
qed

theorem post_transaction_outcome_witness:
  "\<exists>m. post_transaction 50 1 (Some 10)
     (Inr \<lparr>d_date = Date 2026 7 20, d_merchant = Some ''Shop'', d_category = None, d_amount = 5,
       d_currency = None, d_type = Some ''debit'', d_recurring = False\<rparr>) sample_ledger =
     (Inl (BusinessRuleError m ''duplicate_transaction''
        (Some [(''transaction_id'', Str (uuid_str 20))])), sample_ledger)"
  using post_transaction_outcome [where u = 1 and k = 10 and d = sample_ledger and now = 50 and
    a = "sample_account 10 1 Manual" and
    x = "\<lparr>d_date = Date 2026 7 20, d_merchant = Some ''Shop'', d_category = None, d_amount = 5,
       d_currency = None, d_type = Some ''debit'', d_recurring = False\<rparr>"]
  by (simp add: owned_account_def sample_ledger_def empty_db_def sample_account_def sample_txn_def
      by_pk_Cons matching_def ledger_key_def)

subsection \<open>The balance\<close>

text \<open>
  What NUMERIC(14, 2) columns hold, for an account of fewer than \<open>10 ^ 13\<close> rows: within
  these bounds 28 decimal digits never round.
\<close>

definition in_range :: "txn list \<Rightarrow> bool" where
  "in_range ts \<longleftrightarrow> length ts < 10 ^ 13 \<and>
     (\<forall>t \<in> set ts. places 2 (amount t) \<and> \<bar>amount t\<bar> < 10 ^ 12 \<and>
        (\<forall>b. balance t = Some b \<longrightarrow> places 2 b \<and> \<bar>b\<bar> < 10 ^ 12))"

lemma dec_places2:
  assumes "places 2 x" "\<bar>x\<bar> < 10 ^ 26"
  shows "dec x = x"
proof -
  from assms(1) obtain k where k: "x = of_int k / 10 ^ 2" by (rule placesE)
  with assms(2) have "\<bar>of_int k :: rat\<bar> < 10 ^ 28" by (simp add: abs_divide field_simps)
  then have "of_int \<bar>k\<bar> < (of_int (10 ^ 28) :: rat)" by simp
  then have "\<bar>k\<bar> < 10 ^ 28" by (simp only: of_int_less_iff)
  with k show ?thesis by (intro dec_exact [of k x 2]) simp_all
qed

lemma places_sum_of: "(\<And>t. t \<in> set ts \<Longrightarrow> places 2 (f t)) \<Longrightarrow> places 2 (sum_of f P ts)"
  by (induction ts) auto

lemma sum_of_abs:
  "(\<And>t. t \<in> set ts \<Longrightarrow> \<bar>f t\<bar> \<le> M) \<Longrightarrow> 0 \<le> M \<Longrightarrow>
   \<bar>sum_of f P ts\<bar> + \<bar>sum_of f (\<lambda>t. \<not> P t) ts\<bar> \<le> of_nat (length ts) * (M :: rat)"
proof (induction ts)
  case (Cons t ts)
  from Cons.prems have "\<bar>f t\<bar> \<le> M" "\<bar>sum_of f P ts\<bar> + \<bar>sum_of f (\<lambda>t. \<not> P t) ts\<bar> \<le> of_nat (length ts) * M"
    using Cons.IH by simp_all
  then show ?case
    using abs_triangle_ineq [of "f t" "sum_of f P ts"] abs_triangle_ineq [of "f t" "sum_of f (\<lambda>t. \<not> P t) ts"]
    by (simp add: algebra_simps)
qed simp

lemma balance_exact:
  assumes ms: "in_range ms" and b: "places 2 b" "\<bar>b\<bar> < 10 ^ 12"
  shows "dec (dec (b + credits ms) - outflows ms) = b + credits ms - outflows ms"
proof -
  have out: "outflows ms = sum_of amount (\<lambda>t. \<not> transaction_type t = Some ''credit'') ms"
    unfolding outflows_def by (rule sum_of_cong) auto
  have pl: "places 2 (credits ms)" "places 2 (outflows ms)"
    using ms by (auto simp: credits_def outflows_def in_range_def intro!: places_sum_of)
  have "\<bar>credits ms\<bar> + \<bar>outflows ms\<bar> \<le> of_nat (length ms) * 10 ^ 12"
    unfolding credits_def out using ms by (intro sum_of_abs) (auto simp: in_range_def less_imp_le)
  moreover have "of_nat (length ms) \<le> (10 ^ 13 :: rat)"
  proof -
    have "length ms \<le> 10 ^ 13" using ms by (simp add: in_range_def)
    then have "of_nat (length ms) \<le> (of_nat (10 ^ 13) :: rat)" by (rule of_nat_mono)
    then show ?thesis by simp
  qed
  ultimately have "\<bar>credits ms\<bar> + \<bar>outflows ms\<bar> \<le> 10 ^ 25" by simp
  then have "\<bar>b + credits ms\<bar> < 10 ^ 26" "\<bar>b + credits ms - outflows ms\<bar> < 10 ^ 26"
    using b(2) by (auto simp: abs_if split: if_splits)
  with pl b show ?thesis by (simp add: dec_places2)
qed

lemma newest_None [simp]: "newest ts = None \<longleftrightarrow> ts = []"
  by (cases ts) (auto split: option.splits)

lemma newest_in: "newest ts = Some s \<Longrightarrow> s \<in> set ts"
  by (induction ts arbitrary: s) (auto split: option.splits if_splits)

lemma newest_append: "(\<And>s. s \<in> set ts \<Longrightarrow> later t s) \<Longrightarrow> newest (ts @ [t]) = Some t"
  by (induction ts) auto

lemma later_irrefl [simp]: "\<not> later t t"
  by (simp add: later_def)

lemma later_asym: "later s t \<Longrightarrow> \<not> later t s"
  by (auto simp: later_def)

lemma current_balance_alt:
  "current_balance a ts =
     (let rows = account_rows a ts in
      case newest (filter (\<lambda>t. balance t \<noteq> None) rows) of
        None \<Rightarrow> dec (dec (0 + credits rows) - outflows rows)
      | Some t \<Rightarrow> dec (dec (the (balance t) + credits (filter (\<lambda>s. later s t) rows)) -
                       outflows (filter (\<lambda>s. later s t) rows)))"
  by (simp add: current_balance_def later_def Let_def split: option.splits)

lemma in_range_sub: "in_range ts \<Longrightarrow> in_range (filter P ts)"
  by (auto simp: in_range_def intro: le_less_trans [OF length_filter_le])

lemma account_rows_append: "account_rows a (ts @ [t]) =
    account_rows a ts @ (if txn_account t = a then [t] else [])"
  by (simp add: account_rows_def)

definition signed :: "txn \<Rightarrow> rat" where
  "signed t = (if transaction_type t = Some ''credit'' then amount t else - amount t)"

lemma movement_append: "b + credits (ms @ [t]) - outflows (ms @ [t]) = b + credits ms - outflows ms + signed t"
  by (simp add: credits_def outflows_def signed_def)

text \<open>A new latest row moves the balance as it should: a row that states a running
  balance becomes the anchor and its balance is the account's; a row that states none adds
  its amount if it is a credit and subtracts it otherwise, exactly, so a missing balance on
  the latest row hides nothing.\<close>

theorem current_balance_new_row:
  assumes range: "in_range (ts @ [t])" and a: "txn_account t = a"
    and last: "\<And>s. s \<in> set (account_rows a ts) \<Longrightarrow> later t s"
  shows "current_balance a (ts @ [t]) =
    (case balance t of Some b \<Rightarrow> b | None \<Rightarrow> current_balance a ts + signed t)"
proof -
  let ?rows = "account_rows a ts"
  have r: "in_range ?rows" "in_range (?rows @ [t])"
    using in_range_sub [OF range, of "\<lambda>t. txn_account t = a"] a in_range_sub [OF range]
    by (auto simp: account_rows_def in_range_def)
  show ?thesis
  proof (cases "balance t")
    case (Some b)
    have "newest (filter (\<lambda>t. balance t \<noteq> None) ?rows @ [t]) = Some t"
      using last by (intro newest_append) simp
    moreover have "filter (\<lambda>s. later s t) ?rows = []"
      using last later_asym by (auto simp: filter_empty_conv)
    moreover have "dec b = b"
      using range Some by (intro dec_places2) (auto simp: in_range_def)
    ultimately show ?thesis
      using a Some by (simp add: current_balance_alt account_rows_append Let_def credits_def outflows_def)
  next
    case None
    show ?thesis
    proof (cases "newest (filter (\<lambda>t. balance t \<noteq> None) ?rows)")
      case none: None
      with None a balance_exact [OF r(1), of 0] balance_exact [OF r(2), of 0] movement_append [of 0 ?rows t]
      show ?thesis
        by (simp add: current_balance_alt account_rows_append Let_def)
    next
      case (Some s)
      let ?ms = "filter (\<lambda>x. later x s) ?rows"
      have s: "s \<in> set ?rows" "balance s \<noteq> None" using newest_in [OF Some] by auto
      then have bs: "places 2 (the (balance s))" "\<bar>the (balance s)\<bar> < 10 ^ 12"
        using r(1) by (auto simp: in_range_def)
      have m: "in_range ?ms" "in_range (?ms @ [t])"
        using in_range_sub [OF r(1), of "\<lambda>x. later x s"] in_range_sub [OF r(2), of "\<lambda>x. later x s"] last [OF s(1)]
        by auto
      from Some None a last [OF s(1)] balance_exact [OF m(1) bs] balance_exact [OF m(2) bs]
        movement_append [of "the (balance s)" ?ms t]
      show ?thesis by (simp add: current_balance_alt account_rows_append Let_def)
    qed
  qed
qed

theorem current_balance_new_row_witness:
  "current_balance 10 ([(sample_txn 3 1 10 ''statement'' 5)\<lparr>balance := Some 100\<rparr>] @ [sample_txn 4 1 10 ''manual'' 30]) = 70"
proof -
  have b: "current_balance 10 [(sample_txn 3 1 10 ''statement'' 5)\<lparr>balance := Some 100\<rparr>] = 100"
    by code_simp
  have p: "places 2 5" "places 2 30" "places 2 100"
    by (simp_all add: places_def frac_eq_0_iff)
  show ?thesis
    by (subst current_balance_new_row)
      (use p b in \<open>simp_all add: in_range_def account_rows_def sample_txn_def later_def less_date_def signed_def\<close>)
qed

end
