(* ===== verification/Statement_Laws.thy ===== *)
theory Statement_Laws
  imports Statements Ledger_Laws
begin

text \<open>
  What the statement pipeline keeps: the guards, one task per processing statement, a
  status that only moves forward, a poll loop that always ends, and an approval that
  commits each submitted row once.
\<close>

subsection \<open>One phase after another\<close>

definition is_status_event :: "effect \<Rightarrow> bool" where
  "is_status_event e = (case e of Statement_status a b c x y z \<Rightarrow> True | _ \<Rightarrow> False)"

text \<open>What a run of phases leaves alone.\<close>

definition phase_frame :: "db \<Rightarrow> db \<Rightarrow> bool" where
  "phase_frame d d' \<longleftrightarrow>
     queue d' = queue d \<and> uuid_src d' = uuid_src d \<and> draws d \<le> draws d' \<and> txns d' = txns d \<and>
     set (ocr_results d) \<subseteq> set (ocr_results d') \<and>
     set (normalized_records d) \<subseteq> set (normalized_records d') \<and>
     filter is_status_event (effects d') = filter is_status_event (effects d)"

lemma phase_frame_refl [simp]: "phase_frame d d"
  by (simp add: phase_frame_def)

lemma phase_frame_trans: "phase_frame d d1 \<Longrightarrow> phase_frame d1 d2 \<Longrightarrow> phase_frame d d2"
  by (auto simp: phase_frame_def)

lemma save_statement_simps [simp]:
  "statements (save_statement s d) = save_row st_id s (statements d)"
  "queue (save_statement s d) = queue d" "uuid_src (save_statement s d) = uuid_src d"
  "draws (save_statement s d) = draws d" "txns (save_statement s d) = txns d"
  "ocr_results (save_statement s d) = ocr_results d" "accounts (save_statement s d) = accounts d"
  "normalized_records (save_statement s d) = normalized_records d"
  "effects (save_statement s d) = effects d" "categories (save_statement s d) = categories d"
  by (simp_all add: save_statement_def)

lemma phase_frame_save [simp]: "phase_frame d (save_statement s d)"
  by (simp add: phase_frame_def)

lemma save_row_twice: "pk r' = pk r \<Longrightarrow> save_row pk r' (save_row pk r rs) = save_row pk r' rs"
  by (simp add: save_row_def)

lemma save_row_same: "distinct (map pk rs) \<Longrightarrow> r \<in> set rs \<Longrightarrow> save_row pk r rs = rs"
  by (auto simp: save_row_def intro!: map_idI dest: distinct_pkD)

lemma save_row_in: "x \<in> set rs \<Longrightarrow> pk x = pk r \<Longrightarrow> r \<in> set (save_row pk r rs)"
  by (auto simp: save_row_def)

text \<open>A status says what has been stored for the statement.\<close>

definition artifacts_ok :: "db \<Rightarrow> statement \<Rightarrow> bool" where
  "artifacts_ok d s \<longleftrightarrow>
     (1 \<le> rank (status s) \<longrightarrow> (\<exists>r \<in> set (ocr_results d). ocr_statement r = st_id s)) \<and>
     (2 \<le> rank (status s) \<longrightarrow> (\<exists>r \<in> set (normalized_records d). nz_statement r = st_id s))"

lemma artifacts_mono:
  "artifacts_ok d s \<Longrightarrow> phase_frame d d' \<Longrightarrow> st_id s' = st_id s \<Longrightarrow> status s' = status s \<Longrightarrow>
   artifacts_ok d' s'"
  by (auto simp: artifacts_ok_def phase_frame_def)

lemma resolve_account_frame:
  "resolve_account u n m d = (r, d') \<Longrightarrow> phase_frame d d' \<and> statements d' = statements d"
  by (auto simp: resolve_account_def phase_frame_def split: list.splits)

lemma statement_account_frame:
  "statement_account s js d = (r, d') \<Longrightarrow> phase_frame d d' \<and> statements d' = statements d"
  by (auto simp: statement_account_def split: option.splits dest: resolve_account_frame)

lemma finalize_extraction_post:
  assumes "finalize_extraction_phase now s res d = (r, d')"
  shows "phase_frame d d' \<and>
    (case r of
       Inl e \<Rightarrow> statements d' = statements d
     | Inr s' \<Rightarrow> statements d' = save_row st_id s' (statements d) \<and>
         (\<exists>x \<in> set (ocr_results d'). ocr_statement x = st_id s'))"
  using assms
  by (auto simp: finalize_extraction_phase_def phase_frame_def Let_def
      split: job_result.splits if_splits)

lemma finalize_normalization_post:
  assumes "finalize_normalization_phase now s res d = (r, d')"
  shows "phase_frame d d' \<and>
    (case r of
       Inl e \<Rightarrow> statements d' = statements d
     | Inr s' \<Rightarrow> statements d' = save_row st_id s' (statements d) \<and>
         (\<exists>x \<in> set (normalized_records d'). nz_statement x = st_id s'))"
proof (cases res)
  case (Extraction_result p e c)
  with assms show ?thesis by (auto simp: finalize_normalization_phase_def)
next
  case (Normalization_result js model)
  obtain ra d1 where acct: "statement_account s js d = (ra, d1)" by (cases "statement_account s js d")
  note frame = statement_account_frame [OF acct]
  show ?thesis
    using assms frame
    by (auto simp: finalize_normalization_phase_def Normalization_result acct phase_frame_def Let_def
        is_status_event_def split: sum.splits option.splits list.splits)
qed

lemma phase_finalize_post:
  assumes "phase_finalize ph now s res d = (r, d')" "phase_for_status (status s) = Some ph"
  shows "phase_frame d d' \<and>
    (case r of
       Inl e \<Rightarrow> statements d' = statements d
     | Inr s' \<Rightarrow> statements d' = save_row st_id s' (statements d) \<and> st_id s' = st_id s \<and>
         st_user s' = st_user s \<and> rank (status s') = Suc (rank (status s)) \<and>
         \<not> is_processing s' \<and> (artifacts_ok d s \<longrightarrow> artifacts_ok d' s'))"
proof (cases r)
  case (Inl e)
  with assms show ?thesis
    using finalize_extraction_post [of now s res d r d'] finalize_normalization_post [of now s res d r d']
    by (cases ph) (auto simp: phase_finalize_def)
next
  case (Inr s')
  note fs = finalize_status [OF assms(1) [unfolded Inr]]
  have rk: "rank (status s') = Suc (rank (status s))"
    using fs phase_rank [OF assms(2)] by simp
  show ?thesis
  proof (cases ph)
    case Extraction
    have "status s = Uploaded" using assms(2) Extraction by (cases "status s") auto
    with assms(1) Extraction Inr fs rk finalize_extraction_post [of now s res d r d']
    show ?thesis by (auto simp: phase_finalize_def artifacts_ok_def)
  next
    case Normalization
    have "status s = Extracted" using assms(2) Normalization by (cases "status s") auto
    with assms(1) Normalization Inr fs rk finalize_normalization_post [of now s res d r d']
    show ?thesis by (auto simp: phase_finalize_def artifacts_ok_def phase_frame_def)
  qed
qed

lemma mark_processing_post:
  assumes "mark_processing s d = (s1, d1)" "distinct (map st_id (statements d))" "s \<in> set (statements d)"
  shows "statements d1 = save_row st_id s1 (statements d) \<and> phase_frame d d1 \<and> st_id s1 = st_id s \<and>
    st_user s1 = st_user s \<and> status s1 = status s \<and> is_processing s1"
  using assms by (auto simp: mark_processing_def Let_def save_row_same split: if_splits)

text \<open>How the loop leaves the statement, by the way it ended.\<close>

definition ended_ok :: "st_status \<Rightarrow> nat \<Rightarrow> statement \<Rightarrow> tick_end \<Rightarrow> statement \<Rightarrow> bool" where
  "ended_ok target retries s e s' \<longleftrightarrow>
     (case e of
        Finished s'' \<Rightarrow> s'' = s' \<and>
          (rank (status s) < rank target \<or> \<not> is_processing s \<longrightarrow>
             \<not> is_processing s' \<and> (rank target \<le> rank (status s') \<or> failure_reason s' \<noteq> None))
      | Retry_later j p \<Rightarrow> is_processing s' \<and> rank (status s') < rank target \<and>
          Suc retries \<le> MAX_POLL_ATTEMPTS \<and> p \<le> MAX_POLL_ATTEMPTS
      | Raised m \<Rightarrow> rank (status s') < rank target
      | Retries_exhausted m \<Rightarrow> rank (status s') < rank target \<and> MAX_POLL_ATTEMPTS \<le> retries)"

definition loop_ok :: "st_status \<Rightarrow> nat \<Rightarrow> statement \<Rightarrow> db \<Rightarrow> tick_end \<Rightarrow> db \<Rightarrow> bool" where
  "loop_ok target retries s d e d' \<longleftrightarrow>
     (\<exists>s'. statements d' = save_row st_id s' (statements d) \<and> st_id s' = st_id s \<and>
        st_user s' = st_user s \<and> rank (status s) \<le> rank (status s') \<and>
        rank (status s') \<le> max (rank (status s)) (rank target) \<and> phase_frame d d' \<and>
        (artifacts_ok d s \<longrightarrow> artifacts_ok d' s') \<and> ended_ok target retries s e s')"

lemma fail_and_stop_ok:
  assumes "fail_and_stop s1 ph m n d1 = (e, n', d')"
    and "statements d1 = save_row st_id s1 (statements d)" "phase_frame d d1" "st_id s1 = st_id s"
      "st_user s1 = st_user s" "status s1 = status s" "is_processing s1"
  shows "loop_ok target retries s d e d'"
proof -
  from assms(1) obtain s2 where s2: "s2 = s1\<lparr>failure_reason := Some m, failed_phase := Some ph, is_processing := False\<rparr>"
    "e = Finished s2" "d' = save_statement s2 d1"
    by (auto simp: fail_and_stop_def fail_phase_def Let_def)
  have "phase_frame d d'" using assms(3) s2(3) by (auto intro: phase_frame_trans)
  moreover have "statements d' = save_row st_id s2 (statements d)"
    using assms(2) s2 by (simp add: save_row_twice)
  moreover have "artifacts_ok d s \<longrightarrow> artifacts_ok d' s2"
    using artifacts_mono [of d s d' s2] \<open>phase_frame d d'\<close> assms(4,6) s2(1) by simp
  ultimately show ?thesis
    unfolding loop_ok_def using s2 assms(4,5,6) by (intro exI [of _ s2]) (simp add: ended_ok_def)
qed

lemma loop_ok_later:
  assumes "loop_ok target retries s2 d2 e d'"
    and "statements d2 = save_row st_id s2 (statements d)" "phase_frame d d2" "st_id s2 = st_id s"
      "st_user s2 = st_user s" "rank (status s2) = Suc (rank (status s))" "\<not> is_processing s2"
      "artifacts_ok d s \<longrightarrow> artifacts_ok d2 s2" "rank (status s) < rank target"
  shows "loop_ok target retries s d e d'"
proof -
  from assms(1) obtain s' where s': "statements d' = save_row st_id s' (statements d2)" "st_id s' = st_id s2"
    "st_user s' = st_user s2" "rank (status s2) \<le> rank (status s')"
    "rank (status s') \<le> max (rank (status s2)) (rank target)" "phase_frame d2 d'"
    "artifacts_ok d2 s2 \<longrightarrow> artifacts_ok d' s'" "ended_ok target retries s2 e s'"
    unfolding loop_ok_def by blast
  have "ended_ok target retries s e s'"
    using s'(8) assms(7) unfolding ended_ok_def by (cases e) auto
  then show ?thesis
    unfolding loop_ok_def using s' assms(2-9)
    by (intro exI [of _ s']) (auto simp: save_row_twice intro: phase_frame_trans)
qed

lemma pipeline_loop_ok:
  assumes "pipeline_loop ai now target retries s job poll n d = (e, n', d')" "rank target \<le> 2"
    "distinct (map st_id (statements d))" "s \<in> set (statements d)"
  shows "loop_ok target retries s d e d'"
  using assms
proof (induction ai now target retries s job poll n d arbitrary: e n' d' rule: pipeline_loop.induct)
  case (1 ai now target retries s job poll n d)
  show ?case
  proof (cases "rank target \<le> rank (status s)")
    case True
    with 1(2) have "e = Finished s" "d' = d" by (simp_all add: pipeline_loop.simps [of ai now target])
    with 1(4,5) True show ?thesis
      unfolding loop_ok_def ended_ok_def by (intro exI [of _ s]) (auto simp: save_row_same)
  next
    case False
    then obtain ph where ph: "phase_for_status (status s) = Some ph"
      using 1(3) by (cases "status s"; cases target) auto
    obtain s1 d1 where m: "mark_processing s d = (s1, d1)" by (cases "mark_processing s d")
    note mp = mark_processing_post [OF m 1(4,5)]
    obtain sub n1 where sub: "obtain_job ai n ph s1 job d1 = (sub, n1)" by (cases "obtain_job ai n ph s1 job d1")
    note eqs = pipeline_loop.simps [of ai now target retries s job poll n d] m sub ph
    have stop: "loop_ok target retries s d e d'" if "fail_and_stop s1 ph msg k d1 = (e, n', d')" for msg k
      using fail_and_stop_ok [OF that] mp by blast
    show ?thesis
    proof (cases sub)
      case (Inl msg)
      with 1(2) False show ?thesis by (intro stop) (simp add: eqs)
    next
      case (Inr j)
      show ?thesis
      proof (cases "get_job_status ai n1 j")
        case (Inl msg)
        with 1(2) False Inr show ?thesis by (intro stop) (simp add: eqs)
      next
        case st: (Inr st)
        show ?thesis
        proof (cases st)
          case (Job_failed err)
          with 1(2) False Inr st show ?thesis by (intro stop) (simp add: eqs)
        next
          case Job_running
          show ?thesis
          proof (cases "MAX_POLL_ATTEMPTS \<le> poll")
            case True
            with 1(2) False Inr st Job_running show ?thesis by (intro stop) (simp add: eqs)
          next
            case poll: False
            with 1(2) False Inr st Job_running have "d' = d1"
              "e = (if MAX_POLL_ATTEMPTS < Suc retries
                    then Retries_exhausted ''Can't retry core.tasks.statements.process_statement_pipeline''
                    else Retry_later j (Suc poll))"
              by (auto simp: eqs split: if_splits)
            then show ?thesis
              unfolding loop_ok_def using mp False poll artifacts_mono [of d s d1 s1]
              by (intro exI [of _ s1]) (auto simp: ended_ok_def)
          qed
        next
          case (Job_succeeded res)
          obtain r d2 where fin: "phase_finalize ph now s1 res d1 = (r, d2)" by (cases "phase_finalize ph now s1 res d1")
          have ph1: "phase_for_status (status s1) = Some ph" using ph mp by simp
          note fp = phase_finalize_post [OF fin ph1]
          show ?thesis
          proof (cases r)
            case (Inl m)
            with 1(2) False Inr st Job_succeeded fin have "d' = d2" "e = Raised m" by (simp_all add: eqs)
            with fp Inl mp False artifacts_mono [of d s d1 s1] artifacts_mono [of d1 s1 d2 s1]
            show ?thesis
              unfolding loop_ok_def
              by (intro exI [of _ s1]) (auto simp: ended_ok_def intro: phase_frame_trans)
          next
            case s2: (Inr s2)
            have run: "pipeline_loop ai now target retries s2 None 0 (Suc n1) d2 = (e, n', d')"
              using 1(2) False Inr st Job_succeeded fin s2 by (simp add: eqs)
            have st2: "statements d2 = save_row st_id s2 (statements d)" "st_id s2 = st_id s"
              using fp s2 mp by (simp_all add: save_row_twice)
            have "loop_ok target retries s2 d2 e d'"
            proof (rule 1(1) [OF False ph m [symmetric] sub [symmetric] Inr st Job_succeeded
                  fin [symmetric] s2 run 1(3)])
              show "distinct (map st_id (statements d2))" using st2 1(4) by simp
              show "s2 \<in> set (statements d2)" using st2 1(5) by (simp add: save_row_in)
            qed
            then show ?thesis
            proof (rule loop_ok_later [OF _ st2(1)])
              show "phase_frame d d2" using fp mp by (auto intro: phase_frame_trans)
              show "artifacts_ok d s \<longrightarrow> artifacts_ok d2 s2"
                using fp s2 mp artifacts_mono [of d s d1 s1] by auto
            qed (use fp s2 mp st2 False in auto)
          qed
        qed
      qed
    qed
  qed
qed

subsection \<open>The tasks of the statements\<close>

definition for_statement :: "uuid \<Rightarrow> task \<Rightarrow> bool" where
  "for_statement k t = (case t of Process_pipeline k' target job poll retries \<Rightarrow> k' = k | _ \<Rightarrow> False)"

definition messages :: "uuid \<Rightarrow> db \<Rightarrow> task list" where
  "messages k d = filter (for_statement k) (queue d)"

definition ids_drawn :: "db \<Rightarrow> uuid set" where
  "ids_drawn d = uuid_src d ` {..<draws d}"

definition message_ok :: "db \<Rightarrow> task \<Rightarrow> bool" where
  "message_ok d t = (case t of
       Process_pipeline k target job poll retries \<Rightarrow>
         k \<in> ids_drawn d \<and> rank target \<le> 2 \<and>
         (\<forall>s \<in> set (statements d). st_id s = k \<longrightarrow> rank (status s) < rank target)
     | _ \<Rightarrow> True)"

text \<open>The invariant, but for the flag of the statement \<open>x\<close> being worked on.\<close>

definition pipeline_inv :: "uuid option \<Rightarrow> db \<Rightarrow> bool" where
  "pipeline_inv x d \<longleftrightarrow>
     inj (uuid_src d) \<and> st_id ` set (statements d) \<subseteq> ids_drawn d \<and> distinct (map st_id (statements d)) \<and>
     (\<forall>s \<in> set (statements d). artifacts_ok d s \<and>
        (Some (st_id s) \<noteq> x \<longrightarrow> length (messages (st_id s) d) = (if is_processing s then 1 else 0))) \<and>
     (\<forall>t \<in> set (queue d). message_ok d t)"

definition pipeline_ok :: "db \<Rightarrow> bool" where
  "pipeline_ok d \<longleftrightarrow> pipeline_inv None d"

lemma pipeline_invD:
  assumes "pipeline_inv x d"
  shows "inj (uuid_src d)" "st_id ` set (statements d) \<subseteq> ids_drawn d" "distinct (map st_id (statements d))"
    "\<And>s. s \<in> set (statements d) \<Longrightarrow> artifacts_ok d s"
    "\<And>s. s \<in> set (statements d) \<Longrightarrow> Some (st_id s) \<noteq> x \<Longrightarrow>
       length (messages (st_id s) d) = (if is_processing s then 1 else 0)"
    "\<And>t. t \<in> set (queue d) \<Longrightarrow> message_ok d t"
  using assms unfolding pipeline_inv_def by blast+

lemma pipeline_invI:
  assumes "inj (uuid_src d)" "st_id ` set (statements d) \<subseteq> ids_drawn d" "distinct (map st_id (statements d))"
    "\<And>s. s \<in> set (statements d) \<Longrightarrow> artifacts_ok d s"
    "\<And>s. s \<in> set (statements d) \<Longrightarrow> Some (st_id s) \<noteq> x \<Longrightarrow>
       length (messages (st_id s) d) = (if is_processing s then 1 else 0)"
    "\<And>t. t \<in> set (queue d) \<Longrightarrow> message_ok d t"
  shows "pipeline_inv x d"
  using assms unfolding pipeline_inv_def by blast

lemma ids_drawn_mono: "uuid_src d' = uuid_src d \<Longrightarrow> draws d \<le> draws d' \<Longrightarrow> ids_drawn d \<subseteq> ids_drawn d'"
  by (auto simp: ids_drawn_def)

lemma fresh_not_in_drawn: "inj (uuid_src d) \<Longrightarrow> fresh d \<notin> ids_drawn d"
  unfolding fresh_def ids_drawn_def by (auto dest: injD)

lemma fresh_in_draw: "uuid_src d' = uuid_src d \<Longrightarrow> draws d' = Suc (draws d) \<Longrightarrow> fresh d \<in> ids_drawn d'"
  by (auto simp: fresh_def ids_drawn_def)

text \<open>The worked-on statement is saved, with its next message queued exactly if it is still
  processing.\<close>

lemma settle:
  assumes inv: "pipeline_inv (Some k) d" and none: "messages k d = []"
    and sts: "statements d' = save_row st_id s' (statements d)" and k: "st_id s' = k"
      "k \<in> st_id ` set (statements d)"
    and frame: "uuid_src d' = uuid_src d" "draws d \<le> draws d'"
      "set (ocr_results d) \<subseteq> set (ocr_results d')" "set (normalized_records d) \<subseteq> set (normalized_records d')"
    and art: "artifacts_ok d' s'"
    and q: "(\<not> is_processing s' \<and> queue d' = queue d) \<or>
      (is_processing s' \<and> (\<exists>target job p r. queue d' = queue d @ [Process_pipeline k target job p r] \<and>
         rank target \<le> 2 \<and> rank (status s') < rank target))"
  shows "pipeline_ok d'"
proof -
  have drawn: "ids_drawn d \<subseteq> ids_drawn d'" by (rule ids_drawn_mono [OF frame(1,2)])
  have ids: "st_id ` set (statements d') = st_id ` set (statements d)"
    by (metis sts save_row_pks set_map)
  have msgs: "messages k' d' = (if k' = k \<and> is_processing s' then [last (queue d')] else messages k' d)" for k'
    using q none by (auto simp: messages_def for_statement_def)
  have old: "s \<in> set (statements d)" if "s \<in> set (statements d')" "st_id s \<noteq> k" for s
    using that save_row_set [of s st_id s' "statements d"] k(1) by (auto simp: sts)
  have new: "s = s'" if "s \<in> set (statements d')" "st_id s = k" for s
    using that save_row_set [of s st_id s' "statements d"] k(1) by (auto simp: sts)
  have "pipeline_inv None d'"
  proof (rule pipeline_invI)
    show "inj (uuid_src d')" using pipeline_invD(1) [OF inv] frame(1) by simp
    show "st_id ` set (statements d') \<subseteq> ids_drawn d'" using pipeline_invD(2) [OF inv] drawn ids by blast
    show "distinct (map st_id (statements d'))" using pipeline_invD(3) [OF inv] by (simp add: sts)
    show "artifacts_ok d' s" if "s \<in> set (statements d')" for s
    proof (cases "st_id s = k")
      case True
      then show ?thesis using new [OF that] art by simp
    next
      case False
      then show ?thesis
        using pipeline_invD(4) [OF inv old [OF that False]] frame(3,4) by (auto simp: artifacts_ok_def)
    qed
    show "length (messages (st_id s) d') = (if is_processing s then 1 else 0)"
      if "s \<in> set (statements d')" "Some (st_id s) \<noteq> None" for s
    proof (cases "st_id s = k")
      case True
      then show ?thesis using new [OF that(1)] none by (simp add: msgs)
    next
      case False
      then show ?thesis using pipeline_invD(5) [OF inv old [OF that(1) False]] by (simp add: msgs)
    qed
    show "message_ok d' m" if "m \<in> set (queue d')" for m
    proof (cases "m \<in> set (queue d)")
      case True
      then have "message_ok d m" by (rule pipeline_invD(6) [OF inv])
      moreover have "\<not> for_statement k m"
        using none True by (auto simp: messages_def filter_empty_conv)
      ultimately show ?thesis
        using drawn old by (cases m) (auto simp: message_ok_def for_statement_def)
    next
      case False
      with that q obtain target job p r where m: "m = Process_pipeline k target job p r"
        "rank target \<le> 2" "rank (status s') < rank target" by auto
      moreover have "k \<in> ids_drawn d'" using k(2) pipeline_invD(2) [OF inv] drawn by blast
      ultimately show ?thesis using new by (auto simp: message_ok_def)
    qed
  qed
  then show ?thesis by (simp add: pipeline_ok_def)
qed

lemma pipeline_inv_weaken: "pipeline_ok d \<Longrightarrow> pipeline_inv x d"
  unfolding pipeline_ok_def pipeline_inv_def by auto

lemma advance_keeps:
  assumes inv: "pipeline_inv (Some (st_id s)) d" and none: "messages (st_id s) d = []"
    and s: "s \<in> set (statements d)" and target: "rank target \<le> 2"
    and adv: "validate_advance s target = Inr r"
  shows "pipeline_ok (snd (advance_statement_to s target d))"
proof -
  from adv have a: "\<not> is_processing s" "rank (status s) < rank target"
    by (auto simp: validate_advance_def split: if_splits)
  show ?thesis
    using adv s target a pipeline_invD(4) [OF inv s]
    by (intro settle [OF inv none, of _ "s\<lparr>is_processing := True\<rparr>"])
      (auto simp: advance_statement_to_def Let_def artifacts_ok_def)
qed

lemma owned_statement_Some:
  "owned_statement u k d = Some s \<Longrightarrow> s \<in> set (statements d) \<and> st_user s = u \<and> st_id s = k"
  by (auto simp: owned_statement_def dest: by_pk_Some)

lemma processing_iff:
  assumes "pipeline_ok d" "s \<in> set (statements d)"
  shows "is_processing s \<longleftrightarrow> messages (st_id s) d \<noteq> []"
  using pipeline_invD(5) [OF assms(1) [unfolded pipeline_ok_def] assms(2)]
  by (cases "is_processing s") auto

lemma patch_statement_keeps:
  assumes "pipeline_ok d"
  shows "pipeline_ok (snd (patch_statement u k v d))"
proof (cases "\<exists>s target r. owned_statement u k d = Some s \<and> v = Inr target \<and>
    target \<in> set ADVANCE_TARGET_CHOICES \<and> validate_advance s target = Inr r")
  case True
  then obtain s target r where *: "owned_statement u k d = Some s" "v = Inr target"
    "target \<in> set ADVANCE_TARGET_CHOICES" "validate_advance s target = Inr r" by blast
  from owned_statement_Some [OF *(1)] have s: "s \<in> set (statements d)" by simp
  have "\<not> is_processing s" using *(4) by (auto simp: validate_advance_def split: if_splits)
  then have "messages (st_id s) d = []" using processing_iff [OF assms s] by simp
  moreover have "rank target \<le> 2" using *(3) by (auto simp: ADVANCE_TARGET_CHOICES_def)
  ultimately show ?thesis
    using advance_keeps [OF pipeline_inv_weaken [OF assms] _ s _ *(4)] * by (simp add: patch_statement_def)
next
  case False
  then have "snd (patch_statement u k v d) = d"
    by (auto simp: patch_statement_def advance_statement_to_def split: option.splits sum.splits)
  with assms show ?thesis by simp
qed

text \<open>A change elsewhere, and rows that go or lose a reference.\<close>

lemma quiet_keeps:
  assumes ok: "pipeline_ok d"
    and frame: "uuid_src d' = uuid_src d" "draws d \<le> draws d'" "ocr_results d' = ocr_results d"
      "normalized_records d' = normalized_records d" "filter (\<lambda>t. \<exists>k. for_statement k t) (queue d') =
         filter (\<lambda>t. \<exists>k. for_statement k t) (queue d)"
    and sts: "map (\<lambda>s. (st_id s, st_user s, status s, is_processing s)) (statements d') =
         map (\<lambda>s. (st_id s, st_user s, status s, is_processing s)) (statements d)"
  shows "pipeline_ok d'"
proof -
  note inv = ok [unfolded pipeline_ok_def]
  have drawn: "ids_drawn d \<subseteq> ids_drawn d'" by (rule ids_drawn_mono [OF frame(1,2)])
  have ids: "map st_id (statements d') = map st_id (statements d)"
    using arg_cong [OF sts, of "map fst"] by (simp add: comp_def)
  have msgs: "messages k d' = messages k d" for k
  proof -
    have eq: "messages k x = filter (for_statement k) (filter (\<lambda>t. \<exists>k. for_statement k t) (queue x))" for x
      by (auto simp: messages_def intro!: filter_cong)
    show ?thesis by (simp only: eq frame(5))
  qed
  have old: "\<exists>r \<in> set (statements d). st_id r = st_id s \<and> status r = status s \<and> is_processing r = is_processing s"
    if "s \<in> set (statements d')" for s
  proof -
    have "(st_id s, st_user s, status s, is_processing s) \<in>
        set (map (\<lambda>s. (st_id s, st_user s, status s, is_processing s)) (statements d'))"
      using that by simp
    then show ?thesis unfolding sts by auto
  qed
  have "pipeline_inv None d'"
  proof (rule pipeline_invI)
    show "inj (uuid_src d')" using pipeline_invD(1) [OF inv] frame(1) by simp
    show "st_id ` set (statements d') \<subseteq> ids_drawn d'"
      using pipeline_invD(2) [OF inv] drawn by (metis ids list.set_map subset_trans)
    show "distinct (map st_id (statements d'))" using pipeline_invD(3) [OF inv] by (simp add: ids)
    fix s assume s: "s \<in> set (statements d')"
    from old [OF s] obtain r where r: "r \<in> set (statements d)" "st_id r = st_id s" "status r = status s"
      "is_processing r = is_processing s" by blast
    show "artifacts_ok d' s"
      using pipeline_invD(4) [OF inv r(1)] r frame(3,4) by (simp add: artifacts_ok_def)
    show "length (messages (st_id s) d') = (if is_processing s then 1 else 0)"
      using pipeline_invD(5) [OF inv r(1)] r msgs by simp
  next
    fix m assume m: "m \<in> set (queue d')"
    show "message_ok d' m"
    proof (cases m)
      case (Process_pipeline k target job p q)
      then have "m \<in> set (messages k d')" using m by (simp add: messages_def for_statement_def)
      then have "m \<in> set (queue d)" unfolding msgs by (simp add: messages_def)
      then have "message_ok d m" by (rule pipeline_invD(6) [OF inv])
      then show ?thesis using drawn old Process_pipeline by (fastforce simp: message_ok_def)
    qed (simp_all add: message_ok_def)
  qed
  then show ?thesis by (simp add: pipeline_ok_def)
qed

lemma drop_statement_keeps:
  assumes ok: "pipeline_ok d"
  shows "pipeline_ok (delete_statement_row k d)"
proof -
  note inv = ok [unfolded pipeline_ok_def]
  let ?d = "delete_statement_row k d"
  have q: "queue ?d = queue d" "uuid_src ?d = uuid_src d" "draws ?d = draws d"
    "statements ?d = filter (\<lambda>s. st_id s \<noteq> k) (statements d)"
    by (simp_all add: delete_statement_row_def)
  have drawn: "ids_drawn ?d = ids_drawn d" using q by (simp add: ids_drawn_def)
  have msgs: "messages j ?d = messages j d" for j using q by (simp add: messages_def)
  have "pipeline_inv None ?d"
  proof (rule pipeline_invI)
    show "st_id ` set (statements ?d) \<subseteq> ids_drawn ?d"
      using pipeline_invD(2) [OF inv] unfolding q drawn by auto
    show "message_ok ?d m" if "m \<in> set (queue ?d)" for m
      using pipeline_invD(6) [OF inv, of m] that q drawn by (auto simp: message_ok_def split: task.splits)
    show "artifacts_ok ?d s" if "s \<in> set (statements ?d)" for s
      using pipeline_invD(4) [OF inv, of s] that by (auto simp: artifacts_ok_def delete_statement_row_def)
  qed (use pipeline_invD(1,3) [OF inv] pipeline_invD(5) [OF inv] q msgs in \<open>simp_all add: distinct_map_filter\<close>)
  then show ?thesis by (simp add: pipeline_ok_def)
qed

lemma fold_emit_simps [simp]:
  "statements (fold (\<lambda>x. emit (f x)) xs d) = statements d" "queue (fold (\<lambda>x. emit (f x)) xs d) = queue d"
  "uuid_src (fold (\<lambda>x. emit (f x)) xs d) = uuid_src d" "draws (fold (\<lambda>x. emit (f x)) xs d) = draws d"
  "ocr_results (fold (\<lambda>x. emit (f x)) xs d) = ocr_results d" "txns (fold (\<lambda>x. emit (f x)) xs d) = txns d"
  "normalized_records (fold (\<lambda>x. emit (f x)) xs d) = normalized_records d"
  "accounts (fold (\<lambda>x. emit (f x)) xs d) = accounts d"
  by (induction xs arbitrary: d) simp_all

lemma delete_files_simps [simp]:
  "statements (delete_files u k d) = statements d" "queue (delete_files u k d) = queue d"
  "uuid_src (delete_files u k d) = uuid_src d" "draws d \<le> draws (delete_files u k d)"
  "ocr_results (delete_files u k d) = ocr_results d" "txns (delete_files u k d) = txns d"
  "normalized_records (delete_files u k d) = normalized_records d"
  "accounts (delete_files u k d) = accounts d"
  by (auto simp: delete_files_def get_preferences_def Let_def split: option.splits)

lemma delete_files_keeps: "pipeline_ok d \<Longrightarrow> pipeline_ok (delete_files u k d)"
  by (erule quiet_keeps) simp_all

lemma delete_statement_file_keeps: "pipeline_ok d \<Longrightarrow> pipeline_ok (delete_statement_file s d)"
  by (simp add: delete_statement_file_def drop_statement_keeps delete_files_keeps)

lemma delete_statement_keeps: "pipeline_ok d \<Longrightarrow> pipeline_ok (snd (delete_statement u k d))"
  by (simp add: delete_statement_def delete_statement_file_keeps split: option.splits)

lemma bulk_delete_statements_keeps:
  "pipeline_ok d \<Longrightarrow> pipeline_ok (snd (bulk_delete_statements_loop u d0 ks acc d))"
proof (induction ks arbitrary: acc d)
  case (Cons k ks)
  then show ?case
    by (cases acc) (auto simp: delete_files_keeps delete_statement_file_keeps split: option.splits)
qed simp

text \<open>A new statement has no message yet.\<close>

lemma add_statement_keeps:
  assumes ok: "pipeline_ok d" and s: "st_id s = fresh d" "status s = Uploaded" "\<not> is_processing s"
    and d': "statements d' = statements d @ [s]" "queue d' = queue d" "uuid_src d' = uuid_src d"
      "draws d' = Suc (draws d)" "ocr_results d' = ocr_results d" "normalized_records d' = normalized_records d"
  shows "pipeline_ok d' \<and> messages (st_id s) d' = []"
proof
  note inv = ok [unfolded pipeline_ok_def]
  have fr: "fresh d \<notin> ids_drawn d" by (rule fresh_not_in_drawn [OF pipeline_invD(1) [OF inv]])
  have drawn: "ids_drawn d \<subseteq> ids_drawn d'" using d' by (intro ids_drawn_mono) auto
  have msgs: "messages k d' = messages k d" for k using d' by (simp add: messages_def)
  have mine: "\<not> for_statement (st_id s) t" if "t \<in> set (queue d)" for t
    using pipeline_invD(6) [OF inv that] fr s(1) by (cases t) (auto simp: message_ok_def for_statement_def)
  then show none: "messages (st_id s) d' = []"
    by (auto simp: msgs, auto simp: messages_def filter_empty_conv)
  have "pipeline_inv None d'"
  proof (rule pipeline_invI)
    show "st_id ` set (statements d') \<subseteq> ids_drawn d'"
      using pipeline_invD(2) [OF inv] drawn fresh_in_draw [OF d'(3,4)] s(1) by (auto simp: d'(1))
    show "distinct (map st_id (statements d'))"
      using pipeline_invD(2,3) [OF inv] fr s(1) by (auto simp: d'(1))
    show "artifacts_ok d' r" if "r \<in> set (statements d')" for r
      using that pipeline_invD(4) [OF inv, of r] s(2) d'(5,6) by (auto simp: d'(1) artifacts_ok_def)
    show "length (messages (st_id r) d') = (if is_processing r then 1 else 0)"
      if "r \<in> set (statements d')" "Some (st_id r) \<noteq> None" for r
      using that(1) pipeline_invD(5) [OF inv, of r] none s(3) by (auto simp: d'(1) msgs)
    show "message_ok d' t" if "t \<in> set (queue d')" for t
    proof -
      have t: "t \<in> set (queue d)" using that d'(2) by simp
      from pipeline_invD(6) [OF inv t] mine [OF t] drawn show ?thesis
        by (auto simp: d'(1) message_ok_def for_statement_def split: task.splits)
    qed
  qed (use pipeline_invD(1) [OF inv] d'(3) in simp)
  then show "pipeline_ok d'" by (simp add: pipeline_ok_def)
qed

definition new_statement :: "(string \<Rightarrow> string) \<Rightarrow> int \<Rightarrow> uuid \<Rightarrow> upload \<Rightarrow> db \<Rightarrow> statement" where
  "new_statement sha256 now u f d =
     \<lparr>st_id = fresh d, st_user = u, st_account = None,
      seaweed_file_id = raw_statement_key u (fresh d) (file_extension ''bin'' (f_name f)),
      checksum = sha256 (f_bytes f), file_size = Some (length (f_bytes f)),
      file_type = Some (file_extension ''bin'' (f_name f)), status = Uploaded, failure_reason = None,
      failed_phase = None, is_processing = False, start_transaction_date = None,
      last_transaction_date = None, upload_date = now\<rparr>"

definition stored_statement :: "(string \<Rightarrow> string) \<Rightarrow> int \<Rightarrow> uuid \<Rightarrow> upload \<Rightarrow> db \<Rightarrow> db" where
  "stored_statement sha256 now u f d =
     emit (Stored_file (seaweed_file_id (new_statement sha256 now u f d)))
       ((draw d)\<lparr>statements := statements d @ [new_statement sha256 now u f d]\<rparr>)"

lemma upload_cases:
  obtains (refused) e where "create_statement_from_upload sha256 store now u upl target d = (Inl e, d)"
  | (unstored) e where "create_statement_from_upload sha256 store now u upl target d = (Inl e, draw d)"
  | (stored) f where "upl = Some f" "validate_statement_upload f = Inr ()"
      "\<not> (\<exists>s \<in> set (statements d). st_user s = u \<and> checksum s = sha256 (f_bytes f))"
      "create_statement_from_upload sha256 store now u upl target d =
         advance_statement_to (new_statement sha256 now u f d) (case_option Normalized id target)
           (stored_statement sha256 now u f d)"
proof (cases upl)
  case None
  then show thesis using refused by (simp add: create_statement_from_upload_def)
next
  case (Some f)
  show thesis
  proof (cases "validate_statement_upload f")
    case (Inl e)
    with Some show thesis using refused by (simp add: create_statement_from_upload_def)
  next
    case v: (Inr x)
    show thesis
    proof (cases "\<exists>s \<in> set (statements d). st_user s = u \<and> checksum s = sha256 (f_bytes f)")
      case True
      with Some v show thesis using refused
        by (simp add: create_statement_from_upload_def list_ex_iff Let_def)
    next
      case False
      then have no: "\<not> list_ex (\<lambda>s. st_user s = u \<and> checksum s = sha256 (f_bytes f)) (statements d)"
        by (simp add: list_ex_iff)
      let ?key = "raw_statement_key u (fresh d) (file_extension ''bin'' (f_name f))"
      show thesis
      proof (cases "store ?key (f_bytes f)")
        case None
        with Some v no have "create_statement_from_upload sha256 store now u upl target d =
         advance_statement_to (new_statement sha256 now u f d) (case_option Normalized id target)
           (stored_statement sha256 now u f d)"
          by (simp add: create_statement_from_upload_def Let_def new_statement_def stored_statement_def)
        with Some v False show thesis using stored [of f] by simp
      next
        case (Some msg)
        with \<open>upl = Some f\<close> v no show thesis using unstored
          by (simp add: create_statement_from_upload_def Let_def)
      qed
    qed
  qed
qed

lemma upload_keeps:
  assumes ok: "pipeline_ok d" and target: "rank (case_option Normalized id target) \<le> 2"
  shows "pipeline_ok (snd (create_statement_from_upload sha256 store now u upl target d))"
proof (cases rule: upload_cases [of sha256 store now u upl target d])
  case (refused e)
  with ok show ?thesis by simp
next
  case (unstored e)
  have "pipeline_ok (draw d)" by (rule quiet_keeps [OF ok]) simp_all
  with unstored show ?thesis by simp
next
  case (stored f)
  let ?s = "new_statement sha256 now u f d" and ?d = "stored_statement sha256 now u f d"
  have new: "pipeline_ok ?d \<and> messages (st_id ?s) ?d = []"
    by (rule add_statement_keeps [OF ok]) (simp_all add: new_statement_def stored_statement_def)
  show ?thesis
  proof (cases "validate_advance ?s (case_option Normalized id target)")
    case (Inl e)
    with new stored(4) show ?thesis by (simp add: advance_statement_to_def)
  next
    case (Inr r)
    have "?s \<in> set (statements ?d)" by (simp add: stored_statement_def)
    from advance_keeps [OF pipeline_inv_weaken [OF conjunct1 [OF new]] conjunct2 [OF new] this target Inr]
    show ?thesis by (simp add: stored(4))
  qed
qed

lemma post_statement_keeps:
  assumes "pipeline_ok d" "\<And>f target. v = Inr (f, target) \<Longrightarrow> rank (case_option Normalized id target) \<le> 2"
  shows "pipeline_ok (snd (post_statement sha256 store now u v d))"
  using assms upload_keeps [OF assms(1)]
  by (auto simp: post_statement_def split: sum.splits)

text \<open>Past normalization nothing is queued.\<close>

lemma normalized_idle:
  assumes "pipeline_ok d" "s \<in> set (statements d)" "2 \<le> rank (status s)"
  shows "messages (st_id s) d = []" "\<not> is_processing s"
proof -
  have "\<not> for_statement (st_id s) t" if "t \<in> set (queue d)" for t
    using pipeline_invD(6) [OF assms(1) [unfolded pipeline_ok_def] that] assms(2,3)
    by (auto simp: message_ok_def for_statement_def split: task.splits)
  then show "messages (st_id s) d = []" by (auto simp: messages_def filter_empty_conv)
  then show "\<not> is_processing s" using processing_iff [OF assms(1,2)] by simp
qed

lemma approve_row_frame:
  "approve_row now s a r d = (x, d') \<Longrightarrow>
   statements d' = statements d \<and> queue d' = queue d \<and> uuid_src d' = uuid_src d \<and> draws d \<le> draws d' \<and>
   ocr_results d' = ocr_results d \<and> normalized_records d' = normalized_records d \<and>
   accounts d' = accounts d \<and> categories d' = categories d"
  by (auto simp: approve_row_def insert_txn_def split: option.splits)

lemma approve_rows_frame:
  "approve_rows now s a rs d = (xs, d') \<Longrightarrow>
   statements d' = statements d \<and> queue d' = queue d \<and> uuid_src d' = uuid_src d \<and> draws d \<le> draws d' \<and>
   ocr_results d' = ocr_results d \<and> normalized_records d' = normalized_records d \<and>
   accounts d' = accounts d \<and> categories d' = categories d"
proof (induction rs arbitrary: d d' xs)
  case (Cons r rs)
  obtain x d1 where 1: "approve_row now s a r d = (x, d1)" by (cases "approve_row now s a r d")
  obtain ys d2 where 2: "approve_rows now s a rs d1 = (ys, d2)" by (cases "approve_rows now s a rs d1")
  from Cons.prems 1 2 have "d' = d2" by simp
  then show ?case using approve_row_frame [OF 1] Cons.IH [OF 2] by simp
qed simp

lemma commit_approval_keeps:
  assumes ok: "pipeline_ok d" and s: "st_id s \<in> st_id ` set (statements d)"
    and idle: "messages (st_id s) d = []" "\<not> is_processing s" and art: "artifacts_ok d s" "status s = Normalized"
    and com: "commit_approval now s a rows d = (res, d')"
  shows "pipeline_ok d'"
proof -
  obtain xs d1 where rows: "approve_rows now s a rows d = (xs, d1)" by (cases "approve_rows now s a rows d")
  note fr = approve_rows_frame [OF rows]
  let ?s = "s\<lparr>status := Approved, failure_reason := None, failed_phase := None\<rparr>"
  have d': "statements d' = save_row st_id ?s (statements d)" "queue d' = queue d" "uuid_src d' = uuid_src d"
    "draws d \<le> draws d'" "ocr_results d' = ocr_results d" "normalized_records d' = normalized_records d"
    using com fr by (auto simp: commit_approval_def rows Let_def embed_best_effort_def split: if_splits)
  show ?thesis
    by (rule settle [OF pipeline_inv_weaken [OF ok] idle(1) d'(1)])
      (use s idle(2) art d' in \<open>simp_all add: artifacts_ok_def\<close>)
qed

lemma save_same_keeps:
  assumes ok: "pipeline_ok d" and s: "s \<in> set (statements d)" "st_id s' = st_id s" "st_user s' = st_user s"
    "status s' = status s" "is_processing s' = is_processing s"
  shows "pipeline_ok (save_statement s' d)"
proof (rule quiet_keeps [OF ok])
  have "x = s" if "x \<in> set (statements d)" "st_id x = st_id s" for x
    using distinct_pkD [OF pipeline_invD(3) [OF ok [unfolded pipeline_ok_def]] that(1) s(1) that(2)] .
  then show "map (\<lambda>s. (st_id s, st_user s, status s, is_processing s)) (statements (save_statement s' d)) =
      map (\<lambda>s. (st_id s, st_user s, status s, is_processing s)) (statements d)"
    using s by (simp, intro map_save_row) auto
qed simp_all

lemma override_account_cases:
  obtains (fail) e where "override_account u account_id s d = (Inl e, d)"
  | (same) "override_account u account_id s d = (Inr s, d)" "account_id = None"
  | (set) a acct where "override_account u account_id s d =
      (Inr (s\<lparr>st_account := Some a\<rparr>), save_statement (s\<lparr>st_account := Some a\<rparr>) d)"
      "account_id = Some a" "owned_account u a d = Some acct"
  by (cases account_id; cases "owned_account u (the account_id) d") (auto simp: override_account_def Let_def)

lemma approve_statement_keeps:
  assumes ok: "pipeline_ok d"
  shows "pipeline_ok (snd (approve_statement now u k v d))"
proof (cases "\<exists>s acc rows. owned_statement u k d = Some s \<and> status s = Normalized \<and> v = Inr (acc, rows)")
  case False
  then have "snd (approve_statement now u k v d) = d"
    by (auto simp: approve_statement_def split: option.splits sum.splits)
  with ok show ?thesis by simp
next
  case True
  then obtain s acc rows where *: "owned_statement u k d = Some s" "status s = Normalized" "v = Inr (acc, rows)" by blast
  from owned_statement_Some [OF *(1)] have s: "s \<in> set (statements d)" by simp
  have two: "2 \<le> rank (status s)" using *(2) by simp
  note idle = normalized_idle [OF ok s two]
  obtain r d1 where ov: "override_account u acc s d = (r, d1)" by (cases "override_account u acc s d")
  have st: "pipeline_ok d1 \<and> (\<forall>s1. r = Inr s1 \<longrightarrow> st_id s1 = st_id s \<and> status s1 = status s \<and>
      is_processing s1 = is_processing s \<and> artifacts_ok d1 s1 \<and> st_id s1 \<in> st_id ` set (statements d1)) \<and>
      messages (st_id s) d1 = []"
    using pipeline_invD(4) [OF ok [unfolded pipeline_ok_def] s] s
  proof (cases rule: override_account_cases [of u acc s d])
    case (set a acct)
    have "pipeline_ok (save_statement (s\<lparr>st_account := Some a\<rparr>) d)"
      by (rule save_same_keeps [OF ok s]) simp_all
    moreover have "st_id ` set (save_row st_id (s\<lparr>st_account := Some a\<rparr>) (statements d)) = st_id ` set (statements d)"
      by (metis save_row_pks set_map)
    ultimately show ?thesis
      using set ov idle pipeline_invD(4) [OF ok [unfolded pipeline_ok_def] s] s
      by (auto simp: artifacts_ok_def messages_def)
  qed (use ov ok idle in auto)
  show ?thesis
  proof (cases "\<exists>s1 a acct. r = Inr s1 \<and> st_account s1 = Some a \<and> by_pk acc_id (accounts d1) a = Some acct \<and>
      assert_account_mutable acct = Inr ()")
    case False
    then have "snd (approve_statement now u k v d) = d1"
      using * ov by (auto simp: approve_statement_def split: option.splits sum.splits)
    with st show ?thesis by simp
  next
    case True
    then obtain s1 a acct where 1: "r = Inr s1" "st_account s1 = Some a"
      "by_pk acc_id (accounts d1) a = Some acct" "assert_account_mutable acct = Inr ()" by blast
    let ?rows = "map (\<lambda>r. r\<lparr>ar_merchant := validate_merchant_raw (ar_merchant r)\<rparr>) rows"
    obtain res d2 where com: "commit_approval now s1 a ?rows d1 = (res, d2)" by (cases "commit_approval now s1 a ?rows d1")
    have "snd (approve_statement now u k v d) = d2"
      using * ov 1 com by (auto simp: approve_statement_def)
    moreover have "pipeline_ok d2"
    proof (rule commit_approval_keeps [OF _ _ _ _ _ _ com])
      show "st_id s1 \<in> st_id ` set (statements d1)" using st 1(1) by blast
      show "messages (st_id s1) d1 = []" using st 1(1) by simp
    qed (use st 1(1) idle *(2) in simp_all)
    ultimately show ?thesis by simp
  qed
qed

text \<open>A worker's run of one message.\<close>

lemma split_queue:
  "i < length (queue d) \<Longrightarrow> queue d = take i (queue d) @ queue d ! i # drop (Suc i) (queue d)"
  by (rule id_take_nth_drop)

lemma take_message_simps [simp]:
  "statements (take_message i d) = statements d" "uuid_src (take_message i d) = uuid_src d"
  "draws (take_message i d) = draws d" "ocr_results (take_message i d) = ocr_results d"
  "normalized_records (take_message i d) = normalized_records d" "txns (take_message i d) = txns d"
  "effects (take_message i d) = effects d"
  by (simp_all add: take_message_def)

lemma take_message_queue: "t \<in> set (queue (take_message i d)) \<Longrightarrow> t \<in> set (queue d)"
  by (auto simp: take_message_def dest: in_set_takeD in_set_dropD)

lemma messages_taken:
  assumes "i < length (queue d)"
  shows "length (messages k d) =
    length (messages k (take_message i d)) + (if for_statement k (queue d ! i) then 1 else 0)"
  unfolding messages_def by (subst split_queue [OF assms]) (simp add: take_message_def)

lemma take_message_inv:
  assumes ok: "pipeline_ok d" and i: "i < length (queue d)" and m: "queue d ! i = Process_pipeline k tg job p r"
  shows "pipeline_inv (Some k) (take_message i d)"
    and "k \<in> st_id ` set (statements d) \<Longrightarrow> messages k (take_message i d) = []"
proof -
  note inv = ok [unfolded pipeline_ok_def]
  have drawn: "ids_drawn (take_message i d) = ids_drawn d" by (simp add: ids_drawn_def)
  show "pipeline_inv (Some k) (take_message i d)"
  proof (rule pipeline_invI)
    show "artifacts_ok (take_message i d) s" if "s \<in> set (statements (take_message i d))" for s
      using pipeline_invD(4) [OF inv, of s] that by (simp add: artifacts_ok_def)
    show "length (messages (st_id s) (take_message i d)) = (if is_processing s then 1 else 0)"
      if "s \<in> set (statements (take_message i d))" "Some (st_id s) \<noteq> Some k" for s
      using pipeline_invD(5) [OF inv, of s] that messages_taken [OF i, of "st_id s"] m
      by (simp add: for_statement_def)
    show "message_ok (take_message i d) t" if "t \<in> set (queue (take_message i d))" for t
      using pipeline_invD(6) [OF inv take_message_queue [OF that]] drawn
      by (simp add: message_ok_def split: task.splits)
  qed (use pipeline_invD(1-3) [OF inv] drawn in simp_all)
  show "messages k (take_message i d) = []" if "k \<in> st_id ` set (statements d)"
  proof -
    from that obtain s where s: "s \<in> set (statements d)" "st_id s = k" by auto
    have "length (messages k d) \<le> 1" using pipeline_invD(5) [OF inv s(1)] s(2) by simp
    then show ?thesis using messages_taken [OF i, of k] m by (simp add: for_statement_def)
  qed
qed

lemma pipeline_inv_absent:
  assumes "pipeline_inv (Some k) d" "k \<notin> st_id ` set (statements d)"
  shows "pipeline_ok d"
  using assms unfolding pipeline_ok_def pipeline_inv_def by auto

text \<open>The message a run leaves behind, and the row it leaves.\<close>

lemma process_statement_pipeline_post:
  assumes "process_statement_pipeline ai now k target job poll retries n d = (again, n', d')"
    and row: "by_pk st_id (statements d) k = Some s" and dist: "distinct (map st_id (statements d))"
    and tg: "rank target \<le> 2" "rank (status s) < rank target"
  shows "\<exists>s'. statements d' = save_row st_id s' (statements d) \<and> st_id s' = st_id s \<and> st_user s' = st_user s \<and>
    rank (status s) \<le> rank (status s') \<and> rank (status s') \<le> rank target \<and> queue d' = queue d \<and>
    uuid_src d' = uuid_src d \<and> draws d \<le> draws d' \<and> set (ocr_results d) \<subseteq> set (ocr_results d') \<and>
    set (normalized_records d) \<subseteq> set (normalized_records d') \<and> txns d' = txns d \<and>
    (artifacts_ok d s \<longrightarrow> artifacts_ok d' s') \<and>
    (case again of
       Some (j, p) \<Rightarrow> is_processing s' \<and> rank (status s') < rank target \<and> Suc retries \<le> MAX_POLL_ATTEMPTS \<and>
         filter is_status_event (effects d') = filter is_status_event (effects d)
     | None \<Rightarrow> \<not> is_processing s' \<and> (rank target \<le> rank (status s') \<or> failure_reason s' \<noteq> None) \<and>
         (filter is_status_event (effects d') = filter is_status_event (effects d) @
            [Statement_status (st_user s') (st_id s') (status s') False (failure_reason s') (failed_phase s')] \<or>
          MAX_POLL_ATTEMPTS \<le> retries \<and>
            filter is_status_event (effects d') = filter is_status_event (effects d)))"
proof -
  obtain e n1 d1 where loop: "pipeline_loop ai now target retries s job poll n d = (e, n1, d1)"
    by (cases "pipeline_loop ai now target retries s job poll n d")
  have s: "s \<in> set (statements d)" using by_pk_Some [OF row] by simp
  have "loop_ok target retries s d e d1" by (rule pipeline_loop_ok [OF loop tg(1) dist s])
  then obtain s1 where s1: "statements d1 = save_row st_id s1 (statements d)" "st_id s1 = st_id s"
    "st_user s1 = st_user s" "rank (status s) \<le> rank (status s1)"
    "rank (status s1) \<le> max (rank (status s)) (rank target)" "phase_frame d d1"
    "artifacts_ok d s \<longrightarrow> artifacts_ok d1 s1" "ended_ok target retries s e s1"
    unfolding loop_ok_def by blast
  have found: "by_pk st_id (statements d1) k = Some s1"
    using s by_pk_Some [OF row] by (auto simp: s1(1,2) by_pk_save_row)
  have crash: "\<exists>s'. record_crash k m d1 = (Some s', save_statement s' d1) \<and> st_id s' = st_id s1 \<and>
      st_user s' = st_user s1 \<and> status s' = status s1 \<and> \<not> is_processing s' \<and> failure_reason s' = Some m" for m
    by (simp add: record_crash_def found Let_def)
  show ?thesis
  proof (cases e)
    case (Finished s2)
    then have "d' = publish_status s1 d1" "again = None" "s2 = s1"
      using assms(1) row loop s1(8) by (auto simp: process_statement_pipeline_def ended_ok_def)
    with Finished s1 tg show ?thesis
      by (intro exI [of _ s1]) (auto simp: ended_ok_def publish_status_def phase_frame_def artifacts_ok_def is_status_event_def)
  next
    case (Retry_later j p)
    then have "d' = d1" "again = Some (j, p)"
      using assms(1) row loop by (auto simp: process_statement_pipeline_def)
    with Retry_later s1 tg show ?thesis
      by (intro exI [of _ s1]) (auto simp: ended_ok_def phase_frame_def)
  next
    case (Raised m)
    obtain s2 where s2: "record_crash k m d1 = (Some s2, save_statement s2 d1)" "st_id s2 = st_id s1"
      "st_user s2 = st_user s1" "status s2 = status s1" "\<not> is_processing s2" "failure_reason s2 = Some m"
      using crash by blast
    have "d' = publish_status s2 (save_statement s2 d1)" "again = None"
      using assms(1) row loop Raised s2(1) by (auto simp: process_statement_pipeline_def after_crash_def)
    with Raised s1 s2 tg show ?thesis
      by (intro exI [of _ s2])
        (auto simp: ended_ok_def publish_status_def phase_frame_def artifacts_ok_def save_row_twice is_status_event_def)
  next
    case (Retries_exhausted m)
    obtain s2 where s2: "record_crash k m d1 = (Some s2, save_statement s2 d1)" "st_id s2 = st_id s1"
      "st_user s2 = st_user s1" "status s2 = status s1" "\<not> is_processing s2" "failure_reason s2 = Some m"
      using crash by blast
    have "d' = save_statement s2 d1" "again = None"
      using assms(1) row loop Retries_exhausted s2(1) by (auto simp: process_statement_pipeline_def after_crash_def)
    with Retries_exhausted s1 s2 tg show ?thesis
      by (intro exI [of _ s2])
        (auto simp: ended_ok_def phase_frame_def artifacts_ok_def save_row_twice)
  qed
qed

lemma run_message_keeps:
  assumes ok: "pipeline_ok d"
  shows "pipeline_ok (snd (run_pipeline_message ai now i n d))"
proof (cases "\<exists>k tg job p r. i < length (queue d) \<and> queue d ! i = Process_pipeline k tg job p r")
  case False
  then have "snd (run_pipeline_message ai now i n d) = d"
    by (auto simp: run_pipeline_message_def split: task.splits)
  with ok show ?thesis by simp
next
  case True
  then obtain k tg job p r where i: "i < length (queue d)" "queue d ! i = Process_pipeline k tg job p r" by blast
  let ?d = "take_message i d"
  obtain again n' d' where run: "process_statement_pipeline ai now k tg job p r n ?d = (again, n', d')"
    by (cases "process_statement_pipeline ai now k tg job p r n ?d")
  have result: "snd (run_pipeline_message ai now i n d) =
      (case again of None \<Rightarrow> d' | Some (j, q) \<Rightarrow> enqueue (Process_pipeline k tg (Some j) q (Suc r)) d')"
    using i run by (auto simp: run_pipeline_message_def split: option.splits)
  note inv = take_message_inv [OF ok i]
  show ?thesis
  proof (cases "by_pk st_id (statements ?d) k")
    case None
    then have "again = None" "d' = ?d" using run by (simp_all add: process_statement_pipeline_def)
    moreover have "k \<notin> st_id ` set (statements ?d)" using None by (simp add: by_pk_None)
    ultimately show ?thesis using pipeline_inv_absent [OF inv(1)] result by simp
  next
    case (Some s)
    have s: "s \<in> set (statements ?d)" "st_id s = k" using by_pk_Some [OF Some] by auto
    then have kin: "k \<in> st_id ` set (statements ?d)" by auto
    have "message_ok d (queue d ! i)"
      using pipeline_invD(6) [OF ok [unfolded pipeline_ok_def]] i(1) by simp
    then have tg: "rank tg \<le> 2" "rank (status s) < rank tg" using i(2) s by (auto simp: message_ok_def)
    have art: "artifacts_ok ?d s" by (rule pipeline_invD(4) [OF inv(1) s(1)])
    from process_statement_pipeline_post [OF run Some pipeline_invD(3) [OF inv(1)] tg]
    obtain s' where s': "statements d' = save_row st_id s' (statements ?d)" "st_id s' = st_id s"
      "queue d' = queue ?d" "uuid_src d' = uuid_src ?d" "draws ?d \<le> draws d'"
      "set (ocr_results ?d) \<subseteq> set (ocr_results d')"
      "set (normalized_records ?d) \<subseteq> set (normalized_records d')" "artifacts_ok d' s'"
      "case again of Some (j, p) \<Rightarrow> is_processing s' \<and> rank (status s') < rank tg | None \<Rightarrow> \<not> is_processing s'"
      using art by (auto split: option.splits)
    note out = settle [OF inv(1) inv(2) [OF kin [simplified]]]
    show ?thesis
    proof (cases again)
      case None
      have "pipeline_ok d'"
        by (rule out [OF s'(1)]) (use s' s None kin in simp_all)
      with result None show ?thesis by simp
    next
      case again: (Some jq)
      obtain j q where jq: "jq = (j, q)" by (cases jq)
      let ?e = "enqueue (Process_pipeline k tg (Some j) q (Suc r)) d'"
      have "pipeline_ok ?e"
      proof (rule out)
        show "statements ?e = save_row st_id s' (statements ?d)" using s'(1) by simp
        show "artifacts_ok ?e s'" using s'(8) by (simp add: artifacts_ok_def)
        show "(\<not> is_processing s' \<and> queue ?e = queue ?d) \<or>
            (is_processing s' \<and> (\<exists>target job p r. queue ?e = queue ?d @ [Process_pipeline k target job p r] \<and>
               rank target \<le> 2 \<and> rank (status s') < rank target))"
          using s'(3,9) again jq tg(1) by auto
      qed (use s' s kin in simp_all)
      with result again jq show ?thesis by simp
    qed
  qed
qed

subsection \<open>A run to the end\<close>

lemma run_to_end_ends:
  assumes "run_to_end ai clock k target job poll retries n d = (t, d')"
    "by_pk st_id (statements d) k = Some s" "distinct (map st_id (statements d))"
    "rank target \<le> 2" "rank (status s) < rank target" "retries \<le> MAX_POLL_ATTEMPTS"
  shows "t + retries \<le> Suc MAX_POLL_ATTEMPTS \<and>
    (\<exists>s'. by_pk st_id (statements d') k = Some s' \<and> \<not> is_processing s' \<and>
       rank (status s) \<le> rank (status s') \<and> rank (status s') \<le> rank target \<and>
       (rank target \<le> rank (status s') \<or> failure_reason s' \<noteq> None) \<and>
       (filter is_status_event (effects d') = filter is_status_event (effects d) @
          [Statement_status (st_user s') (st_id s') (status s') False (failure_reason s') (failed_phase s')] \<or>
        t + retries = Suc MAX_POLL_ATTEMPTS \<and>
          filter is_status_event (effects d') = filter is_status_event (effects d)))"
  using assms
proof (induction ai clock k target job poll retries n d arbitrary: t d' s rule: run_to_end.induct)
  case (1 ai clock k target job poll retries n d)
  obtain again n1 d1 where run: "process_statement_pipeline ai (clock retries) k target job poll retries n d = (again, n1, d1)"
    by (cases "process_statement_pipeline ai (clock retries) k target job poll retries n d")
  note post = process_statement_pipeline_post [OF run 1(3,4,5,6)]
  have k: "st_id s = k" "s \<in> set (statements d)" using by_pk_Some [OF 1(3)] by auto
  have "k \<in> st_id ` set (statements d)" using k by auto
  then have found: "by_pk st_id (save_row st_id s1 (statements d)) k = Some s1" if "st_id s1 = st_id s" for s1
    using that k(1) by (simp add: by_pk_save_row)
  show ?case
  proof (cases again)
    case None
    then have td: "t = 1" "d' = d1" using 1(2) run by (simp_all add: run_to_end.simps [of ai clock])
    from post None obtain s1 where "statements d1 = save_row st_id s1 (statements d)" "st_id s1 = st_id s"
      "\<not> is_processing s1" "rank (status s) \<le> rank (status s1)" "rank (status s1) \<le> rank target"
      "rank target \<le> rank (status s1) \<or> failure_reason s1 \<noteq> None"
      "filter is_status_event (effects d1) = filter is_status_event (effects d) @
          [Statement_status (st_user s1) (st_id s1) (status s1) False (failure_reason s1) (failed_phase s1)] \<or>
        MAX_POLL_ATTEMPTS \<le> retries \<and> filter is_status_event (effects d1) = filter is_status_event (effects d)"
      by auto
    with td 1(7) found [of s1] show ?thesis by auto
  next
    case (Some jq)
    obtain j q where jq: "jq = (j, q)" by (cases jq)
    from post Some jq obtain s1 where s1: "statements d1 = save_row st_id s1 (statements d)" "st_id s1 = st_id s"
      "rank (status s) \<le> rank (status s1)" "rank (status s1) < rank target" "Suc retries \<le> MAX_POLL_ATTEMPTS"
      "filter is_status_event (effects d1) = filter is_status_event (effects d)" by auto
    obtain t2 d2 where rest: "run_to_end ai clock k target (Some j) q (Suc retries) n1 d1 = (t2, d2)"
      by (cases "run_to_end ai clock k target (Some j) q (Suc retries) n1 d1")
    have td: "t = Suc t2" "d' = d2" using 1(2) run Some jq rest by (simp_all add: run_to_end.simps [of ai clock k target job])
    have "by_pk st_id (statements d1) k = Some s1" "distinct (map st_id (statements d1))"
      using s1 found 1(4) by simp_all
    from 1(1) [OF run [symmetric] Some jq [symmetric] refl rest this 1(5) s1(4,5)] show ?thesis
      using td s1 by auto
  qed
qed

text \<open>C5. The poll loop always ends: whatever the AI service answers, a task for a
  statement behind its target is run at most 241 times over all phases; it then leaves the
  statement not processing, no further back than it was and no further than asked, and
  either at the target or with a failure reason. One status event is published, unless the
  run used up all 241 executions.\<close>

theorem pipeline_terminates:
  assumes "by_pk st_id (statements d) k = Some s" "distinct (map st_id (statements d))"
    "rank target \<le> 2" "rank (status s) < rank target"
  shows "case run_to_end ai clock k target None 0 0 n d of (t, d') \<Rightarrow>
    t \<le> 241 \<and>
    (\<exists>s'. by_pk st_id (statements d') k = Some s' \<and> \<not> is_processing s' \<and>
       rank (status s) \<le> rank (status s') \<and> rank (status s') \<le> rank target \<and>
       (rank target \<le> rank (status s') \<or> failure_reason s' \<noteq> None) \<and>
       (filter is_status_event (effects d') = filter is_status_event (effects d) @
          [Statement_status (st_user s') (st_id s') (status s') False (failure_reason s') (failed_phase s')] \<or>
        t = 241 \<and> filter is_status_event (effects d') = filter is_status_event (effects d)))"
proof -
  obtain t d' where run: "run_to_end ai clock k target None 0 0 n d = (t, d')"
    by (cases "run_to_end ai clock k target None 0 0 n d")
  from run_to_end_ends [OF run assms] show ?thesis
    by (simp add: run MAX_POLL_ATTEMPTS_def)
qed

text \<open>A statement for the witnesses, and a service that answers at once.\<close>

definition sample_statement :: "uuid \<Rightarrow> uuid \<Rightarrow> st_status \<Rightarrow> statement" where
  "sample_statement k u st = \<lparr>st_id = k, st_user = u, st_account = None, seaweed_file_id = ''raw'',
     checksum = ''c'', file_size = Some 3, file_type = Some ''pdf'', status = st, failure_reason = None,
     failed_phase = None, is_processing = True, start_transaction_date = None,
     last_transaction_date = None, upload_date = 1\<rparr>"

definition sample_ai :: ai_client where
  "sample_ai = \<lparr>submit_job = (\<lambda>n ph k. Inr ''job''),
     get_job_status = (\<lambda>n j. Inr (if n = 1 then Job_succeeded (Extraction_result ''p'' ''MinerU'' (19/20))
        else Job_succeeded (Normalization_result
          \<lparr>nj_bank_name = Some ''NBE'', nj_account_number = Some ''2000'', nj_transactions = Some []\<rparr> ''m'')))\<rparr>"

definition sample_statements :: db where
  "sample_statements = sample_ledger\<lparr>statements := [sample_statement 30 1 Uploaded],
     queue := [Process_pipeline 30 Normalized None 0 0]\<rparr>"

theorem pipeline_terminates_witness:
  "case run_to_end sample_ai (\<lambda>i. int i) 30 Normalized None 0 0 0 sample_statements of (t, d') \<Rightarrow>
    t \<le> 241 \<and>
    (\<exists>s'. by_pk st_id (statements d') 30 = Some s' \<and> \<not> is_processing s' \<and>
       rank (status (sample_statement 30 1 Uploaded)) \<le> rank (status s') \<and> rank (status s') \<le> rank Normalized \<and>
       (rank Normalized \<le> rank (status s') \<or> failure_reason s' \<noteq> None) \<and>
       (filter is_status_event (effects d') = filter is_status_event (effects sample_statements) @
          [Statement_status (st_user s') (st_id s') (status s') False (failure_reason s') (failed_phase s')] \<or>
        t = 241 \<and> filter is_status_event (effects d') = filter is_status_event (effects sample_statements)))"
  by (rule pipeline_terminates)
    (simp_all add: sample_statements_def sample_statement_def sample_ledger_def by_pk_Cons)

text \<open>
  The 241st execution: Celery's retry count is shared by the phases while the poll counter
  starts again at each, so a second phase can meet Celery's limit first. The row says so,
  but no event is published.
\<close>

lemma shared_retry_budget_is_silent:
  assumes "by_pk st_id (statements d) k = Some s" "status s = Extracted" "is_processing s"
    "distinct (map st_id (statements d))"
    "get_job_status ai n j = Inr Job_running" "poll < MAX_POLL_ATTEMPTS"
  shows "\<exists>n' d'. process_statement_pipeline ai now k Normalized (Some j) poll MAX_POLL_ATTEMPTS n d = (None, n', d') \<and>
    effects d' = effects d \<and>
    (\<exists>s'. by_pk st_id (statements d') k = Some s' \<and> failure_reason s' \<noteq> None \<and> \<not> is_processing s')"
proof -
  have k: "st_id s = k" "k \<in> st_id ` set (statements d)" using by_pk_Some [OF assms(1)] by auto
  have "pipeline_loop ai now Normalized MAX_POLL_ATTEMPTS s (Some j) poll n d =
      (Retries_exhausted ''Can't retry core.tasks.statements.process_statement_pipeline'', Suc n, d)"
    using assms by (simp add: pipeline_loop.simps [of ai now Normalized] mark_processing_def obtain_job_def)
  with assms k show ?thesis
    by (simp add: process_statement_pipeline_def after_crash_def record_crash_def Let_def by_pk_save_row)
qed

subsection \<open>Every run of the system\<close>

text \<open>
  One step: a request on a statement, a worker's run of any queued message, a request on
  the ledger, or a change made elsewhere. What the AI service, the object store and the
  clock answer is arbitrary at every step.
\<close>

inductive st_step :: "db \<Rightarrow> db \<Rightarrow> bool" where
  upload: "(\<And>f target. v = Inr (f, Some target) \<Longrightarrow> target \<in> set ADVANCE_TARGET_CHOICES) \<Longrightarrow>
    st_step d (snd (post_statement sha256 store now u v d))"
| retry: "st_step d (snd (patch_statement u k v' d))"
| worker: "st_step d (snd (run_pipeline_message ai now i n d))"
| approve: "st_step d (snd (approve_statement now u k v'' d))"
| delete: "st_step d (snd (delete_statement u k d))"
| bulk_delete: "st_step d (snd (bulk_delete_statements u ids d))"
| ledger: "st_step d (ledger_step uop d)"
| elsewhere: "uuid_src d' = uuid_src d \<Longrightarrow> draws d \<le> draws d' \<Longrightarrow> ocr_results d' = ocr_results d \<Longrightarrow>
    normalized_records d' = normalized_records d \<Longrightarrow> statements d' = statements d \<Longrightarrow>
    queue d' = queue d \<Longrightarrow> st_step d d'"

lemma bulk_loop_db:
  assumes "bulk_delete_loop u d0 ks s = Inr s'"
  shows "statements (bulk_db s') = statements (bulk_db s)" "queue (bulk_db s') = queue (bulk_db s)"
    "ocr_results (bulk_db s') = ocr_results (bulk_db s)" "draws (bulk_db s') = draws (bulk_db s)"
    "normalized_records (bulk_db s') = normalized_records (bulk_db s)"
    "uuid_src (bulk_db s') = uuid_src (bulk_db s)"
  using bulk_loop_result [OF assms] by simp_all

lemma ledger_step_frame:
  "uuid_src (ledger_step uop d) = uuid_src d \<and> draws d \<le> draws (ledger_step uop d) \<and>
   ocr_results (ledger_step uop d) = ocr_results d \<and>
   normalized_records (ledger_step uop d) = normalized_records d \<and>
   queue (ledger_step uop d) = queue d \<and>
   map (\<lambda>s. (st_id s, st_user s, status s, is_processing s)) (statements (ledger_step uop d)) =
     map (\<lambda>s. (st_id s, st_user s, status s, is_processing s)) (statements d)"
proof (cases uop)
  case (Pair u op)
  show ?thesis
  proof (cases op)
    case (Bulk_delete_txns v)
    then show ?thesis
      by (auto simp: Pair bulk_delete_transactions_def bulk_loop_db split: sum.splits)
  qed (auto simp: Pair post_transaction_def insert_txn_def embed_best_effort_def patch_transaction_def
      save_patched_def delete_transaction_def delete_txn_def post_account_def patch_account_def
      delete_account_def delete_account_row_def Let_def split: option.splits sum.splits)
qed

lemma st_step_keeps:
  assumes "st_step d d'" "pipeline_ok d"
  shows "pipeline_ok d'"
  using assms(1)
proof cases
  case (upload v sha256 store now u)
  have "rank (case_option Normalized id target) \<le> 2" if "v = Inr (f, target)" for f target
    using upload(2) that by (cases target) (auto simp: ADVANCE_TARGET_CHOICES_def)
  then show ?thesis unfolding upload(1) by (rule post_statement_keeps [OF assms(2)])
next
  case ledger
  then show ?thesis
    by (simp only:, intro quiet_keeps [OF assms(2)]) (simp_all add: ledger_step_frame)
next
  case elsewhere
  then show ?thesis by (auto intro!: quiet_keeps [OF assms(2)])
next
  case (bulk_delete u ids)
  then show ?thesis
    using assms(2) by (auto simp: bulk_delete_statements_def bulk_delete_statements_keeps split: sum.splits)
qed (use assms(2) in \<open>simp_all add: patch_statement_keeps run_message_keeps approve_statement_keeps delete_statement_keeps\<close>)

text \<open>C4. In every state the system reaches, whatever requests, worker runs and answers of
  the services led to it, a statement is marked processing exactly while one task for it is
  queued, a queued task always aims past the statement's status, and a statement's status
  is backed by its stored OCR result and normalized record.\<close>

theorem one_task_per_processing_statement:
  assumes "pipeline_ok d" "st_step\<^sup>*\<^sup>* d d'"
  shows "pipeline_ok d'"
  using assms(2,1) by (induction rule: rtranclp_induct) (auto intro: st_step_keeps)

lemma sample_statements_ok: "pipeline_ok sample_statements"
  by (auto simp: pipeline_ok_def pipeline_inv_def sample_statements_def sample_ledger_def empty_db_def
      sample_statement_def ids_drawn_def artifacts_ok_def messages_def for_statement_def message_ok_def)

theorem one_task_per_processing_statement_witness:
  "pipeline_ok (snd (run_pipeline_message sample_ai 5 0 0 sample_statements))"
  by (rule one_task_per_processing_statement [OF sample_statements_ok r_into_rtranclp])
    (rule st_step.worker)

subsection \<open>A status never goes back\<close>

definition comes_from :: "db \<Rightarrow> statement \<Rightarrow> bool" where
  "comes_from d s' \<longleftrightarrow> (\<exists>s \<in> set (statements d). st_id s = st_id s' \<and> st_user s = st_user s' \<and>
     rank (status s) \<le> rank (status s'))"

definition evolves :: "db \<Rightarrow> db \<Rightarrow> bool" where
  "evolves d d' \<longleftrightarrow> ids_drawn d \<subseteq> ids_drawn d' \<and>
     (\<forall>s' \<in> set (statements d'). st_id s' \<in> ids_drawn d \<longrightarrow> comes_from d s')"

lemma evolves_subset:
  "ids_drawn d \<subseteq> ids_drawn d' \<Longrightarrow> set (statements d') \<subseteq> set (statements d) \<Longrightarrow> evolves d d'"
  by (auto simp: evolves_def comes_from_def)

lemma evolves_refl [simp]: "evolves d d"
  by (rule evolves_subset) auto

lemma evolves_trans:
  assumes "evolves d d1" "evolves d1 d2"
  shows "evolves d d2"
  unfolding evolves_def
proof
  show "ids_drawn d \<subseteq> ids_drawn d2" using assms by (auto simp: evolves_def)
  show "\<forall>s \<in> set (statements d2). st_id s \<in> ids_drawn d \<longrightarrow> comes_from d s"
  proof (intro ballI impI)
    fix s assume s: "s \<in> set (statements d2)" "st_id s \<in> ids_drawn d"
    with assms obtain s1 where s1: "s1 \<in> set (statements d1)" "st_id s1 = st_id s" "st_user s1 = st_user s"
      "rank (status s1) \<le> rank (status s)" by (force simp: evolves_def comes_from_def)
    with s(2) assms(1) have "comes_from d s1" by (simp add: evolves_def)
    with s1 show "comes_from d s" by (auto simp: comes_from_def)
  qed
qed

lemma evolves_save:
  assumes "ids_drawn d \<subseteq> ids_drawn d'" "statements d' = save_row st_id s' (statements d)"
    "s \<in> set (statements d)" "st_id s' = st_id s" "st_user s' = st_user s" "rank (status s) \<le> rank (status s')"
  shows "evolves d d'"
  using assms by (auto simp: evolves_def comes_from_def dest!: save_row_set)

lemma evolves_map:
  assumes "ids_drawn d \<subseteq> ids_drawn d'"
    "map (\<lambda>s. (st_id s, st_user s, status s, is_processing s)) (statements d') =
     map (\<lambda>s. (st_id s, st_user s, status s, is_processing s)) (statements d)"
  shows "evolves d d'"
  unfolding evolves_def
proof (intro conjI ballI impI assms(1))
  fix s assume "s \<in> set (statements d')"
  then have "(st_id s, st_user s, status s, is_processing s) \<in>
      set (map (\<lambda>s. (st_id s, st_user s, status s, is_processing s)) (statements d'))" by simp
  then show "comes_from d s" unfolding assms(2) by (auto simp: comes_from_def)
qed

lemma ids_drawn_same: "uuid_src d' = uuid_src d \<Longrightarrow> draws d' = draws d \<Longrightarrow> ids_drawn d' = ids_drawn d"
  by (simp add: ids_drawn_def)

lemma advance_evolves:
  assumes "s \<in> set (statements d)"
  shows "evolves d (snd (advance_statement_to s target d))"
proof (cases "validate_advance s target")
  case (Inl e)
  then show ?thesis by (simp add: advance_statement_to_def)
next
  case (Inr r)
  show ?thesis
    by (rule evolves_save [of _ _ "s\<lparr>is_processing := True\<rparr>" s])
      (use Inr assms in \<open>simp_all add: advance_statement_to_def Let_def ids_drawn_def\<close>)
qed

lemma upload_evolves:
  assumes "pipeline_ok d"
  shows "evolves d (snd (create_statement_from_upload sha256 store now u upl target d))"
proof (cases rule: upload_cases [of sha256 store now u upl target d])
  case (unstored e)
  then show ?thesis by (auto simp: ids_drawn_def intro!: evolves_subset)
next
  case (stored f)
  let ?s = "new_statement sha256 now u f d" and ?d = "stored_statement sha256 now u f d"
  have "fresh d \<notin> ids_drawn d"
    by (rule fresh_not_in_drawn [OF pipeline_invD(1) [OF assms [unfolded pipeline_ok_def]]])
  then have "evolves d ?d"
    by (auto simp: evolves_def stored_statement_def new_statement_def ids_drawn_def comes_from_def)
  moreover have "?s \<in> set (statements ?d)" by (simp add: stored_statement_def)
  ultimately show ?thesis
    using stored(4) evolves_trans [OF _ advance_evolves] by simp
qed simp

lemma delete_files_drawn: "ids_drawn d \<subseteq> ids_drawn (delete_files u k d)"
  by (rule ids_drawn_mono) simp_all

lemma delete_statement_file_evolves: "evolves d (delete_statement_file s d)"
proof (rule evolves_subset)
  show "ids_drawn d \<subseteq> ids_drawn (delete_statement_file s d)"
    using delete_files_drawn [of d "st_user s" "uuid_str (st_id s)"]
    by (simp add: delete_statement_file_def delete_statement_row_def ids_drawn_def)
qed (auto simp: delete_statement_file_def delete_statement_row_def)

lemma bulk_delete_statements_evolves: "evolves d (snd (bulk_delete_statements_loop u d0 ks acc d))"
proof (induction ks arbitrary: acc d)
  case (Cons k ks)
  have "evolves d (delete_files v x d)" for v x
    by (rule evolves_subset [OF delete_files_drawn]) simp
  then show ?case
    using evolves_trans [OF delete_statement_file_evolves Cons.IH]
    by (cases acc) (auto intro: Cons.IH split: option.splits)
qed simp

lemma approve_evolves:
  assumes "pipeline_ok d"
  shows "evolves d (snd (approve_statement now u k v d))"
proof (cases "\<exists>s acc rows. owned_statement u k d = Some s \<and> status s = Normalized \<and> v = Inr (acc, rows)")
  case False
  then have "snd (approve_statement now u k v d) = d"
    by (auto simp: approve_statement_def split: option.splits sum.splits)
  then show ?thesis by simp
next
  case True
  then obtain s acc rows where *: "owned_statement u k d = Some s" "status s = Normalized" "v = Inr (acc, rows)" by blast
  from owned_statement_Some [OF *(1)] have s: "s \<in> set (statements d)" by simp
  have dist: "distinct (map st_id (statements d))"
    using pipeline_invD(3) [OF assms [unfolded pipeline_ok_def]] .
  obtain r d1 where ov: "override_account u acc s d = (r, d1)" by (cases "override_account u acc s d")
  have d1: "evolves d d1 \<and> (\<forall>s1. r = Inr s1 \<longrightarrow> s1 \<in> set (statements d1) \<and> status s1 = Normalized)"
  proof (cases rule: override_account_cases [of u acc s d])
    case (set a acct)
    have "evolves d (save_statement (s\<lparr>st_account := Some a\<rparr>) d)"
      by (rule evolves_save [of _ _ "s\<lparr>st_account := Some a\<rparr>" s]) (use s in \<open>simp_all add: ids_drawn_def\<close>)
    with set ov s *(2) show ?thesis by (auto simp: save_row_in)
  qed (use ov s *(2) in auto)
  show ?thesis
  proof (cases "\<exists>s1 a acct. r = Inr s1 \<and> st_account s1 = Some a \<and> by_pk acc_id (accounts d1) a = Some acct \<and>
      assert_account_mutable acct = Inr ()")
    case False
    then have "snd (approve_statement now u k v d) = d1"
      using * ov by (auto simp: approve_statement_def split: option.splits sum.splits)
    with d1 show ?thesis by simp
  next
    case True
    then obtain s1 a acct where 1: "r = Inr s1" "st_account s1 = Some a"
      "by_pk acc_id (accounts d1) a = Some acct" "assert_account_mutable acct = Inr ()" by blast
    let ?rows = "map (\<lambda>r. r\<lparr>ar_merchant := validate_merchant_raw (ar_merchant r)\<rparr>) rows"
    obtain xs d2 where rows: "approve_rows now s1 a ?rows d1 = (xs, d2)" by (cases "approve_rows now s1 a ?rows d1")
    note fr = approve_rows_frame [OF rows]
    let ?s = "s1\<lparr>status := Approved, failure_reason := None, failed_phase := None\<rparr>"
    obtain d3 where d3: "snd (approve_statement now u k v d) = d3" by blast
    have "statements d3 = save_row st_id ?s (statements d1)" "uuid_src d3 = uuid_src d1" "draws d1 \<le> draws d3"
      using * ov 1 rows fr d3
      by (auto simp: approve_statement_def commit_approval_def embed_best_effort_def Let_def split: if_splits)
    then have "evolves d1 d3"
      using d1 1(1) by (intro evolves_save [of _ _ ?s s1] ids_drawn_mono) simp_all
    with d1 d3 show ?thesis using evolves_trans by blast
  qed
qed

lemma worker_evolves:
  assumes ok: "pipeline_ok d"
  shows "evolves d (snd (run_pipeline_message ai now i n d))"
proof (cases "\<exists>k tg job p r. i < length (queue d) \<and> queue d ! i = Process_pipeline k tg job p r")
  case False
  then have "snd (run_pipeline_message ai now i n d) = d"
    by (auto simp: run_pipeline_message_def split: task.splits)
  then show ?thesis by simp
next
  case True
  then obtain k tg job p r where i: "i < length (queue d)" "queue d ! i = Process_pipeline k tg job p r" by blast
  let ?d = "take_message i d"
  obtain again n' d' where run: "process_statement_pipeline ai now k tg job p r n ?d = (again, n', d')"
    by (cases "process_statement_pipeline ai now k tg job p r n ?d")
  have result: "snd (run_pipeline_message ai now i n d) =
      (case again of None \<Rightarrow> d' | Some (j, q) \<Rightarrow> enqueue (Process_pipeline k tg (Some j) q (Suc r)) d')"
    using i run by (auto simp: run_pipeline_message_def split: option.splits)
  note inv = take_message_inv(1) [OF ok i]
  have "evolves d d'"
  proof (cases "by_pk st_id (statements ?d) k")
    case None
    then have "d' = ?d" using run by (simp_all add: process_statement_pipeline_def)
    then show ?thesis by (auto simp: ids_drawn_def intro!: evolves_subset)
  next
    case (Some s)
    have s: "s \<in> set (statements d)" "st_id s = k" using by_pk_Some [OF Some] by auto
    have "message_ok d (queue d ! i)"
      using pipeline_invD(6) [OF ok [unfolded pipeline_ok_def]] i(1) by simp
    then have tg: "rank tg \<le> 2" "rank (status s) < rank tg" using i(2) s by (auto simp: message_ok_def)
    from process_statement_pipeline_post [OF run Some pipeline_invD(3) [OF inv] tg]
    obtain s' where "statements d' = save_row st_id s' (statements d)" "st_id s' = st_id s"
      "st_user s' = st_user s" "rank (status s) \<le> rank (status s')" "uuid_src d' = uuid_src d" "draws d \<le> draws d'"
      by auto
    with s show ?thesis by (intro evolves_save [of _ _ s' s] ids_drawn_mono) simp_all
  qed
  moreover have "evolves d' (enqueue m d')" for m
    by (rule evolves_subset) (simp_all add: ids_drawn_def)
  ultimately show ?thesis
    unfolding result by (auto split: option.splits intro: evolves_trans)
qed

lemma st_step_evolves:
  assumes "st_step d d'" "pipeline_ok d"
  shows "evolves d d'"
  using assms(1)
proof cases
  case (upload v sha256 store now u)
  then show ?thesis
    using upload_evolves [OF assms(2)] by (auto simp: post_statement_def split: sum.splits)
next
  case (retry u k v)
  then show ?thesis
    by (auto simp: patch_statement_def split: option.splits sum.splits
        intro!: advance_evolves dest: owned_statement_Some)
next
  case (delete u k)
  then show ?thesis
    by (auto simp: delete_statement_def delete_statement_file_evolves split: option.splits)
next
  case (bulk_delete u ids)
  then show ?thesis
    by (auto simp: bulk_delete_statements_def bulk_delete_statements_evolves split: sum.splits)
next
  case ledger
  then show ?thesis
    by (simp only:, intro evolves_map ids_drawn_mono) (simp_all add: ledger_step_frame)
next
  case elsewhere
  then show ?thesis by (intro evolves_subset ids_drawn_mono) simp_all
qed (use assms(2) in \<open>simp_all add: worker_evolves approve_evolves\<close>)

lemma steps_evolve:
  assumes "st_step\<^sup>*\<^sup>* d d'" "pipeline_ok d"
  shows "evolves d d' \<and> pipeline_ok d'"
  using assms
  by (induction rule: rtranclp_induct) (auto intro: evolves_trans st_step_evolves st_step_keeps)

text \<open>C6. A statement's status never goes back: between any two states of a run, a
  statement that is in both belongs to the same user and is at least as far along, so an
  approved statement stays approved.\<close>

theorem status_never_goes_back:
  assumes "pipeline_ok d" "st_step\<^sup>*\<^sup>* d d'" "s \<in> set (statements d)" "s' \<in> set (statements d')" "st_id s' = st_id s"
  shows "rank (status s) \<le> rank (status s') \<and> st_user s' = st_user s"
proof -
  note inv = assms(1) [unfolded pipeline_ok_def]
  have "st_id s' \<in> ids_drawn d" using pipeline_invD(2) [OF inv] assms(3,5) by auto
  with steps_evolve [OF assms(2,1)] assms(4) have "comes_from d s'" by (simp add: evolves_def)
  then obtain r where "r \<in> set (statements d)" "st_id r = st_id s'" "st_user r = st_user s'"
    "rank (status r) \<le> rank (status s')" by (auto simp: comes_from_def)
  moreover from this have "r = s" using distinct_pkD [OF pipeline_invD(3) [OF inv], of r s] assms(3,5) by simp
  ultimately show ?thesis by simp
qed

definition sample_finished :: statement where
  "sample_finished = hd (statements (snd (run_pipeline_message sample_ai 5 0 0 sample_statements)))"

theorem status_never_goes_back_witness:
  "rank (status (sample_statement 30 1 Uploaded)) \<le> rank (status sample_finished) \<and>
   st_user sample_finished = st_user (sample_statement 30 1 Uploaded) \<and> status sample_finished = Normalized"
proof -
  let ?d = "snd (run_pipeline_message sample_ai 5 0 0 sample_statements)"
  have "statements ?d \<noteq> [] \<and> st_id sample_finished = 30 \<and> status sample_finished = Normalized"
    by code_simp
  moreover from this have "sample_finished \<in> set (statements ?d)"
    by (simp add: sample_finished_def)
  moreover have "st_step\<^sup>*\<^sup>* sample_statements ?d"
    by (rule r_into_rtranclp) (rule st_step.worker)
  moreover have "sample_statement 30 1 Uploaded \<in> set (statements sample_statements)"
    by (simp add: sample_statements_def)
  ultimately show ?thesis
    using status_never_goes_back [OF sample_statements_ok, of ?d "sample_statement 30 1 Uploaded" sample_finished]
    by (simp add: sample_statement_def)
qed

text \<open>Nothing keeps a user from having two accounts with one bank name and number, and then
  normalization cannot resolve the account.\<close>

lemma two_equal_accounts_fail_normalization:
  "fst (finalize_normalization_phase 5 (sample_statement 30 1 Extracted)
     (Normalization_result \<lparr>nj_bank_name = Some ''NBE'', nj_account_number = Some ''1000'',
        nj_transactions = Some []\<rparr> ''m'') sample_ledger) =
   Inl ''get() returned more than one BankAccount''"
  by code_simp

end
