(* ===== verification/Ledger_Import.thy ===== *)
theory Ledger_Import
  imports Ledger_Laws
begin

text \<open>
  The contract every importer of transactions shares: an item whose identity is already in
  the ledger leaves the rows as they are, and any other item appends one row with that
  identity. Statement approval and bank-feed ingestion both meet it.
\<close>

locale ledger_import =
  fixes rows :: "'s \<Rightarrow> 'r list"
    and key :: "'r \<Rightarrow> 'k"
    and ikey :: "'i \<Rightarrow> 'k"
    and step :: "'i \<Rightarrow> 's \<Rightarrow> 's"
  assumes known: "ikey i \<in> key ` set (rows s) \<Longrightarrow> rows (step i s) = rows s"
    and unknown: "ikey i \<notin> key ` set (rows s) \<Longrightarrow> \<exists>r. rows (step i s) = rows s @ [r] \<and> key r = ikey i"
begin

lemma import_new:
  "\<exists>new. rows (fold step is s) = rows s @ new \<and> distinct (map key new) \<and>
     key ` set new = ikey ` set is - key ` set (rows s)"
proof (induction "is" arbitrary: s)
  case Nil
  then show ?case by simp
next
  case (Cons i "is")
  show ?case
  proof (cases "ikey i \<in> key ` set (rows s)")
    case True
    from Cons.IH [of "step i s"] known [OF True] True show ?thesis by auto
  next
    case False
    from unknown [OF False] obtain r where r: "rows (step i s) = rows s @ [r]" "key r = ikey i" by blast
    from Cons.IH [of "step i s"] r obtain new where new: "rows (fold step is (step i s)) = rows s @ r # new"
      "distinct (map key new)" "key ` set new = ikey ` set is - insert (ikey i) (key ` set (rows s))"
      by auto
    have "distinct (map key (r # new))" using new r(2) by auto
    moreover have "key ` set (r # new) = ikey ` set (i # is) - key ` set (rows s)"
      using new(3) r(2) False by auto
    ultimately show ?thesis using new(1) by (intro exI [of _ "r # new"]) simp
  qed
qed

lemma import_keys: "key ` set (rows (fold step is s)) = key ` set (rows s) \<union> ikey ` set is"
proof -
  from import_new [of "is" s] obtain new where
    "rows (fold step is s) = rows s @ new" "key ` set new = ikey ` set is - key ` set (rows s)" by blast
  then show ?thesis by auto
qed

lemma import_known: "ikey ` set is \<subseteq> key ` set (rows s) \<Longrightarrow> rows (fold step is s) = rows s"
proof (induction "is" arbitrary: s)
  case (Cons i "is")
  then have "rows (step i s) = rows s" by (intro known) auto
  with Cons show ?case by simp
qed simp

text \<open>Importing the same items again changes nothing.\<close>

lemma import_again: "rows (fold step is (fold step is s)) = rows (fold step is s)"
  by (rule import_known) (auto simp: import_keys)

lemma import_order: "key ` set (rows (fold step (is @ js) s)) = key ` set (rows (fold step (js @ is) s))"
  unfolding import_keys by auto

end

end
