(* ===== verification/Approval.thy ===== *)
theory Approval
  imports Statement_Laws Ledger_Import
begin

text \<open>
  What the two ends of a statement's life promise: what an upload accepts and starts, and
  what approving the reviewed batch commits (the row loop of
  \<open>StatementTransactionApprovalView.post\<close> meets the contract of an importer).
\<close>

lemma approved_key: "ledger_key (approved_txn now s a r d) = approval_key s a r"
  by (simp add: ledger_key_def approved_txn_def approval_key_def)

lemma matching_iff: "matching k ts \<noteq> [] \<longleftrightarrow> k \<in> ledger_key ` set ts"
  by (auto simp: matching_def filter_empty_conv)

interpretation approval: ledger_import "txns :: db \<Rightarrow> txn list" ledger_key "approval_key s a" "\<lambda>r d. snd (approve_row now s a r d)"
  for now s a
proof unfold_locales
  fix r and d :: db
  assume "approval_key s a r \<in> ledger_key ` set (txns d)"
  then have "matching (approval_key s a r) (txns d) \<noteq> []" by (simp add: matching_iff)
  then obtain old where "first_pk txn_id (matching (approval_key s a r) (txns d)) = Some old"
    by (cases "first_pk txn_id (matching (approval_key s a r) (txns d))") auto
  then show "txns (snd (approve_row now s a r d)) = txns d" by (simp add: approve_row_def)
next
  fix r and d :: db
  assume "approval_key s a r \<notin> ledger_key ` set (txns d)"
  then have "matching (approval_key s a r) (txns d) = []" using matching_iff by blast
  then show "\<exists>t. txns (snd (approve_row now s a r d)) = txns d @ [t] \<and> ledger_key t = approval_key s a r"
    by (simp add: approve_row_def approved_key)
qed

lemma approve_rows_fold: "snd (approve_rows now s a rs d) = fold (\<lambda>r d. snd (approve_row now s a r d)) rs d"
  by (induction rs arbitrary: d) (auto split: prod.splits, metis snd_conv)

text \<open>Each submitted row's answer names a row of the ledger with that row's identity.\<close>

definition answers :: "db \<Rightarrow> statement \<Rightarrow> uuid \<Rightarrow> approval_row \<Rightarrow> approval_result \<Rightarrow> bool" where
  "answers d s a r x \<longleftrightarrow>
     (\<exists>t \<in> set (txns d). ledger_key t = approval_key s a r \<and>
        ((res_transaction_id x = Some (txn_id t) \<and> res_duplicate_of x = None \<and> source t = ''statement'') \<or>
         (res_transaction_id x = None \<and> res_duplicate_of x = Some (txn_id t))))"

lemma approve_row_answers: "approve_row now s a r d = (x, d') \<Longrightarrow> answers d' s a r x"
proof (cases "first_pk txn_id (matching (approval_key s a r) (txns d))")
  case (Some old)
  then have "old \<in> set (txns d)" "ledger_key old = approval_key s a r"
    by (auto simp: matching_def dest: first_pk_filterD)
  moreover assume "approve_row now s a r d = (x, d')"
  ultimately show ?thesis using Some by (auto simp: approve_row_def answers_def)
next
  case None
  assume "approve_row now s a r d = (x, d')"
  with None have "x = \<lparr>res_date = ar_date r, res_merchant = ar_merchant r, res_amount = ar_amount r,
      res_transaction_id = Some (fresh d), res_duplicate_of = None\<rparr>"
    "approved_txn now s a r d \<in> set (txns d')" by (auto simp: approve_row_def)
  moreover have "txn_id (approved_txn now s a r d) = fresh d" "source (approved_txn now s a r d) = ''statement''"
    by (simp_all add: approved_txn_def)
  ultimately show ?thesis
    unfolding answers_def by (intro bexI [of _ "approved_txn now s a r d"]) (simp_all add: approved_key)
qed

lemma owned_after_save:
  "k \<in> st_id ` set xs \<Longrightarrow> st_id s' = k \<Longrightarrow> st_user s' = u \<Longrightarrow>
   by_pk st_id (filter (\<lambda>x. st_user x = u) (save_row st_id s' xs)) k = Some s'"
  by (induction xs) (auto simp: by_pk_Cons save_row_def)

lemma approve_row_grows: "approve_row now s a r d = (x, d') \<Longrightarrow> set (txns d) \<subseteq> set (txns d')"
  by (auto simp: approve_row_def split: option.splits)

lemma approve_rows_grow: "approve_rows now s a rs d = (xs, d') \<Longrightarrow> set (txns d) \<subseteq> set (txns d')"
proof (induction rs arbitrary: d d' xs)
  case (Cons r rs)
  obtain x d1 where 1: "approve_row now s a r d = (x, d1)" by (cases "approve_row now s a r d")
  obtain ys d2 where 2: "approve_rows now s a rs d1 = (ys, d2)" by (cases "approve_rows now s a rs d1")
  from Cons.prems 1 2 have "d' = d2" by auto
  then show ?case using approve_row_grows [OF 1] Cons.IH [OF 2] by blast
qed simp

lemma answers_mono: "answers d s a r x \<Longrightarrow> set (txns d) \<subseteq> set (txns d') \<Longrightarrow> answers d' s a r x"
  by (auto simp: answers_def)

lemma approve_rows_answer:
  "approve_rows now s a rs d = (xs, d') \<Longrightarrow> list_all2 (answers d' s a) rs xs"
proof (induction rs arbitrary: d d' xs)
  case (Cons r rs)
  obtain x d1 where 1: "approve_row now s a r d = (x, d1)" by (cases "approve_row now s a r d")
  obtain ys d2 where 2: "approve_rows now s a rs d1 = (ys, d2)" by (cases "approve_rows now s a rs d1")
  from Cons.prems 1 2 have "xs = x # ys" "d' = d2" by auto
  with approve_row_answers [OF 1] approve_rows_grow [OF 2] Cons.IH [OF 2] show ?case
    by (auto intro: answers_mono)
qed simp

lemma approval_guard:
  assumes "owned_statement u k d = Some s" "status s \<noteq> Normalized"
  shows "\<exists>m. approve_statement now u k v d = (Inl (BusinessRuleError m ''invalid_status_transition'' None), d)"
  using assms by (simp add: approve_statement_def)

text \<open>C3. Approval commits the batch exactly once: for a normalized statement on a mutable
  account every submitted row is answered, in order, with the one ledger row of its
  identity, either inserted for this statement or found as a duplicate; the rows added are
  exactly those identities that were missing, each once; nothing of the ledger before is changed, the statement becomes
  approved, and any further approval of it is refused and changes nothing.\<close>

theorem approval_commits_once:
  assumes "owned_statement u k d = Some s" "status s = Normalized" "st_account s = Some a"
    "by_pk acc_id (accounts d) a = Some acct" "link_type acct = Manual"
  shows "\<exists>res d' new. approve_statement now u k (Inr (None, rows)) d = (Inr (Approved, res), d') \<and>
    (let cut = map (\<lambda>r. r\<lparr>ar_merchant := validate_merchant_raw (ar_merchant r)\<rparr>) rows in
     list_all2 (answers d' s a) cut res \<and> txns d' = txns d @ new \<and> distinct (map ledger_key new) \<and>
     ledger_key ` set new = approval_key s a ` set cut - ledger_key ` set (txns d)) \<and>
    owned_statement u k d' = Some (s\<lparr>status := Approved, failure_reason := None, failed_phase := None\<rparr>) \<and>
    (\<forall>now' v. \<exists>m. approve_statement now' u k v d' =
       (Inl (BusinessRuleError m ''invalid_status_transition'' None), d'))"
proof -
  let ?cut = "map (\<lambda>r. r\<lparr>ar_merchant := validate_merchant_raw (ar_merchant r)\<rparr>) rows"
  let ?s = "s\<lparr>status := Approved, failure_reason := None, failed_phase := None\<rparr>"
  obtain res d1 where run: "approve_rows now s a ?cut d = (res, d1)" by (cases "approve_rows now s a ?cut d")
  note fr = approve_rows_frame [OF run]
  have "txns d1 = txns (fold (\<lambda>r d. snd (approve_row now s a r d)) ?cut d)"
    using approve_rows_fold [of now s a ?cut d] run by simp
  with approval.import_new [of now s a ?cut d] obtain new where
    new: "txns d1 = txns d @ new" "distinct (map ledger_key new)"
      "ledger_key ` set new = approval_key s a ` set ?cut - ledger_key ` set (txns d)" by auto
  obtain st d' where com: "commit_approval now s a ?cut d = ((st, res), d')" "st = Approved" "txns d' = txns d1"
    "statements d' = save_row st_id ?s (statements d)"
    using run fr by (auto simp: commit_approval_def Let_def embed_best_effort_def split: if_splits)
  have "approve_statement now u k (Inr (None, rows)) d = (Inr (Approved, res), d')"
    using assms com(1,2) by (simp add: approve_statement_def override_account_def)
  moreover have "list_all2 (answers d' s a) ?cut res"
  proof -
    have "answers d' s a = answers d1 s a" by (simp add: fun_eq_iff answers_def com(3))
    then show ?thesis using approve_rows_answer [OF run] by simp
  qed
  moreover have "owned_statement u k d' = Some ?s"
  proof -
    have s: "st_user s = u" "st_id s = k" "s \<in> set (statements d)" using owned_statement_Some [OF assms(1)] by auto
    then have "k \<in> st_id ` set (statements d)" by auto
    with s show ?thesis by (simp add: owned_statement_def com(4) owned_after_save)
  qed
  moreover from this have "\<exists>m. approve_statement now' u k v d' =
      (Inl (BusinessRuleError m ''invalid_status_transition'' None), d')" for now' v
    by (intro approval_guard [of u k d' ?s]) simp_all
  ultimately show ?thesis using new com(3)
    by (intro exI [of _ res] exI [of _ d'] exI [of _ new]) (simp add: Let_def)
qed

definition sample_normalized :: db where
  "sample_normalized = sample_ledger\<lparr>
     statements := [(sample_statement 30 1 Normalized)\<lparr>st_account := Some 10, is_processing := False\<rparr>]\<rparr>"

definition sample_batch :: "approval_row list" where
  "sample_batch = map (\<lambda>(dd, x). \<lparr>ar_date = Date 2026 7 dd, ar_merchant = Some ''Shop'', ar_category = None,
     ar_amount = x, ar_type = Some ''debit'', ar_balance = None, ar_merchant_normalized = None\<rparr>)
     [(20, 5), (23, 4), (23, 4)]"

theorem approval_commits_once_witness:
  "\<exists>res d' new. approve_statement 60 1 30 (Inr (None, sample_batch)) sample_normalized = (Inr (Approved, res), d') \<and>
    (let s = (sample_statement 30 1 Normalized)\<lparr>st_account := Some 10, is_processing := False\<rparr>;
         cut = map (\<lambda>r. r\<lparr>ar_merchant := validate_merchant_raw (ar_merchant r)\<rparr>) sample_batch in
     list_all2 (answers d' s 10) cut res \<and> txns d' = txns sample_normalized @ new \<and> distinct (map ledger_key new) \<and>
     ledger_key ` set new = approval_key s 10 ` set cut - ledger_key ` set (txns sample_normalized))"
proof -
  let ?s = "(sample_statement 30 1 Normalized)\<lparr>st_account := Some 10, is_processing := False\<rparr>"
  have "owned_statement 1 30 sample_normalized = Some ?s"
    by (simp add: owned_statement_def sample_normalized_def sample_statement_def by_pk_Cons)
  moreover have "by_pk acc_id (accounts sample_normalized) 10 = Some (sample_account 10 1 Manual)"
    by (simp add: sample_normalized_def sample_ledger_def sample_account_def by_pk_Cons)
  ultimately show ?thesis
    using approval_commits_once [of 1 30 sample_normalized ?s 10 "sample_account 10 1 Manual" 60 sample_batch]
    by (auto simp: sample_statement_def sample_account_def Let_def)
qed

text \<open>An account deleted after normalization leaves nothing to approve onto.\<close>

lemma approval_without_account:
  assumes "owned_statement u k d = Some s" "status s = Normalized" "st_account s = None"
  shows "approve_statement now u k (Inr (None, rows)) d = (Inl (Unhandled ''AttributeError''), d)"
  using assms by (simp add: approve_statement_def override_account_def)

subsection \<open>Upload\<close>

definition acceptable :: "upload \<Rightarrow> bool" where
  "acceptable f \<longleftrightarrow> f_size f \<le> 20971520 \<and>
     file_extension '''' (f_name f) \<in> {''pdf'', ''png'', ''jpg'', ''jpeg''} \<and>
     (case f_content_type f of None \<Rightarrow> True
      | Some ct \<Rightarrow> ct = [] \<or> ct \<in> {''application/pdf'', ''image/png'', ''image/jpeg''})"

lemma validate_upload_iff: "validate_statement_upload f = Inr x \<longleftrightarrow> acceptable f"
  by (auto simp: validate_statement_upload_def acceptable_def MAX_STATEMENT_UPLOAD_BYTES_def
      ALLOWED_STATEMENT_EXTENSIONS_def ALLOWED_STATEMENT_CONTENT_TYPES_def split: option.splits)

lemma save_row_appended: "pk s \<notin> pk ` set rs \<Longrightarrow> pk s' = pk s \<Longrightarrow> save_row pk s' (rs @ [s]) = rs @ [s']"
  by (auto simp: save_row_def intro!: map_idI) (metis image_eqI)

lemma require_consent_iff: "require_consent u d = Inr x \<longleftrightarrow> has_active_consent u ''data_processing'' d"
  by (simp add: require_consent_def)

text \<open>What an upload is worth: with the consent, a file within 20 MiB, of an allowed
  kind, not uploaded before by the user and stored, one row is created, uploaded and
  processing, and exactly its task is queued; in every other case the request is refused,
  no statement is created and nothing is queued.\<close>

theorem upload_outcome:
  assumes "pipeline_ok d" "target \<in> {Extracted, Normalized}"
  shows "let r = post_statement sha256 store now u (Inr (f, Some target)) d in
    if has_active_consent u ''data_processing'' d \<and> acceptable f \<and>
       (\<forall>s \<in> set (statements d). st_user s = u \<longrightarrow> checksum s \<noteq> sha256 (f_bytes f)) \<and>
       store (raw_statement_key u (fresh d) (file_extension ''bin'' (f_name f))) (f_bytes f) = None
    then \<exists>s. fst r = Inr s \<and> statements (snd r) = statements d @ [s] \<and> status s = Uploaded \<and>
           is_processing s \<and> st_user s = u \<and> checksum s = sha256 (f_bytes f) \<and>
           queue (snd r) = queue d @ [Process_pipeline (st_id s) target None 0 0]
    else (\<exists>e. fst r = Inl e) \<and> statements (snd r) = statements d \<and> queue (snd r) = queue d"
proof (cases "has_active_consent u ''data_processing'' d")
  case False
  then have "\<exists>e. require_consent u d = Inl e" using require_consent_iff [of u d] by (cases "require_consent u d") auto
  with False show ?thesis by (auto simp: post_statement_def)
next
  case True
  then have post: "post_statement sha256 store now u (Inr (f, Some target)) d =
      create_statement_from_upload sha256 store now u (Some f) (Some target) d"
    using require_consent_iff [of u d] by (cases "require_consent u d") (auto simp: post_statement_def)
  show ?thesis
  proof (cases "acceptable f")
    case False
    then have "\<exists>e. validate_statement_upload f = Inl e"
      using validate_upload_iff [of f] by (cases "validate_statement_upload f") auto
    with True False show ?thesis unfolding post by (auto simp: create_statement_from_upload_def)
  next
    case ok: True
    then have v: "validate_statement_upload f = Inr ()" using validate_upload_iff [of f "()"] by simp
    let ?dup = "list_ex (\<lambda>s. st_user s = u \<and> checksum s = sha256 (f_bytes f)) (statements d)"
    have dup: "?dup \<longleftrightarrow> \<not> (\<forall>s \<in> set (statements d). st_user s = u \<longrightarrow> checksum s \<noteq> sha256 (f_bytes f))"
      by (auto simp: list_ex_iff)
    let ?key = "raw_statement_key u (fresh d) (file_extension ''bin'' (f_name f))"
    show ?thesis
    proof (cases "?dup \<or> store ?key (f_bytes f) \<noteq> None")
      case bad: True
      then show ?thesis
        unfolding post using True ok v dup
        by (cases ?dup) (auto simp: create_statement_from_upload_def Let_def)
    next
      case False
      let ?s = "new_statement sha256 now u f d" and ?d = "stored_statement sha256 now u f d"
      have fr: "fresh d \<notin> st_id ` set (statements d)"
        using pipeline_invD(1,2) [OF assms(1) [unfolded pipeline_ok_def]] fresh_not_in_drawn by blast
      have "create_statement_from_upload sha256 store now u (Some f) (Some target) d = advance_statement_to ?s target ?d"
        using False v by (simp add: create_statement_from_upload_def Let_def new_statement_def stored_statement_def)
      moreover have "validate_advance ?s target = Inr (rank target)"
        using assms(2) by (auto simp: validate_advance_def new_statement_def)
      moreover have "save_row st_id (?s\<lparr>is_processing := True\<rparr>) (statements ?d) =
          statements d @ [?s\<lparr>is_processing := True\<rparr>]"
        using fr save_row_appended [of st_id ?s "statements d" "?s\<lparr>is_processing := True\<rparr>"]
        by (simp add: stored_statement_def new_statement_def)
      ultimately show ?thesis
        unfolding post using False True ok dup
        by (simp add: advance_statement_to_def Let_def new_statement_def stored_statement_def)
    qed
  qed
qed

definition sample_upload :: upload where
  "sample_upload = \<lparr>f_name = ''july.PDF'', f_size = 3, f_content_type = Some ''application/pdf'', f_bytes = ''abc''\<rparr>"

definition consenting :: db where
  "consenting = sample_statements\<lparr>consents := [\<lparr>con_id = 1, con_user = 1, consent_type = ''data_processing'',
     policy_version = ''v1'', granted_at = Some 1, revoked_at = None, con_created = 1\<rparr>]\<rparr>"

theorem upload_outcome_witness:
  "\<exists>s. fst (post_statement id (\<lambda>k b. None) 5 1 (Inr (sample_upload, Some Normalized)) consenting) = Inr s \<and>
     is_processing s \<and> status s = Uploaded"
proof -
  have "pipeline_ok consenting"
    by (rule quiet_keeps [OF sample_statements_ok]) (simp_all add: consenting_def)
  moreover have "has_active_consent 1 ''data_processing'' consenting" by code_simp
  moreover have "file_extension '''' ''july.PDF'' = ''pdf''" by code_simp
  then have "acceptable sample_upload" by (simp add: acceptable_def sample_upload_def)
  moreover have "\<forall>s \<in> set (statements consenting). st_user s = 1 \<longrightarrow> checksum s \<noteq> id (f_bytes sample_upload)"
    by (simp add: consenting_def sample_statements_def sample_statement_def sample_upload_def)
  ultimately show ?thesis
    using upload_outcome [of consenting Normalized id "\<lambda>k b. None" 5 1 sample_upload] by (auto simp: Let_def)
qed

end
