(* ===== verification/Sync.thy ===== *)
theory Sync
  imports Ledger_Import
begin

text \<open>
  Bank integration: services/bank_connectors/ (the connector and
  \<open>apply_synced_accounts\<close>), core/views/bank_connections.py (the OAuth round trip),
  core/views/webhooks.py (the inbound push) and core/tasks/bank_sync.py (the ingestion
  task). The provider's HTTP answers and the AI service's analysis are parameters.
\<close>

subsection \<open>The connector\<close>

text \<open>The body of the provider's token response, a key that is missing or null being \<open>None\<close>.\<close>

record raw_token =
  rt_access :: "string option"
  rt_refresh :: "string option"
  rt_customer :: "string option"
  rt_email :: "string option"
  rt_phone :: "string option"
  rt_name :: "string option"

record token =
  tok_access :: string
  tok_refresh :: "string option"
  tok_customer :: "string option"
  tok_email :: string
  tok_phone :: string
  tok_name :: "string option"

record feed_account =
  fa_external_id :: string
  fa_bank_name :: string
  fa_type :: "string option"
  fa_number :: string
  fa_currency :: "string option"

text \<open>The provider, as the connector meets it: \<open>Inl\<close> is the text of a \<open>BankConnectorError\<close>.
  \<open>post_token\<close> answers with \<open>None\<close> where the body is not an object.\<close>

record provider =
  post_token :: "string \<Rightarrow> string + raw_token option"
  fetch_accounts :: "string option \<Rightarrow> string + feed_account list"
  fetch_transactions :: "string option \<Rightarrow> string \<Rightarrow> string + feed_txn list"

definition token_of :: "raw_token \<Rightarrow> token option" where
  "token_of r =
     (case (rt_access r, rt_email r, rt_phone r) of
        (Some a, Some e, Some p) \<Rightarrow>
          if a = [] \<or> e = [] \<or> p = [] then None
          else Some \<lparr>tok_access = a, tok_refresh = rt_refresh r, tok_customer = rt_customer r,
                     tok_email = e, tok_phone = p, tok_name = rt_name r\<rparr>
      | _ \<Rightarrow> None)"

definition exchange_code_for_token :: "provider \<Rightarrow> string \<Rightarrow> string + token" where
  "exchange_code_for_token pr code =
     (case post_token pr code of
        Inl e \<Rightarrow> Inl e
      | Inr body \<Rightarrow>
         (case Option.bind body token_of of
            None \<Rightarrow> Inl ''mock_bank connector's /token response was missing access_token, email, or phone.''
          | Some t \<Rightarrow> Inr t))"

text \<open>\<open>get_connector\<close>: the registry holds one slug.\<close>

definition REGISTRY :: "string list" where
  "REGISTRY = [''mock_bank'']"

definition get_connector :: "string \<Rightarrow> string + unit" where
  "get_connector slug =
     guard_res (slug \<in> set REGISTRY)
       (''No bank connector registered for '' @ [CHR 0x27] @ slug @ [CHR 0x27, CHR ''.''])"

text \<open>\<open>urllib.parse.quote_plus\<close> of an ASCII string, and \<open>urlencode\<close>.\<close>

definition unreserved :: "char \<Rightarrow> bool" where
  "unreserved c \<longleftrightarrow> (let n = of_char c :: nat in (48 \<le> n \<and> n \<le> 57) \<or> (65 \<le> n \<and> n \<le> 90) \<or>
     (97 \<le> n \<and> n \<le> 122) \<or> c \<in> set ''_.-~'')"

definition quote_char :: "char \<Rightarrow> string" where
  "quote_char c = (if unreserved c then [c] else if c = CHR '' '' then ''+''
     else CHR ''%'' # str_upper (hex_digits 2 (of_char c)))"

definition quote_plus :: "string \<Rightarrow> string" where
  "quote_plus s = concat (map quote_char s)"

fun urlencode :: "(string \<times> string) list \<Rightarrow> string" where
  "urlencode [] = []"
| "urlencode [(k, v)] = quote_plus k @ ''='' @ quote_plus v"
| "urlencode ((k, v) # kvs) = quote_plus k @ ''='' @ quote_plus v @ ''&'' @ urlencode kvs"

definition get_authorize_url :: "string \<Rightarrow> string \<Rightarrow> string \<Rightarrow> string \<Rightarrow> string" where
  "get_authorize_url public_url client_id state redirect_uri =
     public_url @ ''/authorize?'' @ urlencode
       [(''client_id'', client_id), (''redirect_uri'', redirect_uri), (''state'', state),
        (''response_type'', ''code'')]"

subsection \<open>Landing the accounts\<close>

text \<open>Manual accounts of the same bank go, with their transactions.\<close>

definition shadowed :: "uuid \<Rightarrow> string \<Rightarrow> bank_account \<Rightarrow> bool" where
  "shadowed u name a \<longleftrightarrow> acc_user a = u \<and> link_type a = Manual \<and> str_lower (bank_name a) = str_lower name"

definition drop_shadowed :: "uuid \<Rightarrow> string \<Rightarrow> db \<Rightarrow> db" where
  "drop_shadowed u name d = fold delete_account_row (map acc_id (filter (shadowed u name) (accounts d))) d"

definition synced_account :: "connection \<Rightarrow> feed_account \<Rightarrow> uuid \<Rightarrow> bool \<Rightarrow> bank_account" where
  "synced_account c x k active =
     \<lparr>acc_id = k, acc_user = conn_user c, bank_name = fa_bank_name x, account_type = fa_type x,
      account_number = fa_number x, acc_currency = case_option ''EGP'' id (fa_currency x),
      is_active = active, link_type = Synced, acc_connection = Some (conn_id c),
      external_account_id = Some (fa_external_id x)\<rparr>"

definition fed_by :: "connection \<Rightarrow> string \<Rightarrow> bank_account \<Rightarrow> bool" where
  "fed_by c ext a \<longleftrightarrow> acc_connection a = Some (conn_id c) \<and> external_account_id a = Some ext"

text \<open>\<open>update_or_create(connection, external_account_id)\<close>.\<close>

definition upsert_account :: "connection \<Rightarrow> feed_account \<Rightarrow> db \<Rightarrow> bank_account response" where
  "upsert_account c x d =
     (case filter (fed_by c (fa_external_id x)) (accounts d) of
        [] \<Rightarrow> let a = synced_account c x (fresh d) True
              in (Inr a, (draw d)\<lparr>accounts := accounts d @ [a]\<rparr>)
      | [old] \<Rightarrow> let a = synced_account c x (acc_id old) (is_active old)
              in (Inr a, d\<lparr>accounts := save_row acc_id a (accounts d)\<rparr>)
      | _ \<Rightarrow> (Inl (Unhandled ''MultipleObjectsReturned''), d))"

fun upsert_accounts :: "connection \<Rightarrow> feed_account list \<Rightarrow> db \<Rightarrow> bank_account list response" where
  "upsert_accounts c [] d = (Inr [], d)"
| "upsert_accounts c (x # xs) d =
     (case upsert_account c x d of
        (Inl e, d1) \<Rightarrow> (Inl e, d1)
      | (Inr a, d1) \<Rightarrow>
         (case upsert_accounts c xs d1 of
            (Inl e, d2) \<Rightarrow> (Inl e, d2)
          | (Inr as, d2) \<Rightarrow> (Inr (a # as), d2)))"

text \<open>One transaction: a failure leaves the state as it was.\<close>

definition land_accounts :: "connection \<Rightarrow> feed_account list \<Rightarrow> db \<Rightarrow> bank_account list response" where
  "land_accounts c xs d =
     (let d1 = (case xs of [] \<Rightarrow> d | x # _ \<Rightarrow> drop_shadowed (conn_user c) (fa_bank_name x) d)
      in case upsert_accounts c xs d1 of
           (Inl e, _) \<Rightarrow> (Inl e, d)
         | (Inr as, d2) \<Rightarrow> (Inr as, d2))"

text \<open>The backfill is best effort: a connector error skips the account.\<close>

fun backfill :: "provider \<Rightarrow> string option \<Rightarrow> (bank_account \<times> feed_account) list \<Rightarrow> db \<Rightarrow> db" where
  "backfill pr tok [] d = d"
| "backfill pr tok ((a, x) # rest) d =
     (case fetch_transactions pr tok (fa_external_id x) of
        Inl e \<Rightarrow> backfill pr tok rest d
      | Inr ts \<Rightarrow> backfill pr tok rest (if ts = [] then d else enqueue (Ingest_synced (acc_id a) ts) d))"

definition apply_synced_accounts ::
  "connection \<Rightarrow> feed_account list \<Rightarrow> provider \<Rightarrow> db \<Rightarrow> bank_account list response" where
  "apply_synced_accounts c xs pr d =
     (case land_accounts c xs d of
        (Inl e, d1) \<Rightarrow> (Inl e, d1)
      | (Inr as, d1) \<Rightarrow> (Inr as, backfill pr (access_token c) (zip as xs) d1))"


subsection \<open>The ingestion task\<close>

definition feed_key :: "bank_account \<Rightarrow> date \<Rightarrow> feed_txn \<Rightarrow> ledger_key" where
  "feed_key a dt f = (acc_user a, acc_id a, dt, feed_amount f, feed_merchant f, feed_type f)"

definition synced_txn :: "int \<Rightarrow> bank_account \<Rightarrow> date \<Rightarrow> feed_txn \<Rightarrow> db \<Rightarrow> txn" where
  "synced_txn now a dt f d =
     \<lparr>txn_id = fresh d, txn_user = acc_user a, txn_account = acc_id a, txn_statement = None,
      transaction_date = dt, merchant_raw = feed_merchant f, merchant_normalized = None,
      txn_category = map_option cat_id
        (resolve_category (categories d) (guess_category_from_merchant (feed_merchant f) (feed_type f)) (feed_type f)),
      amount = feed_amount f, txn_currency = str_or (feed_currency f) (acc_currency a),
      is_recurring = False, source = ''synced'', balance = feed_balance f,
      transaction_type = feed_type f, txn_created = now\<rparr>"

text \<open>One round of the loop, and the loop: rows created before a bad date stay.\<close>

definition ingest_row :: "int \<Rightarrow> bank_account \<Rightarrow> date \<times> feed_txn \<Rightarrow> db \<Rightarrow> db" where
  "ingest_row now a r d = (case r of (dt, f) \<Rightarrow>
     if is_duplicate (txns d) (acc_user a) (acc_id a) dt (feed_amount f) (feed_merchant f) (feed_type f)
     then d else insert_txn (synced_txn now a dt f d) d)"

fun ingest_rows :: "int \<Rightarrow> bank_account \<Rightarrow> feed_txn list \<Rightarrow> db \<Rightarrow> bool \<times> db" where
  "ingest_rows now a [] d = (True, d)"
| "ingest_rows now a (f # fs) d =
     (case feed_date f of
        None \<Rightarrow> (False, d)
      | Some dt \<Rightarrow> ingest_rows now a fs (ingest_row now a (dt, f) d))"

text \<open>\<open>t.transaction_date.strftime("%Y-%m")\<close>.\<close>

definition two_digits :: "int \<Rightarrow> string" where
  "two_digits n = (if n < 10 then ''0'' else []) @ nat_str (nat n)"

definition month_label :: "date \<Rightarrow> string" where
  "month_label x = nat_str (nat (year x)) @ ''-'' @ two_digits (month x)"

text \<open>An anomaly in the service's answer; \<open>fd_month\<close> is \<open>None\<close> where the key is missing.\<close>

record found_anomaly =
  fd_category :: "string option"
  fd_month :: "string option"
  fd_amount :: "rat option"
  fd_reason :: string

definition anomaly_row :: "bank_account \<Rightarrow> string \<Rightarrow> found_anomaly \<Rightarrow> db \<Rightarrow> anomaly" where
  "anomaly_row a m x d = \<lparr>an_id = fresh d, an_txn = None, an_user = acc_user a,
     an_account = Some (acc_id a), an_category = fd_category x, an_month = m @ ''-01'',
     an_amount = fd_amount x, an_reason = fd_reason x, severity = ''medium'', resolved = False\<rparr>"

fun flag_anomalies :: "bank_account \<Rightarrow> found_anomaly list \<Rightarrow> uuid list \<Rightarrow> db \<Rightarrow> bool \<times> uuid list \<times> db" where
  "flag_anomalies a [] ids d = (True, ids, d)"
| "flag_anomalies a (x # xs) ids d =
     (case fd_month x of
        None \<Rightarrow> (False, ids, d)
      | Some m \<Rightarrow>
          flag_anomalies a xs (ids @ [fresh d])
            (emit (Notified (acc_user a) ''Unusual activity detected'')
              ((draw d)\<lparr>anomalies := anomalies d @ [anomaly_row a m x d]\<rparr>)))"

text \<open>\<open>analyse\<close> is the AI service: \<open>Inl\<close> for an \<open>AIServiceError\<close>, which skips the month.\<close>

fun analyse_months ::
  "(uuid \<Rightarrow> uuid \<Rightarrow> string \<Rightarrow> string + found_anomaly list) \<Rightarrow> bank_account \<Rightarrow> string list \<Rightarrow> uuid list \<Rightarrow> db \<Rightarrow>
   bool \<times> uuid list \<times> db" where
  "analyse_months analyse a [] ids d = (True, ids, d)"
| "analyse_months analyse a (m # ms) ids d =
     (case analyse (acc_user a) (acc_id a) m of
        Inl e \<Rightarrow> analyse_months analyse a ms ids d
      | Inr xs \<Rightarrow>
         (case flag_anomalies a xs ids d of
            (False, ids', d') \<Rightarrow> (False, ids', d')
          | (True, ids', d') \<Rightarrow> analyse_months analyse a ms ids' d'))"

text \<open>
  The task. \<open>pick\<close> is the order in which Python's set of months is walked. The result is
  the exception the task ends with, if any.
\<close>

definition ingest_synced_transactions ::
  "(uuid \<Rightarrow> uuid \<Rightarrow> string \<Rightarrow> string + found_anomaly list) \<Rightarrow> (string list \<Rightarrow> string list) \<Rightarrow> int \<Rightarrow>
   uuid \<Rightarrow> feed_txn list \<Rightarrow> db \<Rightarrow> string option \<times> db" where
  "ingest_synced_transactions analyse pick now k fs d =
     (case by_pk acc_id (accounts d) k of
        None \<Rightarrow> (None, d)
      | Some a \<Rightarrow>
         (case ingest_rows now a fs d of
            (False, d1) \<Rightarrow> (Some ''ValueError'', d1)
          | (True, d1) \<Rightarrow>
              let created = drop (length (txns d)) (txns d1);
                  d2 = emit (Transaction_synced (acc_user a) k (length created) (map txn_id created)) d1
              in if created = [] then (None, d2)
                 else
                  (case analyse_months analyse a (pick (remdups (map (month_label \<circ> transaction_date) created))) [] d2 of
                     (ok, ids, d3) \<Rightarrow>
                       let d4 = (if ok then emit (Notified (acc_user a) ''New transactions synced'') d3 else d3);
                           d5 = (if ids = [] then d4 else emit (Anomaly_detected (acc_user a) k ids) d4)
                       in (if ok then None else Some ''KeyError'', d5))))"

definition run_ingest_message ::
  "(uuid \<Rightarrow> uuid \<Rightarrow> string \<Rightarrow> string + found_anomaly list) \<Rightarrow> (string list \<Rightarrow> string list) \<Rightarrow> int \<Rightarrow> nat \<Rightarrow> db \<Rightarrow> db" where
  "run_ingest_message analyse pick now i d =
     (if length (queue d) \<le> i then d
      else
       (case queue d ! i of
          Ingest_synced k fs \<Rightarrow>
            snd (ingest_synced_transactions analyse pick now k fs
              (d\<lparr>queue := take i (queue d) @ drop (Suc i) (queue d)\<rparr>))
        | _ \<Rightarrow> d))"

subsection \<open>Linking a bank\<close>

definition save_connection :: "connection \<Rightarrow> db \<Rightarrow> db" where
  "save_connection c d = d\<lparr>connections := save_row conn_id c (connections d)\<rparr>"

text \<open>POST /bank-connections: \<open>state\<close> is what \<open>secrets.token_urlsafe\<close> draws.\<close>

definition initiate_connection ::
  "string \<Rightarrow> (string \<Rightarrow> string) \<Rightarrow> uuid \<Rightarrow> detail + string \<Rightarrow> db \<Rightarrow> (uuid \<times> string) response" where
  "initiate_connection state authorize_url u validated d =
     (case validated of
        Inl es \<Rightarrow> (Inl (ValidationError es), d)
      | Inr slug \<Rightarrow>
         (case get_connector slug of
            Inl e \<Rightarrow> (Inl (Http404 ''Unknown bank provider.''), d)
          | Inr _ \<Rightarrow>
              let mine = filter (\<lambda>c. conn_user c = u \<and> provider_slug c = slug) (connections d)
              in case first_pk conn_id mine of
                   None \<Rightarrow>
                     let c = \<lparr>conn_id = fresh d, conn_user = u, provider_slug = slug, conn_status = Pending_otp,
                              external_customer_id = None, access_token = None, refresh_token = None,
                              oauth_state = Some state, error_reason = None, linked_at = None\<rparr>
                     in (Inr (conn_id c, authorize_url state), (draw d)\<lparr>connections := connections d @ [c]\<rparr>)
                 | Some existing \<Rightarrow>
                     if conn_status existing = Linked then
                       (Inl (BusinessRuleError ''This bank is already linked.'' ''bank_already_linked''
                          (Some [(''connection_id'', Str (uuid_str (conn_id existing)))])), d)
                     else if 1 < length mine then (Inl (Unhandled ''MultipleObjectsReturned''), d)
                     else (Inr (conn_id existing, authorize_url state),
                           save_connection (existing\<lparr>conn_status := Pending_otp, oauth_state := Some state,
                              error_reason := None\<rparr>) d)))"

text \<open>The two partial unique constraints of the table.\<close>

definition connection_clash :: "connection \<Rightarrow> connection list \<Rightarrow> bool" where
  "connection_clash c others \<longleftrightarrow>
     conn_status c = Linked \<and>
       list_ex (\<lambda>o'. conn_status o' = Linked \<and> conn_user o' = conn_user c \<and> provider_slug o' = provider_slug c) others \<or>
     external_customer_id c \<noteq> None \<and>
       list_ex (\<lambda>o'. provider_slug o' = provider_slug c \<and> external_customer_id o' = external_customer_id c) others"

definition mark_failed :: "connection \<Rightarrow> string \<Rightarrow> db \<Rightarrow> db" where
  "mark_failed c e d = save_connection (c\<lparr>conn_status := Failed, error_reason := Some e, oauth_state := None\<rparr>) d"

definition connection_failed :: exc where
  "connection_failed = BusinessRuleError ''Failed to complete the bank connection.'' ''bank_connection_failed'' None"

definition link_connection :: "int \<Rightarrow> token \<Rightarrow> connection \<Rightarrow> connection" where
  "link_connection now t c = c\<lparr>access_token := Some (tok_access t), refresh_token := tok_refresh t,
     external_customer_id := tok_customer t, conn_status := Linked, linked_at := Some now,
     oauth_state := None\<rparr>"

text \<open>POST /bank-connections/{id}/callback; the validated body is the code and the state.\<close>

definition connection_callback ::
  "provider \<Rightarrow> int \<Rightarrow> uuid \<Rightarrow> uuid \<Rightarrow> detail + string \<times> string \<Rightarrow> db \<Rightarrow> bank_account list response" where
  "connection_callback pr now u k validated d =
     (case by_pk conn_id (filter (\<lambda>c. conn_user c = u) (connections d)) k of
        None \<Rightarrow> (Inl (Http404 ''No BankConnection matches the given query.''), d)
      | Some c \<Rightarrow>
         (case validated of
            Inl es \<Rightarrow> (Inl (ValidationError es), d)
          | Inr (code, state) \<Rightarrow>
              if oauth_state c = None \<or> oauth_state c = Some [] \<or> oauth_state c \<noteq> Some state then
                (Inl (BusinessRuleError ''OAuth state mismatch.'' ''invalid_oauth_state'' None), d)
              else
               (case get_connector (provider_slug c) of
                  Inl e \<Rightarrow> (Inl (Unhandled ''BankConnectorError''), d)
                | Inr _ \<Rightarrow>
                   (case exchange_code_for_token pr code of
                      Inl e \<Rightarrow> (Inl connection_failed, mark_failed c e d)
                    | Inr t \<Rightarrow>
                       (case fetch_accounts pr (Some (tok_access t)) of
                          Inl e \<Rightarrow> (Inl connection_failed, mark_failed c e d)
                        | Inr xs \<Rightarrow>
                            let c' = link_connection now t c
                            in if connection_clash c' (filter (\<lambda>o'. conn_id o' \<noteq> conn_id c) (connections d))
                               then (Inl (Unhandled ''IntegrityError''), d)
                               else apply_synced_accounts c' xs pr (save_connection c' d))))))"

subsection \<open>The inbound push\<close>

record push =
  push_slug :: string
  push_account :: string
  push_customer :: string
  push_transactions :: "feed_txn list"

text \<open>\<open>connection__...\<close> joins through the account's connection.\<close>

definition connection_of :: "db \<Rightarrow> bank_account \<Rightarrow> connection option" where
  "connection_of d a = Option.bind (acc_connection a) (by_pk conn_id (connections d))"

definition pushed_account :: "push \<Rightarrow> db \<Rightarrow> bank_account option" where
  "pushed_account p d = first_pk acc_id (filter (\<lambda>a.
     (case connection_of d a of
        None \<Rightarrow> False
      | Some c \<Rightarrow> provider_slug c = push_slug p \<and> conn_status c = Linked) \<and>
     external_account_id a = Some (push_account p) \<and> link_type a = Synced) (accounts d))"

definition discover_account :: "provider \<Rightarrow> push \<Rightarrow> db \<Rightarrow> bank_account response" where
  "discover_account pr p d =
     (case filter (\<lambda>c. provider_slug c = push_slug p \<and> external_customer_id c = Some (push_customer p) \<and>
                      conn_status c = Linked) (connections d) of
        [] \<Rightarrow> (Inl (Http404 ''No BankConnection matches the given query.''), d)
      | [c] \<Rightarrow>
         (case get_connector (provider_slug c) of
            Inl e \<Rightarrow> (Inl (Unhandled ''BankConnectorError''), d)
          | Inr _ \<Rightarrow>
             (case fetch_accounts pr (access_token c) of
                Inl e \<Rightarrow> (Inl (Http404 e), d)
              | Inr xs \<Rightarrow>
                 (case apply_synced_accounts c xs pr d of
                    (Inl e, d1) \<Rightarrow> (Inl e, d1)
                  | (Inr as, d1) \<Rightarrow>
                     (case first_pk acc_id (filter (fed_by c (push_account p)) (accounts d1)) of
                        None \<Rightarrow> (Inl (Http404 ''Unknown external_account_id.''), d1)
                      | Some a \<Rightarrow> (Inr a, d1)))))
      | _ \<Rightarrow> (Inl (Unhandled ''MultipleObjectsReturned''), d))"

text \<open>POST /webhooks/bank-sync; \<open>secret_ok\<close> is the shared secret's comparison.\<close>

definition authenticate_secret :: "string option \<Rightarrow> string \<Rightarrow> exc + string" where
  "authenticate_secret provided expected =
     (case provided of
        None \<Rightarrow> Inl (APIException 401 ''invalid_service_token'' (Str ''Invalid service credential.''))
      | Some s \<Rightarrow> if s = [] \<or> s \<noteq> expected
          then Inl (APIException 401 ''invalid_service_token'' (Str ''Invalid service credential.''))
          else Inr s)"

definition bank_sync_webhook ::
  "string \<Rightarrow> provider \<Rightarrow> string option \<Rightarrow> detail + push \<Rightarrow> db \<Rightarrow> unit response" where
  "bank_sync_webhook secret pr provided validated d =
     (case authenticate_secret provided secret of
        Inl e \<Rightarrow> (Inl e, d)
      | Inr _ \<Rightarrow>
         (case validated of
            Inl es \<Rightarrow> (Inl (ValidationError es), d)
          | Inr p \<Rightarrow>
             (case (case pushed_account p d of
                      Some a \<Rightarrow> (Inr a, d)
                    | None \<Rightarrow> discover_account pr p d) of
                (Inl e, d1) \<Rightarrow> (Inl e, d1)
              | (Inr a, d1) \<Rightarrow> (Inr (), enqueue (Ingest_synced (acc_id a) (push_transactions p)) d1))))"

end
