(* ===== verification/Sync_Laws.thy ===== *)
theory Sync_Laws
  imports Sync
begin

text \<open>
  What bank integration keeps and what it promises: a feed is ingested once however often
  it is delivered, a linked bank is the only source of its accounts, a login state is good
  for one callback, and the invariant of the ledger extends to connections.
\<close>

subsection \<open>A feed is an importer\<close>

lemma matching_iff_key: "matching k ts \<noteq> [] \<longleftrightarrow> k \<in> ledger_key ` set ts"
  by (auto simp: matching_def filter_empty_conv)

lemma synced_key: "ledger_key (synced_txn now a dt f d) = feed_key a dt f"
  by (simp add: ledger_key_def synced_txn_def feed_key_def)

lemma is_duplicate_iff:
  "is_duplicate ts (acc_user a) (acc_id a) dt (feed_amount f) (feed_merchant f) (feed_type f) \<longleftrightarrow>
   feed_key a dt f \<in> ledger_key ` set ts"
  by (simp add: is_duplicate_def feed_key_def [symmetric] matching_iff_key)

interpretation feed: ledger_import "txns :: db \<Rightarrow> txn list" ledger_key "\<lambda>(dt, f). feed_key a dt f" "ingest_row now a"
  for now a
  by unfold_locales (auto simp: ingest_row_def is_duplicate_iff synced_key split: prod.splits)

definition parsed :: "feed_txn list \<Rightarrow> (date \<times> feed_txn) list" where
  "parsed fs = map (\<lambda>f. (the (feed_date f), f)) fs"

lemma ingest_rows_fold:
  "\<forall>f \<in> set fs. feed_date f \<noteq> None \<Longrightarrow> ingest_rows now a fs d = (True, fold (ingest_row now a) (parsed fs) d)"
  by (induction fs arbitrary: d) (auto simp: parsed_def)

text \<open>What the rows added look like, and what the loop leaves alone.\<close>

definition synced_for :: "bank_account \<Rightarrow> txn \<Rightarrow> bool" where
  "synced_for a t \<longleftrightarrow> source t = ''synced'' \<and> txn_user t = acc_user a \<and> txn_account t = acc_id a"

lemma ingest_row_cases:
  "ingest_row now a r d = d \<or>
   (\<exists>t. ingest_row now a r d = insert_txn t d \<and> synced_for a t \<and> txn_id t = fresh d \<and> matching (ledger_key t) (txns d) = [])"
proof (cases r)
  case (Pair dt f)
  show ?thesis
  proof (cases "feed_key a dt f \<in> ledger_key ` set (txns d)")
    case True
    with Pair show ?thesis by (simp add: ingest_row_def is_duplicate_iff)
  next
    case False
    then have "matching (ledger_key (synced_txn now a dt f d)) (txns d) = []"
      using matching_iff_key synced_key by metis
    moreover have "synced_for a (synced_txn now a dt f d)" "txn_id (synced_txn now a dt f d) = fresh d"
      by (simp_all add: synced_for_def synced_txn_def)
    ultimately show ?thesis using Pair False by (auto simp: ingest_row_def is_duplicate_iff)
  qed
qed

lemma ingest_rows_ind:
  assumes step: "\<And>t d. P d \<Longrightarrow> synced_for a t \<Longrightarrow> txn_id t = fresh d \<Longrightarrow> matching (ledger_key t) (txns d) = [] \<Longrightarrow> P (insert_txn t d)"
    and "P d"
  shows "P (snd (ingest_rows now a fs d))"
  using assms(2)
proof (induction fs arbitrary: d)
  case (Cons f fs)
  have "P (ingest_row now a (dt, f) d)" for dt
    using ingest_row_cases [of now a "(dt, f)" d] Cons.prems step by auto
  with Cons show ?case by (auto split: option.splits)
qed simp

lemma ingest_rows_synced:
  "\<exists>new. txns (snd (ingest_rows now a fs d)) = txns d @ new \<and> (\<forall>t \<in> set new. synced_for a t)"
  by (rule ingest_rows_ind [where P = "\<lambda>d'. \<exists>new. txns d' = txns d @ new \<and> (\<forall>t \<in> set new. synced_for a t)"])
    (auto simp: insert_txn_def)

lemma ingest_rows_accounts: "accounts (snd (ingest_rows now a fs d)) = accounts d"
  by (rule ingest_rows_ind [where P = "\<lambda>d'. accounts d' = accounts d"]) (auto simp: insert_txn_def)

lemma ingest_rows_connections: "connections (snd (ingest_rows now a fs d)) = connections d"
  by (rule ingest_rows_ind [where P = "\<lambda>d'. connections d' = connections d"]) (auto simp: insert_txn_def)

text \<open>The analysis after it touches neither the ledger nor the connections.\<close>

definition bank_frame :: "db \<Rightarrow> db \<Rightarrow> bool" where
  "bank_frame d d' \<longleftrightarrow> txns d' = txns d \<and> accounts d' = accounts d \<and> connections d' = connections d \<and>
     uuid_src d' = uuid_src d \<and> draws d \<le> draws d'"

lemma bank_frame_refl [simp]: "bank_frame d d"
  by (simp add: bank_frame_def)

lemma bank_frame_trans: "bank_frame d d1 \<Longrightarrow> bank_frame d1 d2 \<Longrightarrow> bank_frame d d2"
  by (simp add: bank_frame_def)

lemma flag_anomalies_frame: "bank_frame d (snd (snd (flag_anomalies a xs ids d)))"
proof (induction xs arbitrary: ids d)
  case (Cons x xs)
  show ?case
  proof (cases "fd_month x")
    case (Some m)
    let ?d = "emit (Notified (acc_user a) ''Unusual activity detected'')
      ((draw d)\<lparr>anomalies := anomalies d @ [anomaly_row a m x d]\<rparr>)"
    have "bank_frame d ?d" by (simp add: bank_frame_def)
    with Some Cons.IH [of ?d "ids @ [fresh d]"] show ?thesis by (auto intro: bank_frame_trans)
  qed simp
qed simp

lemma analyse_months_frame: "bank_frame d (snd (snd (analyse_months analyse a ms ids d)))"
proof (induction ms arbitrary: ids d)
  case (Cons m ms)
  show ?case
  proof (cases "analyse (acc_user a) (acc_id a) m")
    case (Inl e)
    with Cons show ?thesis by simp
  next
    case (Inr xs)
    obtain ok ids' d' where f: "flag_anomalies a xs ids d = (ok, ids', d')"
      by (cases "flag_anomalies a xs ids d") auto
    with flag_anomalies_frame [of d a xs ids] have "bank_frame d d'" by simp
    with Inr f Cons.IH [of d' ids'] show ?thesis by (cases ok) (auto intro: bank_frame_trans)
  qed
qed simp

lemma ingest_frame:
  assumes "by_pk acc_id (accounts d) k = Some a"
  shows "bank_frame (snd (ingest_rows now a fs d)) (snd (ingest_synced_transactions analyse pick now k fs d))"
proof -
  obtain ok d1 where r: "ingest_rows now a fs d = (ok, d1)" by (cases "ingest_rows now a fs d")
  have e: "bank_frame d1 (emit e d1')" if "bank_frame d1 d1'" for e d1'
    using that by (simp add: bank_frame_def)
  let ?c = "drop (length (txns d)) (txns d1)"
  let ?d2 = "emit (Transaction_synced (acc_user a) k (length ?c) (map txn_id ?c)) d1"
  let ?ms = "pick (remdups (map (month_label \<circ> transaction_date) ?c))"
  obtain ok' ids d3 where m: "analyse_months analyse a ?ms [] ?d2 = (ok', ids, d3)"
    by (cases "analyse_months analyse a ?ms [] ?d2") auto
  with analyse_months_frame [of ?d2 analyse a ?ms "[]"] have "bank_frame ?d2 d3" by simp
  then have d3: "bank_frame d1 d3" by (rule bank_frame_trans [rotated]) (simp add: bank_frame_def)
  show ?thesis
  proof (cases "ok \<and> ?c \<noteq> []")
    case True
    with assms r m have "snd (ingest_synced_transactions analyse pick now k fs d) =
       (let d4 = (if ok' then emit (Notified (acc_user a) ''New transactions synced'') d3 else d3)
        in if ids = [] then d4 else emit (Anomaly_detected (acc_user a) k ids) d4)"
      by (simp add: ingest_synced_transactions_def Let_def)
    with r d3 show ?thesis by (simp add: Let_def e)
  next
    case False
    with assms r show ?thesis
      by (cases ok) (auto simp: ingest_synced_transactions_def Let_def bank_frame_def)
  qed
qed


text \<open>C10. Ingesting a feed is idempotent and complete: for a known account and dates that
  parse, the task adds exactly the identities the ledger did not hold, each once, as synced
  rows of that account and its owner, keeps every row before them, and delivering the same
  feed again (at any time, whatever the analysis answers) adds nothing.\<close>

theorem feed_ingested_once:
  assumes "by_pk acc_id (accounts d) k = Some a" "\<forall>f \<in> set fs. feed_date f \<noteq> None"
  shows "\<exists>new. txns (snd (ingest_synced_transactions analyse pick now k fs d)) = txns d @ new \<and>
     distinct (map ledger_key new) \<and>
     ledger_key ` set new = (\<lambda>f. feed_key a (the (feed_date f)) f) ` set fs - ledger_key ` set (txns d) \<and>
     (\<forall>t \<in> set new. synced_for a t) \<and>
     txns (snd (ingest_synced_transactions analyse' pick' now' k fs
        (snd (ingest_synced_transactions analyse pick now k fs d)))) = txns d @ new"
proof -
  let ?d1 = "snd (ingest_synced_transactions analyse pick now k fs d)"
  have keys: "(\<lambda>(dt, f). feed_key a dt f) ` set (parsed fs) = (\<lambda>f. feed_key a (the (feed_date f)) f) ` set fs"
    by (force simp: parsed_def)
  note r = ingest_rows_fold [OF assms(2)]
  have t: "txns (snd (ingest_synced_transactions an p n k fs s)) = txns (fold (ingest_row n a) (parsed fs) s)"
    and ac: "accounts (snd (ingest_synced_transactions an p n k fs s)) = accounts s"
    if "by_pk acc_id (accounts s) k = Some a" for an p n s
    using ingest_frame [OF that, of n fs an p] ingest_rows_accounts [of n a fs s] that r [of n a s]
    by (simp_all add: bank_frame_def)
  obtain new where n: "txns (fold (ingest_row now a) (parsed fs) d) = txns d @ new" "distinct (map ledger_key new)"
      "ledger_key ` set new = (\<lambda>(dt, f). feed_key a dt f) ` set (parsed fs) - ledger_key ` set (txns d)"
    using feed.import_new [of now a "parsed fs" d] by blast
  have new: "txns ?d1 = txns d @ new" "distinct (map ledger_key new)"
      "ledger_key ` set new = (\<lambda>f. feed_key a (the (feed_date f)) f) ` set fs - ledger_key ` set (txns d)"
    using n t [OF assms(1)] keys by simp_all
  have "\<forall>x \<in> set new. synced_for a x"
    using ingest_rows_synced [of now a fs d] new(1) t [OF assms(1), of analyse pick now] r [of now a d] by auto
  moreover have "by_pk acc_id (accounts ?d1) k = Some a" using ac [OF assms(1)] assms(1) by simp
  then have "txns (snd (ingest_synced_transactions analyse' pick' now' k fs ?d1)) = txns ?d1"
    using feed.import_known [of a "parsed fs" ?d1 now'] new(1,3) unfolding keys by (subst t) auto
  ultimately show ?thesis using new by auto
qed

subsection \<open>The invariant, with connections\<close>

definition conn_ok :: "db \<Rightarrow> bool" where
  "conn_ok d \<longleftrightarrow>
     drawn d (map conn_id (connections d)) \<and> distinct (map conn_id (connections d)) \<and>
     key_unique conn_id (\<lambda>c. (conn_user c, provider_slug c)) (\<lambda>c. conn_status c = Linked) (connections d) \<and>
     key_unique conn_id (\<lambda>c. (provider_slug c, external_customer_id c)) (\<lambda>c. external_customer_id c \<noteq> None)
       (connections d)"

definition known :: "connection \<Rightarrow> db \<Rightarrow> bool" where
  "known c d \<longleftrightarrow> (\<exists>c' \<in> set (connections d). conn_id c' = conn_id c \<and> conn_user c' = conn_user c)"

definition fed_ok :: "db \<Rightarrow> bool" where
  "fed_ok d \<longleftrightarrow>
     key_unique acc_id (\<lambda>a. (acc_connection a, external_account_id a)) (\<lambda>a. acc_connection a \<noteq> None) (accounts d) \<and>
     (\<forall>a \<in> set (accounts d). \<forall>k. acc_connection a = Some k \<longrightarrow> link_type a = Synced \<and>
        (\<exists>c \<in> set (connections d). conn_id c = k \<and> conn_user c = acc_user a))"

definition sync_ok :: "db \<Rightarrow> bool" where
  "sync_ok d \<longleftrightarrow> ledger_ok d \<and> conn_ok d \<and> fed_ok d"

lemma fed_okD:
  assumes "fed_ok d" "a \<in> set (accounts d)" "acc_connection a = Some k"
  shows "link_type a = Synced" "\<exists>c \<in> set (connections d). conn_id c = k \<and> conn_user c = acc_user a"
  using assms unfolding fed_ok_def by blast+

lemma fed_ok_sub:
  assumes "fed_ok d" "set (accounts d') \<subseteq> set (accounts d)" "connections d' = connections d"
  shows "fed_ok d'"
proof -
  have "key_unique acc_id (\<lambda>a. (acc_connection a, external_account_id a)) (\<lambda>a. acc_connection a \<noteq> None) (accounts d')"
    using assms(1,2) unfolding fed_ok_def by (blast intro: key_unique_subset)
  moreover have "link_type a = Synced \<and> (\<exists>c \<in> set (connections d'). conn_id c = k \<and> conn_user c = acc_user a)"
    if "a \<in> set (accounts d')" "acc_connection a = Some k" for a k
    using fed_okD [OF assms(1), of a k] that assms(2,3) by auto
  ultimately show ?thesis unfolding fed_ok_def by blast
qed

lemma conn_ok_quiet:
  "conn_ok d \<Longrightarrow> connections d' = connections d \<Longrightarrow> uuid_src d' = uuid_src d \<Longrightarrow> draws d \<le> draws d' \<Longrightarrow> conn_ok d'"
  unfolding conn_ok_def by (auto elim: drawn_mono)

lemma sync_ok_bank_frame: "sync_ok d \<Longrightarrow> bank_frame d d' \<Longrightarrow> sync_ok d'"
  using quiet_keeps_ok [of d d'] conn_ok_quiet [of d d'] fed_ok_sub [of d d']
  by (simp add: sync_ok_def bank_frame_def)

lemma insert_txn_more [simp]: "connections (insert_txn t d) = connections d" "accounts (insert_txn t d) = accounts d"
  "uuid_src (insert_txn t d) = uuid_src d" "draws (insert_txn t d) = Suc (draws d)"
  by (simp_all add: insert_txn_def)

lemma delete_row_more [simp]:
  "connections (delete_account_row k d) = connections d" "uuid_src (delete_account_row k d) = uuid_src d"
  "draws (delete_account_row k d) = draws d"
  by (simp_all add: delete_account_row_def)

lemma ingest_rows_ok:
  assumes "sync_ok d" "a \<in> set (accounts d)"
  shows "sync_ok (snd (ingest_rows now a fs d))"
proof -
  have "sync_ok (snd (ingest_rows now a fs d)) \<and> accounts (snd (ingest_rows now a fs d)) = accounts d"
  proof (rule ingest_rows_ind [where P = "\<lambda>d'. sync_ok d' \<and> accounts d' = accounts d"])
    fix t s
    assume "sync_ok s \<and> accounts s = accounts d" "synced_for a t" "txn_id t = fresh s"
      "matching (ledger_key t) (txns s) = []"
    with assms show "sync_ok (insert_txn t s) \<and> accounts (insert_txn t s) = accounts d"
      using insert_keeps_ok [of s a t] conn_ok_quiet [of s "insert_txn t s"] fed_ok_sub [of s "insert_txn t s"]
      by (simp add: sync_ok_def synced_for_def)
  qed (use assms in simp)
  then show ?thesis ..
qed

lemma ingest_keeps: "sync_ok d \<Longrightarrow> sync_ok (snd (ingest_synced_transactions analyse pick now k fs d))"
proof (cases "by_pk acc_id (accounts d) k")
  case (Some a)
  assume "sync_ok d"
  with Some have "sync_ok (snd (ingest_rows now a fs d))" by (auto intro: ingest_rows_ok dest: by_pk_Some)
  then show ?thesis using ingest_frame [OF Some] sync_ok_bank_frame by blast
qed (simp add: ingest_synced_transactions_def)

lemma run_ingest_keeps: "sync_ok d \<Longrightarrow> sync_ok (run_ingest_message analyse pick now i d)"
  using ingest_keeps sync_ok_bank_frame [of d "d\<lparr>queue := take i (queue d) @ drop (Suc i) (queue d)\<rparr>"]
  by (auto simp: run_ingest_message_def bank_frame_def split: task.splits)


text \<open>Dropping the shadowed accounts, and the accounts an upsert leaves.\<close>

lemma fold_drop_accounts: "accounts (fold delete_account_row ks d) = filter (\<lambda>a. acc_id a \<notin> set ks) (accounts d)"
  by (induction ks arbitrary: d) (auto simp: delete_account_row_def intro: filter_cong)

lemma fold_drop_more [simp]:
  "connections (fold delete_account_row ks d) = connections d"
  "uuid_src (fold delete_account_row ks d) = uuid_src d" "draws (fold delete_account_row ks d) = draws d"
  by (induction ks arbitrary: d) auto

lemma fold_drop_ok: "sync_ok d \<Longrightarrow> sync_ok (fold delete_account_row ks d)"
proof (induction ks arbitrary: d)
  case (Cons k ks)
  have "sync_ok (delete_account_row k d)"
    using Cons.prems drop_account_keeps_ok [of d k] conn_ok_quiet [of d "delete_account_row k d"]
      fed_ok_sub [of d "delete_account_row k d"]
    by (auto simp: sync_ok_def delete_account_row_def)
  with Cons.IH show ?case by simp
qed simp

lemma drop_shadowed_accounts:
  assumes "distinct (map acc_id (accounts d))"
  shows "accounts (drop_shadowed u n d) = filter (\<lambda>a. \<not> shadowed u n a) (accounts d)"
  unfolding drop_shadowed_def fold_drop_accounts
proof (rule filter_cong [OF refl])
  fix a assume a: "a \<in> set (accounts d)"
  show "(acc_id a \<notin> set (map acc_id (filter (shadowed u n) (accounts d)))) = (\<not> shadowed u n a)"
    using a distinct_pkD [OF assms a] by auto
qed

lemma fed_by_unique:
  assumes "fed_ok d" "a \<in> set (accounts d)" "b \<in> set (accounts d)" "fed_by c x a" "fed_by c x b"
  shows "acc_id a = acc_id b"
proof -
  have "key_unique acc_id (\<lambda>a. (acc_connection a, external_account_id a)) (\<lambda>a. acc_connection a \<noteq> None) (accounts d)"
    using assms(1) by (simp add: fed_ok_def)
  from key_uniqueD [OF this assms(2,3)] show ?thesis using assms(4,5) by (simp add: fed_by_def)
qed

lemma filter_one:
  "distinct rs \<Longrightarrow> (\<And>x y. x \<in> set rs \<Longrightarrow> y \<in> set rs \<Longrightarrow> P x \<Longrightarrow> P y \<Longrightarrow> x = y) \<Longrightarrow>
   filter P rs = [] \<or> (\<exists>r. filter P rs = [r])"
proof (induction rs)
  case (Cons r rs)
  show ?case
  proof (cases "P r")
    case True
    have "\<not> P y" if "y \<in> set rs" for y using Cons.prems(1) Cons.prems(2) [of r y] that True by auto
    with True show ?thesis by simp
  qed (use Cons in auto)
qed simp

lemma fed_by_filter:
  assumes "sync_ok d"
  shows "filter (fed_by c x) (accounts d) = [] \<or> (\<exists>a. filter (fed_by c x) (accounts d) = [a])"
proof (rule filter_one)
  have "distinct (map acc_id (accounts d))" using assms by (simp add: sync_ok_def ledger_okD)
  then show "distinct (accounts d)" by (simp add: distinct_map)
  fix a b assume "a \<in> set (accounts d)" "b \<in> set (accounts d)" "fed_by c x a" "fed_by c x b"
  with assms distinct_pkD [OF \<open>distinct (map acc_id (accounts d))\<close>] show "a = b"
    by (auto simp: sync_ok_def dest: fed_by_unique)
qed

lemma synced_account_simps [simp]:
  "acc_id (synced_account c x k b) = k" "acc_user (synced_account c x k b) = conn_user c"
  "link_type (synced_account c x k b) = Synced" "acc_connection (synced_account c x k b) = Some (conn_id c)"
  "external_account_id (synced_account c x k b) = Some (fa_external_id x)"
  "bank_name (synced_account c x k b) = fa_bank_name x" "is_active (synced_account c x k b) = b"
  by (simp_all add: synced_account_def)

lemma known_same: "known c d \<Longrightarrow> connections d' = connections d \<Longrightarrow> known c d'"
  by (simp add: known_def)

lemma fed_ok_add:
  assumes "fed_ok d" "known c d" "filter (fed_by c (fa_external_id x)) (accounts d) = []"
    "accounts d' = accounts d @ [synced_account c x k b]" "connections d' = connections d"
  shows "fed_ok d'"
proof -
  let ?P = "\<lambda>a. acc_connection a \<noteq> None" and ?f = "\<lambda>a. (acc_connection a, external_account_id a)"
  have n: "\<not> fed_by c (fa_external_id x) a" if "a \<in> set (accounts d)" for a
    using assms(3) that by (auto simp: filter_empty_conv)
  have "key_unique acc_id ?f ?P (accounts d')"
    unfolding assms(4) using assms(1) n by (intro key_unique_append) (auto simp: fed_ok_def fed_by_def)
  moreover have "link_type a = Synced \<and> (\<exists>c \<in> set (connections d'). conn_id c = j \<and> conn_user c = acc_user a)"
    if "a \<in> set (accounts d')" "acc_connection a = Some j" for a j
    using fed_okD [OF assms(1), of a j] assms(2,4,5) that by (auto simp: known_def)
  ultimately show ?thesis unfolding fed_ok_def by blast
qed

lemma fed_ok_save:
  assumes "fed_ok d" "known c d" "old \<in> set (accounts d)" "fed_by c (fa_external_id x) old"
    "accounts d' = save_row acc_id (synced_account c x (acc_id old) b) (accounts d)" "connections d' = connections d"
  shows "fed_ok d'"
proof -
  let ?P = "\<lambda>a. acc_connection a \<noteq> None" and ?f = "\<lambda>a. (acc_connection a, external_account_id a)"
  have n: "\<not> fed_by c (fa_external_id x) a" if "a \<in> set (accounts d)" "acc_id a \<noteq> acc_id old" for a
    using fed_by_unique [OF assms(1) that(1) assms(3) _ assms(4)] that(2) by blast
  have "key_unique acc_id ?f ?P (accounts d')"
    unfolding assms(5) using assms(1) n by (intro key_unique_save_row) (auto simp: fed_ok_def fed_by_def)
  moreover have "link_type a = Synced \<and> (\<exists>c \<in> set (connections d'). conn_id c = j \<and> conn_user c = acc_user a)"
    if "a \<in> set (accounts d')" "acc_connection a = Some j" for a j
  proof -
    from that(1) have "a = synced_account c x (acc_id old) b \<or> a \<in> set (accounts d)"
      unfolding assms(5) by (auto dest: save_row_set)
    then show ?thesis using fed_okD [OF assms(1), of a j] assms(2,6) that(2) by (auto simp: known_def)
  qed
  ultimately show ?thesis unfolding fed_ok_def by blast
qed

text \<open>An upsert never meets two rows; it adds a row, or replaces the row it found.\<close>

definition landed :: "connection \<Rightarrow> feed_account \<Rightarrow> bank_account \<Rightarrow> bool" where
  "landed c x a \<longleftrightarrow> (\<exists>k b. a = synced_account c x k b)"

lemma upsert_account_ok:
  assumes "sync_ok d" "known c d"
  shows "\<exists>a d'. upsert_account c x d = (Inr a, d') \<and> sync_ok d' \<and> connections d' = connections d \<and>
    queue d' = queue d \<and> landed c x a \<and> a \<in> set (accounts d') \<and> txns d' = txns d \<and>
    (\<forall>b \<in> set (accounts d). \<not> fed_by c (fa_external_id x) b \<longrightarrow> b \<in> set (accounts d')) \<and>
    (\<forall>b \<in> set (accounts d'). b = a \<or> b \<in> set (accounts d)) \<and>
    filter (\<lambda>b. acc_user b \<noteq> conn_user c) (accounts d') = filter (\<lambda>b. acc_user b \<noteq> conn_user c) (accounts d)"
proof (cases "filter (fed_by c (fa_external_id x)) (accounts d)")
  case Nil
  let ?a = "synced_account c x (fresh d) True"
  let ?d = "(draw d)\<lparr>accounts := accounts d @ [?a]\<rparr>"
  have ok: "ledger_ok d" "conn_ok d" "fed_ok d" using assms(1) by (simp_all add: sync_ok_def)
  have "fed_ok ?d" by (rule fed_ok_add [OF ok(3) assms(2) Nil, where k = "fresh d" and b = True]) simp_all
  moreover have "ledger_ok ?d" by (rule add_account_keeps_ok [OF ok(1)]) simp
  ultimately have "sync_ok ?d" using conn_ok_quiet [OF ok(2), of ?d] by (simp add: sync_ok_def)
  moreover have "upsert_account c x d = (Inr ?a, ?d)" using Nil by (simp add: upsert_account_def Let_def)
  moreover have "landed c x ?a" unfolding landed_def by blast
  ultimately show ?thesis by (intro exI [of _ ?a] exI [of _ ?d]) simp
next
  case (Cons old rest)
  with fed_by_filter [OF assms(1), of c "fa_external_id x"] have one: "filter (fed_by c (fa_external_id x)) (accounts d) = [old]"
    by auto
  then have "old \<in> set (filter (fed_by c (fa_external_id x)) (accounts d))" by simp
  then have old: "old \<in> set (accounts d)" "fed_by c (fa_external_id x) old" by auto
  let ?a = "synced_account c x (acc_id old) (is_active old)"
  let ?d = "d\<lparr>accounts := save_row acc_id ?a (accounts d)\<rparr>"
  have ok: "ledger_ok d" "conn_ok d" "fed_ok d" using assms(1) by (simp_all add: sync_ok_def)
  have ids: "distinct (map acc_id (accounts d))" "distinct (map conn_id (connections d))"
    using ok by (simp_all add: ledger_okD conn_ok_def)
  obtain c1 where c1: "c1 \<in> set (connections d)" "conn_id c1 = conn_id c" "conn_user c1 = acc_user old"
    using fed_okD(2) [OF ok(3) old(1), of "conn_id c"] old(2) by (auto simp: fed_by_def)
  obtain c2 where c2: "c2 \<in> set (connections d)" "conn_id c2 = conn_id c" "conn_user c2 = conn_user c"
    using assms(2) by (auto simp: known_def)
  have owner: "acc_user old = conn_user c" using distinct_pkD [OF ids(2) c1(1) c2(1)] c1 c2 by simp
  have "fed_ok ?d" by (rule fed_ok_save [OF ok(3) assms(2) old, where b = "is_active old"]) simp_all
  moreover have "ledger_ok ?d" by (rule save_account_keeps_ok [OF ok(1) old(1)]) (simp_all add: owner)
  ultimately have "sync_ok ?d" using conn_ok_quiet [OF ok(2), of ?d] by (simp add: sync_ok_def)
  moreover have "upsert_account c x d = (Inr ?a, ?d)" using one by (simp add: upsert_account_def Let_def)
  moreover have "b \<in> set (accounts ?d)" if "b \<in> set (accounts d)" "\<not> fed_by c (fa_external_id x) b" for b
    using that old(2) distinct_pkD [OF ids(1) that(1) old(1)] by (auto simp: save_row_def)
  moreover have "?a \<in> set (accounts ?d)" using old(1) by (auto simp: save_row_def)
  moreover have "filter (\<lambda>b. acc_user b \<noteq> conn_user c) (accounts ?d) = filter (\<lambda>b. acc_user b \<noteq> conn_user c) (accounts d)"
  proof -
    have "acc_user b = conn_user c" if "b \<in> set (accounts d)" "acc_id b = acc_id old" for b
      using distinct_pkD [OF ids(1) that(1) old(1) that(2)] owner by simp
    then show ?thesis by (auto intro!: filter_save_row)
  qed
  moreover have "landed c x ?a" unfolding landed_def by blast
  moreover have "\<forall>b \<in> set (accounts ?d). b = ?a \<or> b \<in> set (accounts d)" by (auto dest: save_row_set)
  ultimately show ?thesis by (intro exI [of _ ?a] exI [of _ ?d]) simp
qed


text \<open>The rows of other users, which landing never touches.\<close>

definition others :: "uuid \<Rightarrow> db \<Rightarrow> bank_account list" where
  "others u d = filter (\<lambda>b. acc_user b \<noteq> u) (accounts d)"

lemma upsert_accounts_ok:
  "sync_ok d \<Longrightarrow> known c d \<Longrightarrow> \<exists>as d'. upsert_accounts c xs d = (Inr as, d') \<and> sync_ok d' \<and>
    connections d' = connections d \<and> queue d' = queue d \<and> list_all2 (landed c) xs as \<and>
    others (conn_user c) d' = others (conn_user c) d \<and>
    (\<forall>b \<in> set (accounts d). (\<forall>x \<in> set xs. \<not> fed_by c (fa_external_id x) b) \<longrightarrow> b \<in> set (accounts d')) \<and>
    (\<forall>b \<in> set (accounts d'). link_type b = Synced \<or> b \<in> set (accounts d)) \<and>
    (distinct (map fa_external_id xs) \<longrightarrow> set as \<subseteq> set (accounts d'))"
proof (induction xs arbitrary: d)
  case Nil
  then show ?case by simp
next
  case (Cons x xs)
  from upsert_account_ok [OF Cons.prems, of x] obtain a d1 where
    1: "upsert_account c x d = (Inr a, d1)" "sync_ok d1" "connections d1 = connections d" "queue d1 = queue d"
      "landed c x a" "a \<in> set (accounts d1)"
      "\<And>b. b \<in> set (accounts d) \<Longrightarrow> \<not> fed_by c (fa_external_id x) b \<Longrightarrow> b \<in> set (accounts d1)"
      "\<And>b. b \<in> set (accounts d1) \<Longrightarrow> b = a \<or> b \<in> set (accounts d)" "others (conn_user c) d1 = others (conn_user c) d"
    unfolding others_def by blast
  from Cons.IH [OF 1(2) known_same [OF Cons.prems(2) 1(3)]] obtain as d2 where
    2: "upsert_accounts c xs d1 = (Inr as, d2)" "sync_ok d2" "connections d2 = connections d1" "queue d2 = queue d1"
      "list_all2 (landed c) xs as" "others (conn_user c) d2 = others (conn_user c) d1"
      "\<And>b. b \<in> set (accounts d1) \<Longrightarrow> (\<forall>x \<in> set xs. \<not> fed_by c (fa_external_id x) b) \<Longrightarrow> b \<in> set (accounts d2)"
      "\<And>b. b \<in> set (accounts d2) \<Longrightarrow> link_type b = Synced \<or> b \<in> set (accounts d1)"
      "distinct (map fa_external_id xs) \<Longrightarrow> set as \<subseteq> set (accounts d2)" by blast
  have a: "fed_by c y a \<longleftrightarrow> y = fa_external_id x" "link_type a = Synced" for y
    using 1(5) by (auto simp: landed_def fed_by_def)
  have new: "a \<in> set (accounts d2)" if "distinct (map fa_external_id (x # xs))"
  proof (rule 2(7) [OF 1(6)], rule ballI)
    fix y assume "y \<in> set xs"
    then have "fa_external_id y \<in> fa_external_id ` set xs" by (rule imageI)
    moreover have "fa_external_id x \<notin> fa_external_id ` set xs" using that by simp
    ultimately have "fa_external_id y \<noteq> fa_external_id x" by metis
    then show "\<not> fed_by c (fa_external_id y) a" by (simp add: a(1))
  qed
  have synced: "link_type b = Synced \<or> b \<in> set (accounts d)" if "b \<in> set (accounts d2)" for b
    using 2(8) [OF that] 1(8) [of b] a(2) by auto
  have kept: "b \<in> set (accounts d2)"
    if "b \<in> set (accounts d)" "\<forall>y \<in> set (x # xs). \<not> fed_by c (fa_external_id y) b" for b
    using 2(7) [OF 1(7)] that by simp
  show ?case
  proof (intro exI conjI)
    show "upsert_accounts c (x # xs) d = (Inr (a # as), d2)" using 1(1) 2(1) by simp
    show "sync_ok d2" by (fact 2)
    show "connections d2 = connections d" "queue d2 = queue d" "others (conn_user c) d2 = others (conn_user c) d"
      using 1(3,4,9) 2(3,4,6) by simp_all
    show "list_all2 (landed c) (x # xs) (a # as)" using 1(5) 2(5) by simp
    show "\<forall>b \<in> set (accounts d). (\<forall>y \<in> set (x # xs). \<not> fed_by c (fa_external_id y) b) \<longrightarrow> b \<in> set (accounts d2)"
      using kept by blast
    show "\<forall>b \<in> set (accounts d2). link_type b = Synced \<or> b \<in> set (accounts d)" using synced by blast
    show "distinct (map fa_external_id (x # xs)) \<longrightarrow> set (a # as) \<subseteq> set (accounts d2)"
      using new 2(9) by simp
  qed
qed

lemma backfill_frame: "bank_frame d (backfill pr tok rows d)"
  by (induction pr tok rows d rule: backfill.induct) (auto simp: bank_frame_def split: sum.splits)

lemma others_frame: "bank_frame d d' \<Longrightarrow> others u d' = others u d"
  by (simp add: others_def bank_frame_def)

lemma drop_shadowed_ok: "sync_ok d \<Longrightarrow> sync_ok (drop_shadowed u n d)"
  unfolding drop_shadowed_def by (rule fold_drop_ok)

text \<open>Under the invariant landing the accounts cannot fail.\<close>

lemma apply_synced_ok:
  assumes "sync_ok d" "known c d"
  shows "\<exists>as d'. apply_synced_accounts c xs pr d = (Inr as, d') \<and> sync_ok d' \<and> list_all2 (landed c) xs as \<and>
    connections d' = connections d \<and>
    others (conn_user c) d' = others (conn_user c) d \<and> (distinct (map fa_external_id xs) \<longrightarrow> set as \<subseteq> set (accounts d')) \<and>
    (xs \<noteq> [] \<longrightarrow> (\<forall>b \<in> set (accounts d'). \<not> shadowed (conn_user c) (fa_bank_name (hd xs)) b))"
proof -
  let ?d1 = "case xs of [] \<Rightarrow> d | x # _ \<Rightarrow> drop_shadowed (conn_user c) (fa_bank_name x) d"
  have ids: "distinct (map acc_id (accounts d))" using assms(1) by (simp add: sync_ok_def ledger_okD)
  have d1: "sync_ok ?d1" "connections ?d1 = connections d"
    using assms drop_shadowed_ok by (auto simp: drop_shadowed_def split: list.splits)
  have d1o: "others (conn_user c) ?d1 = others (conn_user c) d"
    using ids by (auto simp: drop_shadowed_accounts others_def shadowed_def split: list.splits intro!: filter_cong)
  have gone: "\<not> shadowed (conn_user c) (fa_bank_name (hd xs)) b" if "xs \<noteq> []" "b \<in> set (accounts ?d1)" for b
    using that ids by (cases xs) (auto simp: drop_shadowed_accounts)
  from upsert_accounts_ok [OF d1(1) known_same [OF assms(2) d1(2)], of xs] obtain as d2 where
    2: "upsert_accounts c xs ?d1 = (Inr as, d2)" "sync_ok d2" "connections d2 = connections ?d1"
      "list_all2 (landed c) xs as" "others (conn_user c) d2 = others (conn_user c) ?d1"
      "\<And>b. b \<in> set (accounts d2) \<Longrightarrow> link_type b = Synced \<or> b \<in> set (accounts ?d1)"
      "distinct (map fa_external_id xs) \<Longrightarrow> set as \<subseteq> set (accounts d2)" by blast
  let ?d3 = "backfill pr (access_token c) (zip as xs) d2"
  note f = backfill_frame [of d2 pr "access_token c" "zip as xs"]
  have "apply_synced_accounts c xs pr d = (Inr as, ?d3)"
    using 2(1) by (simp add: apply_synced_accounts_def land_accounts_def Let_def)
  moreover have "\<not> shadowed (conn_user c) (fa_bank_name (hd xs)) b" if "xs \<noteq> []" "b \<in> set (accounts ?d3)" for b
  proof -
    have "b \<in> set (accounts d2)" using that(2) f by (simp add: bank_frame_def)
    from 2(6) [OF this] gone [OF that(1), of b] show ?thesis by (auto simp: shadowed_def)
  qed
  moreover have "accounts ?d3 = accounts d2" "connections ?d3 = connections d2" using f by (simp_all add: bank_frame_def)
  ultimately show ?thesis
    using 2 d1 d1o sync_ok_bank_frame [OF 2(2) f] others_frame [OF f] by (intro exI [of _ as] exI [of _ ?d3]) simp
qed


subsection \<open>The endpoints keep it\<close>

lemma list_ex_conn_clash:
  "\<not> connection_clash c cs \<Longrightarrow> x \<in> set cs \<Longrightarrow>
   \<not> (conn_status c = Linked \<and> conn_status x = Linked \<and> conn_user x = conn_user c \<and> provider_slug x = provider_slug c) \<and>
   \<not> (external_customer_id c \<noteq> None \<and> provider_slug x = provider_slug c \<and>
      external_customer_id x = external_customer_id c)"
  unfolding connection_clash_def list_ex_iff by blast

lemma save_connection_more [simp]:
  "accounts (save_connection c d) = accounts d" "txns (save_connection c d) = txns d"
  "uuid_src (save_connection c d) = uuid_src d" "draws (save_connection c d) = draws d"
  "connections (save_connection c d) = save_row conn_id c (connections d)"
  by (simp_all add: save_connection_def)

text \<open>Saving a connection under its own id, user and provider, where no constraint is met.\<close>

lemma save_connection_keeps:
  assumes "sync_ok d" "old \<in> set (connections d)" "conn_id c = conn_id old" "conn_user c = conn_user old"
    "\<not> connection_clash c (filter (\<lambda>x. conn_id x \<noteq> conn_id old) (connections d))"
  shows "sync_ok (save_connection c d)"
proof -
  have ok: "ledger_ok d" "conn_ok d" "fed_ok d" using assms(1) by (simp_all add: sync_ok_def)
  have no: "\<not> (conn_status c = Linked \<and> conn_status x = Linked \<and> conn_user x = conn_user c \<and> provider_slug x = provider_slug c)"
    "\<not> (external_customer_id c \<noteq> None \<and> provider_slug x = provider_slug c \<and> external_customer_id x = external_customer_id c)"
    if "x \<in> set (connections d)" "conn_id x \<noteq> conn_id c" for x
    using list_ex_conn_clash [OF assms(5), of x] that assms(3) by simp_all
  let ?cs = "save_row conn_id c (connections d)"
  have "key_unique conn_id (\<lambda>c. (conn_user c, provider_slug c)) (\<lambda>c. conn_status c = Linked) ?cs"
    using ok(2) no(1) unfolding conn_ok_def by (intro key_unique_save_row) auto
  moreover have "key_unique conn_id (\<lambda>c. (provider_slug c, external_customer_id c)) (\<lambda>c. external_customer_id c \<noteq> None) ?cs"
    using ok(2) no(2) unfolding conn_ok_def by (intro key_unique_save_row) auto
  ultimately have "conn_ok (save_connection c d)" using ok(2) by (simp add: conn_ok_def drawn_def)
  moreover have "ledger_ok (save_connection c d)" using quiet_keeps_ok [OF ok(1), of "save_connection c d"] by simp
  moreover have "fed_ok (save_connection c d)"
    unfolding fed_ok_def
  proof (intro conjI ballI allI impI)
    show "key_unique acc_id (\<lambda>a. (acc_connection a, external_account_id a)) (\<lambda>a. acc_connection a \<noteq> None)
        (accounts (save_connection c d))" using ok(3) by (simp add: fed_ok_def)
    fix a k assume a: "a \<in> set (accounts (save_connection c d))" "acc_connection a = Some k"
    then show "link_type a = Synced" using fed_okD(1) [OF ok(3), of a k] by simp
    from a fed_okD(2) [OF ok(3), of a k] obtain x where
      x: "x \<in> set (connections d)" "conn_id x = k" "conn_user x = acc_user a" by auto
    have "distinct (map conn_id (connections d))" using ok(2) by (simp add: conn_ok_def)
    from distinct_pkD [OF this x(1) assms(2)] x assms(3,4)
    have "(if conn_id x = conn_id c then c else x) \<in> set ?cs \<and>
        conn_id (if conn_id x = conn_id c then c else x) = k \<and>
        conn_user (if conn_id x = conn_id c then c else x) = acc_user a"
      by (auto simp: save_row_def)
    then show "\<exists>x \<in> set (connections (save_connection c d)). conn_id x = k \<and> conn_user x = acc_user a"
      unfolding save_connection_more by blast
  qed
  ultimately show ?thesis by (simp add: sync_ok_def)
qed

lemma add_connection_keeps:
  assumes "sync_ok d" "conn_id c = fresh d" "conn_status c \<noteq> Linked" "external_customer_id c = None"
  shows "sync_ok ((draw d)\<lparr>connections := connections d @ [c]\<rparr>)"
proof -
  let ?d = "(draw d)\<lparr>connections := connections d @ [c]\<rparr>"
  have ok: "ledger_ok d" "conn_ok d" "fed_ok d" using assms(1) by (simp_all add: sync_ok_def)
  have dr: "drawn d (map conn_id (connections d))" using ok(2) by (simp add: conn_ok_def)
  have "drawn ?d (map conn_id (connections d) @ [fresh d])" by (rule drawn_fresh [OF dr]) simp_all
  moreover have "key_unique conn_id (\<lambda>c. (conn_user c, provider_slug c)) (\<lambda>c. conn_status c = Linked) (connections d @ [c])"
    using ok(2) assms(3) unfolding conn_ok_def by (intro key_unique_append) auto
  moreover have "key_unique conn_id (\<lambda>c. (provider_slug c, external_customer_id c))
      (\<lambda>c. external_customer_id c \<noteq> None) (connections d @ [c])"
    using ok(2) assms(4) unfolding conn_ok_def by (intro key_unique_append) auto
  ultimately have "conn_ok ?d" using ok(2) fresh_not_drawn [OF dr] assms(2) by (simp add: conn_ok_def)
  moreover have "ledger_ok ?d" using quiet_keeps_ok [OF ok(1), of ?d] by simp
  moreover have "fed_ok ?d" using ok(3) unfolding fed_ok_def by auto
  ultimately show ?thesis by (simp add: sync_ok_def)
qed

lemma stays_unlinked: "sync_ok d \<Longrightarrow> c \<in> set (connections d) \<Longrightarrow> conn_status c' \<noteq> Linked \<Longrightarrow>
   provider_slug c' = provider_slug c \<Longrightarrow> external_customer_id c' = external_customer_id c \<Longrightarrow>
   \<not> connection_clash c' (filter (\<lambda>x. conn_id x \<noteq> conn_id c) (connections d))"
proof
  assume a: "sync_ok d" "c \<in> set (connections d)" "conn_status c' \<noteq> Linked"
    "provider_slug c' = provider_slug c" "external_customer_id c' = external_customer_id c"
    "connection_clash c' (filter (\<lambda>x. conn_id x \<noteq> conn_id c) (connections d))"
  then obtain x where x: "x \<in> set (connections d)" "conn_id x \<noteq> conn_id c" "external_customer_id c \<noteq> None"
    "provider_slug x = provider_slug c" "external_customer_id x = external_customer_id c"
    by (auto simp: connection_clash_def list_ex_iff)
  have "key_unique conn_id (\<lambda>c. (provider_slug c, external_customer_id c))
      (\<lambda>c. external_customer_id c \<noteq> None) (connections d)" using a(1) by (simp add: sync_ok_def conn_ok_def)
  from key_uniqueD [OF this x(1) a(2)] x show False by simp
qed


lemma initiate_keeps: "sync_ok d \<Longrightarrow> sync_ok (snd (initiate_connection st url u v d))"
proof (cases "\<exists>slug. v = Inr slug \<and> (\<exists>x. get_connector slug = Inr x)")
  case True
  assume ok: "sync_ok d"
  from True obtain slug where v: "v = Inr slug" "get_connector slug = Inr ()" by auto
  let ?mine = "filter (\<lambda>c. conn_user c = u \<and> provider_slug c = slug) (connections d)"
  show ?thesis
  proof (cases "first_pk conn_id ?mine")
    case None
    with v ok show ?thesis by (simp add: initiate_connection_def Let_def add_connection_keeps)
  next
    case (Some c)
    then have c: "c \<in> set (connections d)" by (auto dest: first_pk_in)
    let ?c = "c\<lparr>conn_status := Pending_otp, oauth_state := Some st, error_reason := None\<rparr>"
    have "sync_ok (save_connection ?c d)"
      by (rule save_connection_keeps [OF ok c]) (use stays_unlinked [OF ok c, of ?c] in simp_all)
    with v Some ok show ?thesis by (simp add: initiate_connection_def Let_def)
  qed
next
  case False
  assume "sync_ok d"
  with False show ?thesis by (auto simp: initiate_connection_def split: sum.splits)
qed

lemma mark_failed_keeps: "sync_ok d \<Longrightarrow> c \<in> set (connections d) \<Longrightarrow> sync_ok (mark_failed c e d)"
proof -
  assume ok: "sync_ok d" "c \<in> set (connections d)"
  let ?c = "c\<lparr>conn_status := Failed, error_reason := Some e, oauth_state := None\<rparr>"
  have "sync_ok (save_connection ?c d)"
    by (rule save_connection_keeps [OF ok]) (use stays_unlinked [OF ok, of ?c] in simp_all)
  then show ?thesis by (simp add: mark_failed_def)
qed

lemma link_connection_simps [simp]:
  "conn_id (link_connection now t c) = conn_id c" "conn_user (link_connection now t c) = conn_user c"
  "provider_slug (link_connection now t c) = provider_slug c" "oauth_state (link_connection now t c) = None"
  "conn_status (link_connection now t c) = Linked"
  by (simp_all add: link_connection_def)

text \<open>A callback that gets as far as the provider ends in one of these ways.\<close>

lemma callback_cases:
  assumes "by_pk conn_id (filter (\<lambda>c. conn_user c = u) (connections d)) k = Some c" "oauth_state c = Some st" "st \<noteq> []"
    "get_connector (provider_slug c) = Inr ()"
  obtains e where "connection_callback pr now u k (Inr (code, st)) d = (Inl connection_failed, mark_failed c e d)"
  | "connection_callback pr now u k (Inr (code, st)) d = (Inl (Unhandled ''IntegrityError''), d)"
  | t xs where "connection_callback pr now u k (Inr (code, st)) d =
      apply_synced_accounts (link_connection now t c) xs pr (save_connection (link_connection now t c) d)"
      "\<not> connection_clash (link_connection now t c) (filter (\<lambda>x. conn_id x \<noteq> conn_id c) (connections d))"
proof (cases "exchange_code_for_token pr code")
  case (Inl e)
  with assms that(1) show ?thesis by (simp add: connection_callback_def)
next
  case t: (Inr t)
  show ?thesis
  proof (cases "fetch_accounts pr (Some (tok_access t))")
    case (Inl e)
    with t assms that(1) show ?thesis by (simp add: connection_callback_def)
  next
    case (Inr xs)
    with t assms that(2) that(3) [of t xs] show ?thesis
      by (cases "connection_clash (link_connection now t c) (filter (\<lambda>x. conn_id x \<noteq> conn_id c) (connections d))")
        (simp_all add: connection_callback_def Let_def)
  qed
qed

lemma owned_connection:
  "by_pk conn_id (filter (\<lambda>c. conn_user c = u) (connections d)) k = Some c \<Longrightarrow>
   c \<in> set (connections d) \<and> conn_user c = u \<and> conn_id c = k"
  by (auto dest: by_pk_Some)

lemma known_saved: "c \<in> set (connections d) \<Longrightarrow> known (link_connection now t c) (save_connection (link_connection now t c) d)"
proof -
  assume "c \<in> set (connections d)"
  then have "link_connection now t c \<in> set (connections (save_connection (link_connection now t c) d))"
    by (auto simp: save_row_def)
  then show ?thesis unfolding known_def by blast
qed

lemma callback_keeps: "sync_ok d \<Longrightarrow> sync_ok (snd (connection_callback pr now u k v d))"
proof (cases "\<exists>c code st. by_pk conn_id (filter (\<lambda>c. conn_user c = u) (connections d)) k = Some c \<and>
    v = Inr (code, st) \<and> oauth_state c = Some st \<and> st \<noteq> [] \<and> get_connector (provider_slug c) = Inr ()")
  case True
  assume ok: "sync_ok d"
  from True obtain c code st where *: "by_pk conn_id (filter (\<lambda>c. conn_user c = u) (connections d)) k = Some c"
    "oauth_state c = Some st" "st \<noteq> []" "get_connector (provider_slug c) = Inr ()" and v: "v = Inr (code, st)" by blast
  note c = owned_connection [OF *(1), THEN conjunct1]
  show ?thesis unfolding v
  proof (rule callback_cases [OF *, of pr now code])
    fix e assume "connection_callback pr now u k (Inr (code, st)) d = (Inl connection_failed, mark_failed c e d)"
    with mark_failed_keeps [OF ok c] show "sync_ok (snd (connection_callback pr now u k (Inr (code, st)) d))" by simp
  next
    assume "connection_callback pr now u k (Inr (code, st)) d = (Inl (Unhandled ''IntegrityError''), d)"
    with ok show "sync_ok (snd (connection_callback pr now u k (Inr (code, st)) d))" by simp
  next
    fix t xs
    let ?c = "link_connection now t c"
    assume eq: "connection_callback pr now u k (Inr (code, st)) d = apply_synced_accounts ?c xs pr (save_connection ?c d)"
      and nc: "\<not> connection_clash ?c (filter (\<lambda>x. conn_id x \<noteq> conn_id c) (connections d))"
    have "sync_ok (save_connection ?c d)" by (rule save_connection_keeps [OF ok c _ _ nc]) simp_all
    from apply_synced_ok [OF this known_saved [OF c], of xs pr] eq
    show "sync_ok (snd (connection_callback pr now u k (Inr (code, st)) d))" by auto
  qed
next
  case False
  assume "sync_ok d"
  moreover from False have "snd (connection_callback pr now u k v d) = d"
    by (auto simp: connection_callback_def split: option.splits sum.splits prod.splits)
  ultimately show ?thesis by simp
qed

lemma enqueue_keeps: "sync_ok d \<Longrightarrow> sync_ok (enqueue t d)"
  by (erule sync_ok_bank_frame) (simp add: bank_frame_def)

lemma discover_keeps: "sync_ok d \<Longrightarrow> sync_ok (snd (discover_account pr p d))"
proof -
  assume ok: "sync_ok d"
  have "sync_ok (snd (apply_synced_accounts c xs pr d))" if "c \<in> set (connections d)" for c xs
  proof -
    have "known c d" using that unfolding known_def by blast
    from apply_synced_ok [OF ok this, of xs pr] show ?thesis by auto
  qed
  then have applied: "sync_ok d'" if "filter P (connections d) = [c]" "apply_synced_accounts c xs pr d = (r, d')" for P c xs r d'
    using that by (metis filter_is_subset list.set_intros(1) snd_conv subsetD)
  show ?thesis unfolding discover_account_def using ok
    by (simp split: list.split sum.split prod.split option.split) (blast intro: applied)
qed

lemma webhook_keeps: "sync_ok d \<Longrightarrow> sync_ok (snd (bank_sync_webhook secret pr provided v d))"
proof -
  assume ok: "sync_ok d"
  have found: "sync_ok d'" if "discover_account pr p d = (r, d')" for p r d'
    using discover_keeps [OF ok, of pr p] that by simp
  show ?thesis unfolding bank_sync_webhook_def using ok
    by (simp split: sum.split option.split prod.split) (blast intro: found enqueue_keeps)
qed


subsection \<open>All the ways the ledger and the connections change\<close>

inductive bank_step :: "db \<Rightarrow> db \<Rightarrow> bool" where
  user_request: "bank_step d (ledger_step uop d)"
| initiate: "bank_step d (snd (initiate_connection st url u v d))"
| callback: "bank_step d (snd (connection_callback pr now u k v d))"
| webhook: "bank_step d (snd (bank_sync_webhook secret pr provided v d))"
| ingest: "bank_step d (run_ingest_message analyse pick now i d)"

lemma ledger_step_connections: "connections (ledger_step uop d) = connections d"
proof (cases uop)
  case (Pair u op)
  show ?thesis
  proof (cases op)
    case (Bulk_delete_txns v)
    have "connections (bulk_db s') = connections (bulk_db s)" if "bulk_delete_loop u d0 ks s = Inr s'" for d0 ks s s'
    proof -
      have "connections (fold delete_txn xs d1) = connections d1" for xs d1
        by (induction xs arbitrary: d1) (auto simp: delete_txn_def)
      then show ?thesis using bulk_loop_result [OF that] by simp
    qed
    then show ?thesis by (auto simp: Pair Bulk_delete_txns bulk_delete_transactions_def split: sum.splits)
  qed (auto simp: Pair post_transaction_def insert_txn_def embed_best_effort_def patch_transaction_def
      save_patched_def delete_transaction_def delete_txn_def post_account_def patch_account_def
      delete_account_def delete_account_row_def Let_def split: option.splits sum.splits)
qed

lemma fed_ok_unlinked: "fed_ok d \<Longrightarrow> manual_unlinked d"
  unfolding manual_unlinked_def by (auto dest: fed_okD)

lemma ledger_step_sync_ok:
  assumes "sync_ok d"
  shows "sync_ok (ledger_step uop d)"
proof (cases uop)
  case (Pair u op)
  have ok: "ledger_ok d" "conn_ok d" "fed_ok d" using assms by (simp_all add: sync_ok_def)
  let ?d = "ledger_step uop d"
  have m: "ledger_moves u d ?d" unfolding Pair by (rule ledger_step_moves [OF ok(1)])
  note k = moves_keep [OF m ok(1)]
  have un: "manual_unlinked ?d" by (rule moves_keep_unlinked [OF m fed_ok_unlinked [OF ok(3)]])
  have linked: "a \<in> set (accounts d)" if "a \<in> set (accounts ?d)" "acc_connection a \<noteq> None" for a
  proof -
    have "a \<in> set (synced_accounts ?d)" using that un by (simp add: synced_accounts_def manual_unlinked_def)
    with k have "a \<in> set (synced_accounts d)" by simp
    then show ?thesis by (simp add: synced_accounts_def)
  qed
  have "key_unique acc_id (\<lambda>a. (acc_connection a, external_account_id a)) (\<lambda>a. acc_connection a \<noteq> None) (accounts ?d)"
    using ok(3) linked unfolding fed_ok_def key_unique_def by blast
  moreover have "link_type a = Synced \<and> (\<exists>c \<in> set (connections ?d). conn_id c = j \<and> conn_user c = acc_user a)"
    if "a \<in> set (accounts ?d)" "acc_connection a = Some j" for a j
    using fed_okD [OF ok(3), of a j] linked [of a] that by (simp add: ledger_step_connections)
  ultimately have "fed_ok ?d" unfolding fed_ok_def by blast
  moreover have "uuid_src ?d = uuid_src d \<and> draws d \<le> draws ?d" using m
    by (induction rule: rtranclp_induct) (auto elim!: ledger_change.cases)
  then have "conn_ok ?d" using conn_ok_quiet [OF ok(2), of ?d] by (simp add: ledger_step_connections)
  ultimately show ?thesis using k by (simp add: sync_ok_def)
qed

lemma bank_step_keeps: "bank_step d d' \<Longrightarrow> sync_ok d \<Longrightarrow> sync_ok d'"
  by (induction rule: bank_step.induct)
    (simp_all add: ledger_step_sync_ok initiate_keeps callback_keeps webhook_keeps run_ingest_keeps)

text \<open>C9. In every interleaving of the users' ledger requests, bank links, callbacks, pushes
  from the bank and ingestion tasks: the ledger's invariant holds, a user has at most one
  linked connection per provider, a bank customer belongs to at most one connection, and an
  account hangs on a connection only as a synced account of that connection's user, once per
  external account.\<close>

theorem bank_link_invariant:
  assumes "sync_ok d" "bank_step\<^sup>*\<^sup>* d d'"
  shows "sync_ok d'"
  using assms(2,1) by (induction rule: rtranclp_induct) (auto intro: bank_step_keeps)

definition sample_provider :: provider where
  "sample_provider = \<lparr>post_token = (\<lambda>code. if code = ''good'' then
       Inr (Some \<lparr>rt_access = Some ''tok'', rt_refresh = None, rt_customer = Some ''c-1'',
         rt_email = Some ''a@b.eg'', rt_phone = Some ''+20'', rt_name = None\<rparr>)
       else Inl ''bad code''),
     fetch_accounts = (\<lambda>t. Inr [\<lparr>fa_external_id = ''x-1'', fa_bank_name = ''nbe'', fa_type = None,
       fa_number = ''1000'', fa_currency = None\<rparr>]),
     fetch_transactions = (\<lambda>t x. Inr [])\<rparr>"

lemma sync_ok_unlinked:
  assumes "ledger_ok d" "connections d = []" "\<forall>a \<in> set (accounts d). acc_connection a = None"
  shows "sync_ok d"
proof -
  have "inj (uuid_src d)" using ledger_okD(1) [OF assms(1)] by (simp add: drawn_def)
  with assms show ?thesis by (simp add: sync_ok_def conn_ok_def fed_ok_def key_unique_def drawn_def)
qed


definition sample_pending :: db where
  "sample_pending = snd (initiate_connection ''st'' id 1 (Inr ''mock_bank'') sample_ledger)"

lemma sample_pending_ok: "sync_ok sample_pending"
  unfolding sample_pending_def
  by (rule initiate_keeps, rule sync_ok_unlinked [OF sample_ledger_ok])
    (simp_all add: sample_ledger_def empty_db_def sample_account_def)

theorem bank_link_invariant_witness:
  "sync_ok (snd (connection_callback sample_provider 9 1 100 (Inr (''good'', ''st'')) sample_pending))"
  by (rule bank_link_invariant [OF sample_pending_ok], rule r_into_rtranclp, rule bank_step.callback)

text \<open>C11. Linking makes the bank the only source of its accounts: under the invariant landing
  the provider's account list always succeeds; every account of the list is then a synced
  account of the connection's user carrying the bank's data; no manual account of that user
  is left under the bank's name; and the accounts of every other user are what they were.\<close>

theorem bank_becomes_source_of_truth:
  assumes "sync_ok d" "c \<in> set (connections d)" "x # xs = feed" "distinct (map fa_external_id feed)"
  shows "\<exists>as d'. apply_synced_accounts c feed pr d = (Inr as, d') \<and>
     list_all2 (landed c) feed as \<and> set as \<subseteq> set (accounts d') \<and>
     (\<forall>a \<in> set (accounts d'). acc_user a = conn_user c \<and> str_lower (bank_name a) = str_lower (fa_bank_name x) \<longrightarrow>
        link_type a = Synced) \<and>
     (\<exists>m. assert_bank_not_already_synced (conn_user c) (fa_bank_name x) d' =
        Inl (BusinessRuleError m ''bank_account_source_of_truth'' None)) \<and>
     filter (\<lambda>a. acc_user a \<noteq> conn_user c) (accounts d') = filter (\<lambda>a. acc_user a \<noteq> conn_user c) (accounts d)"
proof -
  have "known c d" using assms(2) unfolding known_def by blast
  from apply_synced_ok [OF assms(1) this, of feed pr] assms(3,4) obtain as d' where
    *: "apply_synced_accounts c feed pr d = (Inr as, d')" "list_all2 (landed c) feed as" "set as \<subseteq> set (accounts d')"
      "others (conn_user c) d' = others (conn_user c) d"
      "\<forall>b \<in> set (accounts d'). \<not> shadowed (conn_user c) (fa_bank_name x) b" by auto
  have "link_type a = Synced" if "a \<in> set (accounts d')" "acc_user a = conn_user c"
    "str_lower (bank_name a) = str_lower (fa_bank_name x)" for a
    using *(5) that by (cases "link_type a") (auto simp: shadowed_def)
  moreover obtain a where a: "a \<in> set as" "landed c x a"
    using *(2) assms(3) [symmetric] by (cases as) auto
  then have "list_ex (\<lambda>a. acc_user a = conn_user c \<and> link_type a = Synced \<and>
      str_lower (bank_name a) = str_lower (fa_bank_name x)) (accounts d')"
    unfolding list_ex_iff using *(3) by (intro bexI [of _ a]) (auto simp: landed_def)
  then have "\<exists>m. assert_bank_not_already_synced (conn_user c) (fa_bank_name x) d' =
      Inl (BusinessRuleError m ''bank_account_source_of_truth'' None)"
    by (simp add: assert_bank_not_already_synced_def guard_res_def)
  ultimately show ?thesis using * unfolding others_def by blast
qed

definition sample_connection :: connection where
  "sample_connection = \<lparr>conn_id = 100, conn_user = 1, provider_slug = ''mock_bank'', conn_status = Pending_otp,
     external_customer_id = None, access_token = None, refresh_token = None, oauth_state = Some ''st'',
     error_reason = None, linked_at = None\<rparr>"

lemma sample_pending_connections: "connections sample_pending = [sample_connection]"
  by (simp add: sample_pending_def initiate_connection_def get_connector_def REGISTRY_def guard_res_def
      sample_ledger_def empty_db_def fresh_def sample_connection_def Let_def)

theorem bank_becomes_source_of_truth_witness:
  "\<exists>as d'. apply_synced_accounts sample_connection
     [\<lparr>fa_external_id = ''x-1'', fa_bank_name = ''nbe'', fa_type = None, fa_number = ''1000'', fa_currency = None\<rparr>]
     sample_provider sample_pending = (Inr as, d') \<and>
   (\<forall>a \<in> set (accounts d'). acc_user a = 1 \<and> str_lower (bank_name a) = ''nbe'' \<longrightarrow> link_type a = Synced)"
proof -
  have "str_lower ''nbe'' = ''nbe''" by code_simp
  moreover have "sample_connection \<in> set (connections sample_pending)" by (simp add: sample_pending_connections)
  ultimately show ?thesis
    using bank_becomes_source_of_truth [OF sample_pending_ok, of sample_connection
      "\<lparr>fa_external_id = ''x-1'', fa_bank_name = ''nbe'', fa_type = None, fa_number = ''1000'', fa_currency = None\<rparr>"
      "[]" _ sample_provider]
    by (auto simp: sample_connection_def)
qed

theorem feed_ingested_once_witness:
  "\<exists>new. txns (snd (ingest_synced_transactions (\<lambda>u a m. Inr []) id 9 11 [\<lparr>feed_external_id = None,
      feed_date = Some (Date 2026 7 1), feed_merchant = Some ''Cafe'', feed_amount = 3, feed_type = Some ''debit'',
      feed_currency = None, feed_balance = None\<rparr>] sample_ledger)) = txns sample_ledger @ new \<and>
    ledger_key ` set new = {(1, 11, Date 2026 7 1, 3, Some ''Cafe'', Some ''debit'')}"
proof -
  let ?f = "\<lparr>feed_external_id = None, feed_date = Some (Date 2026 7 1), feed_merchant = Some ''Cafe'',
      feed_amount = 3, feed_type = Some ''debit'', feed_currency = None, feed_balance = None\<rparr> :: feed_txn"
  have acct: "by_pk acc_id (accounts sample_ledger) 11 = Some (sample_account 11 1 Synced)"
    by (simp add: sample_ledger_def sample_account_def by_pk_Cons)
  have keys: "ledger_key ` set (txns sample_ledger) =
      {(1, 10, Date 2026 7 20, 5, Some ''Shop'', Some ''debit''), (1, 11, Date 2026 7 21, 7, Some ''Shop'', Some ''debit''),
       (2, 12, Date 2026 7 22, 9, Some ''Shop'', Some ''debit'')}"
    by (auto simp: sample_ledger_def sample_txn_def ledger_key_def)
  obtain new where
    "txns (snd (ingest_synced_transactions (\<lambda>u a m. Inr []) id 9 11 [?f] sample_ledger)) = txns sample_ledger @ new"
    "ledger_key ` set new = (\<lambda>f. feed_key (sample_account 11 1 Synced) (the (feed_date f)) f) ` set [?f] -
       ledger_key ` set (txns sample_ledger)"
    using feed_ingested_once [OF acct, of "[?f]" "\<lambda>u a m. Inr []" id 9 "\<lambda>u a m. Inr []" id 9] by (simp del: One_nat_def) blast
  then show ?thesis unfolding keys by (intro exI [of _ new]) (simp add: feed_key_def sample_account_def)
qed

text \<open>An OAuth state is good for one callback: once a callback with the right state has run,
  whether it linked the bank or failed at the provider, every later callback on that
  connection, with any code or state, is refused and changes nothing. The one exception is a
  callback that met a uniqueness constraint, which left everything as it was.\<close>

theorem callback_state_single_use:
  assumes "by_pk conn_id (filter (\<lambda>c. conn_user c = u) (connections d)) k = Some c" "sync_ok d"
    "oauth_state c = Some st" "st \<noteq> []" "get_connector (provider_slug c) = Inr ()"
  shows "let r = connection_callback pr now u k (Inr (code, st)) d in
    r = (Inl (Unhandled ''IntegrityError''), d) \<or>
    (\<forall>pr' now' code' st'. \<exists>m. connection_callback pr' now' u k (Inr (code', st')) (snd r) =
        (Inl (BusinessRuleError m ''invalid_oauth_state'' None), snd r))"
proof -
  let ?r = "connection_callback pr now u k (Inr (code, st)) d"
  note c = owned_connection [OF assms(1)]
  have refused: "\<exists>m. connection_callback pr' now' u k (Inr (code', st')) d' =
      (Inl (BusinessRuleError m ''invalid_oauth_state'' None), d')"
    if "connections d' = save_row conn_id c' (connections d)" "conn_id c' = k" "conn_user c' = u" "oauth_state c' = None"
    for c' d' pr' now' code' st'
  proof -
    have "by_pk conn_id (filter (\<lambda>c. conn_user c = u) (connections d')) k = Some c'"
      unfolding that(1)
    proof (rule by_pk_filter_save)
      show "k \<in> conn_id ` set (connections d)" using c by blast
    qed (use that in auto)
    with that(4) show ?thesis by (simp add: connection_callback_def)
  qed
  show ?thesis unfolding Let_def
  proof (rule callback_cases [OF assms(1,3-5), of pr now code])
    fix e assume "?r = (Inl connection_failed, mark_failed c e d)"
    then show "?r = (Inl (Unhandled ''IntegrityError''), d) \<or> (\<forall>pr' now' code' st'. \<exists>m.
        connection_callback pr' now' u k (Inr (code', st')) (snd ?r) = (Inl (BusinessRuleError m ''invalid_oauth_state'' None), snd ?r))"
      using c refused [of "mark_failed c e d"] by (simp add: mark_failed_def)
  next
    fix t xs
    let ?c = "link_connection now t c"
    assume eq: "?r = apply_synced_accounts ?c xs pr (save_connection ?c d)"
      and nc: "\<not> connection_clash ?c (filter (\<lambda>x. conn_id x \<noteq> conn_id c) (connections d))"
    have "sync_ok (save_connection ?c d)" by (rule save_connection_keeps [OF assms(2) _ _ _ nc]) (use c in simp_all)
    from apply_synced_ok [OF this known_saved, of xs pr] c have "connections (snd ?r) = save_row conn_id ?c (connections d)"
      unfolding eq by auto
    then show "?r = (Inl (Unhandled ''IntegrityError''), d) \<or> (\<forall>pr' now' code' st'. \<exists>m.
        connection_callback pr' now' u k (Inr (code', st')) (snd ?r) = (Inl (BusinessRuleError m ''invalid_oauth_state'' None), snd ?r))"
      using c refused [of "snd ?r" ?c] by simp
  qed simp
qed

theorem callback_state_single_use_witness:
  "let r = connection_callback sample_provider 9 1 100 (Inr (''bad'', ''st'')) sample_pending in
    r = (Inl (Unhandled ''IntegrityError''), sample_pending) \<or>
    (\<forall>pr' now' code' st'. \<exists>m. connection_callback pr' now' 1 100 (Inr (code', st')) (snd r) =
        (Inl (BusinessRuleError m ''invalid_oauth_state'' None), snd r))"
  by (rule callback_state_single_use [of 1 sample_pending 100 sample_connection])
    (simp_all add: sample_pending_ok sample_pending_connections sample_connection_def by_pk_Cons get_connector_def
      REGISTRY_def guard_res_def)

end
