(* ===== verification/Analytics.thy ===== *)
theory Analytics
  imports Ledger_Laws
begin

text \<open>
  The read side of the ledger: core/filters/aggregations.py and the analytics endpoints of
  core/views/aggregations.py. Sums are the database's (exact); what Python does with them
  afterwards is rounded where Python rounds: \<open>dec\<close> for \<open>Decimal\<close>, \<open>flt\<close> for \<open>float\<close>.
\<close>

subsection \<open>Listing transactions\<close>

datatype flow = Income | Expense

record txn_filter =
  tf_account :: "uuid option"
  tf_category :: "string option"
  tf_flow :: "flow option"
  tf_search :: "string option"
  tf_min :: "rat option"
  tf_max :: "rat option"
  tf_source :: "string option"
  tf_recurring :: "bool option"
  tf_type :: "string option"
  tf_from :: "date option"
  tf_to :: "date option"

definition wants :: "'v option \<Rightarrow> ('v \<Rightarrow> bool) \<Rightarrow> bool" where
  "wants p test = case_option True test p"

definition category_name_of :: "db \<Rightarrow> txn \<Rightarrow> string option" where
  "category_name_of d t = map_option cat_name (Option.bind (txn_category t) (by_pk cat_id (categories d)))"

definition has_type :: "string list \<Rightarrow> txn \<Rightarrow> bool" where
  "has_type ts t \<longleftrightarrow> (case transaction_type t of None \<Rightarrow> False | Some ty \<Rightarrow> ty \<in> set ts)"

definition icontains :: "string \<Rightarrow> string option \<Rightarrow> bool" where
  "icontains v s = (case s of None \<Rightarrow> False | Some x \<Rightarrow> str_in (str_lower v) (str_lower x))"

fun filter_type :: "flow \<Rightarrow> txn \<Rightarrow> bool" where
  "filter_type Income t = has_type [''credit''] t"
| "filter_type Expense t = has_type [''debit'', ''fee'', ''transfer''] t"

definition matches_filter :: "db \<Rightarrow> txn_filter \<Rightarrow> txn \<Rightarrow> bool" where
  "matches_filter d f t \<longleftrightarrow>
     wants (tf_account f) (\<lambda>a. txn_account t = a) \<and>
     wants (tf_category f) (\<lambda>c. map_option str_lower (category_name_of d t) = Some (str_lower c)) \<and>
     wants (tf_flow f) (\<lambda>x. filter_type x t) \<and>
     wants (tf_search f) (\<lambda>v. icontains v (merchant_raw t) \<or> icontains v (merchant_normalized t)) \<and>
     wants (tf_min f) (\<lambda>x. x \<le> amount t) \<and> wants (tf_max f) (\<lambda>x. amount t \<le> x) \<and>
     wants (tf_source f) (\<lambda>s. source t = s) \<and> wants (tf_recurring f) (\<lambda>b. is_recurring t = b) \<and>
     wants (tf_type f) (\<lambda>ty. transaction_type t = Some ty) \<and>
     wants (tf_from f) (\<lambda>x. x \<le> transaction_date t) \<and> wants (tf_to f) (\<lambda>x. transaction_date t \<le> x)"

text \<open>The default order, \<open>("-transaction_date", "-created_at")\<close>: latest first.\<close>

fun insert_latest :: "txn \<Rightarrow> txn list \<Rightarrow> txn list" where
  "insert_latest t [] = [t]"
| "insert_latest t (s # ss) = (if later s t then s # insert_latest t ss else t # s # ss)"

definition latest_first :: "txn list \<Rightarrow> txn list" where
  "latest_first ts = foldr insert_latest ts []"

definition list_transactions :: "uuid \<Rightarrow> txn_filter \<Rightarrow> db \<Rightarrow> txn list" where
  "list_transactions u f d = latest_first (filter (\<lambda>t. txn_user t = u \<and> matches_filter d f t) (txns d))"

text \<open>\<open>TransactionOrderingFilter.filter\<close>: sorting by date without \<open>created_at\<close> gets it as a
  tie-breaker in the same direction.\<close>

definition lstrip_minus :: "string \<Rightarrow> string" where
  "lstrip_minus s = dropWhile (\<lambda>c. c = CHR ''-'') s"

definition transaction_ordering :: "string list \<Rightarrow> string list" where
  "transaction_ordering fs =
     (case List.find (\<lambda>f. lstrip_minus f = ''transaction_date'') fs of
        None \<Rightarrow> fs
      | Some f \<Rightarrow>
          if list_ex (\<lambda>g. lstrip_minus g = ''created_at'') fs then fs
          else fs @ [(if take 1 f = ''-'' then ''-'' else []) @ ''created_at''])"

subsection \<open>Monthly summaries\<close>

text \<open>\<open>.values(k).annotate(total=Sum("amount"))\<close>: one group per key.\<close>

definition group_totals :: "('r \<Rightarrow> 'k) \<Rightarrow> ('r \<Rightarrow> rat) \<Rightarrow> 'r list \<Rightarrow> ('k \<times> rat) list" where
  "group_totals f v rs = map (\<lambda>k. (k, sum_of v (\<lambda>r. f r = k) rs)) (remdups (map f rs))"

definition month_of :: "txn \<Rightarrow> int \<times> int" where
  "month_of t = (year (transaction_date t), month (transaction_date t))"

definition month_index :: "int \<times> int \<Rightarrow> int" where
  "month_index ym = 12 * fst ym + snd ym"

definition months_desc :: "txn list \<Rightarrow> (int \<times> int) list" where
  "months_desc ts = rev (sort_key month_index (remdups (map month_of ts)))"

definition spend :: "txn list \<Rightarrow> rat" where
  "spend ts = sum_of amount (has_type [''debit'', ''fee'']) ts"

definition inflow :: "txn list \<Rightarrow> rat" where
  "inflow ts = sum_of amount (has_type [''credit'']) ts"

definition category_totals :: "db \<Rightarrow> txn list \<Rightarrow> (string option \<times> rat) list" where
  "category_totals d ts = group_totals (category_name_of d) amount (filter (\<lambda>t. txn_category t \<noteq> None) ts)"

definition by_total_desc :: "('k \<times> rat) list \<Rightarrow> ('k \<times> rat) list" where
  "by_total_desc gs = sort_key (\<lambda>g. - snd g) gs"

text \<open>\<open>row["merchant_normalized"] or row["merchant_raw"]\<close>.\<close>

definition merchant_shown :: "string option \<times> string option \<Rightarrow> string option" where
  "merchant_shown p = (case fst p of None \<Rightarrow> snd p | Some m \<Rightarrow> if m = [] then snd p else Some m)"

definition top_merchants :: "txn list \<Rightarrow> (string option \<times> rat) list" where
  "top_merchants ts = map (\<lambda>(p, x). (merchant_shown p, x)) (take 5 (by_total_desc
     (group_totals (\<lambda>t. (merchant_normalized t, merchant_raw t)) amount (filter (\<lambda>t. merchant_raw t \<noteq> None) ts))))"

record month_summary =
  ms_month :: "int \<times> int"
  ms_account :: "uuid option"
  ms_spend :: rat
  ms_inflow :: rat
  ms_categories :: "(string option \<times> rat) list"
  ms_merchants :: "(string option \<times> rat) list"

definition summary_of :: "db \<Rightarrow> uuid option \<Rightarrow> txn list \<Rightarrow> int \<times> int \<Rightarrow> month_summary" where
  "summary_of d acct ts ym =
     (let rows = filter (\<lambda>t. month_of t = ym) ts
      in \<lparr>ms_month = ym, ms_account = acct, ms_spend = spend rows, ms_inflow = inflow rows,
          ms_categories = category_totals d rows, ms_merchants = top_merchants rows\<rparr>)"

definition year_ok :: "int \<Rightarrow> bool" where
  "year_ok y \<longleftrightarrow> 1 \<le> y \<and> y \<le> 9999"

text \<open>\<open>parse_date\<close> is Django's reading of a date string; what it cannot read is its own
  \<open>ValidationError\<close>, which nothing handles. A bad \<open>to\<close> is a \<open>ValueError\<close>.\<close>

definition from_bound :: "(string \<Rightarrow> date option) \<Rightarrow> string option \<Rightarrow> exc + date option" where
  "from_bound parse_date p =
     (case p of
        None \<Rightarrow> Inr None
      | Some s \<Rightarrow> if s = [] then Inr None
          else (case parse_date (s @ ''-01'') of
                  None \<Rightarrow> Inl (Unhandled ''ValidationError'')
                | Some x \<Rightarrow> Inr (Some x)))"

definition to_bound :: "string option \<Rightarrow> exc + date option" where
  "to_bound p =
     (case p of
        None \<Rightarrow> Inr None
      | Some s \<Rightarrow> if s = [] then Inr None
          else (case parse_period s of
                  None \<Rightarrow> Inl (Unhandled ''ValueError'')
                | Some (y, m) \<Rightarrow>
                    if 1 \<le> m \<and> m \<le> 12 \<and> year_ok y then Inr (Some (Date y m (days_in_month y m)))
                    else Inl (Unhandled ''ValueError'')))"

definition summary_rows :: "uuid \<Rightarrow> uuid option \<Rightarrow> date option \<Rightarrow> date option \<Rightarrow> db \<Rightarrow> txn list" where
  "summary_rows u acct lo hi d = filter (\<lambda>t. txn_user t = u \<and> wants acct (\<lambda>a. txn_account t = a) \<and>
     wants lo (\<lambda>x. x \<le> transaction_date t) \<and> wants hi (\<lambda>x. transaction_date t \<le> x)) (txns d)"

definition monthly_summaries ::
  "(string \<Rightarrow> date option) \<Rightarrow> uuid \<Rightarrow> uuid option \<Rightarrow> string option \<Rightarrow> string option \<Rightarrow> db \<Rightarrow> exc + month_summary list"
where
  "monthly_summaries parse_date u acct from_p to_p d =
     res_bind (from_bound parse_date from_p) (\<lambda>lo. res_bind (to_bound to_p) (\<lambda>hi.
       let ts = summary_rows u acct lo hi d in Inr (map (summary_of d acct ts) (months_desc ts))))"

subsection \<open>Category breakdown\<close>

fun dec_sum :: "rat \<Rightarrow> rat list \<Rightarrow> rat" where
  "dec_sum acc [] = acc"
| "dec_sum acc (x # xs) = dec_sum (dec (acc + x)) xs"

text \<open>\<open>round(float(part / whole * 100), 2)\<close>.\<close>

definition percent_of :: "rat \<Rightarrow> rat \<Rightarrow> rat" where
  "percent_of part whole = flt (dec (dec (part / whole) * 100))"

record breakdown_item =
  bi_category :: "string option"
  bi_amount :: rat
  bi_percentage :: rat

definition breakdown_of :: "(string option \<times> rat) list \<Rightarrow> breakdown_item list" where
  "breakdown_of rows =
     (let total = dec_sum 0 (map snd rows)
      in map (\<lambda>(c, x). \<lparr>bi_category = c, bi_amount = x,
           bi_percentage = (if total \<noteq> 0 then py_round 2 (percent_of x total) else 0)\<rparr>) rows)"

definition category_breakdown ::
  "uuid \<Rightarrow> string option \<Rightarrow> uuid option \<Rightarrow> db \<Rightarrow> exc + string \<times> breakdown_item list" where
  "category_breakdown u period acct d =
     (case period of
        None \<Rightarrow> Inl (ValidationError (Dict [(''period'', Str ''This field is required, e.g. 2026-07.'')]))
      | Some p \<Rightarrow>
          if p = [] then Inl (ValidationError (Dict [(''period'', Str ''This field is required, e.g. 2026-07.'')]))
          else
           (case parse_period p of
              None \<Rightarrow> Inl (ValidationError (Dict [(''period'', Str ''Expected format YYYY-MM.'')]))
            | Some (y, m) \<Rightarrow>
                if \<not> year_ok y then Inl (Unhandled ''ValueError'')
                else
                  let rows = filter (\<lambda>t. txn_user t = u \<and> month_of t = (y, m) \<and>
                               wants acct (\<lambda>a. txn_account t = a)) (txns d)
                  in Inr (p, breakdown_of (by_total_desc (category_totals d rows)))))"

subsection \<open>Anomalies\<close>

definition list_anomalies :: "uuid \<Rightarrow> uuid option \<Rightarrow> string option \<Rightarrow> bool option \<Rightarrow> db \<Rightarrow> anomaly list" where
  "list_anomalies u acct sev res d = filter (\<lambda>f. an_user f = u \<and> wants acct (\<lambda>a. an_account f = Some a) \<and>
     wants sev (\<lambda>s. severity f = s) \<and> wants res (\<lambda>b. resolved f = b)) (anomalies d)"

text \<open>The body may leave \<open>resolved\<close> out (\<open>partial=True\<close>).\<close>

definition resolve_anomaly :: "uuid \<Rightarrow> uuid \<Rightarrow> detail + bool option \<Rightarrow> db \<Rightarrow> anomaly response" where
  "resolve_anomaly u k validated d =
     (case by_pk an_id (filter (\<lambda>f. an_user f = u) (anomalies d)) k of
        None \<Rightarrow> (Inl (Http404 ''No AnomalyFlag matches the given query.''), d)
      | Some f \<Rightarrow>
         (case validated of
            Inl es \<Rightarrow> (Inl (ValidationError es), d)
          | Inr r \<Rightarrow> let f' = f\<lparr>resolved := case_option (resolved f) id r\<rparr>
                     in (Inr f', d\<lparr>anomalies := save_row an_id f' (anomalies d)\<rparr>)))"

subsection \<open>Net worth\<close>

definition active_accounts :: "uuid \<Rightarrow> db \<Rightarrow> bank_account list" where
  "active_accounts u d = filter (\<lambda>a. acc_user a = u \<and> is_active a) (accounts d)"

definition net_worth :: "uuid \<Rightarrow> db \<Rightarrow> rat \<times> (uuid \<times> string \<times> rat) list" where
  "net_worth u d =
     (let per = map (\<lambda>a. (acc_id a, bank_name a, current_balance (acc_id a) (txns d))) (active_accounts u d)
      in (dec_sum 0 (map (snd \<circ> snd) per), per))"

subsection \<open>The stability score\<close>

text \<open>
  Python 3.12's \<open>sum\<close> of floats carries the rounding error along (Neumaier).
\<close>

fun float_sum :: "rat \<Rightarrow> rat \<Rightarrow> rat list \<Rightarrow> rat" where
  "float_sum hi lo [] = (if lo \<noteq> 0 then flt (hi + lo) else hi)"
| "float_sum hi lo (x # xs) =
     (let t = flt (hi + x)
      in float_sum t (flt (lo + (if \<bar>x\<bar> \<le> \<bar>hi\<bar> then flt (flt (hi - t) + x) else flt (flt (x - t) + hi)))) xs)"

definition monthly_inflows :: "uuid \<Rightarrow> db \<Rightarrow> rat list" where
  "monthly_inflows u d =
     (let rows = filter (\<lambda>t. txn_user t = u \<and> has_type [''credit''] t) (txns d)
      in map (\<lambda>ym. sum_of amount (\<lambda>t. month_of t = ym) rows) (take 6 (months_desc rows)))"

text \<open>\<open>pow\<close> is the C library's power function on floats, which is not correctly rounded
  everywhere.\<close>

definition variation :: "(rat \<Rightarrow> rat \<Rightarrow> rat) \<Rightarrow> rat list \<Rightarrow> rat" where
  "variation pow xs =
     (let n = of_nat (length xs);
          mean = flt (float_sum 0 0 xs / n);
          var = flt (float_sum 0 0 (map (\<lambda>a. pow (flt (a - mean)) 2) xs) / n)
      in if mean \<noteq> 0 then flt (pow var (1/2) / mean) else 1)"

definition compute_stability_score :: "(rat \<Rightarrow> rat \<Rightarrow> rat) \<Rightarrow> uuid \<Rightarrow> db \<Rightarrow> rat option" where
  "compute_stability_score pow u d =
     (let xs = monthly_inflows u d
      in if length xs < 2 then None
         else Some (max 0 (min 100 (py_round 1 (flt (flt (1 - variation pow (map flt xs)) * 100))))))"

definition stability_label :: "rat option \<Rightarrow> string" where
  "stability_label s = (case s of
       None \<Rightarrow> ''insufficient_data''
     | Some x \<Rightarrow> if 70 \<le> x then ''stable'' else if 40 \<le> x then ''variable'' else ''unstable'')"

definition stability_score ::
  "(rat \<Rightarrow> rat \<Rightarrow> rat) \<Rightarrow> uuid \<Rightarrow> string option \<Rightarrow> db \<Rightarrow> rat option \<times> string \<times> string" where
  "stability_score pow u period d =
     (let s = compute_stability_score pow u d
      in (s, stability_label s, str_or period (if s = None then ''all'' else ''last_6_months'')))"

end
