(* ===== verification/Analytics_Laws.thy ===== *)
theory Analytics_Laws
  imports Analytics "HOL-Library.Multiset"
begin

text \<open>
  What the analytics promise: months and categories partition the rows they report on, the
  listing is the filtered ledger in its stated order, percentages and scores stay in range.
\<close>

subsection \<open>Groups partition what they group\<close>

lemma sum_list_indicator:
  "distinct ks \<Longrightarrow> sum_list (map (\<lambda>k. if j = k then x else 0 :: rat) ks) = (if j \<in> set ks then x else 0)"
  by (induction ks) auto

lemma sum_over_groups:
  "distinct ks \<Longrightarrow> f ` set rs \<subseteq> set ks \<Longrightarrow>
   sum_list (map (\<lambda>k. sum_of v (\<lambda>r. P r \<and> f r = k) rs) ks) = sum_of v P rs"
proof (induction rs)
  case Nil
  then show ?case by (simp add: sum_list_0)
next
  case (Cons r rs)
  have "sum_list (map (\<lambda>k. sum_of v (\<lambda>r. P r \<and> f r = k) (r # rs)) ks) =
      sum_list (map (\<lambda>k. if f r = k then if P r then v r else 0 else 0) ks) +
      sum_list (map (\<lambda>k. sum_of v (\<lambda>r. P r \<and> f r = k) rs) ks)"
    unfolding sum_list_addf [symmetric] by (rule arg_cong [of _ _ sum_list]) (simp add: conj_commute)
  also have "\<dots> = (if P r then v r else 0) + sum_of v P rs"
    using Cons by (simp add: sum_list_indicator)
  finally show ?case by simp
qed

lemma group_totals_sum: "sum_list (map snd (group_totals f v rs)) = sum_of v (\<lambda>r. True) rs"
  using sum_over_groups [of "remdups (map f rs)" f rs v "\<lambda>r. True"] by (simp add: group_totals_def comp_def)

lemma group_totals_keys: "map fst (group_totals f v rs) = remdups (map f rs)"
  by (simp add: group_totals_def comp_def)

lemma set_months_desc: "set (months_desc ts) = month_of ` set ts"
  by (simp add: months_desc_def)

lemma distinct_months_desc: "distinct (months_desc ts)"
  by (simp add: months_desc_def distinct_sort)

lemma months_desc_sorted: "sorted (rev (map month_index (months_desc ts)))"
  by (simp add: months_desc_def rev_map)

text \<open>C12. The monthly summaries partition the rows they are asked for: months come newest
  first, each once, exactly the months that have a row; and over all months spend and inflow
  add up to the spend and inflow of all the selected rows, so no row is lost or counted
  twice. At most five merchants are shown per month.\<close>

theorem monthly_summaries_partition:
  assumes "from_bound parse_date p = Inr lo" "to_bound q = Inr hi"
  shows "\<exists>ms. monthly_summaries parse_date u acct p q d = Inr ms \<and>
    (let rows = summary_rows u acct lo hi d in
      distinct (map ms_month ms) \<and> sorted (rev (map (month_index \<circ> ms_month) ms)) \<and>
      set (map ms_month ms) = month_of ` set rows \<and>
      sum_list (map ms_spend ms) = spend rows \<and> sum_list (map ms_inflow ms) = inflow rows \<and>
      (\<forall>m \<in> set ms. length (ms_merchants m) \<le> 5))"
proof -
  let ?rows = "summary_rows u acct lo hi d"
  let ?ms = "map (summary_of d acct ?rows) (months_desc ?rows)"
  have months: "map ms_month ?ms = months_desc ?rows"
    by (simp add: summary_of_def Let_def comp_def)
  have part: "sum_list (map (\<lambda>ym. sum_of amount P (filter (\<lambda>t. month_of t = ym) ?rows)) (months_desc ?rows)) =
      sum_of amount P ?rows" for P
    using sum_over_groups [OF distinct_months_desc, of month_of ?rows ?rows amount P]
    by (simp add: sum_of_filter set_months_desc conj_commute)
  have "sum_list (map ms_spend ?ms) = spend ?rows" "sum_list (map ms_inflow ?ms) = inflow ?rows"
    using part by (simp_all add: summary_of_def Let_def comp_def spend_def inflow_def)
  moreover have "sorted (rev (map (month_index \<circ> ms_month) ?ms))"
    using months_desc_sorted [of ?rows] months by (metis map_map)
  moreover have "\<forall>m \<in> set ?ms. length (ms_merchants m) \<le> 5"
    by (auto simp: summary_of_def Let_def top_merchants_def)
  ultimately show ?thesis
    using assms months distinct_months_desc [of ?rows] set_months_desc [of ?rows]
    by (intro exI [of _ ?ms]) (simp add: monthly_summaries_def Let_def)
qed

theorem monthly_summaries_partition_witness:
  "\<exists>ms. monthly_summaries (\<lambda>s. None) 1 None None (Some ''2026-07'') sample_ledger = Inr ms \<and>
    sum_list (map ms_spend ms) = spend (summary_rows 1 None None (Some (Date 2026 7 31)) sample_ledger)"
proof -
  have "to_bound (Some ''2026-07'') = Inr (Some (Date 2026 7 31))" by code_simp
  moreover have "from_bound (\<lambda>s. None) None = Inr None" by (simp add: from_bound_def)
  ultimately show ?thesis
    using monthly_summaries_partition [of "\<lambda>s. None" None None "Some ''2026-07''" _ 1 None sample_ledger]
    by (auto simp: Let_def)
qed

subsection \<open>The breakdown\<close>

lemma dec_sum_exact:
  "0 \<le> acc \<Longrightarrow> places 2 acc \<Longrightarrow> \<forall>x \<in> set xs. 0 \<le> x \<and> places 2 x \<Longrightarrow> acc + sum_list xs < 10 ^ 26 \<Longrightarrow>
   dec_sum acc xs = acc + sum_list xs"
proof (induction xs arbitrary: acc)
  case (Cons x xs)
  have "0 \<le> sum_list xs" using Cons.prems(3) by (intro sum_list_nonneg) auto
  then have "dec (acc + x) = acc + x" using Cons.prems by (intro dec_places2) auto
  with Cons.IH [of "acc + x"] Cons.prems show ?case by (simp add: add.assoc)
qed simp

lemma percent_of_range:
  assumes "0 \<le> x" "x \<le> w"
  shows "0 \<le> py_round 2 (percent_of x w) \<and> py_round 2 (percent_of x w) \<le> 100"
proof -
  have "x / w \<le> 1" "0 \<le> x / w" using assms by (auto simp: divide_le_eq)
  then have "dec (x / w) \<le> 1" "0 \<le> dec (x / w)" using dec_mono [of "x / w" 1] dec_nonneg by auto
  then have "dec (dec (x / w) * 100) \<le> 100" "0 \<le> dec (dec (x / w) * 100)"
    using dec_mono [of "dec (x / w) * 100" 100] dec_nonneg [of "dec (x / w) * 100"] by auto
  then have "percent_of x w \<le> 100" "0 \<le> percent_of x w"
    using flt_mono [of _ 100] flt_nonneg by (auto simp: percent_of_def)
  moreover have "py_round 2 100 = 100"
    using quantize_he_places [OF placesI [of 100 2 10000]] by (simp add: py_round_def)
  ultimately show ?thesis using py_round_mono [of 0 "percent_of x w" 2] py_round_mono [of "percent_of x w" 100 2] by auto
qed

lemma sum_of_le_all: "\<forall>r \<in> set rs. 0 \<le> v r \<Longrightarrow> sum_of v P rs \<le> sum_of v (\<lambda>r. True) rs"
  by (induction rs) auto

lemma in_range_total: "in_range ts \<Longrightarrow> sum_of amount P ts < 10 ^ 26"
proof -
  assume r: "in_range ts"
  then have "\<bar>sum_of amount P ts\<bar> + \<bar>sum_of amount (\<lambda>t. \<not> P t) ts\<bar> \<le> of_nat (length ts) * 10 ^ 12"
    by (intro sum_of_abs) (auto simp: in_range_def less_imp_le)
  moreover have "of_nat (length ts) * (10 ^ 12 :: rat) \<le> of_nat (10 ^ 13) * 10 ^ 12"
    using r by (intro mult_right_mono of_nat_mono) (auto simp: in_range_def)
  ultimately have "\<bar>sum_of amount P ts\<bar> \<le> 10 ^ 25" by simp
  then show ?thesis by (simp add: abs_le_iff)
qed

lemma sort_key_sum: "sum_list (map snd (sort_key f gs)) = (sum_list (map snd gs) :: rat)"
proof -
  have "mset (map snd (sort_key f gs)) = mset (map snd gs)" by simp
  then show ?thesis by (metis sum_mset_sum_list)
qed

lemma by_total_desc_sorted: "sorted (rev (map snd (by_total_desc gs)))"
proof -
  have "sorted (map (\<lambda>g. - snd g) (by_total_desc gs))" by (simp add: by_total_desc_def)
  then have "sorted_wrt (\<lambda>a b. - snd a \<le> - snd b) (by_total_desc gs)" by (simp add: sorted_wrt_map)
  then show ?thesis by (simp add: sorted_wrt_rev sorted_wrt_map rev_map)
qed

text \<open>A month's category breakdown accounts for every categorised row of that month and
  scope: the amounts add up to theirs, largest first, each category once, and, with amounts
  as the columns hold them and none negative, every percentage lies between 0 and 100.\<close>

theorem category_breakdown_shares:
  assumes "category_breakdown u (Some p) acct d = Inr (p', items)" "in_range (txns d)" "\<forall>t \<in> set (txns d). 0 \<le> amount t"
  shows "p' = p \<and>
    sum_list (map bi_amount items) = sum_of amount (\<lambda>t. txn_user t = u \<and> parse_period p = Some (month_of t) \<and>
        wants acct (\<lambda>a. txn_account t = a) \<and> txn_category t \<noteq> None) (txns d) \<and>
    sorted (rev (map bi_amount items)) \<and> distinct (map bi_category items) \<and>
    (\<forall>i \<in> set items. 0 \<le> bi_percentage i \<and> bi_percentage i \<le> 100)"
proof -
  from assms(1) obtain y m where ym: "parse_period p = Some (y, m)" and p: "p' = p"
    and items: "items = breakdown_of (by_total_desc (category_totals d
      (filter (\<lambda>t. txn_user t = u \<and> month_of t = (y, m) \<and> wants acct (\<lambda>a. txn_account t = a)) (txns d))))"
    by (auto simp: category_breakdown_def Let_def split: if_splits option.splits)
  let ?rows = "filter (\<lambda>t. txn_category t \<noteq> None) (filter (\<lambda>t. txn_user t = u \<and> month_of t = (y, m) \<and>
      wants acct (\<lambda>a. txn_account t = a)) (txns d))"
  let ?gs = "by_total_desc (category_totals d (filter (\<lambda>t. txn_user t = u \<and> month_of t = (y, m) \<and>
      wants acct (\<lambda>a. txn_account t = a)) (txns d)))"
  let ?total = "sum_of amount (\<lambda>t. True) ?rows"
  have amounts: "map bi_amount items = map snd ?gs" and cats: "map bi_category items = map fst ?gs"
    unfolding items by (simp_all add: breakdown_of_def Let_def comp_def case_prod_beta)
  have total: "sum_list (map snd ?gs) = ?total"
    using group_totals_sum [of "category_name_of d" amount ?rows]
    by (simp add: by_total_desc_def sort_key_sum category_totals_def)
  have rng: "in_range ?rows" by (rule in_range_sub, rule in_range_sub, rule assms(2))
  have val: "0 \<le> x \<and> places 2 x \<and> x \<le> ?total" if "(c, x) \<in> set ?gs" for c x
  proof -
    have "(c, x) \<in> set (group_totals (category_name_of d) amount ?rows)"
      using that by (simp add: by_total_desc_def category_totals_def)
    then have x: "x = sum_of amount (\<lambda>t. category_name_of d t = c) ?rows" by (auto simp: group_totals_def)
    have nn: "\<forall>t \<in> set ?rows. 0 \<le> amount t" using assms(3) by auto
    have "places 2 x" unfolding x using rng by (intro places_sum_of) (auto simp: in_range_def)
    then show ?thesis using nn sum_of_le_all [OF nn, of "\<lambda>t. category_name_of d t = c"]
      unfolding x by (auto intro!: sum_of_nonneg)
  qed
  have ds: "dec_sum 0 (map snd ?gs) = ?total"
    using dec_sum_exact [of 0 "map snd ?gs"] val total in_range_total [OF rng, of "\<lambda>t. True"] by fastforce
  have "distinct (map fst (category_totals d (filter (\<lambda>t. txn_user t = u \<and> month_of t = (y, m) \<and>
      wants acct (\<lambda>a. txn_account t = a)) (txns d))))"
    unfolding category_totals_def group_totals_keys by simp
  then have "distinct (map fst ?gs)" unfolding by_total_desc_def distinct_map by simp
  moreover have "?total = sum_of amount (\<lambda>t. txn_user t = u \<and> parse_period p = Some (month_of t) \<and>
        wants acct (\<lambda>a. txn_account t = a) \<and> txn_category t \<noteq> None) (txns d)"
    unfolding sum_of_filter ym by (rule sum_of_cong) auto
  moreover have "0 \<le> bi_percentage i \<and> bi_percentage i \<le> 100" if "i \<in> set items" for i
  proof -
    from that obtain c x where i: "(c, x) \<in> set ?gs"
      "bi_percentage i = (if ?total \<noteq> 0 then py_round 2 (percent_of x ?total) else 0)"
      unfolding items breakdown_of_def Let_def ds by auto
    from val [OF i(1)] percent_of_range [of x ?total] i(2) show ?thesis by simp
  qed
  ultimately show ?thesis
    using p total by_total_desc_sorted [of "category_totals d (filter (\<lambda>t. txn_user t = u \<and> month_of t = (y, m) \<and>
      wants acct (\<lambda>a. txn_account t = a)) (txns d))"] unfolding amounts cats by simp
qed

lemma sample_in_range: "in_range (txns sample_ledger)"
proof -
  have "places 2 5" "places 2 7" "places 2 9"
    using placesI [of 5 2 500] placesI [of 7 2 700] placesI [of 9 2 900] by simp_all
  then show ?thesis by (simp add: in_range_def sample_ledger_def sample_txn_def)
qed

theorem category_breakdown_shares_witness:
  "\<exists>items. category_breakdown 1 (Some ''2026-07'') None sample_ledger = Inr (''2026-07'', items) \<and>
    (\<forall>i \<in> set items. 0 \<le> bi_percentage i \<and> bi_percentage i \<le> 100)"
proof -
  have "parse_period ''2026-07'' = Some (2026, 7)" by code_simp
  then obtain items where items: "category_breakdown 1 (Some ''2026-07'') None sample_ledger = Inr (''2026-07'', items)"
    by (simp add: category_breakdown_def year_ok_def Let_def)
  have "\<forall>t \<in> set (txns sample_ledger). 0 \<le> amount t" by (simp add: sample_ledger_def sample_txn_def)
  from category_breakdown_shares [OF items sample_in_range this] items show ?thesis by blast
qed

subsection \<open>The listing\<close>

lemma not_later_trans: "\<not> later t s \<Longrightarrow> \<not> later v t \<Longrightarrow> \<not> later v s"
  unfolding later_def by (metis less_trans linorder_neqE linorder_not_less order.trans)

lemma mset_insert_latest [simp]: "mset (insert_latest t ts) = add_mset t (mset ts)"
  by (induction ts) auto

lemma set_insert_latest [simp]: "set (insert_latest t ts) = insert t (set ts)"
  by (metis mset_insert_latest set_mset_add_mset_insert set_mset_mset)

lemma sorted_insert_latest:
  "sorted_wrt (\<lambda>s t. \<not> later t s) ts \<Longrightarrow> sorted_wrt (\<lambda>s t. \<not> later t s) (insert_latest t ts)"
proof (induction ts)
  case (Cons s ss)
  show ?case
  proof (cases "later s t")
    case True
    with Cons show ?thesis using later_asym by auto
  next
    case False
    have "\<not> later v t" if "v \<in> set ss" for v using Cons.prems that False not_later_trans by auto
    with False Cons.prems show ?thesis by auto
  qed
qed simp

lemma latest_first_sorted: "sorted_wrt (\<lambda>s t. \<not> later t s) (latest_first ts)"
  by (induction ts) (auto simp: latest_first_def sorted_insert_latest)

lemma latest_first_mset: "mset (latest_first ts) = mset ts"
  by (induction ts) (auto simp: latest_first_def)

text \<open>The transaction list is exactly the caller's rows that pass every given filter, each
  as often as the ledger holds it, latest date first and, on one date, latest created first;
  a sort that names the date always carries the creation time as its tie-breaker.\<close>

theorem list_transactions_is_the_filtered_ledger:
  "mset (list_transactions u f d) = filter_mset (\<lambda>t. txn_user t = u \<and> matches_filter d f t) (mset (txns d)) \<and>
   sorted_wrt (\<lambda>s t. \<not> later t s) (list_transactions u f d) \<and>
   (list_ex (\<lambda>g. lstrip_minus g = ''transaction_date'') fs \<longrightarrow>
      list_ex (\<lambda>g. lstrip_minus g = ''created_at'') (transaction_ordering fs)) \<and>
   take (length fs) (transaction_ordering fs) = fs"
proof -
  have "lstrip_minus ((if b then ''-'' else []) @ ''created_at'') = ''created_at''" for b
    by (cases b) (simp_all add: lstrip_minus_def)
  then have "list_ex (\<lambda>g. lstrip_minus g = ''transaction_date'') fs \<longrightarrow>
      list_ex (\<lambda>g. lstrip_minus g = ''created_at'') (transaction_ordering fs)"
    by (auto simp: transaction_ordering_def list_ex_iff find_None_iff split: option.splits)
  moreover have "take (length fs) (transaction_ordering fs) = fs"
    by (simp add: transaction_ordering_def split: option.splits)
  ultimately show ?thesis by (simp add: list_transactions_def latest_first_mset latest_first_sorted)
qed

theorem list_transactions_is_the_filtered_ledger_witness:
  "list_ex (\<lambda>g. lstrip_minus g = ''created_at'') (transaction_ordering [''-transaction_date''])"
  using list_transactions_is_the_filtered_ledger [of 1 _ empty_db "[''-transaction_date'']"]
  by (simp add: lstrip_minus_def)

subsection \<open>The stability score\<close>

text \<open>The stability score is a number from 0 to 100 exactly when the user has credits in at
  least two calendar months, computed from at most the six latest such months, and its label
  follows the thresholds 70 and 40; with fewer months there is no score and the label says so.\<close>

theorem stability_score_range:
  "case stability_score pow u period d of (s, label, computed) \<Rightarrow>
    (s = None \<longleftrightarrow> card (month_of ` {t \<in> set (txns d). txn_user t = u \<and> has_type [''credit''] t}) < 2) \<and>
    (\<forall>x. s = Some x \<longrightarrow> 0 \<le> x \<and> x \<le> 100) \<and>
    length (monthly_inflows u d) \<le> 6 \<and>
    (label = ''insufficient_data'' \<longleftrightarrow> s = None) \<and>
    (label = ''stable'' \<longleftrightarrow> (\<exists>x. s = Some x \<and> 70 \<le> x)) \<and>
    (label = ''variable'' \<longleftrightarrow> (\<exists>x. s = Some x \<and> 40 \<le> x \<and> x < 70))"
proof -
  let ?rows = "filter (\<lambda>t. txn_user t = u \<and> has_type [''credit''] t) (txns d)"
  have "length (months_desc ?rows) = card (month_of ` set ?rows)"
    using distinct_card [OF distinct_months_desc, of ?rows] by (simp add: set_months_desc)
  moreover have "set ?rows = {t \<in> set (txns d). txn_user t = u \<and> has_type [''credit''] t}" by auto
  ultimately have len: "length (monthly_inflows u d) < 2 \<longleftrightarrow>
      card (month_of ` {t \<in> set (txns d). txn_user t = u \<and> has_type [''credit''] t}) < 2"
    by (simp add: monthly_inflows_def Let_def min_less_iff_disj)
  have six: "length (monthly_inflows u d) \<le> 6" by (simp add: monthly_inflows_def Let_def)
  obtain s where s: "s = compute_stability_score pow u d" by simp
  then have none: "s = None \<longleftrightarrow> length (monthly_inflows u d) < 2"
    by (simp add: compute_stability_score_def Let_def)
  have rng: "0 \<le> x \<and> x \<le> 100" if "s = Some x" for x
    using that unfolding s by (auto simp: compute_stability_score_def Let_def split: if_splits)
  show ?thesis
    using len six none rng
    by (cases s) (auto simp: stability_score_def Let_def s [symmetric] stability_label_def)
qed

theorem stability_score_range_witness:
  "case stability_score (\<lambda>x y. x) 1 None sample_ledger of (s, label, computed) \<Rightarrow>
     \<forall>x. s = Some x \<longrightarrow> 0 \<le> x \<and> x \<le> 100"
  using stability_score_range [where pow = "\<lambda>x y. x" and u = 1 and period = None and d = sample_ledger]
  by (auto split: prod.splits)

end
