(* ===== verification/Budgets.thy ===== *)
theory Budgets
  imports Analytics
begin

text \<open>
  Budget plans, savings goals and the dashboard: core/models/budgets/,
  core/serializers/budgets.py and core/views/budgets.py. \<open>today\<close> is \<open>date.today()\<close>. The
  endpoints are not atomic, so what an exception leaves behind is part of their result.
\<close>

subsection \<open>Rendering and dates\<close>

definition money_str :: "rat \<Rightarrow> string" where
  "money_str x = (let k = \<bar>rhe (x * 100)\<bar>; q = nat k div 100; r = nat k mod 100
     in (if x < 0 then ''-'' else []) @ nat_str q @ ''.'' @ (if r < 10 then ''0'' else []) @ nat_str r)"

definition months_elapsed :: "date \<Rightarrow> date \<Rightarrow> int" where
  "months_elapsed s e = (year e - year s) * 12 + (month e - month s)"

text \<open>\<open>date + timedelta(days=n)\<close>: \<open>None\<close> is the \<open>OverflowError\<close> past year 9999 or before year 1.\<close>

definition date_plus :: "date \<Rightarrow> int \<Rightarrow> date option" where
  "date_plus d n = (if 1 \<le> ordinal d + n \<and> ordinal d + n \<le> 3652059 then Some (add_days d n) else None)"

subsection \<open>Allocations\<close>

record alloc_input =
  in_category :: uuid
  in_percentage :: rat

definition validate_allocations_sum_100 :: "alloc_input list \<Rightarrow> exc + unit" where
  "validate_allocations_sum_100 xs =
     (let total = dec_sum 0 (map in_percentage xs)
      in guard_res (total = 100) (field_error ''allocations''
           (''Allocations must sum to 100. Sum was '' @ (if xs = [] then ''0'' else money_str total) @ ''.'')))"

definition allocated_amount :: "rat \<Rightarrow> rat \<Rightarrow> rat" where
  "allocated_amount income p = quantize_he 2 (dec (dec (income * p) / 100))"

definition allocations_of :: "db \<Rightarrow> uuid \<Rightarrow> allocation list" where
  "allocations_of d b = filter (\<lambda>a. al_budget a = b) (allocations d)"

text \<open>
  One row per item, until one does not fit: the column holds 12 digits before the point,
  and \<open>(budget, category)\<close> is unique.
\<close>

fun apply_allocations :: "uuid \<Rightarrow> alloc_input list \<Rightarrow> rat \<Rightarrow> db \<Rightarrow> unit response" where
  "apply_allocations b [] income d = (Inr (), d)"
| "apply_allocations b (x # xs) income d =
     (let amt = allocated_amount income (in_percentage x)
      in if 10 ^ 12 \<le> \<bar>amt\<bar> then (Inl (Unhandled ''DataError''), draw d)
         else if list_ex (\<lambda>a. al_category a = in_category x) (allocations_of d b)
         then (Inl (Unhandled ''IntegrityError''), draw d)
         else apply_allocations b xs income
                ((draw d)\<lparr>allocations := allocations d @ [\<lparr>al_id = fresh d, al_budget = b,
                   al_category = in_category x, al_percentage = in_percentage x, al_amount = amt\<rparr>]\<rparr>))"

definition category_name :: "db \<Rightarrow> uuid \<Rightarrow> string" where
  "category_name d k = (case by_pk cat_id (categories d) k of None \<Rightarrow> [] | Some c \<Rightarrow> cat_name c)"

text \<open>\<open>_snapshot\<close>: the prior allocations with floats, for the JSON column.\<close>

definition budget_snapshot :: "uuid \<Rightarrow> db \<Rightarrow> snapshot" where
  "budget_snapshot b d =
     map (\<lambda>a. (category_name d (al_category a), flt (al_percentage a), flt (al_amount a))) (allocations_of d b)"

record budget_view =
  bv_id :: uuid
  bv_name :: string
  bv_template :: "string option"
  bv_allocations :: "(string \<times> rat \<times> rat) list"

definition serialize_budget :: "budget \<Rightarrow> db \<Rightarrow> budget_view" where
  "serialize_budget b d = \<lparr>bv_id = b_id b, bv_name = b_name b, bv_template = b_template_key b,
     bv_allocations = map (\<lambda>a. (category_name d (al_category a), al_percentage a, al_amount a)) (allocations_of d (b_id b))\<rparr>"

subsection \<open>The budget endpoints\<close>

definition budget_of :: "uuid \<Rightarrow> db \<Rightarrow> budget option" where
  "budget_of u d = first_pk b_id (filter (\<lambda>b. b_user b = u) (budgets d))"

definition income_of :: "user \<Rightarrow> rat" where
  "income_of me = case_option 0 id (monthly_income me)"

definition get_budget :: "user \<Rightarrow> db \<Rightarrow> exc + budget_view" where
  "get_budget me d = (case budget_of (user_id me) d of
       None \<Rightarrow> Inl (NotFound ''No budget plan exists yet.'')
     | Some b \<Rightarrow> Inr (serialize_budget b d))"

record budget_data =
  bd_name :: "string option"
  bd_template :: "string option"
  bd_allocations :: "alloc_input list"

definition post_budget :: "user \<Rightarrow> detail + budget_data \<Rightarrow> db \<Rightarrow> budget_view response" where
  "post_budget me validated d =
     (if filter (\<lambda>b. b_user b = user_id me) (budgets d) \<noteq> []
      then (Inl (ConflictError ''A budget plan already exists for this user. Use PATCH /budget to update it.''), d)
      else
       (case res_bind (case_sum (Inl \<circ> ValidationError) Inr validated)
               (\<lambda>x. res_bind (validate_allocations_sum_100 (bd_allocations x)) (\<lambda>_. Inr x)) of
          Inl e \<Rightarrow> (Inl e, d)
        | Inr x \<Rightarrow>
            let b = \<lparr>b_id = fresh d, b_user = user_id me, b_name = str_or (bd_name x) ''My Plan'',
                     b_template_key = bd_template x\<rparr>;
                d1 = (draw d)\<lparr>budgets := budgets d @ [b]\<rparr>
            in (case apply_allocations (b_id b) (bd_allocations x) (income_of me) d1 of
                  (Inl e, d2) \<Rightarrow> (Inl e, d2)
                | (Inr _, d2) \<Rightarrow> (Inr (serialize_budget b d2), d2))))"

record budget_patch =
  bp_name :: "string option"
  bp_template :: "string option option"
  bp_allocations :: "alloc_input list option"
  bp_via :: string

definition apply_budget_patch :: "budget_patch \<Rightarrow> budget \<Rightarrow> budget" where
  "apply_budget_patch p b = b\<lparr>b_name := case_option (b_name b) id (bp_name p),
     b_template_key := case_option (b_template_key b) id (bp_template p)\<rparr>"

definition record_history :: "int \<Rightarrow> string \<Rightarrow> budget \<Rightarrow> db \<Rightarrow> db" where
  "record_history now via b d = (draw d)\<lparr>histories := histories d @
     [\<lparr>h_id = fresh d, h_budget = b_id b, h_previous = budget_snapshot (b_id b) d,
       h_changed_via = via, h_changed_at = now\<rparr>]\<rparr>"

definition clear_allocations :: "uuid \<Rightarrow> db \<Rightarrow> db" where
  "clear_allocations b d = d\<lparr>allocations := filter (\<lambda>a. al_budget a \<noteq> b) (allocations d)\<rparr>"

definition replace_allocations :: "uuid \<Rightarrow> alloc_input list option \<Rightarrow> rat \<Rightarrow> db \<Rightarrow> unit response" where
  "replace_allocations b xs income d =
     (case xs of None \<Rightarrow> (Inr (), d)
      | Some ys \<Rightarrow> apply_allocations b ys income (clear_allocations b d))"

definition patch_budget :: "int \<Rightarrow> user \<Rightarrow> detail + budget_patch \<Rightarrow> db \<Rightarrow> budget_view response" where
  "patch_budget now me validated d =
     (case budget_of (user_id me) d of
        None \<Rightarrow> (Inl (Http404 ''No Budget matches the given query.''), d)
      | Some b \<Rightarrow>
         (case res_bind (case_sum (Inl \<circ> ValidationError) Inr validated)
                 (\<lambda>p. case bp_allocations p of
                        None \<Rightarrow> Inr p
                      | Some xs \<Rightarrow> res_bind (validate_allocations_sum_100 xs) (\<lambda>_. Inr p)) of
            Inl e \<Rightarrow> (Inl e, d)
          | Inr p \<Rightarrow>
              let d1 = record_history now (bp_via p) b d;
                  b' = apply_budget_patch p b;
                  d2 = d1\<lparr>budgets := save_row b_id b' (budgets d1)\<rparr>
              in (case replace_allocations (b_id b) (bp_allocations p) (income_of me) d2 of
                    (Inl e, d3) \<Rightarrow> (Inl e, d3)
                  | (Inr _, d3) \<Rightarrow>
                      (Inr (serialize_budget b' d3),
                       emit (Notified (user_id me) ''Your budget plan was updated'') d3))))"

definition list_history :: "uuid \<Rightarrow> int option \<Rightarrow> int option \<Rightarrow> db \<Rightarrow> exc + history list" where
  "list_history u lo hi d =
     (case budget_of u d of
        None \<Rightarrow> Inl (Http404 ''No Budget matches the given query.'')
      | Some b \<Rightarrow> Inr (rev (sort_key h_changed_at (filter (\<lambda>h. h_budget h = b_id b \<and>
           wants lo (\<lambda>x. x \<le> h_changed_at h) \<and> wants hi (\<lambda>x. h_changed_at h \<le> x)) (histories d)))))"

subsection \<open>Progress against the plan\<close>

definition APPROACHING_LIMIT_THRESHOLD :: rat where
  "APPROACHING_LIMIT_THRESHOLD = 80"

definition percentage_used :: "rat \<Rightarrow> rat \<Rightarrow> rat" where
  "percentage_used allocated actual =
     (if allocated \<noteq> 0 then percent_of actual allocated else if actual \<noteq> 0 then 100 else 0)"

definition category_status :: "rat \<Rightarrow> string" where
  "category_status used = (if 100 \<le> used then ''over_budget''
     else if APPROACHING_LIMIT_THRESHOLD \<le> used then ''approaching_limit'' else ''on_track'')"

record category_progress =
  cp_category :: string
  cp_allocated :: rat
  cp_actual :: rat
  cp_used :: rat
  cp_status :: string

definition spent_on :: "uuid \<Rightarrow> (txn \<Rightarrow> bool) \<Rightarrow> uuid \<Rightarrow> txn list \<Rightarrow> rat" where
  "spent_on u inside c ts = sum_of amount (\<lambda>t. txn_user t = u \<and> txn_category t = Some c \<and> inside t \<and>
     has_type [''debit'', ''fee''] t) ts"

definition progress_of :: "uuid \<Rightarrow> int \<times> int \<Rightarrow> db \<Rightarrow> allocation \<Rightarrow> category_progress" where
  "progress_of u ym d a =
     (let actual = spent_on u (\<lambda>t. month_of t = ym) (al_category a) (txns d);
          used = percentage_used (al_amount a) actual
      in \<lparr>cp_category = category_name d (al_category a), cp_allocated = al_amount a, cp_actual = actual,
          cp_used = py_round 2 used, cp_status = category_status used\<rparr>)"

definition period_label :: "date \<Rightarrow> string" where
  "period_label x = nat_str (nat (year x)) @ ''-'' @ (if month x < 10 then ''0'' else []) @ nat_str (nat (month x))"

definition budget_progress :: "date \<Rightarrow> uuid \<Rightarrow> string option \<Rightarrow> db \<Rightarrow> exc + string \<times> category_progress list" where
  "budget_progress today u period d =
     (case budget_of u d of
        None \<Rightarrow> Inl (Http404 ''No Budget matches the given query.'')
      | Some b \<Rightarrow>
          let p = str_or period (period_label today)
          in (case parse_period p of
                None \<Rightarrow> Inl (Unhandled ''ValueError'')
              | Some (y, m) \<Rightarrow>
                  if \<not> year_ok y \<and> allocations_of d (b_id b) \<noteq> [] then Inl (Unhandled ''ValueError'')
                  else Inr (p, map (progress_of u (y, m) d) (allocations_of d (b_id b)))))"

subsection \<open>The savings goal\<close>

definition goal_of :: "uuid \<Rightarrow> db \<Rightarrow> goal option" where
  "goal_of u d = first_pk g_id (filter (\<lambda>g. g_user g = u) (goals d))"

definition months_remaining :: "date \<Rightarrow> goal \<Rightarrow> int" where
  "months_remaining today g = max 0 (g_months g - months_elapsed (g_created g) today)"

definition saved_so_far :: "uuid \<Rightarrow> date \<Rightarrow> db \<Rightarrow> rat" where
  "saved_so_far u since d =
     (let rows = filter (\<lambda>t. txn_user t = u \<and> since \<le> transaction_date t) (txns d)
      in max 0 (dec (inflow rows - spend rows)))"

text \<open>\<open>float(min(Decimal("100"), saved / target * 100))\<close>.\<close>

definition percentage_complete :: "rat \<Rightarrow> rat \<Rightarrow> rat" where
  "percentage_complete saved target = (if target \<noteq> 0 then flt (min 100 (dec (dec (saved / target) * 100))) else 0)"

record goal_view =
  gv_name :: string
  gv_target :: rat
  gv_months_remaining :: int
  gv_percentage :: rat

definition goal_progress :: "date \<Rightarrow> goal \<Rightarrow> db \<Rightarrow> goal_view" where
  "goal_progress today g d = \<lparr>gv_name = g_name g, gv_target = g_target g,
     gv_months_remaining = months_remaining today g,
     gv_percentage = py_round 2 (percentage_complete (saved_so_far (g_user g) (g_created g) d) (g_target g))\<rparr>"

record savings_view =
  sv_goal :: "string \<times> rat \<times> int"
  sv_saved :: rat
  sv_percentage :: rat
  sv_projected :: "date option"
  sv_on_track :: bool

text \<open>The projected date: \<open>Inr None\<close> without any saving, \<open>Inl\<close> when the date overflows.\<close>

definition projected_completion :: "date \<Rightarrow> rat \<Rightarrow> rat \<Rightarrow> int \<Rightarrow> exc + date option" where
  "projected_completion today saved target elapsed =
     (let rate = dec (saved / of_int elapsed)
      in if target \<le> saved then Inr (Some today)
         else if 0 < rate then
           (let needed = flt (dec (dec (target - saved) / rate))
            in case date_plus today (rhe (flt (needed * 30))) of
                 None \<Rightarrow> Inl (Unhandled ''OverflowError'')
               | Some x \<Rightarrow> Inr (Some x))
         else Inr None)"

definition savings_progress :: "date \<Rightarrow> uuid \<Rightarrow> db \<Rightarrow> exc + savings_view" where
  "savings_progress today u d =
     (case goal_of u d of
        None \<Rightarrow> Inl (NotFound ''No savings goal set.'')
      | Some g \<Rightarrow>
          let saved = saved_so_far u (g_created g) d
          in res_bind (projected_completion today saved (g_target g) (max 1 (months_elapsed (g_created g) today)))
              (\<lambda>proj. case date_plus (g_created g) (g_months g * 30) of
                 None \<Rightarrow> Inl (Unhandled ''OverflowError'')
               | Some deadline \<Rightarrow> Inr \<lparr>sv_goal = (g_name g, g_target g, months_remaining today g),
                   sv_saved = saved, sv_percentage = py_round 2 (percentage_complete saved (g_target g)),
                   sv_projected = proj, sv_on_track = (case proj of None \<Rightarrow> False | Some x \<Rightarrow> x \<le> deadline)\<rparr>))"

record goal_data =
  gd_name :: string
  gd_target :: rat
  gd_months :: int

definition get_goal :: "date \<Rightarrow> uuid \<Rightarrow> db \<Rightarrow> exc + goal_view" where
  "get_goal today u d = (case goal_of u d of
       None \<Rightarrow> Inl (NotFound ''No savings goal set.'') | Some g \<Rightarrow> Inr (goal_progress today g d))"

definition new_goal :: "date \<Rightarrow> uuid \<Rightarrow> goal_data \<Rightarrow> db \<Rightarrow> goal" where
  "new_goal today u x d = \<lparr>g_id = fresh d, g_user = u, g_name = gd_name x, g_target = gd_target x,
     g_months = gd_months x, g_created = today\<rparr>"

definition insert_goal :: "goal \<Rightarrow> db \<Rightarrow> db" where
  "insert_goal g d = (draw d)\<lparr>goals := goals d @ [g]\<rparr>"

definition post_goal :: "date \<Rightarrow> uuid \<Rightarrow> detail + goal_data \<Rightarrow> db \<Rightarrow> goal_view response" where
  "post_goal today u validated d =
     (if filter (\<lambda>g. g_user g = u) (goals d) \<noteq> []
      then (Inl (ConflictError ''A savings goal already exists for this user. Use PATCH /goal to update it.''), d)
      else (case validated of
              Inl es \<Rightarrow> (Inl (ValidationError es), d)
            | Inr x \<Rightarrow> let g = new_goal today u x d; d' = insert_goal g d
                       in (Inr (goal_progress today g d'), d')))"

record goal_patch =
  gp_name :: "string option"
  gp_target :: "rat option"
  gp_months :: "int option"

definition apply_goal_patch :: "goal_patch \<Rightarrow> goal \<Rightarrow> goal" where
  "apply_goal_patch p g = g\<lparr>g_name := case_option (g_name g) id (gp_name p),
     g_target := case_option (g_target g) id (gp_target p), g_months := case_option (g_months g) id (gp_months p)\<rparr>"

definition save_goal :: "goal \<Rightarrow> db \<Rightarrow> db" where
  "save_goal g d = d\<lparr>goals := save_row g_id g (goals d)\<rparr>"

definition patch_goal :: "date \<Rightarrow> uuid \<Rightarrow> detail + goal_patch \<Rightarrow> db \<Rightarrow> goal_view response" where
  "patch_goal today u validated d =
     (case goal_of u d of
        None \<Rightarrow> (Inl (Http404 ''No Goal matches the given query.''), d)
      | Some g \<Rightarrow>
         (case validated of
            Inl es \<Rightarrow> (Inl (ValidationError es), d)
          | Inr p \<Rightarrow> let g' = apply_goal_patch p g; d' = save_goal g' d in (Inr (goal_progress today g' d'), d')))"

definition delete_goal :: "uuid \<Rightarrow> db \<Rightarrow> unit response" where
  "delete_goal u d =
     (case goal_of u d of
        None \<Rightarrow> (Inl (Http404 ''No Goal matches the given query.''), d)
      | Some g \<Rightarrow> (Inr (), d\<lparr>goals := filter (\<lambda>x. g_id x \<noteq> g_id g) (goals d)\<rparr>))"

text \<open>PATCH /dashboard/goal: an upsert; \<open>None\<close> is a body without \<open>goal\<close>.\<close>

definition patch_dashboard_goal :: "date \<Rightarrow> uuid \<Rightarrow> (detail + goal_data) option \<Rightarrow> db \<Rightarrow> goal_view response" where
  "patch_dashboard_goal today u body d =
     (case body of
        None \<Rightarrow> (Inl (ValidationError (Dict [(''goal'', Str ''This field is required.'')])), d)
      | Some validated \<Rightarrow>
         (case validated of
            Inl es \<Rightarrow> (Inl (ValidationError es), d)
          | Inr x \<Rightarrow>
             (case goal_of u d of
                None \<Rightarrow> let g = new_goal today u x d; d' = insert_goal g d in (Inr (goal_progress today g d'), d')
              | Some g \<Rightarrow>
                  let g' = g\<lparr>g_name := gd_name x, g_target := gd_target x, g_months := gd_months x\<rparr>;
                      d' = save_goal g' d
                  in (Inr (goal_progress today g' d'), d'))))"

end
