(* ===== verification/Dashboard.thy ===== *)
theory Dashboard
  imports Budgets
begin

text \<open>
  The dashboard's combined read and the starter templates: the last part of
  core/views/budgets.py.
\<close>

subsection \<open>Windows\<close>

datatype dashboard_period = This_month | Last_month | Last_3_months | This_year | Last_5_years

definition DASHBOARD_PERIODS :: "(string \<times> dashboard_period) list" where
  "DASHBOARD_PERIODS = [(''this_month'', This_month), (''last_month'', Last_month),
     (''last_3_months'', Last_3_months), (''this_year'', This_year), (''last_5_years'', Last_5_years)]"

text \<open>The loop \<open>while month <= 0: month += 12; year -= 1\<close>.\<close>

function normalise_month :: "int \<Rightarrow> int \<Rightarrow> int \<times> int" where
  "normalise_month y m = (if m \<le> 0 then normalise_month (y - 1) (m + 12) else (y, m))"
  by pat_completeness auto

termination by (relation "measure (\<lambda>(y, m). nat (1 - m))") auto

declare normalise_month.simps [simp del]

definition window_bounds :: "date \<Rightarrow> dashboard_period \<Rightarrow> date \<times> date" where
  "window_bounds today p =
     (case p of
        Last_month \<Rightarrow>
          (let (y, m) = (if month today = 1 then (year today - 1, 12) else (year today, month today - 1))
           in (Date y m 1, Date y m (days_in_month y m)))
      | Last_3_months \<Rightarrow> (let (y, m) = normalise_month (year today) (month today - 3) in (Date y m 1, today))
      | This_year \<Rightarrow> (Date (year today) 1 1, today)
      | Last_5_years \<Rightarrow> (Date (year today - 4) 1 1, today)
      | This_month \<Rightarrow> (Date (year today) (month today) 1, today))"

text \<open>The window and the window of the same length in days just before it.\<close>

definition resolve_window :: "date \<Rightarrow> dashboard_period \<Rightarrow> date \<times> date \<times> date \<times> date" where
  "resolve_window today p =
     (case window_bounds today p of (s, e) \<Rightarrow>
        let days = ordinal e - ordinal s + 1;
            prev_end = add_days s (- 1);
            prev_start = add_days prev_end (- (days - 1))
        in (s, e, prev_start, prev_end))"

definition in_window :: "date \<Rightarrow> date \<Rightarrow> uuid option \<Rightarrow> txn \<Rightarrow> bool" where
  "in_window s e acct t \<longleftrightarrow> s \<le> transaction_date t \<and> transaction_date t \<le> e \<and> wants acct (\<lambda>a. txn_account t = a)"

definition window_totals :: "uuid \<Rightarrow> date \<Rightarrow> date \<Rightarrow> uuid option \<Rightarrow> db \<Rightarrow> rat \<times> rat" where
  "window_totals u s e acct d =
     (let rows = filter (\<lambda>t. txn_user t = u \<and> in_window s e acct t) (txns d) in (spend rows, inflow rows))"

definition percentage_change :: "rat \<Rightarrow> rat \<Rightarrow> rat option" where
  "percentage_change cur prev =
     (if prev = 0 then None
      else Some (py_round 2 (flt (dec (dec (dec (cur - prev) / \<bar>prev\<bar>) * 100)))))"

subsection \<open>The combined read\<close>

record dashboard_metrics =
  dm_stability :: "rat option"
  dm_spend :: rat
  dm_inflow :: rat
  dm_prev_spend :: rat
  dm_prev_inflow :: rat
  dm_spend_change :: "rat option"
  dm_inflow_change :: "rat option"

record dashboard_view =
  dv_budget :: "(uuid \<times> string) option"
  dv_goal :: "goal_view option"
  dv_allocations :: "(string \<times> rat \<times> rat) list"
  dv_metrics :: dashboard_metrics
  dv_net_worth :: "rat \<times> date"
  dv_has_plan :: bool

definition empty_metrics :: "rat option \<Rightarrow> dashboard_metrics" where
  "empty_metrics s = \<lparr>dm_stability = s, dm_spend = 0, dm_inflow = 0, dm_prev_spend = 0, dm_prev_inflow = 0,
     dm_spend_change = None, dm_inflow_change = None\<rparr>"

definition allocation_usage :: "uuid \<Rightarrow> date \<Rightarrow> date \<Rightarrow> uuid option \<Rightarrow> db \<Rightarrow> allocation \<Rightarrow> string \<times> rat \<times> rat" where
  "allocation_usage u s e acct d a =
     (category_name d (al_category a), al_percentage a,
      py_round 2 (percentage_used (al_amount a) (spent_on u (in_window s e acct) (al_category a) (txns d))))"

definition dashboard_account :: "uuid \<Rightarrow> uuid option \<Rightarrow> db \<Rightarrow> exc + bank_account option" where
  "dashboard_account u acct d =
     (case acct of
        None \<Rightarrow> Inr None
      | Some k \<Rightarrow> (case owned_account u k d of
                     None \<Rightarrow> Inl (Http404 ''No BankAccount matches the given query.'')
                   | Some a \<Rightarrow> Inr (Some a)))"

definition shown_net_worth :: "uuid \<Rightarrow> bank_account option \<Rightarrow> db \<Rightarrow> rat" where
  "shown_net_worth u a d =
     (case a of
        Some x \<Rightarrow> current_balance (acc_id x) (txns d)
      | None \<Rightarrow> dec_sum 0 (map (\<lambda>x. current_balance (acc_id x) (txns d)) (active_accounts u d)))"

definition bad_period :: exc where
  "bad_period = ValidationError (Dict [(''period'', Str
     (''Must be one of ['' @ concat (map (\<lambda>i. (if i = 0 then [] else '', '') @ [CHR 0x27] @
        fst (DASHBOARD_PERIODS ! i) @ [CHR 0x27]) [0..<5]) @ ''].''))])"

definition dashboard ::
  "(rat \<Rightarrow> rat \<Rightarrow> rat) \<Rightarrow> date \<Rightarrow> uuid \<Rightarrow> string option \<Rightarrow> uuid option \<Rightarrow> db \<Rightarrow> exc + dashboard_view" where
  "dashboard pow today u period acct d =
     (case map_of DASHBOARD_PERIODS (case_option ''this_month'' id period) of
        None \<Rightarrow> Inl bad_period
      | Some p \<Rightarrow>
          res_bind (dashboard_account u acct d) (\<lambda>a.
            case resolve_window today p of (s, e, ps, pe) \<Rightarrow>
            let worth = shown_net_worth u a d;
                goal_part = map_option (\<lambda>g. goal_progress today g d) (goal_of u d);
                score = compute_stability_score pow u d
            in Inr (case budget_of u d of
                 None \<Rightarrow> \<lparr>dv_budget = None, dv_goal = goal_part, dv_allocations = [],
                          dv_metrics = empty_metrics score, dv_net_worth = (worth, today), dv_has_plan = False\<rparr>
               | Some b \<Rightarrow>
                   (case (window_totals u s e acct d, window_totals u ps pe acct d) of
                      ((cs, ci), (ps', pi')) \<Rightarrow>
                        \<lparr>dv_budget = Some (b_id b, b_name b), dv_goal = goal_part,
                         dv_allocations = map (allocation_usage u s e acct d) (allocations_of d (b_id b)),
                         dv_metrics = \<lparr>dm_stability = score, dm_spend = cs, dm_inflow = ci, dm_prev_spend = ps',
                            dm_prev_inflow = pi', dm_spend_change = percentage_change cs ps',
                            dm_inflow_change = percentage_change ci pi'\<rparr>,
                         dv_net_worth = (worth, e), dv_has_plan = True\<rparr>))))"

subsection \<open>Starter templates\<close>

record template =
  tp_key :: string
  tp_name :: string
  tp_description :: string
  tp_allocations :: "(string \<times> rat) list"

text \<open>\<open>None\<close> is a visitor who is not signed in.\<close>

definition suggested_template :: "user option \<Rightarrow> string" where
  "suggested_template me =
     (case me of
        None \<Rightarrow> ''balanced''
      | Some x \<Rightarrow> if income_steadiness x = Some ''steady'' \<and> dependents_count x = 0
                  then ''aggressive_savings'' else ''balanced'')"

definition starter_templates :: "user option \<Rightarrow> template list \<Rightarrow> (template \<times> bool) list" where
  "starter_templates me ts = map (\<lambda>t. (t, tp_key t = suggested_template me)) ts"

end
