(* ===== verification/Budget_Laws.thy ===== *)
theory Budget_Laws
  imports Dashboard
begin

text \<open>
  What budgets, goals and the dashboard promise: one plan and one goal per user, plans that
  split the income, history before every change, statuses that agree with the amounts, and
  windows that tile the calendar.
\<close>

subsection \<open>The split of an income\<close>

lemma allocated_amount_exact:
  assumes "places 2 income" "\<bar>income\<bar> < 10 ^ 12" "places 2 p" "\<bar>p\<bar> < 1000"
  shows "allocated_amount income p = quantize_he 2 (income * p / 100)"
proof -
  obtain i j where i: "income = of_int i / 10 ^ 2" and j: "p = of_int j / 10 ^ 2"
    using assms(1,3) by (metis placesE)
  have "\<bar>of_int i :: rat\<bar> < 10 ^ 14" "\<bar>of_int j :: rat\<bar> < 10 ^ 5"
    using assms(2,4) unfolding i j by (simp_all add: abs_divide divide_less_eq)
  then have "\<bar>of_int i :: rat\<bar> * \<bar>of_int j\<bar> < 10 ^ 14 * 10 ^ 5"
    by (intro mult_strict_mono') simp_all
  then have "of_int \<bar>i * j\<bar> < (of_int (10 ^ 19) :: rat)" by (simp add: abs_mult)
  then have ij: "\<bar>i * j\<bar> < 10 ^ 28" unfolding of_int_less_iff by simp
  have "dec (income * p) = income * p" by (rule dec_exact [OF ij, of _ 4]) (simp add: i j)
  moreover have "dec (income * p / 100) = income * p / 100" by (rule dec_exact [OF ij, of _ 6]) (simp add: i j)
  ultimately show ?thesis by (simp only: allocated_amount_def)
qed

lemma allocated_amount_error:
  assumes "places 2 income" "\<bar>income\<bar> < 10 ^ 12" "places 2 p" "\<bar>p\<bar> < 1000"
  shows "\<bar>allocated_amount income p - income * p / 100\<bar> \<le> 1 / 200"
  using quantize_he_err [of 2 "income * p / 100"] by (simp add: allocated_amount_exact [OF assms])

lemma sum_error:
  "(\<And>x. x \<in> set xs \<Longrightarrow> \<bar>f x - g x\<bar> \<le> e) \<Longrightarrow> \<bar>sum_list (map f xs) - sum_list (map g xs)\<bar> \<le> of_nat (length xs) * (e :: rat)"
proof (induction xs)
  case (Cons x xs)
  have "\<bar>f x - g x\<bar> \<le> e" "\<bar>sum_list (map f xs) - sum_list (map g xs)\<bar> \<le> of_nat (length xs) * e"
    using Cons by simp_all
  then show ?case
    using abs_triangle_ineq [of "f x - g x" "sum_list (map f xs) - sum_list (map g xs)"]
    by (simp add: algebra_simps)
qed simp

text \<open>The rows an allocation list leaves: all of them, or those before the first that fails.\<close>

definition alloc_rows :: "uuid \<Rightarrow> rat \<Rightarrow> alloc_input list \<Rightarrow> (uuid \<times> uuid \<times> rat \<times> rat) list" where
  "alloc_rows b income xs = map (\<lambda>x. (b, in_category x, in_percentage x, allocated_amount income (in_percentage x))) xs"

definition alloc_data :: "allocation \<Rightarrow> uuid \<times> uuid \<times> rat \<times> rat" where
  "alloc_data a = (al_budget a, al_category a, al_percentage a, al_amount a)"

definition alloc_frame :: "db \<Rightarrow> db \<Rightarrow> bool" where
  "alloc_frame d d' \<longleftrightarrow> budgets d' = budgets d \<and> goals d' = goals d \<and> histories d' = histories d \<and>
     categories d' = categories d \<and> uuid_src d' = uuid_src d \<and> draws d \<le> draws d'"

lemma apply_allocations_rows:
  assumes "apply_allocations b xs income d = (r, d')" "distinct (map al_category (allocations_of d b))"
  shows "alloc_frame d d' \<and> (\<exists>ys zs new. xs = ys @ zs \<and> allocations d' = allocations d @ new \<and>
      map alloc_data new = alloc_rows b income ys \<and> distinct (map al_category (allocations_of d' b)) \<and>
      (r = Inr () \<longleftrightarrow> zs = []) \<and> (\<forall>e. r = Inl e \<longrightarrow> (\<exists>m. e = Unhandled m)))"
  using assms
proof (induction xs arbitrary: d)
  case Nil
  then show ?case by (auto simp: alloc_frame_def alloc_rows_def)
next
  case (Cons x xs)
  let ?amt = "allocated_amount income (in_percentage x)"
  let ?row = "\<lparr>al_id = fresh d, al_budget = b, al_category = in_category x,
      al_percentage = in_percentage x, al_amount = ?amt\<rparr>"
  let ?d = "(draw d)\<lparr>allocations := allocations d @ [?row]\<rparr>"
  show ?case
  proof (cases "10 ^ 12 \<le> \<bar>?amt\<bar> \<or> list_ex (\<lambda>a. al_category a = in_category x) (allocations_of d b)")
    case True
    with Cons.prems(1) have "d' = draw d" "\<exists>m. r = Inl (Unhandled m)"
      by (auto simp: Let_def split: if_splits)
    with Cons.prems(2) show ?thesis
      by (intro conjI exI [of _ "[]"] exI [of _ "x # xs"]) (auto simp: alloc_frame_def alloc_rows_def allocations_of_def)
  next
    case False
    have fresh_cat: "in_category x \<notin> al_category ` set (allocations_of d b)"
      using False by (auto simp: list_ex_iff)
    have at: "allocations_of ?d b = allocations_of d b @ [?row]" by (simp add: allocations_of_def)
    have eq: "apply_allocations b xs income ?d = (r, d')" using Cons.prems(1) False by (simp add: Let_def)
    have "distinct (map al_category (allocations_of ?d b))" using Cons.prems(2) fresh_cat by (simp add: at)
    from Cons.IH [OF eq this] obtain ys zs new where
      *: "alloc_frame ?d d'" "xs = ys @ zs" "allocations d' = allocations ?d @ new"
        "map alloc_data new = alloc_rows b income ys" "distinct (map al_category (allocations_of d' b))"
        "r = Inr () \<longleftrightarrow> zs = []" "\<forall>e. r = Inl e \<longrightarrow> (\<exists>m. e = Unhandled m)" by blast
    have "map alloc_data (?row # new) = alloc_rows b income (x # ys)"
      using *(4) by (simp add: alloc_rows_def alloc_data_def)
    moreover have "alloc_frame d d'" using *(1) by (simp add: alloc_frame_def)
    ultimately show ?thesis using *
      by (intro conjI exI [of _ "x # ys"] exI [of _ zs] exI [of _ "?row # new"]) simp_all
  qed
qed

subsection \<open>One plan and one goal per user\<close>

definition budget_ok :: "db \<Rightarrow> bool" where
  "budget_ok d \<longleftrightarrow>
     drawn d (map b_id (budgets d)) \<and> distinct (map b_id (budgets d)) \<and> distinct (map b_user (budgets d)) \<and>
     (\<forall>a \<in> set (allocations d). al_budget a \<in> b_id ` set (budgets d)) \<and>
     (\<forall>b. distinct (map al_category (allocations_of d b))) \<and>
     drawn d (map g_id (goals d)) \<and> distinct (map g_id (goals d)) \<and> distinct (map g_user (goals d))"

lemma budget_okD:
  assumes "budget_ok d"
  shows "drawn d (map b_id (budgets d))" "distinct (map b_id (budgets d))" "distinct (map b_user (budgets d))"
    "\<And>a. a \<in> set (allocations d) \<Longrightarrow> al_budget a \<in> b_id ` set (budgets d)"
    "\<And>b. distinct (map al_category (allocations_of d b))"
    "drawn d (map g_id (goals d))" "distinct (map g_id (goals d))" "distinct (map g_user (goals d))"
  using assms by (simp_all add: budget_ok_def)

text \<open>What changing the allocations of one existing plan keeps.\<close>

lemma budget_ok_alloc:
  assumes "budget_ok d" "alloc_frame d d'" "\<And>a. a \<in> set (allocations d') \<Longrightarrow> al_budget a \<in> b_id ` set (budgets d)"
    "\<And>b. distinct (map al_category (allocations_of d' b))"
  shows "budget_ok d'"
proof -
  have "draws d \<le> draws d'" "uuid_src d' = uuid_src d" using assms(2) by (simp_all add: alloc_frame_def)
  then have mono: "drawn d' ks" if "drawn d ks" for ks by (intro drawn_mono [OF that]) simp_all
  have "drawn d' (map b_id (budgets d))" "drawn d' (map g_id (goals d))"
    by (rule mono, rule budget_okD [OF assms(1)])+
  then show ?thesis using assms budget_okD [OF assms(1)] by (simp add: budget_ok_def alloc_frame_def)
qed

lemma apply_allocations_ok:
  assumes "budget_ok d" "b \<in> b_id ` set (budgets d)"
  shows "budget_ok (snd (apply_allocations b xs income d))"
proof -
  obtain r d' where e: "apply_allocations b xs income d = (r, d')" by (cases "apply_allocations b xs income d")
  from apply_allocations_rows [OF e budget_okD(5) [OF assms(1)]] obtain ys new where
    *: "alloc_frame d d'" "allocations d' = allocations d @ new" "map alloc_data new = alloc_rows b income ys"
      "distinct (map al_category (allocations_of d' b))" by blast
  have new: "al_budget a = b" if "a \<in> set new" for a
  proof -
    have "alloc_data a \<in> set (alloc_rows b income ys)" using that *(3) by (metis imageI set_map)
    then show ?thesis by (auto simp: alloc_rows_def alloc_data_def)
  qed
  have "distinct (map al_category (allocations_of d' c))" for c
  proof (cases "c = b")
    case False
    then have "allocations_of d' c = allocations_of d c" using new by (auto simp: allocations_of_def *(2) filter_empty_conv)
    then show ?thesis using budget_okD(5) [OF assms(1)] by simp
  qed (use *(4) in simp)
  moreover have "al_budget a \<in> b_id ` set (budgets d)" if "a \<in> set (allocations d')" for a
    using that budget_okD(4) [OF assms(1)] new assms(2) by (auto simp: *(2))
  ultimately show ?thesis using budget_ok_alloc [OF assms(1) *(1)] e by simp
qed

lemma budget_ok_new:
  assumes "budget_ok d" "u \<notin> b_user ` set (budgets d)" "b_user b = u" "b_id b = fresh d"
  shows "budget_ok ((draw d)\<lparr>budgets := budgets d @ [b]\<rparr>)"
proof -
  note ok = budget_okD [OF assms(1)]
  have "fresh d \<notin> set (map b_id (budgets d))" by (rule fresh_not_drawn [OF ok(1)])
  moreover have "drawn ((draw d)\<lparr>budgets := budgets d @ [b]\<rparr>) (map b_id (budgets d) @ [fresh d])"
    by (rule drawn_fresh [OF ok(1)]) simp_all
  moreover have "drawn ((draw d)\<lparr>budgets := budgets d @ [b]\<rparr>) (map g_id (goals d))"
    by (rule drawn_mono [OF ok(6)]) simp_all
  ultimately show ?thesis
    using ok assms by (simp add: budget_ok_def allocations_of_def)
qed

text \<open>The plan a creation inserts, and the two ways a creation goes.\<close>

definition planned :: "user \<Rightarrow> budget_data \<Rightarrow> db \<Rightarrow> budget" where
  "planned me x d = \<lparr>b_id = fresh d, b_user = user_id me, b_name = str_or (bd_name x) ''My Plan'',
     b_template_key = bd_template x\<rparr>"

lemma planned_simps [simp]: "b_id (planned me x d) = fresh d" "b_user (planned me x d) = user_id me"
  by (simp_all add: planned_def)

lemma user_has_no_budget: "filter (\<lambda>b. b_user b = u) (budgets d) = [] \<longleftrightarrow> u \<notin> b_user ` set (budgets d)"
  by (auto simp: filter_empty_conv)

lemma validate_sum_cases:
  "validate_allocations_sum_100 xs = Inr () \<or> (\<exists>es. validate_allocations_sum_100 xs = Inl (ValidationError es))"
  by (simp add: validate_allocations_sum_100_def guard_res_def field_error_def Let_def)

lemma post_budget_cases:
  obtains (taken) "user_id me \<in> b_user ` set (budgets d)"
      "post_budget me v d = (Inl (ConflictError ''A budget plan already exists for this user. Use PATCH /budget to update it.''), d)"
  | (invalid) es where "user_id me \<notin> b_user ` set (budgets d)" "post_budget me v d = (Inl (ValidationError es), d)"
      "\<And>x. v = Inr x \<Longrightarrow> validate_allocations_sum_100 (bd_allocations x) \<noteq> Inr ()"
  | (tried) x r d2 where "user_id me \<notin> b_user ` set (budgets d)" "v = Inr x"
      "validate_allocations_sum_100 (bd_allocations x) = Inr ()"
      "apply_allocations (fresh d) (bd_allocations x) (income_of me) ((draw d)\<lparr>budgets := budgets d @ [planned me x d]\<rparr>) = (r, d2)"
      "post_budget me v d = (map_sum id (\<lambda>_. serialize_budget (planned me x d) d2) r, d2)"
proof (cases "user_id me \<in> b_user ` set (budgets d)")
  case True
  then show ?thesis by (intro taken) (simp_all add: post_budget_def user_has_no_budget)
next
  case False
  show ?thesis
  proof (cases v)
    case (Inl es)
    then show ?thesis using False by (intro invalid [of es]) (simp_all add: post_budget_def user_has_no_budget)
  next
    case (Inr x)
    show ?thesis
    proof (cases "validate_allocations_sum_100 (bd_allocations x)")
      case (Inl e)
      then obtain es where "e = ValidationError es" using validate_sum_cases [of "bd_allocations x"] by auto
      then show ?thesis using False Inl Inr
        by (intro invalid [of es]) (simp_all add: post_budget_def user_has_no_budget)
    next
      case ok: (Inr w)
      obtain r d2 where e: "apply_allocations (fresh d) (bd_allocations x) (income_of me)
          ((draw d)\<lparr>budgets := budgets d @ [planned me x d]\<rparr>) = (r, d2)"
        by (cases "apply_allocations (fresh d) (bd_allocations x) (income_of me)
          ((draw d)\<lparr>budgets := budgets d @ [planned me x d]\<rparr>)")
      then show ?thesis using False Inr ok
        by (intro tried [of x r d2])
          (auto simp: post_budget_def user_has_no_budget planned_def Let_def split: sum.splits)
    qed
  qed
qed

lemma post_budget_ok:
  assumes "budget_ok d"
  shows "budget_ok (snd (post_budget me v d))"
proof (cases rule: post_budget_cases [of me d v])
  case (tried x r d2)
  have "budget_ok ((draw d)\<lparr>budgets := budgets d @ [planned me x d]\<rparr>)"
    by (rule budget_ok_new [OF assms tried(1)]) simp_all
  from apply_allocations_ok [OF this, of "fresh d" "bd_allocations x" "income_of me"] tried(4,5)
  show ?thesis by simp
qed (use assms in simp_all)

text \<open>A plan change: refused, or a history row, a save and the new allocations.\<close>

definition prepared :: "int \<Rightarrow> budget_patch \<Rightarrow> budget \<Rightarrow> db \<Rightarrow> db" where
  "prepared now p b d = (record_history now (bp_via p) b d)
     \<lparr>budgets := save_row b_id (apply_budget_patch p b) (budgets d)\<rparr>"

lemma apply_budget_patch_simps [simp]:
  "b_id (apply_budget_patch p b) = b_id b" "b_user (apply_budget_patch p b) = b_user b"
  by (simp_all add: apply_budget_patch_def)

lemma record_history_simps [simp]:
  "budgets (record_history now via b d) = budgets d" "allocations (record_history now via b d) = allocations d"
  "goals (record_history now via b d) = goals d" "uuid_src (record_history now via b d) = uuid_src d"
  "draws (record_history now via b d) = Suc (draws d)" "categories (record_history now via b d) = categories d"
  by (simp_all add: record_history_def draw_def)

lemma patch_budget_cases:
  obtains (missing) "budget_of (user_id me) d = None" "patch_budget now me v d = (Inl (Http404 ''No Budget matches the given query.''), d)"
  | (invalid) b es where "budget_of (user_id me) d = Some b" "patch_budget now me v d = (Inl (ValidationError es), d)"
  | (changed) b p r d3 where "budget_of (user_id me) d = Some b" "v = Inr p"
      "\<And>xs. bp_allocations p = Some xs \<Longrightarrow> validate_allocations_sum_100 xs = Inr ()"
      "replace_allocations (b_id b) (bp_allocations p) (income_of me) (prepared now p b d) = (r, d3)"
      "patch_budget now me v d = (map_sum id (\<lambda>_. serialize_budget (apply_budget_patch p b) d3) r,
         case r of Inl _ \<Rightarrow> d3 | Inr _ \<Rightarrow> emit (Notified (user_id me) ''Your budget plan was updated'') d3)"
proof (cases "budget_of (user_id me) d")
  case None
  then show ?thesis by (intro missing) (simp_all add: patch_budget_def)
next
  case (Some b)
  show ?thesis
  proof (cases v)
    case (Inl es)
    then show ?thesis using Some by (intro invalid [of b es]) (simp_all add: patch_budget_def)
  next
    case (Inr p)
    consider (bad) xs es where "bp_allocations p = Some xs" "validate_allocations_sum_100 xs = Inl (ValidationError es)"
      | (good) "\<And>xs. bp_allocations p = Some xs \<Longrightarrow> validate_allocations_sum_100 xs = Inr ()"
      using validate_sum_cases [of "the (bp_allocations p)"] by (cases "bp_allocations p") auto
    then show ?thesis
    proof cases
      case bad
      then show ?thesis using Some Inr by (intro invalid [of b es]) (simp_all add: patch_budget_def)
    next
      case good
      obtain r d3 where e: "replace_allocations (b_id b) (bp_allocations p) (income_of me) (prepared now p b d) = (r, d3)"
        by (cases "replace_allocations (b_id b) (bp_allocations p) (income_of me) (prepared now p b d)")
      have ok: "(case bp_allocations p of None \<Rightarrow> Inr p
          | Some xs \<Rightarrow> res_bind (validate_allocations_sum_100 xs) (\<lambda>_. Inr p)) = (Inr p :: exc + budget_patch)"
        by (cases "bp_allocations p") (simp_all add: good)
      have "patch_budget now me v d = (map_sum id (\<lambda>_. serialize_budget (apply_budget_patch p b) d3) r,
         case r of Inl _ \<Rightarrow> d3 | Inr _ \<Rightarrow> emit (Notified (user_id me) ''Your budget plan was updated'') d3)"
        using e by (cases r) (simp_all add: patch_budget_def Some Inr ok prepared_def Let_def)
      then show ?thesis using Some Inr good e by (intro changed [of b p r d3])
    qed
  qed
qed

lemma allocations_of_clear: "allocations_of (clear_allocations b d) c = (if c = b then [] else allocations_of d c)"
proof -
  have "filter (\<lambda>a. al_budget a \<noteq> b \<and> al_budget a = c) xs = (if c = b then [] else filter (\<lambda>a. al_budget a = c) xs)" for xs
    by (induction xs) auto
  from this [of "allocations d"] show ?thesis by (simp add: allocations_of_def clear_allocations_def)
qed

lemma clear_allocations_ok:
  assumes "budget_ok d"
  shows "budget_ok (clear_allocations b d)"
  using budget_okD [OF assms] by (simp add: budget_ok_def allocations_of_clear) (simp add: clear_allocations_def drawn_def)

lemma prepared_ok:
  assumes "budget_ok d" "budget_of u d = Some b"
  shows "budget_ok (prepared now p b d)" "b_id b \<in> b_id ` set (budgets (prepared now p b d))"
proof -
  note ok = budget_okD [OF assms(1)]
  have b: "b \<in> set (budgets d)" "b_user b = u"
    using assms(2) by (auto simp: budget_of_def dest: first_pk_filterD)
  have users: "map b_user (budgets (prepared now p b d)) = map b_user (budgets d)"
    by (simp add: prepared_def) (rule map_save_row, use ok(2) b in \<open>auto dest: inj_onD simp: distinct_map\<close>)
  have ids: "map b_id (budgets (prepared now p b d)) = map b_id (budgets d)" by (simp add: prepared_def)
  then have ids': "b_id ` set (budgets (prepared now p b d)) = b_id ` set (budgets d)" by (metis set_map)
  have mono: "drawn (prepared now p b d) ks" if "drawn d ks" for ks
    by (rule drawn_mono [OF that]) (simp_all add: prepared_def)
  have al: "allocations (prepared now p b d) = allocations d" "goals (prepared now p b d) = goals d"
    by (simp_all add: prepared_def)
  show "budget_ok (prepared now p b d)"
    unfolding budget_ok_def ids users ids' al allocations_of_def
    using ok mono by (simp add: allocations_of_def)
  show "b_id b \<in> b_id ` set (budgets (prepared now p b d))" using b(1) by (simp add: ids')
qed

lemma replace_allocations_ok:
  assumes "budget_ok d" "b \<in> b_id ` set (budgets d)"
  shows "budget_ok (snd (replace_allocations b xs income d))"
proof (cases xs)
  case (Some ys)
  have "b \<in> b_id ` set (budgets (clear_allocations b d))" using assms(2) by (simp add: clear_allocations_def)
  from apply_allocations_ok [OF clear_allocations_ok [OF assms(1)] this] show ?thesis
    by (simp add: replace_allocations_def Some)
qed (simp add: replace_allocations_def assms)

lemma budget_ok_emit: "budget_ok (emit e d) = budget_ok d"
  by (simp add: budget_ok_def emit_def drawn_def allocations_of_def)

lemma patch_budget_ok:
  assumes "budget_ok d"
  shows "budget_ok (snd (patch_budget now me v d))"
proof (cases rule: patch_budget_cases [of me d now v])
  case (changed b p r d3)
  note ok = prepared_ok [OF assms changed(1), of now p]
  from replace_allocations_ok [OF ok, of "bp_allocations p" "income_of me"]
  have "budget_ok d3" by (simp add: changed(4))
  then show ?thesis using changed(5) by (simp add: budget_ok_emit split: sum.split)
qed (use assms in simp_all)

lemma insert_goal_ok:
  assumes "budget_ok d" "filter (\<lambda>g. g_user g = u) (goals d) = []" "g_user g = u" "g_id g = fresh d"
  shows "budget_ok (insert_goal g d)"
proof -
  note ok = budget_okD [OF assms(1)]
  have "fresh d \<notin> set (map g_id (goals d))" by (rule fresh_not_drawn [OF ok(6)])
  moreover have "u \<notin> g_user ` set (goals d)" using assms(2) by (auto simp: filter_empty_conv)
  moreover have "drawn (insert_goal g d) (map g_id (goals d) @ [fresh d])"
    by (rule drawn_fresh [OF ok(6)]) (simp_all add: insert_goal_def)
  moreover have "drawn (insert_goal g d) (map b_id (budgets d))"
    by (rule drawn_mono [OF ok(1)]) (simp_all add: insert_goal_def)
  ultimately show ?thesis
    using ok assms(3,4) by (simp add: budget_ok_def insert_goal_def allocations_of_def)
qed

lemma save_goal_ok:
  assumes "budget_ok d" "g \<in> set (goals d)" "g_id g' = g_id g" "g_user g' = g_user g"
  shows "budget_ok (save_goal g' d)"
proof -
  note ok = budget_okD [OF assms(1)]
  have "map g_user (goals (save_goal g' d)) = map g_user (goals d)"
    by (simp add: save_goal_def) (rule map_save_row, use ok(7) assms(2-4) in \<open>auto dest: inj_onD simp: distinct_map\<close>)
  moreover have "map g_id (goals (save_goal g' d)) = map g_id (goals d)" by (simp add: save_goal_def)
  ultimately show ?thesis
    unfolding budget_ok_def using ok by (simp add: save_goal_def allocations_of_def drawn_def)
qed

lemma delete_goal_ok: "budget_ok d \<Longrightarrow> budget_ok (snd (delete_goal u d))"
  by (auto simp: budget_ok_def delete_goal_def allocations_of_def drawn_def distinct_map_filter split: option.splits)

lemma goal_of_in: "goal_of u d = Some g \<Longrightarrow> g \<in> set (goals d) \<and> g_user g = u"
  unfolding goal_of_def by (rule first_pk_filterD)

lemma goal_of_None: "goal_of u d = None \<longleftrightarrow> filter (\<lambda>g. g_user g = u) (goals d) = []"
  by (simp add: goal_of_def)

lemma new_goal_simps [simp]: "g_id (new_goal today u x d) = fresh d" "g_user (new_goal today u x d) = u"
  "g_created (new_goal today u x d) = today" "g_months (new_goal today u x d) = gd_months x"
  by (simp_all add: new_goal_def)

lemma apply_goal_patch_simps [simp]: "g_id (apply_goal_patch p g) = g_id g" "g_user (apply_goal_patch p g) = g_user g"
  "g_created (apply_goal_patch p g) = g_created g"
  by (simp_all add: apply_goal_patch_def)

lemma post_goal_ok: "budget_ok d \<Longrightarrow> budget_ok (snd (post_goal today u v d))"
  by (simp add: post_goal_def Let_def insert_goal_ok split: sum.split)

lemma patch_goal_ok: "budget_ok d \<Longrightarrow> budget_ok (snd (patch_goal today u v d))"
  by (cases "goal_of u d"; cases v)
    (simp_all add: patch_goal_def Let_def, rule save_goal_ok, assumption, rule goal_of_in [THEN conjunct1], simp_all)

lemma patch_dashboard_goal_ok:
  assumes "budget_ok d"
  shows "budget_ok (snd (patch_dashboard_goal today u v d))"
proof (cases v)
  case v: (Some w)
  show ?thesis
  proof (cases w)
    case (Inr x)
    show ?thesis
    proof (cases "goal_of u d")
      case None
      then have "filter (\<lambda>g. g_user g = u) (goals d) = []" by (simp add: goal_of_None)
      from insert_goal_ok [OF assms this, of "new_goal today u x d"] show ?thesis
        by (simp add: patch_dashboard_goal_def v Inr None Let_def)
    next
      case (Some g)
      from save_goal_ok [OF assms goal_of_in [OF Some, THEN conjunct1]] show ?thesis
        by (simp add: patch_dashboard_goal_def v Inr Some Let_def)
    qed
  qed (simp add: patch_dashboard_goal_def v assms)
qed (simp add: patch_dashboard_goal_def assms)

text \<open>Everything a user can do with plans and goals.\<close>

inductive budget_step :: "db \<Rightarrow> db \<Rightarrow> bool" where
  create: "budget_step d (snd (post_budget me v d))"
| change: "budget_step d (snd (patch_budget now me w d))"
| set_goal: "budget_step d (snd (post_goal today u x d))"
| change_goal: "budget_step d (snd (patch_goal today u y d))"
| drop_goal: "budget_step d (snd (delete_goal u d))"
| dashboard_goal: "budget_step d (snd (patch_dashboard_goal today u z d))"

lemma budget_step_ok: "budget_step d d' \<Longrightarrow> budget_ok d \<Longrightarrow> budget_ok d'"
  by (induction rule: budget_step.induct)
    (simp_all add: post_budget_ok patch_budget_ok post_goal_ok patch_goal_ok delete_goal_ok patch_dashboard_goal_ok)


definition sample_user :: user where
  "sample_user = \<lparr>user_id = 1, user_name = ''Mona'', user_email = ''m@b.eg'', user_phone = None,
     employment_status = None, income_bracket = None, monthly_income = Some 10000, income_steadiness = None,
     dependents_count = 0, user_status = ''active'', email_verified = True, password = None\<rparr>"

definition sample_plan :: budget_data where
  "sample_plan = \<lparr>bd_name = None, bd_template = None,
     bd_allocations = [\<lparr>in_category = 7, in_percentage = 70\<rparr>, \<lparr>in_category = 8, in_percentage = 30\<rparr>]\<rparr>"

lemma empty_budget_ok: "budget_ok empty_db"
  by (simp add: budget_ok_def empty_db_def drawn_def allocations_of_def)


lemma apply_allocations_frame: "alloc_frame d (snd (apply_allocations b xs income d))"
proof (induction xs arbitrary: d)
  case (Cons x xs)
  have "alloc_frame d (draw d)" by (simp add: alloc_frame_def)
  moreover have "alloc_frame d (snd (apply_allocations b xs income ((draw d)\<lparr>allocations := as\<rparr>)))" for as
    using Cons.IH [of "(draw d)\<lparr>allocations := as\<rparr>"] by (simp add: alloc_frame_def)
  ultimately show ?case by (simp add: Let_def)
qed (simp add: alloc_frame_def)

lemma post_budget_leaves_plan:
  assumes "post_budget me v d = (Inl (Unhandled m), d')"
  shows "user_id me \<in> b_user ` set (budgets d')"
proof (cases rule: post_budget_cases [of me d v])
  case (tried x r d2)
  have "d2 = snd (apply_allocations (fresh d) (bd_allocations x) (income_of me) ((draw d)\<lparr>budgets := budgets d @ [planned me x d]\<rparr>))"
    by (simp add: tried(4))
  then have "budgets d2 = budgets d @ [planned me x d]"
    using apply_allocations_frame by (simp add: alloc_frame_def)
  then show ?thesis using assms tried(5) by simp
qed (use assms in simp_all)

text \<open>A creation that breaks down (a repeated category, an amount too large for its column)
  leaves the half-made plan behind, so every later creation of that user is refused as a
  conflict: the request cannot be retried.\<close>

theorem failed_plan_blocks_retry:
  assumes "post_budget me v d = (Inl (Unhandled m), d')" "user_id me' = user_id me"
  shows "\<exists>s. post_budget me' v' d' = (Inl (ConflictError s), d')"
proof (cases rule: post_budget_cases [of me' d' v'])
  case taken
  then show ?thesis by blast
qed (use post_budget_leaves_plan [OF assms(1)] assms(2) in simp_all)

lemma sum_100_ok: "map in_percentage xs = [70, 30] \<Longrightarrow> validate_allocations_sum_100 xs = Inr ()"
  using dec_of_int [of 70] by (simp add: validate_allocations_sum_100_def guard_res_def)

definition doubled_plan :: budget_data where
  "doubled_plan = \<lparr>bd_name = None, bd_template = None,
     bd_allocations = [\<lparr>in_category = 7, in_percentage = 70\<rparr>, \<lparr>in_category = 7, in_percentage = 30\<rparr>]\<rparr>"

lemma sample_amounts: "allocated_amount 10000 70 = 7000" "allocated_amount 10000 30 = 3000"
proof -
  have int: "places 2 (of_int k :: rat)" for k by (rule placesI [of _ _ "k * 100"]) simp
  show "allocated_amount 10000 70 = 7000" "allocated_amount 10000 30 = 3000"
    using int [of 10000] int [of 70] int [of 30] int [of 7000] int [of 3000]
    by (simp_all add: allocated_amount_exact quantize_he_places)
qed

lemma doubled_plan_fails:
  "\<exists>d'. post_budget sample_user (Inr doubled_plan) empty_db = (Inl (Unhandled ''IntegrityError''), d')"
proof -
  have valid: "validate_allocations_sum_100 (bd_allocations doubled_plan) = Inr ()"
    by (rule sum_100_ok) (simp_all add: doubled_plan_def)
  have broken: "fst (apply_allocations i (bd_allocations doubled_plan) (income_of sample_user)
      ((draw empty_db)\<lparr>budgets := bs\<rparr>)) = Inl (Unhandled ''IntegrityError'')" for i bs
    by (simp add: doubled_plan_def income_of_def sample_user_def sample_amounts Let_def allocations_of_def empty_db_def)
  show ?thesis
  proof (cases rule: post_budget_cases [of sample_user empty_db "Inr doubled_plan"])
    case taken
    then show ?thesis by (simp add: empty_db_def)
  next
    case (tried x r d2)
    then have "r = Inl (Unhandled ''IntegrityError'')"
      using broken [of "fresh empty_db" "budgets empty_db @ [planned sample_user x empty_db]"] by simp
    then show ?thesis using tried(5) by simp
  qed (use valid in simp)
qed

theorem failed_plan_blocks_retry_witness:
  "\<exists>d' s. post_budget sample_user (Inr doubled_plan) empty_db = (Inl (Unhandled ''IntegrityError''), d') \<and>
     post_budget sample_user (Inr sample_plan) d' = (Inl (ConflictError s), d')"
  using doubled_plan_fails failed_plan_blocks_retry by blast

lemma dec_sum_signed:
  "places 2 acc \<Longrightarrow> \<forall>x \<in> set xs. places 2 x \<and> \<bar>x\<bar> < 1000 \<Longrightarrow> \<bar>acc\<bar> + of_nat (length xs) * 1000 \<le> 10 ^ 12 \<Longrightarrow>
   dec_sum acc xs = acc + sum_list xs"
proof (induction xs arbitrary: acc)
  case (Cons x xs)
  have p: "places 2 (acc + x)" using Cons.prems by simp
  have x: "\<bar>acc + x\<bar> \<le> \<bar>acc\<bar> + 1000" using Cons.prems(2) abs_triangle_ineq [of acc x] by simp
  then have b: "\<bar>acc + x\<bar> + of_nat (length xs) * 1000 \<le> 10 ^ 12" using Cons.prems(3) by (simp add: algebra_simps)
  have small: "\<bar>acc + x\<bar> \<le> 10 ^ 12"
    by (rule order_trans [OF _ b]) simp
  from p obtain k where k: "acc + x = of_int k / 10 ^ 2" by (rule placesE)
  have "of_int \<bar>k\<bar> \<le> (of_int (10 ^ 14) :: rat)" using small by (simp add: k abs_divide divide_le_eq)
  then have "\<bar>k\<bar> < 10 ^ 28" unfolding of_int_le_iff by simp
  then have "dec (acc + x) = acc + x" by (rule dec_exact [of _ _ 2]) (simp add: k)
  then show ?case using Cons.IH [OF p _ b] Cons.prems(2) by (simp add: add.assoc)
qed simp

lemma validated_sum:
  assumes "validate_allocations_sum_100 xs = Inr ()" "length xs \<le> 1000000"
    "\<forall>y \<in> set xs. places 2 (in_percentage y) \<and> \<bar>in_percentage y\<bar> < 1000"
  shows "sum_list (map in_percentage xs) = 100"
proof -
  have "of_nat (length xs) \<le> (of_nat 1000000 :: rat)" using assms(2) unfolding of_nat_le_iff .
  then have "of_nat (length xs) * 1000 \<le> (10 ^ 12 :: rat)" by simp
  then have "dec_sum 0 (map in_percentage xs) = 0 + sum_list (map in_percentage xs)"
    using assms(3) by (intro dec_sum_signed) auto
  then show ?thesis using assms(1)
    by (simp add: validate_allocations_sum_100_def guard_res_def Let_def split: if_splits)
qed

text \<open>What a plan made of an allocation list looks like.\<close>

definition splits_income :: "rat \<Rightarrow> alloc_input list \<Rightarrow> allocation list \<Rightarrow> bool" where
  "splits_income income xs rows \<longleftrightarrow>
     map (\<lambda>a. (al_category a, al_percentage a)) rows = map (\<lambda>y. (in_category y, in_percentage y)) xs \<and>
     distinct (map al_category rows) \<and> sum_list (map al_percentage rows) = 100 \<and>
     \<bar>sum_list (map al_amount rows) - income\<bar> \<le> of_nat (length rows) / 200"

definition fits_columns :: "rat \<Rightarrow> alloc_input list \<Rightarrow> bool" where
  "fits_columns income xs \<longleftrightarrow> places 2 income \<and> \<bar>income\<bar> < 10 ^ 12 \<and> length xs \<le> 1000000 \<and>
     (\<forall>y \<in> set xs. places 2 (in_percentage y) \<and> \<bar>in_percentage y\<bar> < 1000)"

lemma rows_split_income:
  assumes "fits_columns income xs" "validate_allocations_sum_100 xs = Inr ()"
    "map alloc_data rows = alloc_rows b income xs" "distinct (map al_category rows)"
  shows "splits_income income xs rows"
proof -
  have get: "map (\<lambda>a. h (alloc_data a)) rows = map (\<lambda>x. h (b, in_category x, in_percentage x, allocated_amount income (in_percentage x))) xs" for h
    using arg_cong [OF assms(3), of "map h"] by (simp add: alloc_rows_def comp_def)
  have shape: "map (\<lambda>a. (al_category a, al_percentage a)) rows = map (\<lambda>y. (in_category y, in_percentage y)) xs"
    using get [of "\<lambda>(i, c, p, m). (c, p)"] by (simp add: alloc_data_def)
  have pct: "map al_percentage rows = map in_percentage xs"
    using get [of "\<lambda>(i, c, p, m). p"] by (simp add: alloc_data_def)
  have amt: "map al_amount rows = map (\<lambda>x. allocated_amount income (in_percentage x)) xs"
    using get [of "\<lambda>(i, c, p, m). m"] by (simp add: alloc_data_def)
  have sum: "sum_list (map in_percentage xs) = 100"
    using validated_sum assms(1,2) by (simp add: fits_columns_def)
  have "sum_list (map (\<lambda>x. income * in_percentage x / 100) ys) = income * sum_list (map in_percentage ys) / 100" for ys
    by (induction ys) (simp_all add: algebra_simps add_divide_distrib)
  from this [of xs] have "sum_list (map (\<lambda>x. income * in_percentage x / 100) xs) = income" by (simp add: sum)
  moreover have "\<bar>sum_list (map (\<lambda>x. allocated_amount income (in_percentage x)) xs)
      - sum_list (map (\<lambda>x. income * in_percentage x / 100) xs)\<bar> \<le> of_nat (length xs) * (1 / 200)"
    by (rule sum_error, rule allocated_amount_error) (use assms(1) in \<open>auto simp: fits_columns_def\<close>)
  moreover have "length rows = length xs" using arg_cong [OF amt, of length] by simp
  ultimately show ?thesis using shape assms(4) sum by (simp add: splits_income_def pct amt)
qed

lemma no_rows_yet:
  assumes "budget_ok d" "i \<notin> b_id ` set (budgets d)"
  shows "filter (\<lambda>a. al_budget a = i) (allocations d) = []"
proof -
  have "al_budget a \<noteq> i" if "a \<in> set (allocations d)" for a using budget_okD(4) [OF assms(1) that] assms(2) by blast
  then show ?thesis by (simp add: filter_empty_conv)
qed

lemma new_rows_of:
  assumes "budget_ok d" "i \<notin> b_id ` set (budgets d)" "allocations d' = allocations d @ new"
    "map alloc_data new = alloc_rows i income xs"
  shows "allocations_of d' i = new"
proof -
  note no_rows_yet [OF assms(1,2)]
  moreover have "al_budget a = i" if "a \<in> set new" for a
  proof -
    have "alloc_data a \<in> set (alloc_rows i income xs)" using that assms(4) by (metis imageI set_map)
    then show ?thesis by (auto simp: alloc_rows_def alloc_data_def)
  qed
  ultimately show ?thesis by (simp add: allocations_of_def assms(3))
qed

text \<open>C14. A plan that is created splits the income: its rows are the request's items in order,
  one per category, the percentages add up to exactly 100, and the rounded amounts add up to
  the monthly income within half a piastre per row.\<close>

theorem created_plan_splits_income:
  assumes "budget_ok d" "post_budget me (Inr x) d = (Inr w, d')"
    "fits_columns (income_of me) (bd_allocations x)"
  shows "\<exists>b. budget_of (user_id me) d' = Some b \<and>
    splits_income (income_of me) (bd_allocations x) (allocations_of d' (b_id b)) \<and>
    w = serialize_budget b d'"
proof (cases rule: post_budget_cases [of me d "Inr x"])
  case (tried y r d2)
  let ?d1 = "(draw d)\<lparr>budgets := budgets d @ [planned me x d]\<rparr>"
  have y: "y = x" "r = Inr ()" "d2 = d'" "w = serialize_budget (planned me x d) d'"
    using tried(2,5) assms(2) by (cases r; auto)+
  have new: "fresh d \<notin> b_id ` set (budgets d)" using fresh_not_drawn [OF budget_okD(1) [OF assms(1)]] by simp
  have "allocations_of ?d1 (fresh d) = []"
    using no_rows_yet [OF assms(1) new] by (simp add: allocations_of_def)
  with apply_allocations_rows [OF tried(4)] y obtain ys zs rows where
    *: "alloc_frame ?d1 d'" "bd_allocations x = ys @ zs" "allocations d' = allocations ?d1 @ rows"
      "map alloc_data rows = alloc_rows (fresh d) (income_of me) ys"
      "distinct (map al_category (allocations_of d' (fresh d)))" "zs = []" by auto
  have at: "allocations_of d' (fresh d) = rows"
    by (rule new_rows_of [OF assms(1) new _ *(4)]) (use *(3) in simp)
  have "splits_income (income_of me) (bd_allocations x) rows"
    by (rule rows_split_income [OF assms(3), of _ "fresh d"]) (use *(2,4-6) at tried(3) y in simp_all)
  moreover have "budget_of (user_id me) d' = Some (planned me x d)"
  proof -
    have "filter (\<lambda>b. b_user b = user_id me) (budgets d) = []" using tried(1) by (simp add: user_has_no_budget)
    then show ?thesis using *(1) by (simp add: budget_of_def alloc_frame_def)
  qed
  ultimately show ?thesis using y(4) at by simp
qed (use assms(2) in simp_all)

lemma sample_plan_made:
  "\<exists>w d'. post_budget sample_user (Inr sample_plan) empty_db = (Inr w, d')"
proof -
  have valid: "validate_allocations_sum_100 (bd_allocations sample_plan) = Inr ()"
    by (rule sum_100_ok) (simp_all add: sample_plan_def)
  have made: "fst (apply_allocations i (bd_allocations sample_plan) (income_of sample_user)
      ((draw empty_db)\<lparr>budgets := bs\<rparr>)) = Inr ()" for i bs
    by (simp add: sample_plan_def income_of_def sample_user_def sample_amounts Let_def allocations_of_def empty_db_def)
  show ?thesis
  proof (cases rule: post_budget_cases [of sample_user empty_db "Inr sample_plan"])
    case taken
    then show ?thesis by (simp add: empty_db_def)
  next
    case (tried x r d2)
    then have "r = Inr ()"
      using made [of "fresh empty_db" "budgets empty_db @ [planned sample_user x empty_db]"] by simp
    then show ?thesis using tried(5) by simp
  qed (use valid in simp)
qed

lemma sample_plan_fits: "fits_columns (income_of sample_user) (bd_allocations sample_plan)"
proof -
  have int: "places 2 (of_int k :: rat)" for k by (rule placesI [of _ _ "k * 100"]) simp
  show ?thesis using int [of 10000] int [of 70] int [of 30]
    by (simp add: fits_columns_def sample_plan_def income_of_def sample_user_def)
qed

theorem created_plan_splits_income_witness:
  "\<exists>w d' b. post_budget sample_user (Inr sample_plan) empty_db = (Inr w, d') \<and>
     budget_of (user_id sample_user) d' = Some b \<and>
     splits_income 10000 (bd_allocations sample_plan) (allocations_of d' (b_id b))"
proof -
  obtain w d' where e: "post_budget sample_user (Inr sample_plan) empty_db = (Inr w, d')"
    using sample_plan_made by blast
  have "income_of sample_user = 10000" by (simp add: income_of_def sample_user_def)
  then show ?thesis
    using created_plan_splits_income [OF empty_budget_ok e sample_plan_fits] e by auto
qed

subsection \<open>History\<close>

lemma replace_allocations_frame:
  "histories (snd (replace_allocations b xs income d)) = histories d"
proof (cases xs)
  case (Some ys)
  have "alloc_frame (clear_allocations b d) (snd (apply_allocations b ys income (clear_allocations b d)))"
    by (rule apply_allocations_frame)
  then show ?thesis by (simp add: replace_allocations_def Some alloc_frame_def clear_allocations_def)
qed (simp add: replace_allocations_def)

lemma apply_allocations_error: "fst (apply_allocations b xs income d) = Inl e \<Longrightarrow> \<exists>m. e = Unhandled m"
  by (induction xs arbitrary: d) (auto simp: Let_def split: if_splits)

lemma replace_allocations_error: "fst (replace_allocations b xs income d) = Inl e \<Longrightarrow> \<exists>m. e = Unhandled m"
  by (cases xs) (auto simp: replace_allocations_def dest: apply_allocations_error)

text \<open>What one plan change may do to the history.\<close>

definition records_plan :: "int \<Rightarrow> string \<Rightarrow> budget \<Rightarrow> db \<Rightarrow> db \<Rightarrow> bool" where
  "records_plan now via b d d' \<longleftrightarrow> (\<exists>i. histories d' = histories d @
     [\<lparr>h_id = i, h_budget = b_id b, h_previous = budget_snapshot (b_id b) d, h_changed_via = via, h_changed_at = now\<rparr>])"

text \<open>C15. A plan change that passes validation puts the plan as it was on record, once, before it
  touches anything, and the record stays even when the new allocations break down half-way;
  a change that is refused leaves the database alone.\<close>

theorem change_keeps_old_plan:
  assumes "budget_of (user_id me) d = Some b" "patch_budget now me v d = (r, d')"
  shows "case r of
      Inr _ \<Rightarrow> \<exists>p. v = Inr p \<and> records_plan now (bp_via p) b d d'
    | Inl (Unhandled _) \<Rightarrow> \<exists>p. v = Inr p \<and> records_plan now (bp_via p) b d d'
    | Inl _ \<Rightarrow> d' = d"
proof (cases rule: patch_budget_cases [of me d now v])
  case (changed b' p q d3)
  have "d3 = snd (replace_allocations (b_id b) (bp_allocations p) (income_of me) (prepared now p b d))"
    using changed(1,4) assms(1) by simp
  then have "histories d3 = histories (prepared now p b d)" by (simp add: replace_allocations_frame)
  then have rec3: "records_plan now (bp_via p) b d d3"
    by (auto simp: records_plan_def prepared_def record_history_def draw_def)
  then have "records_plan now (bp_via p) b d d'"
    using changed(5) assms(2) by (auto simp: records_plan_def emit_def split: sum.splits)
  moreover have "\<exists>m. r = Inl (Unhandled m)" if "r = Inl e" for e
    using replace_allocations_error [of "b_id b'" "bp_allocations p" "income_of me" "prepared now p b' d"]
      changed(4,5) assms(2) that by (cases q) auto
  ultimately show ?thesis using changed(2) by (cases r) auto
qed (use assms in \<open>auto split: sum.split exc.split\<close>)

definition one_plan :: db where
  "one_plan = empty_db\<lparr>draws := 1, budgets := [\<lparr>b_id = 0, b_user = 1, b_name = ''Plan'', b_template_key = None\<rparr>]\<rparr>"

lemma one_plan_simps: "budget_of 1 one_plan = Some \<lparr>b_id = 0, b_user = 1, b_name = ''Plan'', b_template_key = None\<rparr>"
  "user_id sample_user = 1"
  by (simp_all add: budget_of_def one_plan_def sample_user_def)

theorem change_keeps_old_plan_witness:
  "\<exists>b r d'. patch_budget 5 sample_user (Inr \<lparr>bp_name = None, bp_template = None, bp_allocations = None, bp_via = ''chat''\<rparr>)
       one_plan = (Inr r, d') \<and> records_plan 5 ''chat'' b one_plan d'"
proof -
  let ?p = "\<lparr>bp_name = None, bp_template = None, bp_allocations = None, bp_via = ''chat''\<rparr>"
  obtain r d' where e: "patch_budget 5 sample_user (Inr ?p) one_plan = (Inr r, d')"
    by (simp add: patch_budget_def one_plan_simps replace_allocations_def Let_def del: One_nat_def)
  from change_keeps_old_plan [OF _ e] have "records_plan 5 ''chat'' \<lparr>b_id = 0, b_user = 1, b_name = ''Plan'', b_template_key = None\<rparr> one_plan d'"
    by (simp add: one_plan_simps del: One_nat_def)
  with e show ?thesis by blast
qed

subsection \<open>Statuses\<close>

lemma used_below_100:
  assumes "x \<le> 1 - 1 / 10 ^ 14"
  shows "flt (dec (dec x * 100)) < 100"
proof -
  have a: "dec (1 - 1 / 10 ^ 14) = 1 - 1 / 10 ^ 14"
    by (rule dec_exact [of "10 ^ 14 - 1" _ 14]) (simp_all add: field_simps)
  have b: "dec ((1 - 1 / 10 ^ 14) * 100) = (1 - 1 / 10 ^ 14) * 100"
    by (rule dec_exact [of "10 ^ 14 - 1" _ 12]) (simp_all add: field_simps)
  have c: "flt (100 - 1 / 2 ^ 40) = 100 - 1 / 2 ^ 40"
    by (rule flt_exact [of "100 * 2 ^ 40 - 1" _ 40]) (simp_all add: field_simps)
  have "dec x \<le> 1 - 1 / 10 ^ 14" using dec_mono [OF assms] by (simp only: a)
  then have "dec x * 100 \<le> (1 - 1 / 10 ^ 14) * 100" by simp
  from dec_mono [OF this] have "dec (dec x * 100) \<le> (1 - 1 / 10 ^ 14) * 100" by (simp only: b)
  also have "\<dots> \<le> 100 - 1 / 2 ^ 40" by simp
  finally have "flt (dec (dec x * 100)) \<le> 100 - 1 / 2 ^ 40" using flt_mono [of _ "100 - 1 / 2 ^ 40"] by (simp only: c)
  also have "\<dots> < 100" by simp
  finally show ?thesis .
qed

lemma used_below_80:
  assumes "x \<le> 4 / 5 - 1 / (5 * 10 ^ 14)"
  shows "flt (dec (dec x * 100)) < 80"
proof -
  let ?m = "4 / 5 - 1 / (5 * 10 ^ 14) :: rat"
  have a: "dec ?m = ?m" by (rule dec_exact [of "8 * 10 ^ 14 - 2" _ 15]) (simp_all add: field_simps)
  have b: "dec (?m * 100) = ?m * 100" by (rule dec_exact [of "8 * 10 ^ 14 - 2" _ 13]) (simp_all add: field_simps)
  have c: "flt (80 - 1 / 2 ^ 43) = 80 - 1 / 2 ^ 43"
    by (rule flt_exact [of "80 * 2 ^ 43 - 1" _ 43]) (simp_all add: field_simps)
  have "dec x \<le> ?m" using dec_mono [OF assms] by (simp only: a)
  then have "dec x * 100 \<le> ?m * 100" by simp
  from dec_mono [OF this] have "dec (dec x * 100) \<le> ?m * 100" by (simp only: b)
  also have "\<dots> \<le> 80 - 1 / 2 ^ 43" by simp
  finally have "flt (dec (dec x * 100)) \<le> 80 - 1 / 2 ^ 43" using flt_mono [of _ "80 - 1 / 2 ^ 43"] by (simp only: c)
  also have "\<dots> < 80" by simp
  finally show ?thesis .
qed

lemma used_at_least:
  assumes "of_int k / 100 \<le> x" "0 \<le> k" "k \<le> 100"
  shows "of_int k \<le> flt (dec (dec x * 100))"
proof -
  have "dec (of_int k / 100) = of_int k / 100" by (rule dec_exact [of k _ 2]) (use assms in simp_all)
  then have "of_int k \<le> dec x * 100" using dec_mono [OF assms(1)] by (simp add: field_simps)
  moreover have "dec (of_int k) = of_int k" "flt (of_int k) = of_int k"
    using dec_of_int [of k] flt_of_int [of k] assms by auto
  ultimately show ?thesis using dec_mono flt_mono by metis
qed

text \<open>C16. The status a category shows is the one its exact amounts call for, the rounding to 28
  digits and to a float notwithstanding: over budget exactly when the spending reaches the
  allocation, approaching exactly from four fifths of it.\<close>

theorem status_matches_amounts:
  assumes "places 2 a" "places 2 s" "0 < a" "a < 10 ^ 12" "0 \<le> s"
  shows "category_status (percentage_used a s) =
    (if a \<le> s then ''over_budget'' else if 4 * a \<le> 5 * s then ''approaching_limit'' else ''on_track'')"
proof -
  obtain i j where i: "a = of_int i / 10 ^ 2" and j: "s = of_int j / 10 ^ 2"
    using assms(1,2) by (metis placesE)
  have used: "percentage_used a s = flt (dec (dec (s / a) * 100))"
    using assms(3) by (simp add: percentage_used_def percent_of_def)
  consider "a \<le> s" | "s < a" "4 * a \<le> 5 * s" | "s < a" "5 * s < 4 * a" by linarith
  then show ?thesis
  proof cases
    case 1
    then have "of_int 100 / 100 \<le> s / a" using assms(3) by (simp add: le_divide_eq)
    from used_at_least [OF this] 1 show ?thesis by (simp add: used category_status_def)
  next
    case 2
    have "j + 1 \<le> i" using 2(1) by (simp add: i j)
    then have "of_int (j + 1) \<le> (of_int i :: rat)" unfolding of_int_le_iff .
    then have "s \<le> a - 1 / 100" by (simp add: i j)
    moreover have "a / 10 ^ 14 \<le> 1 / 100" using assms(4) by (simp add: divide_le_eq)
    ultimately have "s \<le> a * (1 - 1 / 10 ^ 14)" by (simp add: algebra_simps)
    then have "s / a \<le> 1 - 1 / 10 ^ 14" using assms(3) by (simp add: divide_le_eq mult.commute)
    note less = used_below_100 [OF this]
    have "of_int 80 / 100 \<le> s / a" using 2(2) assms(3) by (simp add: le_divide_eq)
    from used_at_least [OF this] less 2 show ?thesis
      by (simp add: used category_status_def APPROACHING_LIMIT_THRESHOLD_def)
  next
    case 3
    have "5 * j + 1 \<le> 4 * i" using 3(2) by (simp add: i j)
    then have "of_int (5 * j + 1) \<le> (of_int (4 * i) :: rat)" unfolding of_int_le_iff .
    then have "5 * s \<le> 4 * a - 1 / 100" by (simp add: i j)
    moreover have "a / 10 ^ 14 \<le> 1 / 100" using assms(4) by (simp add: divide_le_eq)
    ultimately have "s \<le> a * (4 / 5 - 1 / (5 * 10 ^ 14))" by (simp add: algebra_simps)
    then have "s / a \<le> 4 / 5 - 1 / (5 * 10 ^ 14)" using assms(3) by (simp add: divide_le_eq mult.commute)
    from used_below_80 [OF this] 3 show ?thesis
      by (simp add: used category_status_def APPROACHING_LIMIT_THRESHOLD_def)
  qed
qed

theorem status_matches_amounts_witness: "category_status (percentage_used 100 80) = ''approaching_limit''"
proof -
  have "places 2 (of_int 100 :: rat)" "places 2 (of_int 80 :: rat)"
    by (rule placesI [of _ _ "100 * 100"] placesI [of _ _ "80 * 100"], simp)+
  then show ?thesis using status_matches_amounts [of 100 80] by simp
qed

subsection \<open>Windows\<close>

lemma normalise_month_spec: "m \<le> 12 \<Longrightarrow> case normalise_month y m of (y', m') \<Rightarrow> 1 \<le> m' \<and> m' \<le> 12 \<and> 12 * y' + m' = 12 * y + m"
proof (induction y m rule: normalise_month.induct)
  case (1 y m)
  then show ?case by (subst normalise_month.simps) (auto split: prod.splits)
qed

lemma window_bounds_valid:
  assumes "valid_date today"
  shows "case window_bounds today p of (s, e) \<Rightarrow> valid_date s \<and> valid_date e \<and> s \<le> e"
proof (cases today)
  case (Date y m k)
  have first: "valid_date (Date y' m' 1)" if "1 \<le> m'" "m' \<le> 12" for y' m'
    using that days_in_month_pos [of y' m'] by (simp add: valid_date_def)
  have last: "valid_date (Date y' m' (days_in_month y' m'))" if "1 \<le> m'" "m' \<le> 12" for y' m'
    using that days_in_month_pos [of y' m'] by (simp add: valid_date_def)
  have m: "1 \<le> m" "m \<le> 12" "1 \<le> k" using assms Date by (simp_all add: valid_date_def)
  show ?thesis
  proof (cases p)
    case Last_3_months
    obtain y' m' where e: "normalise_month y (m - 3) = (y', m')" by (cases "normalise_month y (m - 3)")
    with normalise_month_spec [of "m - 3" y] m have "1 \<le> m'" "m' \<le> 12" "12 * y' + m' = 12 * y + m - 3" by auto
    moreover then have "y' < y \<or> y' = y \<and> m' < m" using m by linarith
    ultimately show ?thesis
      using assms first [of m' y'] by (auto simp: window_bounds_def Last_3_months Date e less_eq_date_def less_date_def)
  qed (use assms m first [of m y] first [of 1 y] first [of 1 "y - 4"] first [of 12 "y - 1"] last [of 12 "y - 1"]
      first [of "m - 1" y] last [of "m - 1" y] days_in_month_pos [of y "m - 1"] days_in_month_pos [of "y - 1" 12]
      in \<open>auto simp: window_bounds_def Date less_eq_date_def less_date_def\<close>)
qed

text \<open>On every day of the calendar, leap days and the turn of the year included, the dashboard's
  comparison window ends the day before the window it is compared with starts, and both hold
  the same number of days.\<close>

theorem windows_adjacent:
  assumes "valid_date today"
  shows "case resolve_window today p of (s, e, ps, pe) \<Rightarrow>
     valid_date s \<and> valid_date e \<and> valid_date ps \<and> valid_date pe \<and> s \<le> e \<and> ps \<le> pe \<and>
     next_day pe = s \<and> ordinal pe - ordinal ps = ordinal e - ordinal s"
proof -
  obtain s e where b: "window_bounds today p = (s, e)" by (cases "window_bounds today p")
  with window_bounds_valid [OF assms, of p] have v: "valid_date s" "valid_date e" "s \<le> e" by simp_all
  define pe where "pe = add_days s (- 1)"
  have pe: "valid_date pe" "ordinal pe = ordinal s - 1" using ordinal_add_days [OF v(1), of "- 1"] by (simp_all add: pe_def)
  define ps where "ps = add_days pe (- (ordinal e - ordinal s))"
  have ps: "valid_date ps" "ordinal ps = ordinal pe - (ordinal e - ordinal s)"
    using ordinal_add_days [OF pe(1), of "- (ordinal e - ordinal s)"] by (simp_all add: ps_def)
  have "ordinal s \<le> ordinal e" using v by (simp add: ordinal_le_iff)
  then have "ps \<le> pe" using ps pe(1) by (simp add: ordinal_le_iff)
  moreover have "next_day pe = s" using ordinal_next_day [OF pe(1)] pe(2) v(1) by (intro ordinal_inj) simp_all
  moreover have "resolve_window today p = (s, e, ps, pe)"
    by (simp add: resolve_window_def b Let_def pe_def ps_def)
  ultimately show ?thesis using v pe ps by simp
qed

theorem windows_adjacent_witness:
  "case resolve_window (Date 2024 3 1) Last_month of (s, e, ps, pe) \<Rightarrow> next_day pe = s"
proof -
  have "valid_date (Date 2024 3 1)" by code_simp
  from windows_adjacent [OF this, of Last_month] show ?thesis by (auto split: prod.splits)
qed

end
