(* ===== verification/Json_Numbers.thy ===== *)
theory Json_Numbers
  imports Numeric
begin

text \<open>
  Decimals stored as JSON numbers: \<open>float(value)\<close> on the way in and
  \<open>Decimal(str(value))\<close> on the way out. \<open>str\<close> of a float is the shortest decimal that is
  read back as the same float (at most 17 digits); with at most 15 digits nothing is lost.
\<close>

fun shortest :: "nat \<Rightarrow> nat \<Rightarrow> rat \<Rightarrow> rat" where
  "shortest 0 n f = round_sig 10 n f"
| "shortest (Suc k) n f = (if flt (round_sig 10 n f) = f then round_sig 10 n f else shortest k (Suc n) f)"

definition decimal_of_float :: "rat \<Rightarrow> rat" where
  "decimal_of_float f = shortest 16 1 f"

definition digits15 :: "rat \<Rightarrow> bool" where
  "digits15 x \<longleftrightarrow> round_sig 10 15 x = x"

lemma round_sig_form:
  "\<exists>k. round_sig b p x = of_int k * of_nat b powi (magn b \<bar>x\<bar> - int p + 1)"
  by (cases "x = 0") (auto simp: round_sig_def Let_def intro: exI [of _ 0])

lemma round_sig_err:
  assumes b: "2 \<le> b" and x: "0 < x"
  shows "\<bar>round_sig b p x - x\<bar> \<le> of_nat b powi (magn b x - int p + 1) / 2"
proof -
  let ?u = "rat_of_nat b powi (magn b x - int p + 1)"
  have u: "0 < ?u" using b by simp
  have "\<bar>of_int (rhe (x / ?u)) - x / ?u\<bar> * ?u \<le> 1 / 2 * ?u" using rhe_err [of "x / ?u"] u by (intro mult_right_mono) auto
  moreover have "\<bar>of_int (rhe (x / ?u)) - x / ?u\<bar> * ?u = \<bar>(of_int (rhe (x / ?u)) - x / ?u) * ?u\<bar>"
    using u by (simp add: abs_mult)
  moreover have "(of_int (rhe (x / ?u)) - x / ?u) * ?u = round_sig b p x - x"
    using x u b by (simp add: round_sig_def Let_def left_diff_distrib)
  ultimately show ?thesis by simp
qed

lemma flt_err:
  assumes "0 < x"
  shows "\<bar>flt x - x\<bar> \<le> x / 2 ^ 53"
proof -
  have "2 powi (magn 2 x - 52) = (2 powi magn 2 x / 2 ^ 52 :: rat)"
    using power_int_diff [of "2 :: rat" "magn 2 x" 52] by (simp add: power_int_numeral)
  then have "\<bar>flt x - x\<bar> \<le> 2 powi magn 2 x / 2 ^ 52 / 2"
    using round_sig_err [of 2 x 53] assms by (simp add: flt_def)
  also have "\<dots> \<le> x / 2 ^ 52 / 2" using magn_bounds [of 2 x] assms by (intro divide_right_mono) auto
  finally show ?thesis by simp
qed

lemma flt_pos: "0 < x \<Longrightarrow> 0 < flt x"
proof -
  assume x: "0 < x"
  then have "x / 2 ^ 53 < x" by simp
  then show "0 < flt x" using flt_err [OF x] by linarith
qed

text \<open>Fifteen-digit decimals are multiples of their last digit's unit, hence apart.\<close>

lemma digits15_multiple:
  assumes "digits15 x" "0 < x" "m \<le> magn 10 x"
  obtains k where "x = of_int k * 10 powi (m - 14)"
proof -
  obtain k where k: "x = of_int k * 10 powi (magn 10 x - 14)"
    using round_sig_form [of 10 15 x] assms(1,2) by (auto simp: digits15_def)
  obtain n where n: "magn 10 x - 14 = int n + (m - 14)"
    using assms(3) by (metis add_diff_eq zle_iff_zadd add.commute)
  have "10 powi (magn 10 x - 14) = (10 powi int n * 10 powi (m - 14) :: rat)"
    unfolding n by (rule power_int_add) simp
  also have "\<dots> = of_int (10 ^ n) * 10 powi (m - 14)" by (simp add: power_int_of_nat)
  finally have "x = of_int (k * 10 ^ n) * 10 powi (m - 14)" using k by (simp add: mult.assoc)
  then show thesis by (rule that)
qed

lemma multiples_apart:
  assumes "x = of_int k * u" "y = of_int l * u" "(0 :: rat) < u" "x < y"
  shows "u \<le> y - x"
proof -
  have "k < l" using assms by simp
  then have "1 \<le> l - k" by simp
  then have "(1 :: rat) \<le> of_int (l - k)" by (metis of_int_1 of_int_le_iff)
  then have "1 * u \<le> of_int (l - k) * u" using assms(3) by (intro mult_right_mono) auto
  then show ?thesis using assms(1,2) by (simp add: left_diff_distrib)
qed

lemma magn_mono:
  assumes "2 \<le> b" "0 < x" "x \<le> y"
  shows "magn b x \<le> magn b y"
proof -
  have B: "1 < rat_of_nat b" using assms by simp
  have "rat_of_nat b powi magn b x < of_nat b powi (magn b y + 1)"
    using magn_bounds [OF assms(1,2)] magn_bounds [OF assms(1), of y] assms by linarith
  then show ?thesis
    using B power_int_increasing [of "magn b y + 1" "magn b x" "rat_of_nat b"] by force
qed

lemma unit15: "0 < x \<Longrightarrow> x < 10 ^ 15 * 10 powi (magn 10 x - 14)"
proof -
  assume x: "0 < x"
  have "10 ^ 15 * 10 powi (magn 10 x - 14) = (10 powi (magn 10 x + 1) :: rat)"
  proof -
    have "(10 :: rat) powi (15 + (magn 10 x - 14)) = 10 powi 15 * 10 powi (magn 10 x - 14)"
      by (rule power_int_add) simp
    then show ?thesis by (simp add: power_int_numeral add.commute)
  qed
  then show ?thesis using magn_bounds [of 10 x] x by simp
qed
lemma unit_beats_error:
  assumes "0 < x"
  shows "4 * x / 2 ^ 53 < 10 powi (magn 10 x - 14)"
proof -
  have "4 * x / 2 ^ 53 < 4 * (10 ^ 15 * 10 powi (magn 10 x - 14)) / 2 ^ 53" using unit15 [OF assms] by simp
  also have "\<dots> < 10 powi (magn 10 x - 14)" by simp
  finally show ?thesis .
qed

lemma flt_inj15:
  assumes x: "digits15 x" "0 < x" and y: "digits15 y" "0 < y" and "flt x = flt y"
  shows "x = y"
proof -
  have False if h: "digits15 x" "0 < x" "digits15 y" "x < y" "flt x = flt y" for x y
  proof -
    let ?u = "10 powi (magn 10 x - 14) :: rat"
    have u: "0 < ?u" by simp
    obtain k where k: "x = of_int k * ?u" using digits15_multiple [OF h(1,2), of "magn 10 x"] by auto
    have "magn 10 x \<le> magn 10 y" using magn_mono [of 10 x y] h by simp
    then obtain l where l: "y = of_int l * ?u" using digits15_multiple [OF h(3), of "magn 10 x"] h by auto
    have gap: "?u \<le> y - x" by (rule multiples_apart [OF k l u h(4)])
    have "y - x \<le> x / 2 ^ 53 + y / 2 ^ 53"
      using flt_err [of x] flt_err [of y] h by linarith
    moreover from this have "y \<le> 2 * x" using h by simp
    ultimately have "?u \<le> 4 * x / 2 ^ 53" using gap h(2) by simp
    then show False using unit_beats_error [OF h(2)] by simp
  qed
  from this [of x y] this [of y x] assms show ?thesis by (metis linorder_neqE)
qed

lemma digits15_of_float:
  assumes "digits15 x" "0 < x"
  shows "round_sig 10 15 (flt x) = x"
proof -
  let ?f = "flt x"
  have e: "\<bar>?f - x\<bar> \<le> x / 2 ^ 53" by (rule flt_err [OF assms(2)])
  then have "x - x / 2 ^ 53 \<le> ?f" by linarith
  then have f: "0 < ?f" "x \<le> 2 * ?f" using assms(2) by simp_all
  let ?m = "magn 10 ?f"
  have le: "?m \<le> magn 10 x"
  proof (rule ccontr)
    assume "\<not> ?m \<le> magn 10 x"
    then have "10 powi (magn 10 x + 1) \<le> (10 powi ?m :: rat)" by (intro power_int_increasing) auto
    then have big: "10 powi (magn 10 x + 1) \<le> ?f" using magn_bounds [of 10 ?f] f(1) by simp
    let ?u = "10 powi (magn 10 x - 14) :: rat"
    obtain k where k: "x = of_int k * ?u" using digits15_multiple [OF assms, of "magn 10 x"] by auto
    have "10 powi (magn 10 x + 1) = (10 powi (15 + (magn 10 x - 14)) :: rat)" by (simp add: add.commute)
    also have "\<dots> = 10 powi 15 * ?u" by (rule power_int_add) simp
    finally have p: "10 powi (magn 10 x + 1) = of_int (10 ^ 15) * ?u" by (simp add: power_int_numeral)
    have "x < 10 powi (magn 10 x + 1)" using magn_bounds [of 10 x] assms(2) by simp
    then have "?u \<le> 10 powi (magn 10 x + 1) - x" by (intro multiples_apart [OF k p]) auto
    then have "?u \<le> x / 2 ^ 53" using big e by linarith
    also have "\<dots> < ?u"
      by (rule le_less_trans [OF _ unit_beats_error [OF assms(2)]]) (use assms(2) in simp)
    finally show False by simp
  qed
  define f where "f = flt x"
  define u where "u = (10 powi (magn 10 f - 14) :: rat)"
  have u: "0 < u" by (simp add: u_def)
  obtain k where k: "x = of_int k * u"
    unfolding u_def f_def by (rule digits15_multiple [OF assms le])
  have "\<bar>f / u - of_int k\<bar> * u = \<bar>f - x\<bar>"
  proof -
    have "(f / u - of_int k) * u = f - x" using u by (simp add: k left_diff_distrib)
    then show ?thesis using u by (metis abs_mult abs_of_pos)
  qed
  also have "\<dots> \<le> 2 * f / 2 ^ 53"
  proof -
    have "x / 2 ^ 53 \<le> 2 * f / 2 ^ 53" using f(2) by (simp add: f_def)
    then show ?thesis using e by (simp add: f_def)
  qed
  also have "\<dots> < 1 / 2 * u" using unit_beats_error [OF f(1)] by (simp add: f_def u_def)
  finally have "\<bar>f / u - of_int k\<bar> < 1 / 2" using u by simp
  moreover have "\<bar>of_int (rhe (f / u)) - f / u\<bar> \<le> 1 / 2" by (rule rhe_err)
  ultimately have "\<bar>of_int (rhe (f / u)) - of_int k :: rat\<bar> < 1" by linarith
  then have "\<bar>rhe (f / u) - k\<bar> < 1" by (metis of_int_abs of_int_diff of_int_less_1_iff)
  then have "rhe (f / u) = k" by simp
  moreover have "round_sig 10 15 f = of_int (rhe (f / u)) * u"
    using f(1) by (simp add: round_sig_def Let_def f_def u_def)
  ultimately show ?thesis using k by (simp add: f_def)
qed

text \<open>Rounding to \<open>n \<le> 15\<close> digits gives a fifteen-digit decimal.\<close>

lemma digits15_scaled:
  assumes "\<bar>k\<bar> \<le> 10 ^ 15" "x = of_int k * 10 powi j"
  shows "digits15 x"
proof (cases "\<bar>k\<bar> = 10 ^ 15")
  case True
  then have "x = of_int (if 0 \<le> k then 1 else - 1) * 10 powi (15 + j)"
    using assms(2) by (auto simp: abs_if power_int_add power_int_numeral split: if_splits)
  then show ?thesis unfolding digits15_def by (intro round_sig_exact [of 10 _ 15 _ "15 + j"]) auto
next
  case False
  with assms(1) have "\<bar>k\<bar> < 10 ^ 15" by simp
  with assms(2) show ?thesis unfolding digits15_def by (intro round_sig_exact [of 10 k 15 _ j]) auto
qed

lemma digits15_round:
  assumes "0 < f" "1 \<le> n" "n \<le> 15"
  shows "digits15 (round_sig 10 n f) \<and> 0 < round_sig 10 n f"
proof -
  obtain k where k: "round_sig 10 n f = of_int k * 10 powi (magn 10 f - int n + 1)"
    using round_sig_form [of 10 n f] assms(1) by auto
  have pos: "10 powi magn 10 f \<le> round_sig 10 n f" "round_sig 10 n f \<le> 10 powi (magn 10 f + 1)"
    using round_sig_pos_bounds [of 10 n f] assms by auto
  have "0 < (10 :: rat) powi magn 10 f" by simp
  with pos(1) have pos': "0 < round_sig 10 n f" by linarith
  let ?u = "10 powi (magn 10 f - int n + 1) :: rat"
  have "10 powi (int n + (magn 10 f - int n + 1)) = 10 powi int n * ?u" by (rule power_int_add) simp
  then have "of_int k * ?u \<le> 10 ^ n * ?u" using pos(2) k by (simp add: power_int_of_nat add.commute)
  then have "of_int k \<le> (of_int (10 ^ n) :: rat)" by simp
  then have "k \<le> 10 ^ n" unfolding of_int_le_iff .
  also have "\<dots> \<le> (10 :: int) ^ 15" using assms(3) by (intro power_increasing) auto
  finally have "k \<le> 10 ^ 15" .
  moreover have "0 < of_int k * ?u" using pos' by (simp only: k)
  then have "0 < k" using zero_less_mult_pos2 [of "of_int k" ?u] by simp
  ultimately have "\<bar>k\<bar> \<le> 10 ^ 15" by simp
  then show ?thesis using digits15_scaled [OF _ k] pos' by simp
qed

lemma shortest_finds:
  assumes x: "digits15 x" "0 < x" and "1 \<le> n" "n \<le> 15" "16 \<le> n + k"
  shows "shortest k n (flt x) = x"
  using assms(3-5)
proof (induction k arbitrary: n)
  case (Suc k)
  have f: "0 < flt x" by (rule flt_pos [OF x(2)])
  show ?case
  proof (cases "flt (round_sig 10 n (flt x)) = flt x")
    case True
    then have "round_sig 10 n (flt x) = x"
      using flt_inj15 [OF _ _ x] digits15_round [OF f Suc.prems(1,2)] by blast
    with True show ?thesis by simp
  next
    case False
    then have "n \<noteq> 15" using digits15_of_float [OF x] by auto
    with False Suc show ?thesis by simp
  qed
qed simp

lemma decimal_of_float_pos: "digits15 x \<Longrightarrow> 0 < x \<Longrightarrow> decimal_of_float (flt x) = x"
  by (simp add: decimal_of_float_def shortest_finds)

text \<open>A non-negative decimal of at most fifteen digits survives the JSON column.\<close>

lemma decimal_of_float: "digits15 x \<Longrightarrow> 0 \<le> x \<Longrightarrow> decimal_of_float (flt x) = x"
proof (cases "x = 0")
  case True
  have "shortest 16 1 0 = 0" by (simp add: numeral_eq_Suc)
  with True show ?thesis by (simp add: decimal_of_float_def)
qed (simp add: decimal_of_float_pos)

lemma digits15_places:
  assumes "places n x" "\<bar>x\<bar> * 10 ^ n < 10 ^ 15"
  shows "digits15 x"
proof -
  obtain k where k: "x = of_int k / 10 ^ n" using assms(1) by (rule placesE)
  have "of_int \<bar>k\<bar> < (of_int (10 ^ 15) :: rat)" using assms(2) by (simp add: k abs_divide)
  then have "\<bar>k\<bar> < 10 ^ 15" unfolding of_int_less_iff .
  moreover have "x = of_int k * 10 powi (- int n)" by (simp add: k power_int_minus power_int_of_nat divide_inverse)
  ultimately show ?thesis by (intro digits15_scaled [of k _ "- int n"]) auto
qed

end
