(* ===== verification/Investments.thy ===== *)
theory Investments
  imports Budgets Json_Numbers
begin

text \<open>
  Investment plans, their purchases and the holdings: core/serializers/investment_scenarios.py,
  core/views/investment_scenarios.py, core/serializers/investment_holdings.py,
  core/views/investment_holdings.py, services/market_data.py and
  core/models/recommendation/. The tables here are not touched by the rest of the program,
  so they are a store of their own; a fresh primary key is an argument of the operations.
  Timestamps are in microseconds.
\<close>

subsection \<open>Rows\<close>

record instrument =
  ins_id :: uuid
  ins_code :: string
  ins_class :: string
  ins_price_type :: string
  ins_currency :: string
  ins_unit :: string
  ins_increment :: rat
  ins_max_age :: int
  ins_active :: bool
  ins_product_active :: bool

record holding =
  ho_id :: uuid
  ho_user :: uuid
  ho_instrument :: uuid
  ho_quantity :: rat
  ho_average :: rat
  ho_fees :: rat
  ho_purchased :: "date option"

text \<open>One allocation of a plan, and the plan; stored as JSON, its numbers are floats.\<close>

record item =
  it_instrument :: uuid
  it_code :: string
  it_name :: string
  it_class :: string
  it_percentage :: rat
  it_target :: rat
  it_price :: rat
  it_currency :: string
  it_unit :: string
  it_price_type :: string
  it_increment :: rat
  it_quantity :: rat
  it_actual :: rat
  it_remainder :: rat
  it_observed :: int
  it_source :: string
  it_mode :: string
  it_priority :: "int option"
  it_factors :: "string list"

record plan =
  pl_confirmed :: rat
  pl_currency :: string
  pl_items :: "item list"
  pl_allocated :: rat
  pl_remainder :: rat
  pl_disclaimer :: string
  pl_saved :: bool

datatype scenario_status = Saved | Archived

record scenario =
  sc_id :: uuid
  sc_user :: uuid
  sc_title :: string
  sc_status :: scenario_status
  sc_payload :: plan
  sc_source :: "uuid option"
  sc_saved_at :: int

record purchase =
  pu_id :: uuid
  pu_scenario :: uuid
  pu_instrument :: uuid
  pu_holding :: "uuid option"
  pu_quantity :: rat
  pu_price :: rat
  pu_fees :: rat
  pu_date :: date

record portfolio =
  instruments :: "instrument list"
  holdings :: "holding list"
  scenarios :: "scenario list"
  purchases :: "purchase list"

subsection \<open>Arithmetic\<close>

definition MONEY_TOLERANCE :: rat where
  "MONEY_TOLERANCE = 2 / 100"

definition close_to :: "rat \<Rightarrow> rat \<Rightarrow> bool" where
  "close_to x y \<longleftrightarrow> \<bar>dec (x - y)\<bar> \<le> MONEY_TOLERANCE"

text \<open>\<open>quantity % increment == 0\<close>.\<close>

definition multiple_of :: "rat \<Rightarrow> rat \<Rightarrow> bool" where
  "multiple_of x inc \<longleftrightarrow> of_int \<lfloor>x / inc\<rfloor> = x / inc"

definition affordable :: "rat \<Rightarrow> rat \<Rightarrow> rat \<Rightarrow> rat" where
  "affordable target price inc = dec (of_int (rdown (dec (dec (target / price) / inc))) * inc)"

definition cost_of :: "rat \<Rightarrow> rat \<Rightarrow> rat" where
  "cost_of q p = quantize_he 2 (dec (q * p))"

text \<open>A \<open>DecimalField\<close>: so many digits, so many of them decimal places, within bounds.\<close>

definition decimal_field :: "nat \<Rightarrow> nat \<Rightarrow> rat \<Rightarrow> rat option \<Rightarrow> rat \<Rightarrow> bool" where
  "decimal_field digits n lo hi x \<longleftrightarrow> places n x \<and> \<bar>x\<bar> < 10 ^ (digits - n) \<and> lo \<le> x \<and> (case hi of None \<Rightarrow> True | Some h \<Rightarrow> x \<le> h)"

text \<open>\<open>str(x.normalize())\<close> of a positive decimal of at most 8 places.\<close>

fun strip_zeros :: "nat \<Rightarrow> nat \<Rightarrow> nat \<times> nat" where
  "strip_zeros n z = (if n = 0 \<or> n mod 10 \<noteq> 0 then (n, z) else strip_zeros (n div 10) (Suc z))"

declare strip_zeros.simps [simp del]

definition normalized_str :: "rat \<Rightarrow> string" where
  "normalized_str x =
     (let (n, z) = strip_zeros (nat \<lfloor>x * 10 ^ 8\<rfloor>) 0; ds = nat_str n; e = int z - 8; left = e + int (length ds)
      in if e \<le> 0 \<and> - 6 < left then
           (if left \<le> 0 then ''0.'' @ replicate (nat (- left)) (CHR ''0'') @ ds
            else if e = 0 then ds
            else take (nat left) ds @ ''.'' @ drop (nat left) ds)
         else take 1 ds @ (if length ds = 1 then [] else CHR ''.'' # drop 1 ds) @ ''E'' @
           (if 0 \<le> left - 1 then ''+'' else ''-'') @ nat_str (nat \<bar>left - 1\<bar>))"

subsection \<open>The payload serializer\<close>

text \<open>The checks of the declared fields of \<open>InvestmentScenarioPayloadSerializer\<close>; how they are
  worded is DRF's.\<close>

definition text_field :: "nat \<Rightarrow> string \<Rightarrow> bool" where
  "text_field n s \<longleftrightarrow> s \<noteq> [] \<and> length s \<le> n"

definition MATCH_FACTORS :: "string list" where
  "MATCH_FACTORS = [''objective'', ''risk'', ''horizon'', ''liquidity'', ''closest_available'']"

definition item_fields :: "item \<Rightarrow> bool" where
  "item_fields x \<longleftrightarrow>
     text_field 100 (it_code x) \<and> text_field 255 (it_name x) \<and> it_class x \<in> {''gold'', ''fund'', ''currency''} \<and>
     decimal_field 7 2 0 (Some 100) (it_percentage x) \<and> decimal_field 14 2 0 None (it_target x) \<and>
     decimal_field 20 8 (1 / 10 ^ 8) None (it_price x) \<and> it_currency x = ''EGP'' \<and> text_field 40 (it_unit x) \<and>
     it_price_type x \<in> {''spot'', ''nav'', ''market_price'', ''customer_buy_rate''} \<and>
     decimal_field 20 8 (1 / 10 ^ 8) None (it_increment x) \<and> decimal_field 24 8 0 None (it_quantity x) \<and>
     decimal_field 14 2 0 None (it_actual x) \<and> decimal_field 14 2 0 None (it_remainder x) \<and>
     text_field 255 (it_source x) \<and> it_mode x \<in> {''live'', ''mock'', ''user_supplied''} \<and>
     (case it_priority x of None \<Rightarrow> True | Some p \<Rightarrow> 1 \<le> p \<and> p \<le> 3) \<and>
     set (it_factors x) \<subseteq> set MATCH_FACTORS \<and> length (it_factors x) \<le> 5"

definition plan_fields :: "plan \<Rightarrow> bool" where
  "plan_fields p \<longleftrightarrow>
     decimal_field 14 2 (1 / 100) None (pl_confirmed p) \<and> pl_currency p = ''EGP'' \<and>
     1 \<le> length (pl_items p) \<and> length (pl_items p) \<le> 3 \<and> (\<forall>x \<in> set (pl_items p). item_fields x) \<and>
     decimal_field 14 2 0 None (pl_allocated p) \<and> decimal_field 14 2 0 None (pl_remainder p) \<and>
     text_field 1000 (pl_disclaimer p)"

definition alloc_error :: "string \<Rightarrow> exc" where
  "alloc_error m = field_error ''allocations'' m"

definition check_item :: "int \<Rightarrow> bool \<Rightarrow> rat \<Rightarrow> item \<Rightarrow> exc + unit" where
  "check_item now lenient confirmed x =
     (let expected = affordable (it_target x) (it_price x) (it_increment x)
      in res_bind (guard_res (it_observed x \<le> now + 300000000)
                    (alloc_error ''A quote timestamp cannot be in the future.'')) (\<lambda>_.
         res_bind (guard_res (close_to (it_target x) (allocated_amount confirmed (it_percentage x)))
                    (alloc_error ''An allocation target does not match its percentage.'')) (\<lambda>_.
         res_bind (guard_res (it_quantity x = expected \<or>
                      lenient \<and> it_quantity x \<le> expected \<and> multiple_of (it_quantity x) (it_increment x))
                    (alloc_error ''A quantity does not respect its purchase increment.'')) (\<lambda>_.
         res_bind (guard_res (close_to (it_actual x) (cost_of (it_quantity x) (it_price x)))
                    (alloc_error ''An allocated amount does not match its quantity and quote.'')) (\<lambda>_.
         guard_res (close_to (it_remainder x) (dec (it_target x - it_actual x)))
                    (alloc_error ''An instrument remainder is inconsistent.''))))))"

text \<open>The first catalogue field an item disagrees with.\<close>

definition mismatch :: "instrument \<Rightarrow> item \<Rightarrow> string option" where
  "mismatch i x =
     (if it_code x \<noteq> ins_code i then Some ''instrument_code''
      else if it_class x \<noteq> ins_class i then Some ''asset_class''
      else if it_currency x \<noteq> ins_currency i then Some ''price_currency''
      else if it_unit x \<noteq> ins_unit i then Some ''unit''
      else if it_price_type x \<noteq> ins_price_type i then Some ''price_type''
      else if it_increment x \<noteq> ins_increment i then Some ''minimum_increment''
      else None)"

definition catalogue :: "uuid list \<Rightarrow> instrument list \<Rightarrow> instrument list" where
  "catalogue ids is = filter (\<lambda>i. ins_id i \<in> set ids \<and> ins_active i \<and> ins_product_active i) is"

definition check_metadata :: "instrument list \<Rightarrow> item \<Rightarrow> exc + unit" where
  "check_metadata is x =
     (case by_pk ins_id is (it_instrument x) of
        None \<Rightarrow> Inl (Unhandled ''KeyError'')
      | Some i \<Rightarrow>
         (case mismatch i x of
            None \<Rightarrow> Inr ()
          | Some f \<Rightarrow> Inl (alloc_error (''Instrument metadata does not match the catalogue ('' @ f @ '').''))))"

definition bad_priorities :: "item list \<Rightarrow> bool" where
  "bad_priorities xs \<longleftrightarrow> (let ps = map it_priority xs in
     (\<exists>p \<in> set ps. p \<noteq> None) \<and> (None \<in> set ps \<or> \<not> distinct ps))"

definition validate_payload :: "int \<Rightarrow> bool \<Rightarrow> instrument list \<Rightarrow> plan \<Rightarrow> exc + unit" where
  "validate_payload now lenient is p =
     (let xs = pl_items p; ids = map it_instrument xs; cat = catalogue ids is
      in res_bind (guard_res (pl_saved p) (field_error ''saved'' ''The scenario must be explicitly saved.'')) (\<lambda>_.
         res_bind (guard_res (distinct ids) (alloc_error ''Instruments must be unique.'')) (\<lambda>_.
         res_bind (guard_res (\<not> bad_priorities xs)
                    (alloc_error ''Priorities must be present and unique for every item.'')) (\<lambda>_.
         res_bind (guard_res (dec_sum 0 (map it_percentage xs) = 100)
                    (alloc_error ''Allocation percentages must total exactly 100%.'')) (\<lambda>_.
         res_bind (each (check_item now lenient (pl_confirmed p)) xs) (\<lambda>_.
         res_bind (guard_res (close_to (pl_allocated p) (dec_sum 0 (map it_actual xs)))
                    (field_error ''total_allocated'' ''The allocated total is inconsistent.'')) (\<lambda>_.
         res_bind (guard_res (\<bar>dec (dec (pl_confirmed p - pl_allocated p) - pl_remainder p)\<bar> \<le> MONEY_TOLERANCE)
                    (field_error ''total_remainder'' ''The cash remainder is inconsistent.'')) (\<lambda>_.
         res_bind (guard_res (length cat = length ids)
                    (alloc_error ''Every saved instrument must still be curated and active.'')) (\<lambda>_.
         each (check_metadata cat) xs)))))))))"

text \<open>\<open>_json_value\<close>: the numbers as floats.\<close>

definition json_item :: "item \<Rightarrow> item" where
  "json_item x = x\<lparr>it_percentage := flt (it_percentage x), it_target := flt (it_target x),
     it_price := flt (it_price x), it_increment := flt (it_increment x), it_quantity := flt (it_quantity x),
     it_actual := flt (it_actual x), it_remainder := flt (it_remainder x)\<rparr>"

definition json_plan :: "plan \<Rightarrow> plan" where
  "json_plan p = p\<lparr>pl_confirmed := flt (pl_confirmed p), pl_items := map json_item (pl_items p),
     pl_allocated := flt (pl_allocated p), pl_remainder := flt (pl_remainder p)\<rparr>"

text \<open>\<open>Decimal(str(value))\<close> of the numbers an edit reads back.\<close>

definition read_item :: "item \<Rightarrow> item" where
  "read_item x = x\<lparr>it_target := decimal_of_float (it_target x), it_price := decimal_of_float (it_price x),
     it_increment := decimal_of_float (it_increment x), it_quantity := decimal_of_float (it_quantity x)\<rparr>"

subsection \<open>Saving a plan\<close>

definition IMMUTABLE_ALLOCATION_FIELDS :: "(string \<times> (item \<Rightarrow> item \<Rightarrow> bool)) list" where
  "IMMUTABLE_ALLOCATION_FIELDS =
     [(''instrument_id'', \<lambda>x y. it_instrument x = it_instrument y), (''instrument_code'', \<lambda>x y. it_code x = it_code y),
      (''display_name'', \<lambda>x y. it_name x = it_name y), (''asset_class'', \<lambda>x y. it_class x = it_class y),
      (''unit_price'', \<lambda>x y. it_price x = it_price y), (''price_currency'', \<lambda>x y. it_currency x = it_currency y),
      (''unit'', \<lambda>x y. it_unit x = it_unit y), (''price_type'', \<lambda>x y. it_price_type x = it_price_type y),
      (''minimum_increment'', \<lambda>x y. it_increment x = it_increment y), (''observed_at'', \<lambda>x y. it_observed x = it_observed y),
      (''source'', \<lambda>x y. it_source x = it_source y), (''mode'', \<lambda>x y. it_mode x = it_mode y),
      (''priority'', \<lambda>x y. it_priority x = it_priority y), (''match_factors'', \<lambda>x y. it_factors x = it_factors y)]"

definition changed_field :: "item \<Rightarrow> item \<Rightarrow> string option" where
  "changed_field x y = map_option fst (List.find (\<lambda>(f, same). \<not> same x y) IMMUTABLE_ALLOCATION_FIELDS)"

definition payload_error :: "string \<Rightarrow> exc" where
  "payload_error m = ValidationError (Dict [(''payload'', Str m)])"

definition immutable_plan_data :: "plan \<Rightarrow> plan \<Rightarrow> exc + unit" where
  "immutable_plan_data p q =
     (let bad = (\<lambda>f. payload_error (''The saved scenario changed immutable plan data ('' @ f @ '').''))
      in res_bind (guard_res (pl_confirmed p = pl_confirmed q) (bad ''confirmed_amount'')) (\<lambda>_.
         res_bind (guard_res (pl_currency p = pl_currency q) (bad ''currency'')) (\<lambda>_.
         guard_res (pl_disclaimer p = pl_disclaimer q) (bad ''disclaimer''))))"

definition immutable_item_data :: "item list \<Rightarrow> item \<Rightarrow> exc + unit" where
  "immutable_item_data originals x =
     (case by_pk it_instrument originals (it_instrument x) of
        None \<Rightarrow> Inl (Unhandled ''KeyError'')
      | Some y \<Rightarrow>
         (case changed_field x y of
            None \<Rightarrow> Inr ()
          | Some f \<Rightarrow> Inl (payload_error (''The saved scenario changed immutable quote data ('' @ f @ '').''))))"

text \<open>Both payloads come from DRF's reading of their fields: \<open>Inl\<close> is its refusal.\<close>

definition validate_saved_payload ::
  "int \<Rightarrow> instrument list \<Rightarrow> detail + plan \<Rightarrow> detail + plan \<Rightarrow> exc + plan" where
  "validate_saved_payload now is incoming original =
     res_bind (case_sum (Inl \<circ> ValidationError) Inr incoming) (\<lambda>p.
     res_bind (validate_payload now False is p) (\<lambda>_.
     res_bind (case_sum (Inl \<circ> ValidationError) Inr original) (\<lambda>q.
     res_bind (validate_payload now False is q) (\<lambda>_.
     res_bind (immutable_plan_data p q) (\<lambda>_.
     res_bind (guard_res (set (map it_instrument (pl_items p)) = set (map it_instrument (pl_items q)))
                (payload_error ''The saved scenario changed the quoted instrument set.'')) (\<lambda>_.
     res_bind (each (immutable_item_data (pl_items q)) (pl_items p)) (\<lambda>_.
     Inr (json_plan p))))))))"

subsection \<open>Editing a saved plan\<close>

text \<open>The loop of \<open>_recalculate_saved_payload\<close>; \<open>used\<close> is the share given out so far.\<close>

fun recalculate_items :: "rat \<Rightarrow> rat \<Rightarrow> item list \<Rightarrow> exc + item list" where
  "recalculate_items confirmed used [] = Inr []"
| "recalculate_items confirmed used (x # xs) =
     (let target = quantize_he 2 (it_target x);
          pct = (if xs = [] then dec (100 - used) else quantize_hu 2 (dec (dec (target / confirmed) * 100)));
          allocated = cost_of (it_quantity x) (it_price x)
      in if xs \<noteq> [] \<and> confirmed = 0 then Inl (Unhandled ''InvalidOperation'')
         else if \<not> multiple_of (it_quantity x) (it_increment x) then
           Inl (ValidationError (Dict [(''quantity'', Str (''Quantity must use increments of '' @
              normalized_str (it_increment x) @ ''.''))]))
         else if target < allocated then
           Inl (ValidationError (Dict [(''quantity'', Str ''Quantity and price cannot exceed the planned amount.'')]))
         else res_bind (recalculate_items confirmed (dec (used + pct)) xs) (\<lambda>ys.
           Inr (x\<lparr>it_percentage := pct, it_target := target, it_actual := allocated,
                  it_remainder := dec (target - allocated)\<rparr> # ys)))"

text \<open>The recalculated plan before it is stored; \<open>wording\<close> is DRF's report of the fields it refuses.\<close>

definition recalculate_plan :: "(plan \<Rightarrow> detail) \<Rightarrow> int \<Rightarrow> instrument list \<Rightarrow> plan \<Rightarrow> exc + plan" where
  "recalculate_plan wording now is p =
     (if pl_items p = [] then Inl (ValidationError (Dict [(''allocations'', Str ''A plan cannot be empty.'')]))
      else
       (let confirmed = quantize_he 2 (dec_sum 0 (map it_target (pl_items p)))
        in res_bind (recalculate_items confirmed 0 (pl_items p)) (\<lambda>ys.
             let total = dec_sum 0 (map it_actual ys);
                 p' = p\<lparr>pl_items := ys, pl_confirmed := confirmed, pl_allocated := total,
                        pl_remainder := dec (confirmed - total), pl_saved := True\<rparr>
             in if \<not> plan_fields p' then Inl (ValidationError (wording p'))
                else res_bind (validate_payload now True is p') (\<lambda>_. Inr p'))))"

definition recalculate_saved_payload :: "(plan \<Rightarrow> detail) \<Rightarrow> int \<Rightarrow> instrument list \<Rightarrow> plan \<Rightarrow> exc + plan" where
  "recalculate_saved_payload wording now is p =
     res_bind (recalculate_plan wording now is p) (\<lambda>p'. Inr (json_plan p'))"

record item_changes =
  ch_target :: "rat option"
  ch_quantity :: "rat option"
  ch_price :: "rat option"

definition change_item :: "int \<Rightarrow> item_changes \<Rightarrow> item \<Rightarrow> item" where
  "change_item now c x =
     (let x1 = (case ch_target c of None \<Rightarrow> x | Some t \<Rightarrow> x\<lparr>it_target := t\<rparr>);
          x2 = (case ch_price c of None \<Rightarrow> x1
                | Some r \<Rightarrow> x1\<lparr>it_price := r, it_mode := ''user_supplied'',
                              it_source := ''User-edited plan price'', it_observed := now\<rparr>)
      in case ch_quantity c of
           Some q \<Rightarrow> x2\<lparr>it_quantity := q\<rparr>
         | None \<Rightarrow>
             if ch_target c \<noteq> None \<or> ch_price c \<noteq> None
             then x2\<lparr>it_quantity := affordable (it_target x2) (it_price x2) (it_increment x2)\<rparr>
             else x2)"

text \<open>Only the first item of the instrument is changed.\<close>

fun change_first :: "('a \<Rightarrow> bool) \<Rightarrow> ('a \<Rightarrow> 'a) \<Rightarrow> 'a list \<Rightarrow> 'a list" where
  "change_first test f [] = []"
| "change_first test f (x # xs) = (if test x then f x # xs else x # change_first test f xs)"

definition not_in_plan :: exc where
  "not_in_plan = ValidationError (Dict [(''instrument_id'', Str ''This investment is not part of the saved plan.'')])"

definition update_saved_allocation ::
  "(plan \<Rightarrow> detail) \<Rightarrow> int \<Rightarrow> instrument list \<Rightarrow> plan \<Rightarrow> uuid \<Rightarrow> item_changes \<Rightarrow> exc + plan" where
  "update_saved_allocation wording now is p k c =
     (if k \<notin> it_instrument ` set (pl_items p) then Inl not_in_plan
      else recalculate_saved_payload wording now is
        (p\<lparr>pl_items := change_first (\<lambda>x. it_instrument x = k) (change_item now c) (map read_item (pl_items p))\<rparr>))"

definition remove_saved_allocation ::
  "(plan \<Rightarrow> detail) \<Rightarrow> int \<Rightarrow> instrument list \<Rightarrow> plan \<Rightarrow> uuid \<Rightarrow> exc + plan option" where
  "remove_saved_allocation wording now is p k =
     (let rest = filter (\<lambda>x. it_instrument x \<noteq> k) (pl_items p)
      in if length rest = length (pl_items p) then Inl not_in_plan
         else if rest = [] then Inr None
         else res_bind (recalculate_saved_payload wording now is (p\<lparr>pl_items := map read_item rest\<rparr>)) (\<lambda>p'. Inr (Some p')))"

subsection \<open>Saved plans\<close>

type_synonym 'a pf_response = "(exc + 'a) \<times> portfolio"

definition scenario_error :: "string \<Rightarrow> exc" where
  "scenario_error m = ValidationError (Dict [(''scenario'', Str m)])"

definition own_scenario :: "uuid \<Rightarrow> uuid \<Rightarrow> portfolio \<Rightarrow> scenario option" where
  "own_scenario u k s = by_pk sc_id (filter (\<lambda>c. sc_user c = u) (scenarios s)) k"

definition scenario_missing :: exc where
  "scenario_missing = Http404 ''No SavedInvestmentScenario matches the given query.''"

definition save_scenario :: "scenario \<Rightarrow> portfolio \<Rightarrow> portfolio" where
  "save_scenario c s = s\<lparr>scenarios := save_row sc_id c (scenarios s)\<rparr>"

definition delete_scenario_row :: "uuid \<Rightarrow> portfolio \<Rightarrow> portfolio" where
  "delete_scenario_row k s = s\<lparr>scenarios := filter (\<lambda>c. sc_id c \<noteq> k) (scenarios s),
     purchases := filter (\<lambda>p. pu_scenario p \<noteq> k) (purchases s)\<rparr>"

text \<open>Saving the plan of an assistant's message: the first save makes the row, a later one only
  replaces its payload.\<close>

definition save_message_plan :: "int \<Rightarrow> uuid \<Rightarrow> uuid \<Rightarrow> uuid \<Rightarrow> plan \<Rightarrow> portfolio \<Rightarrow> portfolio" where
  "save_message_plan now k u m p s =
     (case first_pk sc_id (filter (\<lambda>c. sc_source c = Some m) (scenarios s)) of
        None \<Rightarrow> s\<lparr>scenarios := scenarios s @ [\<lparr>sc_id = k, sc_user = u, sc_title = ''Investment scenario'',
                  sc_status = Saved, sc_payload = p, sc_source = Some m, sc_saved_at = now\<rparr>]\<rparr>
      | Some c \<Rightarrow> save_scenario (c\<lparr>sc_payload := p\<rparr>) s)"

text \<open>The \<open>status\<close> query parameter; \<open>None\<close> of the result is ``all''.\<close>

definition status_filter :: "string option \<Rightarrow> exc + scenario_status option" where
  "status_filter p = (case p of
       None \<Rightarrow> Inr (Some Saved)
     | Some v \<Rightarrow> if v = ''saved'' then Inr (Some Saved) else if v = ''archived'' then Inr (Some Archived)
                 else if v = ''all'' then Inr None
                 else Inl (ValidationError (Dict [(''status'', Str ''Use saved, archived, or all.'')])))"

definition list_scenarios :: "uuid \<Rightarrow> string option \<Rightarrow> portfolio \<Rightarrow> exc + scenario list" where
  "list_scenarios u p s =
     res_bind (status_filter p) (\<lambda>st. Inr (rev (sort_key sc_saved_at (sort_key sc_id (filter (\<lambda>c. sc_user c = u \<and>
       wants st (\<lambda>v. sc_status c = v)) (scenarios s))))))"

text \<open>PATCH of the title and the status; the title is stripped and may not be blank.\<close>

definition patch_scenario ::
  "uuid \<Rightarrow> uuid \<Rightarrow> detail + string option \<times> scenario_status option \<Rightarrow> portfolio \<Rightarrow> scenario pf_response" where
  "patch_scenario u k validated s =
     (case own_scenario u k s of
        None \<Rightarrow> (Inl scenario_missing, s)
      | Some c \<Rightarrow>
         (case validated of
            Inl es \<Rightarrow> (Inl (ValidationError es), s)
          | Inr (title, st) \<Rightarrow>
              if map_option str_strip title = Some [] then
                (Inl (field_error ''title'' ''Title cannot be blank.''), s)
              else if title = None \<and> st = None then
                (Inl (field_error ''non_field_errors'' ''Provide a title or status to update.''), s)
              else
                let c' = c\<lparr>sc_title := case_option (sc_title c) str_strip title, sc_status := case_option (sc_status c) id st\<rparr>
                in (Inr c', save_scenario c' s)))"

definition delete_scenario :: "uuid \<Rightarrow> uuid \<Rightarrow> portfolio \<Rightarrow> unit pf_response" where
  "delete_scenario u k s =
     (case own_scenario u k s of
        None \<Rightarrow> (Inl scenario_missing, s)
      | Some c \<Rightarrow> (Inr (), delete_scenario_row k s))"

subsection \<open>Recording a purchase\<close>

record purchase_data =
  pd_quantity :: rat
  pd_price :: rat
  pd_fees :: rat
  pd_date :: date

definition purchase_of :: "uuid \<Rightarrow> uuid \<Rightarrow> portfolio \<Rightarrow> purchase option" where
  "purchase_of k i s = first_pk pu_id (filter (\<lambda>p. pu_scenario p = k \<and> pu_instrument p = i) (purchases s))"

definition holding_of :: "uuid \<Rightarrow> uuid \<Rightarrow> portfolio \<Rightarrow> holding option" where
  "holding_of u i s = first_pk ho_id (filter (\<lambda>h. ho_user h = u \<and> ho_instrument h = i) (holdings s))"

text \<open>The column limits of a holding.\<close>

definition holding_fits :: "holding \<Rightarrow> bool" where
  "holding_fits h \<longleftrightarrow> \<bar>ho_quantity h\<bar> < 10 ^ 16 \<and> \<bar>ho_average h\<bar> < 10 ^ 16 \<and> \<bar>ho_fees h\<bar> < 10 ^ 18"

definition add_to_holding :: "purchase_data \<Rightarrow> holding \<Rightarrow> holding" where
  "add_to_holding x h =
     (let previous = dec (ho_quantity h * ho_average h);
          total = dec (ho_quantity h + pd_quantity x);
          weighted = quantize_hu 4 (dec (dec (previous + dec (pd_quantity x * pd_price x)) / total))
      in h\<lparr>ho_quantity := total, ho_average := weighted,
           ho_fees := quantize_he 2 (dec (ho_fees h + pd_fees x)),
           ho_purchased := Some (case ho_purchased h of None \<Rightarrow> pd_date x | Some t \<Rightarrow> min t (pd_date x))\<rparr>)"

definition first_holding :: "uuid \<Rightarrow> uuid \<Rightarrow> uuid \<Rightarrow> purchase_data \<Rightarrow> holding" where
  "first_holding hid u i x = \<lparr>ho_id = hid, ho_user = u, ho_instrument = i, ho_quantity = pd_quantity x,
     ho_average = pd_price x, ho_fees = pd_fees x, ho_purchased = Some (pd_date x)\<rparr>"

definition increment_error :: "rat \<Rightarrow> exc" where
  "increment_error inc = ValidationError (Dict [(''quantity'', Str (''Quantity must use increments of '' @
     normalized_str inc @ ''.''))])"

text \<open>\<open>purchased_at\<close> may not lie after \<open>today\<close>.\<close>

definition purchase_valid :: "date \<Rightarrow> detail + purchase_data \<Rightarrow> exc + purchase_data" where
  "purchase_valid today validated =
     res_bind (case_sum (Inl \<circ> ValidationError) Inr validated) (\<lambda>x.
       res_bind (guard_res (pd_date x \<le> today) (field_error ''purchased_at'' ''Purchase date cannot be in the future.''))
         (\<lambda>_. Inr x))"

definition purchase_row :: "uuid \<Rightarrow> uuid \<Rightarrow> uuid \<Rightarrow> purchase_data \<Rightarrow> holding \<Rightarrow> purchase" where
  "purchase_row pid k i x h = \<lparr>pu_id = pid, pu_scenario = k, pu_instrument = i, pu_holding = Some (ho_id h),
     pu_quantity = pd_quantity x, pu_price = pd_price x, pu_fees = pd_fees x, pu_date = pd_date x\<rparr>"

text \<open>POST /investment-scenarios/{id}/allocations/{instrument}/purchase, one transaction; the
  boolean tells 201 from 200.\<close>

definition purchase_allocation ::
  "date \<Rightarrow> uuid \<Rightarrow> uuid \<Rightarrow> uuid \<Rightarrow> uuid \<Rightarrow> uuid \<Rightarrow> detail + purchase_data \<Rightarrow> portfolio \<Rightarrow> bool pf_response" where
  "purchase_allocation today hid pid u k i validated s =
     (case own_scenario u k s of
        None \<Rightarrow> (Inl scenario_missing, s)
      | Some c \<Rightarrow>
         if sc_status c \<noteq> Saved then (Inl (scenario_error ''Restore this plan before recording a purchase.''), s)
         else if i \<notin> it_instrument ` set (pl_items (sc_payload c)) then (Inl not_in_plan, s)
         else
          (case purchase_valid today validated of
             Inl e \<Rightarrow> (Inl e, s)
           | Inr x \<Rightarrow>
              (case purchase_of k i s of
                 Some p \<Rightarrow> (Inr False, s)
               | None \<Rightarrow>
                  (case by_pk ins_id (instruments s) i of
                     None \<Rightarrow> (Inl (Http404 ''No InvestmentInstrument matches the given query.''), s)
                   | Some ins \<Rightarrow>
                      if \<not> multiple_of (pd_quantity x) (ins_increment ins) then (Inl (increment_error (ins_increment ins)), s)
                      else
                       (case holding_of u i s of
                          None \<Rightarrow> let h = first_holding hid u i x
                                  in (Inr True, s\<lparr>holdings := holdings s @ [h],
                                        purchases := purchases s @ [purchase_row pid k i x h]\<rparr>)
                        | Some old \<Rightarrow>
                            let h = add_to_holding x old
                            in if \<not> holding_fits h then (Inl (Unhandled ''DataError''), s)
                               else (Inr True, s\<lparr>holdings := save_row ho_id h (holdings s),
                                       purchases := purchases s @ [purchase_row pid k i x h]\<rparr>))))))"

subsection \<open>Editing and removing a pending allocation\<close>

definition already_owned :: exc where
  "already_owned = ValidationError (Dict [(''instrument_id'',
     Str ''This investment is already owned. Edit it under Owned investments.'')])"

definition editable :: "uuid \<Rightarrow> uuid \<Rightarrow> uuid \<Rightarrow> portfolio \<Rightarrow> exc + scenario" where
  "editable u k i s =
     (case own_scenario u k s of
        None \<Rightarrow> Inl scenario_missing
      | Some c \<Rightarrow>
         if sc_status c \<noteq> Saved then Inl (scenario_error ''Restore this plan before editing it.'')
         else if \<exists>p \<in> set (purchases s). pu_scenario p = k \<and> pu_instrument p = i then Inl already_owned
         else Inr c)"

definition patch_allocation ::
  "(plan \<Rightarrow> detail) \<Rightarrow> int \<Rightarrow> uuid \<Rightarrow> uuid \<Rightarrow> uuid \<Rightarrow> detail + item_changes \<Rightarrow> portfolio \<Rightarrow> scenario pf_response" where
  "patch_allocation wording now u k i validated s =
     (case res_bind (editable u k i s) (\<lambda>c.
             res_bind (case_sum (Inl \<circ> ValidationError) Inr validated) (\<lambda>ch.
               res_bind (update_saved_allocation wording now (instruments s) (sc_payload c) i ch) (\<lambda>p.
                 Inr (c\<lparr>sc_payload := p\<rparr>)))) of
        Inl e \<Rightarrow> (Inl e, s)
      | Inr c' \<Rightarrow> (Inr c', save_scenario c' s))"

text \<open>What removing leaves of the plan: \<open>None\<close> when nothing is left to buy.\<close>

definition plan_after_removal :: "uuid \<Rightarrow> portfolio \<Rightarrow> plan option \<Rightarrow> plan option" where
  "plan_after_removal k s p =
     (let bought = pu_instrument ` set (filter (\<lambda>q. pu_scenario q = k) (purchases s))
      in case p of
           None \<Rightarrow> None
         | Some q \<Rightarrow> if it_instrument ` set (pl_items q) \<subseteq> bought then None else Some q)"

definition delete_allocation ::
  "(plan \<Rightarrow> detail) \<Rightarrow> int \<Rightarrow> uuid \<Rightarrow> uuid \<Rightarrow> uuid \<Rightarrow> portfolio \<Rightarrow> unit pf_response" where
  "delete_allocation wording now u k i s =
     (case res_bind (editable u k i s) (\<lambda>c.
             res_bind (remove_saved_allocation wording now (instruments s) (sc_payload c) i) (\<lambda>p. Inr (c, p))) of
        Inl e \<Rightarrow> (Inl e, s)
      | Inr (c, p) \<Rightarrow>
         (case plan_after_removal k s p of
            None \<Rightarrow> (Inr (), delete_scenario_row k s)
          | Some q \<Rightarrow> (Inr (), save_scenario (c\<lparr>sc_payload := q\<rparr>) s)))"

subsection \<open>Holdings\<close>

text \<open>The write serializer's data: \<open>hd_instrument\<close> is the row the id was resolved to, among the
  active instruments.\<close>

record holding_data =
  hd_instrument :: "instrument option"
  hd_quantity :: "rat option"
  hd_average :: "rat option"
  hd_fees :: "rat option"
  hd_purchased :: "date option option"

definition purchased_in_future :: "date \<Rightarrow> holding_data \<Rightarrow> bool" where
  "purchased_in_future today x \<longleftrightarrow> (case hd_purchased x of Some (Some t) \<Rightarrow> today < t | _ \<Rightarrow> False)"

definition future_error :: exc where
  "future_error = field_error ''purchased_at'' ''Purchase date cannot be in the future.''"

definition check_increment :: "rat option \<Rightarrow> instrument \<Rightarrow> exc + unit" where
  "check_increment q ins =
     (case q of
        None \<Rightarrow> Inr ()
      | Some v \<Rightarrow> guard_res (multiple_of v (ins_increment ins))
                  (field_error ''quantity'' (''Quantity must use increments of '' @ normalized_str (ins_increment ins) @ ''.'')))"

text \<open>POST /holdings; DRF requires the quantity and the price.\<close>

definition post_holding ::
  "date \<Rightarrow> uuid \<Rightarrow> uuid \<Rightarrow> detail + holding_data \<Rightarrow> portfolio \<Rightarrow> holding pf_response" where
  "post_holding today hid u validated s =
     (case validated of
        Inl es \<Rightarrow> (Inl (ValidationError es), s)
      | Inr x \<Rightarrow>
         if purchased_in_future today x then (Inl future_error, s)
         else
          (case hd_instrument x of
             None \<Rightarrow> (Inl (field_error ''instrument_id'' ''This field is required.''), s)
           | Some ins \<Rightarrow>
               if filter (\<lambda>h. ho_user h = u \<and> ho_instrument h = ins_id ins) (holdings s) \<noteq> [] then
                 (Inl (field_error ''instrument_id'' (''You already track this opportunity. Edit the existing holding '' @
                    ''and enter your total quantity and average price.'')), s)
               else
                (case (check_increment (hd_quantity x) ins, hd_quantity x, hd_average x) of
                   (Inl e, _, _) \<Rightarrow> (Inl e, s)
                 | (Inr _, Some q, Some p) \<Rightarrow>
                     let h = \<lparr>ho_id = hid, ho_user = u, ho_instrument = ins_id ins, ho_quantity = q, ho_average = p,
                              ho_fees = case_option 0 id (hd_fees x), ho_purchased = case_option None id (hd_purchased x)\<rparr>
                     in (Inr h, s\<lparr>holdings := holdings s @ [h]\<rparr>)
                 | _ \<Rightarrow> (Inl (Unhandled ''IntegrityError''), s))))"

definition own_holding :: "uuid \<Rightarrow> uuid \<Rightarrow> portfolio \<Rightarrow> holding option" where
  "own_holding u k s = by_pk ho_id (filter (\<lambda>h. ho_user h = u) (holdings s)) k"

definition holding_missing :: exc where
  "holding_missing = Http404 ''No InvestmentHolding matches the given query.''"

definition apply_holding_patch :: "holding_data \<Rightarrow> holding \<Rightarrow> holding" where
  "apply_holding_patch x h = h\<lparr>ho_quantity := case_option (ho_quantity h) id (hd_quantity x),
     ho_average := case_option (ho_average h) id (hd_average x), ho_fees := case_option (ho_fees h) id (hd_fees x),
     ho_purchased := case_option (ho_purchased h) id (hd_purchased x)\<rparr>"

definition patch_holding ::
  "date \<Rightarrow> uuid \<Rightarrow> uuid \<Rightarrow> detail + holding_data \<Rightarrow> portfolio \<Rightarrow> holding pf_response" where
  "patch_holding today u k validated s =
     (case own_holding u k s of
        None \<Rightarrow> (Inl holding_missing, s)
      | Some h \<Rightarrow>
         (case validated of
            Inl es \<Rightarrow> (Inl (ValidationError es), s)
          | Inr x \<Rightarrow>
              if purchased_in_future today x then (Inl future_error, s)
              else if \<exists>ins. hd_instrument x = Some ins \<and> ins_id ins \<noteq> ho_instrument h then
                (Inl (field_error ''instrument_id'' ''The opportunity cannot be changed; create another holding.''), s)
              else
               (case by_pk ins_id (instruments s) (ho_instrument h) of
                  None \<Rightarrow> (Inl (Unhandled ''DoesNotExist''), s)
                | Some ins \<Rightarrow>
                   (case check_increment (hd_quantity x) ins of
                      Inl e \<Rightarrow> (Inl e, s)
                    | Inr _ \<Rightarrow> let h' = apply_holding_patch x h in (Inr h', s\<lparr>holdings := save_row ho_id h' (holdings s)\<rparr>)))))"

text \<open>The purchases of a deleted holding lose their link.\<close>

definition delete_holding :: "uuid \<Rightarrow> uuid \<Rightarrow> portfolio \<Rightarrow> unit pf_response" where
  "delete_holding u k s =
     (case own_holding u k s of
        None \<Rightarrow> (Inl holding_missing, s)
      | Some h \<Rightarrow> (Inr (), s\<lparr>holdings := filter (\<lambda>x. ho_id x \<noteq> k) (holdings s),
          purchases := map (\<lambda>p. if pu_holding p = Some k then p\<lparr>pu_holding := None\<rparr> else p) (purchases s)\<rparr>))"

end
