(* ===== verification/Investment_Laws.thy ===== *)
theory Investment_Laws
  imports Investments Budget_Laws Analytics_Laws
begin

text \<open>
  What the investment endpoints promise: one holding per instrument and one purchase per plan
  item, purchases that are added exactly once at a price between the old and the new one,
  and edited plans whose amounts add up.
\<close>

subsection \<open>Exact decimals\<close>

lemma dec_places:
  assumes "places n x" "\<bar>x\<bar> * 10 ^ n < 10 ^ 28"
  shows "dec x = x"
proof -
  obtain k where k: "x = of_int k / 10 ^ n" using assms(1) by (rule placesE)
  have "of_int \<bar>k\<bar> < (of_int (10 ^ 28) :: rat)" using assms(2) by (simp add: k abs_divide)
  then have "\<bar>k\<bar> < 10 ^ 28" unfolding of_int_less_iff .
  then show ?thesis by (rule dec_exact [of _ _ n]) (simp add: k)
qed

lemma dec_err:
  assumes "0 \<le> x"
  shows "\<bar>dec x - x\<bar> \<le> x / 10 ^ 27"
proof (cases "x = 0")
  case False
  with assms have x: "0 < x" by simp
  have "10 powi (magn 10 x - 27) = (10 powi magn 10 x / 10 ^ 27 :: rat)"
    using power_int_diff [of "10 :: rat" "magn 10 x" 27] by (simp add: power_int_numeral)
  then have "\<bar>dec x - x\<bar> \<le> 10 powi magn 10 x / 10 ^ 27 / 2"
    using round_sig_err [of 10 x 28] x by (simp add: dec_def)
  also have "\<dots> \<le> 10 powi magn 10 x / 10 ^ 27" by simp
  also have "\<dots> \<le> x / 10 ^ 27" using magn_bounds [of 10 x] x by (intro divide_right_mono) auto
  finally show ?thesis .
qed simp

lemma multiple_ofE:
  assumes "multiple_of x inc" "inc \<noteq> 0"
  obtains k where "x = of_int k * inc"
  using assms by (metis multiple_of_def nonzero_eq_divide_eq)

lemma multiple_ofI: "x = of_int k * inc \<Longrightarrow> inc \<noteq> 0 \<Longrightarrow> multiple_of x inc"
  by (simp add: multiple_of_def)

lemma multiple_of_add:
  assumes "multiple_of x inc" "multiple_of y inc" "inc \<noteq> 0"
  shows "multiple_of (x + y) inc"
proof -
  obtain k l where "x = of_int k * inc" "y = of_int l * inc"
    using assms by (metis multiple_ofE)
  then have "x + y = of_int (k + l) * inc" by (simp add: algebra_simps)
  then show ?thesis using assms(3) by (rule multiple_ofI)
qed

subsection \<open>The weighted average\<close>

text \<open>Rounding half up to four places stays on the right side of a four-place number.\<close>

lemma quantize_hu_le:
  assumes "places 4 h" "y < h + 1 / 20000" "0 \<le> y"
  shows "quantize_hu 4 y \<le> h"
proof -
  obtain k where k: "h = of_int k / 10 ^ 4" using assms(1) by (rule placesE)
  have "y * 10 ^ 4 + 1 / 2 < of_int (k + 1)" using assms(2) by (simp add: k)
  then have "\<lfloor>y * 10 ^ 4 + 1 / 2\<rfloor> < k + 1" by (simp only: floor_less_iff)
  then have "rhu (y * 10 ^ 4) \<le> k" using assms(3) by (simp add: rhu_def)
  then have "(of_int (rhu (y * 10 ^ 4)) :: rat) \<le> of_int k" by (simp only: of_int_le_iff)
  then show ?thesis by (simp add: quantize_hu_def k)
qed

lemma quantize_hu_ge:
  assumes "places 4 l" "l - 1 / 20000 \<le> y" "0 \<le> y"
  shows "l \<le> quantize_hu 4 y"
proof -
  obtain k where k: "l = of_int k / 10 ^ 4" using assms(1) by (rule placesE)
  have "of_int k \<le> y * 10 ^ 4 + 1 / 2" using assms(2) by (simp add: k)
  then have "k \<le> \<lfloor>y * 10 ^ 4 + 1 / 2\<rfloor>" by (simp only: le_floor_iff)
  then have "k \<le> rhu (y * 10 ^ 4)" using assms(3) by (simp add: rhu_def)
  then have "of_int k \<le> (of_int (rhu (y * 10 ^ 4)) :: rat)" by (simp only: of_int_le_iff)
  then show ?thesis by (simp add: quantize_hu_def k)
qed

definition up :: rat where "up = 1 + 1 / 10 ^ 27"
definition down :: rat where "down = 1 - 1 / 10 ^ 27"

lemma up_down_pos: "0 < up" "0 < down"
  by (simp_all add: up_def down_def)

lemma dec_bounds: "0 \<le> x \<Longrightarrow> down * x \<le> dec x \<and> dec x \<le> up * x"
proof -
  assume "0 \<le> x"
  then have "\<bar>dec x - x\<bar> \<le> x / 10 ^ 27" by (rule dec_err)
  then have "x - x / 10 ^ 27 \<le> dec x" "dec x \<le> x + x / 10 ^ 27" by linarith+
  moreover have "down * x = x - x / 10 ^ 27" "up * x = x + x / 10 ^ 27"
    by (simp_all add: up_def down_def algebra_simps)
  ultimately show ?thesis by (simp only: simp_thms)
qed

lemma weighted_upper:
  assumes "0 \<le> q0" "0 \<le> q" "0 < q0 + q" "0 \<le> a" "0 \<le> p" "a \<le> h" "p \<le> h"
  shows "dec (dec (dec (q0 * a) + dec (q * p)) / (q0 + q)) \<le> up ^ 3 * h"
proof -
  note pos = up_down_pos
  have "dec (q0 * a) \<le> up * (q0 * h)"
    by (rule order_trans [OF dec_bounds [THEN conjunct2]])
      (use assms pos in \<open>auto intro!: mult_left_mono mult_nonneg_nonneg\<close>)
  moreover have "dec (q * p) \<le> up * (q * h)"
    by (rule order_trans [OF dec_bounds [THEN conjunct2]])
      (use assms pos in \<open>auto intro!: mult_left_mono mult_nonneg_nonneg\<close>)
  ultimately have s: "dec (q0 * a) + dec (q * p) \<le> up * h * (q0 + q)" by (simp add: algebra_simps)
  have nn: "0 \<le> dec (q0 * a) + dec (q * p)" using assms by (intro add_nonneg_nonneg dec_nonneg) auto
  have "dec (dec (q0 * a) + dec (q * p)) \<le> up * (up * h * (q0 + q))"
    by (rule order_trans [OF dec_bounds [THEN conjunct2, OF nn]]) (use s pos in simp)
  then have d: "dec (dec (q0 * a) + dec (q * p)) / (q0 + q) \<le> up * (up * h)"
    using assms(3) by (simp add: divide_le_eq mult.assoc)
  have nn2: "0 \<le> dec (dec (q0 * a) + dec (q * p)) / (q0 + q)"
    using assms(3) dec_nonneg [OF nn] by simp
  have "dec (dec (dec (q0 * a) + dec (q * p)) / (q0 + q)) \<le> up * (up * (up * h))"
    by (rule order_trans [OF dec_bounds [THEN conjunct2, OF nn2] mult_left_mono [OF d]]) (use pos in simp)
  then show ?thesis by (simp add: power3_eq_cube mult.assoc)
qed

lemma weighted_lower:
  assumes "0 \<le> q0" "0 \<le> q" "0 < q0 + q" "0 \<le> l" "l \<le> a" "l \<le> p"
  shows "down ^ 3 * l \<le> dec (dec (dec (q0 * a) + dec (q * p)) / (q0 + q))"
proof -
  note pos = up_down_pos
  have ap: "0 \<le> a" "0 \<le> p" using assms by auto
  have "down * (q0 * l) \<le> dec (q0 * a)"
    by (rule order_trans [OF _ dec_bounds [THEN conjunct1]])
      (use assms ap pos in \<open>auto intro!: mult_left_mono mult_nonneg_nonneg\<close>)
  moreover have "down * (q * l) \<le> dec (q * p)"
    by (rule order_trans [OF _ dec_bounds [THEN conjunct1]])
      (use assms ap pos in \<open>auto intro!: mult_left_mono mult_nonneg_nonneg\<close>)
  ultimately have s: "down * l * (q0 + q) \<le> dec (q0 * a) + dec (q * p)" by (simp add: algebra_simps)
  have nn: "0 \<le> dec (q0 * a) + dec (q * p)" using assms ap by (intro add_nonneg_nonneg dec_nonneg) auto
  have "down * (down * l * (q0 + q)) \<le> dec (dec (q0 * a) + dec (q * p))"
    by (rule order_trans [OF _ dec_bounds [THEN conjunct1, OF nn]]) (use s pos in simp)
  then have d: "down * (down * l) \<le> dec (dec (q0 * a) + dec (q * p)) / (q0 + q)"
    using assms(3) by (simp add: le_divide_eq mult.assoc)
  have nn2: "0 \<le> dec (dec (q0 * a) + dec (q * p)) / (q0 + q)"
    using assms(3) dec_nonneg [OF nn] by simp
  have "down * (down * (down * l)) \<le> dec (dec (dec (q0 * a) + dec (q * p)) / (q0 + q))"
    by (rule order_trans [OF mult_left_mono [OF d] dec_bounds [THEN conjunct1, OF nn2]]) (use pos in simp)
  then show ?thesis by (simp add: power3_eq_cube mult.assoc)
qed

lemma up3: "0 \<le> h \<Longrightarrow> h < 10 ^ 16 \<Longrightarrow> up ^ 3 * h < h + 1 / 20000"
proof -
  assume h: "0 \<le> h" "h < 10 ^ 16"
  have "up ^ 3 \<le> 1 + 4 / 10 ^ 27" by (simp add: up_def power3_eq_cube)
  then have "up ^ 3 * h \<le> (1 + 4 / 10 ^ 27) * h" using h(1) by (rule mult_right_mono)
  also have "\<dots> = h + 4 / 10 ^ 27 * h" by (simp add: algebra_simps)
  also have "\<dots> < h + 1 / 20000" using h by simp
  finally show ?thesis .
qed

lemma down3: "0 \<le> l \<Longrightarrow> l < 10 ^ 16 \<Longrightarrow> l - 1 / 20000 \<le> down ^ 3 * l"
proof -
  assume l: "0 \<le> l" "l < 10 ^ 16"
  have "1 - 4 / 10 ^ 27 \<le> down ^ 3" by (simp add: down_def power3_eq_cube)
  then have "(1 - 4 / 10 ^ 27) * l \<le> down ^ 3 * l" using l(1) by (rule mult_right_mono)
  moreover have "(1 - 4 / 10 ^ 27) * l = l - 4 / 10 ^ 27 * l" by (simp add: algebra_simps)
  ultimately show ?thesis using l by simp
qed

lemma average_between:
  assumes "0 \<le> ho_quantity h" "0 \<le> pd_quantity x" "0 < ho_quantity h + pd_quantity x"
    "dec (ho_quantity h + pd_quantity x) = ho_quantity h + pd_quantity x"
    "places 4 (ho_average h)" "0 \<le> ho_average h" "ho_average h < 10 ^ 16"
    "places 4 (pd_price x)" "0 \<le> pd_price x" "pd_price x < 10 ^ 16"
  shows "min (ho_average h) (pd_price x) \<le> ho_average (add_to_holding x h) \<and>
    ho_average (add_to_holding x h) \<le> max (ho_average h) (pd_price x)"
proof -
  let ?lo = "min (ho_average h) (pd_price x)" and ?hi = "max (ho_average h) (pd_price x)"
  let ?w = "dec (dec (dec (ho_quantity h * ho_average h) + dec (pd_quantity x * pd_price x)) / (ho_quantity h + pd_quantity x))"
  have avg: "ho_average (add_to_holding x h) = quantize_hu 4 ?w"
    by (simp add: add_to_holding_def Let_def assms(4))
  have nn: "0 \<le> ?w" using assms
    by (intro dec_nonneg divide_nonneg_nonneg add_nonneg_nonneg mult_nonneg_nonneg) auto
  have "places 4 ?hi" "places 4 ?lo" using assms by (auto simp: max_def min_def)
  moreover have "?w < ?hi + 1 / 20000"
  proof (rule le_less_trans)
    show "?w \<le> up ^ 3 * ?hi"
      by (rule weighted_upper [OF assms(1-3,6,9) max.cobounded1 max.cobounded2])
    show "up ^ 3 * ?hi < ?hi + 1 / 20000" by (rule up3) (use assms(6,7,9,10) in \<open>simp_all add: max_def\<close>)
  qed
  moreover have "?lo - 1 / 20000 \<le> ?w"
  proof (rule order_trans)
    have lo: "0 \<le> ?lo" "?lo < 10 ^ 16" using assms(6,7,9,10) by (simp_all add: min_def)
    show "?lo - 1 / 20000 \<le> down ^ 3 * ?lo" by (rule down3 [OF lo])
    show "down ^ 3 * ?lo \<le> ?w"
      by (rule weighted_lower [OF assms(1-3) lo(1) min.cobounded1 min.cobounded2])
  qed
  ultimately show ?thesis unfolding avg using quantize_hu_le quantize_hu_ge nn by blast
qed

subsection \<open>One holding per instrument, one purchase per plan item\<close>

definition number_ok :: "nat \<Rightarrow> nat \<Rightarrow> rat \<Rightarrow> bool" where
  "number_ok n digits x \<longleftrightarrow> places n x \<and> 0 < x \<and> x < 10 ^ digits"

definition holding_ok :: "instrument list \<Rightarrow> holding \<Rightarrow> bool" where
  "holding_ok is h \<longleftrightarrow> number_ok 8 16 (ho_quantity h) \<and> number_ok 4 16 (ho_average h) \<and>
     (\<exists>i \<in> set is. ins_id i = ho_instrument h \<and> multiple_of (ho_quantity h) (ins_increment i))"

definition catalogue_ok :: "instrument list \<Rightarrow> bool" where
  "catalogue_ok is \<longleftrightarrow> distinct (map ins_id is) \<and> (\<forall>i \<in> set is. 0 < ins_increment i)"

definition holdings_ok :: "instrument list \<Rightarrow> holding list \<Rightarrow> bool" where
  "holdings_ok is hs \<longleftrightarrow> distinct (map ho_id hs) \<and> distinct (map (\<lambda>h. (ho_user h, ho_instrument h)) hs) \<and>
     (\<forall>h \<in> set hs. holding_ok is h)"

definition purchases_ok :: "scenario list \<Rightarrow> purchase list \<Rightarrow> bool" where
  "purchases_ok cs ps \<longleftrightarrow> distinct (map (\<lambda>p. (pu_scenario p, pu_instrument p)) ps) \<and>
     (\<forall>p \<in> set ps. pu_scenario p \<in> sc_id ` set cs)"

definition portfolio_ok :: "portfolio \<Rightarrow> bool" where
  "portfolio_ok s \<longleftrightarrow> catalogue_ok (instruments s) \<and> holdings_ok (instruments s) (holdings s) \<and>
     distinct (map sc_id (scenarios s)) \<and> purchases_ok (scenarios s) (purchases s)"

lemma holdings_okD:
  assumes "holdings_ok is hs"
  shows "distinct (map ho_id hs)" "distinct (map (\<lambda>h. (ho_user h, ho_instrument h)) hs)"
    "\<And>h. h \<in> set hs \<Longrightarrow> holding_ok is h"
  using assms by (simp_all add: holdings_ok_def)

lemma portfolio_okD:
  assumes "portfolio_ok s"
  shows "catalogue_ok (instruments s)" "distinct (map ho_id (holdings s))"
    "distinct (map (\<lambda>h. (ho_user h, ho_instrument h)) (holdings s))"
    "\<And>h. h \<in> set (holdings s) \<Longrightarrow> holding_ok (instruments s) h"
    "distinct (map sc_id (scenarios s))" "purchases_ok (scenarios s) (purchases s)"
    "holdings_ok (instruments s) (holdings s)"
  using assms by (simp_all add: portfolio_ok_def holdings_ok_def)

definition purchase_data_ok :: "purchase_data \<Rightarrow> bool" where
  "purchase_data_ok x \<longleftrightarrow> number_ok 8 16 (pd_quantity x) \<and> number_ok 4 16 (pd_price x)"

definition holding_data_ok :: "instrument list \<Rightarrow> holding_data \<Rightarrow> bool" where
  "holding_data_ok is x \<longleftrightarrow> (\<forall>q. hd_quantity x = Some q \<longrightarrow> number_ok 8 16 q) \<and>
     (\<forall>a. hd_average x = Some a \<longrightarrow> number_ok 4 16 a) \<and> (\<forall>i. hd_instrument x = Some i \<longrightarrow> i \<in> set is)"

lemma catalogue_by_pk:
  assumes "catalogue_ok is" "by_pk ins_id is k = Some i"
  shows "i \<in> set is" "ins_id i = k" "0 < ins_increment i"
  using assms by_pk_Some [OF assms(2)] by (auto simp: catalogue_ok_def)

lemma catalogue_same:
  assumes "catalogue_ok is" "i \<in> set is" "j \<in> set is" "ins_id i = ins_id j"
  shows "i = j"
  using assms by (auto simp: catalogue_ok_def distinct_map dest: inj_onD)

lemma sum_exact:
  assumes "number_ok 8 16 x" "number_ok 8 16 y"
  shows "dec (x + y) = x + y"
proof (rule dec_places)
  show "places 8 (x + y)" using assms by (simp add: number_ok_def)
  show "\<bar>x + y\<bar> * 10 ^ 8 < 10 ^ 28" using assms by (simp add: number_ok_def)
qed

lemma purchase_of_None: "purchase_of k i s = None \<longleftrightarrow> (\<forall>p \<in> set (purchases s). \<not> (pu_scenario p = k \<and> pu_instrument p = i))"
  by (simp add: purchase_of_def filter_empty_conv)

lemma holding_of_in: "holding_of u i s = Some h \<Longrightarrow> h \<in> set (holdings s) \<and> ho_user h = u \<and> ho_instrument h = i"
  unfolding holding_of_def by (drule first_pk_filterD) simp

lemma holding_of_None: "holding_of u i s = None \<longleftrightarrow> (u, i) \<notin> (\<lambda>h. (ho_user h, ho_instrument h)) ` set (holdings s)"
  by (auto simp: holding_of_def filter_empty_conv)

lemma own_scenario_in: "own_scenario u k s = Some c \<Longrightarrow> c \<in> set (scenarios s) \<and> sc_id c = k \<and> sc_user c = u"
  unfolding own_scenario_def by (drule by_pk_Some) simp

text \<open>A purchase that succeeds: repeated, or the first into a holding, or into the holding there is.\<close>

lemma purchase_row_simps [simp]:
  "pu_scenario (purchase_row pid k i x h) = k" "pu_instrument (purchase_row pid k i x h) = i"
  "pu_quantity (purchase_row pid k i x h) = pd_quantity x"
  by (simp_all add: purchase_row_def)

definition bought_into :: "holding option \<Rightarrow> uuid \<Rightarrow> uuid \<Rightarrow> uuid \<Rightarrow> purchase_data \<Rightarrow> holding" where
  "bought_into old hid u i x = (case old of None \<Rightarrow> first_holding hid u i x | Some h \<Rightarrow> add_to_holding x h)"

definition book_holding :: "holding option \<Rightarrow> holding \<Rightarrow> holding list \<Rightarrow> holding list" where
  "book_holding old h hs = (case old of None \<Rightarrow> hs @ [h] | Some _ \<Rightarrow> save_row ho_id h hs)"

lemma purchase_cases:
  assumes "purchase_allocation today hid pid u k i v s = (r, s')"
  obtains (refused) e where "r = Inl e" "s' = s"
  | (repeated) c x p where "r = Inr False" "s' = s" "own_scenario u k s = Some c" "sc_status c = Saved"
      "i \<in> it_instrument ` set (pl_items (sc_payload c))" "purchase_valid today v = Inr x" "purchase_of k i s = Some p"
  | (recorded) c x ins where "r = Inr True" "own_scenario u k s = Some c" "sc_status c = Saved"
      "i \<in> it_instrument ` set (pl_items (sc_payload c))" "purchase_valid today v = Inr x" "purchase_of k i s = None"
      "by_pk ins_id (instruments s) i = Some ins" "multiple_of (pd_quantity x) (ins_increment ins)"
      "holding_of u i s \<noteq> None \<Longrightarrow> holding_fits (bought_into (holding_of u i s) hid u i x)"
      "s' = s\<lparr>holdings := book_holding (holding_of u i s) (bought_into (holding_of u i s) hid u i x) (holdings s),
         purchases := purchases s @ [purchase_row pid k i x (bought_into (holding_of u i s) hid u i x)]\<rparr>"
proof -
  have res: "r = fst (purchase_allocation today hid pid u k i v s)" "s' = snd (purchase_allocation today hid pid u k i v s)"
    using assms by simp_all
  show ?thesis
proof (cases "own_scenario u k s")
  case None
  then show ?thesis using res refused by (simp add: purchase_allocation_def)
next
  case c: (Some c)
  show ?thesis
  proof (cases "sc_status c = Saved \<and> i \<in> it_instrument ` set (pl_items (sc_payload c))")
    case False
    then show ?thesis using res c refused by (auto simp: purchase_allocation_def split: if_splits)
  next
    case open_plan: True
    show ?thesis
    proof (cases "purchase_valid today v")
      case (Inl e)
      then show ?thesis using res c open_plan refused by (simp add: purchase_allocation_def)
    next
      case x: (Inr x)
      show ?thesis
      proof (cases "purchase_of k i s")
        case (Some p)
        then show ?thesis using res c open_plan x repeated by (simp add: purchase_allocation_def)
      next
        case new: None
        show ?thesis
        proof (cases "by_pk ins_id (instruments s) i")
          case None
          then show ?thesis using res c open_plan x new refused by (simp add: purchase_allocation_def)
        next
          case ins: (Some ins)
          show ?thesis
          proof (cases "multiple_of (pd_quantity x) (ins_increment ins)")
            case False
            then show ?thesis using res c open_plan x new ins refused by (simp add: purchase_allocation_def)
          next
            case mult: True
            show ?thesis
            proof (cases "holding_of u i s \<noteq> None \<and> \<not> holding_fits (bought_into (holding_of u i s) hid u i x)")
              case True
              then show ?thesis using res c open_plan x new ins mult refused
                by (auto simp: purchase_allocation_def bought_into_def Let_def)
            next
              case False
              then have "r = Inr True \<and> s' = s\<lparr>holdings := book_holding (holding_of u i s) (bought_into (holding_of u i s) hid u i x) (holdings s),
                  purchases := purchases s @ [purchase_row pid k i x (bought_into (holding_of u i s) hid u i x)]\<rparr>"
                using res c open_plan x new ins mult
                by (cases "holding_of u i s") (auto simp: purchase_allocation_def bought_into_def book_holding_def Let_def)
              then show ?thesis using c open_plan x new ins mult False by (intro recorded [of c x ins]) auto
            qed
          qed
        qed
      qed
    qed
  qed
qed
qed

text \<open>C19. The average price of a holding after a purchase lies between the old average and the
  price paid, in spite of the four roundings to 28 digits and the last one to four places.\<close>

theorem average_stays_between:
  assumes "holding_ok is h" "purchase_data_ok x"
  shows "min (ho_average h) (pd_price x) \<le> ho_average (add_to_holding x h) \<and>
    ho_average (add_to_holding x h) \<le> max (ho_average h) (pd_price x)"
proof (rule average_between)
  have q: "number_ok 8 16 (ho_quantity h)" "number_ok 8 16 (pd_quantity x)"
    using assms by (simp_all add: holding_ok_def purchase_data_ok_def)
  then show "dec (ho_quantity h + pd_quantity x) = ho_quantity h + pd_quantity x" by (rule sum_exact)
qed (use assms in \<open>simp_all add: holding_ok_def purchase_data_ok_def number_ok_def\<close>)

definition gold :: instrument where
  "gold = \<lparr>ins_id = 4, ins_code = ''gold-24'', ins_class = ''gold'', ins_price_type = ''spot'', ins_currency = ''EGP'',
     ins_unit = ''gram'', ins_increment = 1, ins_max_age = 3600, ins_active = True, ins_product_active = True\<rparr>"

definition gold_holding :: holding where
  "gold_holding = \<lparr>ho_id = 9, ho_user = 1, ho_instrument = 4, ho_quantity = 2, ho_average = 4000, ho_fees = 0,
     ho_purchased = None\<rparr>"

definition gold_purchase :: purchase_data where
  "gold_purchase = \<lparr>pd_quantity = 3, pd_price = 5000, pd_fees = 10, pd_date = Date 2026 7 1\<rparr>"

lemma places_int [simp]: "places n (of_int k)"
  by (rule placesI [of _ _ "k * 10 ^ n"]) simp

lemma places_numeral [simp]: "places n (numeral m)" "places n 1"
  using places_int [of n "numeral m"] places_int [of n 1] by simp_all

lemma gold_ok: "holding_ok [gold] gold_holding" "purchase_data_ok gold_purchase" "catalogue_ok [gold]"
  by (simp_all add: holding_ok_def gold_def gold_holding_def gold_purchase_def number_ok_def multiple_of_def
      purchase_data_ok_def catalogue_ok_def)

theorem average_stays_between_witness: "ho_average (add_to_holding gold_purchase gold_holding) \<le> 5000"
  using average_stays_between [OF gold_ok(1,2)] by (simp add: gold_purchase_def gold_holding_def)

definition held :: "uuid \<Rightarrow> uuid \<Rightarrow> holding list \<Rightarrow> rat" where
  "held u i hs = sum_of ho_quantity (\<lambda>h. ho_user h = u \<and> ho_instrument h = i) hs"

lemma filter_key_unique: "distinct (map f xs) \<Longrightarrow> x \<in> set xs \<Longrightarrow> filter (\<lambda>y. f y = f x) xs = [x]"
proof (induction xs)
  case (Cons z zs)
  show ?case
  proof (cases "x = z")
    case True
    then have "\<forall>y \<in> set zs. f y \<noteq> f x" using Cons.prems(1) by (metis distinct.simps(2) imageI list.map(2) set_map)
    then have "filter (\<lambda>y. f y = f x) zs = []" by (simp add: filter_empty_conv)
    then show ?thesis using True by simp
  qed (use Cons in auto)
qed simp

abbreviation holding_key :: "holding \<Rightarrow> uuid \<times> uuid" where
  "holding_key h \<equiv> (ho_user h, ho_instrument h)"

lemma held_one:
  assumes "distinct (map holding_key hs)" "h \<in> set hs"
  shows "held (ho_user h) (ho_instrument h) hs = ho_quantity h"
proof -
  have "filter (\<lambda>g. ho_user g = ho_user h \<and> ho_instrument g = ho_instrument h) hs = [h]"
    using filter_key_unique [OF assms] by simp
  then show ?thesis by (simp add: held_def sum_of_def)
qed

lemma held_none: "(u, i) \<notin> holding_key ` set hs \<Longrightarrow> held u i hs = 0"
proof -
  assume "(u, i) \<notin> holding_key ` set hs"
  then have "filter (\<lambda>h. ho_user h = u \<and> ho_instrument h = i) hs = []" by (auto simp: filter_empty_conv)
  then show "held u i hs = 0" by (simp add: held_def sum_of_def)
qed

lemma add_to_holding_simps [simp]:
  "ho_id (add_to_holding x h) = ho_id h" "ho_user (add_to_holding x h) = ho_user h"
  "ho_instrument (add_to_holding x h) = ho_instrument h"
  "ho_quantity (add_to_holding x h) = dec (ho_quantity h + pd_quantity x)"
  by (simp_all add: add_to_holding_def Let_def)

lemma first_holding_simps [simp]:
  "ho_id (first_holding hid u i x) = hid" "ho_user (first_holding hid u i x) = u"
  "ho_instrument (first_holding hid u i x) = i" "ho_quantity (first_holding hid u i x) = pd_quantity x"
  "ho_average (first_holding hid u i x) = pd_price x"
  by (simp_all add: first_holding_def)

lemma same_id_same_holding:
  assumes "distinct (map ho_id hs)" "g \<in> set hs" "h \<in> set hs" "ho_id g = ho_id h"
  shows "g = h"
  using assms by (auto simp: distinct_map dest: inj_onD)

lemma save_holding_keys:
  assumes "distinct (map ho_id hs)" "h \<in> set hs" "ho_id h' = ho_id h" "holding_key h' = holding_key h"
  shows "map holding_key (save_row ho_id h' hs) = map holding_key hs"
proof (rule map_save_row)
  fix g assume "g \<in> set hs" "ho_id g = ho_id h'"
  then have "g = h" using same_id_same_holding [OF assms(1) _ assms(2)] assms(3) by simp
  then show "holding_key g = holding_key h'" using assms(4) by simp
qed

lemma save_holding_in: "h \<in> set hs \<Longrightarrow> ho_id h' = ho_id h \<Longrightarrow> h' \<in> set (save_row ho_id h' hs)"
  by (auto simp: save_row_def)

lemma booked_held:
  assumes "portfolio_ok s" "purchase_data_ok x"
  shows "held u i (book_holding (holding_of u i s) (bought_into (holding_of u i s) hid u i x) (holdings s)) =
    held u i (holdings s) + pd_quantity x"
proof (cases "holding_of u i s")
  case None
  then have "held u i (holdings s) = 0" by (intro held_none) (simp add: holding_of_None)
  then show ?thesis by (simp add: None book_holding_def bought_into_def held_def)
next
  case (Some h)
  note h = holding_of_in [OF Some] and ok = portfolio_okD [OF assms(1)]
  let ?h = "add_to_holding x h"
  have q: "ho_quantity ?h = ho_quantity h + pd_quantity x"
    using ok(4) [of h] h assms(2) sum_exact by (simp add: holding_ok_def purchase_data_ok_def)
  have "map holding_key (save_row ho_id ?h (holdings s)) = map holding_key (holdings s)"
    by (rule save_holding_keys [OF ok(2), of h]) (use h in simp_all)
  then have "distinct (map holding_key (save_row ho_id ?h (holdings s)))" using ok(3) by simp
  from held_one [OF this save_holding_in [of h]] h have "held u i (save_row ho_id ?h (holdings s)) = ho_quantity ?h"
    by auto
  moreover have "held u i (holdings s) = ho_quantity h" using held_one [OF ok(3), of h] h by auto
  ultimately show ?thesis using q by (simp add: Some book_holding_def bought_into_def)
qed

lemma purchase_valid_ok: "pd_date y \<le> today \<Longrightarrow> purchase_valid today (Inr y) = Inr y"
  by (simp add: purchase_valid_def guard_res_def)

text \<open>C18. Recording a purchase adds its quantity to what the user holds of the instrument exactly
  once: the first request adds it, and any later request for the same item of the same plan,
  whatever it carries, is answered as a repetition and changes nothing.\<close>

theorem purchase_recorded_once:
  assumes "portfolio_ok s" "purchase_data_ok x"
    "purchase_allocation today hid pid u k i (Inr x) s = (Inr created, s')"
    "pd_date y \<le> today'"
  shows "held u i (holdings s') = held u i (holdings s) + (if created then pd_quantity x else 0) \<and>
    purchase_allocation today' hid' pid' u k i (Inr y) s' = (Inr False, s')"
  using assms(3)
proof (cases rule: purchase_cases)
  case (repeated c z p)
  then show ?thesis by (simp add: purchase_allocation_def purchase_valid_ok [OF assms(4)])
next
  case (recorded c z ins)
  have z: "z = x" using recorded(5) by (auto simp: purchase_valid_def res_bind_Inr)
  have "purchase_of k i s' \<noteq> None"
    using recorded(10) by (simp add: purchase_of_def)
  then obtain p where "purchase_of k i s' = Some p" by blast
  moreover have "own_scenario u k s' = Some c" using recorded(2,10) by (simp add: own_scenario_def)
  ultimately have "purchase_allocation today' hid' pid' u k i (Inr y) s' = (Inr False, s')"
    using recorded(3,4) by (simp add: purchase_allocation_def purchase_valid_ok [OF assms(4)])
  moreover have "held u i (holdings s') = held u i (holdings s) + pd_quantity x"
    using booked_held [OF assms(1,2), of u i hid] recorded(10) z by simp
  ultimately show ?thesis using recorded(1) by simp
qed simp
definition gold_item :: item where
  "gold_item = \<lparr>it_instrument = 4, it_code = ''gold-24'', it_name = ''Gold'', it_class = ''gold'', it_percentage = 100,
     it_target = 15000, it_price = 5000, it_currency = ''EGP'', it_unit = ''gram'', it_price_type = ''spot'',
     it_increment = 1, it_quantity = 3, it_actual = 15000, it_remainder = 0, it_observed = 0, it_source = ''bank'',
     it_mode = ''live'', it_priority = None, it_factors = []\<rparr>"

definition gold_plan :: plan where
  "gold_plan = \<lparr>pl_confirmed = 15000, pl_currency = ''EGP'', pl_items = [gold_item], pl_allocated = 15000,
     pl_remainder = 0, pl_disclaimer = ''advice'', pl_saved = True\<rparr>"

definition gold_portfolio :: portfolio where
  "gold_portfolio = \<lparr>instruments = [gold], holdings = [gold_holding],
     scenarios = [\<lparr>sc_id = 5, sc_user = 1, sc_title = ''Plan'', sc_status = Saved, sc_payload = gold_plan, sc_source = None, sc_saved_at = 0\<rparr>],
     purchases = []\<rparr>"

lemma gold_portfolio_ok: "portfolio_ok gold_portfolio"
  using gold_ok by (simp add: portfolio_ok_def gold_portfolio_def purchases_ok_def holdings_ok_def)

lemma gold_fits: "holding_fits (add_to_holding gold_purchase gold_holding)"
proof -
  have q: "dec (ho_quantity gold_holding + pd_quantity gold_purchase) = ho_quantity gold_holding + pd_quantity gold_purchase"
    by (rule sum_exact) (simp_all add: gold_holding_def gold_purchase_def number_ok_def)
  have "4000 \<le> ho_average (add_to_holding gold_purchase gold_holding) \<and>
      ho_average (add_to_holding gold_purchase gold_holding) \<le> 5000"
    using average_between [of gold_holding gold_purchase] q by (simp add: gold_holding_def gold_purchase_def)
  moreover have "ho_fees (add_to_holding gold_purchase gold_holding) = 10"
    using dec_of_int [of 10] by (simp add: add_to_holding_def Let_def gold_holding_def gold_purchase_def quantize_he_places)
  moreover have "ho_quantity (add_to_holding gold_purchase gold_holding) = 5"
    using q by (simp add: gold_holding_def gold_purchase_def)
  ultimately show ?thesis by (simp add: holding_fits_def)
qed

lemma gold_bought:
  "\<exists>s'. purchase_allocation (Date 2026 7 2) 10 11 1 5 4 (Inr gold_purchase) gold_portfolio = (Inr True, s')"
proof -
  have "purchase_valid (Date 2026 7 2) (Inr gold_purchase) = Inr gold_purchase"
    by (rule purchase_valid_ok) (simp add: gold_purchase_def less_eq_date_def less_date_def)
  moreover have "own_scenario 1 5 gold_portfolio = Some \<lparr>sc_id = 5, sc_user = 1, sc_title = ''Plan'', sc_status = Saved,
      sc_payload = gold_plan, sc_source = None, sc_saved_at = 0\<rparr>"
    by (simp add: own_scenario_def gold_portfolio_def by_pk_Cons)
  moreover have "holding_of 1 4 gold_portfolio = Some gold_holding"
    by (simp add: holding_of_def gold_portfolio_def gold_holding_def)
  moreover have "multiple_of (pd_quantity gold_purchase) (ins_increment gold)"
    by (simp add: gold_purchase_def gold_def multiple_of_def)
  ultimately show ?thesis using gold_fits
    by (simp add: purchase_allocation_def gold_plan_def gold_item_def purchase_of_def gold_portfolio_def by_pk_Cons
        gold_def Let_def del: One_nat_def)
qed

theorem purchase_recorded_once_witness:
  "\<exists>s'. purchase_allocation (Date 2026 7 2) 10 11 1 5 4 (Inr gold_purchase) gold_portfolio = (Inr True, s') \<and>
     held 1 4 (holdings s') = 5 \<and>
     purchase_allocation (Date 2026 7 3) 12 13 1 5 4 (Inr gold_purchase) s' = (Inr False, s')"
proof -
  obtain s' where e: "purchase_allocation (Date 2026 7 2) 10 11 1 5 4 (Inr gold_purchase) gold_portfolio = (Inr True, s')"
    using gold_bought by blast
  have "pd_date gold_purchase \<le> Date 2026 7 3" by (simp add: gold_purchase_def less_eq_date_def less_date_def)
  note once = purchase_recorded_once [OF gold_portfolio_ok gold_ok(2) e this]
  have "held 1 4 (holdings gold_portfolio) = 2" by (simp add: held_def gold_portfolio_def gold_holding_def)
  moreover have "pd_quantity gold_purchase = 3" by (simp add: gold_purchase_def)
  ultimately show ?thesis using e once by (intro exI [of _ s']) (simp del: One_nat_def)
qed

subsection \<open>Every way the portfolio changes\<close>

lemma save_holding_ok:
  assumes "holdings_ok is hs" "h \<in> set hs" "ho_id h' = ho_id h" "holding_key h' = holding_key h" "holding_ok is h'"
  shows "holdings_ok is (save_row ho_id h' hs)"
proof -
  note ok = holdings_okD [OF assms(1)]
  have "holding_ok is g" if "g \<in> set (save_row ho_id h' hs)" for g
    using save_row_set [OF that] assms(5) ok(3) by blast
  then show ?thesis
    using ok(1,2) save_holding_keys [OF ok(1) assms(2-4)] by (simp add: holdings_ok_def)
qed

lemma new_holding_ok:
  assumes "holdings_ok is hs" "ho_id h \<notin> ho_id ` set hs" "holding_key h \<notin> holding_key ` set hs" "holding_ok is h"
  shows "holdings_ok is (hs @ [h])"
  using assms by (simp add: holdings_ok_def)

lemma new_purchase_ok:
  assumes "purchases_ok cs ps" "pu_scenario p \<in> sc_id ` set cs"
    "(pu_scenario p, pu_instrument p) \<notin> (\<lambda>p. (pu_scenario p, pu_instrument p)) ` set ps"
  shows "purchases_ok cs (ps @ [p])"
  using assms by (simp add: purchases_ok_def)

lemma save_scenario_ok:
  assumes "portfolio_ok s"
  shows "portfolio_ok (save_scenario c s)"
proof -
  have "map sc_id (save_row sc_id c (scenarios s)) = map sc_id (scenarios s)" by simp
  then have "sc_id ` set (save_row sc_id c (scenarios s)) = sc_id ` set (scenarios s)" by (metis set_map)
  then show ?thesis using assms by (simp add: portfolio_ok_def save_scenario_def purchases_ok_def)
qed

lemma delete_scenario_ok: "portfolio_ok s \<Longrightarrow> portfolio_ok (delete_scenario_row k s)"
  by (auto simp: portfolio_ok_def delete_scenario_row_def purchases_ok_def distinct_map_filter)

lemma bought_holding_ok:
  assumes "portfolio_ok s" "purchase_data_ok x" "holding_of u i s = Some h"
    "by_pk ins_id (instruments s) i = Some ins" "multiple_of (pd_quantity x) (ins_increment ins)"
    "holding_fits (add_to_holding x h)"
  shows "holding_ok (instruments s) (add_to_holding x h)"
proof -
  note ok = portfolio_okD [OF assms(1)] and h = holding_of_in [OF assms(3)]
  note ins = catalogue_by_pk [OF ok(1) assms(4)]
  have hok: "holding_ok (instruments s) h" using ok(4) h by blast
  then obtain j where j: "j \<in> set (instruments s)" "ins_id j = ho_instrument h" "multiple_of (ho_quantity h) (ins_increment j)"
    by (auto simp: holding_ok_def)
  then have "j = ins" using catalogue_same [OF ok(1)] ins h by simp
  note q = hok [unfolded holding_ok_def, THEN conjunct1] assms(2) [unfolded purchase_data_ok_def, THEN conjunct1]
  have sum: "ho_quantity (add_to_holding x h) = ho_quantity h + pd_quantity x" using sum_exact [OF q] by simp
  have "multiple_of (ho_quantity h + pd_quantity x) (ins_increment ins)"
    using multiple_of_add j(3) assms(5) ins(3) \<open>j = ins\<close> by simp
  moreover have "number_ok 8 16 (ho_quantity h + pd_quantity x)"
    using q assms(6) sum by (simp add: number_ok_def holding_fits_def)
  moreover have "number_ok 4 16 (ho_average (add_to_holding x h))"
  proof -
    have "min (ho_average h) (pd_price x) \<le> ho_average (add_to_holding x h)"
      by (rule average_between [THEN conjunct1])
        (use hok assms(2) sum_exact [OF q] in \<open>simp_all add: holding_ok_def purchase_data_ok_def number_ok_def\<close>)
    moreover have "0 < min (ho_average h) (pd_price x)"
      using hok assms(2) by (simp add: holding_ok_def purchase_data_ok_def number_ok_def)
    moreover have "places 4 (ho_average (add_to_holding x h))" by (simp add: add_to_holding_def Let_def)
    ultimately have "0 < ho_average (add_to_holding x h)" "places 4 (ho_average (add_to_holding x h))" by linarith+
    then show ?thesis using assms(6) by (auto simp: number_ok_def holding_fits_def)
  qed
  ultimately show ?thesis using ins h sum by (auto simp: holding_ok_def)
qed

lemma purchase_keeps_ok:
  assumes "portfolio_ok s" "hid \<notin> ho_id ` set (holdings s)" "\<And>x. v = Inr x \<Longrightarrow> purchase_data_ok x"
    "purchase_allocation today hid pid u k i v s = (r, s')"
  shows "portfolio_ok s'"
  using assms(4)
proof (cases rule: purchase_cases)
  case (recorded c x ins)
  note ok = portfolio_okD [OF assms(1)] and ins = catalogue_by_pk [OF portfolio_okD(1) [OF assms(1)] recorded(7)]
  have x: "purchase_data_ok x"
    using recorded(5) assms(3) by (auto simp: purchase_valid_def res_bind_Inr split: sum.splits)
  let ?h = "bought_into (holding_of u i s) hid u i x"
  have "holdings_ok (instruments s) (book_holding (holding_of u i s) ?h (holdings s))"
  proof (cases "holding_of u i s")
    case None
    have "holding_ok (instruments s) (first_holding hid u i x)"
      using x ins recorded(8) by (auto simp: holding_ok_def purchase_data_ok_def)
    then have "holdings_ok (instruments s) (holdings s @ [first_holding hid u i x])"
      using None assms(2) by (intro new_holding_ok [OF ok(7)]) (simp_all add: holding_of_None)
    then show ?thesis by (simp add: None bought_into_def book_holding_def)
  next
    case (Some h)
    have "holding_fits (add_to_holding x h)" using recorded(9) Some by (simp add: bought_into_def)
    from bought_holding_ok [OF assms(1) x Some recorded(7,8) this]
    have "holding_ok (instruments s) (add_to_holding x h)" .
    from save_holding_ok [OF ok(7), of h, OF _ _ _ this] holding_of_in [OF Some] show ?thesis
      by (simp add: Some bought_into_def book_holding_def)
  qed
  moreover have "purchases_ok (scenarios s) (purchases s @ [purchase_row pid k i x ?h])"
  proof (rule new_purchase_ok [OF ok(6)])
    show "pu_scenario (purchase_row pid k i x ?h) \<in> sc_id ` set (scenarios s)"
      using own_scenario_in [OF recorded(2)] by auto
  qed (use recorded(6) in \<open>auto simp: purchase_of_None\<close>)
  ultimately show ?thesis using ok(1,5) recorded(10) by (simp add: portfolio_ok_def)
qed (use assms(1) in simp_all)

lemma patch_allocation_ok: "portfolio_ok s \<Longrightarrow> portfolio_ok (snd (patch_allocation wording now u k i v s))"
  by (simp add: patch_allocation_def save_scenario_ok split: sum.split)

lemma delete_allocation_ok: "portfolio_ok s \<Longrightarrow> portfolio_ok (snd (delete_allocation wording now u k i s))"
  by (simp add: delete_allocation_def save_scenario_ok delete_scenario_ok split: sum.split prod.split option.split)

lemma patch_scenario_ok: "portfolio_ok s \<Longrightarrow> portfolio_ok (snd (patch_scenario u k v s))"
  by (simp add: patch_scenario_def save_scenario_ok Let_def split: sum.split prod.split option.split)

lemma delete_scenario_view_ok: "portfolio_ok s \<Longrightarrow> portfolio_ok (snd (delete_scenario u k s))"
  by (simp add: delete_scenario_def delete_scenario_ok split: option.split)

lemma save_message_plan_ok: "portfolio_ok s \<Longrightarrow> k \<notin> sc_id ` set (scenarios s) \<Longrightarrow> portfolio_ok (save_message_plan now k u m p s)"
  by (cases "first_pk sc_id (filter (\<lambda>c. sc_source c = Some m) (scenarios s))")
    (simp_all add: save_message_plan_def save_scenario_ok, auto simp: portfolio_ok_def purchases_ok_def)

lemma increment_checked:
  "catalogue_ok is \<Longrightarrow> i \<in> set is \<Longrightarrow> check_increment (Some q) i = Inr w \<Longrightarrow> number_ok 8 16 q \<Longrightarrow> number_ok 4 16 a \<Longrightarrow>
   ho_quantity h = q \<Longrightarrow> ho_average h = a \<Longrightarrow> ho_instrument h = ins_id i \<Longrightarrow> holding_ok is h"
  by (auto simp: check_increment_def holding_ok_def)

lemma post_holding_ok:
  assumes "portfolio_ok s" "hid \<notin> ho_id ` set (holdings s)" "\<And>x. v = Inr x \<Longrightarrow> holding_data_ok (instruments s) x"
    "post_holding today hid u v s = (r, s')"
  shows "portfolio_ok s'"
proof (cases r)
  case (Inl e)
  then have "s' = s" using assms(4) by (auto simp: post_holding_def Let_def split: sum.splits option.splits if_splits prod.splits)
  then show ?thesis using assms(1) by simp
next
  case (Inr h)
  note ok = portfolio_okD [OF assms(1)]
  obtain x ins q a where x: "v = Inr x" "hd_instrument x = Some ins" "hd_quantity x = Some q" "hd_average x = Some a"
      "filter (\<lambda>h. ho_user h = u \<and> ho_instrument h = ins_id ins) (holdings s) = []"
      "check_increment (Some q) ins = Inr ()"
    and h: "s' = s\<lparr>holdings := holdings s @ [h]\<rparr>" "ho_id h = hid" "ho_user h = u" "ho_instrument h = ins_id ins"
      "ho_quantity h = q" "ho_average h = a"
    using assms(4) Inr by (auto simp: post_holding_def Let_def split: sum.splits option.splits if_splits prod.splits)
  have d: "holding_data_ok (instruments s) x" using assms(3) x(1) .
  have "holding_ok (instruments s) h"
    by (rule increment_checked [OF ok(1) _ x(6)]) (use d x h in \<open>auto simp: holding_data_ok_def\<close>)
  then have "holdings_ok (instruments s) (holdings s @ [h])"
    using x(5) h assms(2) by (intro new_holding_ok [OF ok(7)]) (auto simp: filter_empty_conv)
  then show ?thesis using ok(1,5,6) h(1) by (simp add: portfolio_ok_def)
qed

lemma apply_holding_patch_simps [simp]:
  "ho_id (apply_holding_patch x h) = ho_id h" "ho_user (apply_holding_patch x h) = ho_user h"
  "ho_instrument (apply_holding_patch x h) = ho_instrument h"
  by (simp_all add: apply_holding_patch_def)

lemma patched_holding_ok:
  assumes "catalogue_ok is" "holding_ok is h" "holding_data_ok is x" "by_pk ins_id is (ho_instrument h) = Some ins"
    "check_increment (hd_quantity x) ins = Inr w"
  shows "holding_ok is (apply_holding_patch x h)"
proof -
  note ins = catalogue_by_pk [OF assms(1,4)]
  obtain j where j: "j \<in> set is" "ins_id j = ho_instrument h" "multiple_of (ho_quantity h) (ins_increment j)"
    using assms(2) by (auto simp: holding_ok_def)
  have "j = ins" using catalogue_same [OF assms(1) j(1) ins(1)] j(2) ins(2) by simp
  have q: "number_ok 8 16 (ho_quantity (apply_holding_patch x h)) \<and>
      multiple_of (ho_quantity (apply_holding_patch x h)) (ins_increment ins)"
    using assms(2,3,5) j(3) \<open>j = ins\<close>
    by (cases "hd_quantity x") (simp_all add: apply_holding_patch_def check_increment_def holding_ok_def holding_data_ok_def)
  have "number_ok 4 16 (ho_average (apply_holding_patch x h))"
    using assms(2,3) by (cases "hd_average x") (simp_all add: apply_holding_patch_def holding_ok_def holding_data_ok_def)
  then show ?thesis using q ins by (auto simp: holding_ok_def)
qed

lemma patch_holding_ok:
  assumes "portfolio_ok s" "\<And>x. v = Inr x \<Longrightarrow> holding_data_ok (instruments s) x"
    "patch_holding today u k v s = (r, s')"
  shows "portfolio_ok s'"
proof (cases r)
  case (Inl e)
  then have "s' = s" using assms(3) by (auto simp: patch_holding_def Let_def split: sum.splits option.splits if_splits)
  then show ?thesis using assms(1) by simp
next
  case (Inr g)
  note ok = portfolio_okD [OF assms(1)]
  obtain h x ins w where h: "own_holding u k s = Some h" "v = Inr x" "by_pk ins_id (instruments s) (ho_instrument h) = Some ins"
      "check_increment (hd_quantity x) ins = Inr w"
      "s' = s\<lparr>holdings := save_row ho_id (apply_holding_patch x h) (holdings s)\<rparr>"
    using assms(3) Inr by (auto simp: patch_holding_def Let_def split: sum.splits option.splits if_splits)
  have in_s: "h \<in> set (holdings s)" using by_pk_Some h(1) unfolding own_holding_def by fastforce
  have "holding_ok (instruments s) (apply_holding_patch x h)"
    by (rule patched_holding_ok [OF ok(1) ok(4) [OF in_s] assms(2) [OF h(2)] h(3,4)])
  then have "holdings_ok (instruments s) (save_row ho_id (apply_holding_patch x h) (holdings s))"
    by (intro save_holding_ok [OF ok(7) in_s]) simp_all
  then show ?thesis using ok(1,5,6) h(5) by (simp add: portfolio_ok_def)
qed

lemma unlinked_keys:
  "map (\<lambda>p. (pu_scenario p, pu_instrument p)) (map (\<lambda>p. if pu_holding p = Some k then p\<lparr>pu_holding := None\<rparr> else p) ps) =
   map (\<lambda>p. (pu_scenario p, pu_instrument p)) ps"
  by simp

lemma delete_holding_ok: "portfolio_ok s \<Longrightarrow> portfolio_ok (snd (delete_holding u k s))"
proof (cases "own_holding u k s")
  case (Some h)
  assume ok: "portfolio_ok s"
  have "holdings_ok (instruments s) (filter (\<lambda>x. ho_id x \<noteq> k) (holdings s))"
    using portfolio_okD(7) [OF ok] by (simp add: holdings_ok_def distinct_map_filter)
  moreover have "purchases_ok (scenarios s) (map (\<lambda>p. if pu_holding p = Some k then p\<lparr>pu_holding := None\<rparr> else p) (purchases s))"
    using portfolio_okD(6) [OF ok] unfolding purchases_ok_def unlinked_keys by auto
  ultimately show ?thesis using portfolio_okD(1,5) [OF ok] by (simp add: delete_holding_def Some portfolio_ok_def)
qed (simp add: delete_holding_def)

text \<open>A fresh id is one no row of its table has.\<close>

inductive portfolio_step :: "portfolio \<Rightarrow> portfolio \<Rightarrow> bool" where
  buy: "hid \<notin> ho_id ` set (holdings s) \<Longrightarrow> \<forall>x. v = Inr x \<longrightarrow> purchase_data_ok x \<Longrightarrow>
    portfolio_step s (snd (purchase_allocation today hid pid u k i v s))"
| edit: "portfolio_step s (snd (patch_allocation wording now u k i c s))"
| remove: "portfolio_step s (snd (delete_allocation wording now u k i s))"
| rename: "portfolio_step s (snd (patch_scenario u k t s))"
| drop_plan: "portfolio_step s (snd (delete_scenario u k s))"
| save_plan: "k \<notin> sc_id ` set (scenarios s) \<Longrightarrow> portfolio_step s (save_message_plan now k u m p s)"
| add_holding: "hid \<notin> ho_id ` set (holdings s) \<Longrightarrow> \<forall>x. w = Inr x \<longrightarrow> holding_data_ok (instruments s) x \<Longrightarrow>
    portfolio_step s (snd (post_holding today hid u w s))"
| change_holding: "\<forall>x. w = Inr x \<longrightarrow> holding_data_ok (instruments s) x \<Longrightarrow>
    portfolio_step s (snd (patch_holding today u k w s))"
| drop_holding: "portfolio_step s (snd (delete_holding u k s))"

lemma portfolio_step_ok: "portfolio_step s s' \<Longrightarrow> portfolio_ok s \<Longrightarrow> portfolio_ok s'"
proof (induction rule: portfolio_step.induct)
  case (buy hid s v today pid u k i)
  then show ?case by (intro purchase_keeps_ok [OF _ _ _ surjective_pairing]) simp_all
next
  case (add_holding hid s w today u)
  then show ?case by (intro post_holding_ok [OF _ _ _ surjective_pairing]) simp_all
next
  case (change_holding w s today u k)
  then show ?case by (intro patch_holding_ok [OF _ _ surjective_pairing]) simp_all
qed (simp_all add: patch_allocation_ok delete_allocation_ok patch_scenario_ok delete_scenario_view_ok
  save_message_plan_ok delete_holding_ok)

text \<open>C17. Whatever the user does with plans, purchases and holdings, there is one holding per
  instrument, each holding a positive multiple of its instrument's purchase increment that
  fits its column, each at a positive price, and one purchase at most per item of a plan,
  always of a plan that exists.\<close>

theorem portfolio_invariant:
  assumes "portfolio_ok s" "portfolio_step\<^sup>*\<^sup>* s s'"
  shows "portfolio_ok s'"
  using assms(2,1) by (induction rule: rtranclp_induct) (auto intro: portfolio_step_ok)

theorem portfolio_invariant_witness:
  "portfolio_ok (snd (purchase_allocation (Date 2026 7 2) 10 11 1 5 4 (Inr gold_purchase) gold_portfolio))"
  by (rule portfolio_invariant [OF gold_portfolio_ok], rule r_into_rtranclp, rule portfolio_step.buy)
    (simp_all add: gold_portfolio_def gold_holding_def gold_ok(2))

subsection \<open>Edited plans\<close>

lemma recalculate_items_shape:
  "recalculate_items confirmed used xs = Inr ys \<Longrightarrow>
   map it_target ys = map (quantize_he 2 \<circ> it_target) xs \<and>
   (\<forall>y \<in> set ys. it_actual y = cost_of (it_quantity y) (it_price y) \<and> it_actual y \<le> it_target y \<and>
      it_remainder y = dec (it_target y - it_actual y) \<and> multiple_of (it_quantity y) (it_increment y))"
proof (induction xs arbitrary: used ys)
  case (Cons x xs)
  let ?pct = "if xs = [] then dec (100 - used) else quantize_hu 2 (dec (dec (quantize_he 2 (it_target x) / confirmed) * 100))"
  obtain zs where z: "recalculate_items confirmed (dec (used + ?pct)) xs = Inr zs"
      "ys = x\<lparr>it_percentage := ?pct, it_target := quantize_he 2 (it_target x),
         it_actual := cost_of (it_quantity x) (it_price x),
         it_remainder := dec (quantize_he 2 (it_target x) - cost_of (it_quantity x) (it_price x))\<rparr> # zs"
      "multiple_of (it_quantity x) (it_increment x)" "cost_of (it_quantity x) (it_price x) \<le> quantize_he 2 (it_target x)"
    using Cons.prems by (auto simp: Let_def res_bind_Inr split: if_splits)
  have "it_target (hd ys) = quantize_he 2 (it_target x)" "ys = hd ys # zs"
    "it_actual (hd ys) = cost_of (it_quantity (hd ys)) (it_price (hd ys))"
    "it_remainder (hd ys) = dec (it_target (hd ys) - it_actual (hd ys))"
    "it_actual (hd ys) \<le> it_target (hd ys)" "multiple_of (it_quantity (hd ys)) (it_increment (hd ys))"
    using z(2-4) by simp_all
  with Cons.IH [OF z(1)] show ?case by (metis (mono_tags, lifting) comp_apply list.simps(9) set_ConsD)
qed simp

lemma decimal_fieldD:
  "decimal_field digits n lo hi x \<Longrightarrow> places n x \<and> \<bar>x\<bar> < 10 ^ (digits - n) \<and> lo \<le> x"
  by (simp add: decimal_field_def)

lemma money_diff_exact:
  assumes "decimal_field 14 2 0 None x" "decimal_field 14 2 0 None y"
  shows "dec (x - y) = x - y"
proof (rule dec_places)
  show "places 2 (x - y)" using assms decimal_fieldD by auto
  have "\<bar>x\<bar> < 10 ^ 12" "\<bar>y\<bar> < 10 ^ 12" using assms decimal_fieldD by fastforce+
  then have "\<bar>x - y\<bar> < 2 * 10 ^ 12" by linarith
  then show "\<bar>x - y\<bar> * 10 ^ 2 < 10 ^ 28" by simp
qed

lemma money_sum_exact:
  assumes "\<forall>x \<in> set xs. decimal_field 14 2 0 None x" "length xs \<le> 3"
  shows "dec_sum 0 xs = sum_list xs"
proof -
  have each: "0 \<le> x \<and> x \<le> 10 ^ 12 \<and> places 2 x" if "x \<in> set xs" for x
    using assms(1) that decimal_fieldD [of 14 2 0 None x] by fastforce
  then have "sum_list xs \<le> sum_list (map (\<lambda>_. 10 ^ 12) xs)" using sum_list_mono [of xs id "\<lambda>_. 10 ^ 12"] by simp
  then have "sum_list xs \<le> of_nat (length xs) * 10 ^ 12" by (simp add: sum_list_triv)
  also have "\<dots> \<le> 3 * 10 ^ 12"
  proof -
    have "of_nat (length xs) \<le> (of_nat 3 :: rat)" using assms(2) unfolding of_nat_le_iff .
    then show ?thesis by simp
  qed
  finally have "sum_list xs < 10 ^ 26" by simp
  then show ?thesis using dec_sum_exact [of 0 xs] each by simp
qed

lemma places_sum_list: "\<forall>x \<in> set xs. places n x \<Longrightarrow> places n (sum_list xs)"
  by (induction xs) simp_all

definition adds_up :: "plan \<Rightarrow> bool" where
  "adds_up p \<longleftrightarrow> (let xs = pl_items p in
     sum_list (map it_target xs) = pl_confirmed p \<and> sum_list (map it_actual xs) = pl_allocated p \<and>
     pl_allocated p + pl_remainder p = pl_confirmed p \<and> 0 \<le> pl_remainder p \<and>
     dec_sum 0 (map it_percentage xs) = 100 \<and>
     (\<forall>x \<in> set xs. it_actual x + it_remainder x = it_target x \<and> it_actual x = cost_of (it_quantity x) (it_price x)))"

text \<open>C20. A plan that an edit or a removal leaves adds up to the piastre: the targets to the
  confirmed amount, the purchases to the allocated total, each purchase and its remainder to
  its target, and nothing is spent beyond what was confirmed.\<close>

theorem recalculated_plan_adds_up:
  assumes "recalculate_plan wording now is p = Inr q"
    "\<forall>x \<in> set (pl_items p). decimal_field 14 2 0 None (it_target x)"
  shows "adds_up q"
proof -
  obtain ys where ys: "recalculate_items (pl_confirmed q) 0 (pl_items p) = Inr ys"
      "pl_items q = ys" "pl_confirmed q = quantize_he 2 (dec_sum 0 (map it_target (pl_items p)))"
      "pl_allocated q = dec_sum 0 (map it_actual ys)" "pl_remainder q = dec (pl_confirmed q - pl_allocated q)"
      "plan_fields q" "validate_payload now True is q = Inr ()"
    using assms(1) by (auto simp: recalculate_plan_def Let_def res_bind_Inr split: if_splits)
  note shape = recalculate_items_shape [OF ys(1)]
  have len: "length ys \<le> 3" "length (pl_items p) = length ys"
    using ys(2,6) arg_cong [OF shape [THEN conjunct1], of length] by (simp_all add: plan_fields_def)
  have fields: "decimal_field 14 2 0 None (it_actual x)" if "x \<in> set ys" for x
    using ys(2,6) that by (simp add: plan_fields_def item_fields_def)
  have targets: "map it_target ys = map it_target (pl_items p)"
    unfolding shape [THEN conjunct1]
    using assms(2) by (intro map_cong) (auto intro!: quantize_he_places dest: decimal_fieldD)
  have "dec_sum 0 (map it_target (pl_items p)) = sum_list (map it_target (pl_items p))"
    by (rule money_sum_exact) (use assms(2) len in auto)
  moreover have "places 2 (sum_list (map it_target (pl_items p)))"
    by (rule places_sum_list) (use assms(2) in \<open>auto dest: decimal_fieldD\<close>)
  ultimately have confirmed: "pl_confirmed q = sum_list (map it_target ys)"
    by (simp add: ys(3) targets quantize_he_places)
  have allocated: "pl_allocated q = sum_list (map it_actual ys)"
    unfolding ys(4) by (rule money_sum_exact) (use fields len in auto)
  have cf: "decimal_field 14 2 0 None (pl_confirmed q)" "decimal_field 14 2 0 None (pl_allocated q)"
    using ys(6) by (auto simp: plan_fields_def decimal_field_def)
  have remainder: "pl_remainder q = pl_confirmed q - pl_allocated q"
    unfolding ys(5) by (rule money_diff_exact [OF cf])
  have "pl_allocated q \<le> pl_confirmed q"
    unfolding confirmed allocated using shape [THEN conjunct2] by (intro sum_list_mono) auto
  moreover have "dec_sum 0 (map it_percentage ys) = 100"
    using ys(2,7) by (auto simp: validate_payload_def res_bind_Inr Let_def)
  moreover have "\<forall>x \<in> set ys. it_actual x + it_remainder x = it_target x \<and> it_actual x = cost_of (it_quantity x) (it_price x)"
  proof
    fix x assume x: "x \<in> set ys"
    then have "decimal_field 14 2 0 None (it_target x)"
      using ys(2,6) by (simp add: plan_fields_def item_fields_def)
    from money_diff_exact [OF this fields [OF x]]
    show "it_actual x + it_remainder x = it_target x \<and> it_actual x = cost_of (it_quantity x) (it_price x)"
      using shape [THEN conjunct2] x by auto
  qed
  ultimately show ?thesis
    unfolding adds_up_def ys(2) Let_def confirmed [symmetric] allocated [symmetric] remainder
    by (intro conjI) (assumption | simp)+
qed

lemma dec_numeral [simp]: "(numeral k :: int) < 10 ^ 28 \<Longrightarrow> dec (numeral k) = numeral k"
  using dec_of_int [of "numeral k"] by simp

lemma quantize_he_numeral [simp]: "quantize_he 2 (numeral k) = numeral k" "quantize_he 2 0 = 0"
  by (simp_all add: quantize_he_places)

lemma gold_recalculated: "recalculate_plan wording 0 [gold] gold_plan = Inr gold_plan"
proof -
  have alloc: "allocated_amount 15000 100 = 15000" by (simp add: allocated_amount_def)
  have cost: "cost_of 3 5000 = 15000" by (simp add: cost_of_def)
  have "rdown 3 = 3" using rdown_of_int [of 3] by simp
  then have afford: "affordable 15000 5000 1 = 3" by (simp add: affordable_def)
  have mult: "multiple_of 3 1" by (simp add: multiple_of_def)
  have items: "recalculate_items 15000 0 [gold_item] = Inr [gold_item]"
    by (simp add: gold_item_def cost mult)
  have fields: "plan_fields gold_plan"
    by (simp add: plan_fields_def gold_plan_def item_fields_def gold_item_def decimal_field_def text_field_def)
  have "check_item 0 True 15000 gold_item = Inr ()"
    by (simp add: check_item_def gold_item_def alloc cost afford close_to_def MONEY_TOLERANCE_def guard_res_def)
  then have "validate_payload 0 True [gold] gold_plan = Inr ()"
    by (simp add: validate_payload_def gold_plan_def bad_priorities_def catalogue_def check_metadata_def by_pk_Cons
        close_to_def MONEY_TOLERANCE_def mismatch_def guard_res_def Let_def)
      (simp add: gold_item_def gold_def)
  with items fields show ?thesis
    by (simp add: recalculate_plan_def gold_plan_def) (simp add: gold_item_def)
qed

theorem recalculated_plan_adds_up_witness: "adds_up gold_plan"
  by (rule recalculated_plan_adds_up [OF gold_recalculated])
    (simp add: gold_plan_def gold_item_def decimal_field_def)


lemma gold_item_fields: "item_fields gold_item"
  by (simp add: item_fields_def gold_item_def decimal_field_def text_field_def)

lemma digits15_numeral: "(numeral k :: int) < 10 ^ 15 \<Longrightarrow> digits15 (numeral k)" "digits15 1"
  using digits15_scaled [of "numeral k" _ 0] digits15_scaled [of 1 _ 0] by simp_all


text \<open>Shares are rounded to hundredths of a percent while targets must match them within 0.02, so
  an edited plan is refused as soon as the rounding shows in a target.\<close>

lemma edit_refused_by_rounding:
  assumes "recalculate_items (pl_confirmed q) used (x # xs) = Inr (y # ys)"
    "\<not> close_to (it_target y) (allocated_amount (pl_confirmed q) (it_percentage y))"
    "pl_items q = zs @ y # ys"
  shows "validate_payload now lenient is q \<noteq> Inr ()"
proof
  assume "validate_payload now lenient is q = Inr ()"
  then have "check_item now lenient (pl_confirmed q) y = Inr ()"
    using assms(3) by (auto simp: validate_payload_def res_bind_Inr Let_def)
  then show False using assms(2) by (auto simp: check_item_def res_bind_Inr Let_def)
qed

text \<open>A plan of 10,000 split 33, 33 and 34 percent: without its first item the shares of the rest are
  49.25 and 50.75 percent of 6,700, which is 3,299.75 against a target of 3,300.\<close>

definition third :: "uuid \<Rightarrow> rat \<Rightarrow> item" where
  "third k t = gold_item\<lparr>it_instrument := k, it_target := t, it_price := 100, it_quantity := t / 100\<rparr>"

lemma removal_refused:
  "\<exists>ys. recalculate_items 6700 0 [third 2 3300, third 3 3400] = Inr ys \<and>
     \<not> close_to (it_target (hd ys)) (allocated_amount 6700 (it_percentage (hd ys)))"
proof -
  have pct: "quantize_hu 2 (dec (dec (3300 / 6700) * 100)) = 4925 / 100"
  proof -
    define y where "y = dec (3300 / 6700)"
    define z where "z = dec (y * 100)"
    have "\<bar>y - 3300 / 6700\<bar> \<le> 3300 / 6700 / 10 ^ 27" unfolding y_def by (rule dec_err) simp
    then have "\<bar>y - 3300 / 6700\<bar> \<le> 1 / 10 ^ 9" by (rule order_trans) simp
    then have y: "3300 / 6700 - 1 / 10 ^ 9 \<le> y" "y \<le> 3300 / 6700 + 1 / 10 ^ 9" by linarith+
    have y1: "4925 / 10000 \<le> y" by (rule order_trans [OF _ y(1)]) simp
    have y2: "y \<le> 49254 / 100000" by (rule order_trans [OF y(2)]) simp
    have "\<bar>z - y * 100\<bar> \<le> y * 100 / 10 ^ 27" unfolding z_def by (rule dec_err) (use y1 in simp)
    then have "\<bar>z - y * 100\<bar> \<le> 1 / 10 ^ 9" by (rule order_trans) (use y2 in simp)
    then have "y * 100 - 1 / 10 ^ 9 \<le> z" "z \<le> y * 100 + 1 / 10 ^ 9" by linarith+
    then have z: "4925 / 100 - 1 / 10 ^ 9 \<le> z" "z \<le> 49254 / 1000 + 1 / 10 ^ 9" using y1 y2 by linarith+
    have "49245 / 10 \<le> z * 100" using z(1) by simp
    moreover have "z * 100 \<le> 492545 / 100" using z(2) by simp
    ultimately have "\<lfloor>z * 100 + 1 / 2\<rfloor> = 4925" "0 \<le> z * 100" by (simp_all add: floor_eq_iff)
    then show ?thesis unfolding y_def [symmetric] z_def [symmetric] by (simp add: quantize_hu_def rhu_def)
  qed
  have pct': "quantize_hu 2 (dec (dec (33 / 67) * 100)) = 197 / 4" using pct by simp
  have cost: "cost_of 33 100 = 3300" "cost_of 34 100 = 3400" by (simp_all add: cost_of_def)
  have mult: "multiple_of 33 1" "multiple_of 34 1" by (simp_all add: multiple_of_def)
  have share: "allocated_amount 6700 (4925 / 100) = 329975 / 100"
  proof -
    have p: "places 2 (6700 :: rat)" "places 2 (4925 / 100 :: rat)" "places 2 (329975 / 100 :: rat)"
      using places_frac [of 2 4925] places_frac [of 2 329975] by simp_all
    then show ?thesis by (simp add: allocated_amount_exact quantize_he_places)
  qed
  have "dec (3300 - 329975 / 100) = 25 / 100" using dec_exact [of 25 "25 / 100" 2] by simp
  then have "\<not> close_to 3300 (allocated_amount 6700 (4925 / 100))"
    unfolding close_to_def MONEY_TOLERANCE_def share by simp
  moreover have "\<exists>ys. recalculate_items 6700 0 [third 2 3300, third 3 3400] = Inr ys \<and>
      it_target (hd ys) = 3300 \<and> it_percentage (hd ys) = 4925 / 100"
    using cost mult by (simp add: pct' Let_def third_def gold_item_def)
  ultimately show ?thesis by metis
qed

end
