(* ===== verification/Valuation.thy ===== *)
theory Valuation
  imports Investments
begin

text \<open>
  Live quotes and the valuation of the holdings: services/market_data.py and
  InvestmentHoldingValuationView. The provider's answer is a parameter; \<open>now\<close> and the
  quotes' times are in microseconds.
\<close>

subsection \<open>Quotes\<close>

text \<open>\<open>parse_datetime\<close>: nothing, an exception for a date off the calendar, a naive or an aware time.\<close>

datatype parsed_time = No_time | Bad_time | Naive int | Aware int

text \<open>An entry of the provider's list: an id that is no UUID, a price that is no finite decimal and
  a value of another type than a string are \<open>None\<close>; a missing currency is the empty string.\<close>

record raw_quote =
  rq_instrument :: "uuid option"
  rq_price :: "rat option"
  rq_currency :: "string option"
  rq_unit :: "string option"
  rq_price_type :: "string option"
  rq_observed :: parsed_time
  rq_source :: "string option"

record quote =
  qu_instrument :: uuid
  qu_price :: rat
  qu_currency :: string
  qu_unit :: string
  qu_price_type :: string
  qu_observed :: int
  qu_source :: string

definition parse_positive_decimal :: "rat option \<Rightarrow> rat option" where
  "parse_positive_decimal v = (case v of None \<Rightarrow> None | Some x \<Rightarrow> if 0 < x then Some x else None)"

text \<open>One entry: \<open>Inl\<close> is an exception nothing catches, \<open>Inr None\<close> an entry that is skipped.\<close>

definition read_quote :: "int \<Rightarrow> instrument list \<Rightarrow> quote list \<Rightarrow> raw_quote \<Rightarrow> string + quote option" where
  "read_quote now is seen r =
     (case Option.bind (rq_instrument r) (by_pk ins_id is) of
        None \<Rightarrow> Inr None
      | Some i \<Rightarrow>
         if ins_id i \<in> qu_instrument ` set seen then Inr None
         else
          (case (parse_positive_decimal (rq_price r), rq_observed r) of
             (_, Bad_time) \<Rightarrow> Inl ''ValueError''
           | (Some p, Aware t) \<Rightarrow>
               if now + 300000000 < t then Inr None
               else
                (case rq_currency r of
                   None \<Rightarrow> Inl ''AttributeError''
                 | Some c \<Rightarrow>
                     if str_upper c \<noteq> ins_currency i \<or> rq_unit r \<noteq> Some (ins_unit i) \<or>
                        rq_price_type r \<noteq> Some (ins_price_type i) then Inr None
                     else
                      (case rq_source r of
                         None \<Rightarrow> Inr None
                       | Some src \<Rightarrow>
                           if str_strip src = [] \<or> 120 < length src then Inr None
                           else Inr (Some \<lparr>qu_instrument = ins_id i, qu_price = p, qu_currency = ins_currency i,
                                  qu_unit = ins_unit i, qu_price_type = ins_price_type i, qu_observed = t,
                                  qu_source = str_strip src\<rparr>)))
           | _ \<Rightarrow> Inr None))"

fun read_quotes :: "int \<Rightarrow> instrument list \<Rightarrow> quote list \<Rightarrow> raw_quote list \<Rightarrow> string + quote list" where
  "read_quotes now is seen [] = Inr seen"
| "read_quotes now is seen (r # rs) =
     (case read_quote now is seen r of
        Inl e \<Rightarrow> Inl e
      | Inr None \<Rightarrow> read_quotes now is seen rs
      | Inr (Some q) \<Rightarrow> read_quotes now is (seen @ [q]) rs)"

datatype market_error = MarketDataUnavailable string | Crash string

text \<open>\<open>None\<close> is a payload that is not an object with a list of quotes; entries that are not
  objects are left out of the list.\<close>

definition validate_quotes :: "int \<Rightarrow> instrument list \<Rightarrow> raw_quote list option \<Rightarrow> market_error + quote list" where
  "validate_quotes now is payload =
     (case payload of
        None \<Rightarrow> Inl (MarketDataUnavailable ''The market quote response was invalid.'')
      | Some rs \<Rightarrow> (case read_quotes now is [] rs of Inl e \<Rightarrow> Inl (Crash e) | Inr qs \<Rightarrow> Inr qs))"

text \<open>\<open>_cache_key\<close>: the same for every order of the instruments.\<close>

definition cache_key :: "instrument list \<Rightarrow> uuid list" where
  "cache_key is = sort (map ins_id is)"

type_synonym quote_cache = "uuid list \<Rightarrow> raw_quote list option option"

text \<open>\<open>fetch_market_quotes\<close>: \<open>respond\<close> is the provider, \<open>Inl\<close> a request or decoding failure. Only
  a payload that passed validation is cached, and it is validated again when it is read.\<close>

definition fetch_market_quotes ::
  "bool \<Rightarrow> (uuid list \<Rightarrow> string + raw_quote list option) \<Rightarrow> int \<Rightarrow> instrument list \<Rightarrow> quote_cache \<Rightarrow>
   (market_error + quote list) \<times> quote_cache" where
  "fetch_market_quotes enabled respond now is cache =
     (if \<not> enabled \<or> is = [] then (Inr [], cache)
      else
       (case cache (cache_key is) of
          Some payload \<Rightarrow> (validate_quotes now is payload, cache)
        | None \<Rightarrow>
           (case respond (map ins_id is) of
              Inl e \<Rightarrow> (Inl (MarketDataUnavailable ''Live prices are temporarily unavailable.''), cache)
            | Inr payload \<Rightarrow>
               (case validate_quotes now is payload of
                  Inl e \<Rightarrow> (Inl e, cache)
                | Inr qs \<Rightarrow> (Inr qs, cache(cache_key is \<mapsto> payload))))))"

subsection \<open>Valuation\<close>

definition cost_basis :: "holding \<Rightarrow> rat" where
  "cost_basis h = dec (dec (ho_quantity h * ho_average h) + ho_fees h)"

record valued =
  va_holding :: holding
  va_status :: string
  va_price :: "rat option"
  va_value :: "rat option"
  va_gain :: "rat option"
  va_gain_pct :: "rat option"

definition quote_for :: "quote list \<Rightarrow> uuid \<Rightarrow> quote option" where
  "quote_for qs i = by_pk qu_instrument qs i"

text \<open>\<open>(now - observed_at).total_seconds()\<close> is a float.\<close>

definition quote_status :: "bool \<Rightarrow> int \<Rightarrow> instrument \<Rightarrow> quote option \<Rightarrow> string" where
  "quote_status enabled now i q =
     (if \<not> enabled then ''disabled''
      else (case q of
              None \<Rightarrow> ''unavailable''
            | Some x \<Rightarrow> if flt (of_int (now - qu_observed x) / 10 ^ 6) \<le> of_int (ins_max_age i)
                        then ''current'' else ''needs_refresh''))"

definition value_holding :: "bool \<Rightarrow> int \<Rightarrow> instrument \<Rightarrow> quote option \<Rightarrow> holding \<Rightarrow> valued" where
  "value_holding enabled now i q h =
     (case q of
        None \<Rightarrow> \<lparr>va_holding = h, va_status = quote_status enabled now i q, va_price = None, va_value = None,
                 va_gain = None, va_gain_pct = None\<rparr>
      | Some x \<Rightarrow>
          let current = quantize_hu 2 (dec (ho_quantity h * qu_price x));
              gain = quantize_hu 2 (dec (current - cost_basis h))
          in \<lparr>va_holding = h, va_status = quote_status enabled now i q, va_price = Some (qu_price x),
              va_value = Some current, va_gain = Some gain,
              va_gain_pct = Some (quantize_hu 4 (dec (dec (gain / cost_basis h) * 100)))\<rparr>)"

record valuation =
  vl_complete :: bool
  vl_priced :: nat
  vl_total :: nat
  vl_cost :: rat
  vl_current :: "rat option"
  vl_gain :: "rat option"
  vl_gain_pct :: "rat option"
  vl_rows :: "valued list"

definition sum_up :: "holding list \<Rightarrow> valued list \<Rightarrow> valuation" where
  "sum_up hs rows =
     (let priced = filter (\<lambda>v. va_value v \<noteq> None) rows;
          cost = dec_sum 0 (map cost_basis hs);
          current = dec_sum 0 (map (the \<circ> va_value) priced);
          complete = (length priced = length hs);
          gain = quantize_hu 2 (dec (current - cost))
      in \<lparr>vl_complete = complete, vl_priced = length priced, vl_total = length hs, vl_cost = quantize_hu 2 cost,
          vl_current = (if complete \<and> hs \<noteq> [] then Some (quantize_hu 2 current) else None),
          vl_gain = (if complete \<and> hs \<noteq> [] then Some gain else None),
          vl_gain_pct = (if complete \<and> hs \<noteq> [] then Some (quantize_hu 4 (dec (dec (gain / cost) * 100))) else None),
          vl_rows = rows\<rparr>)"

text \<open>Quantizing to more digits than the context or the response field holds is an
  \<open>InvalidOperation\<close>, in the computation and again in the response's serializer.\<close>

definition too_wide :: "nat \<times> nat \<times> rat \<Rightarrow> bool" where
  "too_wide v = (case v of (digits, n, x) \<Rightarrow> 10 ^ digits \<le> \<bar>quantize_he n x\<bar> * 10 ^ n)"

definition shown_numbers :: "valuation \<Rightarrow> (nat \<times> nat \<times> rat option) list" where
  "shown_numbers v =
     [(28, 2, Some (vl_cost v)), (28, 2, vl_current v), (28, 2, vl_gain v), (16, 4, vl_gain_pct v)] @
     concat (map (\<lambda>r. [(20, 4, va_price r), (28, 2, va_value r), (28, 2, va_gain r), (16, 4, va_gain_pct r)]) (vl_rows v))"

definition render_valuation :: "valuation \<Rightarrow> exc + valuation" where
  "render_valuation v =
     (if list_ex (\<lambda>(digits, n, x). case x of None \<Rightarrow> False | Some y \<Rightarrow> too_wide (digits, n, y)) (shown_numbers v)
      then Inl (Unhandled ''InvalidOperation'') else Inr v)"

text \<open>GET /holdings/valuation. \<open>order\<close> sorts by \<open>("-updated_at", "-id")\<close>; the instrument of a
  holding always exists (the foreign key protects it). A crash of the quote reader is not
  caught.\<close>

definition holdings_valuation ::
  "bool \<Rightarrow> (uuid list \<Rightarrow> string + raw_quote list option) \<Rightarrow> (holding list \<Rightarrow> holding list) \<Rightarrow> int \<Rightarrow> uuid \<Rightarrow>
   portfolio \<Rightarrow> quote_cache \<Rightarrow> (exc + valuation) \<times> quote_cache" where
  "holdings_valuation enabled respond order now u s cache =
     (let hs = order (filter (\<lambda>h. ho_user h = u) (holdings s));
          is = map (the \<circ> by_pk ins_id (instruments s)) (rev (remdups (rev (map ho_instrument hs))));
          result = (\<lambda>qs. sum_up hs (map (\<lambda>h. value_holding enabled now (the (by_pk ins_id (instruments s) (ho_instrument h)))
                      (quote_for qs (ho_instrument h)) h) hs))
      in case fetch_market_quotes enabled respond now is cache of
           (Inl (Crash e), cache') \<Rightarrow> (Inl (Unhandled e), cache')
         | (Inl (MarketDataUnavailable m), cache') \<Rightarrow> (render_valuation (result []), cache')
         | (Inr qs, cache') \<Rightarrow> (render_valuation (result qs), cache'))"

end
