(* ===== verification/Valuation_Laws.thy ===== *)
theory Valuation_Laws
  imports Valuation Investment_Laws
begin

text \<open>
  What the quote client lets through, the cache, and the totals of the valuation.
\<close>

subsection \<open>Quotes\<close>

definition trusted :: "int \<Rightarrow> instrument list \<Rightarrow> quote \<Rightarrow> bool" where
  "trusted now is q \<longleftrightarrow>
     (\<exists>i \<in> set is. ins_id i = qu_instrument q \<and> qu_currency q = ins_currency i \<and> qu_unit q = ins_unit i \<and>
        qu_price_type q = ins_price_type i) \<and>
     0 < qu_price q \<and> qu_observed q \<le> now + 300000000 \<and> qu_source q \<noteq> []"

lemma parse_positive_decimal_Some [simp]: "parse_positive_decimal v = Some p \<longleftrightarrow> v = Some p \<and> 0 < p"
  by (auto simp: parse_positive_decimal_def split: option.splits)

lemma read_quote_trusted:
  assumes "read_quote now is seen r = Inr (Some q)"
  shows "trusted now is q \<and> qu_instrument q \<notin> qu_instrument ` set seen"
proof -
  from assms obtain i where i: "Option.bind (rq_instrument r) (by_pk ins_id is) = Some i"
    "ins_id i \<notin> qu_instrument ` set seen"
    by (auto simp: read_quote_def split: option.splits if_splits)
  then have "i \<in> set is" by (auto simp: bind_eq_Some_conv dest: by_pk_Some)
  with assms i show ?thesis
    by (auto simp: read_quote_def trusted_def split: option.splits parsed_time.splits if_splits)
qed

lemma read_quotes_trusted:
  "read_quotes now is seen rs = Inr qs \<Longrightarrow> \<forall>q \<in> set seen. trusted now is q \<Longrightarrow> distinct (map qu_instrument seen) \<Longrightarrow>
   (\<forall>q \<in> set qs. trusted now is q) \<and> distinct (map qu_instrument qs)"
proof (induction now "is" seen rs rule: read_quotes.induct)
  case (2 now "is" seen r rs)
  show ?case
  proof (cases "read_quote now is seen r")
    case (Inr o')
    show ?thesis
    proof (cases o')
      case None with 2 Inr show ?thesis by simp
    next
      case (Some q)
      with Inr read_quote_trusted have "trusted now is q" "qu_instrument q \<notin> qu_instrument ` set seen" by blast+
      with 2 Inr Some show ?thesis by auto
    qed
  qed (use 2 in simp)
qed simp

lemma validate_quotes_Inr:
  "validate_quotes now is payload = Inr qs \<longleftrightarrow> (\<exists>rs. payload = Some rs \<and> read_quotes now is [] rs = Inr qs)"
  by (auto simp: validate_quotes_def split: option.splits sum.splits)

lemma fetch_cases:
  assumes "fetch_market_quotes enabled respond now is cache = (Inr qs, cache')"
  obtains (off) "\<not> enabled \<or> is = []" "qs = []" "cache' = cache"
  | (cached) payload where "enabled" "is \<noteq> []" "cache' (cache_key is) = Some payload" "validate_quotes now is payload = Inr qs"
  using assms by (auto simp: fetch_market_quotes_def split: if_splits option.splits sum.splits)

lemma fetch_trusted:
  assumes "fetch_market_quotes enabled respond now is cache = (Inr qs, cache')"
  shows "(\<forall>q \<in> set qs. trusted now is q) \<and> distinct (map qu_instrument qs)"
  using assms
proof (cases rule: fetch_cases)
  case (cached payload)
  then show ?thesis using read_quotes_trusted [of now "is" "[]" _ qs] by (auto simp: validate_quotes_Inr)
qed simp


definition gold_raw :: "rat option \<Rightarrow> raw_quote" where
  "gold_raw p = \<lparr>rq_instrument = Some 4, rq_price = p, rq_currency = Some ''egp'', rq_unit = Some ''gram'',
     rq_price_type = Some ''spot'', rq_observed = Aware 0, rq_source = Some ''bank''\<rparr>"

definition gold_quote :: quote where
  "gold_quote = \<lparr>qu_instrument = 4, qu_price = 5100, qu_currency = ''EGP'', qu_unit = ''gram'',
     qu_price_type = ''spot'', qu_observed = 0, qu_source = ''bank''\<rparr>"


lemma gold_strings: "str_upper ''egp'' = ''EGP''" "str_strip ''bank'' = ''bank''"
  by code_simp+

lemma gold_read: "read_quote 0 [gold] [] (gold_raw (Some 5100)) = Inr (Some gold_quote)"
  using gold_strings
  by (simp add: read_quote_def gold_raw_def gold_def gold_quote_def by_pk_Cons parse_positive_decimal_def del: One_nat_def)

lemma gold_skipped: "read_quote 0 [gold] seen (gold_raw None) = Inr None"
  by (auto simp: read_quote_def gold_raw_def gold_def by_pk_Cons parse_positive_decimal_def)

lemma gold_fetched:
  "fetch_market_quotes True (\<lambda>_. Inr (Some [gold_raw None, gold_raw (Some 5100)])) 0 [gold] Map.empty =
     (Inr [gold_quote], [[4] \<mapsto> Some [gold_raw None, gold_raw (Some 5100)]])"
proof -
  have "validate_quotes 0 [gold] (Some [gold_raw None, gold_raw (Some 5100)]) = Inr [gold_quote]"
    by (simp add: validate_quotes_def gold_read gold_skipped)
  then show ?thesis by (simp add: fetch_market_quotes_def cache_key_def gold_def)
qed


subsection \<open>The cache\<close>

lemma by_pk_same_set:
  assumes "set xs = set ys" "distinct (map pk xs)" "distinct (map pk ys)"
  shows "by_pk pk xs k = by_pk pk ys k"
proof (cases "by_pk pk xs k")
  case None
  then have "by_pk pk ys k = None" using assms(1) by (simp add: by_pk_None)
  with None show ?thesis by simp
next
  case (Some r)
  then have "by_pk pk ys k = Some r" using by_pk_Some assms by (metis by_pk_unique)
  with Some show ?thesis by simp
qed

lemma read_quotes_same_catalogue:
  assumes "\<And>k. by_pk ins_id is k = by_pk ins_id is' k"
  shows "read_quotes now is seen rs = read_quotes now is' seen rs"
proof -
  have "read_quote now is seen r = read_quote now is' seen r" for seen r
    unfolding read_quote_def assms ..
  moreover have "by_pk ins_id is = by_pk ins_id is'" using assms by (rule ext)
  ultimately show ?thesis by (induction rs arbitrary: seen) (simp_all split: sum.split option.split)
qed

text \<open>Once quotes have been fetched, asking again for the same instruments in any order
  gives the same quotes from the cache, whatever the provider would answer by then.\<close>

theorem cached_quotes_serve_any_order:
  assumes "fetch_market_quotes True respond now is cache = (Inr qs, cache')"
    and "mset is' = mset is" and "distinct (map ins_id is)"
  shows "fetch_market_quotes True respond' now is' cache' = (Inr qs, cache')"
  using assms(1)
proof (cases rule: fetch_cases)
  case off
  then show ?thesis using assms(2) by (simp add: fetch_market_quotes_def)
next
  case (cached payload)
  have d: "distinct (map ins_id is')"
    using mset_eq_imp_distinct_iff [of "map ins_id is'" "map ins_id is"] assms(2,3) by simp
  have "cache_key is' = cache_key is"
    unfolding cache_key_def by (rule properties_for_sort) (simp_all add: assms(2))
  moreover have "validate_quotes now is' payload = validate_quotes now is payload"
    unfolding validate_quotes_def
    using read_quotes_same_catalogue [of is' "is" now "[]"] by_pk_same_set [OF mset_eq_setD [OF assms(2)] d assms(3)]
    by (simp split: option.split)
  moreover have "is' \<noteq> []" using cached(2) assms(2) by auto
  ultimately show ?thesis using cached by (simp add: fetch_market_quotes_def)
qed

theorem cached_quotes_serve_any_order_witness:
  "fetch_market_quotes True (\<lambda>_. Inl ''timeout'') 0 [gold] [[4] \<mapsto> Some [gold_raw None, gold_raw (Some 5100)]] =
     (Inr [gold_quote], [[4] \<mapsto> Some [gold_raw None, gold_raw (Some 5100)]])"
  using cached_quotes_serve_any_order [OF gold_fetched refl] by simp

subsection \<open>The totals\<close>

lemma floor_half: "\<lfloor>of_int k + 1 / 2 :: rat\<rfloor> = k" "\<lfloor>1 / 2 - of_int k :: rat\<rfloor> = - k"
  by linarith+

lemma quantize_hu_places: "places n x \<Longrightarrow> quantize_hu n x = x"
  by (erule placesE) (auto simp: quantize_hu_def rhu_def floor_half floor_eq_iff)

lemma quantize_hu_nonneg: "0 \<le> x \<Longrightarrow> 0 \<le> quantize_hu n x"
  by (simp add: quantize_hu_def rhu_def add_nonneg_nonneg)

lemma valued_value:
  assumes "va_value (value_holding enabled now i q h) = Some x" "0 \<le> ho_quantity h" "\<And>y. q = Some y \<Longrightarrow> 0 < qu_price y"
  shows "0 \<le> x \<and> places 2 x"
proof -
  obtain y where y: "q = Some y" "x = quantize_hu 2 (dec (ho_quantity h * qu_price y))"
    using assms(1) by (auto simp: value_holding_def Let_def split: option.splits)
  then have "0 \<le> dec (ho_quantity h * qu_price y)" using assms(2,3) by (intro dec_nonneg) (simp add: less_imp_le)
  then show ?thesis using y(2) by (simp add: quantize_hu_nonneg)
qed

lemma value_holding_row [simp]: "va_holding (value_holding enabled now i q h) = h"
  by (simp add: value_holding_def Let_def split: option.splits)

lemma sum_up_total:
  assumes "vl_current (sum_up hs rows) = Some x" "length rows = length hs"
    "\<forall>r \<in> set rows. \<forall>y. va_value r = Some y \<longrightarrow> 0 \<le> y \<and> places 2 y"
    "sum_list (map (the \<circ> va_value) rows) < 10 ^ 26"
  shows "x = sum_list (map (the \<circ> va_value) rows) \<and> (\<forall>r \<in> set rows. va_value r \<noteq> None)"
proof -
  let ?vs = "map (the \<circ> va_value) rows"
  have l: "length (filter (\<lambda>r. va_value r \<noteq> None) rows) = length rows"
    using assms(1,2) by (auto simp: sum_up_def Let_def split: if_splits)
  then have all: "\<forall>r \<in> set rows. va_value r \<noteq> None"
    using length_filter_less [of _ rows "\<lambda>r. va_value r \<noteq> None"] by fastforce
  then have f: "filter (\<lambda>r. va_value r \<noteq> None) rows = rows" by (simp add: filter_id_conv)
  have vs: "\<forall>y \<in> set ?vs. 0 \<le> y \<and> places 2 y" using all assms(3) by fastforce
  then have s: "dec_sum 0 ?vs = sum_list ?vs" using dec_sum_exact [of 0 ?vs] assms(4) by simp
  have "x = quantize_hu 2 (dec_sum 0 ?vs)"
    using assms(1) unfolding sum_up_def Let_def f by (auto split: if_splits)
  moreover have "places 2 (sum_list ?vs)" using vs by (intro places_sum_list) blast
  ultimately show ?thesis using all s by (simp add: quantize_hu_places)
qed

lemma holdings_valuation_cases:
  assumes "holdings_valuation enabled respond order now u s cache = (Inr v, cache')"
  obtains qs "is" where "\<forall>q \<in> set qs. trusted now is q"
    "v = (let hs = order (filter (\<lambda>h. ho_user h = u) (holdings s)) in
       sum_up hs (map (\<lambda>h. value_holding enabled now (the (by_pk ins_id (instruments s) (ho_instrument h)))
         (quote_for qs (ho_instrument h)) h) hs))"
proof -
  let ?hs = "order (filter (\<lambda>h. ho_user h = u) (holdings s))"
  let ?is = "map (the \<circ> by_pk ins_id (instruments s)) (rev (remdups (rev (map ho_instrument ?hs))))"
  obtain r c where f: "fetch_market_quotes enabled respond now ?is cache = (r, c)" by fastforce
  show thesis
  proof (cases r)
    case (Inl e)
    show ?thesis
    proof (cases e)
      case (MarketDataUnavailable m)
      then show ?thesis using assms f Inl that [of "[]" ?is]
        by (auto simp: holdings_valuation_def Let_def render_valuation_def split: if_splits)
    qed (use assms f Inl in \<open>simp add: holdings_valuation_def Let_def\<close>)
  next
    case (Inr qs)
    then show ?thesis using assms f that [of qs ?is] fetch_trusted [of enabled respond now ?is cache qs c]
      by (auto simp: holdings_valuation_def Let_def render_valuation_def split: if_splits)
  qed
qed

text \<open>C23. When the valuation shows a current total, every holding of the user has a row with a
  value, and the total is the exact sum of the values shown.\<close>

theorem valuation_adds_up:
  assumes "portfolio_ok s" and "\<And>xs. mset (order xs) = mset xs"
    and "holdings_valuation enabled respond order now u s cache = (Inr v, cache')"
    and "vl_current v = Some x" and "sum_list (map (the \<circ> va_value) (vl_rows v)) < 10 ^ 26"
  shows "x = sum_list (map (the \<circ> va_value) (vl_rows v)) \<and> (\<forall>r \<in> set (vl_rows v). va_value r \<noteq> None) \<and>
    mset (map va_holding (vl_rows v)) = mset (filter (\<lambda>h. ho_user h = u) (holdings s))"
  using assms(3)
proof (cases rule: holdings_valuation_cases)
  case (1 qs "is")
  define hs where "hs = order (filter (\<lambda>h. ho_user h = u) (holdings s))"
  define rows where "rows = map (\<lambda>h. value_holding enabled now (the (by_pk ins_id (instruments s) (ho_instrument h)))
         (quote_for qs (ho_instrument h)) h) hs"
  have v: "v = sum_up hs rows" using 1(2) unfolding hs_def rows_def Let_def .
  have m: "mset hs = mset (filter (\<lambda>h. ho_user h = u) (holdings s))" unfolding hs_def by (rule assms(2))
  have hs: "0 \<le> ho_quantity h" if "h \<in> set hs" for h
  proof -
    have "h \<in> set (holdings s)" using that mset_eq_setD [OF m] by auto
    then have "holding_ok (instruments s) h" by (rule portfolio_okD(4) [OF assms(1)])
    then show ?thesis by (simp add: holding_ok_def number_ok_def)
  qed
  have price: "0 < qu_price y" if "quote_for qs i = Some y" for i y
    using that 1(1) by (auto simp: quote_for_def trusted_def dest: by_pk_Some)
  have "\<forall>r \<in> set rows. \<forall>y. va_value r = Some y \<longrightarrow> 0 \<le> y \<and> places 2 y"
    using hs price valued_value unfolding rows_def by fastforce
  moreover have "vl_rows v = rows" unfolding v sum_up_def Let_def by simp
  moreover have "map va_holding rows = hs" unfolding rows_def by (simp add: comp_def)
  ultimately show ?thesis using sum_up_total [of hs rows x] assms(4,5) v m by (simp add: rows_def)
qed


lemma gold_decimals:
  "dec (11 / 40) = 11 / 40" "dec (55 / 2) = 55 / 2" "quantize_hu 4 (55 / 2) = 55 / 2"
  "quantize_hu 2 (numeral k) = numeral k"
  using dec_exact [of 275 "11 / 40" 3] dec_exact [of 275 "55 / 2" 1] places_frac [of 1 275] quantize_hu_places
  by (simp_all add: quantize_hu_def rhu_def floor_eq_iff)

definition gold_row :: valued where
  "gold_row = \<lparr>va_holding = gold_holding, va_status = ''current'', va_price = Some 5100, va_value = Some 10200,
     va_gain = Some 2200, va_gain_pct = Some (55 / 2)\<rparr>"

definition gold_total :: valuation where
  "gold_total = \<lparr>vl_complete = True, vl_priced = 1, vl_total = 1, vl_cost = 8000, vl_current = Some 10200,
     vl_gain = Some 2200, vl_gain_pct = Some (55 / 2), vl_rows = [gold_row]\<rparr>"

lemma gold_valued: "value_holding True 0 gold (Some gold_quote) gold_holding = gold_row"
  by (simp add: value_holding_def gold_row_def quote_status_def gold_quote_def gold_def cost_basis_def gold_holding_def
      gold_decimals Let_def)

lemma gold_summed: "sum_up [gold_holding] [gold_row] = gold_total"
  by (simp add: sum_up_def gold_row_def gold_total_def gold_holding_def cost_basis_def gold_decimals Let_def)

lemma gold_rendered: "render_valuation gold_total = Inr gold_total"
proof -
  have "quantize_he 4 (55 / 2) = 55 / 2" "quantize_he 4 5100 = 5100"
    by (simp_all add: quantize_he_def)
  then show ?thesis
    by (simp add: render_valuation_def shown_numbers_def gold_total_def gold_row_def too_wide_def)
qed

lemma gold_valuation:
  "holdings_valuation True (\<lambda>_. Inr (Some [gold_raw None, gold_raw (Some 5100)])) (\<lambda>xs. xs) 0 1 gold_portfolio Map.empty =
     (Inr gold_total, [[4] \<mapsto> Some [gold_raw None, gold_raw (Some 5100)]])"
proof -
  have g: "by_pk ins_id [gold] 4 = Some gold" by (simp add: gold_def by_pk_Cons)
  have q: "quote_for [gold_quote] 4 = Some gold_quote" by (simp add: quote_for_def gold_quote_def by_pk_Cons)
  have h: "ho_instrument gold_holding = 4" "ho_user gold_holding = 1" by (simp_all add: gold_holding_def)
  have p: "instruments gold_portfolio = [gold]" "holdings gold_portfolio = [gold_holding]"
    by (simp_all add: gold_portfolio_def)
  show ?thesis
    by (simp add: holdings_valuation_def Let_def p h g q gold_fetched gold_valued gold_summed gold_rendered
        del: One_nat_def)
qed

theorem valuation_adds_up_witness:
  "vl_current gold_total = Some 10200 \<and> sum_list (map (the \<circ> va_value) (vl_rows gold_total)) = 10200"
proof -
  have "vl_current gold_total = Some 10200" "sum_list (map (the \<circ> va_value) (vl_rows gold_total)) < 10 ^ 26"
    by (simp_all add: gold_total_def gold_row_def)
  from valuation_adds_up [OF gold_portfolio_ok refl gold_valuation this] this(1) show ?thesis by simp
qed

end
