(* ===== verification/Oauth.thy ===== *)
theory Oauth
  imports Sync
begin

text \<open>
  The bank's own login service, mock-bank-oauth/app: the challenge and code store (store.py),
  the authorization-code grant (oauth_server.py) and its routes. Times are in seconds. The
  customer directory, the mail server and the JWT signature are parameters; what
  \<open>uuid4\<close>, \<open>randbelow\<close> and \<open>generate_token\<close> draw are arguments. A page is the
  message it shows.
\<close>

subsection \<open>The store\<close>

record challenge =
  ch_client :: string
  ch_redirect :: string
  ch_state :: "string option"
  ch_expires :: rat
  ch_customer :: "string option"
  ch_email :: "string option"
  ch_phone :: "string option"
  ch_name :: "string option"
  ch_otp :: "string option"
  ch_otp_expires :: "rat option"

record auth_code =
  ac_client :: string
  ac_redirect :: string
  ac_customer :: string
  ac_expires :: rat
  ac_email :: "string option"
  ac_phone :: "string option"
  ac_name :: "string option"
  ac_used :: bool

record oauth_store =
  challenges :: "string \<rightharpoonup> challenge"
  auth_codes :: "string \<rightharpoonup> auth_code"
  refresh_tokens :: "string \<rightharpoonup> string \<times> string"

definition CHALLENGE_TTL_SECONDS :: rat where "CHALLENGE_TTL_SECONDS = 5 * 60"
definition OTP_TTL_SECONDS :: rat where "OTP_TTL_SECONDS = 5 * 60"
definition AUTH_CODE_TTL_SECONDS :: rat where "AUTH_CODE_TTL_SECONDS = 60"
definition ACCESS_TOKEN_TTL_SECONDS :: int where "ACCESS_TOKEN_TTL_SECONDS = 60 * 60"

definition challenge_is_expired :: "rat \<Rightarrow> challenge \<Rightarrow> bool" where
  "challenge_is_expired now c \<longleftrightarrow> ch_expires c < now"

definition otp_is_expired :: "rat \<Rightarrow> challenge \<Rightarrow> bool" where
  "otp_is_expired now c \<longleftrightarrow> (case ch_otp_expires c of None \<Rightarrow> True | Some t \<Rightarrow> t < now)"

definition code_is_expired :: "rat \<Rightarrow> auth_code \<Rightarrow> bool" where
  "code_is_expired now r \<longleftrightarrow> ac_expires r < now"

definition create_challenge ::
  "rat \<Rightarrow> string \<Rightarrow> string \<Rightarrow> string \<Rightarrow> string option \<Rightarrow> oauth_store \<Rightarrow> oauth_store" where
  "create_challenge now k client redirect st s = s\<lparr>challenges := (challenges s)(k \<mapsto>
     \<lparr>ch_client = client, ch_redirect = redirect, ch_state = st, ch_expires = now + CHALLENGE_TTL_SECONDS,
      ch_customer = None, ch_email = None, ch_phone = None, ch_name = None, ch_otp = None,
      ch_otp_expires = None\<rparr>)\<rparr>"

text \<open>An expired challenge is evicted by the lookup.\<close>

definition get_challenge :: "rat \<Rightarrow> string \<Rightarrow> oauth_store \<Rightarrow> challenge option \<times> oauth_store" where
  "get_challenge now k s =
     (case challenges s k of
        None \<Rightarrow> (None, s)
      | Some c \<Rightarrow> if challenge_is_expired now c then (None, s\<lparr>challenges := (challenges s)(k := None)\<rparr>) else (Some c, s))"

text \<open>\<open>f"{n:06d}"\<close>.\<close>

definition otp_text :: "nat \<Rightarrow> string" where
  "otp_text n = (let ds = nat_str n in replicate (6 - length ds) (CHR ''0'') @ ds)"

definition with_otp :: "rat \<Rightarrow> string \<Rightarrow> string \<Rightarrow> string \<Rightarrow> string option \<Rightarrow> string \<Rightarrow> challenge \<Rightarrow> challenge" where
  "with_otp now customer email phone name otp c = c\<lparr>ch_customer := Some customer, ch_email := Some email,
     ch_phone := Some phone, ch_name := name, ch_otp := Some otp, ch_otp_expires := Some (now + OTP_TTL_SECONDS)\<rparr>"

text \<open>\<open>None\<close> is the \<open>KeyError\<close> of a challenge that is gone.\<close>

definition set_challenge_otp ::
  "rat \<Rightarrow> nat \<Rightarrow> string \<Rightarrow> string \<Rightarrow> string \<Rightarrow> string \<Rightarrow> string option \<Rightarrow> oauth_store \<Rightarrow> (string \<times> oauth_store) option" where
  "set_challenge_otp now n k customer email phone name s =
     (case challenges s k of
        None \<Rightarrow> None
      | Some c \<Rightarrow> Some (otp_text n, s\<lparr>challenges := (challenges s)(k \<mapsto> with_otp now customer email phone name (otp_text n) c)\<rparr>))"

definition pop_challenge :: "string \<Rightarrow> oauth_store \<Rightarrow> challenge option \<times> oauth_store" where
  "pop_challenge k s = (challenges s k, s\<lparr>challenges := (challenges s)(k := None)\<rparr>)"

definition create_authorization_code ::
  "rat \<Rightarrow> string \<Rightarrow> string \<Rightarrow> string \<Rightarrow> string \<Rightarrow> string option \<Rightarrow> string option \<Rightarrow> string option \<Rightarrow> oauth_store \<Rightarrow> oauth_store" where
  "create_authorization_code now code client redirect customer email phone name s = s\<lparr>auth_codes := (auth_codes s)(code \<mapsto>
     \<lparr>ac_client = client, ac_redirect = redirect, ac_customer = customer, ac_expires = now + AUTH_CODE_TTL_SECONDS,
      ac_email = email, ac_phone = phone, ac_name = name, ac_used = False\<rparr>)\<rparr>"

definition consume_authorization_code :: "rat \<Rightarrow> string \<Rightarrow> oauth_store \<Rightarrow> auth_code option \<times> oauth_store" where
  "consume_authorization_code now code s =
     (case auth_codes s code of
        None \<Rightarrow> (None, s)
      | Some r \<Rightarrow>
         if ac_used r \<or> code_is_expired now r then (None, s)
         else (Some (r\<lparr>ac_used := True\<rparr>), s\<lparr>auth_codes := (auth_codes s)(code \<mapsto> r\<lparr>ac_used := True\<rparr>)\<rparr>))"

definition create_refresh_token :: "string \<Rightarrow> string \<Rightarrow> string \<Rightarrow> oauth_store \<Rightarrow> oauth_store" where
  "create_refresh_token t client customer s = s\<lparr>refresh_tokens := (refresh_tokens s)(t \<mapsto> (client, customer))\<rparr>"

subsection \<open>The configuration and what lies outside\<close>

text \<open>The directory's answer: unreachable, a 404, another failure, or a record whose missing keys
  are \<open>None\<close>.\<close>

datatype lookup =
    Unreachable string
  | No_customer
  | Lookup_failed nat
  | Customer "string option" "string option" "string option" "string option"

record bank_env =
  env_client_id :: string
  env_client_secret :: string
  env_redirects :: "string list"
  env_lookup :: "string \<Rightarrow> lookup"
  env_send :: "string \<Rightarrow> string \<Rightarrow> string option"
  env_sign :: "string \<Rightarrow> int \<Rightarrow> int \<Rightarrow> string"

text \<open>A form field or a JSON value that counts as missing.\<close>

definition falsy :: "string option \<Rightarrow> bool" where
  "falsy v \<longleftrightarrow> v = None \<or> v = Some []"

record token_json =
  tj_access :: string
  tj_expires :: int
  tj_refresh :: string
  tj_customer :: string
  tj_email :: "string option"
  tj_phone :: "string option"
  tj_name :: "string option"

datatype oauth_page =
    Error_page string nat
  | Customer_form string
  | Otp_form string
  | Redirect_to string
  | Token_error string string
  | Token_issued token_json
  | Server_error string

subsection \<open>The routes\<close>

definition authorize ::
  "bank_env \<Rightarrow> rat \<Rightarrow> string \<Rightarrow> string \<Rightarrow> string \<Rightarrow> string \<Rightarrow> string option \<Rightarrow> oauth_store \<Rightarrow> oauth_page \<times> oauth_store" where
  "authorize env now k client redirect response_type st s =
     (if client \<noteq> env_client_id env then (Error_page ''Unknown client_id.'' 400, s)
      else if response_type \<noteq> ''code'' then
        (Error_page ''Unsupported response_type; only 'code' is supported.'' 400, s)
      else if redirect = [] then (Error_page ''redirect_uri is required.'' 400, s)
      else if env_redirects env \<noteq> [] \<and> redirect \<notin> set (env_redirects env) then
        (Error_page ''redirect_uri is not on the allow-list.'' 400, s)
      else (Customer_form k, create_challenge now k client redirect st s))"

definition session_gone :: string where
  "session_gone = ''This login session is unknown or has expired.''"

text \<open>POST /login/start; \<open>n\<close> is the number drawn for the OTP.\<close>

definition login_start ::
  "bank_env \<Rightarrow> rat \<Rightarrow> nat \<Rightarrow> string \<Rightarrow> string \<Rightarrow> oauth_store \<Rightarrow> oauth_page \<times> oauth_store" where
  "login_start env now n k bank_id s =
     (case get_challenge now k s of
        (None, s') \<Rightarrow> (Error_page session_gone 404, s')
      | (Some _, s') \<Rightarrow>
         if str_strip bank_id = [] then (Error_page ''Customer ID is required.'' 400, s')
         else
          (case env_lookup env bank_id of
             Unreachable e \<Rightarrow> (Error_page (''Could not reach the bank's customer directory: '' @ e) 502, s')
           | No_customer \<Rightarrow> (Error_page ''No customer found with that ID.'' 404, s')
           | Lookup_failed c \<Rightarrow>
               (Error_page (''Customer directory lookup failed (status '' @ nat_str c @ '').'') 502, s')
           | Customer customer email phone name \<Rightarrow>
               if falsy customer \<or> falsy email \<or> falsy phone then
                 (Error_page ''Customer directory returned an incomplete record.'' 502, s')
               else
                (case set_challenge_otp now n k (the customer) (the email) (the phone) name s' of
                   None \<Rightarrow> (Server_error ''KeyError'', s')
                 | Some (otp, s2) \<Rightarrow>
                    (case env_send env (the email) otp of
                       Some e \<Rightarrow> (Error_page (''Could not send the verification email: '' @ e) 502, s2)
                     | None \<Rightarrow> (Otp_form k, s2)))))"

text \<open>The query string of the redirect; the state is left out when there is none.\<close>

definition redirect_url :: "string \<Rightarrow> string \<Rightarrow> string option \<Rightarrow> string" where
  "redirect_url redirect code st =
     redirect @ (if CHR ''?'' \<in> set redirect then ''&'' else ''?'') @
     urlencode ((''code'', code) # (case st of None \<Rightarrow> [] | Some v \<Rightarrow> [(''state'', v)]))"

definition login_verify :: "rat \<Rightarrow> string \<Rightarrow> string \<Rightarrow> string \<Rightarrow> oauth_store \<Rightarrow> oauth_page \<times> oauth_store" where
  "login_verify now code k otp s =
     (case get_challenge now k s of
        (None, s') \<Rightarrow> (Error_page session_gone 400, s')
      | (Some c, s') \<Rightarrow>
         (case (ch_otp c, ch_customer c, ch_phone c) of
            (Some o', Some customer, Some phone) \<Rightarrow>
              if otp_is_expired now c \<or> str_strip otp \<noteq> o' then
                (Error_page ''Invalid or expired verification code.'' 400, s')
              else
                (Redirect_to (redirect_url (ch_redirect c) code (ch_state c)),
                 snd (pop_challenge k (create_authorization_code now code (ch_client c) (ch_redirect c) customer
                   (ch_email c) (ch_phone c) (ch_name c) s')))
          | _ \<Rightarrow> (Error_page ''Invalid or expired verification code.'' 400, s')))"

definition validate_client :: "bank_env \<Rightarrow> string \<Rightarrow> string \<Rightarrow> bool" where
  "validate_client env client secret \<longleftrightarrow> client = env_client_id env \<and> secret = env_client_secret env"

definition issue_access_token :: "bank_env \<Rightarrow> rat \<Rightarrow> string \<Rightarrow> string" where
  "issue_access_token env now customer = env_sign env customer \<lfloor>now\<rfloor> (\<lfloor>now\<rfloor> + ACCESS_TOKEN_TTL_SECONDS)"

text \<open>POST /token; \<open>fresh_token\<close> is the drawn refresh token. The code is spent before its binding is
  checked.\<close>

definition token_route ::
  "bank_env \<Rightarrow> rat \<Rightarrow> string \<Rightarrow> string \<Rightarrow> string \<Rightarrow> string \<Rightarrow> string \<Rightarrow> string \<Rightarrow> oauth_store \<Rightarrow> oauth_page \<times> oauth_store" where
  "token_route env now fresh_token grant code redirect client secret s =
     (if grant \<noteq> ''authorization_code'' then
        (Token_error ''unsupported_grant_type'' ''Only authorization_code is supported.'', s)
      else if \<not> validate_client env client secret then
        (Token_error ''invalid_client'' ''client_id or client_secret is incorrect'', s)
      else
       (case consume_authorization_code now code s of
          (None, s') \<Rightarrow> (Token_error ''invalid_grant'' ''The authorization code is invalid, expired, or already used.'', s')
        | (Some r, s') \<Rightarrow>
            if ac_redirect r \<noteq> redirect \<or> ac_client r \<noteq> client then
              (Token_error ''invalid_grant'' ''redirect_uri or client_id does not match the authorization request.'', s')
            else
              (Token_issued \<lparr>tj_access = issue_access_token env now (ac_customer r), tj_expires = ACCESS_TOKEN_TTL_SECONDS,
                 tj_refresh = fresh_token, tj_customer = ac_customer r, tj_email = ac_email r, tj_phone = ac_phone r,
                 tj_name = ac_name r\<rparr>,
               create_refresh_token fresh_token client (ac_customer r) s')))"

subsection \<open>Requests and the log\<close>

text \<open>A request with the time it is served and what it draws.\<close>

datatype oauth_call =
    Authorize string string string string "string option"
  | Login_start nat string string
  | Login_verify string string string
  | Token_call string string string string string string

fun oauth_step :: "bank_env \<Rightarrow> rat \<times> oauth_call \<Rightarrow> oauth_store \<Rightarrow> oauth_page \<times> oauth_store" where
  "oauth_step env (now, Authorize k client redirect ty st) s = authorize env now k client redirect ty st s"
| "oauth_step env (now, Login_start n k bank_id) s = login_start env now n k bank_id s"
| "oauth_step env (now, Login_verify code k otp) s = login_verify now code k otp s"
| "oauth_step env (now, Token_call r grant code redirect client secret) s =
     token_route env now r grant code redirect client secret s"

type_synonym oauth_log = "((rat \<times> oauth_call) \<times> oauth_page) list"

definition oauth_serve :: "bank_env \<Rightarrow> rat \<times> oauth_call \<Rightarrow> oauth_log \<times> oauth_store \<Rightarrow> oauth_log \<times> oauth_store" where
  "oauth_serve env c ls = (case oauth_step env c (snd ls) of (p, s') \<Rightarrow> (fst ls @ [(c, p)], s'))"

definition oauth_run :: "bank_env \<Rightarrow> (rat \<times> oauth_call) list \<Rightarrow> oauth_log \<times> oauth_store" where
  "oauth_run env cs = fold (oauth_serve env) cs ([], \<lparr>challenges = Map.empty, auth_codes = Map.empty, refresh_tokens = Map.empty\<rparr>)"

end
