(* ===== verification/Bank_Ledger.thy ===== *)
theory Bank_Ledger
  imports Oauth
begin

text \<open>
  The bank's ledger service, mock-bank-sync/app: the customer directory (routes_internal.py), the
  accounts and transactions a token gives access to (auth.py, routes_accounts.py) and the
  demo triggers (routes_simulate.py). The decoding of a JWT and the delivery of the webhook
  are parameters; drawn values are arguments. Timestamps are microseconds since 1970 in UTC.
\<close>

subsection \<open>UUIDs as text\<close>

definition starts_with :: "string \<Rightarrow> string \<Rightarrow> bool" where
  "starts_with p s \<longleftrightarrow> take (length p) s = p"

text \<open>\<open>str.replace(p, "")\<close>.\<close>

fun remove_all :: "string \<Rightarrow> string \<Rightarrow> string" where
  "remove_all p [] = []"
| "remove_all p (c # s) = (if p \<noteq> [] \<and> starts_with p (c # s) then remove_all p (drop (length p - 1) s) else c # remove_all p s)"

definition strip_set :: "char set \<Rightarrow> string \<Rightarrow> string" where
  "strip_set cs s = rev (dropWhile (\<lambda>c. c \<in> cs) (rev (dropWhile (\<lambda>c. c \<in> cs) s)))"

definition hex_value :: "char \<Rightarrow> nat option" where
  "hex_value c = (let n = of_char c :: nat in
     if 48 \<le> n \<and> n \<le> 57 then Some (n - 48)
     else if 97 \<le> n \<and> n \<le> 102 then Some (n - 87)
     else if 65 \<le> n \<and> n \<le> 70 then Some (n - 55) else None)"

text \<open>The digits of \<open>int(s, 16)\<close>: single underscores may stand between digits. \<open>ready\<close> says that the
  text may end here.\<close>

fun hex_number :: "bool \<Rightarrow> nat \<Rightarrow> string \<Rightarrow> nat option" where
  "hex_number ready acc [] = (if ready then Some acc else None)"
| "hex_number ready acc (c # cs) =
     (if c = CHR ''_'' then (if ready then hex_number False acc cs else None)
      else (case hex_value c of None \<Rightarrow> None | Some v \<Rightarrow> hex_number True (16 * acc + v) cs))"

text \<open>\<open>int(s, 16)\<close> of a text without a minus sign.\<close>

definition py_hex :: "string \<Rightarrow> nat option" where
  "py_hex s =
     (let t = str_strip s;
          u = (if take 1 t = ''+'' then drop 1 t else t)
      in if take 2 u \<in> {''0x'', ''0X''}
         then (let v = drop 2 u in hex_number False 0 (if take 1 v = ''_'' then drop 1 v else v))
         else hex_number False 0 u)"

text \<open>\<open>uuid.UUID(s)\<close>.\<close>

definition parse_uuid :: "string \<Rightarrow> uuid option" where
  "parse_uuid s =
     (let h = filter (\<lambda>c. c \<noteq> CHR ''-'') (strip_set {CHR ''{'', CHR ''}''} (remove_all ''uuid:'' (remove_all ''urn:'' s)))
      in if length h \<noteq> 32 then None else py_hex h)"

subsection \<open>Rows\<close>

record mock_customer =
  mc_id :: uuid
  mc_bank_id :: string
  mc_email :: string
  mc_phone :: string
  mc_name :: "string option"

record mock_account =
  ma_id :: uuid
  ma_customer :: uuid
  ma_bank_name :: string
  ma_type :: "string option"
  ma_number :: "string option"
  ma_currency :: string
  ma_created :: int

record mock_txn =
  mt_id :: uuid
  mt_account :: uuid
  mt_time :: int
  mt_merchant :: "string option"
  mt_amount :: rat
  mt_type :: "string option"
  mt_balance :: "rat option"

record bank_ledger =
  bk_customers :: "mock_customer list"
  bk_accounts :: "mock_account list"
  bk_txns :: "mock_txn list"

datatype http_error = HTTPException nat string

type_synonym 'a http = "http_error + 'a"

subsection \<open>Who is asking\<close>

definition require_internal_secret :: "string \<Rightarrow> string option \<Rightarrow> unit http" where
  "require_internal_secret secret header =
     (if falsy header then Inl (HTTPException 401 ''Missing X-Internal-Secret header'')
      else guard_res (header = Some secret) (HTTPException 403 ''Invalid internal secret''))"

text \<open>\<open>decode now token\<close> verifies an HS256 token and its registered claims, \<open>Inl\<close> being the text of a
  \<open>JoseError\<close>; the claims are the subject and the expiry.\<close>

type_synonym decoder = "rat \<Rightarrow> string \<Rightarrow> string + string option \<times> int option"

definition after_space :: "string \<Rightarrow> string" where
  "after_space s = drop 1 (dropWhile (\<lambda>c. c \<noteq> CHR '' '') s)"

definition require_customer :: "decoder \<Rightarrow> rat \<Rightarrow> string option \<Rightarrow> string http" where
  "require_customer decode now header =
     (case header of
        None \<Rightarrow> Inl (HTTPException 401 ''Missing or malformed Authorization header'')
      | Some h \<Rightarrow>
         if \<not> starts_with ''bearer '' (str_lower h) then
           Inl (HTTPException 401 ''Missing or malformed Authorization header'')
         else
          (case decode now (str_strip (after_space h)) of
             Inl e \<Rightarrow> Inl (HTTPException 401 (''Invalid token: '' @ e))
           | Inr (sub, expiry) \<Rightarrow>
               if (case expiry of None \<Rightarrow> False | Some x \<Rightarrow> of_int x < now) then Inl (HTTPException 401 ''Token has expired'')
               else if falsy sub then Inl (HTTPException 401 ''Token missing 'sub' claim'')
               else Inr (the sub)))"

subsection \<open>The customer directory\<close>

text \<open>\<open>repr\<close> of the id stands in the message of the 404.\<close>

definition lookup_customer ::
  "string \<Rightarrow> string option \<Rightarrow> string \<Rightarrow> (string \<Rightarrow> string) \<Rightarrow> bank_ledger \<Rightarrow> mock_customer http" where
  "lookup_customer secret header bank_id repr s =
     res_bind (require_internal_secret secret header) (\<lambda>_.
       (case List.find (\<lambda>c. mc_bank_id c = bank_id) (bk_customers s) of
          None \<Rightarrow> Inl (HTTPException 404 (''No mock customer found for customer_bank_id='' @ repr bank_id))
        | Some c \<Rightarrow> Inr c))"

text \<open>The login service's view of that route.\<close>

definition directory :: "string \<Rightarrow> string \<Rightarrow> (string \<Rightarrow> string) \<Rightarrow> bank_ledger \<Rightarrow> string \<Rightarrow> lookup" where
  "directory secret header repr s bank_id =
     (case lookup_customer secret (Some header) bank_id repr s of
        Inl (HTTPException st m) \<Rightarrow> if st = 404 then No_customer else Lookup_failed st
      | Inr c \<Rightarrow> Customer (Some (uuid_str (mc_id c))) (Some (mc_email c)) (Some (mc_phone c)) (mc_name c))"

subsection \<open>Accounts and transactions\<close>

record account_json =
  aj_id :: string
  aj_bank_name :: string
  aj_type :: "string option"
  aj_number :: "string option"
  aj_currency :: string

definition serialize_account :: "mock_account \<Rightarrow> account_json" where
  "serialize_account a = \<lparr>aj_id = uuid_str (ma_id a), aj_bank_name = ma_bank_name a, aj_type = ma_type a,
     aj_number = ma_number a, aj_currency = ma_currency a\<rparr>"

definition utc_date :: "int \<Rightarrow> date" where
  "utc_date t = add_days (Date 1970 1 1) (t div 86400000000)"

definition serialize_transaction :: "mock_txn \<Rightarrow> string \<Rightarrow> feed_txn" where
  "serialize_transaction t currency =
     \<lparr>feed_external_id = Some (uuid_str (mt_id t)), feed_date = Some (utc_date (mt_time t)), feed_merchant = mt_merchant t,
      feed_amount = mt_amount t, feed_type = mt_type t, feed_currency = Some currency, feed_balance = mt_balance t\<rparr>"

definition path_uuid :: "string \<Rightarrow> string \<Rightarrow> nat \<Rightarrow> uuid http" where
  "path_uuid v field st = (case parse_uuid v of None \<Rightarrow> Inl (HTTPException st (''Invalid '' @ field)) | Some k \<Rightarrow> Inr k)"

definition list_bank_accounts :: "decoder \<Rightarrow> rat \<Rightarrow> string option \<Rightarrow> bank_ledger \<Rightarrow> account_json list http" where
  "list_bank_accounts decode now header s =
     res_bind (require_customer decode now header) (\<lambda>sub.
     res_bind (path_uuid sub ''token subject'' 401) (\<lambda>c.
       Inr (map serialize_account (filter (\<lambda>a. ma_customer a = c) (bk_accounts s)))))"

definition list_bank_transactions ::
  "decoder \<Rightarrow> rat \<Rightarrow> string option \<Rightarrow> string \<Rightarrow> int option \<Rightarrow> bank_ledger \<Rightarrow> feed_txn list http" where
  "list_bank_transactions decode now header account since s =
     res_bind (require_customer decode now header) (\<lambda>sub.
     res_bind (path_uuid sub ''token subject'' 401) (\<lambda>c.
     res_bind (path_uuid account ''account_id'' 404) (\<lambda>k.
       (case by_pk ma_id (filter (\<lambda>a. ma_customer a = c) (bk_accounts s)) k of
          None \<Rightarrow> Inl (HTTPException 404 ''Account not found'')
        | Some a \<Rightarrow>
            Inr (map (\<lambda>t. serialize_transaction t (ma_currency a)) (sort_key mt_time
              (filter (\<lambda>t. mt_account t = k \<and> (case since of None \<Rightarrow> True | Some x \<Rightarrow> x \<le> mt_time t)) (bk_txns s))))))))"

subsection \<open>Demo triggers\<close>

record simulated_txn =
  sm_account :: "string option"
  sm_amount :: "rat option"
  sm_merchant :: "string option"
  sm_type :: "string option"
  sm_time :: "int option"

definition EXPENSE_MERCHANTS :: "string list" where
  "EXPENSE_MERCHANTS = [''Carrefour'', ''Talabat'', ''Uber'', ''Vodafone'', ''Amazon.eg'', ''Cairo Metro'']"

definition INCOME_MERCHANTS :: "string list" where
  "INCOME_MERCHANTS = [''ACME Corp Payroll'', ''Nile Software Payroll'', ''Cairo Consulting Salary'',
     ''Freelance Client Payment'', ''Upwork Freelance Payout'', ''Bank Transfer'', ''Family Transfer'']"

definition SAMPLE_TRANSACTION_TYPES :: "string list" where
  "SAMPLE_TRANSACTION_TYPES = [''debit'', ''credit'']"

text \<open>The random choices: an index into any list, and an amount.\<close>

record chance =
  pick_index :: "nat \<Rightarrow> nat"
  random_amount :: rat

definition choice :: "chance \<Rightarrow> 'a list \<Rightarrow> 'a" where
  "choice ch xs = xs ! (pick_index ch (length xs) mod length xs)"

definition simulated_account :: "chance \<Rightarrow> string option \<Rightarrow> bank_ledger \<Rightarrow> mock_account http" where
  "simulated_account ch account s =
     (if falsy account then
       (if bk_accounts s = [] then
          Inl (HTTPException 404 (''No mock accounts exist yet '' @ em_dash @ '' seed one via POST /simulate/customer first''))
        else Inr (choice ch (bk_accounts s)))
      else
       (case Option.bind (parse_uuid (the account)) (by_pk ma_id (bk_accounts s)) of
          None \<Rightarrow> Inl (HTTPException 404 ''Account not found'')
        | Some a \<Rightarrow> Inr a))"

definition simulated_row :: "chance \<Rightarrow> int \<Rightarrow> uuid \<Rightarrow> simulated_txn \<Rightarrow> mock_account \<Rightarrow> mock_txn" where
  "simulated_row ch now k x a =
     (let ty = (if falsy (sm_type x) then choice ch SAMPLE_TRANSACTION_TYPES else the (sm_type x));
          pool = (if ty = ''credit'' then INCOME_MERCHANTS else EXPENSE_MERCHANTS)
      in \<lparr>mt_id = k, mt_account = ma_id a, mt_time = case_option now id (sm_time x),
          mt_merchant = Some (if falsy (sm_merchant x) then choice ch pool else the (sm_merchant x)),
          mt_amount = case_option (random_amount ch) id (sm_amount x), mt_type = Some ty, mt_balance = None\<rparr>)"

text \<open>The row is committed before the push, which may fail; \<open>deliver\<close> is the backend's answer to it.\<close>

definition simulate_transaction ::
  "(push \<Rightarrow> 'd) \<Rightarrow> chance \<Rightarrow> int \<Rightarrow> uuid \<Rightarrow> simulated_txn \<Rightarrow> bank_ledger \<Rightarrow> (feed_txn \<times> 'd) http \<times> bank_ledger" where
  "simulate_transaction deliver ch now k x s =
     (case simulated_account ch (sm_account x) s of
        Inl e \<Rightarrow> (Inl e, s)
      | Inr a \<Rightarrow>
          let t = simulated_row ch now k x a; j = serialize_transaction t (ma_currency a)
          in (Inr (j, deliver \<lparr>push_slug = ''mock_bank'', push_account = uuid_str (ma_id a),
                push_customer = uuid_str (ma_customer a), push_transactions = [j]\<rparr>),
              s\<lparr>bk_txns := bk_txns s @ [t]\<rparr>))"

record simulated_account_spec =
  sa_bank_name :: "string option"
  sa_type :: "string option"
  sa_number :: "string option"
  sa_currency :: "string option"

definition or_default :: "string option \<Rightarrow> string \<Rightarrow> string" where
  "or_default v d = (if falsy v then d else the v)"

text \<open>\<open>numbers\<close> are the generated account numbers, \<open>keys\<close> the drawn ids.\<close>

definition simulated_accounts ::
  "int \<Rightarrow> uuid \<Rightarrow> (nat \<Rightarrow> uuid) \<Rightarrow> (nat \<Rightarrow> string) \<Rightarrow> simulated_account_spec list \<Rightarrow> mock_account list" where
  "simulated_accounts now c keys numbers specs =
     map (\<lambda>(i, x). \<lparr>ma_id = keys i, ma_customer = c, ma_bank_name = or_default (sa_bank_name x) ''Mock National Bank'',
         ma_type = Some (or_default (sa_type x) ''checking''), ma_number = Some (or_default (sa_number x) (numbers i)),
         ma_currency = or_default (sa_currency x) ''EGP'', ma_created = now\<rparr>)
       (enumerate 0 specs)"

definition simulate_customer ::
  "int \<Rightarrow> uuid \<Rightarrow> (nat \<Rightarrow> uuid) \<Rightarrow> (nat \<Rightarrow> string) \<Rightarrow> (string \<Rightarrow> string) \<Rightarrow> string \<Rightarrow> string \<Rightarrow> string \<Rightarrow> string option \<Rightarrow>
   simulated_account_spec list option \<Rightarrow> bank_ledger \<Rightarrow> mock_account list http \<times> bank_ledger" where
  "simulate_customer now c keys numbers repr bank_id email phone name specs s =
     (if \<exists>x \<in> set (bk_customers s). mc_bank_id x = bank_id then
        (Inl (HTTPException 409 (''customer_bank_id='' @ repr bank_id @ '' already exists'')), s)
      else
       (let blank = \<lparr>sa_bank_name = None, sa_type = None, sa_number = None, sa_currency = None\<rparr>;
            xs = (case specs of None \<Rightarrow> [blank] | Some ys \<Rightarrow> if ys = [] then [blank] else ys);
            as = simulated_accounts now c keys numbers xs
        in (Inr as, s\<lparr>bk_customers := bk_customers s @
              [\<lparr>mc_id = c, mc_bank_id = bank_id, mc_email = email, mc_phone = phone, mc_name = name\<rparr>],
            bk_accounts := bk_accounts s @ as\<rparr>)))"

definition delete_simulated_customer :: "string \<Rightarrow> bank_ledger \<Rightarrow> unit http \<times> bank_ledger" where
  "delete_simulated_customer bank_id s =
     (case List.find (\<lambda>c. mc_bank_id c = bank_id) (bk_customers s) of
        None \<Rightarrow> (Inl (HTTPException 404 ''Customer not found''), s)
      | Some c \<Rightarrow>
          let gone = set (map ma_id (filter (\<lambda>a. ma_customer a = mc_id c) (bk_accounts s)))
          in (Inr (), s\<lparr>bk_customers := filter (\<lambda>x. mc_id x \<noteq> mc_id c) (bk_customers s),
                 bk_accounts := filter (\<lambda>a. ma_customer a \<noteq> mc_id c) (bk_accounts s),
                 bk_txns := filter (\<lambda>t. mt_account t \<notin> gone) (bk_txns s)\<rparr>))"

subsection \<open>The provider the backend meets\<close>

text \<open>What the connector makes of the two services: the token route with the backend's own
  credentials and redirect address, and the two ledger routes with the token as bearer.
  \<open>describe\<close> words a failed call. Every account the service makes has a number.\<close>

definition feed_account_of :: "account_json \<Rightarrow> feed_account" where
  "feed_account_of j = \<lparr>fa_external_id = aj_id j, fa_bank_name = aj_bank_name j, fa_type = aj_type j,
     fa_number = case_option [] id (aj_number j), fa_currency = Some (aj_currency j)\<rparr>"

definition raw_token_of :: "token_json \<Rightarrow> raw_token" where
  "raw_token_of j = \<lparr>rt_access = Some (tj_access j), rt_refresh = Some (tj_refresh j), rt_customer = Some (tj_customer j),
     rt_email = tj_email j, rt_phone = tj_phone j, rt_name = tj_name j\<rparr>"

definition bearer :: "string option \<Rightarrow> string option" where
  "bearer tok = Some (''Bearer '' @ case_option ''None'' id tok)"

definition bank_provider ::
  "(string \<Rightarrow> string) \<Rightarrow> bank_env \<Rightarrow> decoder \<Rightarrow> rat \<Rightarrow> string \<Rightarrow> string \<Rightarrow> oauth_store \<Rightarrow> bank_ledger \<Rightarrow> provider" where
  "bank_provider describe env decode now rt redirect s b =
     \<lparr>post_token = (\<lambda>code. case fst (token_route env now rt ''authorization_code'' code redirect
            (env_client_id env) (env_client_secret env) s) of
          Token_issued j \<Rightarrow> Inr (Some (raw_token_of j))
        | Token_error e m \<Rightarrow> Inl (describe e)
        | _ \<Rightarrow> Inl (describe [])),
      fetch_accounts = (\<lambda>tok. case list_bank_accounts decode now (bearer tok) b of
          Inl (HTTPException st m) \<Rightarrow> Inl (describe m) | Inr js \<Rightarrow> Inr (map feed_account_of js)),
      fetch_transactions = (\<lambda>tok k. case list_bank_transactions decode now (bearer tok) k None b of
          Inl (HTTPException st m) \<Rightarrow> Inl (describe m) | Inr ts \<Rightarrow> Inr ts)\<rparr>"

end
