(* ===== verification/Single_Use.thy ===== *)
theory Single_Use
  imports Prelude
begin

text \<open>
  The contract of a secret that may be redeemed once: the tickets and states the backend keeps
  in Redis, and the authorization codes of the bank's login service. A history mixes
  redemptions with everything else that happens to the store.
\<close>

text \<open>What the redemptions of \<open>k\<close> yield along a history.\<close>

fun wins :: "('t \<Rightarrow> 'k \<Rightarrow> 's \<Rightarrow> 'v option \<times> 's) \<Rightarrow> ('e \<Rightarrow> 's \<Rightarrow> 's) \<Rightarrow> 'k \<Rightarrow> ('e + 't \<times> 'k) list \<Rightarrow> 's \<Rightarrow> 'v list" where
  "wins redeem step k [] s = []"
| "wins redeem step k (Inl e # es) s = wins redeem step k es (step e s)"
| "wins redeem step k (Inr (t, k') # es) s =
     (case redeem t k' s of (r, s') \<Rightarrow>
        (if k' = k then (case r of None \<Rightarrow> [] | Some v \<Rightarrow> [v]) else []) @ wins redeem step k es s')"

locale single_use =
  fixes redeem :: "'t \<Rightarrow> 'k \<Rightarrow> 's \<Rightarrow> 'v option \<times> 's"
    and step :: "'e \<Rightarrow> 's \<Rightarrow> 's"
    and live :: "'k \<Rightarrow> 's \<Rightarrow> bool"
    and mints :: "'k \<Rightarrow> 'e \<Rightarrow> bool"
  assumes redeem_live: "redeem t k s = (Some v, s') \<Longrightarrow> live k s"
    and redeem_spends: "redeem t k s = (Some v, s') \<Longrightarrow> \<not> live k s'"
    and redeem_dead: "\<not> live k s \<Longrightarrow> redeem t k' s = (r, s') \<Longrightarrow> \<not> live k s'"
    and step_dead: "\<not> live k s \<Longrightarrow> \<not> mints k e \<Longrightarrow> \<not> live k (step e s)"
begin

lemma dead_stays:
  "\<not> live k s \<Longrightarrow> \<forall>e. Inl e \<in> set es \<longrightarrow> \<not> mints k e \<Longrightarrow> wins redeem step k es s = []"
proof (induction es arbitrary: s)
  case (Cons x es)
  show ?case
  proof (cases x)
    case (Inl e)
    with Cons show ?thesis by (simp add: step_dead)
  next
    case (Inr tk)
    obtain t k' where tk: "tk = (t, k')" by (cases tk)
    obtain r s' where r: "redeem t k' s = (r, s')" by fastforce
    have "r = None" if "k' = k" using redeem_live [of t k s] r that Cons.prems(1) by (cases r) auto
    moreover have "\<not> live k s'" using redeem_dead [OF Cons.prems(1) r] .
    ultimately show ?thesis using Cons Inr tk r by auto
  qed
qed simp

lemma unminted_once:
  "\<forall>e. Inl e \<in> set es \<longrightarrow> \<not> mints k e \<Longrightarrow> length (wins redeem step k es s) \<le> 1"
proof (induction es arbitrary: s)
  case (Cons x es)
  show ?case
  proof (cases x)
    case (Inl e)
    with Cons show ?thesis by simp
  next
    case (Inr tk)
    obtain t k' where tk: "tk = (t, k')" by (cases tk)
    obtain r s' where r: "redeem t k' s = (r, s')" by fastforce
    show ?thesis
    proof (cases "k' = k \<and> r \<noteq> None")
      case True
      then obtain v where "redeem t k s = (Some v, s')" using r by auto
      then have "\<not> live k s'" by (rule redeem_spends)
      then have "wins redeem step k es s' = []" using Cons.prems by (intro dead_stays) auto
      with True Inr tk r show ?thesis by (auto split: option.split)
    next
      case False
      then show ?thesis using Cons Inr tk r by (auto split: option.split)
    qed
  qed
qed simp

lemma once:
  "\<not> live k s \<Longrightarrow> length (filter (\<lambda>x. case x of Inl e \<Rightarrow> mints k e | Inr u \<Rightarrow> False) es) \<le> 1 \<Longrightarrow>
   length (wins redeem step k es s) \<le> 1"
proof (induction es arbitrary: s)
  case (Cons x es)
  show ?case
  proof (cases x)
    case (Inl e)
    show ?thesis
    proof (cases "mints k e")
      case True
      then have "filter (\<lambda>x. case x of Inl e \<Rightarrow> mints k e | Inr u \<Rightarrow> False) es = []" using Cons.prems(2) Inl by simp
      then have "\<forall>e. Inl e \<in> set es \<longrightarrow> \<not> mints k e" by (auto simp: filter_empty_conv)
      then show ?thesis using unminted_once Inl by simp
    next
      case False
      with Cons Inl show ?thesis by (simp add: step_dead)
    qed
  next
    case (Inr tk)
    obtain t k' where tk: "tk = (t, k')" by (cases tk)
    obtain r s' where r: "redeem t k' s = (r, s')" by fastforce
    have "r = None" if "k' = k" using redeem_live [of t k s] r that Cons.prems(1) by (cases r) auto
    moreover have "\<not> live k s'" using redeem_dead [OF Cons.prems(1) r] .
    ultimately show ?thesis using Cons Inr tk r by auto
  qed
qed simp

end

end
