(* ===== verification/Oauth_Laws.thy ===== *)
theory Oauth_Laws
  imports Oauth Single_Use
begin

text \<open>
  What the bank's login service guarantees over any history of requests: every token goes back
  to a code sent to the customer's own mailbox, and a code yields one token.
\<close>

subsection \<open>The chain behind a token\<close>

definition asked :: "oauth_log \<Rightarrow> rat \<Rightarrow> string \<Rightarrow> string \<Rightarrow> string \<Rightarrow> bool" where
  "asked hist t k client redirect \<longleftrightarrow>
     (\<exists>st. ((t, Authorize k client redirect ''code'' st), Customer_form k) \<in> set hist)"

text \<open>An OTP was drawn for the customer the directory names, and mailed (or its mailing failed).\<close>

definition mailed :: "bank_env \<Rightarrow> oauth_log \<Rightarrow> rat \<Rightarrow> string \<Rightarrow> string \<Rightarrow> string \<Rightarrow> string \<Rightarrow> bool" where
  "mailed env hist t k otp customer email \<longleftrightarrow>
     (\<exists>n bank p phone name. ((t, Login_start n k bank), p) \<in> set hist \<and> otp = otp_text n \<and>
        env_lookup env bank = Customer (Some customer) (Some email) (Some phone) name \<and>
        (p = Otp_form k \<or> env_send env email otp \<noteq> None))"

definition verified :: "oauth_log \<Rightarrow> rat \<Rightarrow> string \<Rightarrow> string \<Rightarrow> string \<Rightarrow> bool" where
  "verified hist t code k otp \<longleftrightarrow>
     (\<exists>typed url. ((t, Login_verify code k typed), Redirect_to url) \<in> set hist \<and> str_strip typed = otp)"

lemma hist_mono:
  assumes "set hist \<subseteq> set hist'"
  shows "asked hist t k c r \<Longrightarrow> asked hist' t k c r"
    and "mailed env hist t k otp cu e \<Longrightarrow> mailed env hist' t k otp cu e"
    and "verified hist t code k otp \<Longrightarrow> verified hist' t code k otp"
  using assms by (auto simp: asked_def mailed_def verified_def) blast+

definition challenge_ok :: "bank_env \<Rightarrow> oauth_log \<Rightarrow> string \<Rightarrow> challenge \<Rightarrow> bool" where
  "challenge_ok env hist k c \<longleftrightarrow>
     (\<exists>t. asked hist t k (ch_client c) (ch_redirect c) \<and> ch_expires c = t + CHALLENGE_TTL_SECONDS) \<and>
     (\<forall>otp. ch_otp c = Some otp \<longrightarrow> (\<exists>t cu e. mailed env hist t k otp cu e \<and> ch_customer c = Some cu \<and>
        ch_email c = Some e \<and> ch_otp_expires c = Some (t + OTP_TTL_SECONDS)))"

definition login_chain :: "bank_env \<Rightarrow> oauth_log \<Rightarrow> string \<Rightarrow> string \<Rightarrow> string \<Rightarrow> string \<Rightarrow> string \<Rightarrow> rat \<Rightarrow> bool" where
  "login_chain env hist code client redirect customer email t \<longleftrightarrow>
     (\<exists>k otp t0 t1. asked hist t0 k client redirect \<and> mailed env hist t1 k otp customer email \<and>
        verified hist t code k otp \<and> t \<le> t0 + CHALLENGE_TTL_SECONDS \<and> t \<le> t1 + OTP_TTL_SECONDS)"

definition code_ok :: "bank_env \<Rightarrow> oauth_log \<Rightarrow> string \<Rightarrow> auth_code \<Rightarrow> bool" where
  "code_ok env hist code r \<longleftrightarrow>
     (\<exists>t e. login_chain env hist code (ac_client r) (ac_redirect r) (ac_customer r) e t \<and> ac_email r = Some e \<and>
        ac_expires r = t + AUTH_CODE_TTL_SECONDS)"

definition store_ok :: "bank_env \<Rightarrow> oauth_log \<Rightarrow> oauth_store \<Rightarrow> bool" where
  "store_ok env hist s \<longleftrightarrow> (\<forall>k c. challenges s k = Some c \<longrightarrow> challenge_ok env hist k c) \<and>
     (\<forall>code r. auth_codes s code = Some r \<longrightarrow> code_ok env hist code r)"

lemma challenge_ok_mono: "set hist \<subseteq> set hist' \<Longrightarrow> challenge_ok env hist k c \<Longrightarrow> challenge_ok env hist' k c"
  unfolding challenge_ok_def using hist_mono by metis

lemma login_chain_mono:
  "set hist \<subseteq> set hist' \<Longrightarrow> login_chain env hist code cl r cu e t \<Longrightarrow> login_chain env hist' code cl r cu e t"
  unfolding login_chain_def using hist_mono by metis

lemma code_ok_mono: "set hist \<subseteq> set hist' \<Longrightarrow> code_ok env hist code r \<Longrightarrow> code_ok env hist' code r"
  unfolding code_ok_def using login_chain_mono by metis

lemma store_ok_mono: "set hist \<subseteq> set hist' \<Longrightarrow> store_ok env hist s \<Longrightarrow> store_ok env hist' s"
  unfolding store_ok_def using challenge_ok_mono code_ok_mono by metis

lemma get_challenge_cases:
  assumes "get_challenge now k s = (r, s')" "store_ok env hist s"
  shows "store_ok env hist s'" "r = Some c \<Longrightarrow> s' = s \<and> challenges s k = Some c \<and> now \<le> ch_expires c"
  using assms
  by (auto simp: get_challenge_def store_ok_def challenge_is_expired_def split: option.splits if_splits)

subsection \<open>Each route keeps it\<close>

lemma authorize_ok:
  assumes "store_ok env hist s" "authorize env now k client redirect ty st s = (p, s')"
  shows "store_ok env (hist @ [((now, Authorize k client redirect ty st), p)]) s'"
proof -
  have m: "store_ok env (hist @ [((now, Authorize k client redirect ty st), p)]) s"
    using assms(1) by (rule store_ok_mono [rotated]) auto
  show ?thesis
  proof (cases "s' = s")
    case True with m show ?thesis by simp
  next
    case False
    then have e: "ty = ''code''" "p = Customer_form k" "s' = create_challenge now k client redirect st s"
      using assms(2) by (auto simp: authorize_def split: if_splits)
    have "asked (hist @ [((now, Authorize k client redirect ty st), p)]) now k client redirect"
      by (auto simp: asked_def e)
    with m show ?thesis
      unfolding e(3) store_ok_def create_challenge_def by (auto simp: challenge_ok_def)
  qed
qed

lemma with_otp_simps [simp]:
  "ch_client (with_otp now cu e p nm otp c) = ch_client c" "ch_redirect (with_otp now cu e p nm otp c) = ch_redirect c"
  "ch_expires (with_otp now cu e p nm otp c) = ch_expires c" "ch_otp (with_otp now cu e p nm otp c) = Some otp"
  "ch_customer (with_otp now cu e p nm otp c) = Some cu" "ch_email (with_otp now cu e p nm otp c) = Some e"
  "ch_otp_expires (with_otp now cu e p nm otp c) = Some (now + OTP_TTL_SECONDS)"
  by (simp_all add: with_otp_def)

text \<open>A challenge that changes gets an OTP for the customer of the directory.\<close>

lemma login_start_cases:
  assumes "login_start env now n k bank s = (p, s')"
  obtains "s' = snd (get_challenge now k s)"
  | c cu e ph nm where "get_challenge now k s = (Some c, s)" "challenges s k = Some c"
      "env_lookup env bank = Customer (Some cu) (Some e) (Some ph) nm"
      "p = Otp_form k \<or> env_send env e (otp_text n) \<noteq> None"
      "s' = s\<lparr>challenges := (challenges s)(k \<mapsto> with_otp now cu e ph nm (otp_text n) c)\<rparr>"
proof -
  obtain r s1 where g: "get_challenge now k s = (r, s1)" by fastforce
  show thesis
  proof (cases r)
    case None
    then show ?thesis using assms g that(1) by (simp add: login_start_def)
  next
    case (Some c)
    then have s1: "s1 = s" "challenges s k = Some c"
      using g by (auto simp: get_challenge_def split: option.splits if_splits)
    show ?thesis
    proof (cases "str_strip bank = []")
      case True
      then show ?thesis using assms g Some that(1) by (simp add: login_start_def)
    next
      case False
      show ?thesis
      proof (cases "env_lookup env bank")
        case (Customer cu e ph nm)
        show ?thesis
        proof (cases "falsy cu \<or> falsy e \<or> falsy ph")
          case True
          then show ?thesis using assms g Some False Customer that(1) by (simp add: login_start_def)
        next
          case nf: False
          then obtain cu' e' ph' where v: "cu = Some cu'" "e = Some e'" "ph = Some ph'" by (auto simp: falsy_def)
          show ?thesis
          proof (rule that(2) [of c cu' e' ph' nm])
            show "get_challenge now k s = (Some c, s)" using g Some s1 by simp
            show "p = Otp_form k \<or> env_send env e' (otp_text n) \<noteq> None"
              using assms g Some False Customer nf v s1
              by (auto simp: login_start_def set_challenge_otp_def split: option.splits)
            show "s' = s\<lparr>challenges := (challenges s)(k \<mapsto> with_otp now cu' e' ph' nm (otp_text n) c)\<rparr>"
              using assms g Some False Customer nf v s1
              by (auto simp: login_start_def set_challenge_otp_def split: option.splits)
          qed (use s1 Customer v in simp_all)
        qed
      qed (use assms g Some False that(1) in \<open>simp_all add: login_start_def\<close>)
    qed
  qed
qed

lemma login_start_ok:
  assumes "store_ok env hist s" "login_start env now n k bank s = (p, s')"
  shows "store_ok env (hist @ [((now, Login_start n k bank), p)]) s'"
  using assms(2)
proof (cases rule: login_start_cases)
  case 1
  have "store_ok env hist s'"
    unfolding 1 using get_challenge_cases(1) [OF surjective_pairing assms(1)] .
  then show ?thesis by (rule store_ok_mono [rotated]) auto
next
  case (2 c cu e ph nm)
  let ?hist = "hist @ [((now, Login_start n k bank), p)]"
  have m: "store_ok env ?hist s" using assms(1) by (rule store_ok_mono [rotated]) auto
  have "mailed env ?hist now k (otp_text n) cu e"
    unfolding mailed_def
    by (intro exI [of _ n] exI [of _ bank] exI [of _ p] exI [of _ ph] exI [of _ nm]) (use 2(3,4) in simp)
  moreover have "challenge_ok env ?hist k c" using m 2(2) by (simp add: store_ok_def)
  ultimately have "challenge_ok env ?hist k (with_otp now cu e ph nm (otp_text n) c)"
    by (auto simp: challenge_ok_def)
  with m show ?thesis unfolding 2(5) by (simp add: store_ok_def)
qed

lemma login_verify_cases:
  assumes "login_verify now code k typed s = (p, s')"
  obtains "s' = snd (get_challenge now k s)"
  | c otp cu url where "get_challenge now k s = (Some c, s)" "challenges s k = Some c" "now \<le> ch_expires c"
      "ch_otp c = Some otp" "ch_customer c = Some cu" "\<not> otp_is_expired now c" "str_strip typed = otp" "p = Redirect_to url"
      "s' = snd (pop_challenge k (create_authorization_code now code (ch_client c) (ch_redirect c) cu
              (ch_email c) (ch_phone c) (ch_name c) s))"
proof -
  obtain r s1 where g: "get_challenge now k s = (r, s1)" by fastforce
  show thesis
  proof (cases r)
    case None
    then show ?thesis using assms g that(1) by (simp add: login_verify_def)
  next
    case (Some c)
    then have s1: "s1 = s" "challenges s k = Some c" "now \<le> ch_expires c"
      using g by (auto simp: get_challenge_def challenge_is_expired_def split: option.splits if_splits)
    show ?thesis
    proof (cases "\<exists>o' cu ph. ch_otp c = Some o' \<and> ch_customer c = Some cu \<and> ch_phone c = Some ph \<and>
        \<not> otp_is_expired now c \<and> str_strip typed = o'")
      case True
      then obtain o' cu ph where v: "ch_otp c = Some o'" "ch_customer c = Some cu" "ch_phone c = Some ph"
        "\<not> otp_is_expired now c" "str_strip typed = o'" by blast
      show ?thesis
      proof (rule that(2) [of c o' cu])
        show "p = Redirect_to (redirect_url (ch_redirect c) code (ch_state c))"
          "s' = snd (pop_challenge k (create_authorization_code now code (ch_client c) (ch_redirect c) cu
              (ch_email c) (ch_phone c) (ch_name c) s))"
          using assms g Some s1(1) v by (simp_all add: login_verify_def)
      qed (use g Some s1 v in simp_all)
    next
      case False
      then have "s' = s1" using assms g Some by (auto simp: login_verify_def split: option.splits if_splits)
      then show ?thesis using that(1) g by simp
    qed
  qed
qed

lemma login_verify_ok:
  assumes "store_ok env hist s" "login_verify now code k typed s = (p, s')"
  shows "store_ok env (hist @ [((now, Login_verify code k typed), p)]) s'"
  using assms(2)
proof (cases rule: login_verify_cases)
  case 1
  have "store_ok env hist s'"
    unfolding 1 using get_challenge_cases(1) [OF surjective_pairing assms(1)] .
  then show ?thesis by (rule store_ok_mono [rotated]) auto
next
  case (2 c otp cu url)
  let ?hist = "hist @ [((now, Login_verify code k typed), p)]"
  have m: "store_ok env ?hist s" using assms(1) by (rule store_ok_mono [rotated]) auto
  then have ok: "challenge_ok env ?hist k c" using 2(2) by (simp add: store_ok_def)
  then obtain t0 where t0: "asked ?hist t0 k (ch_client c) (ch_redirect c)" "ch_expires c = t0 + CHALLENGE_TTL_SECONDS"
    by (auto simp: challenge_ok_def)
  from ok 2(4) obtain t1 cu' e where t1: "mailed env ?hist t1 k otp cu' e" "ch_customer c = Some cu'"
    "ch_email c = Some e" "ch_otp_expires c = Some (t1 + OTP_TTL_SECONDS)"
    unfolding challenge_ok_def by blast
  have "verified ?hist now code k otp" using 2(7,8) by (auto simp: verified_def)
  moreover have "now \<le> t1 + OTP_TTL_SECONDS" using 2(6) t1(4) by (simp add: otp_is_expired_def)
  ultimately have "login_chain env ?hist code (ch_client c) (ch_redirect c) cu e now"
    unfolding login_chain_def using t0 t1(1,2) 2(3,5)
    by (intro exI [of _ k] exI [of _ otp] exI [of _ t0] exI [of _ t1]) simp
  with m t1(3) show ?thesis unfolding 2(9)
    by (auto simp: store_ok_def pop_challenge_def create_authorization_code_def code_ok_def)
qed

lemma token_route_cases:
  assumes "token_route env now rt grant code redirect client secret s = (p, s')"
  obtains "s' = s" "\<forall>j. p \<noteq> Token_issued j"
  | r where "auth_codes s code = Some r" "\<not> ac_used r" "\<not> code_is_expired now r" "\<forall>j. p \<noteq> Token_issued j"
      "s' = s\<lparr>auth_codes := (auth_codes s)(code \<mapsto> r\<lparr>ac_used := True\<rparr>)\<rparr>"
  | r j where "auth_codes s code = Some r" "\<not> ac_used r" "\<not> code_is_expired now r" "p = Token_issued j"
      "ac_redirect r = redirect" "ac_client r = client" "tj_customer j = ac_customer r" "tj_email j = ac_email r"
      "s' = create_refresh_token rt client (ac_customer r)
              (s\<lparr>auth_codes := (auth_codes s)(code \<mapsto> r\<lparr>ac_used := True\<rparr>)\<rparr>)"
proof (cases "grant = ''authorization_code'' \<and> validate_client env client secret")
  case False
  then show ?thesis using assms that(1) by (auto simp: token_route_def split: if_splits)
next
  case g: True
  show ?thesis
  proof (cases "auth_codes s code")
    case None
    then show ?thesis using assms g that(1) by (auto simp: token_route_def consume_authorization_code_def)
  next
    case (Some r)
    show ?thesis
    proof (cases "ac_used r \<or> code_is_expired now r")
      case True
      then show ?thesis using assms g Some that(1) by (auto simp: token_route_def consume_authorization_code_def)
    next
      case u: False
      show ?thesis
      proof (cases "ac_redirect r = redirect \<and> ac_client r = client")
        case True
        have "p = Token_issued \<lparr>tj_access = issue_access_token env now (ac_customer r),
            tj_expires = ACCESS_TOKEN_TTL_SECONDS, tj_refresh = rt, tj_customer = ac_customer r, tj_email = ac_email r,
            tj_phone = ac_phone r, tj_name = ac_name r\<rparr>" (is "p = Token_issued ?j")
          "s' = create_refresh_token rt client (ac_customer r)
              (s\<lparr>auth_codes := (auth_codes s)(code \<mapsto> r\<lparr>ac_used := True\<rparr>)\<rparr>)"
          using assms g Some u True by (auto simp: token_route_def consume_authorization_code_def)
        then show ?thesis using that(3) [of r ?j] Some u True by simp
      next
        case False
        show ?thesis by (rule that(2) [of r]) (use assms g Some u False in
            \<open>auto simp: token_route_def consume_authorization_code_def\<close>)
      qed
    qed
  qed
qed

lemma token_route_ok:
  assumes "store_ok env hist s" "token_route env now rt grant code redirect client secret s = (p, s')"
  shows "store_ok env (hist @ [((now, Token_call rt grant code redirect client secret), p)]) s'"
proof -
  have m: "store_ok env (hist @ [((now, Token_call rt grant code redirect client secret), p)]) s"
    using assms(1) by (rule store_ok_mono [rotated]) auto
  show ?thesis
    using assms(2)
  proof (cases rule: token_route_cases)
    case 1 with m show ?thesis by simp
  next
    case (2 r) with m show ?thesis by (auto simp: store_ok_def code_ok_def)
  next
    case (3 r j) with m show ?thesis by (auto simp: store_ok_def code_ok_def create_refresh_token_def)
  qed
qed

lemma oauth_step_ok:
  "store_ok env hist s \<Longrightarrow> oauth_step env c s = (p, s') \<Longrightarrow> store_ok env (hist @ [(c, p)]) s'"
  by (cases c rule: oauth_step.cases [of "(env, c, s)" for c s])
    (auto intro: authorize_ok login_start_ok login_verify_ok token_route_ok)


subsection \<open>Every token has a chain\<close>

definition issued_ok :: "bank_env \<Rightarrow> oauth_log \<Rightarrow> bool" where
  "issued_ok env hist \<longleftrightarrow>
     (\<forall>i < length hist. \<forall>t rt grant code redirect client secret j.
        hist ! i = ((t, Token_call rt grant code redirect client secret), Token_issued j) \<longrightarrow>
        (\<exists>e t'. tj_email j = Some e \<and> t \<le> t' + AUTH_CODE_TTL_SECONDS \<and>
           login_chain env (take i hist) code client redirect (tj_customer j) e t'))"

lemma token_has_chain:
  assumes "store_ok env hist s" "token_route env t rt grant code redirect client secret s = (Token_issued j, s')"
  shows "\<exists>e t'. tj_email j = Some e \<and> t \<le> t' + AUTH_CODE_TTL_SECONDS \<and>
    login_chain env hist code client redirect (tj_customer j) e t'"
  using assms(2)
proof (cases rule: token_route_cases)
  case (3 r j')
  then have "code_ok env hist code r" using assms(1) by (simp add: store_ok_def)
  then obtain t' e where c: "login_chain env hist code (ac_client r) (ac_redirect r) (ac_customer r) e t'"
    "ac_email r = Some e" "ac_expires r = t' + AUTH_CODE_TTL_SECONDS" by (auto simp: code_ok_def)
  with 3 have "t \<le> t' + AUTH_CODE_TTL_SECONDS" by (simp add: code_is_expired_def)
  with c 3 show ?thesis by (intro exI [of _ e] exI [of _ t']) simp
qed simp_all

lemma oauth_run_snoc: "oauth_run env (cs @ [c]) = oauth_serve env c (oauth_run env cs)"
  by (simp add: oauth_run_def)

lemma oauth_run_ok: "store_ok env (fst (oauth_run env cs)) (snd (oauth_run env cs)) \<and> issued_ok env (fst (oauth_run env cs))"
proof (induction cs rule: rev_induct)
  case Nil
  show ?case by (simp add: oauth_run_def store_ok_def issued_ok_def)
next
  case (snoc c cs)
  obtain hist s where run: "oauth_run env cs = (hist, s)" by fastforce
  obtain p s' where step: "oauth_step env c s = (p, s')" by fastforce
  have ok: "store_ok env hist s" "issued_ok env hist" using snoc run by simp_all
  have "issued_ok env (hist @ [(c, p)])"
    unfolding issued_ok_def
  proof (intro allI impI)
    fix i t rt grant code redirect client secret j
    assume i: "i < length (hist @ [(c, p)])"
      and e: "(hist @ [(c, p)]) ! i = ((t, Token_call rt grant code redirect client secret), Token_issued j)"
    show "\<exists>e t'. tj_email j = Some e \<and> t \<le> t' + AUTH_CODE_TTL_SECONDS \<and>
       login_chain env (take i (hist @ [(c, p)])) code client redirect (tj_customer j) e t'"
    proof (cases "i < length hist")
      case True
      with e have "hist ! i = ((t, Token_call rt grant code redirect client secret), Token_issued j)"
        by (simp add: nth_append)
      with ok(2) True show ?thesis unfolding issued_ok_def by simp
    next
      case False
      with i have l: "i = length hist" by simp
      with e step have "token_route env t rt grant code redirect client secret s = (Token_issued j, s')" by simp
      from token_has_chain [OF ok(1) this] l show ?thesis by simp
    qed
  qed
  moreover have "store_ok env (hist @ [(c, p)]) s'" using ok(1) step by (rule oauth_step_ok)
  ultimately show ?case using run step by (simp add: oauth_run_snoc oauth_serve_def)
qed


subsection \<open>One token per code\<close>

definition redeem_code ::
  "bank_env \<Rightarrow> rat \<times> string \<times> string \<times> string \<times> string \<times> string \<Rightarrow> string \<Rightarrow> oauth_store \<Rightarrow> token_json option \<times> oauth_store" where
  "redeem_code env x code s =
     (case x of (t, rt, grant, redirect, client, secret) \<Rightarrow>
        (case token_route env t rt grant code redirect client secret s of
           (Token_issued j, s') \<Rightarrow> (Some j, s')
         | (_, s') \<Rightarrow> (None, s')))"

definition other_step :: "bank_env \<Rightarrow> rat \<times> oauth_call \<Rightarrow> oauth_store \<Rightarrow> oauth_store" where
  "other_step env c s = snd (oauth_step env c s)"

definition live_code :: "string \<Rightarrow> oauth_store \<Rightarrow> bool" where
  "live_code code s \<longleftrightarrow> (\<exists>r. auth_codes s code = Some r \<and> \<not> ac_used r)"

definition draws_code :: "string \<Rightarrow> rat \<times> oauth_call \<Rightarrow> bool" where
  "draws_code code c \<longleftrightarrow> (\<exists>k typed. snd c = Login_verify code k typed)"

lemma redeem_code_cases:
  assumes "redeem_code env x code s = (v, s')"
  obtains "auth_codes s' = auth_codes s" "v = None"
  | r where "auth_codes s code = Some r" "\<not> ac_used r" "auth_codes s' = (auth_codes s)(code \<mapsto> r\<lparr>ac_used := True\<rparr>)"
proof -
  obtain t rt grant redirect client secret where x: "x = (t, rt, grant, redirect, client, secret)" by (metis prod_cases6)
  obtain p s2 where tr: "token_route env t rt grant code redirect client secret s = (p, s2)" by fastforce
  have s2: "s' = s2" "v = (case p of Token_issued j \<Rightarrow> Some j | _ \<Rightarrow> None)"
    using assms x tr by (auto simp: redeem_code_def split: oauth_page.splits)
  show thesis
    using tr
  proof (cases rule: token_route_cases)
    case 1 then show ?thesis using that(1) s2 by (simp split: oauth_page.splits)
  next
    case (2 r) then show ?thesis using that(2) s2 by simp
  next
    case (3 r j) then show ?thesis using that(2) s2 by (simp add: create_refresh_token_def)
  qed
qed

lemma get_challenge_codes [simp]: "auth_codes (snd (get_challenge now k s)) = auth_codes s"
  by (simp add: get_challenge_def split: option.split)

lemma other_step_dead:
  assumes "\<not> live_code code s" "\<not> draws_code code c"
  shows "\<not> live_code code (other_step env c s)"
proof -
  obtain now call where c: "c = (now, call)" by (cases c)
  show ?thesis
  proof (cases call)
    case (Authorize k client redirect ty st)
    then show ?thesis using assms c
      by (simp add: other_step_def authorize_def create_challenge_def live_code_def)
  next
    case (Login_start n k bank)
    obtain p s' where l: "login_start env now n k bank s = (p, s')" by fastforce
    then have "auth_codes s' = auth_codes s" by (cases rule: login_start_cases) simp_all
    then show ?thesis using assms(1) c Login_start l by (simp add: other_step_def live_code_def)
  next
    case (Login_verify code' k typed)
    obtain p s' where l: "login_verify now code' k typed s = (p, s')" by fastforce
    have ne: "code' \<noteq> code" using assms(2) c Login_verify by (auto simp: draws_code_def)
    have "auth_codes s' code = auth_codes s code"
      using l ne by (cases rule: login_verify_cases) (simp_all add: pop_challenge_def create_authorization_code_def)
    then show ?thesis using assms(1) c Login_verify l by (simp add: other_step_def live_code_def)
  next
    case (Token_call rt grant code' redirect client secret)
    obtain p s' where l: "token_route env now rt grant code' redirect client secret s = (p, s')" by fastforce
    then have "\<not> live_code code s'"
      using assms(1) by (cases rule: token_route_cases) (auto simp: live_code_def create_refresh_token_def)
    then show ?thesis using c Token_call l by (simp add: other_step_def)
  qed
qed

interpretation codes: single_use "redeem_code env" "other_step env" live_code draws_code
proof
  fix x code s v s'
  assume r: "redeem_code env x code s = (Some v, s')"
  then show "live_code code s" by (cases rule: redeem_code_cases) (auto simp: live_code_def)
  show "\<not> live_code code s'" using r by (cases rule: redeem_code_cases) (auto simp: live_code_def)
next
  fix code s x code' r s'
  assume d: "\<not> live_code code s" and r: "redeem_code env x code' s = (r, s')"
  show "\<not> live_code code s'" using r d by (cases rule: redeem_code_cases) (auto simp: live_code_def)
qed (rule other_step_dead)


definition history_event ::
  "rat \<times> oauth_call \<Rightarrow> (rat \<times> oauth_call) + (rat \<times> string \<times> string \<times> string \<times> string \<times> string) \<times> string" where
  "history_event c = (case snd c of
       Token_call rt grant code redirect client secret \<Rightarrow> Inr ((fst c, rt, grant, redirect, client, secret), code)
     | _ \<Rightarrow> Inl c)"

definition issued_for :: "string \<Rightarrow> (rat \<times> oauth_call) \<times> oauth_page \<Rightarrow> bool" where
  "issued_for code x \<longleftrightarrow>
     (\<exists>t rt grant redirect client secret j. x = ((t, Token_call rt grant code redirect client secret), Token_issued j))"

lemma wins_in_log:
  "length (filter (issued_for code) (fst (fold (oauth_serve env) cs (h, s)))) =
   length (filter (issued_for code) h) + length (wins (redeem_code env) (other_step env) code (map history_event cs) s)"
proof (induction cs arbitrary: h s)
  case (Cons c cs)
  obtain t call where c: "c = (t, call)" by (cases c)
  obtain p s' where st: "oauth_step env c s = (p, s')" by fastforce
  have f: "fst (fold (oauth_serve env) (c # cs) (h, s)) = fst (fold (oauth_serve env) cs (h @ [(c, p)], s'))"
    using st by (simp add: oauth_serve_def)
  show ?case
  proof (cases "\<exists>rt grant code' redirect client secret. call = Token_call rt grant code' redirect client secret")
    case True
    then obtain rt grant code' redirect client secret
      where call: "call = Token_call rt grant code' redirect client secret" by blast
    have "redeem_code env (t, rt, grant, redirect, client, secret) code' s =
        ((case p of Token_issued j \<Rightarrow> Some j | _ \<Rightarrow> None), s')"
      using st c call by (simp add: redeem_code_def split: oauth_page.split)
    moreover have "issued_for code (c, p) \<longleftrightarrow> code' = code \<and> (\<exists>j. p = Token_issued j)"
      using c call by (auto simp: issued_for_def)
    moreover have "history_event c = Inr ((t, rt, grant, redirect, client, secret), code')"
      using c call by (simp add: history_event_def)
    ultimately show ?thesis unfolding f Cons.IH by (cases p) auto
  next
    case False
    then have "history_event c = Inl c" "\<not> issued_for code (c, p)"
      using c by (auto simp: history_event_def issued_for_def split: oauth_call.split)
    moreover have "other_step env c s = s'" using st by (simp add: other_step_def)
    ultimately show ?thesis unfolding f Cons.IH by simp
  qed
qed simp

text \<open>However requests interleave, an authorization code yields at most one token, even when
  the same code is presented again, by the client or by anybody else.\<close>

theorem code_yields_one_token:
  assumes "length (filter (draws_code code) cs) \<le> 1"
  shows "length (filter (issued_for code) (fst (oauth_run env cs))) \<le> 1"
proof -
  have "filter (\<lambda>x. case x of Inl e \<Rightarrow> draws_code code e | Inr u \<Rightarrow> False) (map history_event cs) =
      map history_event (filter (draws_code code) cs)"
    by (induction cs) (auto simp: history_event_def draws_code_def split: oauth_call.splits)
  then show ?thesis
    using codes.once [of code _ "map history_event cs" env] assms
    unfolding oauth_run_def wins_in_log by (simp add: live_code_def)
qed


subsection \<open>A login\<close>

definition sample_bank :: bank_env where
  "sample_bank = \<lparr>env_client_id = ''nbe'', env_client_secret = ''s'', env_redirects = [],
     env_lookup = (\<lambda>b. if b = ''7'' then Customer (Some ''c1'') (Some ''m@b.eg'') (Some ''+20'') None else No_customer),
     env_send = (\<lambda>to otp. None), env_sign = (\<lambda>sub iat exp. sub)\<rparr>"

definition sample_login :: "(rat \<times> oauth_call) list" where
  "sample_login =
     [(0, Authorize ''k'' ''nbe'' ''app'' ''code'' None), (1, Login_start 7 ''k'' ''7''),
      (2, Login_verify ''x'' ''k'' ''000007''), (3, Token_call ''r'' ''authorization_code'' ''x'' ''app'' ''nbe'' ''s''),
      (4, Token_call ''r2'' ''authorization_code'' ''x'' ''app'' ''nbe'' ''s'')]"

definition sample_token :: token_json where
  "sample_token = \<lparr>tj_access = ''c1'', tj_expires = 3600, tj_refresh = ''r'', tj_customer = ''c1'',
     tj_email = Some ''m@b.eg'', tj_phone = Some ''+20'', tj_name = None\<rparr>"

lemma sample_texts: "otp_text 7 = ''000007''" "str_strip ''000007'' = ''000007''" "str_strip ''7'' = ''7''"
  "redirect_url ''app'' ''x'' None = ''app?code=x''"
  by code_simp+

lemma sample_run:
  "fst (oauth_run sample_bank sample_login) =
     [((0, Authorize ''k'' ''nbe'' ''app'' ''code'' None), Customer_form ''k''),
      ((1, Login_start 7 ''k'' ''7''), Otp_form ''k''),
      ((2, Login_verify ''x'' ''k'' ''000007''), Redirect_to ''app?code=x''),
      ((3, Token_call ''r'' ''authorization_code'' ''x'' ''app'' ''nbe'' ''s''), Token_issued sample_token),
      ((4, Token_call ''r2'' ''authorization_code'' ''x'' ''app'' ''nbe'' ''s''),
       Token_error ''invalid_grant'' ''The authorization code is invalid, expired, or already used.'')]"
  unfolding oauth_run_def sample_login_def
  by (simp add: oauth_serve_def authorize_def create_challenge_def login_start_def get_challenge_def
      challenge_is_expired_def set_challenge_otp_def with_otp_def login_verify_def otp_is_expired_def
      pop_challenge_def create_authorization_code_def token_route_def validate_client_def consume_authorization_code_def
      code_is_expired_def create_refresh_token_def issue_access_token_def sample_bank_def sample_texts falsy_def
      sample_token_def CHALLENGE_TTL_SECONDS_def OTP_TTL_SECONDS_def AUTH_CODE_TTL_SECONDS_def ACCESS_TOKEN_TTL_SECONDS_def)


theorem code_yields_one_token_witness:
  "length (filter (issued_for ''x'') (fst (oauth_run sample_bank sample_login))) \<le> 1"
proof -
  have "length (filter (draws_code ''x'') sample_login) \<le> 1"
    by (simp add: sample_login_def draws_code_def)
  then show ?thesis by (rule code_yields_one_token)
qed

end
