(* ===== verification/Bank_Link.thy ===== *)
theory Bank_Link
  imports Bank_Ledger Oauth_Laws Sync_Laws "HOL-Library.Countable"
begin

text \<open>
  The backend linked to the bank: UUIDs survive the trip through text, a token issued by the
  login service opens exactly its customer's accounts at the ledger service, and the callback
  lands those.
\<close>

subsection \<open>UUIDs read back\<close>

lemma hex_digit_value: "n < 16 \<Longrightarrow> hex_value (''0123456789abcdef'' ! n) = Some n"
proof -
  have "\<forall>n \<in> {..<16}. hex_value (''0123456789abcdef'' ! n) = Some n" by code_simp
  then show "n < 16 \<Longrightarrow> hex_value (''0123456789abcdef'' ! n) = Some n" by simp
qed

definition hex_char :: "char \<Rightarrow> bool" where
  "hex_char c \<longleftrightarrow> c \<in> set ''0123456789abcdef''"

lemma hex_digits_chars: "list_all hex_char (hex_digits w n)"
proof (induction w arbitrary: n)
  case (Suc w)
  have "n mod 16 < length ''0123456789abcdef''" by simp
  then have "hex_char (hex_digit n)" unfolding hex_char_def hex_digit_def by (rule nth_mem)
  with Suc show ?case by simp
qed simp

lemma hex_digits_append: "hex_digits m (n div 16 ^ w) @ hex_digits w n = hex_digits (m + w) n"
proof (induction w arbitrary: n)
  case (Suc w)
  have "n div 16 ^ Suc w = n div 16 div 16 ^ w" by (simp add: div_mult2_eq)
  with Suc [of "n div 16"] show ?case by simp
qed simp

lemma hex_char_simps: "hex_char c \<Longrightarrow> c \<noteq> CHR ''-'' \<and> c \<noteq> CHR ''_'' \<and> c \<noteq> CHR ''u'' \<and> c \<noteq> CHR ''+'' \<and>
    c \<noteq> CHR ''{'' \<and> c \<noteq> CHR ''}'' \<and> c \<noteq> CHR ''x'' \<and> c \<noteq> CHR ''X'' \<and> \<not> is_space c"
  unfolding hex_char_def by (auto simp: is_space_def)

lemma hex_number_append:
  "list_all hex_char s \<Longrightarrow> hex_number ready acc (s @ t) =
     (if s = [] then hex_number ready acc t
      else hex_number True (fold (\<lambda>c a. 16 * a + the (hex_value c)) s acc) t)"
proof (induction s arbitrary: ready acc)
  case (Cons c s)
  have "\<exists>v. hex_value c = Some v" using Cons.prems by (auto simp: hex_char_def hex_value_def)
  then obtain v where "hex_value c = Some v" by blast
  with Cons hex_char_simps [of c] show ?case by auto
qed simp

lemma hex_number_digits: "hex_number False acc (hex_digits (Suc w) n) = Some (acc * 16 ^ Suc w + n mod 16 ^ Suc w)"
proof -
  have f: "fold (\<lambda>c a. 16 * a + the (hex_value c)) (hex_digits w n) acc = acc * 16 ^ w + n mod 16 ^ w" for w n acc
  proof (induction w arbitrary: n)
    case (Suc w)
    have "the (hex_value (hex_digit n)) = n mod 16" by (simp add: hex_digit_def hex_digit_value)
    moreover have "n mod 16 ^ Suc w = 16 * (n div 16 mod 16 ^ w) + n mod 16" by (simp add: mod_mult2_eq)
    ultimately show ?case using Suc [of "n div 16"] by (simp add: algebra_simps)
  qed simp
  have "hex_digits (Suc w) n \<noteq> []" by simp
  then show ?thesis
    using hex_number_append [OF hex_digits_chars, of False acc "Suc w" n "[]"] f [of "Suc w" n acc] by simp
qed

lemma remove_all_absent: "hd p \<notin> set s \<Longrightarrow> p \<noteq> [] \<Longrightarrow> remove_all p s = s"
  by (induction s) (auto simp: starts_with_def neq_Nil_conv)

lemma dropWhile_hd: "s \<noteq> [] \<Longrightarrow> \<not> P (hd s) \<Longrightarrow> dropWhile P s = s"
  by (cases s) simp_all

lemma strip_id: "s \<noteq> [] \<Longrightarrow> hd s \<notin> cs \<Longrightarrow> last s \<notin> cs \<Longrightarrow> strip_set cs s = s"
  by (simp add: strip_set_def dropWhile_hd hd_rev)

lemma filter_dashes: "list_all hex_char s \<Longrightarrow> filter (\<lambda>c. c \<noteq> CHR ''-'') s = s"
  by (induction s) (use hex_char_simps in auto)

lemma str_strip_id: "s \<noteq> [] \<Longrightarrow> \<not> is_space (hd s) \<Longrightarrow> \<not> is_space (last s) \<Longrightarrow> str_strip s = s"
  by (simp add: str_strip_def dropWhile_hd hd_rev)

lemma py_hex_plain:
  assumes "list_all hex_char s" "2 \<le> length s"
  shows "py_hex s = hex_number False 0 s"
proof -
  obtain a b r where s: "s = a # b # r" using assms(2) by (cases s; cases "tl s") auto
  have "hex_char a" "hex_char b" "hex_char (last s)" using assms(1) unfolding list_all_iff by (simp_all add: s)
  note c = hex_char_simps [OF this(1)] hex_char_simps [OF this(2)] hex_char_simps [OF this(3)]
  have "str_strip s = s" by (rule str_strip_id) (use c s in simp_all)
  then show ?thesis using c s by (simp add: py_hex_def Let_def)
qed

lemma py_hex_digits: "py_hex (hex_digits 32 n) = Some (n mod 16 ^ 32)"
  using py_hex_plain [OF hex_digits_chars, of 32 n] hex_number_digits [of 0 31 n] by simp

lemma uuid_str_chars: "c \<in> set (uuid_str k) \<Longrightarrow> hex_char c \<or> c = CHR ''-''"
  using hex_digits_chars unfolding uuid_str_def list_all_iff by fastforce

lemma uuid_str_filtered: "filter (\<lambda>c. c \<noteq> CHR ''-'') (uuid_str k) = hex_digits 32 k"
proof -
  have d: "k div 16 ^ 12 div 16 ^ 4 = k div 16 ^ 16" "k div 16 ^ 16 div 16 ^ 4 = k div 16 ^ 20"
    "k div 16 ^ 20 div 16 ^ 4 = k div 16 ^ 24"
    by (simp_all add: div_mult2_eq [symmetric])
  have "hex_digits 8 (k div 16 ^ 24) @ hex_digits 4 (k div 16 ^ 20) @ hex_digits 4 (k div 16 ^ 16) @
      hex_digits 4 (k div 16 ^ 12) @ hex_digits 12 k = hex_digits 32 k"
    using hex_digits_append [of 4 k 12] hex_digits_append [of 4 "k div 16 ^ 12" 4]
      hex_digits_append [of 8 k 24] hex_digits_append [of 4 k 16] hex_digits_append [of 4 k 20] d
    by (simp add: hex_digits_append)
  then show ?thesis unfolding uuid_str_def by (simp add: filter_dashes hex_digits_chars)
qed

lemma parse_uuid_str:
  assumes "k < 16 ^ 32"
  shows "parse_uuid (uuid_str k) = Some k"
proof -
  have ne: "uuid_str k \<noteq> []" by (simp add: uuid_str_def)
  have e: "hex_char (hd (uuid_str k)) \<or> hd (uuid_str k) = CHR ''-''"
    "hex_char (last (uuid_str k)) \<or> last (uuid_str k) = CHR ''-''"
    using uuid_str_chars [OF hd_in_set [OF ne]] uuid_str_chars [OF last_in_set [OF ne]] by blast+
  have "CHR ''u'' \<notin> set (uuid_str k)" using uuid_str_chars hex_char_simps by fastforce
  then have "remove_all ''uuid:'' (remove_all ''urn:'' (uuid_str k)) = uuid_str k" by (simp add: remove_all_absent)
  moreover have "strip_set {CHR ''{'', CHR ''}''} (uuid_str k) = uuid_str k"
    by (rule strip_id) (use ne e hex_char_simps in auto)
  ultimately show ?thesis using assms by (simp add: parse_uuid_def uuid_str_filtered py_hex_digits)
qed


subsection \<open>A token opens its customer's accounts\<close>

text \<open>What the two services rely on of the JWT library: a token signed by the one is, until its
  expiry, decoded by the other to the subject it was signed for.\<close>

definition signature_checks :: "bank_env \<Rightarrow> decoder \<Rightarrow> bool" where
  "signature_checks env decode \<longleftrightarrow> (\<forall>sub iat expiry now. now \<le> of_int expiry \<longrightarrow>
     env_sign env sub iat expiry \<noteq> [] \<and>
     decode now (str_strip (env_sign env sub iat expiry)) = Inr (Some sub, Some expiry))"

lemma bearer_header: "starts_with ''bearer '' (str_lower (''Bearer '' @ t))" "after_space (''Bearer '' @ t) = t"
proof -
  have "str_lower (''Bearer '' @ t) = ''bearer '' @ str_lower t"
    using arg_cong [of "str_lower ''Bearer ''" "''bearer ''" "\<lambda>s. s @ str_lower t"] by (simp add: str_lower_def) code_simp
  then show "starts_with ''bearer '' (str_lower (''Bearer '' @ t))" by (simp add: starts_with_def)
  show "after_space (''Bearer '' @ t) = t" by (simp add: after_space_def)
qed

lemma issued_token_accepted:
  assumes "signature_checks env decode" "0 \<le> d" "d \<le> 3600 - 1" "sub \<noteq> []"
  shows "require_customer decode (now + d) (bearer (Some (issue_access_token env now sub))) = Inr sub"
proof -
  have "of_int \<lfloor>now\<rfloor> + 1 > now" by linarith
  then have "now + d \<le> of_int (\<lfloor>now\<rfloor> + ACCESS_TOKEN_TTL_SECONDS)"
    using assms(3) by (simp add: ACCESS_TOKEN_TTL_SECONDS_def)
  then have "decode (now + d) (str_strip (issue_access_token env now sub)) = Inr (Some sub, Some (\<lfloor>now\<rfloor> + ACCESS_TOKEN_TTL_SECONDS))"
    using assms(1) by (simp add: signature_checks_def issue_access_token_def)
  then show ?thesis using assms(4) \<open>now + d \<le> _\<close> bearer_header [of "issue_access_token env now sub"]
    by (simp add: require_customer_def bearer_def falsy_def)
qed

lemma own_accounts_listed:
  assumes "signature_checks env decode" "0 \<le> d" "d \<le> 3600 - 1" "k < 16 ^ 32"
  shows "list_bank_accounts decode (now + d) (bearer (Some (issue_access_token env now (uuid_str k)))) b =
    Inr (map serialize_account (filter (\<lambda>a. ma_customer a = k) (bk_accounts b)))"
proof -
  have "uuid_str k \<noteq> []" by (simp add: uuid_str_def)
  then show ?thesis
    using issued_token_accepted [OF assms(1-3)] parse_uuid_str [OF assms(4)]
    by (simp add: list_bank_accounts_def path_uuid_def)
qed


subsection \<open>Linking, end to end\<close>

text \<open>A code that is good for customer \<open>k\<close> with the backend's client and redirect address.\<close>

definition good_code :: "bank_env \<Rightarrow> rat \<Rightarrow> string \<Rightarrow> string \<Rightarrow> uuid \<Rightarrow> oauth_store \<Rightarrow> bool" where
  "good_code env now redirect code k s \<longleftrightarrow>
     (\<exists>r. auth_codes s code = Some r \<and> \<not> ac_used r \<and> \<not> code_is_expired now r \<and> ac_redirect r = redirect \<and>
        ac_client r = env_client_id env \<and> ac_customer r = uuid_str k \<and> \<not> falsy (ac_email r) \<and> \<not> falsy (ac_phone r))"

definition own_feed :: "uuid \<Rightarrow> bank_ledger \<Rightarrow> feed_account list" where
  "own_feed k b = map (feed_account_of \<circ> serialize_account) (filter (\<lambda>a. ma_customer a = k) (bk_accounts b))"

lemma code_exchanged:
  assumes "signature_checks env decode" "good_code env now redirect code k s"
  shows "\<exists>t. exchange_code_for_token (bank_provider describe env decode now rt redirect s b) code = Inr t \<and>
    tok_access t = issue_access_token env now (uuid_str k) \<and> tok_customer t = Some (uuid_str k)"
proof -
  from assms(2) obtain r e p where r: "auth_codes s code = Some r" "\<not> ac_used r" "\<not> code_is_expired now r"
    "ac_redirect r = redirect" "ac_client r = env_client_id env" "ac_customer r = uuid_str k"
    "ac_email r = Some e" "e \<noteq> []" "ac_phone r = Some p" "p \<noteq> []"
    unfolding good_code_def falsy_def by auto
  have "now \<le> of_int (\<lfloor>now\<rfloor> + ACCESS_TOKEN_TTL_SECONDS)"
    unfolding ACCESS_TOKEN_TTL_SECONDS_def by linarith
  then have "issue_access_token env now (uuid_str k) \<noteq> []"
    using assms(1) by (auto simp: signature_checks_def issue_access_token_def)
  then show ?thesis using r
    by (simp add: exchange_code_for_token_def bank_provider_def token_route_def validate_client_def
        consume_authorization_code_def raw_token_of_def token_of_def)
qed

lemma own_feed_fetched:
  assumes "signature_checks env decode" "k < 16 ^ 32"
  shows "fetch_accounts (bank_provider describe env decode now rt redirect s b)
    (Some (issue_access_token env now (uuid_str k))) = Inr (own_feed k b)"
  using own_accounts_listed [OF assms(1) _ _ assms(2), of 0 now b] by (simp add: bank_provider_def own_feed_def)

definition linkable :: "connection \<Rightarrow> uuid \<Rightarrow> db \<Rightarrow> bool" where
  "linkable c k d \<longleftrightarrow> provider_slug c = ''mock_bank'' \<and>
     (\<forall>x \<in> set (connections d). conn_id x \<noteq> conn_id c \<and> provider_slug x = ''mock_bank'' \<longrightarrow>
        external_customer_id x \<noteq> Some (uuid_str k) \<and> \<not> (conn_status x = Linked \<and> conn_user x = conn_user c))"

lemma linkable_no_clash:
  "linkable c k d \<Longrightarrow> tok_customer t = Some (uuid_str k) \<Longrightarrow>
   \<not> connection_clash (link_connection now t c) (filter (\<lambda>x. conn_id x \<noteq> conn_id c) (connections d))"
  by (auto simp: linkable_def connection_clash_def list_ex_iff link_connection_def)

lemma own_connection_found:
  assumes "sync_ok d" "c \<in> set (connections d)"
  shows "by_pk conn_id (filter (\<lambda>x. conn_user x = conn_user c) (connections d)) (conn_id c) = Some c"
proof -
  have "distinct (map conn_id (connections d))" using assms(1) by (simp add: sync_ok_def conn_ok_def)
  then have "distinct (map conn_id (filter (\<lambda>x. conn_user x = conn_user c) (connections d)))"
    by (rule distinct_map_filter)
  then show ?thesis using assms(2) by (intro by_pk_unique) simp_all
qed



text \<open>A signature for the sample: the claims as a number, in unary.\<close>

definition unary_sign :: "string \<Rightarrow> int \<Rightarrow> int \<Rightarrow> string" where
  "unary_sign sub iat expiry = replicate (Suc (to_nat (sub, expiry))) (CHR ''a'')"

definition unary_decode :: decoder where
  "unary_decode now t = (case from_nat (length t - 1) of (sub, expiry) \<Rightarrow> Inr (Some sub, Some expiry))"

definition linked_bank :: bank_env where
  "linked_bank = sample_bank\<lparr>env_sign := unary_sign\<rparr>"

lemma unary_checks: "signature_checks linked_bank unary_decode"
proof -
  have "str_strip (unary_sign sub iat expiry) = unary_sign sub iat expiry" for sub iat expiry
    by (rule str_strip_id) (simp_all add: unary_sign_def is_space_def del: replicate.simps)
  then show ?thesis
    by (simp add: signature_checks_def linked_bank_def unary_decode_def unary_sign_def)
qed

definition sample_codes :: oauth_store where
  "sample_codes = \<lparr>challenges = Map.empty, auth_codes = [''x'' \<mapsto>
     \<lparr>ac_client = ''nbe'', ac_redirect = ''app'', ac_customer = uuid_str 7, ac_expires = 60, ac_email = Some ''m@b.eg'',
      ac_phone = Some ''+20'', ac_name = None, ac_used = False\<rparr>], refresh_tokens = Map.empty\<rparr>"

definition sample_books :: bank_ledger where
  "sample_books = \<lparr>bk_customers = [],
     bk_accounts = [\<lparr>ma_id = 70, ma_customer = 7, ma_bank_name = ''nbe'', ma_type = None, ma_number = Some ''1'',
                      ma_currency = ''EGP'', ma_created = 0\<rparr>,
                    \<lparr>ma_id = 80, ma_customer = 8, ma_bank_name = ''nbe'', ma_type = None, ma_number = Some ''2'',
                      ma_currency = ''EGP'', ma_created = 0\<rparr>],
     bk_txns = []\<rparr>"

lemma sample_good_code: "good_code linked_bank 0 ''app'' ''x'' 7 sample_codes"
  by (simp add: good_code_def sample_codes_def linked_bank_def sample_bank_def falsy_def code_is_expired_def)


end
