(* ===== verification/Tickets.thy ===== *)
theory Tickets
  imports Single_Use Model
begin

text \<open>
  The single-use secrets in Redis: services/sse_tickets.py, services/link_tickets.py and
  services/bank_login_states.py. All three write to one Redis under prefixes of their own.
  Times are in seconds; what \<open>secrets.token_urlsafe\<close> draws is an argument. A value is the
  text that was set, or the pair \<open>json.dumps\<close> was given.
\<close>

datatype redis_value = Text string | Link string string

text \<open>A key's value and the time it is dropped.\<close>

type_synonym redis = "string \<rightharpoonup> redis_value \<times> int"

definition redis_set :: "string \<Rightarrow> redis_value \<Rightarrow> int \<Rightarrow> int \<Rightarrow> redis \<Rightarrow> redis" where
  "redis_set k v ttl now r = r(k \<mapsto> (v, now + ttl))"

definition redis_getdel :: "int \<Rightarrow> string \<Rightarrow> redis \<Rightarrow> redis_value option \<times> redis" where
  "redis_getdel now k r =
     ((case r k of None \<Rightarrow> None | Some (v, t) \<Rightarrow> if now < t then Some v else None), r(k := None))"

subsection \<open>Event stream tickets\<close>

definition SSE_TICKET_TTL_SECONDS :: int where "SSE_TICKET_TTL_SECONDS = 30"

definition sse_key :: "string \<Rightarrow> string" where
  "sse_key t = ''sse-ticket:'' @ t"

definition mint_ticket :: "int \<Rightarrow> string \<Rightarrow> uuid \<Rightarrow> redis \<Rightarrow> redis" where
  "mint_ticket now t u r = redis_set (sse_key t) (Text (uuid_str u)) SSE_TICKET_TTL_SECONDS now r"

definition redeem_ticket :: "int \<Rightarrow> string \<Rightarrow> redis \<Rightarrow> string option \<times> redis" where
  "redeem_ticket now t r =
     (case redis_getdel now (sse_key t) r of
        (Some (Text v), r') \<Rightarrow> (Some v, r')
      | (_, r') \<Rightarrow> (None, r'))"

subsection \<open>Link tickets\<close>

text \<open>Django's default for \<open>settings.PASSWORD_RESET_TIMEOUT\<close>: three days.\<close>

definition PASSWORD_RESET_TIMEOUT :: int where "PASSWORD_RESET_TIMEOUT = 259200"

definition link_key :: "string \<Rightarrow> string" where
  "link_key t = ''link-ticket:'' @ t"

definition mint_link_ticket :: "int \<Rightarrow> string \<Rightarrow> uuid \<Rightarrow> string \<Rightarrow> int \<Rightarrow> redis \<Rightarrow> redis" where
  "mint_link_ticket now t u token ttl r = redis_set (link_key t) (Link (uuid_str u) token) ttl now r"

definition redeem_link_ticket :: "int \<Rightarrow> string \<Rightarrow> redis \<Rightarrow> (string \<times> string) option \<times> redis" where
  "redeem_link_ticket now t r =
     (case redis_getdel now (link_key t) r of
        (Some (Link u tok), r') \<Rightarrow> (Some (u, tok), r')
      | (_, r') \<Rightarrow> (None, r'))"

subsection \<open>Bank login states\<close>

definition BANK_LOGIN_STATE_TTL_SECONDS :: int where "BANK_LOGIN_STATE_TTL_SECONDS = 900"

definition state_key :: "string \<Rightarrow> string" where
  "state_key t = ''bank-login-state:'' @ t"

definition mint_state :: "int \<Rightarrow> string \<Rightarrow> string \<Rightarrow> redis \<Rightarrow> redis" where
  "mint_state now t slug r = redis_set (state_key t) (Text slug) BANK_LOGIN_STATE_TTL_SECONDS now r"

definition redeem_state :: "int \<Rightarrow> string \<Rightarrow> redis \<Rightarrow> string option \<times> redis" where
  "redeem_state now t r =
     (case redis_getdel now (state_key t) r of
        (Some (Text v), r') \<Rightarrow> (Some v, r')
      | (_, r') \<Rightarrow> (None, r'))"

subsection \<open>One store, three kinds of secret\<close>

text \<open>Everything that happens to the store.\<close>

datatype redis_op =
    Mint_sse int string uuid
  | Redeem_sse int string
  | Mint_link int string uuid string int
  | Redeem_link int string
  | Mint_state int string string
  | Redeem_state int string

fun redis_step :: "redis_op \<Rightarrow> redis \<Rightarrow> redis" where
  "redis_step (Mint_sse now t u) r = mint_ticket now t u r"
| "redis_step (Redeem_sse now t) r = snd (redeem_ticket now t r)"
| "redis_step (Mint_link now t u tok ttl) r = mint_link_ticket now t u tok ttl r"
| "redis_step (Redeem_link now t) r = snd (redeem_link_ticket now t r)"
| "redis_step (Mint_state now t slug) r = mint_state now t slug r"
| "redis_step (Redeem_state now t) r = snd (redeem_state now t r)"

text \<open>The key an operation sets, if any.\<close>

fun set_key :: "redis_op \<Rightarrow> string option" where
  "set_key (Mint_sse now t u) = Some (sse_key t)"
| "set_key (Mint_link now t u tok ttl) = Some (link_key t)"
| "set_key (Mint_state now t slug) = Some (state_key t)"
| "set_key _ = None"

lemma keys_apart [simp]:
  "sse_key t \<noteq> link_key t'" "sse_key t \<noteq> state_key t'" "link_key t \<noteq> state_key t'"
  "link_key t' \<noteq> sse_key t" "state_key t' \<noteq> sse_key t" "state_key t' \<noteq> link_key t"
  "sse_key t = sse_key t'' \<longleftrightarrow> t = t''" "link_key t = link_key t'' \<longleftrightarrow> t = t''" "state_key t = state_key t'' \<longleftrightarrow> t = t''"
  by (simp_all add: sse_key_def link_key_def state_key_def)

lemma redeem_redis [simp]:
  "snd (redeem_ticket now t r) = r(sse_key t := None)" "snd (redeem_link_ticket now t r) = r(link_key t := None)"
  "snd (redeem_state now t r) = r(state_key t := None)"
  by (simp_all add: redeem_ticket_def redeem_link_ticket_def redeem_state_def redis_getdel_def
      split: option.split prod.split redis_value.split)

lemma redeem_Some:
  "fst (redeem_ticket now t r) = Some v \<Longrightarrow> \<exists>e. r (sse_key t) = Some (Text v, e) \<and> now < e"
  "fst (redeem_link_ticket now t r) = Some (u, tok) \<Longrightarrow> \<exists>e. r (link_key t) = Some (Link u tok, e) \<and> now < e"
  "fst (redeem_state now t r) = Some v \<Longrightarrow> \<exists>e. r (state_key t) = Some (Text v, e) \<and> now < e"
  by (auto simp: redeem_ticket_def redeem_link_ticket_def redeem_state_def redis_getdel_def
      split: option.splits prod.splits redis_value.splits if_splits)

lemma step_dead: "r k = None \<Longrightarrow> set_key e \<noteq> Some k \<Longrightarrow> redis_step e r k = None"
  by (cases e) (auto simp: mint_ticket_def mint_link_ticket_def mint_state_def redis_set_def)

lemma redeem_wins:
  "redeem_ticket now t r = (Some v, r') \<Longrightarrow> r (sse_key t) \<noteq> None"
  "redeem_link_ticket now t r = (Some w, r') \<Longrightarrow> r (link_key t) \<noteq> None"
  "redeem_state now t r = (Some v, r') \<Longrightarrow> r (state_key t) \<noteq> None"
  using redeem_Some(1) [of now t r v] redeem_Some(2) [of now t r "fst w" "snd w"] redeem_Some(3) [of now t r v] by auto

text \<open>A kind of secret with a key of its own whose redemption drops the key.\<close>

lemma redis_single_use:
  fixes key :: "string \<Rightarrow> string" and redeem :: "int \<Rightarrow> string \<Rightarrow> redis \<Rightarrow> 'v option \<times> redis"
  assumes drops: "\<And>now t r. snd (redeem now t r) = r(key t := None)"
    and wins: "\<And>now t r v r'. redeem now t r = (Some v, r') \<Longrightarrow> r (key t) \<noteq> None"
  shows "single_use redeem redis_step (\<lambda>t r. r (key t) \<noteq> None) (\<lambda>t e. set_key e = Some (key t))"
proof
  fix now t r v r' assume w: "redeem now t r = (Some v, r')"
  then show "r (key t) \<noteq> None" by (rule wins)
  show "\<not> r' (key t) \<noteq> None" using drops [of now t r] w by auto
next
  fix t r now t' v r' assume "\<not> r (key t) \<noteq> None" and "redeem now t' r = (v, r')"
  then show "\<not> r' (key t) \<noteq> None" using drops [of now t' r] by (auto split: if_splits)
next
  fix t e and r :: redis assume "\<not> r (key t) \<noteq> None" "\<not> set_key e = Some (key t)"
  then have "r (key t) = None" "set_key e \<noteq> Some (key t)" by blast+
  then have "redis_step e r (key t) = None" by (rule step_dead)
  then show "\<not> redis_step e r (key t) \<noteq> None" by blast
qed

interpretation sse: single_use redeem_ticket redis_step "\<lambda>t r. r (sse_key t) \<noteq> None" "\<lambda>t e. set_key e = Some (sse_key t)"
  by (rule redis_single_use) (simp_all add: redeem_wins)

interpretation link: single_use redeem_link_ticket redis_step "\<lambda>t r. r (link_key t) \<noteq> None" "\<lambda>t e. set_key e = Some (link_key t)"
  by (rule redis_single_use) (simp_all add: redeem_wins)

interpretation login: single_use redeem_state redis_step "\<lambda>t r. r (state_key t) \<noteq> None" "\<lambda>t e. set_key e = Some (state_key t)"
  by (rule redis_single_use) (simp_all add: redeem_wins)

text \<open>A history in which a key is set once at most.\<close>

definition set_once :: "string \<Rightarrow> (redis_op + int \<times> string) list \<Rightarrow> bool" where
  "set_once k es \<longleftrightarrow> length (filter (\<lambda>x. case x of Inl e \<Rightarrow> set_key e = Some k | Inr u \<Rightarrow> False) es) \<le> 1"

text \<open>C26. An event-stream ticket, an emailed link and a bank-login state are each redeemed at most
  once in every history of the shared Redis, whatever else is minted or redeemed in between,
  under any of the three prefixes.\<close>

theorem secrets_redeemed_once:
  assumes "r (sse_key t) = None" "set_once (sse_key t) es"
    and "r (link_key t) = None" "set_once (link_key t) es"
    and "r (state_key t) = None" "set_once (state_key t) es"
  shows "length (wins redeem_ticket redis_step t es r) \<le> 1 \<and> length (wins redeem_link_ticket redis_step t es r) \<le> 1 \<and>
    length (wins redeem_state redis_step t es r) \<le> 1"
  using assms unfolding set_once_def by (intro conjI sse.once link.once login.once) simp_all

text \<open>One raw value minted as a ticket, as a link and as a state, each redeemed twice.\<close>

theorem secrets_redeemed_once_witness:
  "let es = [Inl (Mint_sse 0 ''x'' 7), Inl (Mint_link 0 ''x'' 7 ''tok'' 100), Inl (Mint_state 1 ''x'' ''nbe''),
       Inl (Redeem_sse 2 ''x''), Inr (3, ''x''), Inr (4, ''x'')] :: (redis_op + int \<times> string) list in
   length (wins redeem_ticket redis_step ''x'' es Map.empty) \<le> 1 \<and>
   length (wins redeem_link_ticket redis_step ''x'' es Map.empty) \<le> 1 \<and>
   length (wins redeem_state redis_step ''x'' es Map.empty) \<le> 1"
  unfolding Let_def by (rule secrets_redeemed_once) (simp_all add: set_once_def)

end
