(* ===== verification/Sessions.thy ===== *)
theory Sessions
  imports Sync Profile Tickets
begin

text \<open>
  Accounts and sessions: core/views/auth.py, core/auth_tokens.py, core/authentication.py,
  core/serializers/auth.py, core/tasks/notifications.py and the admin sessions of
  core/views/administration.py. Password hashing, Django's \<open>authenticate\<close>, e-mail syntax
  checks, the signed one-time tokens and the JWT library are parameters.
\<close>

subsection \<open>The JWT library and its tables\<close>

text \<open>\<open>OutstandingToken\<close> and \<open>BlacklistedToken\<close>, by their \<open>jti\<close>.\<close>

record tokens =
  outstanding :: "(string \<times> uuid option) list"
  blacklisted :: "string list"

record claims =
  cl_jti :: string
  cl_user :: string
  cl_admin :: bool

text \<open>
  simplejwt: \<open>RefreshToken.for_user\<close>, a refresh token with the claims it is given,
  \<open>RefreshToken(raw)\<close> and \<open>AccessToken(raw)\<close> (\<open>Inl\<close>: the text of a \<open>TokenError\<close>),
  \<open>TokenRefreshSerializer\<close>, \<open>.blacklist()\<close> and \<open>JWTAuthentication.get_user\<close>. A pair is the
  refresh token and its access token; each first argument is the time, and \<open>jti\<close> the one drawn.
\<close>

record jwt_library =
  for_user :: "int \<Rightarrow> string \<Rightarrow> user \<Rightarrow> tokens \<Rightarrow> (exc + string \<times> string) \<times> tokens"
  new_refresh :: "int \<Rightarrow> string \<Rightarrow> string \<Rightarrow> bool \<Rightarrow> string \<times> string"
  open_refresh :: "int \<Rightarrow> string \<Rightarrow> tokens \<Rightarrow> string + claims"
  open_access :: "int \<Rightarrow> string \<Rightarrow> string + claims"
  rotate_refresh :: "int \<Rightarrow> string \<Rightarrow> string \<Rightarrow> user list \<Rightarrow> tokens \<Rightarrow> (exc + string \<times> string option) \<times> tokens"
  blacklist_refresh :: "int \<Rightarrow> string \<Rightarrow> tokens \<Rightarrow> tokens"
  jwt_get_user :: "claims \<Rightarrow> user list \<Rightarrow> exc + user"

text \<open>The rest of what the endpoints call; a password hash takes the salt drawn.\<close>

record auth_env =
  jwt :: jwt_library
  hash_password :: "string \<Rightarrow> string \<Rightarrow> string"
  check_password :: "string \<Rightarrow> string \<Rightarrow> bool"
  django_authenticate :: "user list \<Rightarrow> string \<Rightarrow> string \<Rightarrow> user option"
  normalize_email :: "string \<Rightarrow> string"
  check_email :: "string \<Rightarrow> string + string"
  make_signed :: "string \<Rightarrow> (int \<Rightarrow> string) \<Rightarrow> int \<Rightarrow> string"
  check_signed :: "string \<Rightarrow> (int \<Rightarrow> string) \<Rightarrow> int \<Rightarrow> string \<Rightarrow> bool"
  reset_hash_value :: "user \<Rightarrow> int \<Rightarrow> string"
  reset_key_salt :: string
  dummy_hash :: string
  frontend_url :: string
  authorize_url :: "string \<Rightarrow> string"

subsection \<open>The state\<close>

record admin_user =
  adm_id :: uuid
  adm_email :: string
  adm_password_hash :: string
  adm_role :: string

text \<open>An e-mail that was sent: to, subject and the link in it.\<close>

record sessions =
  base :: db
  kv :: redis
  jwts :: tokens
  admins :: "admin_user list"
  admin_blacklist :: "string list"
  mails :: "(string \<times> string \<times> string) list"

type_synonym 'a session_response = "(exc + 'a) \<times> sessions"

definition on_users :: "(user list \<Rightarrow> user list) \<Rightarrow> sessions \<Rightarrow> sessions" where
  "on_users f s = s\<lparr>base := (base s)\<lparr>users := f (users (base s))\<rparr>\<rparr>"

text \<open>Ids are looked up by the text the code rendered with \<open>str\<close>.\<close>

definition row_named :: "('r \<Rightarrow> uuid) \<Rightarrow> 'r list \<Rightarrow> string \<Rightarrow> 'r option" where
  "row_named pk rs v = List.find (\<lambda>r. uuid_str (pk r) = v) rs"

subsection \<open>Signed one-time tokens\<close>

definition email_key_salt :: string where
  "email_key_salt = ''core.auth_tokens.EmailVerificationTokenGenerator''"

definition int_str :: "int \<Rightarrow> string" where
  "int_str n = (if n < 0 then ''-'' @ nat_str (nat (- n)) else nat_str (nat n))"

definition email_hash_value :: "user \<Rightarrow> int \<Rightarrow> string" where
  "email_hash_value x timestamp = uuid_str (user_id x) @ (if email_verified x then ''True'' else ''False'') @
     int_str timestamp @ user_email x"

definition make_email_token :: "auth_env \<Rightarrow> int \<Rightarrow> user \<Rightarrow> string" where
  "make_email_token env now x = make_signed env email_key_salt (email_hash_value x) now"

definition check_email_token :: "auth_env \<Rightarrow> int \<Rightarrow> user \<Rightarrow> string \<Rightarrow> bool" where
  "check_email_token env now x tok \<longleftrightarrow> check_signed env email_key_salt (email_hash_value x) now tok"

definition make_reset_token :: "auth_env \<Rightarrow> int \<Rightarrow> user \<Rightarrow> string" where
  "make_reset_token env now x = make_signed env (reset_key_salt env) (reset_hash_value env x) now"

definition check_reset_token :: "auth_env \<Rightarrow> int \<Rightarrow> user \<Rightarrow> string \<Rightarrow> bool" where
  "check_reset_token env now x tok \<longleftrightarrow> check_signed env (reset_key_salt env) (reset_hash_value env x) now tok"

subsection \<open>Token pairs and mails\<close>

text \<open>The body's access token and user id, and the refresh token of the cookie.\<close>

definition token_pair_response ::
  "auth_env \<Rightarrow> int \<Rightarrow> string \<Rightarrow> user \<Rightarrow> sessions \<Rightarrow> (string \<times> uuid \<times> string) session_response" where
  "token_pair_response env now jti x s =
     (case for_user (jwt env) now jti x (jwts s) of
        (Inl e, tk) \<Rightarrow> (Inl e, s\<lparr>jwts := tk\<rparr>)
      | (Inr (r, a), tk) \<Rightarrow> (Inr (a, user_id x, r), s\<lparr>jwts := tk\<rparr>))"

definition link_mail :: "auth_env \<Rightarrow> string \<Rightarrow> string \<Rightarrow> int \<Rightarrow> user \<Rightarrow> string \<Rightarrow> sessions \<Rightarrow> string \<times> sessions" where
  "link_mail env path ticket now x tok s =
     (frontend_url env @ path @ ''?t='' @ ticket,
      s\<lparr>kv := mint_link_ticket now ticket (user_id x) tok PASSWORD_RESET_TIMEOUT (kv s)\<rparr>)"

definition verify_email_link :: "auth_env \<Rightarrow> string \<Rightarrow> int \<Rightarrow> user \<Rightarrow> string \<Rightarrow> sessions \<Rightarrow> string \<times> sessions" where
  "verify_email_link env = link_mail env ''/verify-email''"

definition reset_password_link :: "auth_env \<Rightarrow> string \<Rightarrow> int \<Rightarrow> user \<Rightarrow> string \<Rightarrow> sessions \<Rightarrow> string \<times> sessions" where
  "reset_password_link env = link_mail env ''/reset-password''"

text \<open>\<open>sent\<close> is whether the mail server took the mail.\<close>

definition send_email :: "bool \<Rightarrow> string \<Rightarrow> string \<Rightarrow> string \<Rightarrow> sessions \<Rightarrow> sessions" where
  "send_email sent to subject link s = (if sent then s\<lparr>mails := mails s @ [(to, subject, link)]\<rparr> else s)"

definition send_verification_email :: "auth_env \<Rightarrow> bool \<Rightarrow> string \<Rightarrow> int \<Rightarrow> user \<Rightarrow> sessions \<Rightarrow> sessions" where
  "send_verification_email env sent ticket now x s =
     (case verify_email_link env ticket now x (make_email_token env now x) s of
        (link, s') \<Rightarrow> send_email sent (user_email x) ''Verify your email'' link s')"

subsection \<open>Signing up and logging in\<close>

text \<open>\<open>PHONE_PATTERN\<close>: a plus sign, a digit from 1 to 9, then 7 to 14 digits.\<close>

definition phone_ok :: "string \<Rightarrow> bool" where
  "phone_ok v = (case str_strip v of
       c # f # ds \<Rightarrow> c = CHR ''+'' \<and> f \<in> set ''123456789'' \<and> 7 \<le> length ds \<and> length ds \<le> 14 \<and>
         list_all (\<lambda>d. d \<in> set ''0123456789'') ds
     | _ \<Rightarrow> False)"

record signup_body =
  su_name :: string
  su_email :: string
  su_password :: string
  su_phone :: string

text \<open>The unique validator sees the address as given; the normalised one is stored.\<close>

definition validate_email :: "auth_env \<Rightarrow> user list \<Rightarrow> string \<Rightarrow> string + string" where
  "validate_email env us v =
     (if list_ex (\<lambda>x. user_email x = v) us then Inl ''user with this email already exists.''
      else check_email env v)"

definition signup_errors :: "auth_env \<Rightarrow> user list \<Rightarrow> signup_body \<Rightarrow> (string \<times> detail) list" where
  "signup_errors env us b =
     (case validate_email env us (su_email b) of Inl m \<Rightarrow> [(''email'', Seq [Str m])] | Inr v \<Rightarrow> []) @
     (if length (su_password b) < 8
      then [(''password'', Seq [Str ''Ensure this field has at least 8 characters.''])] else []) @
     (if phone_ok (su_phone b) then []
      else [(''phone'', Seq [Str ''Enter a phone number in international format, for example +201001234567.''])])"

text \<open>\<open>UserManager.create_user\<close>; \<open>hash\<close> is \<open>None\<close> for the unusable password.\<close>

definition create_user :: "auth_env \<Rightarrow> string \<Rightarrow> string \<Rightarrow> string \<Rightarrow> string option \<Rightarrow> db \<Rightarrow> user response" where
  "create_user env email name phone hash d =
     (if email = [] then (Inl (Unhandled ''ValueError''), d)
      else
        let e = normalize_email env email;
            x = \<lparr>user_id = fresh d, user_name = name, user_email = e, user_phone = Some phone,
                 employment_status = None, income_bracket = None, monthly_income = None,
                 income_steadiness = None, dependents_count = 0, user_status = ''active'',
                 email_verified = False, password = hash\<rparr>
        in if list_ex (\<lambda>y. user_email y = e) (users d) then (Inl (Unhandled ''IntegrityError''), d)
           else (Inr x, (draw d)\<lparr>users := users d @ [x]\<rparr>))"

text \<open>What one request draws: a salt, a ticket and a \<open>jti\<close>.\<close>

record entropy =
  salt :: string
  ticket :: string
  jti :: string

definition signup ::
  "auth_env \<Rightarrow> int \<Rightarrow> entropy \<Rightarrow> bool \<Rightarrow> detail + signup_body \<Rightarrow> sessions \<Rightarrow> (string \<times> uuid \<times> string) session_response" where
  "signup env now en sent validated s =
     (case validated of
        Inl es \<Rightarrow> (Inl (ValidationError es), s)
      | Inr b \<Rightarrow>
         (case signup_errors env (users (base s)) b of
            e # es \<Rightarrow> (Inl (ValidationError (Dict (e # es))), s)
          | [] \<Rightarrow>
             (case validate_email env (users (base s)) (su_email b) of
                Inl m \<Rightarrow> (Inl (field_error ''email'' m), s)
              | Inr email \<Rightarrow>
                 (case create_user env email (su_name b) (su_phone b) (Some (hash_password env (salt en) (su_password b))) (base s) of
                    (Inl e, d) \<Rightarrow> (Inl e, s\<lparr>base := d\<rparr>)
                  | (Inr x, d) \<Rightarrow>
                      token_pair_response env now (jti en) x
                        (send_verification_email env sent (ticket en) now x (s\<lparr>base := d\<rparr>))))))"

definition login ::
  "auth_env \<Rightarrow> int \<Rightarrow> entropy \<Rightarrow> detail + string \<times> string \<Rightarrow> sessions \<Rightarrow> (string \<times> uuid \<times> string) session_response" where
  "login env now en validated s =
     (case validated of
        Inl es \<Rightarrow> (Inl (ValidationError es), s)
      | Inr (email, pw) \<Rightarrow>
         (case django_authenticate env (users (base s)) email pw of
            None \<Rightarrow> (Inl (field_error ''non_field_errors'' ''Invalid email or password.''), s)
          | Some x \<Rightarrow> token_pair_response env now (jti en) x s))"


subsection \<open>Refreshing and ending sessions\<close>

text \<open>A cookie that is missing or empty is no cookie.\<close>

definition cookie_value :: "string option \<Rightarrow> string option" where
  "cookie_value c = (case c of None \<Rightarrow> None | Some v \<Rightarrow> if v = [] then None else Some v)"

definition refresh_session ::
  "auth_env \<Rightarrow> int \<Rightarrow> string \<Rightarrow> string option \<Rightarrow> sessions \<Rightarrow> (string \<times> string option) session_response" where
  "refresh_session env now j cookie s =
     (case cookie_value cookie of
        None \<Rightarrow> (Inl (InvalidToken ''No refresh token cookie present.''), s)
      | Some raw \<Rightarrow>
         (case rotate_refresh (jwt env) now j raw (users (base s)) (jwts s) of
            (r, tk) \<Rightarrow> (r, s\<lparr>jwts := tk\<rparr>)))"

definition logout :: "auth_env \<Rightarrow> int \<Rightarrow> string option \<Rightarrow> sessions \<Rightarrow> unit session_response" where
  "logout env now cookie s =
     (case cookie_value cookie of
        None \<Rightarrow> (Inr (), s)
      | Some raw \<Rightarrow>
         (case open_refresh (jwt env) now raw (jwts s) of
            Inl m \<Rightarrow> (Inl (drf_validation_error (Str m)), s)
          | Inr cl \<Rightarrow> (Inr (), s\<lparr>jwts := blacklist_refresh (jwt env) now raw (jwts s)\<rparr>)))"

text \<open>\<open>BlacklistedToken.objects.get_or_create\<close>.\<close>

definition blacklist_jti :: "string \<Rightarrow> tokens \<Rightarrow> tokens" where
  "blacklist_jti j tk = (if j \<in> set (blacklisted tk) then tk else tk\<lparr>blacklisted := blacklisted tk @ [j]\<rparr>)"

definition blacklist_all_outstanding_tokens :: "uuid \<Rightarrow> string option \<Rightarrow> tokens \<Rightarrow> tokens" where
  "blacklist_all_outstanding_tokens u exclude tk =
     (let mine = filter (\<lambda>(j, v). v = Some u) (outstanding tk);
          rest = (case cookie_value exclude of None \<Rightarrow> mine | Some x \<Rightarrow> filter (\<lambda>(j, v). j \<noteq> x) mine)
      in fold (\<lambda>(j, v). blacklist_jti j) rest tk)"

definition logout_all :: "auth_env \<Rightarrow> int \<Rightarrow> user \<Rightarrow> string option \<Rightarrow> sessions \<Rightarrow> unit session_response" where
  "logout_all env now me cookie s =
     (let current = (case cookie_value cookie of
            None \<Rightarrow> None
          | Some raw \<Rightarrow>
             (case open_refresh (jwt env) now raw (jwts s) of Inl m \<Rightarrow> None | Inr cl \<Rightarrow> Some (cl_jti cl)))
      in (Inr (), s\<lparr>jwts := blacklist_all_outstanding_tokens (user_id me) current (jwts s)\<rparr>))"

subsection \<open>Password reset and e-mail verification\<close>

definition password_reset_request ::
  "auth_env \<Rightarrow> int \<Rightarrow> entropy \<Rightarrow> detail + string \<Rightarrow> sessions \<Rightarrow> unit session_response" where
  "password_reset_request env now en validated s =
     (case validated of
        Inl es \<Rightarrow> (Inl (ValidationError es), s)
      | Inr email \<Rightarrow>
         (case first_pk user_id (filter (\<lambda>x. user_email x = email) (users (base s))) of
            None \<Rightarrow> (Inr (), s)
          | Some x \<Rightarrow>
             (case reset_password_link env (ticket en) now x (make_reset_token env now x) s of
                (link, s') \<Rightarrow> (Inr (), s'\<lparr>base := enqueue (Send_reset_email (user_email x) link) (base s')\<rparr>))))"

text \<open>The task, off the queue.\<close>

definition send_password_reset_email :: "bool \<Rightarrow> string \<Rightarrow> string \<Rightarrow> sessions \<Rightarrow> sessions" where
  "send_password_reset_email sent to link s = send_email sent to ''Reset your password'' link s"

definition run_reset_message :: "bool \<Rightarrow> nat \<Rightarrow> sessions \<Rightarrow> sessions" where
  "run_reset_message sent i s =
     (let q = queue (base s) in
      if length q \<le> i then s
      else
       (case q ! i of
          Send_reset_email to link \<Rightarrow>
            send_password_reset_email sent to link (s\<lparr>base := (base s)\<lparr>queue := take i q @ drop (Suc i) q\<rparr>\<rparr>)
        | _ \<Rightarrow> s))"

text \<open>The user and the token behind an emailed link; the ticket is spent whatever comes of it.\<close>

definition redeem_link :: "int \<Rightarrow> string \<Rightarrow> sessions \<Rightarrow> (user \<times> string) option \<times> sessions" where
  "redeem_link now t s =
     (case redeem_link_ticket now t (kv s) of
        (None, r) \<Rightarrow> (None, s\<lparr>kv := r\<rparr>)
      | (Some (v, tok), r) \<Rightarrow> (map_option (\<lambda>x. (x, tok)) (row_named user_id (users (base s)) v), s\<lparr>kv := r\<rparr>))"

definition invalid_link :: exc where
  "invalid_link = ValidationError (Dict [(''t'', Str ''Invalid or expired link.'')])"

definition password_reset_confirm ::
  "auth_env \<Rightarrow> int \<Rightarrow> entropy \<Rightarrow> detail + string \<times> string \<Rightarrow> sessions \<Rightarrow> unit session_response" where
  "password_reset_confirm env now en validated s =
     (case validated of
        Inl es \<Rightarrow> (Inl (ValidationError es), s)
      | Inr (t, pw) \<Rightarrow>
         (case redeem_link now t s of
            (None, s1) \<Rightarrow> (Inl invalid_link, s1)
          | (Some (x, tok), s1) \<Rightarrow>
              if \<not> check_reset_token env now x tok then (Inl invalid_link, s1)
              else
                let x' = x\<lparr>password := Some (hash_password env (salt en) pw)\<rparr>;
                    s2 = on_users (save_row user_id x') s1
                in (Inr (), s2\<lparr>jwts := blacklist_all_outstanding_tokens (user_id x) None (jwts s2)\<rparr>)))"

definition email_verification_request ::
  "auth_env \<Rightarrow> int \<Rightarrow> entropy \<Rightarrow> string option \<Rightarrow> user \<Rightarrow> sessions \<Rightarrow> unit session_response" where
  "email_verification_request env now en failed me s =
     (case verify_email_link env (ticket en) now me (make_email_token env now me) s of
        (link, s') \<Rightarrow>
          (case failed of
             Some m \<Rightarrow> (Inl (NotificationServiceUnavailable m), s')
           | None \<Rightarrow> (Inr (), send_email True (user_email me) ''Verify your email'' link s')))"

definition email_verification_confirm ::
  "auth_env \<Rightarrow> int \<Rightarrow> detail + string \<Rightarrow> sessions \<Rightarrow> unit session_response" where
  "email_verification_confirm env now validated s =
     (case validated of
        Inl es \<Rightarrow> (Inl (ValidationError es), s)
      | Inr t \<Rightarrow>
         (case redeem_link now t s of
            (None, s1) \<Rightarrow> (Inl invalid_link, s1)
          | (Some (x, tok), s1) \<Rightarrow>
              if \<not> check_email_token env now x tok then (Inl invalid_link, s1)
              else (Inr (), on_users (save_row user_id (x\<lparr>email_verified := True\<rparr>)) s1)))"


subsection \<open>Logging in through the bank\<close>

definition bank_login_initiate ::
  "auth_env \<Rightarrow> int \<Rightarrow> string \<Rightarrow> detail + string \<Rightarrow> sessions \<Rightarrow> (string \<times> string) session_response" where
  "bank_login_initiate env now state validated s =
     (case validated of
        Inl es \<Rightarrow> (Inl (ValidationError es), s)
      | Inr slug \<Rightarrow>
         (case get_connector slug of
            Inl e \<Rightarrow> (Inl (Http404 ''Unknown bank provider.''), s)
          | Inr _ \<Rightarrow> (Inr (state, authorize_url env state), s\<lparr>kv := mint_state now state slug (kv s)\<rparr>)))"

definition bank_login_failed :: exc where
  "bank_login_failed = BusinessRuleError ''Failed to complete the bank login.'' ''bank_login_failed'' None"

definition email_conflict :: exc where
  "email_conflict = BusinessRuleError
     ''An app account already uses this bank email. Sign in with that account instead.''
     ''bank_login_email_conflict'' None"

text \<open>The connection of this bank customer; a customer the bank did not name is SQL's NULL.\<close>

definition customer_connection :: "string \<Rightarrow> token \<Rightarrow> db \<Rightarrow> connection option" where
  "customer_connection slug t d = first_pk conn_id
     (filter (\<lambda>c. provider_slug c = slug \<and> external_customer_id c = tok_customer t) (connections d))"

definition connection_user :: "connection \<Rightarrow> db \<Rightarrow> exc + user" where
  "connection_user c d =
     (case by_pk user_id (users d) (conn_user c) of
        None \<Rightarrow> Inl (Unhandled ''DoesNotExist'')
      | Some x \<Rightarrow> Inr x)"

text \<open>A known customer: the phone is filled in, the tokens replaced, the accounts synced at best.\<close>

definition fill_phone :: "string \<Rightarrow> user \<Rightarrow> user" where
  "fill_phone phone x = (if user_phone x = None \<or> user_phone x = Some [] then x\<lparr>user_phone := Some phone\<rparr> else x)"

definition repeat_bank_login ::
  "auth_env \<Rightarrow> provider \<Rightarrow> int \<Rightarrow> string \<Rightarrow> token \<Rightarrow> connection \<Rightarrow> sessions \<Rightarrow> (string \<times> uuid \<times> string) session_response" where
  "repeat_bank_login env pr now j t c s =
     (case connection_user c (base s) of
        Inl e \<Rightarrow> (Inl e, s)
      | Inr x \<Rightarrow>
          let x' = fill_phone (tok_phone t) x;
              c' = c\<lparr>access_token := Some (tok_access t), refresh_token := tok_refresh t\<rparr>;
              d1 = save_connection c' ((base s)\<lparr>users := save_row user_id x' (users (base s))\<rparr>)
          in case fetch_accounts pr (access_token c') of
               Inl e \<Rightarrow> token_pair_response env now j x' (s\<lparr>base := d1\<rparr>)
             | Inr xs \<Rightarrow>
                (case apply_synced_accounts c' xs pr d1 of
                   (Inl e, d2) \<Rightarrow> (Inl e, s\<lparr>base := d2\<rparr>)
                 | (Inr as, d2) \<Rightarrow> token_pair_response env now j x' (s\<lparr>base := d2\<rparr>)))"

definition login_connection :: "int \<Rightarrow> string \<Rightarrow> token \<Rightarrow> user \<Rightarrow> db \<Rightarrow> connection" where
  "login_connection now slug t x d =
     \<lparr>conn_id = fresh d, conn_user = user_id x, provider_slug = slug, conn_status = Linked,
      external_customer_id = tok_customer t, access_token = Some (tok_access t),
      refresh_token = tok_refresh t, oauth_state = None, error_reason = None, linked_at = Some now\<rparr>"

text \<open>One transaction: the user and the connection, or neither.\<close>

definition provision :: "auth_env \<Rightarrow> int \<Rightarrow> string \<Rightarrow> token \<Rightarrow> db \<Rightarrow> (user \<times> connection) response" where
  "provision env now slug t d =
     (case create_user env (tok_email t) (str_or (tok_name t) ''Bank Customer'') (tok_phone t) None d of
        (Inl e, d1) \<Rightarrow> (Inl e, d)
      | (Inr x, d1) \<Rightarrow>
          let c = login_connection now slug t x d1
          in if connection_clash c (connections d1) then (Inl (Unhandled ''IntegrityError''), d)
             else (Inr (x, c), (draw d1)\<lparr>connections := connections d1 @ [c]\<rparr>))"

text \<open>
  A customer not seen before. \<open>race\<close> is what other requests commit between the look-ups
  and the transaction.
\<close>

definition first_bank_login ::
  "auth_env \<Rightarrow> provider \<Rightarrow> (db \<Rightarrow> db) \<Rightarrow> int \<Rightarrow> string \<Rightarrow> string \<Rightarrow> token \<Rightarrow> sessions \<Rightarrow>
   (string \<times> uuid \<times> string) session_response" where
  "first_bank_login env pr race now j slug t s =
     (if list_ex (\<lambda>x. user_email x = tok_email t) (users (base s)) then (Inl email_conflict, s)
      else
       (case fetch_accounts pr (Some (tok_access t)) of
          Inl e \<Rightarrow> (Inl bank_login_failed, s)
        | Inr xs \<Rightarrow>
            let s1 = s\<lparr>base := race (base s)\<rparr>
            in case provision env now slug t (base s1) of
                 (Inr (x, c), d) \<Rightarrow>
                   (case apply_synced_accounts c xs pr d of
                      (Inl e, d2) \<Rightarrow> (Inl e, s1\<lparr>base := d2\<rparr>)
                    | (Inr as, d2) \<Rightarrow> token_pair_response env now j x (s1\<lparr>base := d2\<rparr>))
               | (Inl (Unhandled e), d) \<Rightarrow>
                   if e = ''IntegrityError'' then
                     (case customer_connection slug t d of
                        None \<Rightarrow> (Inl email_conflict, s1\<lparr>base := d\<rparr>)
                      | Some c \<Rightarrow>
                         (case connection_user c d of
                            Inl e \<Rightarrow> (Inl e, s1\<lparr>base := d\<rparr>)
                          | Inr x \<Rightarrow> token_pair_response env now j x (s1\<lparr>base := d\<rparr>)))
                   else (Inl (Unhandled e), s1\<lparr>base := d\<rparr>)
               | (Inl e, d) \<Rightarrow> (Inl e, s1\<lparr>base := d\<rparr>)))"

definition bank_login_callback ::
  "auth_env \<Rightarrow> provider \<Rightarrow> (db \<Rightarrow> db) \<Rightarrow> int \<Rightarrow> string \<Rightarrow> detail + string \<times> string \<Rightarrow> sessions \<Rightarrow>
   (string \<times> uuid \<times> string) session_response" where
  "bank_login_callback env pr race now j validated s =
     (case validated of
        Inl es \<Rightarrow> (Inl (ValidationError es), s)
      | Inr (code, state) \<Rightarrow>
         (case redeem_state now state (kv s) of
            (None, r) \<Rightarrow> (Inl (BusinessRuleError ''OAuth state mismatch.'' ''invalid_oauth_state'' None), s\<lparr>kv := r\<rparr>)
          | (Some slug, r) \<Rightarrow>
              let s1 = s\<lparr>kv := r\<rparr>
              in case get_connector slug of
                   Inl e \<Rightarrow> (Inl (Unhandled ''BankConnectorError''), s1)
                 | Inr _ \<Rightarrow>
                    (case exchange_code_for_token pr code of
                       Inl e \<Rightarrow> (Inl bank_login_failed, s1)
                     | Inr t \<Rightarrow>
                        (case customer_connection slug t (base s1) of
                           Some c \<Rightarrow> repeat_bank_login env pr now j t c s1
                         | None \<Rightarrow> first_bank_login env pr race now j slug t s1))))"


subsection \<open>Authentication classes\<close>

definition wrong_token_type :: "string \<Rightarrow> exc" where
  "wrong_token_type m = APIException 401 ''wrong_token_type'' (Str m)"

definition user_not_found :: "string \<Rightarrow> exc" where
  "user_not_found m = APIException 401 ''user_not_found'' (Str m)"

definition user_jwt_get_user :: "auth_env \<Rightarrow> claims \<Rightarrow> sessions \<Rightarrow> exc + user" where
  "user_jwt_get_user env cl s =
     (if cl_admin cl then Inl (wrong_token_type ''Admin tokens cannot be used on user-facing endpoints.'')
      else jwt_get_user (jwt env) cl (users (base s)))"

definition admin_jwt_get_user :: "claims \<Rightarrow> sessions \<Rightarrow> exc + admin_user" where
  "admin_jwt_get_user cl s =
     (if \<not> cl_admin cl then Inl (wrong_token_type ''Not an admin token.'')
      else
       (case row_named adm_id (admins s) (cl_user cl) of
          None \<Rightarrow> Inl (user_not_found ''Admin user not found.'')
        | Some a \<Rightarrow> Inr a))"

text \<open>A bearer token at a user-facing endpoint, and at one under /admin.\<close>

definition authenticate_user :: "auth_env \<Rightarrow> int \<Rightarrow> string \<Rightarrow> sessions \<Rightarrow> exc + user" where
  "authenticate_user env now raw s =
     (case open_access (jwt env) now raw of
        Inl m \<Rightarrow> Inl (InvalidToken m)
      | Inr cl \<Rightarrow> user_jwt_get_user env cl s)"

definition authenticate_admin :: "auth_env \<Rightarrow> int \<Rightarrow> string \<Rightarrow> sessions \<Rightarrow> exc + admin_user" where
  "authenticate_admin env now raw s =
     (case open_access (jwt env) now raw of
        Inl m \<Rightarrow> Inl (InvalidToken m)
      | Inr cl \<Rightarrow> admin_jwt_get_user cl s)"

definition mint_sse_ticket :: "int \<Rightarrow> string \<Rightarrow> user \<Rightarrow> sessions \<Rightarrow> (string \<times> int) session_response" where
  "mint_sse_ticket now t me s =
     (Inr (t, SSE_TICKET_TTL_SECONDS), s\<lparr>kv := mint_ticket now t (user_id me) (kv s)\<rparr>)"

text \<open>\<open>Inr None\<close> where there is no ticket to authenticate with.\<close>

definition authenticate_sse :: "int \<Rightarrow> string option \<Rightarrow> sessions \<Rightarrow> user option session_response" where
  "authenticate_sse now given s =
     (case cookie_value given of
        None \<Rightarrow> (Inr None, s)
      | Some t \<Rightarrow>
         (case redeem_ticket now t (kv s) of
            (None, r) \<Rightarrow> (Inl (APIException 401 ''invalid_ticket'' (Str ''Invalid or expired ticket.'')), s\<lparr>kv := r\<rparr>)
          | (Some v, r) \<Rightarrow>
             (case row_named user_id (users (base s)) v of
                None \<Rightarrow> (Inl (user_not_found ''User not found.''), s\<lparr>kv := r\<rparr>)
              | Some x \<Rightarrow> (Inr (Some x), s\<lparr>kv := r\<rparr>))))"

definition is_super_admin :: "admin_user \<Rightarrow> bool" where
  "is_super_admin a \<longleftrightarrow> adm_role a = ''super_admin''"

subsection \<open>Admin sessions\<close>

text \<open>The body's access token, admin id and role, and the refresh token of the cookie.\<close>

definition admin_token_pair_response ::
  "auth_env \<Rightarrow> int \<Rightarrow> string \<Rightarrow> admin_user \<Rightarrow> string \<times> uuid \<times> string \<times> string" where
  "admin_token_pair_response env now j a =
     (case new_refresh (jwt env) now j (uuid_str (adm_id a)) True of
        (r, acc) \<Rightarrow> (acc, adm_id a, adm_role a, r))"

definition admin_login ::
  "auth_env \<Rightarrow> int \<Rightarrow> string \<Rightarrow> detail + string \<times> string \<Rightarrow> sessions \<Rightarrow>
   (string \<times> uuid \<times> string \<times> string) session_response" where
  "admin_login env now j validated s =
     (case validated of
        Inl es \<Rightarrow> (Inl (ValidationError es), s)
      | Inr (email, pw) \<Rightarrow>
          let found = first_pk adm_id (filter (\<lambda>a. adm_email a = email) (admins s));
              matches = check_password env pw (case found of Some a \<Rightarrow> adm_password_hash a | None \<Rightarrow> dummy_hash env)
          in case found of
               None \<Rightarrow> (Inl (drf_validation_error (Str ''Invalid email or password.'')), s)
             | Some a \<Rightarrow>
                 if \<not> matches then (Inl (drf_validation_error (Str ''Invalid email or password.'')), s)
                 else (Inr (admin_token_pair_response env now j a), s))"

text \<open>The \<open>jti\<close> column is unique, so a token already there is refused.\<close>

definition admin_refresh ::
  "auth_env \<Rightarrow> int \<Rightarrow> string \<Rightarrow> string option \<Rightarrow> sessions \<Rightarrow> (string \<times> uuid \<times> string \<times> string) session_response" where
  "admin_refresh env now j cookie s =
     (case cookie_value cookie of
        None \<Rightarrow> (Inl (InvalidToken ''No admin refresh token cookie present.''), s)
      | Some raw \<Rightarrow>
         (case open_refresh (jwt env) now raw (jwts s) of
            Inl m \<Rightarrow> (Inl (InvalidToken m), s)
          | Inr cl \<Rightarrow>
              if \<not> cl_admin cl then (Inl (InvalidToken ''Not an admin refresh token.''), s)
              else if cl_jti cl \<in> set (admin_blacklist s) then
                (Inl (InvalidToken ''This admin refresh token has already been used.''), s)
              else
                let s1 = s\<lparr>admin_blacklist := admin_blacklist s @ [cl_jti cl]\<rparr>
                in case row_named adm_id (admins s1) (cl_user cl) of
                     None \<Rightarrow> (Inl (InvalidToken ''Admin user not found.''), s1)
                   | Some a \<Rightarrow> (Inr (admin_token_pair_response env now j a), s1)))"

definition admin_logout :: "auth_env \<Rightarrow> int \<Rightarrow> string option \<Rightarrow> sessions \<Rightarrow> unit session_response" where
  "admin_logout env now cookie s =
     (case cookie_value cookie of
        None \<Rightarrow> (Inr (), s)
      | Some raw \<Rightarrow>
         (case open_refresh (jwt env) now raw (jwts s) of
            Inl m \<Rightarrow> (Inr (), s)
          | Inr cl \<Rightarrow>
              (Inr (), if cl_jti cl \<in> set (admin_blacklist s) then s
                       else s\<lparr>admin_blacklist := admin_blacklist s @ [cl_jti cl]\<rparr>)))"

subsection \<open>Everything that happens to the sessions\<close>

text \<open>
  Deleting a user takes the user off its \<open>OutstandingToken\<close> rows, which stay. \<open>Elsewhere\<close> is a
  request of another component: the token tables and Redis are this one's alone.
\<close>

definition delete_me_sessions :: "user \<Rightarrow> sessions \<Rightarrow> unit session_response" where
  "delete_me_sessions me s =
     (case delete_me me (base s) of
        (r, d) \<Rightarrow> (r, s\<lparr>base := d, jwts := (jwts s)\<lparr>outstanding :=
          map (\<lambda>(j, v). (j, if v = Some (user_id me) then None else v)) (outstanding (jwts s))\<rparr>\<rparr>))"

datatype session_op =
    Signup int entropy bool "detail + signup_body"
  | Login int entropy "detail + string \<times> string"
  | Refresh int string "string option"
  | Logout int "string option"
  | Logout_all int user "string option"
  | Bank_initiate int string "detail + string"
  | Bank_callback "db \<Rightarrow> db" int string "detail + string \<times> string"
  | Reset_request int entropy "detail + string"
  | Reset_message bool nat
  | Reset_confirm int entropy "detail + string \<times> string"
  | Verify_request int entropy "string option" user
  | Verify_confirm int "detail + string"
  | Sse_mint int string user
  | Sse_open int "string option"
  | Admin_login int string "detail + string \<times> string"
  | Admin_refresh int string "string option"
  | Admin_logout int "string option"
  | Delete_me user
  | Elsewhere "db \<Rightarrow> db"

fun session_step :: "auth_env \<Rightarrow> provider \<Rightarrow> session_op \<Rightarrow> sessions \<Rightarrow> sessions" where
  "session_step env pr (Signup now en sent v) s = snd (signup env now en sent v s)"
| "session_step env pr (Login now en v) s = snd (login env now en v s)"
| "session_step env pr (Refresh now j c) s = snd (refresh_session env now j c s)"
| "session_step env pr (Logout now c) s = snd (logout env now c s)"
| "session_step env pr (Logout_all now me c) s = snd (logout_all env now me c s)"
| "session_step env pr (Bank_initiate now st v) s = snd (bank_login_initiate env now st v s)"
| "session_step env pr (Bank_callback race now j v) s = snd (bank_login_callback env pr race now j v s)"
| "session_step env pr (Reset_request now en v) s = snd (password_reset_request env now en v s)"
| "session_step env pr (Reset_message sent i) s = run_reset_message sent i s"
| "session_step env pr (Reset_confirm now en v) s = snd (password_reset_confirm env now en v s)"
| "session_step env pr (Verify_request now en f me) s = snd (email_verification_request env now en f me s)"
| "session_step env pr (Verify_confirm now v) s = snd (email_verification_confirm env now v s)"
| "session_step env pr (Sse_mint now t me) s = snd (mint_sse_ticket now t me s)"
| "session_step env pr (Sse_open now t) s = snd (authenticate_sse now t s)"
| "session_step env pr (Admin_login now j v) s = snd (admin_login env now j v s)"
| "session_step env pr (Admin_refresh now j c) s = snd (admin_refresh env now j c s)"
| "session_step env pr (Admin_logout now c) s = snd (admin_logout env now c s)"
| "session_step env pr (Delete_me me) s = snd (delete_me_sessions me s)"
| "session_step env pr (Elsewhere f) s = s\<lparr>base := f (base s)\<rparr>"

end
