(* ===== verification/Session_Laws.thy ===== *)
theory Session_Laws
  imports Sessions
begin

text \<open>
  What the sessions promise: a reset or a logout of all devices ends the sessions it names for
  good, a refresh token is good for one pair, the two credential spaces do not meet, a
  verification link is spent by the verification, and a bank customer is one user.
\<close>

subsection \<open>What the JWT library promises\<close>

text \<open>
  A token that opens is not blacklisted, and carries the claims it was signed with whenever it
  opens; no operation takes a \<open>jti\<close> off the blacklist; and a rotation blacklists the token it
  was given, as \<open>ROTATE_REFRESH_TOKENS\<close> and \<open>BLACKLIST_AFTER_ROTATION\<close> ask.
\<close>

definition jwt_contract :: "jwt_library \<Rightarrow> bool" where
  "jwt_contract L \<longleftrightarrow>
     (\<forall>now raw tk cl. open_refresh L now raw tk = Inr cl \<longrightarrow> cl_jti cl \<notin> set (blacklisted tk)) \<and>
     (\<forall>now raw tk cl now' tk' cl'. open_refresh L now raw tk = Inr cl \<longrightarrow>
        open_refresh L now' raw tk' = Inr cl' \<longrightarrow> cl' = cl) \<and>
     (\<forall>now j x tk. set (blacklisted tk) \<subseteq> set (blacklisted (snd (for_user L now j x tk)))) \<and>
     (\<forall>now j raw us tk. set (blacklisted tk) \<subseteq> set (blacklisted (snd (rotate_refresh L now j raw us tk)))) \<and>
     (\<forall>now raw tk. set (blacklisted tk) \<subseteq> set (blacklisted (blacklist_refresh L now raw tk))) \<and>
     (\<forall>now j raw us tk r tk'. rotate_refresh L now j raw us tk = (Inr r, tk') \<longrightarrow>
        (\<exists>cl. open_refresh L now raw tk = Inr cl \<and> cl_jti cl \<in> set (blacklisted tk')))"

lemma opened_not_blacklisted:
  "jwt_contract L \<Longrightarrow> open_refresh L now raw tk = Inr cl \<Longrightarrow> cl_jti cl \<notin> set (blacklisted tk)"
  by (simp add: jwt_contract_def)

lemma opened_same:
  "jwt_contract L \<Longrightarrow> open_refresh L now raw tk = Inr cl \<Longrightarrow> open_refresh L now' raw tk' = Inr cl' \<Longrightarrow> cl' = cl"
  by (simp add: jwt_contract_def)

lemma library_grows:
  assumes "jwt_contract L"
  shows "set (blacklisted tk) \<subseteq> set (blacklisted (snd (for_user L now j x tk)))"
    and "set (blacklisted tk) \<subseteq> set (blacklisted (snd (rotate_refresh L now j raw us tk)))"
    and "set (blacklisted tk) \<subseteq> set (blacklisted (blacklist_refresh L now raw tk))"
  using assms by (simp_all add: jwt_contract_def)

lemma rotation_spends:
  assumes "jwt_contract L" "rotate_refresh L now j raw us tk = (Inr r, tk')"
  shows "\<exists>cl. open_refresh L now raw tk = Inr cl \<and> cl_jti cl \<in> set (blacklisted tk')"
  using assms by (cases r) (simp add: jwt_contract_def)

subsection \<open>Blacklists only grow\<close>

lemma blacklist_jti_set [simp]: "set (blacklisted (blacklist_jti j tk)) = insert j (set (blacklisted tk))"
  by (auto simp: blacklist_jti_def)

lemma fold_blacklist_set:
  "set (blacklisted (fold (\<lambda>(j, v). blacklist_jti j) rows tk)) = set (blacklisted tk) \<union> fst ` set rows"
  by (induction rows arbitrary: tk) auto

lemma blacklist_all_set:
  "set (blacklisted (blacklist_all_outstanding_tokens u ex tk)) =
     set (blacklisted tk) \<union> {j. (j, Some u) \<in> set (outstanding tk) \<and> cookie_value ex \<noteq> Some j}"
  by (auto simp: blacklist_all_outstanding_tokens_def fold_blacklist_set Let_def image_iff split: option.splits)

lemma pair_blacklist:
  "jwt_contract (jwt env) \<Longrightarrow>
   set (blacklisted (jwts s)) \<subseteq> set (blacklisted (jwts (snd (token_pair_response env now j x s))))"
  using library_grows(1) [of "jwt env" "jwts s" now j x]
  by (auto simp: token_pair_response_def split: prod.splits sum.splits)

lemma pair_admin [simp]: "admin_blacklist (snd (token_pair_response env now j x s)) = admin_blacklist s"
  by (auto simp: token_pair_response_def split: prod.splits sum.splits)

lemma mail_tables [simp]:
  "jwts (send_email sent to subject link s) = jwts s"
  "admin_blacklist (send_email sent to subject link s) = admin_blacklist s"
  "base (send_email sent to subject link s) = base s"
  "kv (send_email sent to subject link s) = kv s"
  "jwts (snd (link_mail env path t now x tok s)) = jwts s"
  "admin_blacklist (snd (link_mail env path t now x tok s)) = admin_blacklist s"
  "base (snd (link_mail env path t now x tok s)) = base s"
  by (simp_all add: send_email_def link_mail_def)

lemma verification_mail_tables [simp]:
  "jwts (send_verification_email env sent t now x s) = jwts s"
  "admin_blacklist (send_verification_email env sent t now x s) = admin_blacklist s"
  "base (send_verification_email env sent t now x s) = base s"
  by (simp_all add: send_verification_email_def verify_email_link_def link_mail_def)

lemma redeem_link_tables [simp]:
  "jwts (snd (redeem_link now t s)) = jwts s" "admin_blacklist (snd (redeem_link now t s)) = admin_blacklist s"
  "base (snd (redeem_link now t s)) = base s"
  by (auto simp: redeem_link_def split: prod.splits option.splits)

lemma on_users_tables [simp]:
  "jwts (on_users f s) = jwts s" "admin_blacklist (on_users f s) = admin_blacklist s" "kv (on_users f s) = kv s"
  by (simp_all add: on_users_def)


text \<open>What an operation does to the two blacklists, one operation at a time.\<close>

definition grows :: "sessions \<Rightarrow> sessions \<Rightarrow> bool" where
  "grows s s' \<longleftrightarrow> set (blacklisted (jwts s)) \<subseteq> set (blacklisted (jwts s')) \<and>
     set (admin_blacklist s) \<subseteq> set (admin_blacklist s')"

lemma grows_refl [simp]: "grows s s"
  by (simp add: grows_def)

lemma grows_trans: "grows s s' \<Longrightarrow> grows s' s'' \<Longrightarrow> grows s s''"
  by (auto simp: grows_def)

lemma grows_same: "jwts s' = jwts s \<Longrightarrow> admin_blacklist s' = admin_blacklist s \<Longrightarrow> grows s s'"
  by (simp add: grows_def)

lemma pair_grows:
  assumes "jwt_contract (jwt env)" "jwts s' = jwts s" "admin_blacklist s' = admin_blacklist s"
  shows "grows s (snd (token_pair_response env now j x s'))"
  using pair_blacklist [OF assms(1), of s' now j x] assms(2,3) by (simp add: grows_def)

lemma signup_grows: "jwt_contract (jwt env) \<Longrightarrow> grows s (snd (signup env now en sent v s))"
  by (auto simp: signup_def intro: pair_grows grows_same split: sum.split list.split prod.split)

lemma login_grows: "jwt_contract (jwt env) \<Longrightarrow> grows s (snd (login env now en v s))"
  by (auto simp: login_def intro: pair_grows split: sum.split option.split)

lemma refresh_grows: "jwt_contract (jwt env) \<Longrightarrow> grows s (snd (refresh_session env now j c s))"
  using library_grows(2) [of "jwt env" "jwts s" now j _ "users (base s)"]
  by (auto simp: refresh_session_def grows_def split: option.split prod.split) (metis snd_conv subsetD)

lemma logout_grows: "jwt_contract (jwt env) \<Longrightarrow> grows s (snd (logout env now c s))"
  using library_grows(3) [of "jwt env" "jwts s" now]
  by (auto simp: logout_def grows_def split: option.split sum.split)

lemma logout_all_grows: "grows s (snd (logout_all env now me c s))"
  by (simp add: logout_all_def grows_def blacklist_all_set Let_def)

lemma repeat_grows: "jwt_contract (jwt env) \<Longrightarrow> grows s (snd (repeat_bank_login env pr now j t c s))"
  by (auto simp: repeat_bank_login_def Let_def intro: pair_grows grows_same split: sum.split prod.split)

lemma first_grows: "jwt_contract (jwt env) \<Longrightarrow> grows s (snd (first_bank_login env pr race now j slug t s))"
  by (auto simp: first_bank_login_def Let_def intro: pair_grows grows_same
      split: sum.split prod.split exc.split option.split)

lemma callback_grows:
  assumes "jwt_contract (jwt env)"
  shows "grows s (snd (bank_login_callback env pr race now j v s))"
proof -
  have r: "grows s (snd (repeat_bank_login env pr now j t c (s\<lparr>kv := r\<rparr>)))" for r t c
    using repeat_grows [OF assms, of "s\<lparr>kv := r\<rparr>"] by (simp add: grows_def)
  have f: "grows s (snd (first_bank_login env pr race now j slug t (s\<lparr>kv := r\<rparr>)))" for r t slug
    using first_grows [OF assms, of "s\<lparr>kv := r\<rparr>"] by (simp add: grows_def)
  show ?thesis
    by (auto simp: bank_login_callback_def Let_def r f intro: grows_same split: sum.split prod.split option.split)
qed

lemma cookie_none [simp]: "cookie_value None = None"
  by (simp add: cookie_value_def)

lemma redeem_linkD:
  "redeem_link now t s = (r, s1) \<Longrightarrow> jwts s1 = jwts s \<and> admin_blacklist s1 = admin_blacklist s \<and> base s1 = base s"
  using redeem_link_tables [of now t s] by simp

lemma reset_confirm_grows: "grows s (snd (password_reset_confirm env now en v s))"
  by (auto simp: password_reset_confirm_def grows_def Let_def blacklist_all_set
      split: sum.split prod.split option.split dest!: redeem_linkD)

lemma verify_confirm_grows: "grows s (snd (email_verification_confirm env now v s))"
  by (auto simp: email_verification_confirm_def grows_def split: sum.split prod.split option.split
      dest!: redeem_linkD)

lemma request_grows:
  "grows s (snd (password_reset_request env now en v' s))" "grows s (snd (email_verification_request env now en f me s))"
  "grows s (snd (bank_login_initiate env now st v'' s))" "grows s (snd (mint_sse_ticket now t me s))"
  "grows s (snd (authenticate_sse now c s))" "grows s (run_reset_message sent i s)"
  "grows s (snd (delete_me_sessions me s))"
  by (auto simp: password_reset_request_def email_verification_request_def bank_login_initiate_def
      mint_sse_ticket_def authenticate_sse_def run_reset_message_def send_password_reset_email_def
      reset_password_link_def verify_email_link_def link_mail_def send_email_def delete_me_sessions_def grows_def Let_def
      split: sum.split option.split prod.split task.split)

lemma admin_grows:
  "grows s (snd (admin_login env now j v s))" "grows s (snd (admin_refresh env now j c s))"
  "grows s (snd (admin_logout env now c s))"
  by (auto simp: admin_login_def admin_refresh_def admin_logout_def grows_def Let_def
      split: sum.split option.split)

lemma step_grows:
  assumes "jwt_contract (jwt env)"
  shows "grows s (session_step env pr op s)"
  using assms
  by (cases op) (simp_all add: signup_grows login_grows refresh_grows logout_grows logout_all_grows
      callback_grows reset_confirm_grows verify_confirm_grows request_grows admin_grows,
      simp add: grows_def)

lemma run_grows:
  assumes "jwt_contract (jwt env)"
  shows "grows s (fold (session_step env pr) ops s)"
proof (induction ops arbitrary: s)
  case (Cons op ops)
  show ?case using grows_trans [OF step_grows [OF assms] Cons.IH] by simp
qed simp


subsection \<open>A library for the examples\<close>

text \<open>
  A token spells out its use, its holder and its \<open>jti\<close>; this shows that the contract can be
  met, and the examples below run on it.
\<close>

definition plain_token :: "char \<Rightarrow> bool \<Rightarrow> string \<Rightarrow> string \<Rightarrow> string" where
  "plain_token use adm u j = use # (if adm then CHR ''A'' else CHR ''U'') #
     replicate (length u) CHR ''1'' @ CHR ''0'' # u @ j"

definition plain_claims :: "string \<Rightarrow> claims" where
  "plain_claims raw =
     (let w = length (takeWhile (\<lambda>c. c = CHR ''1'') (drop 2 raw)); rest = drop (w + 3) raw
      in \<lparr>cl_jti = drop w rest, cl_user = take w rest, cl_admin = (take 1 (drop 1 raw) = ''A'')\<rparr>)"

definition plain_open :: "string \<Rightarrow> tokens \<Rightarrow> string + claims" where
  "plain_open raw tk =
     (if take 1 raw \<noteq> ''R'' then Inl ''Token has wrong type''
      else if cl_jti (plain_claims raw) \<in> set (blacklisted tk) then Inl ''Token is blacklisted''
      else Inr (plain_claims raw))"

definition plain_jwt :: jwt_library where
  "plain_jwt =
     \<lparr>for_user = (\<lambda>now j x tk.
        (Inr (plain_token CHR ''R'' False (uuid_str (user_id x)) j, plain_token CHR ''X'' False (uuid_str (user_id x)) j),
         tk\<lparr>outstanding := outstanding tk @ [(j, Some (user_id x))]\<rparr>)),
      new_refresh = (\<lambda>now j u adm. (plain_token CHR ''R'' adm u j, plain_token CHR ''X'' adm u j)),
      open_refresh = (\<lambda>now raw tk. plain_open raw tk),
      open_access = (\<lambda>now raw. if take 1 raw \<noteq> ''X'' then Inl ''Token has wrong type'' else Inr (plain_claims raw)),
      rotate_refresh = (\<lambda>now j raw us tk.
        case plain_open raw tk of
          Inl m \<Rightarrow> (Inl (InvalidToken m), tk)
        | Inr cl \<Rightarrow> (Inr (plain_token CHR ''X'' (cl_admin cl) (cl_user cl) j,
                           Some (plain_token CHR ''R'' (cl_admin cl) (cl_user cl) j)),
                     blacklist_jti (cl_jti cl) tk)),
      blacklist_refresh = (\<lambda>now raw tk. blacklist_jti (cl_jti (plain_claims raw)) tk),
      jwt_get_user = (\<lambda>cl us.
        case row_named user_id us (cl_user cl) of
          None \<Rightarrow> Inl (user_not_found ''User not found'')
        | Some x \<Rightarrow> Inr x)\<rparr>"

lemma skip_header: "drop (w + 3) (a # b # replicate w c @ d # xs) = xs"
  by (simp add: numeral_3_eq_3)

lemma plain_token_parts [simp]:
  "take (Suc 0) (plain_token use adm u j) = [use]" "plain_token use adm u j \<noteq> []"
  "plain_claims (plain_token use adm u j) = \<lparr>cl_jti = j, cl_user = u, cl_admin = adm\<rparr>"
proof -
  have w: "length (takeWhile (\<lambda>c. c = CHR ''1'') (drop 2 (plain_token use adm u j))) = length u"
    by (simp add: plain_token_def takeWhile_append)
  have r: "drop (length u + 3) (plain_token use adm u j) = u @ j"
    unfolding plain_token_def by (rule skip_header)
  show "plain_claims (plain_token use adm u j) = \<lparr>cl_jti = j, cl_user = u, cl_admin = adm\<rparr>"
    unfolding plain_claims_def Let_def w r by (simp add: plain_token_def)
qed (simp_all add: plain_token_def)

lemma plain_open_token [simp]:
  "plain_open (plain_token CHR ''R'' adm u j) tk =
     (if j \<in> set (blacklisted tk) then Inl ''Token is blacklisted'' else Inr (plain_claims (plain_token CHR ''R'' adm u j)))"
  by (simp add: plain_open_def)

lemma plain_jwt_contract: "jwt_contract plain_jwt"
  by (auto simp: jwt_contract_def plain_jwt_def plain_open_def plain_claims_def split: sum.splits if_splits)

text \<open>A signed token shows its key salt's length, its time and what it is a hash of.\<close>

definition ticks :: "nat \<Rightarrow> string \<Rightarrow> string" where
  "ticks n xs = replicate n CHR ''1'' @ CHR ''0'' # xs"

definition plain_signed :: "string \<Rightarrow> (int \<Rightarrow> string) \<Rightarrow> int \<Rightarrow> string" where
  "plain_signed k h now = ticks (length k) (ticks (nat now) (k @ h now))"

definition plain_stamp :: "string \<Rightarrow> string \<Rightarrow> nat" where
  "plain_stamp k tok = length (takeWhile (\<lambda>c. c = CHR ''1'') (drop (Suc (length k)) tok))"

lemma ticks_inj: "ticks n xs = ticks m ys \<longleftrightarrow> n = m \<and> xs = ys"
proof (induction n arbitrary: m)
  case 0
  then show ?case by (cases m) (auto simp: ticks_def)
next
  case (Suc n)
  then show ?case by (cases m) (auto simp: ticks_def)
qed

lemma plain_stamp_signed [simp]: "plain_stamp k (plain_signed k h now) = nat now"
  by (simp add: plain_stamp_def plain_signed_def ticks_def takeWhile_append)

definition plain_env :: auth_env where
  "plain_env = \<lparr>jwt = plain_jwt, hash_password = (\<lambda>slt pw. slt @ pw), check_password = (\<lambda>pw h. pw = h),
     django_authenticate = (\<lambda>us e pw. List.find (\<lambda>x. user_email x = e \<and> password x = Some pw) us),
     normalize_email = id, check_email = Inr,
     make_signed = plain_signed,
     check_signed = (\<lambda>k h now tok. tok = plain_signed k h (int (plain_stamp k tok))),
     reset_hash_value = (\<lambda>x t. uuid_str (user_id x) @ case_option '''' id (password x)),
     reset_key_salt = ''reset'', dummy_hash = '''', frontend_url = '''', authorize_url = id\<rparr>"

lemma plain_open_refresh [simp]:
  "open_refresh (jwt plain_env) now (plain_token CHR ''R'' adm u j) tk =
     (if j \<in> set (blacklisted tk) then Inl ''Token is blacklisted'' else Inr (plain_claims (plain_token CHR ''R'' adm u j)))"
  by (simp add: plain_env_def plain_jwt_def)

definition no_bank :: provider where
  "no_bank = \<lparr>post_token = (\<lambda>c. Inl ''''), fetch_accounts = (\<lambda>t. Inl ''''), fetch_transactions = (\<lambda>t k. Inl '''')\<rparr>"

definition plain_user :: "uuid \<Rightarrow> string \<Rightarrow> user" where
  "plain_user k e = \<lparr>user_id = k, user_name = ''Mona'', user_email = e, user_phone = None,
     employment_status = None, income_bracket = None, monthly_income = None, income_steadiness = None,
     dependents_count = 0, user_status = ''active'', email_verified = False, password = Some ''old''\<rparr>"

definition plain_sessions :: "user list \<Rightarrow> sessions" where
  "plain_sessions us = \<lparr>base = empty_db\<lparr>users := us\<rparr>, kv = Map.empty, jwts = \<lparr>outstanding = [], blacklisted = []\<rparr>,
     admins = [], admin_blacklist = [], mails = []\<rparr>"

lemmas plain_defs = plain_env_def plain_jwt_def plain_sessions_def plain_user_def empty_db_def

subsection \<open>Ending sessions\<close>

lemma blacklisted_is_refused:
  assumes "jwt_contract (jwt env)" "open_refresh (jwt env) n raw tk = Inr cl" "cl_jti cl \<in> set (blacklisted (jwts s))"
  shows "\<exists>e. fst (refresh_session env n' j (Some raw) s) = Inl e"
proof (cases "cookie_value (Some raw)")
  case None
  then show ?thesis by (simp add: refresh_session_def)
next
  case (Some raw')
  then have raw': "raw' = raw" by (simp add: cookie_value_def split: if_splits)
  obtain r tk' where rot: "rotate_refresh (jwt env) n' j raw (users (base s)) (jwts s) = (r, tk')" by fastforce
  have "\<not> (\<exists>p. r = Inr p)"
  proof
    assume "\<exists>p. r = Inr p"
    then obtain p where p: "r = Inr p" by blast
    obtain cl' where "open_refresh (jwt env) n' raw (jwts s) = Inr cl'"
      using rotation_spends [OF assms(1) rot [unfolded p]] by blast
    then show False
      using opened_same [OF assms(1,2)] opened_not_blacklisted [OF assms(1)] assms(3) by blast
  qed
  then have "isl r" by (cases r) auto
  then show ?thesis using Some raw' rot by (auto simp: refresh_session_def isl_def)
qed

lemma later_refused:
  assumes "jwt_contract (jwt env)" "open_refresh (jwt env) n raw tk = Inr cl" "cl_jti cl \<in> set (blacklisted (jwts s))"
  shows "\<exists>e. fst (refresh_session env n' j (Some raw) (fold (session_step env pr) ops s)) = Inl e"
  using run_grows [OF assms(1), of s pr ops] assms(3)
  by (intro blacklisted_is_refused [OF assms(1,2)]) (auto simp: grows_def)

lemma row_named_in: "row_named pk rs v = Some r \<Longrightarrow> r \<in> set rs \<and> uuid_str (pk r) = v"
  by (auto simp: row_named_def find_Some_iff)

lemma redeem_link_user: "redeem_link now t s = (Some (x, tok), s1) \<Longrightarrow> x \<in> set (users (base s))"
  by (auto simp: redeem_link_def split: prod.splits option.splits dest: row_named_in)

lemma reset_confirmed:
  assumes "password_reset_confirm env now en (Inr (t, pw)) s = (Inr (), s')"
    and "redeem_link now t s = (Some (x, tok), s1)"
  shows "jwts s' = blacklist_all_outstanding_tokens (user_id x) None (jwts s)"
    and "users (base s') = save_row user_id (x\<lparr>password := Some (hash_password env (salt en) pw)\<rparr>) (users (base s))"
  using assms redeem_linkD [OF assms(2)]
  by (auto simp: password_reset_confirm_def Let_def on_users_def split: if_splits)

text \<open>C27. A completed password reset ends every session of that user for good: a refresh token whose
  row was outstanding for the user when the reset was confirmed buys no new pair, whatever
  happens to the sessions afterwards, and the stored password is the new one's hash.\<close>

theorem reset_ends_sessions:
  assumes "jwt_contract (jwt env)"
    and "password_reset_confirm env now en (Inr (t, pw)) s = (Inr (), s')"
    and "redeem_link now t s = (Some (x, tok), s1)"
    and "(cl_jti cl, Some (user_id x)) \<in> set (outstanding (jwts s))"
    and "open_refresh (jwt env) n raw tk = Inr cl"
  shows "(\<exists>e. fst (refresh_session env n' j (Some raw) (fold (session_step env pr) ops s')) = Inl e) \<and>
    map_option password (by_pk user_id (users (base s')) (user_id x)) = Some (Some (hash_password env (salt en) pw))"
proof
  have "cl_jti cl \<in> set (blacklisted (jwts s'))"
    using assms(4) by (simp add: reset_confirmed(1) [OF assms(2,3)] blacklist_all_set)
  then show "\<exists>e. fst (refresh_session env n' j (Some raw) (fold (session_step env pr) ops s')) = Inl e"
    by (rule later_refused [OF assms(1,5)])
  show "map_option password (by_pk user_id (users (base s')) (user_id x)) = Some (Some (hash_password env (salt en) pw))"
    using redeem_link_user [OF assms(3)] by (simp add: reset_confirmed(2) [OF assms(2,3)] by_pk_save_row)
qed


text \<open>A login, a reset request and its confirmation; the login's cookie is then dead.\<close>

definition reset_example :: sessions where
  "reset_example =
     (let en = \<lparr>salt = ''s'', ticket = ''tk'', jti = ''j1''\<rparr>;
          s0 = plain_sessions [plain_user 7 ''m@x'']
      in snd (password_reset_request plain_env 2 en (Inr ''m@x'')
           (snd (login plain_env 1 en (Inr (''m@x'', ''old'')) s0))))"

theorem reset_ends_sessions_witness:
  "let en = \<lparr>salt = ''s'', ticket = ''tk2'', jti = ''j2''\<rparr>;
       s' = snd (password_reset_confirm plain_env 2 en (Inr (''tk'', ''newpass1'')) reset_example)
   in (\<exists>e. fst (refresh_session plain_env 9 ''j3'' (Some (plain_token CHR ''R'' False (uuid_str 7) ''j1''))
          (fold (session_step plain_env no_bank) [Login 4 en (Inr (''m@x'', ''newpass1''))] s')) = Inl e) \<and>
      map_option password (by_pk user_id (users (base s')) (user_id (plain_user 7 ''m@x''))) =
        Some (Some (hash_password plain_env (salt en) ''newpass1''))"
proof -
  let ?en = "\<lparr>salt = ''s'', ticket = ''tk2'', jti = ''j2''\<rparr>"
  let ?raw = "plain_token CHR ''R'' False (uuid_str 7) ''j1''"
  have c: "jwt_contract (jwt plain_env)" by (simp add: plain_env_def plain_jwt_contract)
  have l1: "fst (redeem_link 2 ''tk'' reset_example) =
      Some (plain_user 7 ''m@x'', make_reset_token plain_env 2 (plain_user 7 ''m@x''))"
    by (simp add: reset_example_def login_def token_pair_response_def password_reset_request_def redeem_link_def
        redeem_link_ticket_def redis_getdel_def reset_password_link_def link_mail_def mint_link_ticket_def
        redis_set_def PASSWORD_RESET_TIMEOUT_def row_named_def plain_defs)
  then obtain s1 where l: "redeem_link 2 ''tk'' reset_example =
      (Some (plain_user 7 ''m@x'', make_reset_token plain_env 2 (plain_user 7 ''m@x'')), s1)"
    by (metis eq_fst_iff)
  have "check_reset_token plain_env 2 (plain_user 7 ''m@x'') (make_reset_token plain_env 2 (plain_user 7 ''m@x''))"
    by (simp add: check_reset_token_def make_reset_token_def plain_env_def)
  then have "fst (password_reset_confirm plain_env 2 ?en (Inr (''tk'', ''newpass1'')) reset_example) = Inr ()"
    by (simp add: password_reset_confirm_def Let_def l)
  then have r: "password_reset_confirm plain_env 2 ?en (Inr (''tk'', ''newpass1'')) reset_example =
      (Inr (), snd (password_reset_confirm plain_env 2 ?en (Inr (''tk'', ''newpass1'')) reset_example))"
    by (simp add: prod_eq_iff)
  have o1: "(cl_jti (plain_claims ?raw), Some (user_id (plain_user 7 ''m@x''))) \<in> set (outstanding (jwts reset_example))"
    by (simp add: reset_example_def login_def token_pair_response_def password_reset_request_def
        reset_password_link_def link_mail_def plain_defs)
  have o2: "open_refresh (jwt plain_env) 0 ?raw \<lparr>outstanding = [], blacklisted = []\<rparr> = Inr (plain_claims ?raw)"
    by simp
  show ?thesis unfolding Let_def by (rule reset_ends_sessions [OF c r l o1 o2])
qed

text \<open>Logging out of all devices ends exactly the other sessions: afterwards the blacklist holds
  what it held, and every token outstanding for the caller but the one in the caller's own
  cookie; each of those is refused for good, and no other table has changed.\<close>

theorem logout_all_ends_the_others:
  assumes "jwt_contract (jwt env)"
    and "open_refresh (jwt env) now own (jwts s) = Inr cl" "own \<noteq> []" "cl_jti cl \<noteq> []"
    and "logout_all env now me (Some own) s = (Inr (), s')"
  shows "set (blacklisted (jwts s')) = set (blacklisted (jwts s)) \<union>
      {j. (j, Some (user_id me)) \<in> set (outstanding (jwts s)) \<and> j \<noteq> cl_jti cl} \<and>
    cl_jti cl \<notin> set (blacklisted (jwts s')) \<and> s' = s\<lparr>jwts := jwts s'\<rparr> \<and>
    (\<forall>n raw tk other ops n' j. open_refresh (jwt env) n raw tk = Inr other \<longrightarrow>
       (cl_jti other, Some (user_id me)) \<in> set (outstanding (jwts s)) \<longrightarrow> cl_jti other \<noteq> cl_jti cl \<longrightarrow>
       (\<exists>e. fst (refresh_session env n' j (Some raw) (fold (session_step env pr) ops s')) = Inl e))"
proof -
  have s': "s' = s\<lparr>jwts := blacklist_all_outstanding_tokens (user_id me) (Some (cl_jti cl)) (jwts s)\<rparr>"
    using assms(2,3,5) by (simp add: logout_all_def cookie_value_def)
  have b: "set (blacklisted (jwts s')) = set (blacklisted (jwts s)) \<union>
      {j. (j, Some (user_id me)) \<in> set (outstanding (jwts s)) \<and> j \<noteq> cl_jti cl}"
    using assms(4) by (auto simp: s' blacklist_all_set cookie_value_def)
  have "cl_jti cl \<notin> set (blacklisted (jwts s'))"
    using opened_not_blacklisted [OF assms(1,2)] by (simp add: b)
  moreover have "\<exists>e. fst (refresh_session env n' j (Some raw) (fold (session_step env pr) ops s')) = Inl e"
    if "open_refresh (jwt env) n raw tk = Inr other" "(cl_jti other, Some (user_id me)) \<in> set (outstanding (jwts s))"
      "cl_jti other \<noteq> cl_jti cl" for n raw tk other ops n' j
    using that by (intro later_refused [OF assms(1) that(1)]) (simp add: b)
  ultimately show ?thesis using b s' by simp
qed

theorem logout_all_ends_the_others_witness:
  "let own = plain_token CHR ''R'' False (uuid_str 7) ''j1'';
       s = (plain_sessions [plain_user 7 ''m@x''])\<lparr>jwts := \<lparr>outstanding = [(''j1'', Some 7), (''j2'', Some 7)], blacklisted = []\<rparr>\<rparr>;
       s' = snd (logout_all plain_env 3 (plain_user 7 ''m@x'') (Some own) s)
   in set (blacklisted (jwts s')) = set (blacklisted (jwts s)) \<union>
        {j. (j, Some (user_id (plain_user 7 ''m@x''))) \<in> set (outstanding (jwts s)) \<and> j \<noteq> cl_jti (plain_claims own)}"
proof -
  let ?own = "plain_token CHR ''R'' False (uuid_str 7) ''j1''"
  let ?s = "(plain_sessions [plain_user 7 ''m@x''])\<lparr>jwts := \<lparr>outstanding = [(''j1'', Some 7), (''j2'', Some 7)], blacklisted = []\<rparr>\<rparr>"
  have c: "jwt_contract (jwt plain_env)" by (simp add: plain_env_def plain_jwt_contract)
  have o1: "open_refresh (jwt plain_env) 3 ?own (jwts ?s) = Inr (plain_claims ?own)" by simp
  have n: "?own \<noteq> []" "cl_jti (plain_claims ?own) \<noteq> []" by simp_all
  have r: "logout_all plain_env 3 (plain_user 7 ''m@x'') (Some ?own) ?s =
      (Inr (), snd (logout_all plain_env 3 (plain_user 7 ''m@x'') (Some ?own) ?s))"
    by (simp add: logout_all_def Let_def)
  show ?thesis unfolding Let_def using logout_all_ends_the_others [OF c o1 n r] by (rule conjunct1)
qed


subsection \<open>A refresh token is good for one pair\<close>

text \<open>A cookie presented at the two refresh endpoints, as a redemption.\<close>

definition redeem_refresh ::
  "auth_env \<Rightarrow> int \<times> string \<Rightarrow> string \<Rightarrow> sessions \<Rightarrow> (string \<times> string option) option \<times> sessions" where
  "redeem_refresh env nj raw s =
     (case refresh_session env (fst nj) (snd nj) (Some raw) s of
        (Inl e, s') \<Rightarrow> (None, s')
      | (Inr p, s') \<Rightarrow> (Some p, s'))"

definition redeem_admin_refresh ::
  "auth_env \<Rightarrow> int \<times> string \<Rightarrow> string \<Rightarrow> sessions \<Rightarrow> (string \<times> uuid \<times> string \<times> string) option \<times> sessions" where
  "redeem_admin_refresh env nj raw s =
     (case admin_refresh env (fst nj) (snd nj) (Some raw) s of
        (Inl e, s') \<Rightarrow> (None, s')
      | (Inr p, s') \<Rightarrow> (Some p, s'))"

text \<open>A raw token none of whose openings shows a \<open>jti\<close> of the list.\<close>

definition unspent :: "auth_env \<Rightarrow> string \<Rightarrow> string set \<Rightarrow> bool" where
  "unspent env raw J \<longleftrightarrow> (\<forall>n tk cl. open_refresh (jwt env) n raw tk = Inr cl \<longrightarrow> cl_jti cl \<notin> J)"

lemma unspent_mono: "\<not> unspent env raw J \<Longrightarrow> J \<subseteq> J' \<Longrightarrow> \<not> unspent env raw J'"
  unfolding unspent_def by blast

lemma unspentI:
  "jwt_contract (jwt env) \<Longrightarrow> open_refresh (jwt env) n raw tk = Inr cl \<Longrightarrow> cl_jti cl \<notin> J \<Longrightarrow> unspent env raw J"
  unfolding unspent_def using opened_same by blast

lemma spent: "open_refresh (jwt env) n raw tk = Inr cl \<Longrightarrow> cl_jti cl \<in> J \<Longrightarrow> \<not> unspent env raw J"
  unfolding unspent_def by blast

lemma refresh_wins:
  assumes "jwt_contract (jwt env)" "redeem_refresh env nj raw s = (Some p, s')"
  shows "\<exists>cl. open_refresh (jwt env) (fst nj) raw (jwts s) = Inr cl \<and> cl_jti cl \<in> set (blacklisted (jwts s'))"
proof -
  obtain tk where rot: "rotate_refresh (jwt env) (fst nj) (snd nj) raw (users (base s)) (jwts s) = (Inr p, tk)"
    and s': "s' = s\<lparr>jwts := tk\<rparr>"
    using assms(2) by (auto simp: redeem_refresh_def refresh_session_def cookie_value_def
        split: option.splits prod.splits sum.splits if_splits)
  show ?thesis using rotation_spends [OF assms(1) rot] s' by simp
qed

lemma admin_refresh_wins:
  assumes "redeem_admin_refresh env nj raw s = (Some p, s')"
  shows "\<exists>cl. open_refresh (jwt env) (fst nj) raw (jwts s) = Inr cl \<and> cl_jti cl \<notin> set (admin_blacklist s) \<and>
    cl_jti cl \<in> set (admin_blacklist s')"
  using assms by (auto simp: redeem_admin_refresh_def admin_refresh_def cookie_value_def Let_def
      split: option.splits prod.splits sum.splits if_splits)

lemma redeem_grows:
  assumes "jwt_contract (jwt env)"
  shows "redeem_refresh env nj raw s = (r, s') \<Longrightarrow> grows s s'"
    and "redeem_admin_refresh env nj raw s = (r', s') \<Longrightarrow> grows s s'"
  using refresh_grows [OF assms, of s "fst nj" "snd nj" "Some raw"] admin_grows(2) [of s env "fst nj" "snd nj" "Some raw"]
  by (auto simp: redeem_refresh_def redeem_admin_refresh_def split: prod.splits sum.splits)

lemma refresh_single_use:
  assumes c: "jwt_contract (jwt env)"
  shows "single_use (redeem_refresh env) (session_step env pr)
    (\<lambda>raw s. unspent env raw (set (blacklisted (jwts s)))) (\<lambda>raw op. False)"
proof
  fix nj raw s p s' assume w: "redeem_refresh env nj raw s = (Some p, s')"
  obtain cl where o1: "open_refresh (jwt env) (fst nj) raw (jwts s) = Inr cl" "cl_jti cl \<in> set (blacklisted (jwts s'))"
    using refresh_wins [OF c w] by blast
  show "unspent env raw (set (blacklisted (jwts s)))"
    by (rule unspentI [OF c o1(1) opened_not_blacklisted [OF c o1(1)]])
  show "\<not> unspent env raw (set (blacklisted (jwts s')))" by (rule spent [OF o1])
next
  fix raw s nj raw' r s' assume d: "\<not> unspent env raw (set (blacklisted (jwts s)))" and r: "redeem_refresh env nj raw' s = (r, s')"
  show "\<not> unspent env raw (set (blacklisted (jwts s')))"
    by (rule unspent_mono [OF d]) (use redeem_grows(1) [OF c r] in \<open>simp add: grows_def\<close>)
next
  fix raw op and s :: sessions assume d: "\<not> unspent env raw (set (blacklisted (jwts s)))"
  show "\<not> unspent env raw (set (blacklisted (jwts (session_step env pr op s))))"
    by (rule unspent_mono [OF d]) (use step_grows [OF c, of s pr op] in \<open>simp add: grows_def\<close>)
qed

lemma admin_refresh_single_use:
  assumes c: "jwt_contract (jwt env)"
  shows "single_use (redeem_admin_refresh env) (session_step env pr)
    (\<lambda>raw s. unspent env raw (set (admin_blacklist s))) (\<lambda>raw op. False)"
proof
  fix nj raw s p s' assume w: "redeem_admin_refresh env nj raw s = (Some p, s')"
  obtain cl where o1: "open_refresh (jwt env) (fst nj) raw (jwts s) = Inr cl" "cl_jti cl \<notin> set (admin_blacklist s)"
    "cl_jti cl \<in> set (admin_blacklist s')"
    using admin_refresh_wins [OF w] by blast
  show "unspent env raw (set (admin_blacklist s))" by (rule unspentI [OF c o1(1,2)])
  show "\<not> unspent env raw (set (admin_blacklist s'))" by (rule spent [OF o1(1,3)])
next
  fix raw s nj raw' r s' assume d: "\<not> unspent env raw (set (admin_blacklist s))" and r: "redeem_admin_refresh env nj raw' s = (r, s')"
  show "\<not> unspent env raw (set (admin_blacklist s'))"
    by (rule unspent_mono [OF d]) (use redeem_grows(2) [OF c r] in \<open>simp add: grows_def\<close>)
next
  fix raw op and s :: sessions assume d: "\<not> unspent env raw (set (admin_blacklist s))"
  show "\<not> unspent env raw (set (admin_blacklist (session_step env pr op s)))"
    by (rule unspent_mono [OF d]) (use step_grows [OF c, of s pr op] in \<open>simp add: grows_def\<close>)
qed

text \<open>C28. A refresh token, a user's or an admin's, buys at most one new pair in every history of the
  sessions, however often it is presented and whatever else happens in between.\<close>

theorem refresh_tokens_buy_one_pair:
  assumes "jwt_contract (jwt env)"
  shows "length (wins (redeem_refresh env) (session_step env pr) raw es s) \<le> 1 \<and>
    length (wins (redeem_admin_refresh env) (session_step env pr) raw es' s) \<le> 1"
proof
  show "length (wins (redeem_refresh env) (session_step env pr) raw es s) \<le> 1"
    by (rule single_use.unminted_once [OF refresh_single_use [OF assms]]) simp
  show "length (wins (redeem_admin_refresh env) (session_step env pr) raw es' s) \<le> 1"
    by (rule single_use.unminted_once [OF admin_refresh_single_use [OF assms]]) simp
qed

theorem refresh_tokens_buy_one_pair_witness:
  "let raw = plain_token CHR ''R'' False (uuid_str 7) ''j1''; s = plain_sessions [plain_user 7 ''m@x''] in
   length (wins (redeem_refresh plain_env) (session_step plain_env no_bank) raw [Inr ((1, ''j2''), raw), Inr ((2, ''j3''), raw)] s) \<le> 1 \<and>
   length (wins (redeem_admin_refresh plain_env) (session_step plain_env no_bank) raw [Inr ((1, ''j2''), raw)] s) \<le> 1"
  unfolding Let_def by (rule refresh_tokens_buy_one_pair) (simp add: plain_env_def plain_jwt_contract)


subsection \<open>Two credential spaces\<close>

text \<open>Whatever opens the token finds this claim set in it.\<close>

definition speaks :: "jwt_library \<Rightarrow> string \<Rightarrow> bool \<Rightarrow> string \<Rightarrow> bool" where
  "speaks L raw adm u \<longleftrightarrow>
     (\<forall>n tk cl. open_refresh L n raw tk = Inr cl \<longrightarrow> cl_admin cl = adm \<and> cl_user cl = u) \<and>
     (\<forall>n cl. open_access L n raw = Inr cl \<longrightarrow> cl_admin cl = adm \<and> cl_user cl = u)"

text \<open>
  What the library signs: \<open>for_user\<close> puts in the user's id and no \<open>is_admin\<close>, a new token what it
  is given, a rotation what the old token held; and \<open>get_user\<close> finds the user of the claim.
\<close>

definition jwt_carries :: "jwt_library \<Rightarrow> bool" where
  "jwt_carries L \<longleftrightarrow>
     (\<forall>now j x tk r a tk'. for_user L now j x tk = (Inr (r, a), tk') \<longrightarrow>
        speaks L r False (uuid_str (user_id x)) \<and> speaks L a False (uuid_str (user_id x))) \<and>
     (\<forall>now j u adm r a. new_refresh L now j u adm = (r, a) \<longrightarrow> speaks L r adm u \<and> speaks L a adm u) \<and>
     (\<forall>now j raw us tk a r tk' adm u. rotate_refresh L now j raw us tk = (Inr (a, r), tk') \<longrightarrow> speaks L raw adm u \<longrightarrow>
        speaks L a adm u \<and> (\<forall>r'. r = Some r' \<longrightarrow> speaks L r' adm u)) \<and>
     (\<forall>cl us x. jwt_get_user L cl us = Inr x \<longrightarrow> uuid_str (user_id x) = cl_user cl)"

lemma carriesD:
  assumes "jwt_carries L"
  shows "for_user L now j x tk = (Inr (r, a), tk') \<Longrightarrow>
      speaks L r False (uuid_str (user_id x)) \<and> speaks L a False (uuid_str (user_id x))"
    and "new_refresh L now j u adm = (r, a) \<Longrightarrow> speaks L r adm u \<and> speaks L a adm u"
    and "rotate_refresh L now j raw us tk = (Inr (a, r''), tk') \<Longrightarrow> speaks L raw adm u \<Longrightarrow>
      speaks L a adm u \<and> (\<forall>r'. r'' = Some r' \<longrightarrow> speaks L r' adm u)"
    and "jwt_get_user L cl us = Inr y \<Longrightarrow> uuid_str (user_id y) = cl_user cl"
  using assms unfolding jwt_carries_def by metis+

lemma pair_speaks:
  assumes "jwt_carries (jwt env)" "token_pair_response env now j x s = (Inr (a, u, r), s')"
  shows "speaks (jwt env) a False (uuid_str u) \<and> speaks (jwt env) r False (uuid_str u)"
  using assms(2) carriesD(1) [OF assms(1), of now j x "jwts s" r a]
  by (auto simp: token_pair_response_def split: prod.splits sum.splits)

lemma signup_speaks:
  assumes "jwt_carries (jwt env)" "signup env now en sent v s = (Inr (a, u, r), s')"
  shows "speaks (jwt env) a False (uuid_str u) \<and> speaks (jwt env) r False (uuid_str u)"
  using assms(2) by (auto simp: signup_def dest: pair_speaks [OF assms(1)]
      split: sum.splits list.splits prod.splits)

lemma login_speaks:
  assumes "jwt_carries (jwt env)" "login env now en v s = (Inr (a, u, r), s')"
  shows "speaks (jwt env) a False (uuid_str u) \<and> speaks (jwt env) r False (uuid_str u)"
  using assms(2) by (auto simp: login_def dest: pair_speaks [OF assms(1)]
      split: sum.splits option.splits prod.splits)

lemma repeat_speaks:
  assumes "jwt_carries (jwt env)" "repeat_bank_login env pr now j t c s = (Inr (a, u, r), s')"
  shows "speaks (jwt env) a False (uuid_str u) \<and> speaks (jwt env) r False (uuid_str u)"
  using assms(2) by (auto simp: repeat_bank_login_def Let_def dest: pair_speaks [OF assms(1)]
      split: sum.splits prod.splits)

lemma first_speaks:
  assumes "jwt_carries (jwt env)" "first_bank_login env pr race now j slug t s = (Inr (a, u, r), s')"
  shows "speaks (jwt env) a False (uuid_str u) \<and> speaks (jwt env) r False (uuid_str u)"
  using assms(2) by (auto simp: first_bank_login_def Let_def dest: pair_speaks [OF assms(1)]
      split: sum.splits prod.splits exc.splits option.splits if_splits)

lemma callback_speaks:
  assumes "jwt_carries (jwt env)" "bank_login_callback env pr race now j v s = (Inr (a, u, r), s')"
  shows "speaks (jwt env) a False (uuid_str u) \<and> speaks (jwt env) r False (uuid_str u)"
  using assms(2) by (auto simp: bank_login_callback_def Let_def
      dest: repeat_speaks [OF assms(1)] first_speaks [OF assms(1)]
      split: sum.splits prod.splits option.splits)

lemma admin_pair_speaks:
  assumes "jwt_carries (jwt env)" "admin_token_pair_response env now j x = (a, k, role, r)"
  shows "speaks (jwt env) a True (uuid_str k) \<and> speaks (jwt env) r True (uuid_str k)"
  using assms(2) carriesD(2) [OF assms(1), of now j "uuid_str (adm_id x)" True]
  by (auto simp: admin_token_pair_response_def split: prod.splits)

lemma admin_login_speaks:
  assumes "jwt_carries (jwt env)" "admin_login env now j v s = (Inr (a, k, role, r), s')"
  shows "speaks (jwt env) a True (uuid_str k) \<and> speaks (jwt env) r True (uuid_str k)"
  using assms(2) by (auto simp: admin_login_def Let_def dest: admin_pair_speaks [OF assms(1)]
      split: sum.splits option.splits prod.splits if_splits)

lemma admin_refresh_speaks:
  assumes "jwt_carries (jwt env)" "admin_refresh env now j c s = (Inr (a, k, role, r), s')"
  shows "speaks (jwt env) a True (uuid_str k) \<and> speaks (jwt env) r True (uuid_str k)"
  using assms(2) by (auto simp: admin_refresh_def Let_def dest: admin_pair_speaks [OF assms(1)]
      split: sum.splits option.splits prod.splits if_splits)

lemma refresh_speaks:
  assumes "jwt_carries (jwt env)" "refresh_session env now j (Some old) s = (Inr (a, r), s')" "speaks (jwt env) old adm u"
  shows "speaks (jwt env) a adm u \<and> (\<forall>r'. r = Some r' \<longrightarrow> speaks (jwt env) r' adm u)"
proof -
  obtain tk where "rotate_refresh (jwt env) now j old (users (base s)) (jwts s) = (Inr (a, r), tk)"
    using assms(2) by (auto simp: refresh_session_def cookie_value_def split: option.splits prod.splits if_splits)
  then show ?thesis by (rule carriesD(3) [OF assms(1) _ assms(3)])
qed


text \<open>Whom a token in circulation was issued to, over every way the endpoints issue one.\<close>

datatype holder = User_of uuid | Admin_of uuid

inductive issued :: "auth_env \<Rightarrow> provider \<Rightarrow> holder \<Rightarrow> string \<Rightarrow> bool" for env pr where
  by_signup: "signup env now en sent v s = (Inr (a, u, r), s') \<Longrightarrow> raw \<in> {a, r} \<Longrightarrow> issued env pr (User_of u) raw"
| by_login: "login env now en v' s = (Inr (a, u, r), s') \<Longrightarrow> raw \<in> {a, r} \<Longrightarrow> issued env pr (User_of u) raw"
| by_bank: "bank_login_callback env pr race now j v' s = (Inr (a, u, r), s') \<Longrightarrow> raw \<in> {a, r} \<Longrightarrow>
    issued env pr (User_of u) raw"
| by_refresh: "issued env pr h old \<Longrightarrow> refresh_session env now j (Some old) s = (Inr (a, r'), s') \<Longrightarrow>
    raw = a \<or> r' = Some raw \<Longrightarrow> issued env pr h raw"
| by_admin_login: "admin_login env now j v' s = (Inr (a, k, role, r), s') \<Longrightarrow> raw \<in> {a, r} \<Longrightarrow>
    issued env pr (Admin_of k) raw"
| by_admin_refresh: "admin_refresh env now j c s = (Inr (a, k, role, r), s') \<Longrightarrow> raw \<in> {a, r} \<Longrightarrow>
    issued env pr (Admin_of k) raw"

fun holder_claims :: "holder \<Rightarrow> bool \<times> string" where
  "holder_claims (User_of u) = (False, uuid_str u)"
| "holder_claims (Admin_of k) = (True, uuid_str k)"

lemma issued_speaks:
  assumes "jwt_carries (jwt env)" "issued env pr h raw"
  shows "speaks (jwt env) raw (fst (holder_claims h)) (snd (holder_claims h))"
  using assms(2)
proof (induction rule: issued.induct)
  case (by_signup now en sent v s a u r s' raw)
  then show ?case using signup_speaks [OF assms(1)] by auto
next
  case (by_login now en v' s a u r s' raw)
  then show ?case using login_speaks [OF assms(1)] by auto
next
  case (by_bank race now j v' s a u r s' raw)
  then show ?case using callback_speaks [OF assms(1)] by auto
next
  case (by_refresh h old now j s a r' s' raw)
  then show ?case using refresh_speaks [OF assms(1) by_refresh.hyps(2) by_refresh.IH] by auto
next
  case (by_admin_login now j v' s a k role r s' raw)
  then show ?case using admin_login_speaks [OF assms(1)] by auto
next
  case (by_admin_refresh now j c s a k role r s' raw)
  then show ?case using admin_refresh_speaks [OF assms(1)] by auto
qed

lemma user_access:
  assumes "jwt_carries (jwt env)" "speaks (jwt env) raw adm u" "authenticate_user env n raw s = Inr x"
  shows "\<not> adm \<and> uuid_str (user_id x) = u"
  using assms(2,3) carriesD(4) [OF assms(1)]
  by (auto simp: authenticate_user_def user_jwt_get_user_def speaks_def split: sum.splits if_splits)

lemma admin_access:
  assumes "speaks (jwt env) raw adm u" "authenticate_admin env n raw s = Inr x"
  shows "adm \<and> uuid_str (adm_id x) = u"
  using assms by (auto simp: authenticate_admin_def admin_jwt_get_user_def speaks_def
      split: sum.splits if_splits option.splits dest: row_named_in)

lemma not_admin_refresh:
  assumes "speaks (jwt env) raw False u"
  shows "\<exists>e. admin_refresh env n j (Some raw) s = (Inl e, s)"
  using assms by (auto simp: admin_refresh_def cookie_value_def speaks_def split: sum.split)

text \<open>C29. A token speaks for the one it was issued to and in that one's space only. Whatever chain of
  logins and refreshes it came from, a user's token authenticates that user at most, is refused
  by every /admin endpoint and buys no admin pair; an admin's authenticates that admin at most
  and is refused at every user-facing endpoint.\<close>

theorem credential_spaces_apart:
  assumes "jwt_carries (jwt env)" "issued env pr h raw"
  shows "case h of
      User_of u \<Rightarrow> (\<exists>e. authenticate_admin env n raw s = Inl e) \<and> (\<exists>e. admin_refresh env n j (Some raw) s = (Inl e, s)) \<and>
        (\<forall>x. authenticate_user env n raw s = Inr x \<longrightarrow> uuid_str (user_id x) = uuid_str u)
    | Admin_of k \<Rightarrow> (\<exists>e. authenticate_user env n raw s = Inl e) \<and>
        (\<forall>x. authenticate_admin env n raw s = Inr x \<longrightarrow> uuid_str (adm_id x) = uuid_str k)"
proof (cases h)
  case (User_of u)
  then have sp: "speaks (jwt env) raw False (uuid_str u)" using issued_speaks [OF assms] by simp
  have "\<exists>e. authenticate_admin env n raw s = Inl e"
    using admin_access [OF sp, of n s] by (cases "authenticate_admin env n raw s") auto
  then show ?thesis using User_of not_admin_refresh [OF sp] user_access [OF assms(1) sp] by simp
next
  case (Admin_of k)
  then have sp: "speaks (jwt env) raw True (uuid_str k)" using issued_speaks [OF assms] by simp
  have "\<exists>e. authenticate_user env n raw s = Inl e"
    using user_access [OF assms(1) sp, of n s] by (cases "authenticate_user env n raw s") auto
  then show ?thesis using Admin_of admin_access [OF sp] by simp
qed


lemma plain_opened:
  "open_refresh plain_jwt n (plain_token use adm u j) tk = Inr cl \<Longrightarrow> cl = \<lparr>cl_jti = j, cl_user = u, cl_admin = adm\<rparr>"
  "open_access plain_jwt n (plain_token use adm u j) = Inr cl \<Longrightarrow> cl = \<lparr>cl_jti = j, cl_user = u, cl_admin = adm\<rparr>"
  by (auto simp: plain_jwt_def plain_open_def split: if_splits)

lemma plain_speaks [simp]: "speaks plain_jwt (plain_token use adm u j) adm u"
  unfolding speaks_def using plain_opened by fastforce

lemma plain_rotation:
  assumes "rotate_refresh plain_jwt now j raw us tk = (Inr (a, r), tk')" "speaks plain_jwt raw adm u"
  shows "speaks plain_jwt a adm u \<and> (\<forall>r'. r = Some r' \<longrightarrow> speaks plain_jwt r' adm u)"
proof -
  obtain cl where cl: "plain_open raw tk = Inr cl" "a = plain_token CHR ''X'' (cl_admin cl) (cl_user cl) j"
    "r = Some (plain_token CHR ''R'' (cl_admin cl) (cl_user cl) j)"
    using assms(1) by (auto simp: plain_jwt_def split: sum.splits)
  then have "open_refresh plain_jwt now raw tk = Inr cl" by (simp add: plain_jwt_def)
  then have "cl_admin cl = adm" "cl_user cl = u" using assms(2) by (auto simp: speaks_def)
  then show ?thesis using cl by simp
qed

lemma plain_jwt_carries: "jwt_carries plain_jwt"
  unfolding jwt_carries_def
proof (intro conjI allI impI)
  fix now j x tk r a tk' assume "for_user plain_jwt now j x tk = (Inr (r, a), tk')"
  then show "speaks plain_jwt r False (uuid_str (user_id x))" "speaks plain_jwt a False (uuid_str (user_id x))"
    using plain_speaks by (auto simp: plain_jwt_def)
next
  fix now j u adm r a assume "new_refresh plain_jwt now j u adm = (r, a)"
  then show "speaks plain_jwt r adm u" "speaks plain_jwt a adm u" using plain_speaks by (auto simp: plain_jwt_def)
next
  fix cl us x assume "jwt_get_user plain_jwt cl us = Inr x"
  then show "uuid_str (user_id x) = cl_user cl" by (auto simp: plain_jwt_def split: option.splits dest: row_named_in)
qed (use plain_rotation in blast)+

text \<open>An admin's login, and what its access token opens.\<close>

theorem credential_spaces_apart_witness:
  "let adm = \<lparr>adm_id = 3, adm_email = ''a@x'', adm_password_hash = ''pw'', adm_role = ''reviewer''\<rparr>;
       s = (plain_sessions [plain_user 3 ''m@x''])\<lparr>admins := [adm]\<rparr>;
       raw = plain_token CHR ''X'' True (uuid_str 3) ''j1''
   in case Admin_of 3 of
      User_of u \<Rightarrow> (\<exists>e. authenticate_admin plain_env 0 raw s = Inl e) \<and>
        (\<exists>e. admin_refresh plain_env 0 ''j2'' (Some raw) s = (Inl e, s)) \<and>
        (\<forall>x. authenticate_user plain_env 0 raw s = Inr x \<longrightarrow> uuid_str (user_id x) = uuid_str u)
    | Admin_of k \<Rightarrow> (\<exists>e. authenticate_user plain_env 0 raw s = Inl e) \<and>
        (\<forall>x. authenticate_admin plain_env 0 raw s = Inr x \<longrightarrow> uuid_str (adm_id x) = uuid_str k)"
proof -
  let ?adm = "\<lparr>adm_id = 3, adm_email = ''a@x'', adm_password_hash = ''pw'', adm_role = ''reviewer''\<rparr>"
  let ?s = "(plain_sessions [plain_user 3 ''m@x''])\<lparr>admins := [?adm]\<rparr>"
  have "admin_login plain_env 0 ''j1'' (Inr (''a@x'', ''pw'')) ?s =
      (Inr (plain_token CHR ''X'' True (uuid_str 3) ''j1'', 3, ''reviewer'', plain_token CHR ''R'' True (uuid_str 3) ''j1''), ?s)"
    by (simp add: admin_login_def admin_token_pair_response_def plain_env_def plain_jwt_def)
  then have "issued plain_env no_bank (Admin_of 3) (plain_token CHR ''X'' True (uuid_str 3) ''j1'')"
    by (rule issued.by_admin_login) simp
  then show ?thesis unfolding Let_def
    by (intro credential_spaces_apart) (simp_all add: plain_env_def plain_jwt_carries)
qed

end
