(* ===== verification/Account_Laws.thy ===== *)
theory Account_Laws
  imports Session_Laws
begin

text \<open>
  What the accounts promise: a verification link verifies the address it was sent to and is
  spent by it, and a bank customer who logs in again is the same user.
\<close>

subsection \<open>Verification links\<close>

text \<open>
  Django's token generator: a token made from one hash value is good for no other, under no
  other key salt. The time stands in the token, so the hash value is recomputed for it.
\<close>

definition signed_contract :: "auth_env \<Rightarrow> bool" where
  "signed_contract env \<longleftrightarrow>
     (\<forall>k h now k' h' t. 0 \<le> t \<longrightarrow> check_signed env k h now (make_signed env k' h' t) \<longrightarrow> k = k' \<and> h t = h' t)"

lemma signedD:
  "signed_contract env \<Longrightarrow> 0 \<le> t \<Longrightarrow> check_signed env k h now (make_signed env k' h' t) \<Longrightarrow> k = k' \<and> h t = h' t"
  by (simp add: signed_contract_def)

text \<open>At one time, two users with the same hash value have the same id, flag and address.\<close>

lemma email_hash_value_inj:
  assumes "email_hash_value y t = email_hash_value x t"
  shows "uuid_str (user_id y) = uuid_str (user_id x) \<and> email_verified y = email_verified x \<and> user_email y = user_email x"
proof -
  have "uuid_str (user_id y) = uuid_str (user_id x)"
    and rest: "(if email_verified y then ''True'' else ''False'') @ int_str t @ user_email y =
      (if email_verified x then ''True'' else ''False'') @ int_str t @ user_email x"
    using assms by (simp_all add: email_hash_value_def append_eq_append_conv)
  moreover have "email_verified y = email_verified x" using rest by (cases "email_verified y"; cases "email_verified x") auto
  moreover from this rest have "user_email y = user_email x" by (cases "email_verified x") auto
  ultimately show ?thesis by simp
qed

lemma email_token_binds:
  assumes "signed_contract env" "0 \<le> t" "check_email_token env n y (make_email_token env t x)"
  shows "uuid_str (user_id y) = uuid_str (user_id x) \<and> email_verified y = email_verified x \<and> user_email y = user_email x"
proof -
  have "check_signed env email_key_salt (email_hash_value y) n (make_signed env email_key_salt (email_hash_value x) t)"
    using assms(3) by (simp add: check_email_token_def make_email_token_def)
  from signedD [OF assms(1,2) this] show ?thesis using email_hash_value_inj [of y t x] by simp
qed

lemma email_token_no_reset:
  assumes "signed_contract env" "0 \<le> t" "reset_key_salt env \<noteq> email_key_salt"
  shows "\<not> check_reset_token env n y (make_email_token env t x)"
  using signedD [OF assms(1,2)] assms(3) by (auto simp: check_reset_token_def make_email_token_def)

lemma confirmed:
  assumes "email_verification_confirm env now (Inr t) s = (Inr (), s')" "redeem_link now t s = (Some (y, tok), s1)"
  shows "check_email_token env now y tok"
    and "users (base s') = save_row user_id (y\<lparr>email_verified := True\<rparr>) (users (base s))"
  using assms redeem_linkD [OF assms(2)]
  by (auto simp: email_verification_confirm_def on_users_def split: if_splits)

text \<open>C30. A verification link confirms the address it was made for: when a link made for user x is
  confirmed, the user marked verified is x, still unverified and at the address of then; from
  then on no link ever made for x while unverified passes for that user again, and a
  verification token never passes for a password-reset token.\<close>

theorem verification_binds_address:
  assumes "signed_contract env" "0 \<le> t0" "\<not> email_verified x"
    and "redeem_link now t s = (Some (y, make_email_token env t0 x), s1)"
    and "email_verification_confirm env now (Inr t) s = (Inr (), s')"
    and "reset_key_salt env \<noteq> email_key_salt"
  shows "uuid_str (user_id y) = uuid_str (user_id x) \<and> user_email y = user_email x \<and> \<not> email_verified y \<and>
    by_pk user_id (users (base s')) (user_id y) = Some (y\<lparr>email_verified := True\<rparr>) \<and>
    (\<forall>n t1. 0 \<le> t1 \<longrightarrow> \<not> check_email_token env n (y\<lparr>email_verified := True\<rparr>) (make_email_token env t1 x)) \<and>
    (\<forall>n z. \<not> check_reset_token env n z (make_email_token env t0 x))"
proof (intro conjI allI impI)
  note b = email_token_binds [OF assms(1,2) confirmed(1) [OF assms(5,4)]]
  show "uuid_str (user_id y) = uuid_str (user_id x)" "user_email y = user_email x" "\<not> email_verified y"
    using b assms(3) by simp_all
  show "by_pk user_id (users (base s')) (user_id y) = Some (y\<lparr>email_verified := True\<rparr>)"
    using redeem_link_user [OF assms(4)] by (simp add: confirmed(2) [OF assms(5,4)] by_pk_save_row)
  show "\<not> check_email_token env n (y\<lparr>email_verified := True\<rparr>) (make_email_token env t1 x)" if "0 \<le> t1" for n t1
    using email_token_binds [OF assms(1) that, of n "y\<lparr>email_verified := True\<rparr>" x] assms(3) by auto
  show "\<not> check_reset_token env n z (make_email_token env t0 x)" for n z
    by (rule email_token_no_reset [OF assms(1,2,6)])
qed

lemma plain_signed_contract: "signed_contract plain_env"
  by (auto simp: signed_contract_def plain_env_def plain_signed_def ticks_inj)

lemma plain_check [simp]:
  "0 \<le> t \<Longrightarrow> check_email_token plain_env n x (make_email_token plain_env t x)"
  by (simp add: check_email_token_def make_email_token_def plain_env_def)

theorem verification_binds_address_witness:
  "let x = plain_user 7 ''m@x''; tok = make_email_token plain_env 2 x;
       s = (plain_sessions [x])\<lparr>kv := mint_link_ticket 2 ''tk'' 7 tok PASSWORD_RESET_TIMEOUT Map.empty\<rparr>;
       s' = snd (email_verification_confirm plain_env 5 (Inr ''tk'') s)
   in by_pk user_id (users (base s')) (user_id x) = Some (x\<lparr>email_verified := True\<rparr>)"
proof -
  let ?x = "plain_user 7 ''m@x''"
  let ?s = "(plain_sessions [?x])\<lparr>kv := mint_link_ticket 2 ''tk'' 7 (make_email_token plain_env 2 ?x)
    PASSWORD_RESET_TIMEOUT Map.empty\<rparr>"
  have "fst (redeem_link 5 ''tk'' ?s) = Some (?x, make_email_token plain_env 2 ?x)"
    by (simp add: redeem_link_def redeem_link_ticket_def redis_getdel_def mint_link_ticket_def redis_set_def
        PASSWORD_RESET_TIMEOUT_def row_named_def plain_sessions_def plain_user_def)
  then obtain s1 where l: "redeem_link 5 ''tk'' ?s = (Some (?x, make_email_token plain_env 2 ?x), s1)"
    by (metis eq_fst_iff)
  then have r: "email_verification_confirm plain_env 5 (Inr ''tk'') ?s =
      (Inr (), snd (email_verification_confirm plain_env 5 (Inr ''tk'') ?s))"
    by (simp add: email_verification_confirm_def)
  have n: "\<not> email_verified ?x" "reset_key_salt plain_env \<noteq> email_key_salt"
    by (simp_all add: plain_user_def plain_env_def email_key_salt_def)
  show ?thesis unfolding Let_def
    using verification_binds_address [OF plain_signed_contract _ n(1) l r n(2)] by simp
qed


subsection \<open>Landing accounts leaves users and connections alone\<close>

definition same_people :: "db \<Rightarrow> db \<Rightarrow> bool" where
  "same_people d d' \<longleftrightarrow> users d' = users d \<and> connections d' = connections d"

lemma drop_shadowed_people: "same_people d (drop_shadowed u n d)"
proof -
  have "same_people d (fold delete_account_row ks d)" for ks
    by (induction ks arbitrary: d) (simp_all add: same_people_def delete_account_row_def)
  then show ?thesis by (simp add: drop_shadowed_def)
qed

lemma upsert_people: "same_people d (snd (upsert_account c x d))"
  by (auto simp: upsert_account_def same_people_def Let_def split: list.split)

lemma upserts_people: "same_people d (snd (upsert_accounts c xs d))"
proof (induction xs arbitrary: d)
  case (Cons x xs)
  obtain r d1 where 1: "upsert_account c x d = (r, d1)" by fastforce
  obtain r' d2 where 2: "upsert_accounts c xs d1 = (r', d2)" by fastforce
  have "same_people d d1" "same_people d1 d2" using upsert_people [of d c x] Cons [of d1] 1 2 by simp_all
  then show ?case using 1 2 by (auto simp: same_people_def split: sum.split)
qed (simp add: same_people_def)

lemma backfill_people: "same_people d (backfill pr tok rows d)"
  by (induction pr tok rows d rule: backfill.induct) (auto simp: same_people_def split: sum.splits)

lemma apply_people:
  assumes "apply_synced_accounts c xs pr d = (r, d')"
  shows "users d' = users d \<and> connections d' = connections d"
proof -
  let ?d1 = "case xs of [] \<Rightarrow> d | x # _ \<Rightarrow> drop_shadowed (conn_user c) (fa_bank_name x) d"
  have 1: "same_people d ?d1" using drop_shadowed_people by (auto simp: same_people_def split: list.split)
  obtain r2 d2 where 2: "upsert_accounts c xs ?d1 = (r2, d2)" by fastforce
  have "same_people ?d1 d2" using upserts_people [of ?d1 c xs] 2 by simp
  then have p: "same_people d d2" using 1 by (simp add: same_people_def)
  have "same_people d2 (backfill pr (access_token c) (zip as xs) d2)" for as by (rule backfill_people)
  then have "same_people d d'" using assms 2 p
    by (auto simp: apply_synced_accounts_def land_accounts_def Let_def same_people_def split: sum.splits)
  then show ?thesis by (simp add: same_people_def)
qed

subsection \<open>One bank customer, one user\<close>

text \<open>The customer's connection, and the user it leads to.\<close>

definition identified :: "string \<Rightarrow> string \<Rightarrow> uuid \<Rightarrow> db \<Rightarrow> bool" where
  "identified slug cust u d \<longleftrightarrow>
     (\<exists>k \<in> set (connections d). provider_slug k = slug \<and> external_customer_id k = Some cust \<and> conn_user k = u)"

lemma pair_base:
  "token_pair_response env now j x s = (Inr (a, u, r), s') \<Longrightarrow> u = user_id x \<and> base s' = base s"
  by (auto simp: token_pair_response_def split: prod.splits sum.splits)

lemma customer_connectionD:
  "customer_connection slug t d = Some c \<Longrightarrow>
   c \<in> set (connections d) \<and> provider_slug c = slug \<and> external_customer_id c = tok_customer t"
  unfolding customer_connection_def by (drule first_pk_filterD) simp

lemma connection_userD: "connection_user c d = Inr x \<Longrightarrow> x \<in> set (users d) \<and> user_id x = conn_user c"
  by (auto simp: connection_user_def split: option.splits dest: by_pk_Some)

lemma repeat_login_user:
  assumes "repeat_bank_login env pr now j t c s = (Inr (a, u, r), s')"
  shows "u = conn_user c \<and> connections (base s') =
    save_row conn_id (c\<lparr>access_token := Some (tok_access t), refresh_token := tok_refresh t\<rparr>) (connections (base s)) \<and>
    map user_id (users (base s')) = map user_id (users (base s))"
proof -
  have f: "user_id (fill_phone p x) = user_id x" for p x by (simp add: fill_phone_def)
  show ?thesis
    using assms by (auto simp: repeat_bank_login_def save_connection_def Let_def f
        split: sum.splits prod.splits dest!: pair_base connection_userD apply_people)
qed


lemma create_user_ok:
  assumes "create_user env e n p h d = (Inr x, d')"
  shows "users d' = users d @ [x] \<and> connections d' = connections d \<and> user_email x = normalize_email env e \<and>
    normalize_email env e \<notin> user_email ` set (users d) \<and> user_id x = fresh d"
  using assms by (auto simp: create_user_def Let_def list_ex_iff split: if_splits)

lemma provision_ok:
  assumes "provision env now slug t d = (Inr (x, c), d')"
  shows "users d' = users d @ [x] \<and> connections d' = connections d @ [c] \<and> conn_user c = user_id x \<and>
    provider_slug c = slug \<and> external_customer_id c = tok_customer t \<and> \<not> connection_clash c (connections d) \<and>
    user_email x = normalize_email env (tok_email t) \<and> normalize_email env (tok_email t) \<notin> user_email ` set (users d)"
proof -
  obtain d1 where 1: "create_user env (tok_email t) (str_or (tok_name t) ''Bank Customer'') (tok_phone t) None d = (Inr x, d1)"
    and c: "c = login_connection now slug t x d1" "\<not> connection_clash c (connections d1)"
    and d': "d' = (draw d1)\<lparr>connections := connections d1 @ [c]\<rparr>"
    using assms by (auto simp: provision_def Let_def split: prod.splits sum.splits if_splits)
  show ?thesis using create_user_ok [OF 1] c d' by (simp add: login_connection_def)
qed

lemma provision_fails: "provision env now slug t d = (Inl e, d') \<Longrightarrow> d' = d"
  by (auto simp: provision_def Let_def split: prod.splits sum.splits if_splits)

lemma provision_raises: "provision env now slug t d = (Inl e, d') \<Longrightarrow> \<exists>m. e = Unhandled m"
  by (auto simp: provision_def create_user_def Let_def split: prod.splits sum.splits if_splits)

text \<open>The two ways a first login succeeds: it provisions, or a concurrent one just has.\<close>

lemma first_login_cases:
  assumes "first_bank_login env pr race now j slug t s = (Inr (a, u, r), s')"
  obtains (new) x c d where "provision env now slug t (race (base s)) = (Inr (x, c), d)" "u = user_id x"
      "users (base s') = users d" "connections (base s') = connections d"
  | (raced) c where "customer_connection slug t (race (base s)) = Some c" "u = conn_user c" "base s' = race (base s)"
proof (cases "provision env now slug t (race (base s))")
  case (Pair res d)
  show thesis
  proof (cases res)
    case (Inr xc)
    obtain x c where "xc = (x, c)" by fastforce
    with Pair Inr assms have "u = user_id x \<and> users (base s') = users d \<and> connections (base s') = connections d"
      by (auto simp: first_bank_login_def Let_def split: if_splits sum.splits prod.splits dest!: pair_base apply_people)
    then show thesis using new [of x c d] Pair Inr \<open>xc = (x, c)\<close> by simp
  next
    case (Inl e)
    obtain m where m: "e = Unhandled m" using provision_raises [OF Pair [unfolded Inl]] by blast
    have d: "d = race (base s)" using provision_fails [OF Pair [unfolded Inl]] by simp
    have "\<exists>c. customer_connection slug t (race (base s)) = Some c \<and> u = conn_user c \<and> base s' = race (base s)"
      using assms by (auto simp: first_bank_login_def Let_def Pair Inl m d
          split: if_splits sum.splits option.splits dest!: pair_base connection_userD)
    then show thesis using raced by blast
  qed
qed

lemma first_login_identified:
  assumes "first_bank_login env pr race now j slug t s = (Inr (a, u, r), s')" "tok_customer t = Some cust"
  shows "identified slug cust u (base s')"
  using assms(1)
proof (cases rule: first_login_cases)
  case (new x c d)
  then show ?thesis using provision_ok [OF new(1)] assms(2) by (auto simp: identified_def)
next
  case (raced c)
  then show ?thesis using customer_connectionD [OF raced(1)] assms(2) unfolding identified_def by auto
qed

text \<open>The unique constraint \<open>unique_bank_customer_identity\<close>.\<close>

definition sole_identity :: "db \<Rightarrow> bool" where
  "sole_identity d \<longleftrightarrow> (\<forall>slug cust u v. identified slug cust u d \<longrightarrow> identified slug cust v d \<longrightarrow> u = v)"

lemma identified_append:
  "connections d' = connections d @ [c] \<Longrightarrow> identified slug cust u d' \<longleftrightarrow>
     identified slug cust u d \<or> provider_slug c = slug \<and> external_customer_id c = Some cust \<and> conn_user c = u"
  by (auto simp: identified_def)

lemma sole_append:
  assumes "sole_identity d" "connections d' = connections d @ [c]" "\<not> connection_clash c (connections d)"
  shows "sole_identity d'"
proof -
  have "\<not> identified (provider_slug c) cust v d" if "external_customer_id c = Some cust" for cust v
    using assms(3) that unfolding identified_def connection_clash_def list_ex_iff by auto
  then show ?thesis
    using assms(1) unfolding sole_identity_def identified_append [OF assms(2)] by blast
qed

lemma sole_same: "connections d' = connections d \<Longrightarrow> sole_identity d \<Longrightarrow> sole_identity d'"
  unfolding sole_identity_def identified_def by metis

lemma identified_resave:
  assumes "connections d' = save_row conn_id (c\<lparr>access_token := x, refresh_token := y\<rparr>) (connections d)"
    "c \<in> set (connections d)" "distinct (map conn_id (connections d))"
  shows "identified slug cust u d' \<longleftrightarrow> identified slug cust u d"
proof -
  have same: "k = c" if k: "k \<in> set (connections d)" "conn_id k = conn_id c" for k
    using by_pk_unique [OF assms(3) k] by_pk_unique [OF assms(3,2) refl] by simp
  have "map (\<lambda>k. (provider_slug k, external_customer_id k, conn_user k)) (connections d') =
      map (\<lambda>k. (provider_slug k, external_customer_id k, conn_user k)) (connections d)"
    unfolding assms(1) by (rule map_save_row) (auto dest: same)
  from arg_cong [OF this, of set]
  have "(\<lambda>k. (provider_slug k, external_customer_id k, conn_user k)) ` set (connections d') =
      (\<lambda>k. (provider_slug k, external_customer_id k, conn_user k)) ` set (connections d)"
    by simp
  moreover have "identified slug cust u e \<longleftrightarrow>
      (slug, Some cust, u) \<in> (\<lambda>k. (provider_slug k, external_customer_id k, conn_user k)) ` set (connections e)" for e
    by (auto simp: identified_def image_iff)
  ultimately show ?thesis by simp
qed


lemma callback_call:
  assumes "exchange_code_for_token pr code = Inr t" "redeem_state now state (kv s) = (Some slug, r0)"
    "get_connector slug = Inr w"
  shows "bank_login_callback env pr race now j (Inr (code, state)) s =
    (case customer_connection slug t (base s) of
       Some c \<Rightarrow> repeat_bank_login env pr now j t c (s\<lparr>kv := r0\<rparr>)
     | None \<Rightarrow> first_bank_login env pr race now j slug t (s\<lparr>kv := r0\<rparr>))"
  using assms by (simp add: bank_login_callback_def Let_def)

lemma callback_connector:
  assumes "bank_login_callback env pr race now j (Inr (code, state)) s = (Inr p, s')"
    "redeem_state now state (kv s) = (Some slug, r0)"
  shows "get_connector slug = Inr ()"
  using assms by (auto simp: bank_login_callback_def Let_def split: sum.splits)

lemma callback_identified:
  assumes "exchange_code_for_token pr code = Inr t" "tok_customer t = Some cust"
    "redeem_state now state (kv s) = (Some slug, r0)" "distinct (map conn_id (connections (base s)))"
    "bank_login_callback env pr race now j (Inr (code, state)) s = (Inr (a, u, r), s')"
  shows "identified slug cust u (base s')"
proof (cases "customer_connection slug t (base s)")
  case None
  then have "first_bank_login env pr race now j slug t (s\<lparr>kv := r0\<rparr>) = (Inr (a, u, r), s')"
    using assms(5) callback_call [OF assms(1,3) callback_connector [OF assms(5,3)]] by simp
  then show ?thesis by (rule first_login_identified [OF _ assms(2)])
next
  case (Some c)
  then have rep: "repeat_bank_login env pr now j t c (s\<lparr>kv := r0\<rparr>) = (Inr (a, u, r), s')"
    using assms(5) callback_call [OF assms(1,3) callback_connector [OF assms(5,3)]] by simp
  note c = customer_connectionD [OF Some]
  have "identified slug cust u (base s)"
    using c assms(2) repeat_login_user [OF rep] unfolding identified_def by auto
  then show ?thesis
    using identified_resave [OF conjunct1 [OF conjunct2 [OF repeat_login_user [OF rep]]]] c assms(4) by simp
qed

lemma callback_sole:
  assumes "sole_identity (base s)" "sole_identity (race (base s))" "distinct (map conn_id (connections (base s)))"
    "exchange_code_for_token pr code = Inr t" "redeem_state now state (kv s) = (Some slug, r0)"
    "bank_login_callback env pr race now j (Inr (code, state)) s = (Inr (a, u, r), s')"
  shows "sole_identity (base s')"
proof (cases "customer_connection slug t (base s)")
  case None
  then have "first_bank_login env pr race now j slug t (s\<lparr>kv := r0\<rparr>) = (Inr (a, u, r), s')"
    using assms(6) callback_call [OF assms(4,5) callback_connector [OF assms(6,5)]] by simp
  then show ?thesis
  proof (cases rule: first_login_cases)
    case (new x c d)
    then show ?thesis using provision_ok [OF new(1)] sole_append [of "race (base s)" d c] assms(2) sole_same [of "base s'" d]
      by simp
  next
    case (raced c)
    then show ?thesis using assms(2) by simp
  qed
next
  case (Some c)
  then have rep: "repeat_bank_login env pr now j t c (s\<lparr>kv := r0\<rparr>) = (Inr (a, u, r), s')"
    using assms(6) callback_call [OF assms(4,5) callback_connector [OF assms(6,5)]] by simp
  have "identified sl cu v (base s') \<longleftrightarrow> identified sl cu v (base s)" for sl cu v
    using identified_resave [OF conjunct1 [OF conjunct2 [OF repeat_login_user [OF rep]]]] customer_connectionD [OF Some] assms(3)
    by simp
  then show ?thesis using assms(1) by (simp add: sole_identity_def)
qed

lemma known_customer:
  assumes "identified slug cust u d" "sole_identity d" "tok_customer t = Some cust"
  shows "\<exists>c. customer_connection slug t d = Some c \<and> conn_user c = u"
proof -
  obtain k where k: "k \<in> set (connections d)" "provider_slug k = slug" "external_customer_id k = Some cust"
    using assms(1) unfolding identified_def by blast
  then have "customer_connection slug t d \<noteq> None"
    using assms(3) by (auto simp: customer_connection_def filter_empty_conv)
  then obtain c where c: "customer_connection slug t d = Some c" by blast
  then have "identified slug cust (conn_user c) d"
    using customer_connectionD [OF c] assms(3) unfolding identified_def by auto
  then show ?thesis using c assms(1,2) unfolding sole_identity_def by blast
qed

text \<open>C31. A bank customer is one user. Once a callback has let a named customer of a bank in as a user,
  whoever raced it, the customer's connection leads to that user, the identity stays unique,
  and in any later state that still has the connection every callback for the same customer
  lets in that same user, creating none.\<close>

theorem bank_customer_is_one_user:
  assumes "sole_identity (base s)" "sole_identity (race (base s))" "distinct (map conn_id (connections (base s)))"
    and "exchange_code_for_token pr code = Inr t" "tok_customer t = Some cust"
    and "redeem_state now state (kv s) = (Some slug, r0)"
    and "bank_login_callback env pr race now j (Inr (code, state)) s = (Inr (a, u, r), s')"
    and "sole_identity (base s2)" "identified slug cust u (base s') \<Longrightarrow> identified slug cust u (base s2)"
    and "exchange_code_for_token pr2 code2 = Inr t2" "tok_customer t2 = Some cust"
    and "redeem_state now2 state2 (kv s2) = (Some slug, r2)"
    and "bank_login_callback env pr2 race2 now2 j2 (Inr (code2, state2)) s2 = (Inr (a2, u2, rr2), s3)"
  shows "identified slug cust u (base s') \<and> sole_identity (base s') \<and> u2 = u \<and>
    map user_id (users (base s3)) = map user_id (users (base s2))"
proof -
  have i: "identified slug cust u (base s')" by (rule callback_identified [OF assms(4,5,6,3,7)])
  have s: "sole_identity (base s')" by (rule callback_sole [OF assms(1,2,3,4,6,7)])
  obtain c where c: "customer_connection slug t2 (base s2) = Some c" "conn_user c = u"
    using known_customer [OF assms(9) [OF i] assms(8,11)] by blast
  have "repeat_bank_login env pr2 now2 j2 t2 c (s2\<lparr>kv := r2\<rparr>) = (Inr (a2, u2, rr2), s3)"
    using assms(13) callback_call [OF assms(10,12) callback_connector [OF assms(13,12)]] c by simp
  from repeat_login_user [OF this] show ?thesis using i s c by simp
qed


subsection \<open>A customer who logs in twice\<close>

definition sample_bank :: provider where
  "sample_bank = \<lparr>post_token = (\<lambda>c. Inr (Some \<lparr>rt_access = Some ''acc'', rt_refresh = None, rt_customer = Some ''c1'',
       rt_email = Some ''m@x'', rt_phone = Some ''+201001234567'', rt_name = None\<rparr>)),
     fetch_accounts = (\<lambda>t. Inr []), fetch_transactions = (\<lambda>t k. Inr [])\<rparr>"

definition sample_token :: token where
  "sample_token = \<lparr>tok_access = ''acc'', tok_refresh = None, tok_customer = Some ''c1'', tok_email = ''m@x'',
     tok_phone = ''+201001234567'', tok_name = None\<rparr>"

lemma sample_exchange: "exchange_code_for_token sample_bank code = Inr sample_token"
  by (simp add: exchange_code_for_token_def sample_bank_def sample_token_def token_of_def)

definition login_example :: sessions where
  "login_example = (plain_sessions [])\<lparr>kv := mint_state 0 ''st2'' ''mock_bank'' (mint_state 0 ''st1'' ''mock_bank'' Map.empty)\<rparr>"

definition logged_in :: sessions where
  "logged_in = snd (bank_login_callback plain_env sample_bank id 1 ''j1'' (Inr (''code'', ''st1'')) login_example)"

lemma example_connections [simp]: "connections (base login_example) = []"
  by (simp add: login_example_def plain_sessions_def empty_db_def)

lemma sample_redeem:
  "redeem_state 1 ''st1'' (kv login_example) = (Some ''mock_bank'', (kv login_example)(state_key ''st1'' := None))"
  by (simp add: redeem_state_def redis_getdel_def login_example_def mint_state_def redis_set_def BANK_LOGIN_STATE_TTL_SECONDS_def)

lemma example_slug: "get_connector ''mock_bank'' = Inr ()"
  by (simp add: get_connector_def REGISTRY_def guard_res_def)

lemmas account_steps = first_bank_login_def provision_def create_user_def connection_clash_def customer_connection_def
  login_connection_def apply_synced_accounts_def land_accounts_def token_pair_response_def Let_def

lemma first_call:
  "bank_login_callback plain_env sample_bank id 1 ''j1'' (Inr (''code'', ''st1'')) login_example =
     (Inr (plain_token CHR ''X'' False (uuid_str 0) ''j1'', 0, plain_token CHR ''R'' False (uuid_str 0) ''j1''), logged_in)"
proof -
  have "fst (bank_login_callback plain_env sample_bank id 1 ''j1'' (Inr (''code'', ''st1'')) login_example) =
      Inr (plain_token CHR ''X'' False (uuid_str 0) ''j1'', 0, plain_token CHR ''R'' False (uuid_str 0) ''j1'')"
    unfolding callback_call [OF sample_exchange sample_redeem example_slug]
    by (simp add: account_steps sample_bank_def sample_token_def plain_defs login_example_def fresh_def)
  then show ?thesis by (simp add: prod_eq_iff logged_in_def)
qed

lemma logged_in_tables:
  "connections (base logged_in) = [\<lparr>conn_id = 1, conn_user = 0, provider_slug = ''mock_bank'', conn_status = Linked,
      external_customer_id = Some ''c1'', access_token = Some ''acc'', refresh_token = None, oauth_state = None,
      error_reason = None, linked_at = Some 1\<rparr>]"
  "map user_id (users (base logged_in)) = [0]" "kv logged_in = (kv login_example)(state_key ''st1'' := None)"
  unfolding logged_in_def callback_call [OF sample_exchange sample_redeem example_slug]
  by (simp_all add: account_steps sample_bank_def sample_token_def plain_defs login_example_def fresh_def draw_def)


lemma sample_redeem2:
  "redeem_state 2 ''st2'' (kv logged_in) = (Some ''mock_bank'', (kv logged_in)(state_key ''st2'' := None))"
  by (simp add: redeem_state_def redis_getdel_def logged_in_tables(3) login_example_def mint_state_def redis_set_def
      BANK_LOGIN_STATE_TTL_SECONDS_def)

lemma second_call:
  "\<exists>a u r s'. bank_login_callback plain_env sample_bank id 2 ''j2'' (Inr (''code'', ''st2'')) logged_in = (Inr (a, u, r), s')"
proof -
  obtain x where x: "users (base logged_in) = [x]" "user_id x = 0"
    using logged_in_tables(2) by (cases "users (base logged_in)") auto
  show ?thesis
    unfolding callback_call [OF sample_exchange sample_redeem2 example_slug]
    by (simp add: customer_connection_def repeat_bank_login_def connection_user_def apply_synced_accounts_def
        land_accounts_def token_pair_response_def Let_def logged_in_tables x by_pk_Cons sample_bank_def sample_token_def
        plain_env_def plain_jwt_def)
qed

theorem bank_customer_is_one_user_witness:
  "identified ''mock_bank'' ''c1'' 0 (base logged_in) \<and> sole_identity (base logged_in) \<and>
   (\<exists>a u r s'. bank_login_callback plain_env sample_bank id 2 ''j2'' (Inr (''code'', ''st2'')) logged_in = (Inr (a, u, r), s') \<and>
      u = 0 \<and> map user_id (users (base s')) = [0])"
proof -
  obtain a u r s' where 2: "bank_login_callback plain_env sample_bank id 2 ''j2'' (Inr (''code'', ''st2'')) logged_in =
      (Inr (a, u, r), s')" using second_call by blast
  have s0: "sole_identity (base login_example)" "distinct (map conn_id (connections (base login_example)))"
    by (simp_all add: sole_identity_def identified_def)
  have s1: "sole_identity (base logged_in)" by (auto simp: sole_identity_def identified_def logged_in_tables)
  have t: "tok_customer sample_token = Some ''c1''" by (simp add: sample_token_def)
  have "sole_identity (id (base login_example))" using s0(1) by simp
  from bank_customer_is_one_user [OF s0(1) this s0(2) sample_exchange t sample_redeem first_call s1 _ sample_exchange t
      sample_redeem2 2]
  show ?thesis using 2 logged_in_tables(2) by simp
qed


subsection \<open>A refused bank login\<close>

definition business :: "exc \<Rightarrow> bool" where
  "business e \<longleftrightarrow> (case e of BusinessRuleError m c f \<Rightarrow> True | _ \<Rightarrow> False)"

text \<open>The JWT library raises exceptions of its own, never one of the application's business rules.\<close>

definition own_refusals :: "jwt_library \<Rightarrow> bool" where
  "own_refusals L \<longleftrightarrow> (\<forall>now j x tk e. fst (for_user L now j x tk) = Inl e \<longrightarrow> \<not> business e)"

lemma user_not_business: "connection_user c d = Inl e \<Longrightarrow> \<not> business e"
  by (auto simp: connection_user_def business_def split: option.splits)

lemma pair_not_business:
  assumes "own_refusals (jwt env)"
    and "token_pair_response env now j x s = (Inl e, s')"
  shows "\<not> business e"
proof -
  have "fst (for_user (jwt env) now j x (jwts s)) = Inl e"
    using assms(2) by (auto simp: token_pair_response_def split: prod.splits sum.splits)
  with assms(1) show ?thesis unfolding own_refusals_def by blast
qed

lemma upserts_not_business: "upsert_accounts c xs d = (Inl e, d') \<Longrightarrow> \<not> business e"
proof (induction xs arbitrary: d d')
  case (Cons x xs)
  then show ?case
    by (auto simp: upsert_account_def business_def Let_def split: prod.splits sum.splits list.splits)
qed simp

lemma apply_not_business: "apply_synced_accounts c xs pr d = (Inl e, d') \<Longrightarrow> \<not> business e"
  by (auto simp: apply_synced_accounts_def land_accounts_def Let_def split: prod.splits sum.splits
      dest: upserts_not_business)

lemma repeat_not_business:
  assumes "own_refusals (jwt env)"
    and "repeat_bank_login env pr now j t c s = (Inl e, s')"
  shows "\<not> business e"
  using assms(2) by (auto simp: repeat_bank_login_def Let_def split: sum.splits prod.splits
      dest: pair_not_business [OF assms(1)] apply_not_business user_not_business)

lemma first_business:
  assumes "own_refusals (jwt env)"
    and "first_bank_login env pr id now j slug t s = (Inl e, s')" "business e"
  shows "s' = s \<and> (e = email_conflict \<or> e = bank_login_failed \<and> (\<exists>m. fetch_accounts pr (Some (tok_access t)) = Inl m))"
proof -
  consider (taken) "list_ex (\<lambda>x. user_email x = tok_email t) (users (base s))"
    | (dark) m where "\<not> list_ex (\<lambda>x. user_email x = tok_email t) (users (base s))"
        "fetch_accounts pr (Some (tok_access t)) = Inl m"
    | (new) xs x c d where "\<not> list_ex (\<lambda>x. user_email x = tok_email t) (users (base s))"
        "fetch_accounts pr (Some (tok_access t)) = Inr xs" "provision env now slug t (base s) = (Inr (x, c), d)"
    | (clash) xs e' d where "\<not> list_ex (\<lambda>x. user_email x = tok_email t) (users (base s))"
        "fetch_accounts pr (Some (tok_access t)) = Inr xs" "provision env now slug t (base s) = (Inl e', d)"
    by (metis old.prod.exhaust sum.exhaust)
  then show ?thesis
  proof cases
    case taken
    then show ?thesis using assms(2) by (simp add: first_bank_login_def)
  next
    case dark
    then show ?thesis using assms(2) by (simp add: first_bank_login_def)
  next
    case new
    then show ?thesis using assms(2,3)
      by (auto simp: first_bank_login_def Let_def split: prod.splits sum.splits
          dest: apply_not_business pair_not_business [OF assms(1)])
  next
    case clash
    obtain m where m: "e' = Unhandled m" using provision_raises [OF clash(3)] by blast
    have d: "d = base s" using provision_fails [OF clash(3)] .
    show ?thesis using assms(2,3) clash
      by (auto simp: first_bank_login_def Let_def m d business_def [of "Unhandled _"]
          split: if_splits option.splits sum.splits dest: user_not_business pair_not_business [OF assms(1)])
  qed
qed

lemma redeem_state_kv: "redeem_state now state r = (v, r') \<Longrightarrow> r' = r(state_key state := None)"
  using redeem_redis(3) [of now state r] by simp

text \<open>C32. A bank login refused under a business rule spends the login state and leaves everything else as
  it was: no user, no connection and no account is half made. The three refusals are told
  apart: no live state, a bank that failed to exchange the code or to list the accounts, and
  an address that is already taken.\<close>

theorem refused_bank_login_changes_nothing:
  assumes "own_refusals (jwt env)"
    and "bank_login_callback env pr id now j (Inr (code, state)) s = (Inl e, s')" "business e"
  shows "s' = s\<lparr>kv := (kv s)(state_key state := None)\<rparr> \<and>
    (case fst (redeem_state now state (kv s)) of
       None \<Rightarrow> e = BusinessRuleError ''OAuth state mismatch.'' ''invalid_oauth_state'' None
     | Some slug \<Rightarrow>
        (case exchange_code_for_token pr code of
           Inl m \<Rightarrow> e = bank_login_failed
         | Inr t \<Rightarrow> customer_connection slug t (base s) = None \<and>
            (e = email_conflict \<or> e = bank_login_failed \<and> (\<exists>m. fetch_accounts pr (Some (tok_access t)) = Inl m))))"
proof -
  obtain v r where v: "redeem_state now state (kv s) = (v, r)" by fastforce
  have r: "r = (kv s)(state_key state := None)" using redeem_state_kv [OF v] .
  show ?thesis
  proof (cases v)
    case None
    then show ?thesis using assms(2) v r by (simp add: bank_login_callback_def)
  next
    case (Some slug)
    have g: "get_connector slug = Inr ()"
      using assms(2,3) v Some by (auto simp: bank_login_callback_def Let_def business_def [of "Unhandled _"] split: sum.splits)
    show ?thesis
    proof (cases "exchange_code_for_token pr code")
      case (Inl m)
      then show ?thesis using assms(2) v r Some g by (simp add: bank_login_callback_def Let_def)
    next
      case (Inr t)
      note call = callback_call [OF Inr v [unfolded Some] g]
      have none: "customer_connection slug t (base s) = None"
        using assms(2,3) call repeat_not_business [OF assms(1)] by (auto split: option.splits)
      have "first_bank_login env pr id now j slug t (s\<lparr>kv := r\<rparr>) = (Inl e, s')" using assms(2) call none by simp
      from first_business [OF assms(1) this assms(3)] show ?thesis using v r Some Inr none by simp
    qed
  qed
qed

theorem refused_bank_login_changes_nothing_witness:
  "let s' = snd (bank_login_callback plain_env no_bank id 1 ''j1'' (Inr (''code'', ''st1'')) login_example)
   in s' = login_example\<lparr>kv := (kv login_example)(state_key ''st1'' := None)\<rparr>"
proof -
  have n: "own_refusals (jwt plain_env)"
    by (simp add: own_refusals_def plain_env_def plain_jwt_def)
  have "fst (bank_login_callback plain_env no_bank id 1 ''j1'' (Inr (''code'', ''st1'')) login_example) = Inl bank_login_failed"
    by (simp add: bank_login_callback_def sample_redeem example_slug exchange_code_for_token_def no_bank_def)
  then obtain s' where c: "bank_login_callback plain_env no_bank id 1 ''j1'' (Inr (''code'', ''st1'')) login_example =
      (Inl bank_login_failed, s')" by (metis eq_fst_iff)
  show ?thesis unfolding Let_def c snd_conv
    by (rule conjunct1 [OF refused_bank_login_changes_nothing [OF n c]]) (simp add: business_def bank_login_failed_def)
qed


subsection \<open>Two edges of identity\<close>

text \<open>
  The unique validator compares the address as typed: an account whose address only agrees once
  the domain is normalised is met by the table's constraint instead.
\<close>

lemma signup_normalised_clash:
  assumes "check_email env (su_email b) = Inr e" "e \<noteq> []" "y \<in> set (users (base s))"
    "user_email y = normalize_email env e" "\<forall>x \<in> set (users (base s)). user_email x \<noteq> su_email b"
    "8 \<le> length (su_password b)" "phone_ok (su_phone b)"
  shows "fst (signup env now en sent (Inr b) s) = Inl (Unhandled ''IntegrityError'')"
proof -
  have v: "validate_email env (users (base s)) (su_email b) = Inr e"
    using assms(1,5) by (auto simp: validate_email_def list_ex_iff)
  have "signup_errors env (users (base s)) b = []" using assms(6,7) v by (simp add: signup_errors_def)
  moreover have "list_ex (\<lambda>y. user_email y = normalize_email env e) (users (base s))"
    using assms(3,4) by (auto simp: list_ex_iff)
  ultimately show ?thesis using v assms(2) by (simp add: signup_def create_user_def Let_def)
qed

text \<open>
  A token that names no customer matches a connection that has none yet, such as another user's
  pending link, and lets its bearer in as that user.
\<close>

lemma unnamed_customer_is_anyone:
  assumes "exchange_code_for_token pr code = Inr t" "tok_customer t = None"
    "redeem_state now state (kv s) = (Some slug, r0)" "get_connector slug = Inr ()"
    "connections (base s) = [c]" "provider_slug c = slug" "external_customer_id c = None"
    "fetch_accounts pr (Some (tok_access t)) = Inl m"
    "by_pk user_id (users (base s)) (conn_user c) = Some victim"
    "\<And>now j x tk. \<exists>r a tk'. for_user (jwt env) now j x tk = (Inr (r, a), tk')"
  shows "\<exists>a r s'. bank_login_callback env pr race now j (Inr (code, state)) s = (Inr (a, user_id victim, r), s')"
proof -
  let ?x = "fill_phone (tok_phone t) victim"
  have f: "user_id ?x = user_id victim" by (simp add: fill_phone_def)
  obtain r a tk' where p: "for_user (jwt env) now j ?x (jwts s) = (Inr (r, a), tk')" using assms(10) by blast
  show ?thesis
    unfolding callback_call [OF assms(1,3,4)]
    by (simp add: customer_connection_def assms repeat_bank_login_def connection_user_def Let_def
        token_pair_response_def p f)
qed

end
