(* ===== verification/Conversations.thy ===== *)
theory Conversations
  imports Profile Investments Bank_Ledger
begin

text \<open>
  The chat: core/views/conversations.py, core/tasks/conversations.py, the models and serializers
  of the same name, and the reading of the AI service's event stream in
  services/ai_service/ai_client.py. The AI service's frames and the JSON decoder are
  parameters; a JSON value is its text.
\<close>

subsection \<open>Rows\<close>

record conversation =
  cv_id :: uuid
  cv_user :: uuid
  cv_started :: int
  cv_last :: int
  cv_status :: string

text \<open>A widget's payload: JSON with DRF's reading of it as an investment plan, or a plan that was
  saved, which reads back as itself.\<close>

datatype payload = Json string "detail + plan" | Plan plan

fun read_plan :: "payload \<Rightarrow> detail + plan" where
  "read_plan (Json t r) = r"
| "read_plan (Plan p) = Inr p"

record widget =
  w_type :: "string option"
  w_payload :: payload

datatype thinking_step = Agent_step string | Tool_step string string string

record message =
  msg_id :: uuid
  msg_conversation :: uuid
  msg_sender :: string
  msg_content :: string
  msg_stage :: string
  msg_widget :: "widget option"
  msg_suggestions :: "string list option"
  msg_thinking :: "(thinking_step list \<times> int) option"
  msg_created :: int

text \<open>A reference by its message, type and target.\<close>

type_synonym reference = "uuid \<times> string \<times> uuid"

subsection \<open>The AI service's stream\<close>

text \<open>The data of a \<open>done\<close> event; a key that is missing is \<open>None\<close>, and so is a target id that is no UUID.\<close>

record reply =
  rp_content :: "string option"
  rp_widget :: "widget option option"
  rp_references :: "(string \<times> uuid option) list option"
  rp_suggestions :: "string list option"

text \<open>An envelope by its event; \<open>None\<close> where the data lacks a key the task reads.\<close>

datatype envelope =
    Token string
  | Tool_call "(string \<times> string \<times> string) option"
  | Agent_selected "string option"
  | Done reply
  | Error_event "string option"
  | Other_event
  | No_event

text \<open>What \<open>iter_lines\<close> yields, up to a connection that breaks.\<close>

datatype frame = Line string | Broken string

definition terminal :: "envelope \<Rightarrow> bool" where
  "terminal e = (case e of Done r \<Rightarrow> True | Error_event m \<Rightarrow> True | _ \<Rightarrow> False)"

text \<open>\<open>stream_chat\<close>: the envelopes it yields, and the text of the \<open>AIServiceError\<close> it ends with.\<close>

fun read_frames :: "(string \<Rightarrow> string + envelope) \<Rightarrow> frame list \<Rightarrow> envelope list \<times> string option" where
  "read_frames decode [] = ([], Some ''AI service chat stream ended without a terminal event'')"
| "read_frames decode (Broken m # fs) = ([], Some (''AI service chat stream failed: '' @ m))"
| "read_frames decode (Line l # fs) =
     (if l = [] \<or> \<not> starts_with ''data: '' l then read_frames decode fs
      else
       (case decode (drop 6 l) of
          Inl m \<Rightarrow> ([], Some (''AI service chat stream failed: '' @ m))
        | Inr e \<Rightarrow>
            if terminal e then ([e], None)
            else (case read_frames decode fs of (es, fin) \<Rightarrow> (e # es, fin))))"

definition stream_chat :: "(string \<Rightarrow> string + envelope) \<Rightarrow> string + frame list \<Rightarrow> envelope list \<times> string option" where
  "stream_chat decode conn = (case conn of Inl m \<Rightarrow> ([], Some m) | Inr fs \<Rightarrow> read_frames decode fs)"

text \<open>A client of the AI service, by what its \<open>stream_chat\<close> yields for a conversation, a user and a
  message; the one that talks to the service over HTTP.\<close>

type_synonym chat_client = "uuid \<Rightarrow> uuid \<Rightarrow> string \<Rightarrow> envelope list \<times> string option"

definition http_stream :: "(string \<Rightarrow> string + envelope) \<Rightarrow> (uuid \<Rightarrow> uuid \<Rightarrow> string \<Rightarrow> string + frame list) \<Rightarrow> chat_client" where
  "http_stream decode service k u t = stream_chat decode (service k u t)"

subsection \<open>The state\<close>

text \<open>What a client reads of a message, stored or streamed: the serializer's fallbacks applied.\<close>

record message_view =
  mv_id :: uuid
  mv_content :: string
  mv_widget :: "widget option"
  mv_references :: "(string \<times> uuid) list"
  mv_suggestions :: "string list"
  mv_thinking :: "(thinking_step list \<times> int) option"

text \<open>The events of a conversation.\<close>

datatype chat_event =
    Chat_token uuid string
  | Chat_tool_status uuid string string string
  | Chat_agent_selected uuid string
  | Chat_message uuid message_view
  | Chat_error uuid string

text \<open>The tables, the queue of \<open>generate_chat_reply\<close> tasks (conversation, user message), and the
  events published, each to its user.\<close>

record chat =
  convs :: "conversation list"
  msgs :: "message list"
  refs :: "reference list"
  replies :: "(uuid \<times> uuid) list"
  published :: "(uuid \<times> chat_event) list"
  folio :: portfolio

type_synonym 'a chat_response = "(exc + 'a) \<times> chat"

definition publish_user_event :: "uuid \<Rightarrow> chat_event \<Rightarrow> chat \<Rightarrow> chat" where
  "publish_user_event u e s = s\<lparr>published := published s @ [(u, e)]\<rparr>"

text \<open>\<open>conversation.save()\<close> bumps \<open>last_message_at\<close>.\<close>

definition touch :: "int \<Rightarrow> conversation \<Rightarrow> chat \<Rightarrow> chat" where
  "touch now c s = s\<lparr>convs := save_row cv_id (c\<lparr>cv_last := now\<rparr>) (convs s)\<rparr>"

definition message_references :: "uuid \<Rightarrow> chat \<Rightarrow> (string \<times> uuid) list" where
  "message_references m s = map snd (filter (\<lambda>r. fst r = m) (refs s))"

text \<open>\<open>MessageSerializer\<close>, without sender, stage and time.\<close>

definition serialize_message :: "message \<Rightarrow> chat \<Rightarrow> message_view" where
  "serialize_message x s =
     \<lparr>mv_id = msg_id x, mv_content = msg_content x, mv_widget = msg_widget x,
      mv_references = message_references (msg_id x) s,
      mv_suggestions = (case msg_suggestions x of None \<Rightarrow> [] | Some q \<Rightarrow> q), mv_thinking = msg_thinking x\<rparr>"

subsection \<open>Conversations\<close>

definition own_conversation :: "uuid \<Rightarrow> uuid \<Rightarrow> chat \<Rightarrow> conversation option" where
  "own_conversation u k s = by_pk cv_id (filter (\<lambda>c. cv_user c = u) (convs s)) k"

definition no_conversation :: exc where
  "no_conversation = Http404 ''No Conversation matches the given query.''"

definition create_conversation :: "int \<Rightarrow> uuid \<Rightarrow> uuid \<Rightarrow> chat \<Rightarrow> conversation chat_response" where
  "create_conversation now k u s =
     (let c = \<lparr>cv_id = k, cv_user = u, cv_started = now, cv_last = now, cv_status = ''active''\<rparr>
      in (Inr c, s\<lparr>convs := convs s @ [c]\<rparr>))"

text \<open>Newest-active first; each row with the first 80 characters of its newest message.\<close>

definition get_preview :: "conversation \<Rightarrow> chat \<Rightarrow> string option" where
  "get_preview c s = map_option (take 80 \<circ> msg_content)
     (newest_by msg_created (filter (\<lambda>x. msg_conversation x = cv_id c) (msgs s)))"

definition list_conversations :: "uuid \<Rightarrow> string option \<Rightarrow> chat \<Rightarrow> (conversation \<times> string option) list" where
  "list_conversations u st s = map (\<lambda>c. (c, get_preview c s))
     (rev (sort_key cv_last (filter (\<lambda>c. cv_user c = u \<and> (case st of None \<Rightarrow> True | Some v \<Rightarrow> cv_status c = v)) (convs s))))"

definition list_messages :: "uuid \<Rightarrow> uuid \<Rightarrow> string option \<Rightarrow> chat \<Rightarrow> exc + message_view list" where
  "list_messages u k stage s =
     (case own_conversation u k s of
        None \<Rightarrow> Inl no_conversation
      | Some c \<Rightarrow> Inr (map (\<lambda>x. serialize_message x s)
          (sort_key msg_created (filter (\<lambda>x. msg_conversation x = k \<and>
             (case stage of None \<Rightarrow> True | Some v \<Rightarrow> msg_stage x = v)) (msgs s)))))"

text \<open>Deleting cascades to the messages and their references; a plan saved from one of them stays,
  without its source.\<close>

definition delete_conversation :: "uuid \<Rightarrow> uuid \<Rightarrow> chat \<Rightarrow> unit chat_response" where
  "delete_conversation u k s =
     (case own_conversation u k s of
        None \<Rightarrow> (Inl no_conversation, s)
      | Some c \<Rightarrow>
          let gone = map msg_id (filter (\<lambda>x. msg_conversation x = k) (msgs s));
              orphan = (\<lambda>sc. if (\<exists>m \<in> set gone. sc_source sc = Some m) then sc\<lparr>sc_source := None\<rparr> else sc)
          in (Inr (), s\<lparr>convs := filter (\<lambda>c. cv_id c \<noteq> k) (convs s),
                msgs := filter (\<lambda>x. msg_conversation x \<noteq> k) (msgs s),
                refs := filter (\<lambda>r. fst r \<notin> set gone) (refs s),
                folio := (folio s)\<lparr>scenarios := map orphan (scenarios (folio s))\<rparr>\<rparr>))"


subsection \<open>Sending a message\<close>

definition CHAT_MESSAGE_MAX_LENGTH :: nat where "CHAT_MESSAGE_MAX_LENGTH = 4000"

text \<open>The body's \<open>content\<close>, trimmed as \<open>CharField\<close> does, or DRF's own refusal of it.\<close>

definition validate_content :: "detail + string \<Rightarrow> exc + string" where
  "validate_content b = (case b of
       Inl es \<Rightarrow> Inl (ValidationError es)
     | Inr v \<Rightarrow>
         let t = str_strip v
         in if t = [] then Inl (field_error ''content'' ''This field may not be blank.'')
            else if CHAT_MESSAGE_MAX_LENGTH < length t then
              Inl (field_error ''content'' ''Ensure this field has no more than 4000 characters.'')
            else Inr t)"

definition user_message :: "int \<Rightarrow> uuid \<Rightarrow> uuid \<Rightarrow> string \<Rightarrow> message" where
  "user_message now m k content =
     \<lparr>msg_id = m, msg_conversation = k, msg_sender = ''user'', msg_content = content, msg_stage = ''general'',
      msg_widget = None, msg_suggestions = None, msg_thinking = None, msg_created = now\<rparr>"

text \<open>POST .../messages: consent first, then the conversation, then the body.\<close>

definition post_message ::
  "db \<Rightarrow> int \<Rightarrow> uuid \<Rightarrow> uuid \<Rightarrow> uuid \<Rightarrow> detail + string \<Rightarrow> chat \<Rightarrow> message_view chat_response" where
  "post_message d now m u k body s =
     (case require_consent u d of
        Inl e \<Rightarrow> (Inl e, s)
      | Inr _ \<Rightarrow>
         (case own_conversation u k s of
            None \<Rightarrow> (Inl no_conversation, s)
          | Some c \<Rightarrow>
             (case validate_content body of
                Inl e \<Rightarrow> (Inl e, s)
              | Inr content \<Rightarrow>
                  let x = user_message now m k content;
                      s1 = touch now c (s\<lparr>msgs := msgs s @ [x]\<rparr>)
                  in (Inr (serialize_message x s1), s1\<lparr>replies := replies s1 @ [(k, m)]\<rparr>))))"

subsection \<open>The reply task\<close>

text \<open>What the loop over the stream has seen: the steps and when the first came.\<close>

type_synonym thinking = "thinking_step list \<times> rat option"

definition think :: "rat \<Rightarrow> thinking_step \<Rightarrow> thinking \<Rightarrow> thinking" where
  "think clock x th = (fst th @ [x], case snd th of None \<Rightarrow> Some clock | Some t \<Rightarrow> Some t)"

text \<open>How the loop ends: with a result, an \<open>AIServiceError\<close>, or another exception.\<close>

datatype turn = Replied reply | Failed string | Crashed string

text \<open>The loop; each envelope comes with the reading of the monotonic clock.\<close>

fun relay :: "uuid \<Rightarrow> uuid \<Rightarrow> (rat \<times> envelope) list \<Rightarrow> string option \<Rightarrow> thinking \<Rightarrow> chat \<Rightarrow> turn \<times> thinking \<times> chat" where
  "relay u k [] fin th s =
     (Failed (case fin of None \<Rightarrow> ''AI service chat ended without a result'' | Some m \<Rightarrow> m), th, s)"
| "relay u k ((clock, Token t) # es) fin th s = relay u k es fin th (publish_user_event u (Chat_token k t) s)"
| "relay u k ((clock, Tool_call None) # es) fin th s =
     (Crashed ''KeyError'', (fst th, case snd th of None \<Rightarrow> Some clock | Some t \<Rightarrow> Some t), s)"
| "relay u k ((clock, Tool_call (Some (call, tool, st))) # es) fin th s =
     relay u k es fin (think clock (Tool_step call tool st) th)
       (publish_user_event u (Chat_tool_status k call tool st) s)"
| "relay u k ((clock, Agent_selected None) # es) fin th s =
     (Crashed ''KeyError'', (fst th, case snd th of None \<Rightarrow> Some clock | Some t \<Rightarrow> Some t), s)"
| "relay u k ((clock, Agent_selected (Some a)) # es) fin th s =
     relay u k es fin (think clock (Agent_step a) th) (publish_user_event u (Chat_agent_selected k a) s)"
| "relay u k ((clock, Done r) # es) fin th s = (Replied r, th, s)"
| "relay u k ((clock, Error_event m) # es) fin th s =
     (Failed (case m of None \<Rightarrow> ''AI service chat failed'' | Some v \<Rightarrow> v), th, s)"
| "relay u k ((clock, Other_event) # es) fin th s = relay u k es fin th s"
| "relay u k ((clock, No_event) # es) fin th s = (Crashed ''KeyError'', th, s)"

definition thinking_json :: "rat \<Rightarrow> thinking \<Rightarrow> (thinking_step list \<times> int) option" where
  "thinking_json end_clock th =
     (case th of
        (x # xs, Some t) \<Rightarrow> Some (x # xs, \<lfloor>py_round 0 (flt (flt (end_clock - t) * 1000))\<rfloor>)
      | _ \<Rightarrow> None)"

text \<open>The references, one row each; a target that is no UUID stops the loop.\<close>

fun add_references :: "uuid \<Rightarrow> (string \<times> uuid option) list \<Rightarrow> chat \<Rightarrow> bool \<times> chat" where
  "add_references m [] s = (True, s)"
| "add_references m ((ty, None) # rs) s = (False, s)"
| "add_references m ((ty, Some t) # rs) s = add_references m rs (s\<lparr>refs := refs s @ [(m, ty, t)]\<rparr>)"

definition assistant_message :: "int \<Rightarrow> uuid \<Rightarrow> uuid \<Rightarrow> string \<Rightarrow> widget option \<Rightarrow> string list option \<Rightarrow>
  (thinking_step list \<times> int) option \<Rightarrow> message" where
  "assistant_message now m k content w q th =
     \<lparr>msg_id = m, msg_conversation = k, msg_sender = ''assistant'', msg_content = content, msg_stage = ''general'',
      msg_widget = w, msg_suggestions = Some (case q of None \<Rightarrow> [] | Some l \<Rightarrow> l), msg_thinking = th, msg_created = now\<rparr>"

text \<open>Storing the result and publishing it; \<open>None\<close> is a task that ended normally.\<close>

definition store_reply :: "int \<Rightarrow> rat \<Rightarrow> uuid \<Rightarrow> conversation \<Rightarrow> reply \<Rightarrow> thinking \<Rightarrow> chat \<Rightarrow> string option \<times> chat" where
  "store_reply now end_clock m c r th s =
     (case (rp_content r, rp_widget r) of
        (Some content, Some w) \<Rightarrow>
          let x = assistant_message now m (cv_id c) content w (rp_suggestions r) (thinking_json end_clock th);
              s1 = s\<lparr>msgs := msgs s @ [x]\<rparr>
          in (case rp_references r of
                None \<Rightarrow> (Some ''KeyError'', s1)
              | Some rs \<Rightarrow>
                 (case add_references m rs s1 of
                    (False, s2) \<Rightarrow> (Some ''ValidationError'', s2)
                  | (True, s2) \<Rightarrow>
                      let s3 = touch now c s2
                      in (None, publish_user_event (cv_user c) (Chat_message (cv_id c) (serialize_message x s3)) s3)))
      | _ \<Rightarrow> (Some ''KeyError'', s))"

text \<open>The task on what the client \<open>stream\<close> yields: \<open>now\<close> the time, \<open>m\<close> the id of the reply, \<open>clocks\<close> the
  readings of the monotonic clock.\<close>

definition generate_chat_reply ::
  "chat_client \<Rightarrow> (nat \<Rightarrow> rat) \<Rightarrow> int \<Rightarrow> uuid \<Rightarrow> uuid \<Rightarrow> uuid \<Rightarrow> chat \<Rightarrow> string option \<times> chat" where
  "generate_chat_reply stream clocks now m k q s =
     (case (by_pk cv_id (convs s) k, by_pk msg_id (msgs s) q) of
        (Some c, Some x) \<Rightarrow>
         (case stream k (cv_user c) (msg_content x) of
            (es, fin) \<Rightarrow>
             (case relay (cv_user c) k (zip (map clocks [0..<length es]) es) fin ([], None) s of
                (Failed e, th, s1) \<Rightarrow> (None, publish_user_event (cv_user c) (Chat_error k e) s1)
              | (Crashed e, th, s1) \<Rightarrow> (Some e, s1)
              | (Replied r, th, s1) \<Rightarrow> store_reply now (clocks (length es)) m c r th s1))
      | _ \<Rightarrow> (Some ''DoesNotExist'', s))"

text \<open>A worker takes one task off the queue and runs it.\<close>

definition run_reply_message ::
  "chat_client \<Rightarrow> (nat \<Rightarrow> rat) \<Rightarrow> int \<Rightarrow> uuid \<Rightarrow> nat \<Rightarrow> chat \<Rightarrow> chat" where
  "run_reply_message stream clocks now m i s =
     (if length (replies s) \<le> i then s
      else
       (case replies s ! i of
          (k, q) \<Rightarrow> snd (generate_chat_reply stream clocks now m k q
            (s\<lparr>replies := take i (replies s) @ drop (Suc i) (replies s)\<rparr>))))"


subsection \<open>Writing a widget back\<close>

definition own_reply :: "uuid \<Rightarrow> uuid \<Rightarrow> chat \<Rightarrow> message option" where
  "own_reply k m s = by_pk msg_id (filter (\<lambda>x. msg_conversation x = k \<and> msg_sender x = ''assistant'') (msgs s)) m"

definition save_message :: "message \<Rightarrow> chat \<Rightarrow> chat" where
  "save_message x s = s\<lparr>msgs := save_row msg_id x (msgs s)\<rparr>"

text \<open>PATCH .../widget: \<open>sc\<close> is the id a new scenario gets. The body is the posted payload.\<close>

definition patch_widget ::
  "int \<Rightarrow> uuid \<Rightarrow> uuid \<Rightarrow> uuid \<Rightarrow> uuid \<Rightarrow> detail + payload \<Rightarrow> chat \<Rightarrow> message_view chat_response" where
  "patch_widget now sc u k m body s =
     (case own_conversation u k s of
        None \<Rightarrow> (Inl no_conversation, s)
      | Some c \<Rightarrow>
         (case own_reply k m s of
            None \<Rightarrow> (Inl (Http404 ''No Message matches the given query.''), s)
          | Some x \<Rightarrow>
             (case msg_widget x of
                None \<Rightarrow> (Inl (ValidationError (Dict [(''widget'', Str ''This message has no widget to update.'')])), s)
              | Some w \<Rightarrow>
                 (case body of
                    Inl es \<Rightarrow> (Inl (ValidationError es), s)
                  | Inr p \<Rightarrow>
                      if w_type w = Some ''investment_plan'' then
                       (case validate_saved_payload now (instruments (folio s)) (read_plan p) (read_plan (w_payload w)) of
                          Inl e \<Rightarrow> (Inl e, s)
                        | Inr q \<Rightarrow>
                            let x' = x\<lparr>msg_widget := Some (w\<lparr>w_payload := Plan q\<rparr>)\<rparr>;
                                s1 = save_message x' (s\<lparr>folio := save_message_plan now sc u m q (folio s)\<rparr>)
                            in (Inr (serialize_message x' s1), s1))
                      else
                        let x' = x\<lparr>msg_widget := Some (w\<lparr>w_payload := p\<rparr>)\<rparr>; s1 = save_message x' s
                        in (Inr (serialize_message x' s1), s1)))))"

end
