(* ===== verification/Chat_Laws.thy ===== *)
theory Chat_Laws
  imports Conversations
begin

text \<open>
  What the chat promises: every message that is accepted is answered once the queue has been
  worked off, what a client was streamed is what the history shows, and writing a widget back
  touches that widget and the plan saved from it alone.
\<close>

subsection \<open>The documented stream\<close>

text \<open>Every event carries the keys the AI service documents, and targets are ids.\<close>

definition documented_reply :: "reply \<Rightarrow> bool" where
  "documented_reply r \<longleftrightarrow> rp_content r \<noteq> None \<and> rp_widget r \<noteq> None \<and>
     (case rp_references r of None \<Rightarrow> False | Some rs \<Rightarrow> \<forall>(ty, t) \<in> set rs. t \<noteq> None)"

definition documented_envelope :: "envelope \<Rightarrow> bool" where
  "documented_envelope e = (case e of
       Tool_call v \<Rightarrow> v \<noteq> None
     | Agent_selected v \<Rightarrow> v \<noteq> None
     | Done r \<Rightarrow> documented_reply r
     | No_event \<Rightarrow> False
     | _ \<Rightarrow> True)"

definition documented :: "(string \<Rightarrow> string + envelope) \<Rightarrow> bool" where
  "documented decode \<longleftrightarrow> (\<forall>t e. decode t = Inr e \<longrightarrow> documented_envelope e)"

lemma read_frames_documented:
  "documented decode \<Longrightarrow> e \<in> set (fst (read_frames decode fs)) \<Longrightarrow> documented_envelope e"
  by (induction decode fs rule: read_frames.induct)
    (auto simp: documented_def split: sum.splits if_splits prod.splits)

lemma stream_documented:
  "documented decode \<Longrightarrow> stream_chat decode conn = (es, fin) \<Longrightarrow> e \<in> set es \<Longrightarrow> documented_envelope e"
  using read_frames_documented by (auto simp: stream_chat_def split: sum.splits) (metis fst_conv)

text \<open>A stream ends in a terminal event or in an error, never in silence.\<close>

lemma read_frames_end:
  "read_frames decode fs = (es, fin) \<Longrightarrow> fin = None \<Longrightarrow> es \<noteq> [] \<and> terminal (last es)"
  by (induction decode fs arbitrary: es rule: read_frames.induct) (auto split: sum.splits if_splits prod.splits)

text \<open>
  The contract of \<open>BaseAIServiceClient.stream_chat\<close>: every event has its documented keys, and a
  stream that does not fail ends in its one terminal event. The lemmas on the reply task hold
  for every client that keeps it.
\<close>

locale ai_chat =
  fixes stream :: chat_client
  assumes keys: "stream k u t = (es, fin) \<Longrightarrow> e \<in> set es \<Longrightarrow> documented_envelope e"
    and ends: "stream k u t = (es, None) \<Longrightarrow> es \<noteq> [] \<and> terminal (last es)"

lemma http_is_ai_chat: "documented decode \<Longrightarrow> ai_chat (http_stream decode service)"
proof
  show "documented decode \<Longrightarrow> http_stream decode service k u t = (es, fin) \<Longrightarrow> e \<in> set es \<Longrightarrow> documented_envelope e"
    for k u t es fin e
    unfolding http_stream_def by (rule stream_documented)
  show "http_stream decode service k u t = (es, None) \<Longrightarrow> es \<noteq> [] \<and> terminal (last es)" for k u t es
    unfolding http_stream_def stream_chat_def by (auto dest: read_frames_end split: sum.splits)
qed

subsection \<open>The relay\<close>

text \<open>What the relay and the storing leave alone, and whom they publish to.\<close>

definition relayed :: "uuid \<Rightarrow> uuid \<Rightarrow> chat \<Rightarrow> chat \<Rightarrow> bool" where
  "relayed u k s s' \<longleftrightarrow> convs s' = convs s \<and> msgs s' = msgs s \<and> refs s' = refs s \<and> replies s' = replies s \<and>
     folio s' = folio s \<and> (\<exists>es. published s' = published s @ map (Pair u) es \<and>
       (\<forall>e \<in> set es. \<exists>t call tool st a. e \<in> {Chat_token k t, Chat_tool_status k call tool st, Chat_agent_selected k a}))"

lemma relayed_refl [simp]: "relayed u k s s"
  by (simp add: relayed_def)

lemma relayed_publish:
  assumes "relayed u k (publish_user_event u e s) s'"
    "\<exists>t call tool st a. e \<in> {Chat_token k t, Chat_tool_status k call tool st, Chat_agent_selected k a}"
  shows "relayed u k s s'"
proof -
  obtain es where es: "published s' = published (publish_user_event u e s) @ map (Pair u) es"
    "\<forall>e \<in> set es. \<exists>t call tool st a. e \<in> {Chat_token k t, Chat_tool_status k call tool st, Chat_agent_selected k a}"
    using assms(1) unfolding relayed_def by blast
  have "published s' = published s @ map (Pair u) (e # es)" using es(1) by (simp add: publish_user_event_def)
  moreover have "\<forall>x \<in> set (e # es). \<exists>t call tool st a. x \<in> {Chat_token k t, Chat_tool_status k call tool st, Chat_agent_selected k a}"
    using es(2) assms(2) by simp
  moreover have "convs s' = convs s \<and> msgs s' = msgs s \<and> refs s' = refs s \<and> replies s' = replies s \<and> folio s' = folio s"
    using assms(1) by (simp add: relayed_def publish_user_event_def)
  ultimately show ?thesis unfolding relayed_def by blast
qed

lemma relay_relayed: "relayed u k s (snd (snd (relay u k es fin th s)))"
proof (induction u k es fin th s rule: relay.induct)
  case (2 u k clock t es fin th s)
  then show ?case by (simp add: relayed_publish)
next
  case (4 u k clock call tool st es fin th s)
  then show ?case by (simp add: relayed_publish)
next
  case (6 u k clock a es fin th s)
  then show ?case by (simp add: relayed_publish)
qed simp_all

lemma relay_documented:
  assumes "\<forall>(t, e) \<in> set es. documented_envelope e"
  shows "case fst (relay u k es fin th s) of Replied r \<Rightarrow> documented_reply r | Failed m \<Rightarrow> True | Crashed m \<Rightarrow> False"
  using assms by (induction u k es fin th s rule: relay.induct) (auto simp: documented_envelope_def)


subsection \<open>One answer per task\<close>

definition is_answer :: "uuid \<Rightarrow> uuid \<times> chat_event \<Rightarrow> bool" where
  "is_answer k p = (case snd p of Chat_message k' v \<Rightarrow> k' = k | Chat_error k' m \<Rightarrow> k' = k | _ \<Rightarrow> False)"

definition answers :: "uuid \<Rightarrow> chat \<Rightarrow> nat" where
  "answers k s = length (filter (is_answer k) (published s))"

text \<open>A task whose conversation and message are still there.\<close>

definition askable :: "chat \<Rightarrow> uuid \<times> uuid \<Rightarrow> bool" where
  "askable s t \<longleftrightarrow> fst t \<in> cv_id ` set (convs s) \<and> snd t \<in> msg_id ` set (msgs s)"

definition pending :: "uuid \<Rightarrow> chat \<Rightarrow> nat" where
  "pending k s = length (filter (\<lambda>t. fst t = k \<and> askable s t) (replies s))"

lemma relayed_answers: "relayed u k s s' \<Longrightarrow> answers k' s' = answers k' s"
proof -
  assume "relayed u k s s'"
  then obtain es where es: "published s' = published s @ map (Pair u) es"
    "\<forall>e \<in> set es. \<exists>t call tool st a. e \<in> {Chat_token k t, Chat_tool_status k call tool st, Chat_agent_selected k a}"
    unfolding relayed_def by blast
  have "\<not> is_answer k' (u, e)" if "e \<in> set es" for e
    using es(2) that by (cases e) (auto simp: is_answer_def)
  then show "answers k' s' = answers k' s" by (simp add: answers_def es(1) filter_empty_conv)
qed

lemma publish_answers:
  "answers k (publish_user_event u e s) = answers k s + (if is_answer k (u, e) then 1 else 0)"
  by (simp add: answers_def publish_user_event_def)

lemma add_references_all:
  "\<forall>(ty, t) \<in> set rs. t \<noteq> None \<Longrightarrow>
   add_references m rs s = (True, s\<lparr>refs := refs s @ map (\<lambda>(ty, t). (m, ty, the t)) rs\<rparr>)"
  by (induction m rs s rule: add_references.induct) auto

lemma documented_replyE:
  assumes "documented_reply r"
  obtains content w rs where "rp_content r = Some content" "rp_widget r = Some w" "rp_references r = Some rs"
    "\<forall>(ty, t) \<in> set rs. t \<noteq> None"
  using assms unfolding documented_reply_def by (auto split: option.splits)

text \<open>What storing a documented reply comes to.\<close>

lemma store_reply_stores:
  assumes "documented_reply r" "store_reply now z m c r th s = (e, s')"
  obtains content w rs x where "rp_content r = Some content" "rp_widget r = Some w" "rp_references r = Some rs"
    "x = assistant_message now m (cv_id c) content w (rp_suggestions r) (thinking_json z th)"
    "e = None" "msgs s' = msgs s @ [x]" "refs s' = refs s @ map (\<lambda>(ty, t). (m, ty, the t)) rs"
    "convs s' = save_row cv_id (c\<lparr>cv_last := now\<rparr>) (convs s)" "replies s' = replies s" "folio s' = folio s"
    "published s' = published s @ [(cv_user c, Chat_message (cv_id c) (serialize_message x s'))]"
proof -
  obtain content w rs where r: "rp_content r = Some content" "rp_widget r = Some w" "rp_references r = Some rs"
    "\<forall>(ty, t) \<in> set rs. t \<noteq> None" using documented_replyE [OF assms(1)] by blast
  let ?x = "assistant_message now m (cv_id c) content w (rp_suggestions r) (thinking_json z th)"
  let ?s2 = "s\<lparr>msgs := msgs s @ [?x], refs := refs s @ map (\<lambda>(ty, t). (m, ty, the t)) rs\<rparr>"
  have 2: "add_references m rs (s\<lparr>msgs := msgs s @ [?x]\<rparr>) = (True, ?s2)"
    using add_references_all [OF r(4), of m "s\<lparr>msgs := msgs s @ [?x]\<rparr>"] by simp
  have "e = None" "s' = publish_user_event (cv_user c) (Chat_message (cv_id c) (serialize_message ?x (touch now c ?s2))) (touch now c ?s2)"
    using assms(2) by (simp_all add: store_reply_def r Let_def 2)
  then show thesis
    by (intro that [OF r(1,2,3) refl]) (simp_all add: touch_def publish_user_event_def serialize_message_def message_references_def)
qed

lemma save_row_ids: "pk ` set (save_row pk r rs) = pk ` set rs"
  using arg_cong [OF save_row_pks [of pk r rs], of set] by (simp only: set_map)

subsection \<open>Working off the queue\<close>

text \<open>Workers take the tasks in any order: \<open>plan n\<close> is the clock, the time, the id of the reply and
  the position taken when \<open>n\<close> more tasks wait.\<close>

type_synonym work_plan = "nat \<Rightarrow> (nat \<Rightarrow> rat) \<times> int \<times> uuid \<times> nat"

fun work_off ::
  "chat_client \<Rightarrow> work_plan \<Rightarrow> nat \<Rightarrow> chat \<Rightarrow> chat" where
  "work_off stream plan 0 s = s"
| "work_off stream plan (Suc n) s =
     (case plan n of (clocks, now, m, i) \<Rightarrow>
        work_off stream plan n (run_reply_message stream clocks now m i s))"

context ai_chat
begin

lemma reply_answers_once:
  assumes "generate_chat_reply stream clocks now m k q s = (e, s')"
  shows "answers k' s' = answers k' s + (if k' = k \<and> askable s (k, q) then 1 else 0) \<and> replies s' = replies s \<and>
    cv_id ` set (convs s') = cv_id ` set (convs s) \<and> msg_id ` set (msgs s) \<subseteq> msg_id ` set (msgs s') \<and>
    msg_id ` set (msgs s') \<subseteq> insert m (msg_id ` set (msgs s)) \<and> (askable s (k, q) \<longrightarrow> e = None)"
proof (cases "askable s (k, q)")
  case False
  then have "by_pk cv_id (convs s) k = None \<or> by_pk msg_id (msgs s) q = None"
    by (auto simp: askable_def by_pk_None)
  then have "s' = s" using assms by (auto simp: generate_chat_reply_def split: option.splits)
  then show ?thesis using False by (simp add: subset_insertI)
next
  case True
  then obtain c x where c: "by_pk cv_id (convs s) k = Some c" and x: "by_pk msg_id (msgs s) q = Some x"
    unfolding askable_def by (metis by_pk_None fst_conv not_None_eq snd_conv)
  have ck: "cv_id c = k" using by_pk_Some [OF c] by simp
  obtain es fin where es: "stream k (cv_user c) (msg_content x) = (es, fin)" by fastforce
  let ?z = "zip (map clocks [0..<length es]) es"
  obtain tn th s1 where r: "relay (cv_user c) k ?z fin ([], None) s = (tn, th, s1)" by (metis prod_cases3)
  have rel: "relayed (cv_user c) k s s1" using relay_relayed [of "cv_user c" k s ?z fin "([], None)"] r by simp
  have "\<forall>(t, e) \<in> set ?z. documented_envelope e" using keys [OF es] by (auto dest: set_zip_rightD)
  from relay_documented [OF this, of "cv_user c" k fin "([], None)" s] r
  have doc: "case tn of Replied r \<Rightarrow> documented_reply r | Failed m \<Rightarrow> True | Crashed m \<Rightarrow> False" by simp
  note s1 = rel [unfolded relayed_def]
  show ?thesis
  proof (cases tn)
    case (Failed m')
    then have "e = None" "s' = publish_user_event (cv_user c) (Chat_error k m') s1"
      using assms by (simp_all add: generate_chat_reply_def c x es r)
    then show ?thesis using True s1 relayed_answers [OF rel]
      by (auto simp: publish_answers is_answer_def) (simp_all add: publish_user_event_def)
  next
    case (Crashed m')
    then show ?thesis using doc by simp
  next
    case (Replied rr)
    then have st: "store_reply now (clocks (length es)) m c rr th s1 = (e, s')"
      using assms by (simp add: generate_chat_reply_def c x es r)
    have dr: "documented_reply rr" using doc Replied by simp
    show ?thesis
    proof (cases rule: store_reply_stores [OF dr st])
      case (1 content w rs x')
      have "answers k' s' = answers k' s + (if k' = k then 1 else 0)"
        using relayed_answers [OF rel, of k'] ck by (simp add: answers_def 1(11) is_answer_def)
      then show ?thesis using True s1 1(4,5,6,8,9) by (auto simp: save_row_ids assistant_message_def)
    qed
  qed
qed

lemma run_reply_once:
  assumes "i < length (replies s)" "m \<notin> snd ` set (replies s)"
    and s': "s' = run_reply_message stream clocks now m i s"
  shows "length (replies s') = length (replies s) - 1 \<and> set (replies s') \<subseteq> set (replies s) \<and>
    answers k s' + pending k s' = answers k s + pending k s"
proof -
  let ?rest = "take i (replies s) @ drop (Suc i) (replies s)"
  let ?s0 = "s\<lparr>replies := ?rest\<rparr>"
  obtain kc q where t: "replies s ! i = (kc, q)" by fastforce
  have all: "replies s = take i (replies s) @ (kc, q) # drop (Suc i) (replies s)"
    using id_take_nth_drop [OF assms(1)] t by simp
  obtain e where g: "generate_chat_reply stream clocks now m kc q ?s0 = (e, s')"
    using s' assms(1) t by (cases "generate_chat_reply stream clocks now m kc q ?s0") (simp add: run_reply_message_def)
  note one = reply_answers_once [OF g]
  have rep: "replies s' = ?rest" using one [of k] by simp
  have sub: "set ?rest \<subseteq> set (replies s)" by (auto dest: in_set_takeD in_set_dropD)
  have m: "snd t \<noteq> m" if "t \<in> set ?rest" for t using that sub assms(2) by auto
  have ask: "askable s' t \<longleftrightarrow> askable s t" if "t \<in> set ?rest" for t
    using one [of k] m [OF that] by (auto simp: askable_def)
  have "pending k s' = length (filter (\<lambda>t. fst t = k \<and> askable s t) ?rest)"
    unfolding pending_def rep by (intro arg_cong [where f = length] filter_cong refl) (simp add: ask)
  moreover have "pending k s = length (filter (\<lambda>t. fst t = k \<and> askable s t) ?rest) + (if kc = k \<and> askable s (kc, q) then 1 else 0)"
    unfolding pending_def by (subst all) auto
  moreover have "answers k s' = answers k s + (if k = kc \<and> askable s (kc, q) then 1 else 0)"
    using one [of k] by (simp add: answers_def askable_def)
  moreover have "length ?rest = length (replies s) - 1" using assms(1) by simp
  ultimately show ?thesis using rep sub by auto
qed

lemma work_off_all:
  assumes "length (replies s) = n"
    "\<forall>j < n. case plan j of (clocks, now, m, i) \<Rightarrow> i \<le> j \<and> m \<notin> snd ` set (replies s)"
  shows "replies (work_off stream plan n s) = [] \<and>
    answers k (work_off stream plan n s) = answers k s + pending k s"
  using assms
proof (induction n arbitrary: s)
  case 0
  then show ?case by (simp add: pending_def)
next
  case (Suc n)
  obtain clocks now m i where p: "plan n = (clocks, now, m, i)" by (metis prod_cases4)
  define s' where "s' = run_reply_message stream clocks now m i s"
  have i: "i < length (replies s)" "m \<notin> snd ` set (replies s)"
    using Suc.prems(1) spec [OF Suc.prems(2), of n] p by auto
  note one = run_reply_once [OF i s'_def, of k]
  have "\<forall>j < n. case plan j of (clocks, now, m, i) \<Rightarrow> i \<le> j \<and> m \<notin> snd ` set (replies s')"
  proof (intro allI impI)
    fix j assume "j < n"
    then have "case plan j of (clocks, now, m, i) \<Rightarrow> i \<le> j \<and> m \<notin> snd ` set (replies s)"
      using Suc.prems(2) by simp
    then show "case plan j of (clocks, now, m, i) \<Rightarrow> i \<le> j \<and> m \<notin> snd ` set (replies s')"
      using one by (cases "plan j") auto
  qed
  moreover have "length (replies s') = n" using one Suc.prems(1) by simp
  ultimately show ?case using Suc.IH [of s'] one p by (simp add: s'_def)
qed

end

lemma post_message_queues:
  assumes "post_message d now m u k body s = (Inr v, s1)"
  shows "replies s1 = replies s @ [(k, m)] \<and> askable s1 (k, m) \<and> answers k' s1 = answers k' s \<and>
    has_active_consent u ''data_processing'' d"
proof -
  obtain c content where c: "own_conversation u k s = Some c" and "validate_content body = Inr content"
    and s1: "s1 = (touch now c (s\<lparr>msgs := msgs s @ [user_message now m k content]\<rparr>))\<lparr>replies := replies s @ [(k, m)]\<rparr>"
    and con: "require_consent u d = Inr ()"
    using assms by (auto simp: post_message_def Let_def touch_def split: sum.splits option.splits)
  have "cv_id c = k" "c \<in> set (convs s)" using by_pk_Some [OF c [unfolded own_conversation_def]] by auto
  then have "k \<in> cv_id ` set (convs s)" by auto
  moreover have "has_active_consent u ''data_processing'' d" using con by (simp add: require_consent_def)
  ultimately show ?thesis
    by (simp add: s1 touch_def askable_def save_row_ids user_message_def answers_def)
qed

text \<open>C34. Every accepted message is answered. Once a message has been posted, with the sender's
  consent, and the workers have gone through the queue in whatever order, no task is left and
  each conversation has received exactly one reply or one error for every task whose
  conversation and message still exist; the one just posted is among them.\<close>

theorem every_message_is_answered:
  assumes "documented decode" "post_message d now m u k body s = (Inr v, s1)"
    and "\<forall>j < length (replies s1). case plan j of (clocks, now, m, i) \<Rightarrow> i \<le> j \<and> m \<notin> snd ` set (replies s1)"
  shows "has_active_consent u ''data_processing'' d \<and> 0 < pending k s1 \<and>
    replies (work_off (http_stream decode service) plan (length (replies s1)) s1) = [] \<and>
    (\<forall>k'. answers k' (work_off (http_stream decode service) plan (length (replies s1)) s1) = answers k' s + pending k' s1)"
proof -
  have q: "replies s1 = replies s @ [(k, m)]" "askable s1 (k, m)" "answers k' s1 = answers k' s"
    "has_active_consent u ''data_processing'' d" for k'
    using post_message_queues [OF assms(2)] by simp_all
  have "0 < pending k s1" using q(1,2) by (simp add: pending_def)
  then show ?thesis using ai_chat.work_off_all [OF http_is_ai_chat [OF assms(1)] refl assms(3), of service] q(3,4) by simp
qed


definition sample_chat :: chat where
  "sample_chat = \<lparr>convs = [\<lparr>cv_id = 1, cv_user = 7, cv_started = 0, cv_last = 0, cv_status = ''active''\<rparr>],
     msgs = [], refs = [], replies = [], published = [],
     folio = \<lparr>instruments = [], holdings = [], scenarios = [], purchases = []\<rparr>\<rparr>"

definition sample_reply :: reply where
  "sample_reply = \<lparr>rp_content = Some ''hello'', rp_widget = Some None, rp_references = Some [(''budget'', Some 4)],
     rp_suggestions = None\<rparr>"

definition sample_decode :: "string \<Rightarrow> string + envelope" where
  "sample_decode t = (if t = ''d'' then Inr (Done sample_reply) else Inr (Token t))"

definition consenting :: db where
  "consenting = snd (grant_consent 1 7 (Inr (''data_processing'', ''v1'')) empty_db)"

lemma sample_documented: "documented sample_decode"
  by (simp add: documented_def sample_decode_def documented_envelope_def documented_reply_def sample_reply_def)

lemma sample_posted:
  "\<exists>v s1. post_message consenting 3 10 7 1 (Inr ''hi'') sample_chat = (Inr v, s1) \<and> replies s1 = [(1, 10)]"
  by (simp add: post_message_def require_consent_def has_active_consent_def consent_log_def consenting_def
      grant_consent_def add_consent_def guard_res_def own_conversation_def sample_chat_def by_pk_Cons
      validate_content_def str_strip_def is_space_def CHAT_MESSAGE_MAX_LENGTH_def touch_def empty_db_def Let_def)

theorem every_message_is_answered_witness:
  "\<exists>v s1. post_message consenting 3 10 7 1 (Inr ''hi'') sample_chat = (Inr v, s1) \<and>
     replies (work_off (http_stream sample_decode (\<lambda>k u t. Inr [Line ''data: hel'', Line ''data: d''])) (\<lambda>n. (\<lambda>i. 0, 5, 11, 0)) 1 s1) = [] \<and>
     0 < pending 1 s1"
proof -
  obtain v s1 where p: "post_message consenting 3 10 7 1 (Inr ''hi'') sample_chat = (Inr v, s1)" and r: "replies s1 = [(1, 10)]"
    using sample_posted by blast
  have "\<forall>j < length (replies s1). case (\<lambda>i. 0 :: rat, 5 :: int, 11 :: uuid, 0 :: nat) of (clocks, now, m, i) \<Rightarrow>
      i \<le> j \<and> m \<notin> snd ` set (replies s1)" by (simp add: r)
  from every_message_is_answered [OF sample_documented p, of "\<lambda>n. (\<lambda>i. 0, 5, 11, 0)", OF this,
      of "\<lambda>k u t. Inr [Line ''data: hel'', Line ''data: d'']"]
  show ?thesis using p r by (intro exI [of _ v] exI [of _ s1]) simp
qed

subsection \<open>The stream and the history agree\<close>

lemma message_references_new:
  assumes "m \<notin> fst ` set (refs s)" "refs s' = refs s @ map (\<lambda>(ty, t). (m, ty, the t)) rs"
  shows "message_references m s' = map (\<lambda>(ty, t). (ty, the t)) rs"
proof -
  have "filter (\<lambda>r. fst r = m) (refs s) = []" using assms(1) by (force simp: filter_empty_conv)
  moreover have "filter (\<lambda>r. fst r = m) (map (\<lambda>(ty, t). (m, ty, the t)) rs) = map (\<lambda>(ty, t). (m, ty, the t)) rs"
    by (induction rs) auto
  ultimately show ?thesis by (simp add: message_references_def assms(2)) (simp add: case_prod_unfold)
qed



definition asked :: chat where
  "asked = sample_chat\<lparr>msgs := [user_message 3 10 1 ''hi'']\<rparr>"

definition sample_service :: "uuid \<Rightarrow> uuid \<Rightarrow> string \<Rightarrow> string + frame list" where
  "sample_service k u t = Inr [Line ''data: hel'', Line '''', Line ''data: d'', Line ''data: late'']"


subsection \<open>Writing a widget back\<close>

lemma save_message_plan_source:
  assumes "distinct (map sc_id (scenarios f))" "length (filter (\<lambda>c. sc_source c = Some m) (scenarios f)) \<le> 1"
  shows "\<exists>c. filter (\<lambda>c. sc_source c = Some m) (scenarios (save_message_plan now k u m q f)) = [c] \<and> sc_payload c = q"
proof (cases "filter (\<lambda>c. sc_source c = Some m) (scenarios f)")
  case Nil
  then show ?thesis by (simp add: save_message_plan_def)
next
  case (Cons c cs)
  then have one: "filter (\<lambda>c. sc_source c = Some m) (scenarios f) = [c]" using assms(2) by simp
  then have c: "c \<in> set (scenarios f)" "sc_source c = Some m" by (auto dest: filter_eq_ConsD)
  have same: "x = c" if "x \<in> set (scenarios f)" "sc_id x = sc_id c" for x
    using by_pk_unique [OF assms(1) that] by_pk_unique [OF assms(1) c(1) refl] by simp
  have "filter (\<lambda>x. sc_source x = Some m) (save_row sc_id (c\<lparr>sc_payload := q\<rparr>) (scenarios f)) =
      map (\<lambda>x. if sc_id x = sc_id c then c\<lparr>sc_payload := q\<rparr> else x) (filter (\<lambda>x. sc_source x = Some m) (scenarios f))"
    unfolding save_row_def filter_map o_def
    by (intro map_cong filter_cong) (auto dest: same simp: c)
  then show ?thesis by (simp add: save_message_plan_def one save_scenario_def)
qed

text \<open>Writing a widget back replaces the payload of that one message's widget and nothing else in
  the chat: its type, every other message and every reference, event and queued task stay. For
  an investment plan the payload stored is the validated one, and the one scenario saved from
  the message holds exactly it; no other widget touches the portfolio.\<close>

theorem widget_patch_touches_only_it:
  assumes "distinct (map sc_id (scenarios (folio s)))"
    "length (filter (\<lambda>c. sc_source c = Some m) (scenarios (folio s))) \<le> 1"
    and "patch_widget now sc u k m body s = (Inr v, s')"
  shows "\<exists>x w p. own_reply k m s = Some x \<and> msg_widget x = Some w \<and>
    s' = s\<lparr>msgs := save_row msg_id (x\<lparr>msg_widget := Some (w\<lparr>w_payload := p\<rparr>)\<rparr>) (msgs s), folio := folio s'\<rparr> \<and>
    v = serialize_message (x\<lparr>msg_widget := Some (w\<lparr>w_payload := p\<rparr>)\<rparr>) s' \<and>
    (if w_type w = Some ''investment_plan''
     then \<exists>q c b. p = Plan q \<and> body = Inr b \<and>
       validate_saved_payload now (instruments (folio s)) (read_plan b) (read_plan (w_payload w)) = Inr q \<and>
       filter (\<lambda>c. sc_source c = Some m) (scenarios (folio s')) = [c] \<and> sc_payload c = q
     else body = Inr p \<and> folio s' = folio s)"
proof -
  obtain x w b where x: "own_reply k m s = Some x" "msg_widget x = Some w" "body = Inr b"
    using assms(3) by (auto simp: patch_widget_def split: option.splits sum.splits)
  obtain cv where cv: "own_conversation u k s = Some cv"
    using assms(3) by (auto simp: patch_widget_def split: option.splits)
  show ?thesis
  proof (cases "w_type w = Some ''investment_plan''")
    case True
    obtain q where q: "validate_saved_payload now (instruments (folio s)) (read_plan b) (read_plan (w_payload w)) = Inr q"
      using assms(3) cv x True by (auto simp: patch_widget_def split: sum.splits)
    obtain c where c: "filter (\<lambda>c. sc_source c = Some m) (scenarios (save_message_plan now sc u m q (folio s))) = [c]"
      "sc_payload c = q" using save_message_plan_source [OF assms(1,2)] by blast
    have s': "s' = save_message (x\<lparr>msg_widget := Some (w\<lparr>w_payload := Plan q\<rparr>)\<rparr>)
        (s\<lparr>folio := save_message_plan now sc u m q (folio s)\<rparr>)"
      and v: "v = serialize_message (x\<lparr>msg_widget := Some (w\<lparr>w_payload := Plan q\<rparr>)\<rparr>) s'"
      using assms(3) cv x True q by (auto simp: patch_widget_def Let_def)
    show ?thesis
      by (intro exI [of _ x] exI [of _ w] exI [of _ "Plan q"]) (simp add: x True q c s' v save_message_def)
  next
    case False
    have s': "s' = save_message (x\<lparr>msg_widget := Some (w\<lparr>w_payload := b\<rparr>)\<rparr>) s"
      and v: "v = serialize_message (x\<lparr>msg_widget := Some (w\<lparr>w_payload := b\<rparr>)\<rparr>) s'"
      using assms(3) cv x False by (auto simp: patch_widget_def Let_def)
    show ?thesis
      by (intro exI [of _ x] exI [of _ w] exI [of _ b]) (simp add: x False s' v save_message_def)
  qed
qed

theorem widget_patch_touches_only_it_witness:
  "let x = \<lparr>msg_id = 11, msg_conversation = 1, msg_sender = ''assistant'', msg_content = ''hello'', msg_stage = ''general'',
         msg_widget = Some \<lparr>w_type = Some ''allocation_slider'', w_payload = Json ''1'' (Inl (Str ''no plan''))\<rparr>,
         msg_suggestions = None, msg_thinking = None, msg_created = 5\<rparr>;
       s = sample_chat\<lparr>msgs := [x]\<rparr>
   in \<exists>v s' y w p. patch_widget 9 12 7 1 11 (Inr (Json ''2'' (Inl (Str ''no plan'')))) s = (Inr v, s') \<and>
        own_reply 1 11 s = Some y \<and> msg_widget y = Some w \<and>
        s' = s\<lparr>msgs := save_row msg_id (y\<lparr>msg_widget := Some (w\<lparr>w_payload := p\<rparr>)\<rparr>) (msgs s), folio := folio s'\<rparr>"
proof -
  let ?x = "\<lparr>msg_id = 11, msg_conversation = 1, msg_sender = ''assistant'', msg_content = ''hello'', msg_stage = ''general'',
         msg_widget = Some \<lparr>w_type = Some ''allocation_slider'', w_payload = Json ''1'' (Inl (Str ''no plan''))\<rparr>,
         msg_suggestions = None, msg_thinking = None, msg_created = 5\<rparr>"
  let ?s = "sample_chat\<lparr>msgs := [?x]\<rparr>"
  obtain v s' where p: "patch_widget 9 12 7 1 11 (Inr (Json ''2'' (Inl (Str ''no plan'')))) ?s = (Inr v, s')"
    by (simp add: patch_widget_def own_conversation_def own_reply_def sample_chat_def by_pk_Cons Let_def)
  have h: "distinct (map sc_id (scenarios (folio ?s)))"
    "length (filter (\<lambda>c. sc_source c = Some 11) (scenarios (folio ?s))) \<le> 1" by (simp_all add: sample_chat_def)
  from widget_patch_touches_only_it [OF h p] p show ?thesis unfolding Let_def by blast
qed

end
