(* ===== verification/Templates.thy ===== *)
theory Templates
  imports Budgets Dashboard Sessions "HOL-Library.AList"
begin

text \<open>
  The onboarding templates: the objects \<open>onboarding-templates/<key>.json\<close> of
  services/file_storage.py, the administrators' endpoints on them
  (core/views/administration.py, the Admin\<open>Template\<close> serializers of core/serializers/budgets.py)
  and what GET /budget/starter-templates shows of them.
\<close>

subsection \<open>The objects\<close>

text \<open>The objects of the bucket under the prefix, by the \<open><key>\<close> of their name.\<close>

type_synonym template_files = "(string \<times> template) list"

type_synonym 'a template_response = "(exc + 'a) \<times> template_files"

definition template_object_key :: "string \<Rightarrow> string" where
  "template_object_key k = ''onboarding-templates/'' @ k @ ''.json''"

text \<open>The bucket lists its objects in the order of their names.\<close>

definition get_onboarding_templates :: "template_files \<Rightarrow> template list" where
  "get_onboarding_templates fs = map snd (sort_key (template_object_key \<circ> fst) fs)"

definition get_onboarding_template :: "string \<Rightarrow> template_files \<Rightarrow> template option" where
  "get_onboarding_template k fs = map_of fs k"

definition put_onboarding_template :: "template \<Rightarrow> template_files \<Rightarrow> template_files" where
  "put_onboarding_template t fs = AList.update (tp_key t) t fs"

definition delete_onboarding_template :: "string \<Rightarrow> template_files \<Rightarrow> template_files" where
  "delete_onboarding_template k fs = AList.delete k fs"

subsection \<open>The endpoints\<close>

record template_data =
  td_key :: string
  td_name :: string
  td_description :: "string option"
  td_allocations :: "alloc_input list"

record template_patch =
  tq_name :: "string option"
  tq_description :: "string option"
  tq_allocations :: "alloc_input list option"

definition template_allocations :: "db \<Rightarrow> alloc_input list \<Rightarrow> (string \<times> rat) list" where
  "template_allocations d xs = map (\<lambda>a. (category_name d (in_category a), flt (in_percentage a))) xs"

definition super_admin :: "admin_user \<Rightarrow> exc + unit" where
  "super_admin a = guard_res (is_super_admin a)
     (PermissionDenied ''You do not have permission to perform this action.'')"

definition list_templates :: "template_files \<Rightarrow> template list" where
  "list_templates fs = sort_key tp_key (get_onboarding_templates fs)"

definition template_exists :: "string \<Rightarrow> exc" where
  "template_exists k = ConflictError (''A template with key '' @ [char_of (39 :: nat)] @ k @ [char_of (39 :: nat)] @
     '' already exists. Use PATCH /admin/onboarding-templates/'' @ k @ ''/ to update it.'')"

definition template_missing :: "string \<Rightarrow> exc" where
  "template_missing k = NotFound (''No template with key '' @ [char_of (39 :: nat)] @ k @ [char_of (39 :: nat)] @ ''.'')"

definition post_template ::
  "db \<Rightarrow> admin_user \<Rightarrow> detail + template_data \<Rightarrow> template_files \<Rightarrow> template template_response" where
  "post_template d a validated fs =
     (case res_bind (super_admin a) (\<lambda>_.
             res_bind (case validated of Inl es \<Rightarrow> Inl (ValidationError es) | Inr x \<Rightarrow> Inr x) (\<lambda>x.
             res_bind (validate_allocations_sum_100 (td_allocations x)) (\<lambda>_. Inr x))) of
        Inl e \<Rightarrow> (Inl e, fs)
      | Inr x \<Rightarrow>
          if get_onboarding_template (td_key x) fs \<noteq> None then (Inl (template_exists (td_key x)), fs)
          else let t = \<lparr>tp_key = td_key x, tp_name = td_name x, tp_description = case_option [] id (td_description x),
                         tp_allocations = template_allocations d (td_allocations x)\<rparr>
               in (Inr t, put_onboarding_template t fs))"

definition apply_template_patch :: "db \<Rightarrow> template_patch \<Rightarrow> template \<Rightarrow> template" where
  "apply_template_patch d p t = t\<lparr>tp_name := case_option (tp_name t) id (tq_name p),
     tp_description := case_option (tp_description t) id (tq_description p),
     tp_allocations := case_option (tp_allocations t) (template_allocations d) (tq_allocations p)\<rparr>"

definition patch_template ::
  "db \<Rightarrow> admin_user \<Rightarrow> string \<Rightarrow> detail + template_patch \<Rightarrow> template_files \<Rightarrow> template template_response" where
  "patch_template d a k validated fs =
     (case super_admin a of
        Inl e \<Rightarrow> (Inl e, fs)
      | Inr _ \<Rightarrow>
         (case get_onboarding_template k fs of
            None \<Rightarrow> (Inl (template_missing k), fs)
          | Some t \<Rightarrow>
             (case res_bind (case validated of Inl es \<Rightarrow> Inl (ValidationError es) | Inr p \<Rightarrow> Inr p)
                     (\<lambda>p. case tq_allocations p of
                        None \<Rightarrow> Inr p
                      | Some xs \<Rightarrow> res_bind (validate_allocations_sum_100 xs) (\<lambda>_. Inr p)) of
                Inl e \<Rightarrow> (Inl e, fs)
              | Inr p \<Rightarrow>
                  let t' = apply_template_patch d p t
                  in (Inr t', put_onboarding_template t' fs))))"

definition delete_template :: "admin_user \<Rightarrow> string \<Rightarrow> template_files \<Rightarrow> unit template_response" where
  "delete_template a k fs =
     (case super_admin a of
        Inl e \<Rightarrow> (Inl e, fs)
      | Inr _ \<Rightarrow>
          if get_onboarding_template k fs = None then (Inl (template_missing k), fs)
          else (Inr (), delete_onboarding_template k fs))"

text \<open>GET /budget/starter-templates.\<close>

definition get_starter_templates :: "user option \<Rightarrow> template_files \<Rightarrow> (template \<times> bool) list" where
  "get_starter_templates me fs = starter_templates me (get_onboarding_templates fs)"


subsection \<open>The seed\<close>

text \<open>core/management/commands/seed_onboarding_templates.py.\<close>

definition ONBOARDING_TEMPLATES :: "template list" where
  "ONBOARDING_TEMPLATES =
     [\<lparr>tp_key = ''balanced'', tp_name = ''Balanced'',
       tp_description = ''An even split across essentials, savings, and lifestyle spending.'',
       tp_allocations = [(''housing'', 30), (''food'', 15), (''transport'', 10), (''savings'', 20),
         (''lifestyle'', 15), (''other'', 10)]\<rparr>,
      \<lparr>tp_key = ''aggressive_savings'', tp_name = ''Aggressive Savings'',
       tp_description = ''Minimizes discretionary spending to maximize savings rate.'',
       tp_allocations = [(''housing'', 30), (''food'', 12), (''transport'', 8), (''savings'', 35),
         (''lifestyle'', 5), (''other'', 10)]\<rparr>,
      \<lparr>tp_key = ''comfortable'', tp_name = ''Comfortable'',
       tp_description = ''More room for lifestyle spending, with a lighter savings target.'',
       tp_allocations = [(''housing'', 30), (''food'', 15), (''transport'', 10), (''savings'', 10),
         (''lifestyle'', 25), (''other'', 10)]\<rparr>]"

definition seed_template :: "template \<Rightarrow> template_files \<Rightarrow> template_files" where
  "seed_template t fs = (if get_onboarding_template (tp_key t) fs \<noteq> None then fs else put_onboarding_template t fs)"

definition seed_onboarding_templates :: "template_files \<Rightarrow> template_files" where
  "seed_onboarding_templates fs = fold seed_template ONBOARDING_TEMPLATES fs"

end
