(* ===== verification/Catalogue.thy ===== *)
theory Catalogue
  imports Conversations Templates
begin

text \<open>
  The administration of the catalogue: the products, their problem statements and the
  investment instruments of core/views/administration.py, with
  core/serializers/administration.py and the models of core/models/recommendation/ and
  core/models/feedback/. DRF's reading of the declared fields is an argument, and so is what
  the embedding service answers.
\<close>

subsection \<open>Rows\<close>

record product =
  pr_id :: uuid
  pr_title :: string
  pr_description :: "string option"
  pr_categories :: "string list"
  pr_tags :: "string list"
  pr_features :: "string option"
  pr_link :: "string option"
  pr_active :: bool
  pr_created :: int

record problem =
  pb_product :: uuid
  pb_text :: string
  pb_embedding :: "rat list"

text \<open>An investment instrument as the administrators edit it.\<close>

record listing =
  ls_id :: uuid
  ls_product :: uuid
  ls_code :: string
  ls_class :: string
  ls_symbol :: string
  ls_price_type :: string
  ls_currency :: string
  ls_unit :: string
  ls_increment :: rat
  ls_fractional :: bool
  ls_max_age :: int
  ls_active :: bool
  ls_created :: int

record reaction =
  re_id :: uuid
  re_user :: uuid
  re_type :: string
  re_target :: uuid
  re_rating :: "int option"
  re_comment :: "string option"
  re_created :: int

record issue =
  is_id :: uuid
  is_user :: uuid
  is_description :: string
  is_status :: string
  is_created :: int
  is_resolved :: "int option"

record recommendation_log =
  lo_id :: uuid
  lo_user :: uuid
  lo_product :: uuid
  lo_query :: "string option"
  lo_similarity :: rat
  lo_shown :: int

text \<open>The tables of the catalogue, of what was recommended and of what users say about it.\<close>

record store =
  products :: "product list"
  problems :: "problem list"
  listings :: "listing list"
  logs :: "recommendation_log list"
  reactions :: "reaction list"
  issues :: "issue list"
  positions :: "holding list"
  plans :: "scenario list"
  buys :: "purchase list"

type_synonym 'a store_response = "(exc + 'a) \<times> store"

text \<open>What the plans and holdings see of the catalogue.\<close>

definition as_instrument :: "product list \<Rightarrow> listing \<Rightarrow> instrument" where
  "as_instrument ps l = \<lparr>ins_id = ls_id l, ins_code = ls_code l, ins_class = ls_class l,
     ins_price_type = ls_price_type l, ins_currency = ls_currency l, ins_unit = ls_unit l,
     ins_increment = ls_increment l, ins_max_age = ls_max_age l, ins_active = ls_active l,
     ins_product_active = (case by_pk pr_id ps (ls_product l) of None \<Rightarrow> False | Some p \<Rightarrow> pr_active p)\<rparr>"

definition market :: "store \<Rightarrow> portfolio" where
  "market s = \<lparr>instruments = map (as_instrument (products s)) (listings s), holdings = positions s,
     scenarios = plans s, purchases = buys s\<rparr>"

subsection \<open>Products\<close>

record product_data =
  pd_title :: "string option"
  pd_description :: "string option option"
  pd_categories :: "string list option"
  pd_tags :: "string list option"
  pd_features :: "string option option"
  pd_link :: "string option option"
  pd_active :: "bool option"
  pd_problems :: "string list option"

definition new_product :: "int \<Rightarrow> uuid \<Rightarrow> product_data \<Rightarrow> product" where
  "new_product now k x = \<lparr>pr_id = k, pr_title = str_or (pd_title x) [],
     pr_description = case_option None id (pd_description x),
     pr_categories = case_option [] id (pd_categories x), pr_tags = case_option [] id (pd_tags x),
     pr_features = case_option None id (pd_features x), pr_link = case_option None id (pd_link x),
     pr_active = case_option True id (pd_active x), pr_created = now\<rparr>"

definition apply_product_patch :: "product_data \<Rightarrow> product \<Rightarrow> product" where
  "apply_product_patch x p = p\<lparr>pr_title := case_option (pr_title p) id (pd_title x),
     pr_description := case_option (pr_description p) id (pd_description x),
     pr_categories := case_option (pr_categories p) id (pd_categories x),
     pr_tags := case_option (pr_tags p) id (pd_tags x), pr_features := case_option (pr_features p) id (pd_features x),
     pr_link := case_option (pr_link p) id (pd_link x), pr_active := case_option (pr_active p) id (pd_active x)\<rparr>"

text \<open>\<open>by_index[i]\<close> for each statement; a later datum of the same index wins.\<close>

definition embeddings_by_index :: "nat \<Rightarrow> (nat \<times> rat list) list \<Rightarrow> rat list list option" where
  "embeddings_by_index n data =
     (let get = (\<lambda>i. map_option snd (List.find (\<lambda>x. fst x = i) (rev data)))
      in if \<forall>i \<in> set [0..<n]. get i \<noteq> None then Some (map (the \<circ> get) [0..<n]) else None)"

text \<open>POST /admin/products. The product is written before its statements are embedded.\<close>

definition post_product ::
  "(string list \<Rightarrow> string + (nat \<times> rat list) list) \<Rightarrow> int \<Rightarrow> uuid \<Rightarrow> admin_user \<Rightarrow> detail + product_data \<Rightarrow> store \<Rightarrow>
   product store_response" where
  "post_product embedder now k a validated s =
     (case super_admin a of
        Inl e \<Rightarrow> (Inl e, s)
      | Inr _ \<Rightarrow>
         (case validated of
            Inl es \<Rightarrow> (Inl (ValidationError es), s)
          | Inr x \<Rightarrow>
              let p = new_product now k x;
                  texts = case_option [] id (pd_problems x);
                  s1 = s\<lparr>products := products s @ [p]\<rparr>
              in if texts = [] then (Inr p, s1)
                 else
                  (case embedder texts of
                     Inl m \<Rightarrow> (Inl (Unhandled ''AIServiceError''), s1)
                   | Inr data \<Rightarrow>
                      (case embeddings_by_index (length texts) data of
                         None \<Rightarrow> (Inl (Unhandled ''KeyError''), s1)
                       | Some vs \<Rightarrow> (Inr p, s1\<lparr>problems := problems s1 @
                           map (\<lambda>(t, v). \<lparr>pb_product = k, pb_text = t, pb_embedding = v\<rparr>) (zip texts vs)\<rparr>)))))"

definition no_product :: exc where
  "no_product = Http404 ''No Product matches the given query.''"

definition patch_product :: "admin_user \<Rightarrow> uuid \<Rightarrow> detail + product_data \<Rightarrow> store \<Rightarrow> product store_response" where
  "patch_product a k validated s =
     (case super_admin a of
        Inl e \<Rightarrow> (Inl e, s)
      | Inr _ \<Rightarrow>
         (case by_pk pr_id (products s) k of
            None \<Rightarrow> (Inl no_product, s)
          | Some p \<Rightarrow>
             (case validated of
                Inl es \<Rightarrow> (Inl (ValidationError es), s)
              | Inr x \<Rightarrow>
                  let p' = apply_product_patch x p
                  in (Inr p', s\<lparr>products := save_row pr_id p' (products s)\<rparr>))))"

text \<open>\<open>on_delete=PROTECT\<close>: a holding or a purchase keeps its instrument.\<close>

definition protected :: "uuid \<Rightarrow> store \<Rightarrow> bool" where
  "protected i s \<longleftrightarrow> (\<exists>h \<in> set (positions s). ho_instrument h = i) \<or> (\<exists>p \<in> set (buys s). pu_instrument p = i)"

definition delete_product :: "admin_user \<Rightarrow> uuid \<Rightarrow> store \<Rightarrow> unit store_response" where
  "delete_product a k s =
     (case super_admin a of
        Inl e \<Rightarrow> (Inl e, s)
      | Inr _ \<Rightarrow>
         (case by_pk pr_id (products s) k of
            None \<Rightarrow> (Inl no_product, s)
          | Some p \<Rightarrow>
              if \<exists>l \<in> set (listings s). ls_product l = k \<and> protected (ls_id l) s
              then (Inl (Unhandled ''ProtectedError''), s)
              else (Inr (), s\<lparr>products := filter (\<lambda>p. pr_id p \<noteq> k) (products s),
                      problems := filter (\<lambda>b. pb_product b \<noteq> k) (problems s),
                      listings := filter (\<lambda>l. ls_product l \<noteq> k) (listings s),
                      logs := filter (\<lambda>g. lo_product g \<noteq> k) (logs s)\<rparr>)))"

definition list_products :: "bool option \<Rightarrow> string option \<Rightarrow> store \<Rightarrow> product list" where
  "list_products active cat s = sort_key pr_created (filter (\<lambda>p.
     (case active of None \<Rightarrow> True | Some b \<Rightarrow> pr_active p = b) \<and>
     (case cat of None \<Rightarrow> True | Some c \<Rightarrow> c \<in> set (pr_categories p))) (products s))"


subsection \<open>Investment instruments\<close>

text \<open>The declared fields of AdminInvestmentInstrumentSerializer; \<open>None\<close> is a field not sent.\<close>

record listing_data =
  ld_product :: "uuid option"
  ld_code :: "string option"
  ld_class :: "string option"
  ld_symbol :: "string option"
  ld_price_type :: "string option"
  ld_currency :: "string option"
  ld_unit :: "string option"
  ld_increment :: "rat option"
  ld_fractional :: "bool option"
  ld_max_age :: "int option"
  ld_active :: "bool option"

text \<open>\<open>value(name)\<close>: the field sent, else the instance's, else None.\<close>

definition value_of :: "'a option \<Rightarrow> (listing \<Rightarrow> 'a) \<Rightarrow> listing option \<Rightarrow> 'a option" where
  "value_of sent f inst = (case sent of Some v \<Rightarrow> Some v | None \<Rightarrow> map_option f inst)"

definition expected_price_types :: "(string \<times> string list \<times> string) list" where
  "expected_price_types =
     [(''gold'', [''spot''], ''spot''),
      (''fund'', [''nav'', ''market_price''], ''nav or market_price''),
      (''currency'', [''customer_buy_rate''], ''customer_buy_rate'')]"

definition check_price_type :: "string option \<Rightarrow> string option \<Rightarrow> exc + unit" where
  "check_price_type cls pt =
     (case Option.bind cls (map_of expected_price_types) of
        None \<Rightarrow> Inr ()
      | Some (expected, allowed) \<Rightarrow>
          guard_res (pt \<in> Some ` set expected)
            (field_error ''price_type'' (the cls @ '' instruments must use '' @ allowed @ ''.'')))"

definition check_currency :: "string option \<Rightarrow> listing_data \<Rightarrow> exc + listing_data" where
  "check_currency cur x =
     (if str_or cur [] = [] then Inr x
      else if str_upper (the cur) \<noteq> ''EGP''
      then Inl (field_error ''price_currency'' ''The first release supports EGP pricing only.'')
      else Inr (x\<lparr>ld_currency := Some (str_upper (the cur))\<rparr>))"

definition is_whole :: "rat \<Rightarrow> bool" where
  "is_whole x \<longleftrightarrow> x = of_int (rhe x)"

definition check_minimum :: "rat option \<Rightarrow> bool option \<Rightarrow> exc + unit" where
  "check_minimum inc fractional =
     (case inc of
        None \<Rightarrow> Inr ()
      | Some q \<Rightarrow>
          if q \<le> 0 then Inl (field_error ''minimum_increment'' ''Must be greater than zero.'')
          else guard_res (fractional = Some True \<or> is_whole q)
            (field_error ''minimum_increment'' ''Must be a whole quantity when fractional units are disabled.''))"

definition is_upper_letter :: "char \<Rightarrow> bool" where
  "is_upper_letter c = (let n = of_char c :: nat in 65 \<le> n \<and> n \<le> 90)"

definition gold_unit :: "string \<Rightarrow> bool" where
  "gold_unit u \<longleftrightarrow> str_lower u \<in> {''gram_24k'', ''gram_21k'', ''gram_18k''}"

definition iso_unit :: "string \<Rightarrow> bool" where
  "iso_unit u \<longleftrightarrow> length u = 3 \<and> list_all is_upper_letter u"

definition check_unit :: "string option \<Rightarrow> string option \<Rightarrow> listing_data \<Rightarrow> exc + listing_data" where
  "check_unit cls unit x =
     (if str_or unit [] = [] then Inr x
      else let u = str_strip (the unit) in
        if cls = Some ''gold'' \<and> \<not> gold_unit u
        then Inl (field_error ''unit'' ''Gold units must identify grams and purity, such as gram_24k.'')
        else if cls = Some ''fund'' \<and> u \<noteq> ''fund_unit''
        then Inl (field_error ''unit'' ''Fund instruments must use fund_unit.'')
        else if cls = Some ''currency''
        then (if iso_unit (str_upper u) then Inr (x\<lparr>ld_unit := Some (str_upper u)\<rparr>)
              else Inl (field_error ''unit'' ''Currency units must be a three-letter ISO code.''))
        else Inr x)"

definition check_max_age :: "int option \<Rightarrow> exc + unit" where
  "check_max_age age =
     (case age of None \<Rightarrow> Inr ()
      | Some n \<Rightarrow> guard_res (0 < n) (field_error ''max_quote_age_seconds'' ''Must be greater than zero.''))"

definition validate_listing :: "listing option \<Rightarrow> listing_data \<Rightarrow> exc + listing_data" where
  "validate_listing inst x =
     (let cls = value_of (ld_class x) ls_class inst in
      res_bind (check_price_type cls (value_of (ld_price_type x) ls_price_type inst)) (\<lambda>_.
      res_bind (check_currency (value_of (ld_currency x) ls_currency inst) x) (\<lambda>x1.
      res_bind (check_minimum (value_of (ld_increment x) ls_increment inst)
                  (value_of (ld_fractional x) ls_fractional inst)) (\<lambda>_.
      res_bind (check_unit cls (value_of (ld_unit x) ls_unit inst) x1) (\<lambda>x2.
      res_bind (check_max_age (value_of (ld_max_age x) ls_max_age inst)) (\<lambda>_.
        Inr x2))))))"

text \<open>\<open>ModelSerializer.create\<close> with the model's defaults, and \<open>update\<close>.\<close>

definition new_listing :: "int \<Rightarrow> uuid \<Rightarrow> listing_data \<Rightarrow> listing" where
  "new_listing now k x = \<lparr>ls_id = k, ls_product = case_option 0 id (ld_product x),
     ls_code = case_option [] id (ld_code x), ls_class = case_option [] id (ld_class x),
     ls_symbol = case_option [] id (ld_symbol x), ls_price_type = case_option [] id (ld_price_type x),
     ls_currency = case_option ''EGP'' id (ld_currency x), ls_unit = case_option [] id (ld_unit x),
     ls_increment = case_option 1 id (ld_increment x), ls_fractional = case_option False id (ld_fractional x),
     ls_max_age = case_option 3600 id (ld_max_age x), ls_active = case_option True id (ld_active x),
     ls_created = now\<rparr>"

definition apply_listing_patch :: "listing_data \<Rightarrow> listing \<Rightarrow> listing" where
  "apply_listing_patch x l = l\<lparr>ls_product := case_option (ls_product l) id (ld_product x),
     ls_code := case_option (ls_code l) id (ld_code x), ls_class := case_option (ls_class l) id (ld_class x),
     ls_symbol := case_option (ls_symbol l) id (ld_symbol x),
     ls_price_type := case_option (ls_price_type l) id (ld_price_type x),
     ls_currency := case_option (ls_currency l) id (ld_currency x), ls_unit := case_option (ls_unit l) id (ld_unit x),
     ls_increment := case_option (ls_increment l) id (ld_increment x),
     ls_fractional := case_option (ls_fractional l) id (ld_fractional x),
     ls_max_age := case_option (ls_max_age l) id (ld_max_age x), ls_active := case_option (ls_active l) id (ld_active x)\<rparr>"


text \<open>The checks of the fields that read the tables: an existing product, an unused code. The
  product is declared on the serializer, so Django REST framework adds no check that it is unused.\<close>

definition listing_field_errors :: "uuid option \<Rightarrow> listing_data \<Rightarrow> store \<Rightarrow> (string \<times> detail) list" where
  "listing_field_errors self x s =
     (case ld_product x of
        Some p \<Rightarrow> if by_pk pr_id (products s) p = None
          then [(''product_id'', Seq [Str (''Invalid pk \"'' @ uuid_str p @ ''\" - object does not exist.'')])] else []
      | None \<Rightarrow> []) @
     (case ld_code x of
        Some c \<Rightarrow> if \<exists>l \<in> set (listings s). ls_code l = c \<and> Some (ls_id l) \<noteq> self
          then [(''code'', Seq [Str ''investment instrument with this code already exists.''])] else []
      | None \<Rightarrow> [])"

definition read_listing :: "listing option \<Rightarrow> detail + listing_data \<Rightarrow> store \<Rightarrow> exc + listing_data" where
  "read_listing inst validated s =
     (case validated of
        Inl es \<Rightarrow> Inl (ValidationError es)
      | Inr x \<Rightarrow>
          (let es = listing_field_errors (map_option ls_id inst) x s
           in if es \<noteq> [] then Inl (ValidationError (Dict es)) else validate_listing inst x))"

text \<open>The one-to-one column: another instrument of the product is an \<open>IntegrityError\<close>.\<close>

definition product_taken :: "uuid \<Rightarrow> uuid \<Rightarrow> store \<Rightarrow> bool" where
  "product_taken k p s \<longleftrightarrow> (\<exists>l \<in> set (listings s). ls_product l = p \<and> ls_id l \<noteq> k)"

definition post_listing :: "int \<Rightarrow> uuid \<Rightarrow> admin_user \<Rightarrow> detail + listing_data \<Rightarrow> store \<Rightarrow> listing store_response" where
  "post_listing now k a validated s =
     (case res_bind (super_admin a) (\<lambda>_. read_listing None validated s) of
        Inl e \<Rightarrow> (Inl e, s)
      | Inr x \<Rightarrow>
          let l = new_listing now k x
          in if product_taken k (ls_product l) s then (Inl (Unhandled ''IntegrityError''), s)
             else (Inr l, s\<lparr>listings := listings s @ [l]\<rparr>))"

definition no_listing :: exc where
  "no_listing = Http404 ''No InvestmentInstrument matches the given query.''"

definition get_listing :: "uuid \<Rightarrow> store \<Rightarrow> exc + listing" where
  "get_listing k s = (case by_pk ls_id (listings s) k of None \<Rightarrow> Inl no_listing | Some l \<Rightarrow> Inr l)"

definition patch_listing :: "admin_user \<Rightarrow> uuid \<Rightarrow> detail + listing_data \<Rightarrow> store \<Rightarrow> listing store_response" where
  "patch_listing a k validated s =
     (case res_bind (super_admin a) (\<lambda>_. get_listing k s) of
        Inl e \<Rightarrow> (Inl e, s)
      | Inr l \<Rightarrow>
         (case read_listing (Some l) validated s of
            Inl e \<Rightarrow> (Inl e, s)
          | Inr x \<Rightarrow>
              let l' = apply_listing_patch x l
              in if product_taken k (ls_product l') s then (Inl (Unhandled ''IntegrityError''), s)
                 else (Inr l', s\<lparr>listings := save_row ls_id l' (listings s)\<rparr>)))"

definition delete_listing :: "admin_user \<Rightarrow> uuid \<Rightarrow> store \<Rightarrow> unit store_response" where
  "delete_listing a k s =
     (case res_bind (super_admin a) (\<lambda>_. get_listing k s) of
        Inl e \<Rightarrow> (Inl e, s)
      | Inr l \<Rightarrow>
          if protected k s then (Inl (Unhandled ''ProtectedError''), s)
          else (Inr (), s\<lparr>listings := filter (\<lambda>l. ls_id l \<noteq> k) (listings s)\<rparr>))"

definition list_listings :: "string option \<Rightarrow> bool option \<Rightarrow> uuid option \<Rightarrow> store \<Rightarrow> listing list" where
  "list_listings cls active p s = sort_key ls_created (filter (\<lambda>l.
     (cls = None \<or> cls = Some (ls_class l)) \<and> (active = None \<or> active = Some (ls_active l)) \<and>
     (p = None \<or> p = Some (ls_product l))) (listings s))"

end
