(* ===== verification/Feedback.thy ===== *)
theory Feedback
  imports Catalogue
begin

text \<open>
  What users are recommended and what they say back: the recommendations and the reactions
  to them (core/views/recommendation.py, core/serializers/recommendation.py), feedback and
  reported issues (core/views/feedback.py, core/serializers/feedback.py) and their
  triage by the administrators (core/views/administration.py, core/filters/administration.py).
  The matching is the AI service's: it is an argument, and so is what \<open>uuid.UUID\<close> makes of
  a product id the service sends.
\<close>

subsection \<open>Reactions\<close>

record reaction_data =
  rd_type :: string
  rd_target :: uuid
  rd_rating :: "int option"
  rd_comment :: "string option"

text \<open>\<open>FeedbackCreateSerializer.validate\<close> and \<open>RecommendationFeedbackSerializer.validate\<close>.\<close>

definition require_rating_or_comment :: "int option \<Rightarrow> string option \<Rightarrow> exc + unit" where
  "require_rating_or_comment rating comment =
     guard_res (rating \<notin> {None, Some 0} \<or> str_or comment [] \<noteq> [])
       (field_error ''non_field_errors'' ''At least one of rating or comment is required.'')"

definition ownership_checks :: "db \<Rightarrow> chat \<Rightarrow> (string \<times> (uuid \<Rightarrow> uuid \<Rightarrow> bool)) list" where
  "ownership_checks d c =
     [(''transaction'', \<lambda>k u. \<exists>t \<in> set (txns d). txn_id t = k \<and> txn_user t = u),
      (''message'', \<lambda>k u. \<exists>m \<in> set (msgs c). msg_id m = k \<and>
         (\<exists>v \<in> set (convs c). cv_id v = msg_conversation m \<and> cv_user v = u)),
      (''budget'', \<lambda>k u. \<exists>b \<in> set (budgets d). b_id b = k \<and> b_user b = u)]"

definition create_reaction :: "reaction \<Rightarrow> store \<Rightarrow> store" where
  "create_reaction r s = s\<lparr>reactions := reactions s @ [r]\<rparr>"

text \<open>POST /feedback.\<close>

definition post_feedback ::
  "int \<Rightarrow> uuid \<Rightarrow> uuid \<Rightarrow> detail + reaction_data \<Rightarrow> db \<Rightarrow> chat \<Rightarrow> store \<Rightarrow> reaction store_response" where
  "post_feedback now k u validated d c s =
     (case res_bind (case validated of Inl es \<Rightarrow> Inl (ValidationError es) | Inr x \<Rightarrow> Inr x)
             (\<lambda>x. res_bind (require_rating_or_comment (rd_rating x) (rd_comment x)) (\<lambda>_. Inr x)) of
        Inl e \<Rightarrow> (Inl e, s)
      | Inr x \<Rightarrow>
         (case map_of (ownership_checks d c) (rd_type x) of
            None \<Rightarrow> (Inl (Unhandled ''KeyError''), s)
          | Some owns \<Rightarrow>
              if \<not> owns (rd_target x) u then (Inl (NotFound ''Target not found.''), s)
              else let r = \<lparr>re_id = k, re_user = u, re_type = rd_type x, re_target = rd_target x,
                     re_rating = rd_rating x, re_comment = rd_comment x, re_created = now\<rparr>
                   in (Inr r, create_reaction r s)))"

subsection \<open>Recommendations\<close>

record match =
  ma_product :: string
  ma_similarity :: rat

text \<open>One item of the answer. Its id is the log's, the one a reaction names.\<close>

record recommendation =
  rc_id :: uuid
  rc_title :: string
  rc_description :: "string option"
  rc_categories :: "string list"
  rc_tags :: "string list"
  rc_features :: "string option"
  rc_link :: "string option"
  rc_similarity :: rat

definition shown_item :: "uuid \<Rightarrow> product \<Rightarrow> rat \<Rightarrow> recommendation" where
  "shown_item k p x = \<lparr>rc_id = k, rc_title = pr_title p, rc_description = pr_description p,
     rc_categories = pr_categories p, rc_tags = pr_tags p, rc_features = pr_features p,
     rc_link = pr_link p, rc_similarity = x\<rparr>"

text \<open>The active products among the matches; an id that is no UUID fails the query.\<close>

definition matched_products :: "(string \<Rightarrow> uuid option) \<Rightarrow> match list \<Rightarrow> product list \<Rightarrow> exc + product list" where
  "matched_products to_uuid ms ps =
     (if \<exists>m \<in> set ms. to_uuid (ma_product m) = None then Inl (Unhandled ''ValidationError'')
      else Inr (filter (\<lambda>p. Some (pr_id p) \<in> (to_uuid \<circ> ma_product) ` set ms \<and> pr_active p) ps))"

text \<open>
  The loop over the matches in the service's order. The column \<open>NUMERIC(5, 4)\<close> rounds the
  similarity and refuses ten and more; the logs written before stay.
\<close>

fun show_matches ::
  "int \<Rightarrow> (nat \<Rightarrow> uuid) \<Rightarrow> uuid \<Rightarrow> string option \<Rightarrow> product list \<Rightarrow> match list \<Rightarrow> store \<Rightarrow>
   recommendation list store_response" where
  "show_matches now ids u q ps [] s = (Inr [], s)"
| "show_matches now ids u q ps (m # ms) s =
     (case List.find (\<lambda>p. uuid_str (pr_id p) = ma_product m) ps of
        None \<Rightarrow> show_matches now ids u q ps ms s
      | Some p \<Rightarrow>
          if 10 \<le> \<bar>quantize_hu 4 (ma_similarity m)\<bar> then (Inl (Unhandled ''DataError''), s)
          else let g = \<lparr>lo_id = ids 0, lo_user = u, lo_product = pr_id p, lo_query = q,
                 lo_similarity = quantize_hu 4 (ma_similarity m), lo_shown = now\<rparr>
               in (case show_matches now (ids \<circ> Suc) u q ps ms (s\<lparr>logs := logs s @ [g]\<rparr>) of
                     (Inl e, s') \<Rightarrow> (Inl e, s')
                   | (Inr rs, s') \<Rightarrow> (Inr (shown_item (ids 0) p (ma_similarity m) # rs), s')))"

text \<open>GET /recommendations.\<close>

definition get_recommendations ::
  "(string \<Rightarrow> string \<Rightarrow> string + match list) \<Rightarrow> (string \<Rightarrow> uuid option) \<Rightarrow> int \<Rightarrow> (nat \<Rightarrow> uuid) \<Rightarrow> uuid \<Rightarrow>
   string option \<Rightarrow> store \<Rightarrow> recommendation list store_response" where
  "get_recommendations match_recommendations to_uuid now ids u q s =
     (let query = str_strip (case_option [] id q)
      in case match_recommendations (uuid_str u) query of
           Inl m \<Rightarrow> (Inl (AIServiceUnavailable m), s)
         | Inr ms \<Rightarrow>
            (case matched_products to_uuid ms (products s) of
               Inl e \<Rightarrow> (Inl e, s)
             | Inr ps \<Rightarrow> show_matches now ids u (if query = [] then None else Some query) ps ms s))"

definition own_log :: "uuid \<Rightarrow> uuid \<Rightarrow> store \<Rightarrow> recommendation_log option" where
  "own_log u k s = by_pk lo_id (filter (\<lambda>g. lo_user g = u) (logs s)) k"

text \<open>POST /recommendations/{id}/feedback.\<close>

definition react_to_recommendation ::
  "int \<Rightarrow> uuid \<Rightarrow> uuid \<Rightarrow> uuid \<Rightarrow> detail + int option \<times> string option \<Rightarrow> store \<Rightarrow> reaction store_response" where
  "react_to_recommendation now k u i validated s =
     (case own_log u i s of
        None \<Rightarrow> (Inl (Http404 ''No RecommendationLog matches the given query.''), s)
      | Some g \<Rightarrow>
         (case validated of
            Inl es \<Rightarrow> (Inl (ValidationError es), s)
          | Inr (rating, comment) \<Rightarrow>
             (case require_rating_or_comment rating comment of
                Inl e \<Rightarrow> (Inl e, s)
              | Inr _ \<Rightarrow>
                  let r = \<lparr>re_id = k, re_user = u, re_type = ''recommendation'', re_target = lo_id g,
                    re_rating = rating, re_comment = comment, re_created = now\<rparr>
                  in (Inr r, create_reaction r s))))"

subsection \<open>Reported issues\<close>

definition post_issue :: "int \<Rightarrow> uuid \<Rightarrow> uuid \<Rightarrow> detail + string \<Rightarrow> store \<Rightarrow> issue store_response" where
  "post_issue now k u validated s =
     (case validated of
        Inl es \<Rightarrow> (Inl (ValidationError es), s)
      | Inr text \<Rightarrow>
          let i = \<lparr>is_id = k, is_user = u, is_description = text, is_status = ''open'',
                is_created = now, is_resolved = None\<rparr>
          in (Inr i, s\<lparr>issues := issues s @ [i]\<rparr>))"

definition list_issues :: "uuid \<Rightarrow> string option \<Rightarrow> store \<Rightarrow> issue list" where
  "list_issues u st s = rev (sort_key is_created (filter (\<lambda>i. is_user i = u \<and>
     (case st of None \<Rightarrow> True | Some v \<Rightarrow> is_status i = v)) (issues s)))"

subsection \<open>The administrators' side\<close>

definition list_all_issues :: "string option \<Rightarrow> store \<Rightarrow> issue list" where
  "list_all_issues st s = rev (sort_key is_created (filter (\<lambda>i.
     case st of None \<Rightarrow> True | Some v \<Rightarrow> is_status i = v) (issues s)))"

text \<open>The day of a UTC timestamp, as \<open>created_at__date\<close> compares it.\<close>

definition utc_day :: "int \<Rightarrow> int" where
  "utc_day t = t div 86400"

record reaction_query =
  rq_type :: "string option"
  rq_rating :: "int option"
  rq_from :: "int option"
  rq_to :: "int option"

definition reaction_matches :: "reaction_query \<Rightarrow> reaction \<Rightarrow> bool" where
  "reaction_matches q r \<longleftrightarrow> wants (rq_type q) (\<lambda>t. re_type r = t) \<and>
     wants (rq_rating q) (\<lambda>n. re_rating r = Some n) \<and>
     wants (rq_from q) (\<lambda>d. d \<le> utc_day (re_created r)) \<and> wants (rq_to q) (\<lambda>d. utc_day (re_created r) \<le> d)"

definition list_reactions :: "reaction_query \<Rightarrow> store \<Rightarrow> reaction list" where
  "list_reactions q s = rev (sort_key re_created (filter (reaction_matches q) (reactions s)))"

text \<open>PATCH /admin/issues/{id}; every administrator may.\<close>

definition patch_issue :: "int \<Rightarrow> uuid \<Rightarrow> detail + string \<Rightarrow> store \<Rightarrow> issue store_response" where
  "patch_issue now k validated s =
     (case by_pk is_id (issues s) k of
        None \<Rightarrow> (Inl (Http404 ''No ReportedIssue matches the given query.''), s)
      | Some i \<Rightarrow>
         (case validated of
            Inl es \<Rightarrow> (Inl (ValidationError es), s)
          | Inr st \<Rightarrow>
              let i' = i\<lparr>is_status := st,
                    is_resolved := if st \<in> {''resolved'', ''dismissed''} then Some now else None\<rparr>
              in (Inr i', s\<lparr>issues := save_row is_id i' (issues s)\<rparr>)))"

end
