(* ===== verification/Data_Export.thy ===== *)
theory Data_Export
  imports Feedback
begin

text \<open>
  The account data export of core/tasks/data_export.py: what \<open>_gather_user_data\<close> collects of
  one user, and the task that mails it. A timestamp or date is exported as itself (the code
  renders it as ISO text), a \<open>Decimal\<close> as the float it becomes.
\<close>

record exported_account =
  xa_id :: uuid
  xa_name :: string
  xa_email :: string
  xa_phone :: "string option"
  xa_employment :: "string option"
  xa_income :: "rat option"
  xa_steadiness :: "string option"
  xa_dependents :: int

record exported_budget =
  xb_name :: string
  xb_template :: "string option"
  xb_allocations :: "(string \<times> rat \<times> rat) list"

record exported_txn =
  xt_id :: uuid
  xt_date :: date
  xt_merchant :: "string option"
  xt_category :: "string option"
  xt_amount :: rat
  xt_currency :: string
  xt_type :: "string option"
  xt_source :: string

record exported_bank_account =
  xk_id :: uuid
  xk_bank :: string
  xk_type :: "string option"
  xk_number :: string
  xk_currency :: string
  xk_active :: bool
  xk_link :: link_type

record exported_consent =
  xc_type :: string
  xc_version :: string
  xc_granted :: "int option"
  xc_revoked :: "int option"
  xc_created :: int

record exported_data =
  x_account :: exported_account
  x_budget :: "exported_budget option"
  x_goal :: "(string \<times> rat \<times> int \<times> date) option"
  x_bank_accounts :: "exported_bank_account list"
  x_transactions :: "exported_txn list"
  x_consents :: "exported_consent list"
  x_issues :: "(string \<times> string \<times> int \<times> int option) list"
  x_feedback :: "(string \<times> uuid \<times> int option \<times> string option \<times> int) list"

definition export_account :: "user \<Rightarrow> exported_account" where
  "export_account me = \<lparr>xa_id = user_id me, xa_name = user_name me, xa_email = user_email me,
     xa_phone = user_phone me, xa_employment = employment_status me,
     xa_income = map_option flt (monthly_income me), xa_steadiness = income_steadiness me,
     xa_dependents = dependents_count me\<rparr>"

definition export_budget :: "uuid \<Rightarrow> db \<Rightarrow> exported_budget option" where
  "export_budget u d = map_option (\<lambda>b. \<lparr>xb_name = b_name b, xb_template = b_template_key b,
       xb_allocations = map (\<lambda>a. (category_name d (al_category a), flt (al_percentage a), flt (al_amount a)))
         (allocations_of d (b_id b))\<rparr>)
     (first_pk b_id (filter (\<lambda>b. b_user b = u) (budgets d)))"

definition export_goal :: "uuid \<Rightarrow> db \<Rightarrow> (string \<times> rat \<times> int \<times> date) option" where
  "export_goal u d = map_option (\<lambda>g. (g_name g, flt (g_target g), g_months g, g_created g))
     (first_pk g_id (filter (\<lambda>g. g_user g = u) (goals d)))"

definition export_bank_account :: "bank_account \<Rightarrow> exported_bank_account" where
  "export_bank_account a = \<lparr>xk_id = acc_id a, xk_bank = bank_name a, xk_type = account_type a,
     xk_number = account_number a, xk_currency = acc_currency a, xk_active = is_active a, xk_link = link_type a\<rparr>"

definition export_txn :: "db \<Rightarrow> txn \<Rightarrow> exported_txn" where
  "export_txn d t = \<lparr>xt_id = txn_id t, xt_date = transaction_date t,
     xt_merchant = (if str_or (merchant_normalized t) [] \<noteq> [] then merchant_normalized t else merchant_raw t),
     xt_category = map_option (category_name d) (txn_category t), xt_amount = flt (amount t),
     xt_currency = txn_currency t, xt_type = transaction_type t, xt_source = source t\<rparr>"

definition export_consent :: "consent \<Rightarrow> exported_consent" where
  "export_consent c = \<lparr>xc_type = consent_type c, xc_version = policy_version c,
     xc_granted = granted_at c, xc_revoked = revoked_at c, xc_created = con_created c\<rparr>"

definition gather_user_data :: "user \<Rightarrow> db \<Rightarrow> store \<Rightarrow> exported_data" where
  "gather_user_data me d s =
     (let u = user_id me in
      \<lparr>x_account = export_account me, x_budget = export_budget u d, x_goal = export_goal u d,
       x_bank_accounts = map export_bank_account (filter (\<lambda>a. acc_user a = u) (accounts d)),
       x_transactions = map (export_txn d) (rev (sort_key (ordinal \<circ> transaction_date)
         (filter (\<lambda>t. txn_user t = u) (txns d)))),
       x_consents = map export_consent (sort_key con_created (filter (\<lambda>c. con_user c = u) (consents d))),
       x_issues = map (\<lambda>i. (is_description i, is_status i, is_created i, is_resolved i))
         (sort_key is_created (filter (\<lambda>i. is_user i = u) (issues s))),
       x_feedback = map (\<lambda>r. (re_type r, re_target r, re_rating r, re_comment r, re_created r))
         (sort_key re_created (filter (\<lambda>r. re_user r = u) (reactions s)))\<rparr>)"

text \<open>The task: to whom the attachment goes, and what it holds; no user, nothing to send.\<close>

definition send_account_data_export :: "uuid \<Rightarrow> db \<Rightarrow> store \<Rightarrow> (string \<times> exported_data) option \<times> db" where
  "send_account_data_export u d s =
     (case by_pk user_id (users d) u of
        None \<Rightarrow> (None, d)
      | Some me \<Rightarrow> (Some (user_email me, gather_user_data me d s),
                    emit (Notified u ''Your account data export'') d))"

end
