(* ===== verification/Catalogue_Laws.thy ===== *)
theory Catalogue_Laws
  imports Data_Export Investment_Laws
begin

text \<open>
  What the catalogue promises: whatever the administrators write, every instrument stays well
  formed and the tables that refer to it stay whole, so the plans and holdings always work on a
  catalogue they can rely on.
\<close>

subsection \<open>Well-formed instruments\<close>

definition unit_ok :: "string \<Rightarrow> string \<Rightarrow> bool" where
  "unit_ok cls u \<longleftrightarrow> (cls = ''gold'' \<longrightarrow> gold_unit (str_strip u)) \<and> (cls = ''fund'' \<longrightarrow> str_strip u = ''fund_unit'') \<and>
     (cls = ''currency'' \<longrightarrow> iso_unit u)"

definition well_formed :: "listing \<Rightarrow> bool" where
  "well_formed l \<longleftrightarrow> (\<exists>expected allowed. map_of expected_price_types (ls_class l) = Some (expected, allowed) \<and>
        ls_price_type l \<in> set expected) \<and>
     ls_currency l = ''EGP'' \<and> 0 < ls_increment l \<and> (ls_fractional l \<or> is_whole (ls_increment l)) \<and>
     unit_ok (ls_class l) (ls_unit l) \<and> ls_unit l \<noteq> [] \<and> 0 < ls_max_age l"

text \<open>What Django REST framework's fields let through: no blank text, a listed class, and every
  required field when there is no instance.\<close>

definition fields_ok :: "bool \<Rightarrow> listing_data \<Rightarrow> bool" where
  "fields_ok required x \<longleftrightarrow> ld_unit x \<noteq> Some [] \<and> ld_currency x \<noteq> Some [] \<and>
     (\<forall>c. ld_class x = Some c \<longrightarrow> c \<in> {''gold'', ''fund'', ''currency''}) \<and>
     (required \<longrightarrow> ld_class x \<noteq> None \<and> ld_price_type x \<noteq> None \<and> ld_unit x \<noteq> None \<and>
        ld_product x \<noteq> None \<and> ld_code x \<noteq> None)"

text \<open>The row a validated request leads to.\<close>

definition merged :: "int \<Rightarrow> uuid \<Rightarrow> listing option \<Rightarrow> listing_data \<Rightarrow> listing" where
  "merged now k inst x = (case inst of None \<Rightarrow> new_listing now k x | Some l \<Rightarrow> apply_listing_patch x l)"

lemma check_currencyD:
  "check_currency cur x = Inr y \<Longrightarrow>
     (cur = None \<or> cur = Some [] \<longrightarrow> y = x) \<and>
     (\<forall>c. cur = Some c \<longrightarrow> c \<noteq> [] \<longrightarrow> str_upper c = ''EGP'' \<and> y = x\<lparr>ld_currency := Some ''EGP''\<rparr>)"
  by (auto simp: check_currency_def str_or_def split: if_splits option.splits)

lemma check_unitD:
  assumes "check_unit (Some cls) (Some u) x = Inr y" "u \<noteq> []"
  shows "(cls = ''currency'' \<longrightarrow> y = x\<lparr>ld_unit := Some (str_upper (str_strip u))\<rparr> \<and> iso_unit (str_upper (str_strip u))) \<and>
     (cls \<noteq> ''currency'' \<longrightarrow> y = x \<and> unit_ok cls u)"
  using assms by (auto simp: check_unit_def unit_ok_def str_or_def Let_def split: if_splits)

lemma check_price_typeD:
  assumes "check_price_type (Some cls) pt = Inr u" "cls \<in> {''gold'', ''fund'', ''currency''}"
  shows "\<exists>expected allowed p. map_of expected_price_types cls = Some (expected, allowed) \<and> pt = Some p \<and> p \<in> set expected"
  using assms by (auto simp: check_price_type_def expected_price_types_def split: if_splits)

lemma check_minimumD:
  "check_minimum (Some q) f = Inr u \<Longrightarrow> 0 < q \<and> (f = Some True \<or> is_whole q)"
  by (auto simp: check_minimum_def split: if_splits)

lemma check_max_ageD: "check_max_age (Some n) = Inr u \<Longrightarrow> 0 < n"
  by (auto simp: check_max_age_def)

lemma iso_unit_nonempty: "iso_unit u \<Longrightarrow> u \<noteq> []"
  by (auto simp: iso_unit_def)

lemma validate_listingD:
  assumes "validate_listing inst x = Inr y"
  obtains x1 where
    "check_price_type (value_of (ld_class x) ls_class inst) (value_of (ld_price_type x) ls_price_type inst) = Inr ()"
    "check_currency (value_of (ld_currency x) ls_currency inst) x = Inr x1"
    "check_minimum (value_of (ld_increment x) ls_increment inst) (value_of (ld_fractional x) ls_fractional inst) = Inr ()"
    "check_unit (value_of (ld_class x) ls_class inst) (value_of (ld_unit x) ls_unit inst) x1 = Inr y"
    "check_max_age (value_of (ld_max_age x) ls_max_age inst) = Inr ()"
  using assms by (auto simp: validate_listing_def Let_def res_bind_Inr)


lemma is_whole_1 [simp]: "is_whole 1"
  using rhe_of_int [of 1] by (simp add: is_whole_def)

lemma new_listing_well_formed:
  assumes v: "validate_listing None x = Inr y" and f: "fields_ok True x"
  shows "well_formed (new_listing now k y)"
proof -
  from f obtain cls u pt where x: "ld_class x = Some cls" "ld_unit x = Some u" "ld_price_type x = Some pt"
      "cls \<in> {''gold'', ''fund'', ''currency''}" "u \<noteq> []"
    by (auto simp: fields_ok_def)
  from v obtain x1 where c: "check_price_type (Some cls) (Some pt) = Inr ()"
      "check_currency (ld_currency x) x = Inr x1"
      "check_minimum (ld_increment x) (ld_fractional x) = Inr ()"
      "check_unit (Some cls) (Some u) x1 = Inr y" "check_max_age (ld_max_age x) = Inr ()"
    by (rule validate_listingD) (simp add: value_of_def x option.case_eq_if split: if_splits)
  have x1: "ld_class x1 = ld_class x" "ld_unit x1 = ld_unit x" "ld_price_type x1 = ld_price_type x"
      "ld_increment x1 = ld_increment x" "ld_fractional x1 = ld_fractional x" "ld_max_age x1 = ld_max_age x"
      "case_option ''EGP'' id (ld_currency x1) = ''EGP''"
    using check_currencyD [OF c(2)] f by (cases "ld_currency x"; simp add: fields_ok_def)+
  have y: "ld_class y = Some cls" "ld_price_type y = Some pt" "ld_increment y = ld_increment x"
      "ld_fractional y = ld_fractional x" "ld_max_age y = ld_max_age x" "ld_currency y = ld_currency x1"
      "\<exists>w. ld_unit y = Some w \<and> w \<noteq> [] \<and> unit_ok cls w"
    using check_unitD [OF c(4) x(5)] x x1 iso_unit_nonempty
    by (cases "cls = ''currency''"; simp add: unit_ok_def)+
  show ?thesis
    using check_price_typeD [OF c(1) x(4)] y c(3,5) x1(7)
    by (auto simp: well_formed_def new_listing_def dest: check_minimumD check_max_ageD
        split: option.splits)
qed


lemma patched_listing_well_formed:
  assumes v: "validate_listing (Some l) x = Inr y" and f: "fields_ok False x" and l: "well_formed l"
  shows "well_formed (apply_listing_patch y l)"
proof -
  define cls where "cls = case_option (ls_class l) id (ld_class x)"
  define u where "u = case_option (ls_unit l) id (ld_unit x)"
  define pt where "pt = case_option (ls_price_type l) id (ld_price_type x)"
  define cur where "cur = case_option (ls_currency l) id (ld_currency x)"
  define inc where "inc = case_option (ls_increment l) id (ld_increment x)"
  define fr where "fr = case_option (ls_fractional l) id (ld_fractional x)"
  define age where "age = case_option (ls_max_age l) id (ld_max_age x)"
  have ne: "cls \<in> {''gold'', ''fund'', ''currency''}" "u \<noteq> []" "cur \<noteq> []"
    using f l by (auto simp: cls_def u_def cur_def fields_ok_def well_formed_def expected_price_types_def
        split: option.splits if_splits)
  have val: "\<And>s g. value_of s g (Some l) = Some (case_option (g l) id s)"
    by (simp add: value_of_def split: option.split)
  from v obtain x1 where c: "check_price_type (Some cls) (Some pt) = Inr ()" "check_currency (Some cur) x = Inr x1"
      "check_minimum (Some inc) (Some fr) = Inr ()" "check_unit (Some cls) (Some u) x1 = Inr y"
      "check_max_age (Some age) = Inr ()"
    by (rule validate_listingD) (simp add: val cls_def u_def pt_def cur_def inc_def fr_def age_def)
  have x1: "x1 = x\<lparr>ld_currency := Some ''EGP''\<rparr>" using check_currencyD [OF c(2)] ne(3) by simp
  let ?m = "apply_listing_patch y l"
  have m: "ls_class ?m = cls" "ls_price_type ?m = pt" "ls_increment ?m = inc" "ls_fractional ?m = fr"
      "ls_max_age ?m = age" "ls_currency ?m = ''EGP''" "ls_unit ?m \<noteq> []" "unit_ok cls (ls_unit ?m)"
    using check_unitD [OF c(4) ne(2)] ne iso_unit_nonempty
    by (cases "cls = ''currency''";
        simp add: x1 apply_listing_patch_def cls_def [symmetric] pt_def [symmetric] inc_def [symmetric]
          fr_def [symmetric] age_def [symmetric] u_def [symmetric] unit_ok_def)+
  show ?thesis
    using check_price_typeD [OF c(1) ne(1)] check_minimumD [OF c(3)] check_max_ageD [OF c(5)]
    by (simp add: well_formed_def m)
qed


subsection \<open>The tables\<close>

definition store_ok :: "store \<Rightarrow> bool" where
  "store_ok s \<longleftrightarrow> distinct (map pr_id (products s)) \<and> distinct (map ls_id (listings s)) \<and>
     distinct (map ls_code (listings s)) \<and> distinct (map ls_product (listings s)) \<and>
     (\<forall>l \<in> set (listings s). well_formed l \<and> ls_product l \<in> pr_id ` set (products s)) \<and>
     pb_product ` set (problems s) \<subseteq> pr_id ` set (products s) \<and>
     lo_product ` set (logs s) \<subseteq> pr_id ` set (products s) \<and>
     ho_instrument ` set (positions s) \<subseteq> ls_id ` set (listings s) \<and>
     pu_instrument ` set (buys s) \<subseteq> ls_id ` set (listings s)"

lemma store_okD:
  assumes "store_ok s"
  shows "distinct (map pr_id (products s))" "distinct (map ls_id (listings s))"
    "distinct (map ls_code (listings s))" "distinct (map ls_product (listings s))"
    "\<And>l. l \<in> set (listings s) \<Longrightarrow> well_formed l"
    "\<And>l. l \<in> set (listings s) \<Longrightarrow> ls_product l \<in> pr_id ` set (products s)"
    "pb_product ` set (problems s) \<subseteq> pr_id ` set (products s)"
    "lo_product ` set (logs s) \<subseteq> pr_id ` set (products s)"
    "ho_instrument ` set (positions s) \<subseteq> ls_id ` set (listings s)"
    "pu_instrument ` set (buys s) \<subseteq> ls_id ` set (listings s)"
  using assms by (simp_all add: store_ok_def)

lemma store_ok_catalogue: "store_ok s \<Longrightarrow> catalogue_ok (instruments (market s))"
  by (auto simp: store_ok_def catalogue_ok_def market_def as_instrument_def well_formed_def comp_def)

text \<open>The tables after POST /admin/products.\<close>

lemma post_product_cases:
  obtains "snd (post_product embedder now k a validated s) = s"
  | x bs where "snd (post_product embedder now k a validated s) =
      s\<lparr>products := products s @ [new_product now k x], problems := problems s @ bs\<rparr>" "\<forall>b \<in> set bs. pb_product b = k"
proof -
  have id: "s\<lparr>products := ps\<rparr> = s\<lparr>products := ps, problems := problems s @ []\<rparr>" for ps by simp
  have z: "\<forall>b \<in> set (map (\<lambda>(t, v). \<lparr>pb_product = k, pb_text = t, pb_embedding = v\<rparr>) (zip ts vs)). pb_product b = k"
    for ts vs by auto
  consider "\<exists>e. super_admin a = Inl e" | "\<exists>es. validated = Inl es" | u x where "super_admin a = Inr u" "validated = Inr x"
    by (metis sum.exhaust)
  then show ?thesis
  proof cases
    case 3
    show ?thesis
    proof (cases "\<exists>data vs. case_option [] id (pd_problems x) \<noteq> [] \<and> embedder (case_option [] id (pd_problems x)) = Inr data \<and>
        embeddings_by_index (length (case_option [] id (pd_problems x))) data = Some vs")
      case True
      then obtain data vs where "case_option [] id (pd_problems x) \<noteq> []" "embedder (case_option [] id (pd_problems x)) = Inr data"
        "embeddings_by_index (length (case_option [] id (pd_problems x))) data = Some vs" by blast
      with 3 show ?thesis by (intro that(2) [OF _ z]) (simp add: post_product_def Let_def)
    next
      case False
      with 3 show ?thesis
        by (intro that(2) [where x = x and bs = "[]"]) (auto simp: post_product_def Let_def split: sum.splits option.splits)
    qed
  qed (auto intro: that(1) simp: post_product_def split: sum.splits)
qed

lemma post_product_ok:
  assumes s: "store_ok s" and k: "k \<notin> pr_id ` set (products s)"
  shows "store_ok (snd (post_product embedder now k a validated s))"
proof (rule post_product_cases [of embedder now k a validated s])
  fix x bs
  assume "snd (post_product embedder now k a validated s) =
      s\<lparr>products := products s @ [new_product now k x], problems := problems s @ bs\<rparr>" "\<forall>b \<in> set bs. pb_product b = k"
  then show ?thesis using s k by (auto simp: store_ok_def new_product_def)
qed (simp add: s)


lemma patch_product_ok: "store_ok s \<Longrightarrow> store_ok (snd (patch_product a k validated s))"
proof -
  assume s: "store_ok s"
  have "store_ok (s\<lparr>products := save_row pr_id (apply_product_patch x p) (products s)\<rparr>)" for x p
    using s by (simp add: store_ok_def flip: set_map)
  then show ?thesis using s by (simp add: patch_product_def Let_def split: sum.split option.split)
qed

lemma delete_product_ok: "store_ok s \<Longrightarrow> store_ok (snd (delete_product a k s))"
proof -
  assume s: "store_ok s"
  let ?s = "s\<lparr>products := filter (\<lambda>p. pr_id p \<noteq> k) (products s),
     problems := filter (\<lambda>b. pb_product b \<noteq> k) (problems s),
     listings := filter (\<lambda>l. ls_product l \<noteq> k) (listings s), logs := filter (\<lambda>g. lo_product g \<noteq> k) (logs s)\<rparr>"
  have "store_ok ?s" if free: "\<not> (\<exists>l \<in> set (listings s). ls_product l = k \<and> protected (ls_id l) s)"
  proof -
    have still: "i \<in> ls_id ` set (listings ?s)" if "i \<in> ls_id ` set (listings s)" "protected i s" for i
      using that free by auto
    have "ho_instrument ` set (positions s) \<subseteq> ls_id ` set (listings ?s)"
      using store_okD(9) [OF s] by (intro image_subsetI still) (auto simp: protected_def)
    moreover have "pu_instrument ` set (buys s) \<subseteq> ls_id ` set (listings ?s)"
      using store_okD(10) [OF s] by (intro image_subsetI still) (auto simp: protected_def)
    moreover have "distinct (map pr_id (products ?s))" "distinct (map ls_id (listings ?s))"
        "distinct (map ls_code (listings ?s))" "distinct (map ls_product (listings ?s))"
      using store_okD(1-4) [OF s] by (simp_all add: distinct_map_filter)
    moreover have "pr_id ` {p \<in> set (products s). pr_id p \<noteq> k} = pr_id ` set (products s) - {k}" by auto
    ultimately show ?thesis using store_okD(5-8) [OF s] by (auto simp: store_ok_def)
  qed
  then show ?thesis using s by (simp add: delete_product_def split: sum.split option.split)
qed

lemma read_listingD:
  assumes "read_listing inst validated s = Inr y"
  obtains x where "validated = Inr x" "listing_field_errors (map_option ls_id inst) x s = []" "validate_listing inst x = Inr y"
  using assms by (auto simp: read_listing_def Let_def split: sum.splits if_splits)

text \<open>\<open>validate\<close> only rewrites the currency and the unit.\<close>

lemma validate_listing_same:
  assumes "validate_listing inst x = Inr y"
  shows "ld_product y = ld_product x" "ld_code y = ld_code x"
  using assms
  by (auto simp: validate_listing_def Let_def res_bind_Inr check_currency_def check_unit_def split: if_splits)

lemma no_field_errors:
  assumes "listing_field_errors self x s = []"
  shows "\<And>p. ld_product x = Some p \<Longrightarrow> p \<in> pr_id ` set (products s)"
    "\<And>c l. ld_code x = Some c \<Longrightarrow> l \<in> set (listings s) \<Longrightarrow> ls_code l = c \<Longrightarrow> self = Some (ls_id l)"
  using assms by (auto simp: listing_field_errors_def by_pk_None split: option.splits if_splits)

lemma post_listing_ok:
  assumes s: "store_ok s" and k: "k \<notin> ls_id ` set (listings s)" and f: "\<And>x. validated = Inr x \<Longrightarrow> fields_ok True x"
  shows "store_ok (snd (post_listing now k a validated s))"
proof (cases "res_bind (super_admin a) (\<lambda>_. read_listing None validated s)")
  case (Inl e)
  then show ?thesis using s by (simp add: post_listing_def)
next
  case (Inr y)
  then obtain x where x: "validated = Inr x" "listing_field_errors None x s = []" "validate_listing None x = Inr y"
    by (auto simp: res_bind_Inr elim: read_listingD)
  let ?l = "new_listing now k y"
  obtain p c where pc: "ld_product y = Some p" "ld_code y = Some c"
    using f [OF x(1)] validate_listing_same [OF x(3)] by (auto simp: fields_ok_def)
  have l: "ls_id ?l = k" "ls_product ?l = p" "ls_code ?l = c" using pc by (simp_all add: new_listing_def)
  have wf: "well_formed ?l" by (rule new_listing_well_formed [OF x(3) f [OF x(1)]])
  have p: "p \<in> pr_id ` set (products s)" using no_field_errors(1) [OF x(2)] pc validate_listing_same [OF x(3)] by simp
  have c: "c \<notin> ls_code ` set (listings s)" using no_field_errors(2) [OF x(2)] pc validate_listing_same [OF x(3)] by auto
  have "store_ok (s\<lparr>listings := listings s @ [?l]\<rparr>)" if "\<not> product_taken k p s"
  proof -
    have "p \<notin> ls_product ` set (listings s)" using that k by (auto simp: product_taken_def image_iff)
    then show ?thesis using s k p c wf l by (auto simp: store_ok_def)
  qed
  then show ?thesis using s by (simp add: post_listing_def Inr Let_def l)
qed


lemma store_ok_save_listing:
  assumes s: "store_ok s" and l: "l \<in> set (listings s)" and id: "ls_id l' = ls_id l" and wf: "well_formed l'"
    and p: "ls_product l' \<in> pr_id ` set (products s)" "\<not> product_taken (ls_id l) (ls_product l') s"
    and c: "\<And>m. m \<in> set (listings s) \<Longrightarrow> ls_code m = ls_code l' \<Longrightarrow> ls_id m = ls_id l"
  shows "store_ok (s\<lparr>listings := save_row ls_id l' (listings s)\<rparr>)"
proof -
  let ?ls = "save_row ls_id l' (listings s)"
  have ids: "map ls_id ?ls = map ls_id (listings s)" by simp
  then have idset: "ls_id ` set ?ls = ls_id ` set (listings s)" by (metis set_map)
  have "ls_code l' \<notin> ls_code ` {m \<in> set (listings s). ls_id m \<noteq> ls_id l'}"
    unfolding id by (rule notI) (elim imageE CollectE conjE, metis c)
  then have "distinct (map ls_code ?ls)"
    by (intro distinct_map_save_row [OF store_okD(2,3) [OF s] l id [symmetric]] disjI2)
  moreover have "ls_product l' \<notin> ls_product ` {m \<in> set (listings s). ls_id m \<noteq> ls_id l'}"
    using p(2) id by (auto simp: product_taken_def)
  then have "distinct (map ls_product ?ls)"
    by (intro distinct_map_save_row [OF store_okD(2,4) [OF s] l id [symmetric]] disjI2)
  moreover have "well_formed m \<and> ls_product m \<in> pr_id ` set (products s)" if "m \<in> set ?ls" for m
    using save_row_set [OF that] wf p(1) store_okD(5,6) [OF s] by auto
  ultimately show ?thesis using s by (simp add: store_ok_def idset)
qed

lemma patch_listing_ok:
  assumes s: "store_ok s" and f: "\<And>x. validated = Inr x \<Longrightarrow> fields_ok False x"
  shows "store_ok (snd (patch_listing a k validated s))"
proof (cases "\<exists>l y. super_admin a = Inr () \<and> by_pk ls_id (listings s) k = Some l \<and> read_listing (Some l) validated s = Inr y \<and>
    \<not> product_taken k (ls_product (apply_listing_patch y l)) s")
  case False
  have "snd (patch_listing a k validated s) = s"
  proof (cases "super_admin a")
    case ok: (Inr u)
    show ?thesis
    proof (cases "by_pk ls_id (listings s) k")
      case l: (Some l)
      show ?thesis
      proof (cases "read_listing (Some l) validated s")
        case (Inr y)
        with False ok l have "product_taken k (ls_product (apply_listing_patch y l)) s" by simp
        with ok l Inr show ?thesis by (simp add: patch_listing_def get_listing_def Let_def)
      qed (simp add: patch_listing_def get_listing_def ok l)
    qed (simp add: patch_listing_def get_listing_def ok)
  qed (simp add: patch_listing_def)
  with s show ?thesis by simp
next
  case True
  then obtain l y where l: "super_admin a = Inr ()" "by_pk ls_id (listings s) k = Some l"
      "read_listing (Some l) validated s = Inr y" "\<not> product_taken k (ls_product (apply_listing_patch y l)) s" by blast
  from l(3) obtain x where x: "validated = Inr x" "listing_field_errors (Some (ls_id l)) x s = []"
      "validate_listing (Some l) x = Inr y" by (rule read_listingD) simp
  have mem: "l \<in> set (listings s)" "ls_id l = k" using by_pk_Some [OF l(2)] by auto
  note e = no_field_errors [OF x(2)] and same = validate_listing_same [OF x(3)]
  let ?l = "apply_listing_patch y l"
  have "well_formed ?l" by (rule patched_listing_well_formed [OF x(3) f [OF x(1)] store_okD(5) [OF s mem(1)]])
  moreover have "ls_product ?l \<in> pr_id ` set (products s)"
    using e(1) same store_okD(6) [OF s mem(1)] by (auto simp: apply_listing_patch_def split: option.split)
  moreover have "ls_id m = ls_id l" if "m \<in> set (listings s)" "ls_code m = ls_code ?l" for m
  proof (cases "ld_code y")
    case None
    then have "ls_code m = ls_code l" using that(2) by (simp add: apply_listing_patch_def)
    then show ?thesis using store_okD(3) [OF s] that(1) mem(1) by (auto simp: distinct_map dest: inj_onD)
  next
    case (Some c)
    then show ?thesis using e(2) same that by (simp add: apply_listing_patch_def)
  qed
  ultimately have "store_ok (s\<lparr>listings := save_row ls_id ?l (listings s)\<rparr>)"
    using mem l(4) by (intro store_ok_save_listing [OF s mem(1)]) (auto simp: apply_listing_patch_def)
  then show ?thesis using l by (simp add: patch_listing_def get_listing_def Let_def)
qed

lemma delete_listing_ok:
  assumes s: "store_ok s"
  shows "store_ok (snd (delete_listing a k s))"
proof -
  have "store_ok (s\<lparr>listings := filter (\<lambda>l. ls_id l \<noteq> k) (listings s)\<rparr>)" if "\<not> protected k s"
  proof -
    have "ls_id ` {l \<in> set (listings s). ls_id l \<noteq> k} = ls_id ` set (listings s) - {k}" by auto
    moreover have "ho_instrument ` set (positions s) \<subseteq> ls_id ` set (listings s) - {k}"
        "pu_instrument ` set (buys s) \<subseteq> ls_id ` set (listings s) - {k}"
      using that store_okD(9,10) [OF s] by (auto simp: protected_def)
    ultimately show ?thesis
      using store_okD(1-8) [OF s] by (simp add: store_ok_def distinct_map_filter)
  qed
  then show ?thesis using s by (simp add: delete_listing_def split: sum.split)
qed

end
