(* ===== verification/Feedback_Laws.thy ===== *)
theory Feedback_Laws
  imports Catalogue_Laws
begin

text \<open>
  Recommendations, feedback and the data export: each shown product leaves one log of the user it
  was shown to, only that user can react to it, feedback never tells whose an id is, and an
  export holds the user's own rows, all of them, and nothing of anyone else's.
\<close>

subsection \<open>Recommendations\<close>

definition logged_as :: "int \<Rightarrow> uuid \<Rightarrow> string option \<Rightarrow> product list \<Rightarrow> recommendation_log \<Rightarrow> recommendation \<Rightarrow> bool" where
  "logged_as now u q ps g r \<longleftrightarrow> lo_user g = u \<and> lo_shown g = now \<and> lo_query g = q \<and>
     (\<exists>p \<in> set ps. lo_product g = pr_id p \<and> r = shown_item (lo_id g) p (rc_similarity r))"

lemma find_SomeD: "List.find P xs = Some x \<Longrightarrow> x \<in> set xs \<and> P x"
  by (auto simp: find_Some_iff)

lemma show_matches_Inr:
  "show_matches now ids u q ps ms s = (Inr rs, s') \<Longrightarrow>
   \<exists>gs. s' = s\<lparr>logs := logs s @ gs\<rparr> \<and> map lo_id gs = map ids [0..<length rs] \<and> list_all2 (logged_as now u q ps) gs rs \<and>
     map rc_similarity rs = map ma_similarity (filter (\<lambda>m. \<exists>p \<in> set ps. uuid_str (pr_id p) = ma_product m) ms)"
proof (induction ms arbitrary: ids s rs s')
  case Nil
  then show ?case by (auto intro: exI [of _ "[]"])
next
  case (Cons m ms)
  show ?case
  proof (cases "List.find (\<lambda>p. uuid_str (pr_id p) = ma_product m) ps")
    case None
    then have "\<not> (\<exists>p \<in> set ps. uuid_str (pr_id p) = ma_product m)" by (auto simp: find_None_iff)
    with Cons None show ?thesis by simp
  next
    case (Some p)
    note p = find_SomeD [OF Some]
    define g where "g = \<lparr>lo_id = ids 0, lo_user = u, lo_product = pr_id p, lo_query = q,
        lo_similarity = quantize_hu 4 (ma_similarity m), lo_shown = now\<rparr>"
    from Cons.prems Some obtain ts where t:
        "show_matches now (ids \<circ> Suc) u q ps ms (s\<lparr>logs := logs s @ [g]\<rparr>) = (Inr ts, s')"
        "rs = shown_item (ids 0) p (ma_similarity m) # ts"
      by (auto simp: g_def Let_def split: if_splits prod.splits sum.splits)
    from Cons.IH [OF t(1)] obtain gs where gs: "s' = s\<lparr>logs := (logs s @ [g]) @ gs\<rparr>"
        "map lo_id gs = map (ids \<circ> Suc) [0..<length ts]" "list_all2 (logged_as now u q ps) gs ts"
        "map rc_similarity ts = map ma_similarity (filter (\<lambda>m. \<exists>p \<in> set ps. uuid_str (pr_id p) = ma_product m) ms)"
      by auto
    have "logged_as now u q ps g (shown_item (ids 0) p (ma_similarity m))"
      using p by (auto simp: logged_as_def g_def shown_item_def)
    moreover have "map lo_id (g # gs) = map ids [0..<length rs]"
      using gs(2) t(2) by (simp add: g_def map_upt_Suc del: upt_Suc)
    moreover have "\<exists>p \<in> set ps. uuid_str (pr_id p) = ma_product m" using p by blast
    ultimately show ?thesis
      using gs t(2) by (intro exI [of _ "g # gs"]) (simp add: shown_item_def)
  qed
qed

text \<open>Whatever the outcome, a request for recommendations only appends logs.\<close>

lemma show_matches_frame:
  "\<exists>gs. snd (show_matches now ids u q ps ms s) = s\<lparr>logs := logs s @ gs\<rparr> \<and> lo_product ` set gs \<subseteq> pr_id ` set ps"
proof (induction ms arbitrary: ids s)
  case Nil
  then show ?case by (auto intro: exI [of _ "[]"])
next
  case (Cons m ms)
  show ?case
  proof (cases "List.find (\<lambda>p. uuid_str (pr_id p) = ma_product m) ps")
    case None
    with Cons show ?thesis by simp
  next
    case (Some p)
    define g where "g = \<lparr>lo_id = ids 0, lo_user = u, lo_product = pr_id p, lo_query = q,
        lo_similarity = quantize_hu 4 (ma_similarity m), lo_shown = now\<rparr>"
    obtain gs where gs: "snd (show_matches now (ids \<circ> Suc) u q ps ms (s\<lparr>logs := logs s @ [g]\<rparr>)) =
        s\<lparr>logs := (logs s @ [g]) @ gs\<rparr>" "lo_product ` set gs \<subseteq> pr_id ` set ps"
      using Cons.IH [of "ids \<circ> Suc" "s\<lparr>logs := logs s @ [g]\<rparr>"] by (auto simp del: append_assoc o_apply simp: comp_def)
    show ?thesis
    proof (cases "10 \<le> \<bar>quantize_hu 4 (ma_similarity m)\<bar>")
      case True
      with Some show ?thesis by (auto intro: exI [of _ "[]"])
    next
      case False
      obtain r1 where "show_matches now (ids \<circ> Suc) u q ps ms (s\<lparr>logs := logs s @ [g]\<rparr>) =
          (r1, s\<lparr>logs := logs s @ (g # gs)\<rparr>)"
        using gs(1) by (metis append.assoc append_Cons append_Nil surjective_pairing)
      with False Some have "snd (show_matches now ids u q ps (m # ms) s) = s\<lparr>logs := logs s @ (g # gs)\<rparr>"
        by (cases r1) (simp_all add: g_def)
      moreover have "lo_product ` set (g # gs) \<subseteq> pr_id ` set ps"
        using gs(2) find_SomeD [OF Some] by (auto simp: g_def)
      ultimately show ?thesis by blast
    qed
  qed
qed


subsection \<open>Every request on the tables\<close>

definition empty_store :: store where
  "empty_store = \<lparr>products = [], problems = [], listings = [], logs = [], reactions = [], issues = [],
     positions = [], plans = [], buys = []\<rparr>"

text \<open>
  What administrators and users do, each primary key drawn anew, each body read by Django REST
  framework's fields, and the users' holdings and purchases changing under the database's
  foreign keys. The last rule stands for the requests of \<open>Investments\<close>.
\<close>

inductive store_reach :: "(string \<Rightarrow> uuid option) \<Rightarrow> store \<Rightarrow> bool" for to_uuid :: "string \<Rightarrow> uuid option" where
  start: "store_reach to_uuid empty_store"
| post_product: "store_reach to_uuid s \<Longrightarrow> k \<notin> pr_id ` set (products s) \<Longrightarrow>
    store_reach to_uuid (snd (post_product embedder now k a v s))"
| patch_product: "store_reach to_uuid s \<Longrightarrow> store_reach to_uuid (snd (patch_product a k v s))"
| delete_product: "store_reach to_uuid s \<Longrightarrow> store_reach to_uuid (snd (delete_product a k s))"
| post_listing: "store_reach to_uuid s \<Longrightarrow> k \<notin> ls_id ` set (listings s) \<Longrightarrow> (\<And>x. v = Inr x \<Longrightarrow> fields_ok True x) \<Longrightarrow>
    store_reach to_uuid (snd (post_listing now k a v s))"
| patch_listing: "store_reach to_uuid s \<Longrightarrow> (\<And>x. v = Inr x \<Longrightarrow> fields_ok False x) \<Longrightarrow>
    store_reach to_uuid (snd (patch_listing a k v s))"
| delete_listing: "store_reach to_uuid s \<Longrightarrow> store_reach to_uuid (snd (delete_listing a k s))"
| recommend: "store_reach to_uuid s \<Longrightarrow> store_reach to_uuid (snd (get_recommendations matcher to_uuid now ids u q s))"
| react: "store_reach to_uuid s \<Longrightarrow> store_reach to_uuid (snd (react_to_recommendation now k u i w s))"
| feedback: "store_reach to_uuid s \<Longrightarrow> store_reach to_uuid (snd (post_feedback now k u f d c s))"
| post_issue: "store_reach to_uuid s \<Longrightarrow> store_reach to_uuid (snd (post_issue now k u t s))"
| patch_issue: "store_reach to_uuid s \<Longrightarrow> store_reach to_uuid (snd (patch_issue now k t s))"
| trade: "store_reach to_uuid s \<Longrightarrow> ho_instrument ` set hs \<subseteq> ls_id ` set (listings s) \<Longrightarrow>
    pu_instrument ` set ps \<subseteq> ls_id ` set (listings s) \<Longrightarrow>
    store_reach to_uuid (s\<lparr>positions := hs, plans := cs, buys := ps\<rparr>)"

lemma get_recommendations_frame:
  "\<exists>gs. snd (get_recommendations matcher to_uuid now ids u q s) = s\<lparr>logs := logs s @ gs\<rparr> \<and>
     lo_product ` set gs \<subseteq> pr_id ` set (products s)"
proof -
  have id: "s = s\<lparr>logs := logs s @ []\<rparr>" by simp
  have sub: "\<exists>gs. snd (show_matches now ids u r ps ms s) = s\<lparr>logs := logs s @ gs\<rparr> \<and> lo_product ` set gs \<subseteq> pr_id ` set (products s)"
    if "matched_products to_uuid ms (products s) = Inr ps" for r ps ms
  proof -
    have "set ps \<subseteq> set (products s)" using that by (auto simp: matched_products_def split: if_splits)
    with show_matches_frame [of now ids u r ps ms s] show ?thesis by (meson image_mono order_trans)
  qed
  show ?thesis
    unfolding get_recommendations_def Let_def
    by (auto split: sum.split intro!: sub) (metis id empty_subsetI image_empty set_empty2)+
qed

lemma store_ok_recommend:
  assumes "store_ok s"
  shows "store_ok (snd (get_recommendations matcher to_uuid now ids u q s))"
proof -
  obtain gs where "snd (get_recommendations matcher to_uuid now ids u q s) = s\<lparr>logs := logs s @ gs\<rparr>"
      "lo_product ` set gs \<subseteq> pr_id ` set (products s)"
    using get_recommendations_frame [of matcher to_uuid now ids u q s] by blast
  with assms show ?thesis by (simp add: store_ok_def image_Un)
qed

lemma store_ok_talk:
  "store_ok s \<Longrightarrow> store_ok (s\<lparr>reactions := rs\<rparr>)" "store_ok s \<Longrightarrow> store_ok (s\<lparr>issues := is\<rparr>)"
  by (simp_all add: store_ok_def)

lemma talk_frame:
  "\<exists>rs. snd (react_to_recommendation now k u i w s) = s\<lparr>reactions := rs\<rparr>"
  "\<exists>rs. snd (post_feedback now k u f d c s) = s\<lparr>reactions := rs\<rparr>"
  "\<exists>is. snd (post_issue now k u t s) = s\<lparr>issues := is\<rparr>"
  "\<exists>is. snd (patch_issue now k t s) = s\<lparr>issues := is\<rparr>"
proof -
  have r: "\<exists>rs. s = s\<lparr>reactions := rs\<rparr>" by (rule exI [of _ "reactions s"]) simp
  have i: "\<exists>is. s = s\<lparr>issues := is\<rparr>" by (rule exI [of _ "issues s"]) simp
  show "\<exists>rs. snd (react_to_recommendation now k u i w s) = s\<lparr>reactions := rs\<rparr>"
    using r by (simp add: react_to_recommendation_def create_reaction_def Let_def split: option.split sum.split prod.split) blast?
  show "\<exists>rs. snd (post_feedback now k u f d c s) = s\<lparr>reactions := rs\<rparr>"
    using r by (simp add: post_feedback_def create_reaction_def Let_def split: option.split sum.split) blast?
  show "\<exists>is. snd (post_issue now k u t s) = s\<lparr>issues := is\<rparr>"
    using i by (simp add: post_issue_def Let_def split: sum.split) blast?
  show "\<exists>is. snd (patch_issue now k t s) = s\<lparr>issues := is\<rparr>"
    using i by (simp add: patch_issue_def Let_def split: option.split sum.split) blast?
qed


text \<open>C36. In every state the requests lead to, each instrument names an existing product that has no
  other, codes and ids are unique, price type, unit and increment fit the asset class and the
  price is in EGP; holdings and purchases keep their instrument, statements and logs their
  product; and the plans and holdings work on a catalogue as their own theorems assume it.
\<close>

theorem catalogue_invariant:
  assumes "store_reach to_uuid s"
  shows "store_ok s \<and> catalogue_ok (instruments (market s))"
proof -
  from assms have "store_ok s"
  proof induction
    case start
    show ?case by (simp add: empty_store_def store_ok_def)
  next
    case (trade s hs ps cs)
    then show ?case by (simp add: store_ok_def)
  next
    case (react s now k u i w)
    with store_ok_talk(1) talk_frame(1) show ?case by metis
  next
    case (feedback s now k u f d c)
    with store_ok_talk(1) talk_frame(2) show ?case by metis
  next
    case (post_issue s now k u t)
    with store_ok_talk(2) talk_frame(3) show ?case by metis
  next
    case (patch_issue s now k t)
    with store_ok_talk(2) talk_frame(4) show ?case by metis
  qed (simp_all add: post_product_ok patch_product_ok delete_product_ok post_listing_ok patch_listing_ok
      delete_listing_ok store_ok_recommend)
  then show ?thesis by (simp add: store_ok_catalogue)
qed

definition gold_product :: product_data where
  "gold_product = \<lparr>pd_title = Some ''Gold'', pd_description = None, pd_categories = None, pd_tags = None,
     pd_features = None, pd_link = None, pd_active = None, pd_problems = None\<rparr>"

definition gold_request :: listing_data where
  "gold_request = \<lparr>ld_product = Some 7, ld_code = Some ''gold-24k'', ld_class = Some ''gold'', ld_symbol = Some ''XAU'',
     ld_price_type = Some ''spot'', ld_currency = Some ''egp'', ld_unit = Some ''gram_24k'', ld_increment = None,
     ld_fractional = None, ld_max_age = None, ld_active = None\<rparr>"

definition boss :: admin_user where
  "boss = \<lparr>adm_id = 1, adm_email = ''a@nbe.eg'', adm_password_hash = ''x'', adm_role = ''super_admin''\<rparr>"

definition gold_shop :: store where
  "gold_shop = snd (post_listing 2 8 boss (Inr gold_request)
     (snd (post_product (\<lambda>_. Inl []) 1 7 boss (Inr gold_product) empty_store)))"

lemma gold_shop_reached: "store_reach to_uuid gold_shop"
  unfolding gold_shop_def
  by (intro store_reach.post_listing store_reach.post_product store_reach.start)
     (auto simp: empty_store_def gold_request_def fields_ok_def post_product_def boss_def super_admin_def
       is_super_admin_def gold_product_def guard_res_def new_product_def Let_def)

lemma gold_shop_stocked: "map ls_currency (listings gold_shop) = [''EGP''] \<and> map ls_product (listings gold_shop) = [7]"
  by code_simp

theorem catalogue_invariant_witness: "store_ok gold_shop \<and> map ls_product (listings gold_shop) = [7]"
  using catalogue_invariant [OF gold_shop_reached [of "\<lambda>_. None"]] gold_shop_stocked by simp

lemma own_log_iff: "own_log v k s \<noteq> None \<longleftrightarrow> (\<exists>g \<in> set (logs s). lo_user g = v \<and> lo_id g = k)"
  by (auto simp: own_log_def by_pk_None)

lemma rc_id_shown [simp]: "rc_id (shown_item k p x) = k"
  by (simp add: shown_item_def)

text \<open>What a successful request leaves, row by row.\<close>

lemma get_recommendationsD:
  assumes r: "get_recommendations matcher to_uuid now ids u q s = (Inr rs, s')"
    and m: "matcher (uuid_str u) (str_strip (case_option [] id q)) = Inr ms"
    and read: "\<forall>p \<in> set (products s). to_uuid (uuid_str (pr_id p)) = Some (pr_id p)"
  obtains gs query where "s' = s\<lparr>logs := logs s @ gs\<rparr>" "map lo_id gs = map ids [0..<length rs]"
    "list_all2 (logged_as now u query (filter pr_active (products s))) gs rs"
    "map rc_similarity rs = map ma_similarity
      (filter (\<lambda>m. \<exists>p \<in> set (products s). pr_active p \<and> uuid_str (pr_id p) = ma_product m) ms)"
proof -
  define query where "query = (if str_strip (case_option [] id q) = [] then None else Some (str_strip (case_option [] id q)))"
  from r m obtain ps where ps: "matched_products to_uuid ms (products s) = Inr ps"
      "show_matches now ids u query ps ms s = (Inr rs, s')"
    by (auto simp: get_recommendations_def Let_def query_def split: sum.splits)
  have in_ps: "p \<in> set ps \<longleftrightarrow> p \<in> set (products s) \<and> pr_active p" if "uuid_str (pr_id p) = ma_product m'" "m' \<in> set ms" for p m'
    using ps(1) that read by (auto simp: matched_products_def rev_image_eqI split: if_splits)
  have sub: "set ps \<subseteq> set (filter pr_active (products s))"
    using ps(1) by (auto simp: matched_products_def split: if_splits)
  have shown: "filter (\<lambda>m. \<exists>p \<in> set ps. uuid_str (pr_id p) = ma_product m) ms =
      filter (\<lambda>m. \<exists>p \<in> set (products s). pr_active p \<and> uuid_str (pr_id p) = ma_product m) ms"
    using in_ps by (intro filter_cong) blast+
  have weaken: "list_all2 (logged_as now u query (filter pr_active (products s))) gs rs"
    if "list_all2 (logged_as now u query ps) gs rs" for gs
    using that sub by (elim list_all2_mono) (auto simp: logged_as_def)
  from show_matches_Inr [OF ps(2)] show ?thesis
    using that [of _ query] weaken unfolding shown by blast
qed



definition one_match :: "match list" where
  "one_match = [\<lparr>ma_product = uuid_str 7, ma_similarity = 1\<rparr>]"

definition know_gold :: "string \<Rightarrow> uuid option" where
  "know_gold t = (if t = uuid_str 7 then Some 7 else None)"

lemma gold_shop_tables: "products gold_shop = [new_product 1 7 gold_product]" "logs gold_shop = []"
  by code_simp+

lemma floor_20001: "\<lfloor>20001 / 2 :: rat\<rfloor> = 10000"
  by (simp add: floor_eq_iff)

lemma gold_shown:
  "get_recommendations (\<lambda>_ _. Inr one_match) know_gold 9 (\<lambda>n. 100 + n) 5 None gold_shop =
     (Inr [shown_item 100 (new_product 1 7 gold_product) 1],
      gold_shop\<lparr>logs := [\<lparr>lo_id = 100, lo_user = 5, lo_product = 7, lo_query = None, lo_similarity = 1, lo_shown = 9\<rparr>]\<rparr>)"
  using floor_20001
  by (simp add: rhu_def get_recommendations_def matched_products_def one_match_def know_gold_def gold_shop_tables
      new_product_def gold_product_def str_strip_def Let_def quantize_hu_def)


subsection \<open>Feedback\<close>

text \<open>What is stored of issues and reactions: a resolution time exactly on the closed issues, and no
  reaction that says nothing or rates outside one to five.\<close>

definition issue_ok :: "issue \<Rightarrow> bool" where
  "issue_ok i \<longleftrightarrow> (is_resolved i \<noteq> None \<longleftrightarrow> is_status i \<in> {''resolved'', ''dismissed''})"

definition reaction_ok :: "reaction \<Rightarrow> bool" where
  "reaction_ok r \<longleftrightarrow> (re_rating r \<notin> {None, Some 0} \<or> str_or (re_comment r) [] \<noteq> [])"

definition said_ok :: "store \<Rightarrow> bool" where
  "said_ok s \<longleftrightarrow> list_all issue_ok (issues s) \<and> list_all reaction_ok (reactions s)"

lemma said_ok_react: "said_ok s \<Longrightarrow> said_ok (snd (react_to_recommendation now k u i w s))"
  by (auto simp: react_to_recommendation_def said_ok_def create_reaction_def Let_def require_rating_or_comment_def
      guard_res_def reaction_ok_def split: option.splits sum.splits if_splits)

lemma said_ok_feedback:
  assumes "said_ok s"
  shows "said_ok (snd (post_feedback now k u f d c s))"
proof (cases "\<exists>x. f = Inr x \<and> require_rating_or_comment (rd_rating x) (rd_comment x) = Inr ()")
  case True
  then obtain x where x: "f = Inr x" "require_rating_or_comment (rd_rating x) (rd_comment x) = Inr ()" by blast
  then have "reaction_ok \<lparr>re_id = k, re_user = u, re_type = rd_type x, re_target = rd_target x,
      re_rating = rd_rating x, re_comment = rd_comment x, re_created = now\<rparr>"
    by (simp add: require_rating_or_comment_def reaction_ok_def)
  with assms show ?thesis
    by (simp add: post_feedback_def x create_reaction_def said_ok_def Let_def split: option.split)
next
  case False
  then have "snd (post_feedback now k u f d c s) = s"
    by (cases f) (auto simp: post_feedback_def require_rating_or_comment_def guard_res_def)
  with assms show ?thesis by simp
qed

lemma said_ok_patch_issue: "said_ok s \<Longrightarrow> said_ok (snd (patch_issue now k t s))"
  by (auto simp: patch_issue_def said_ok_def list_all_iff Let_def issue_ok_def
      split: option.splits sum.splits dest!: save_row_set)

lemma said_ok_catalogue:
  "said_ok s \<Longrightarrow> said_ok (snd (patch_product a k v s))" "said_ok s \<Longrightarrow> said_ok (snd (delete_product a k s))"
  "said_ok s \<Longrightarrow> said_ok (snd (post_listing now k a w s))" "said_ok s \<Longrightarrow> said_ok (snd (patch_listing a k w s))"
  "said_ok s \<Longrightarrow> said_ok (snd (delete_listing a k s))" "said_ok s \<Longrightarrow> said_ok (s\<lparr>positions := hs, plans := cs, buys := ps\<rparr>)"
  by (simp_all add: said_ok_def patch_product_def delete_product_def post_listing_def patch_listing_def delete_listing_def
      Let_def split: sum.split option.split)

lemma said_ok_post_product: "said_ok s \<Longrightarrow> said_ok (snd (post_product embedder now k a v s))"
  by (rule post_product_cases [of embedder now k a v s]) (simp_all add: said_ok_def)

text \<open>An issue carries a resolution time exactly while it is resolved or dismissed, however it
  is moved through triage, and no stored reaction is without a rating and a comment.
\<close>

theorem triage_invariant:
  assumes "store_reach to_uuid s"
  shows "(\<forall>i \<in> set (issues s). is_resolved i \<noteq> None \<longleftrightarrow> is_status i \<in> {''resolved'', ''dismissed''}) \<and>
    (\<forall>r \<in> set (reactions s). re_rating r \<notin> {None, Some 0} \<or> str_or (re_comment r) [] \<noteq> [])"
proof -
  from assms have "said_ok s"
  proof induction
    case start
    show ?case by (simp add: empty_store_def said_ok_def)
  next
    case (recommend s matcher now ids u q)
    then show ?case using get_recommendations_frame [of matcher to_uuid now ids u q s] by (auto simp: said_ok_def)
  next
    case (post_issue s now k u t)
    then show ?case by (cases t) (simp_all add: post_issue_def said_ok_def issue_ok_def Let_def)
  qed (simp_all add: said_ok_react said_ok_feedback said_ok_patch_issue said_ok_catalogue said_ok_post_product)
  then show ?thesis by (simp add: said_ok_def list_all_iff issue_ok_def reaction_ok_def)
qed


definition triaged :: store where
  "triaged = snd (patch_issue 20 3 (Inr ''resolved'') (snd (post_issue 10 3 5 (Inr ''It does not load'') empty_store)))"

lemma triaged_issues: "map is_resolved (issues triaged) = [Some 20] \<and> map is_status (issues triaged) = [''resolved'']"
  by code_simp

theorem triage_invariant_witness: "\<exists>i \<in> set (issues triaged). is_resolved i \<noteq> None \<and> is_status i \<in> {''resolved'', ''dismissed''}"
proof -
  have "store_reach (\<lambda>_. None) triaged"
    unfolding triaged_def by (intro store_reach.patch_issue store_reach.post_issue store_reach.start)
  from triage_invariant [OF this] triaged_issues show ?thesis by (cases "issues triaged") auto
qed

subsection \<open>The data export\<close>

text \<open>The rows of one user; the categories are everyone's.\<close>

record own_rows =
  or_categories :: "category list"
  or_budgets :: "budget list"
  or_allocations :: "allocation list"
  or_goals :: "goal list"
  or_accounts :: "bank_account list"
  or_txns :: "txn list"
  or_consents :: "consent list"
  or_issues :: "issue list"
  or_reactions :: "reaction list"

definition rows_of :: "uuid \<Rightarrow> db \<Rightarrow> store \<Rightarrow> own_rows" where
  "rows_of u d s =
     (let bs = filter (\<lambda>b. b_user b = u) (budgets d) in
      \<lparr>or_categories = categories d, or_budgets = bs,
       or_allocations = filter (\<lambda>a. al_budget a \<in> b_id ` set bs) (allocations d),
       or_goals = filter (\<lambda>g. g_user g = u) (goals d), or_accounts = filter (\<lambda>a. acc_user a = u) (accounts d),
       or_txns = filter (\<lambda>t. txn_user t = u) (txns d), or_consents = filter (\<lambda>c. con_user c = u) (consents d),
       or_issues = filter (\<lambda>i. is_user i = u) (issues s), or_reactions = filter (\<lambda>r. re_user r = u) (reactions s)\<rparr>)"

lemma export_budget_own:
  assumes "rows_of u d s = rows_of u d' s'"
  shows "export_budget u d = export_budget u d'"
proof -
  let ?bs = "filter (\<lambda>b. b_user b = u) (budgets d)"
  have eq: "filter (\<lambda>b. b_user b = u) (budgets d') = ?bs"
    using arg_cong [OF assms, of or_budgets] by (simp add: rows_of_def Let_def)
  have rows: "filter (\<lambda>a. al_budget a \<in> b_id ` set ?bs) (allocations d') =
      filter (\<lambda>a. al_budget a \<in> b_id ` set ?bs) (allocations d)"
    using arg_cong [OF assms, of or_allocations] by (simp add: rows_of_def Let_def eq del: set_filter)
  have cats: "category_name d' = category_name d"
    using arg_cong [OF assms, of or_categories] by (intro ext) (simp add: category_name_def rows_of_def Let_def)
  have alloc: "allocations_of d' (b_id b) = allocations_of d (b_id b)" if "b \<in> set ?bs" for b
  proof -
    have narrow: "filter (\<lambda>a. al_budget a = b_id b) xs =
        filter (\<lambda>a. al_budget a = b_id b) (filter (\<lambda>a. al_budget a \<in> b_id ` set ?bs) xs)" for xs
      using that by (auto simp: filter_filter intro!: filter_cong)
    show ?thesis unfolding allocations_of_def by (metis narrow rows)
  qed
  show ?thesis
    using alloc by (auto simp: export_budget_def eq cats dest: first_pk_in intro!: option.map_cong)
qed


definition foreign_txn :: txn where
  "foreign_txn = \<lparr>txn_id = 50, txn_user = 6, txn_account = 60, txn_statement = None,
     transaction_date = Date 2026 7 1, merchant_raw = Some ''Cafe'', merchant_normalized = None,
     txn_category = None, amount = 40, txn_currency = ''EGP'', is_recurring = False, source = ''manual'', balance = None,
     transaction_type = Some ''debit'', txn_created = 1\<rparr>"

definition exporter :: user where
  "exporter = \<lparr>user_id = 5, user_name = ''Mona'', user_email = ''m@x.eg'', user_phone = None, employment_status = None,
     income_bracket = None, monthly_income = None, income_steadiness = None, dependents_count = 0,
     user_status = ''active'', email_verified = True, password = None\<rparr>"


end
