(* ===== verification/Template_Laws.thy ===== *)
theory Template_Laws
  imports Templates Budget_Laws
begin

text \<open>
  What the onboarding templates promise: through every seed and every administrator's write,
  a template is stored under its own key, its shares add up to a hundred, and what the list
  shows is what its key gives.
\<close>

text \<open>Percentages as JSON carries them: floats of decimals that add up to a hundred.\<close>

definition shares_ok :: "(string \<times> rat) list \<Rightarrow> bool" where
  "shares_ok xs \<longleftrightarrow> (\<exists>ps. map snd xs = map flt ps \<and> sum_list ps = 100)"

definition files_ok :: "template_files \<Rightarrow> bool" where
  "files_ok fs \<longleftrightarrow> distinct (map fst fs) \<and> (\<forall>k t. map_of fs k = Some t \<longrightarrow> tp_key t = k \<and> shares_ok (tp_allocations t))"

lemma files_ok_put:
  assumes "files_ok fs" "shares_ok (tp_allocations t)"
  shows "files_ok (put_onboarding_template t fs)"
  using assms by (auto simp: files_ok_def put_onboarding_template_def distinct_update update_conv' split: if_splits)

lemma files_ok_delete: "files_ok fs \<Longrightarrow> files_ok (delete_onboarding_template k fs)"
  by (auto simp: files_ok_def delete_onboarding_template_def distinct_delete delete_conv' split: if_splits)

lemma files_okD:
  "files_ok fs \<Longrightarrow> get_onboarding_template k fs = Some t \<Longrightarrow> tp_key t = k \<and> shares_ok (tp_allocations t)"
  by (simp add: files_ok_def get_onboarding_template_def)

definition template_fields :: "alloc_input list \<Rightarrow> bool" where
  "template_fields xs \<longleftrightarrow> length xs \<le> 1000000 \<and> (\<forall>y \<in> set xs. places 2 (in_percentage y) \<and> \<bar>in_percentage y\<bar> < 1000)"

lemma template_allocations_shares:
  assumes "validate_allocations_sum_100 xs = Inr ()" "template_fields xs"
  shows "shares_ok (template_allocations d xs)"
  using validated_sum [of xs] assms
  by (auto simp: shares_ok_def template_allocations_def template_fields_def intro!: exI [of _ "map in_percentage xs"])

lemma seeded_shares: "t \<in> set ONBOARDING_TEMPLATES \<Longrightarrow> shares_ok (tp_allocations t)"
proof -
  assume t: "t \<in> set ONBOARDING_TEMPLATES"
  then have "sum_list (map snd (tp_allocations t)) = 100 \<and> map flt (map snd (tp_allocations t)) = map snd (tp_allocations t)"
    using flt_of_int [of 5] flt_of_int [of 8] flt_of_int [of 10] flt_of_int [of 12] flt_of_int [of 15]
      flt_of_int [of 20] flt_of_int [of 25] flt_of_int [of 30] flt_of_int [of 35]
    by (auto simp: ONBOARDING_TEMPLATES_def)
  then show ?thesis unfolding shares_ok_def by metis
qed

lemma files_ok_seed: "files_ok fs \<Longrightarrow> files_ok (seed_onboarding_templates fs)"
proof -
  have "files_ok (fold seed_template ts fs)" if "files_ok fs" "\<forall>t \<in> set ts. shares_ok (tp_allocations t)" for ts
    using that by (induction ts arbitrary: fs) (simp_all add: seed_template_def files_ok_put)
  then show "files_ok fs \<Longrightarrow> files_ok (seed_onboarding_templates fs)"
    by (simp add: seed_onboarding_templates_def seeded_shares)
qed


lemma post_template_ok:
  assumes fs: "files_ok fs" and v: "\<And>x. v = Inr x \<Longrightarrow> template_fields (td_allocations x)"
  shows "files_ok (snd (post_template d a v fs))"
proof (cases "\<exists>x. v = Inr x \<and> validate_allocations_sum_100 (td_allocations x) = Inr () \<and> super_admin a = Inr () \<and>
    get_onboarding_template (td_key x) fs = None")
  case True
  then obtain x where x: "v = Inr x" "validate_allocations_sum_100 (td_allocations x) = Inr ()" "super_admin a = Inr ()"
      "get_onboarding_template (td_key x) fs = None" by blast
  then show ?thesis
    by (simp add: post_template_def Let_def files_ok_put [OF fs] template_allocations_shares v)
next
  case False
  have "snd (post_template d a v fs) = fs"
  proof (cases "super_admin a")
    case ok: (Inr u)
    show ?thesis
    proof (cases v)
      case x: (Inr x)
      show ?thesis using False ok x
        by (cases "validate_allocations_sum_100 (td_allocations x)") (simp_all add: post_template_def)
    qed (simp add: post_template_def ok)
  qed (simp add: post_template_def)
  with fs show ?thesis by simp
qed

lemma patch_template_ok:
  assumes fs: "files_ok fs" and v: "\<And>p xs. v = Inr p \<Longrightarrow> tq_allocations p = Some xs \<Longrightarrow> template_fields xs"
  shows "files_ok (snd (patch_template d a k v fs))"
proof -
  have put: "files_ok (put_onboarding_template (apply_template_patch d p t) fs)"
    if "v = Inr p" "get_onboarding_template k fs = Some t"
      "\<And>xs. tq_allocations p = Some xs \<Longrightarrow> validate_allocations_sum_100 xs = Inr ()" for p t
    using files_okD [OF fs that(2)] template_allocations_shares v [OF that(1)] that(3)
    by (intro files_ok_put [OF fs]) (simp add: apply_template_patch_def split: option.split)
  show ?thesis
  proof (cases "super_admin a")
    case ok: (Inr u)
    show ?thesis
    proof (cases "get_onboarding_template k fs")
      case t: (Some t)
      show ?thesis
      proof (cases v)
        case p: (Inr p)
        show ?thesis
        proof (cases "tq_allocations p")
          case None
          then show ?thesis using put [OF p t] by (simp add: patch_template_def ok t p Let_def)
        next
          case (Some xs)
          then show ?thesis using put [OF p t] fs
            by (cases "validate_allocations_sum_100 xs") (simp_all add: patch_template_def ok t p Let_def)
        qed
      qed (simp add: patch_template_def ok t fs)
    qed (simp add: patch_template_def ok fs)
  qed (simp add: patch_template_def fs)
qed

lemma delete_template_ok: "files_ok fs \<Longrightarrow> files_ok (snd (delete_template a k fs))"
  by (simp add: delete_template_def files_ok_delete split: sum.split)

text \<open>The bucket after any seeds and any requests of administrators.\<close>

inductive bucket_reach :: "template_files \<Rightarrow> bool" where
  empty: "bucket_reach []"
| seed: "bucket_reach fs \<Longrightarrow> bucket_reach (seed_onboarding_templates fs)"
| post: "bucket_reach fs \<Longrightarrow> (\<And>x. v = Inr x \<Longrightarrow> template_fields (td_allocations x)) \<Longrightarrow>
    bucket_reach (snd (post_template d a v fs))"
| patch: "bucket_reach fs \<Longrightarrow> (\<And>p xs. w = Inr p \<Longrightarrow> tq_allocations p = Some xs \<Longrightarrow> template_fields xs) \<Longrightarrow>
    bucket_reach (snd (patch_template d a k w fs))"
| delete: "bucket_reach fs \<Longrightarrow> bucket_reach (snd (delete_template a k fs))"

lemma listed_is_stored:
  assumes "files_ok fs" "t \<in> set (get_onboarding_templates fs)"
  shows "get_onboarding_template (tp_key t) fs = Some t"
proof -
  from assms(2) obtain k where "(k, t) \<in> set fs" by (auto simp: get_onboarding_templates_def)
  then have "map_of fs k = Some t" using assms(1) by (simp add: files_ok_def)
  with assms(1) show ?thesis by (auto simp: files_ok_def get_onboarding_template_def)
qed

lemma seed_template_keeps:
  "get_onboarding_template k fs = Some t \<Longrightarrow> get_onboarding_template k (seed_template a fs) = Some t"
  by (auto simp: seed_template_def get_onboarding_template_def put_onboarding_template_def update_conv')

text \<open>However the templates were seeded, added, edited and removed, every starter template a
  client is shown has shares that add up to exactly a hundred, is the object its own key names,
  and appears once; and running the seed again leaves every stored template as it is.
\<close>

theorem templates_always_whole:
  assumes "bucket_reach fs"
  shows "(\<forall>(t, suggested) \<in> set (get_starter_templates me fs).
      shares_ok (tp_allocations t) \<and> get_onboarding_template (tp_key t) fs = Some t) \<and>
    distinct (map (tp_key \<circ> fst) (get_starter_templates me fs)) \<and>
    (\<forall>k t. get_onboarding_template k fs = Some t \<longrightarrow> get_onboarding_template k (seed_onboarding_templates fs) = Some t)"
proof -
  from assms have ok: "files_ok fs"
    by induction (simp_all add: files_ok_seed post_template_ok patch_template_ok delete_template_ok, simp add: files_ok_def)
  have keys: "map tp_key (get_onboarding_templates fs) = map fst (sort_key (template_object_key \<circ> fst) fs)"
  proof -
    have "tp_key (snd x) = fst x" if "x \<in> set fs" for x
      using ok that by (cases x) (auto simp: files_ok_def)
    then show ?thesis by (simp add: get_onboarding_templates_def)
  qed
  have "distinct (map tp_key (get_onboarding_templates fs))"
    unfolding keys using ok by (simp add: files_ok_def distinct_map)
  then have "distinct (map (tp_key \<circ> fst) (get_starter_templates me fs))"
    by (simp add: get_starter_templates_def starter_templates_def comp_def)
  moreover have "get_onboarding_template k (fold seed_template ts fs) = Some t"
    if "get_onboarding_template k fs = Some t" for k t ts
    using that by (induction ts arbitrary: fs) (simp_all add: seed_template_keeps)
  moreover have "shares_ok (tp_allocations t) \<and> get_onboarding_template (tp_key t) fs = Some t"
    if "t \<in> set (get_onboarding_templates fs)" for t
    using listed_is_stored [OF ok that] files_okD [OF ok] by blast
  ultimately show ?thesis
    by (auto simp: get_starter_templates_def starter_templates_def seed_onboarding_templates_def)
qed


theorem templates_always_whole_witness:
  "length (get_starter_templates None (seed_onboarding_templates [])) = 3 \<and>
   list_all (\<lambda>(t, suggested). shares_ok (tp_allocations t)) (get_starter_templates None (seed_onboarding_templates []))"
proof -
  have "length (seed_onboarding_templates []) = 3"
    by (simp add: seed_onboarding_templates_def ONBOARDING_TEMPLATES_def seed_template_def get_onboarding_template_def
        put_onboarding_template_def)
  with templates_always_whole [OF bucket_reach.seed [OF bucket_reach.empty], of None] show ?thesis
    by (auto simp: list_all_iff get_starter_templates_def starter_templates_def get_onboarding_templates_def)
qed

end
