(* ===== verification/AI_Clients.thy ===== *)
theory AI_Clients
  imports Feedback Statements Sync Json_Numbers
begin

text \<open>
  The two clients of the AI service behind \<open>services/ai_service.get_client\<close>: the HTTP calls of
  ai_client.py with their one exception type, and the in-process client of mock_client.py,
  which answers from the tables. Python's seeded generator and \<open>json\<close> are arguments; a float
  goes out as the decimal its \<open>repr\<close> shows.
\<close>

subsection \<open>HTTP calls\<close>

text \<open>A \<open>RequestException\<close>: its text and, where the service answered, the body of the answer.\<close>

record 'b request_exception =
  rx_text :: string
  rx_body :: "'b option"

text \<open>\<open>detail_of\<close> is \<open>response.json().get("detail")\<close>, with None where it raises.\<close>

definition describe :: "('b \<Rightarrow> string option) \<Rightarrow> 'b request_exception \<Rightarrow> string" where
  "describe detail_of e =
     (case rx_body e of
        None \<Rightarrow> rx_text e
      | Some b \<Rightarrow> (let t = str_or (detail_of b) []
                  in if t = [] then rx_text e else rx_text e @ '' '' @ em_dash @ '' '' @ t))"

text \<open>\<open>_post\<close> and \<open>_get\<close>: the answer, or the text of the \<open>AIServiceError\<close>.\<close>

definition ai_call :: "('b \<Rightarrow> string option) \<Rightarrow> string \<Rightarrow> 'b request_exception + 'b \<Rightarrow> string + 'b" where
  "ai_call detail_of path r =
     (case r of
        Inl e \<Rightarrow> Inl (''AI service call to '' @ path @ '' failed: '' @ describe detail_of e)
      | Inr resp \<Rightarrow> Inr resp)"

definition parse_json :: "('b \<Rightarrow> string + 'v) \<Rightarrow> string \<Rightarrow> 'b \<Rightarrow> string + 'v" where
  "parse_json loads path resp =
     (case loads resp of
        Inl m \<Rightarrow> Inl (''AI service response from '' @ path @ '' was not valid JSON: '' @ m)
      | Inr v \<Rightarrow> Inr v)"

text \<open>What every method of \<open>AIServiceClient\<close> but the chat does.\<close>

definition ai_request :: "('b \<Rightarrow> string option) \<Rightarrow> ('b \<Rightarrow> string + 'v) \<Rightarrow> string \<Rightarrow> 'b request_exception + 'b \<Rightarrow> string + 'v" where
  "ai_request detail_of loads path r = res_bind (ai_call detail_of path r) (parse_json loads path)"

subsection \<open>The mock: ingestion\<close>

text \<open>\<open>random.Random(seed)\<close> by the calls made on it: the \<open>n\<close>-th call with its bounds.\<close>

record generator =
  uniform :: "nat \<Rightarrow> rat \<Rightarrow> rat \<Rightarrow> rat"
  randrange :: "nat \<Rightarrow> nat \<Rightarrow> nat \<Rightarrow> nat"

definition mock_merchants :: "string list" where
  "mock_merchants = [''Carrefour'', ''Uber'', ''Vodafone'', ''Talabat'', ''Fawry'']"

text \<open>The first \<open>n\<close> digits of \<open>uuid.hex\<close>, for \<open>n\<close> up to eight.\<close>

definition hex_head :: "nat \<Rightarrow> uuid \<Rightarrow> string" where
  "hex_head n k = take n (hex_digits 8 (k div 16 ^ 24))"

definition mock_seed :: "uuid \<Rightarrow> nat" where
  "mock_seed k = k div 16 ^ 24 mod 16 ^ 8"

record fabricated =
  mt_date :: date
  mt_merchant_raw :: string
  mt_merchant :: string
  mt_description :: string
  mt_category :: string
  mt_amount :: rat
  mt_type :: string
  mt_balance :: rat
  mt_duplicate :: "uuid option"
  mt_extra :: "string option"

definition days_apart :: "date \<Rightarrow> date \<Rightarrow> int" where
  "days_apart x y = \<bar>ordinal x - ordinal y\<bar>"

text \<open>The nearest row of the user with the same amount, two days around the date.\<close>

definition find_duplicate :: "uuid \<Rightarrow> rat \<Rightarrow> date \<Rightarrow> db \<Rightarrow> txn option" where
  "find_duplicate u x on d =
     (let cs = filter (\<lambda>t. txn_user t = u \<and> amount t = x \<and> add_days on (-2) \<le> transaction_date t \<and>
                 transaction_date t \<le> add_days on 2) (txns d)
      in if cs = [] then None else Some (arg_min_list (\<lambda>t. days_apart (transaction_date t) on) cs))"

text \<open>The \<open>i\<close>-th fabricated transaction and the balance after it; the balance is a float.\<close>

definition mock_transaction ::
  "generator \<Rightarrow> date \<Rightarrow> string list \<Rightarrow> statement \<Rightarrow> db \<Rightarrow> rat \<Rightarrow> nat \<Rightarrow> fabricated \<times> rat" where
  "mock_transaction g today cats s d bal i =
     (let on = add_days today (- int (randrange g (4 * i + 1) 1 60));
          x = py_round 2 (uniform g (4 * i + 2) 50 5000);
          merchant = mock_merchants ! randrange g (4 * i + 3) 0 (length mock_merchants);
          raw = merchant @ '' #'' @ hex_head 6 (st_id s);
          after = py_round 2 (flt (bal - x))
      in (\<lparr>mt_date = on, mt_merchant_raw = raw, mt_merchant = merchant,
           mt_description = ''Payment to '' @ raw @ ''.'',
           mt_category = cats ! randrange g (4 * i + 4) 0 (length cats), mt_amount = decimal_of_float x,
           mt_type = ''debit'', mt_balance = decimal_of_float after,
           mt_duplicate = map_option txn_id (find_duplicate (st_user s) (decimal_of_float x) on d),
           mt_extra = (if i = 0 then Some (''REF'' @ nat_str (mock_seed (st_id s)) @ nat_str i) else None)\<rparr>, after))"

definition mock_transactions :: "generator \<Rightarrow> date \<Rightarrow> string list \<Rightarrow> statement \<Rightarrow> db \<Rightarrow> fabricated list" where
  "mock_transactions g today cats s d =
     (let b0 = py_round 2 (uniform g 0 5000 20000);
          (t0, b1) = mock_transaction g today cats s d b0 0;
          (t1, b2) = mock_transaction g today cats s d b1 1;
          (t2, b3) = mock_transaction g today cats s d b2 2
      in [t0, t1, t2])"

text \<open>What the pipeline and the approval read of it.\<close>

definition as_proposed :: "fabricated \<Rightarrow> proposed" where
  "as_proposed t = \<lparr>prop_date = Some (mt_date t), prop_merchant = Some (mt_merchant_raw t), prop_amount = mt_amount t,
     prop_type = Some (mt_type t)\<rparr>"

text \<open>An empty category table makes \<open>randrange(0)\<close> raise.\<close>

definition mock_normalize_statement :: "(nat \<Rightarrow> generator) \<Rightarrow> date \<Rightarrow> string \<Rightarrow> db \<Rightarrow> string + job_result" where
  "mock_normalize_statement rng today k d =
     (case List.find (\<lambda>r. uuid_str (ocr_id r) = k) (ocr_results d) of
        None \<Rightarrow> Inl ''StatementOcrResult matching query does not exist.''
      | Some r \<Rightarrow>
         (case by_pk st_id (statements d) (ocr_statement r) of
            None \<Rightarrow> Inl ''StatementFile matching query does not exist.''
          | Some s \<Rightarrow>
              let cats = map cat_name (filter (\<lambda>c. cat_type c = ''expense'') (categories d))
              in if cats = [] then Inl ''empty range for randrange()''
                 else Inr (Normalization_result
                   \<lparr>nj_bank_name = Some ''National Bank of Egypt'', nj_account_number = Some (take 16 (checksum s)),
                    nj_transactions = Some (map as_proposed (mock_transactions (rng (mock_seed (st_id s))) today cats s d))\<rparr>
                   ''mock-normalizer-v0'')))"

definition mock_process_statement :: "string \<Rightarrow> job_result" where
  "mock_process_statement k = Extraction_result (''pfm-statements-ocr/'' @ k @ ''/'') ''MinerU'' (95 / 100)"

definition mock_submit_job :: "phase \<Rightarrow> uuid \<Rightarrow> string" where
  "mock_submit_job ph k =
     (case ph of Extraction \<Rightarrow> ''mock:process:'' | Normalization \<Rightarrow> ''mock:normalize:'') @ uuid_str k"

text \<open>\<open>job_id.split(":", 2)\<close>; every job has succeeded when it is polled.\<close>

definition mock_get_job_status :: "(nat \<Rightarrow> generator) \<Rightarrow> date \<Rightarrow> string \<Rightarrow> db \<Rightarrow> string + job_state" where
  "mock_get_job_status rng today job d =
     (case split_on CHR '':'' job of
        _ # step # rest \<Rightarrow>
          if rest = [] then Inl ''not enough values to unpack''
          else let target = foldl (\<lambda>x y. x @ '':'' @ y) (hd rest) (tl rest)
               in if step = ''process'' then Inr (Job_succeeded (mock_process_statement target))
                  else map_sum id Job_succeeded (mock_normalize_statement rng today target d)
      | _ \<Rightarrow> Inl ''not enough values to unpack'')"


subsection \<open>The mock: chat\<close>

text \<open>\<open>s.split(" ")\<close>, one token per word.\<close>

definition word_tokens :: "string \<Rightarrow> envelope list" where
  "word_tokens s = map (\<lambda>w. Token (w @ '' '')) (split_on CHR '' '' s)"

definition mock_plan_text :: string where
  "mock_plan_text = ''Here'' @ [CHR 0x27] @ ''s your current plan '' @ em_dash @
     '' adjust the sliders and confirm to update it.''"

definition mock_help_text :: string where
  "mock_help_text = ''I can help with spending analysis, planning, or product recommendations '' @ em_dash @
     '' ask me about your budget, transactions, or savings goal.''"

definition mentions_plan :: "string \<Rightarrow> bool" where
  "mentions_plan t \<longleftrightarrow> str_in ''budget'' (str_lower t) \<or> str_in ''allocation'' (str_lower t)"

definition mock_budget :: "db \<Rightarrow> uuid \<Rightarrow> string \<Rightarrow> budget option" where
  "mock_budget d u t = (if mentions_plan t then first_pk b_id (filter (\<lambda>b. b_user b = u) (budgets d)) else None)"

text \<open>\<open>payload_of\<close> is the JSON of the sliders' payload (and of null) as the chat stores it.\<close>

definition mock_reply :: "((string \<times> rat) list option \<Rightarrow> payload) \<Rightarrow> db \<Rightarrow> uuid \<Rightarrow> string \<Rightarrow> reply" where
  "mock_reply payload_of d u t =
     (case mock_budget d u t of
        Some b \<Rightarrow> \<lparr>rp_content = Some mock_plan_text,
          rp_widget = Some (Some \<lparr>w_type = Some ''allocation_slider'', w_payload = payload_of
             (Some (map (\<lambda>a. (category_name d (al_category a), flt (al_percentage a))) (allocations_of d (b_id b))))\<rparr>),
          rp_references = Some [(''budget'', Some (b_id b))],
          rp_suggestions = Some [''Why this split?'', ''Suggest a more aggressive savings split'',
             ''Revert to my last confirmed allocation'']\<rparr>
      | None \<Rightarrow> \<lparr>rp_content = Some mock_help_text,
          rp_widget = Some (Some \<lparr>w_type = None, w_payload = payload_of None\<rparr>), rp_references = Some [],
          rp_suggestions = Some [''Show my spending breakdown'', ''What are my recent transactions?'',
             ''Help me plan my savings'']\<rparr>)"

definition mock_stream_chat :: "((string \<times> rat) list option \<Rightarrow> payload) \<Rightarrow> db \<Rightarrow> chat_client" where
  "mock_stream_chat payload_of d k u t =
     ((case mock_budget d u t of
         Some b \<Rightarrow> [Agent_selected (Some ''planning''), Tool_call (Some (''mock-call-1'', ''get_transactions'', ''started'')),
                    Tool_call (Some (''mock-call-1'', ''get_transactions'', ''completed''))] @ word_tokens mock_plan_text
       | None \<Rightarrow> Agent_selected (Some ''analysis'') # word_tokens mock_help_text) @
      [Done (mock_reply payload_of d u t)], None)"

subsection \<open>The mock: matching\<close>

text \<open>\<open>s.split()\<close>: the pieces between white space.\<close>

fun words_from :: "string \<Rightarrow> string \<Rightarrow> string list" where
  "words_from acc [] = (if acc = [] then [] else [acc])"
| "words_from acc (c # s) =
     (if is_space c then (if acc = [] then words_from [] s else acc # words_from [] s) else words_from (acc @ [c]) s)"

fun join_spaces :: "string list \<Rightarrow> string" where
  "join_spaces [] = []"
| "join_spaces [w] = w"
| "join_spaces (w # ws) = w @ '' '' @ join_spaces ws"

definition haystack :: "product \<Rightarrow> string" where
  "haystack p = join_spaces [str_lower (pr_title p), str_lower (str_or (pr_description p) []),
     str_lower (join_spaces (pr_tags p)), str_lower (join_spaces (pr_categories p))]"

definition match_count :: "string list \<Rightarrow> product \<Rightarrow> nat" where
  "match_count terms p = length (filter (\<lambda>t. str_in t (haystack p)) terms)"

text \<open>\<open>min(0.99, 0.5 + 0.1 * match_count)\<close>.\<close>

definition mock_similarity :: "nat \<Rightarrow> rat" where
  "mock_similarity n = min (flt (99 / 100)) (flt (flt (1 / 2) + flt (flt (1 / 10) * of_nat n)))"

definition mock_match_recommendations :: "string \<Rightarrow> nat \<Rightarrow> product list \<Rightarrow> match list" where
  "mock_match_recommendations query top_k ps =
     (let live = filter pr_active ps
      in if query = [] then map (\<lambda>p. \<lparr>ma_product = uuid_str (pr_id p), ma_similarity = 1 / 2\<rparr>) (take top_k live)
         else
           (let terms = words_from [] (str_lower query);
                scored = map (\<lambda>p. (mock_similarity (match_count terms p), p)) (filter (\<lambda>p. 0 < match_count terms p) live)
            in map (\<lambda>(x, p). \<lparr>ma_product = uuid_str (pr_id p), ma_similarity = decimal_of_float x\<rparr>)
                 (take top_k (sort_key (\<lambda>s. - fst s) scored))))"

subsection \<open>The mock: embeddings\<close>

text \<open>All or nothing: the transactions that get a vector, or the error.\<close>

definition mock_embed_transactions :: "uuid list \<Rightarrow> db \<Rightarrow> string + uuid list" where
  "mock_embed_transactions ks d =
     (let ts = filter (\<lambda>t. txn_id t \<in> set ks) (txns d)
      in if length ts \<noteq> card (set ks) then Inl ''embed_transactions: one or more transaction_ids not found''
         else Inr (map txn_id ts))"

definition mock_create_embeddings :: "(nat \<Rightarrow> nat \<Rightarrow> rat) \<Rightarrow> nat option \<Rightarrow> string list \<Rightarrow> (nat \<times> rat list) list" where
  "mock_create_embeddings rnd dims texts =
     (let size = (case dims of None \<Rightarrow> 768 | Some n \<Rightarrow> if n = 0 then 768 else n)
      in map (\<lambda>i. (i, map (rnd i) [0..<size])) [0..<length texts])"

subsection \<open>The mock: analysis after an import\<close>

record mock_summary =
  mk_income :: rat
  mk_expense :: rat
  mk_net :: rat
  mk_by_category :: "(string \<times> rat) list"

definition account_month :: "uuid \<Rightarrow> uuid \<Rightarrow> int \<Rightarrow> int \<Rightarrow> db \<Rightarrow> txn list" where
  "account_month u a y m d = filter (\<lambda>t. txn_user t = u \<and> txn_account t = a \<and> in_month y m (transaction_date t)) (txns d)"

definition mock_month_summary :: "txn list \<Rightarrow> db \<Rightarrow> mock_summary option" where
  "mock_month_summary ts d =
     (if ts = [] then None
      else Some \<lparr>mk_income = flt (inflow ts), mk_expense = flt (spend ts), mk_net = flt (dec (inflow ts - spend ts)),
        mk_by_category = map (\<lambda>(k, x). (k, flt x)) (group_totals (\<lambda>t. category_name d (the (txn_category t))) amount
          (filter (\<lambda>t. txn_category t \<noteq> None) ts))\<rparr>)"

text \<open>The merchant seen most often, if at least twice: its name and average amount.\<close>

definition mock_recurring :: "txn list \<Rightarrow> (string \<times> rat) option" where
  "mock_recurring ts =
     (let named = filter (\<lambda>t. merchant_raw t \<noteq> None) ts;
          seen = (\<lambda>m. length (filter (\<lambda>t. merchant_raw t = m) named));
          repeated = filter (\<lambda>m. 2 \<le> seen m) (remdups (map merchant_raw named))
      in case sort_key (\<lambda>m. - int (seen m)) repeated of
           [] \<Rightarrow> None
         | m # ms \<Rightarrow> Some (the m, flt (dec (sum_of amount (\<lambda>t. merchant_raw t = m) named / of_nat (seen m)))))"

text \<open>The largest outflow of the month.\<close>

definition largest_debit :: "txn list \<Rightarrow> txn option" where
  "largest_debit ts = (case sort_key (\<lambda>t. - amount t) (filter (has_type [''debit'', ''fee'']) ts) of [] \<Rightarrow> None | t # _ \<Rightarrow> Some t)"

definition mock_anomalies :: "string \<Rightarrow> txn list \<Rightarrow> db \<Rightarrow> found_anomaly list" where
  "mock_anomalies label ts d =
     (case largest_debit ts of
        None \<Rightarrow> []
      | Some t \<Rightarrow> [\<lparr>fd_category = Some (case txn_category t of None \<Rightarrow> ''other'' | Some k \<Rightarrow> category_name d k),
          fd_month = Some label, fd_amount = Some (decimal_of_float (flt (amount t))),
          fd_reason = ''Amount is outside the IQR-based expected range for this category.''\<rparr>])"

text \<open>\<open>month.split("-")\<close> into two integers; anything else raises.\<close>

definition mock_run_post_ingestion_analysis ::
  "uuid \<Rightarrow> uuid \<Rightarrow> string \<Rightarrow> db \<Rightarrow> (mock_summary option \<times> (string \<times> rat) option \<times> found_anomaly list) option" where
  "mock_run_post_ingestion_analysis u a label d =
     (case map py_int (split_on CHR ''-'' label) of
        [Some y, Some m] \<Rightarrow> (let ts = account_month u a y m d in
          Some (mock_month_summary ts d, mock_recurring ts, mock_anomalies label ts d))
      | _ \<Rightarrow> None)"

subsection \<open>The mock: the plan questionnaire\<close>

definition mock_plan_questions :: "(string \<times> string) list" where
  "mock_plan_questions =
     [(''housing_cost'', ''What is your average monthly housing cost?''),
      (''transportation_cost'', ''What is your average monthly transportation cost?''),
      (''savings_goal'', ''Do you have a specific monthly savings goal?'')]"

definition mock_plan_allocations :: "(string \<times> string) list" where
  "mock_plan_allocations = [(''housing'', ''30.0''), (''food'', ''15.0''), (''transport'', ''10.0''),
     (''savings'', ''20.0''), (''lifestyle'', ''15.0''), (''other'', ''10.0'')]"

definition mock_next_plan_question :: "nat \<Rightarrow> (string \<times> string) option" where
  "mock_next_plan_question asked = (if length mock_plan_questions \<le> asked then None else Some (mock_plan_questions ! asked))"

subsection \<open>The client in use\<close>

text \<open>\<open>get_client\<close>, by the setting \<open>USE_MOCK_AI_SERVICE\<close>, for the chat.\<close>

definition get_chat_client :: "bool \<Rightarrow> ((string \<times> rat) list option \<Rightarrow> payload) \<Rightarrow> db \<Rightarrow> (string \<Rightarrow> string + envelope) \<Rightarrow>
  (uuid \<Rightarrow> uuid \<Rightarrow> string \<Rightarrow> string + frame list) \<Rightarrow> chat_client" where
  "get_chat_client use_mock payload_of d decode service =
     (if use_mock then mock_stream_chat payload_of d else http_stream decode service)"

end
