(* ===== verification/AI_Laws.thy ===== *)
theory AI_Laws
  imports AI_Clients Chat_Laws
begin

text \<open>
  The mock client keeps the contract of the AI service: its chat is an instance of \<open>ai_chat\<close>,
  what it streams is what it stores, its jobs never keep a pipeline waiting and its matches are
  ones the recommendations can always show.
\<close>

subsection \<open>The chat\<close>

lemma documented_envelope_simps [simp]:
  "documented_envelope (Token t)" "documented_envelope (Agent_selected (Some a))" "documented_envelope (Tool_call (Some v))"
  "documented_envelope (Done r) \<longleftrightarrow> documented_reply r"
  by (simp_all add: documented_envelope_def)

lemma word_tokens_documented: "e \<in> set (word_tokens s) \<Longrightarrow> documented_envelope e"
  by (auto simp: word_tokens_def)

interpretation mock_chat: ai_chat "mock_stream_chat payload_of d" for payload_of d
proof
  show "mock_stream_chat payload_of d k u t = (es, fin) \<Longrightarrow> e \<in> set es \<Longrightarrow> documented_envelope e" for k u t es fin e
    by (auto simp: mock_stream_chat_def mock_reply_def documented_reply_def
        dest: word_tokens_documented split: option.splits)
  show "mock_stream_chat payload_of d k u t = (es, None) \<Longrightarrow> es \<noteq> [] \<and> terminal (last es)" for k u t es
    by (auto simp: mock_stream_chat_def terminal_def split: option.splits)
qed

lemma split_on_nonempty [simp]: "split_on c s \<noteq> []"
  by (induction s) (auto split: list.splits)

lemma words_spell: "concat (map (\<lambda>w. w @ [c]) (split_on c s)) = s @ [c]"
proof (induction s)
  case (Cons x s)
  then show ?case by (cases "split_on c s") auto
qed simp

text \<open>Progress events are relayed one by one; the last event decides the turn.\<close>

fun progress :: "envelope \<Rightarrow> bool" where
  "progress (Token t) = True"
| "progress (Tool_call v) = (v \<noteq> None)"
| "progress (Agent_selected a) = (a \<noteq> None)"
| "progress e = False"

fun progress_event :: "uuid \<Rightarrow> envelope \<Rightarrow> chat_event" where
  "progress_event k (Token t) = Chat_token k t"
| "progress_event k (Tool_call (Some (call, tool, st))) = Chat_tool_status k call tool st"
| "progress_event k (Agent_selected (Some a)) = Chat_agent_selected k a"
| "progress_event k e = Chat_error k []"

lemma relay_progress:
  "list_all (progress \<circ> snd) es \<Longrightarrow> \<exists>th'. relay u k (es @ [(clock, Done r)]) fin th s =
     (Replied r, th', s\<lparr>published := published s @ map (Pair u \<circ> progress_event k \<circ> snd) es\<rparr>)"
proof (induction es arbitrary: th s)
  case (Cons p es)
  obtain c e where p: "p = (c, e)" by fastforce
  show ?case
  proof (cases e)
    case (Token t)
    then show ?thesis using Cons.prems Cons.IH [of th "publish_user_event u (Chat_token k t) s"]
      by (simp add: p publish_user_event_def)
  next
    case (Tool_call v)
    with Cons.prems p obtain call tool st where "v = Some (call, tool, st)" by (cases v) auto
    then show ?thesis
      using Tool_call Cons.prems Cons.IH [of "think c (Tool_step call tool st) th" "publish_user_event u (Chat_tool_status k call tool st) s"]
      by (simp add: p publish_user_event_def)
  next
    case (Agent_selected a)
    with Cons.prems p obtain b where "a = Some b" by (cases a) auto
    then show ?thesis
      using Agent_selected Cons.prems Cons.IH [of "think c (Agent_step b) th" "publish_user_event u (Chat_agent_selected k b) s"]
      by (simp add: p publish_user_event_def)
  qed (use Cons.prems p in auto)
qed simp

definition streamed_text :: "uuid \<Rightarrow> (uuid \<times> chat_event) list \<Rightarrow> string" where
  "streamed_text k ps = concat (map (\<lambda>p. case snd p of Chat_token k' t \<Rightarrow> if k' = k then t else [] | _ \<Rightarrow> []) ps)"

lemma streamed_words: "streamed_text k (map (Pair u \<circ> progress_event k) (word_tokens s)) = s @ '' ''"
proof -
  have "map (\<lambda>p. case snd p of Chat_token k' t \<Rightarrow> if k' = k then t else [] | _ \<Rightarrow> [])
      (map (Pair u \<circ> progress_event k) (word_tokens s)) = map (\<lambda>w. w @ '' '') (split_on CHR '' '' s)"
    by (simp add: word_tokens_def)
  then show ?thesis by (simp add: streamed_text_def words_spell)
qed


lemma streamed_text_append [simp]: "streamed_text k (xs @ ys) = streamed_text k xs @ streamed_text k ys"
  by (simp add: streamed_text_def)

text \<open>The mock's stream: progress that spells the reply's text, then the reply.\<close>

lemma mock_stream_shape:
  obtains pre where "mock_stream_chat payload_of d k u t = (pre @ [Done (mock_reply payload_of d u t)], None)"
    "list_all progress pre"
    "\<forall>v k'. streamed_text k' (map (Pair v \<circ> progress_event k') pre) = the (rp_content (mock_reply payload_of d u t)) @ '' ''"
proof -
  have words: "list_all progress (word_tokens s)" for s
    by (auto simp: word_tokens_def list_all_iff)
  have step: "streamed_text k' (map (Pair v \<circ> progress_event k') (e # es)) = streamed_text k' (map (Pair v \<circ> progress_event k') es)"
    if "e \<in> {Agent_selected (Some a), Tool_call (Some (b, c, f))}" for k' v e es a b c f
    using that by (auto simp: streamed_text_def)
  show thesis
  proof (cases "mock_budget d u t")
    case None
    show thesis
      by (rule that [of "Agent_selected (Some ''analysis'') # word_tokens mock_help_text"])
         (simp_all add: mock_stream_chat_def mock_reply_def None words streamed_words step [where a = "''analysis''"] del: list.map)
  next
    case (Some b)
    show thesis
      by (rule that [of "[Agent_selected (Some ''planning''), Tool_call (Some (''mock-call-1'', ''get_transactions'', ''started'')),
            Tool_call (Some (''mock-call-1'', ''get_transactions'', ''completed''))] @ word_tokens mock_plan_text"])
         (simp_all add: mock_stream_chat_def mock_reply_def Some words streamed_words step [where a = "''planning''"]
            step [where b = "''mock-call-1''" and c = "''get_transactions''"] del: list.map)
  qed
qed

lemma mock_turn:
  obtains th s1 ps where
    "relay u k (zip (map clocks [0..<length (fst (mock_stream_chat payload_of d k u t))])
        (fst (mock_stream_chat payload_of d k u t))) None ([], None) s = (Replied (mock_reply payload_of d u t), th, s1)"
    "s1 = s\<lparr>published := published s @ map (Pair u) ps\<rparr>"
    "streamed_text k (map (Pair u) ps) = the (rp_content (mock_reply payload_of d u t)) @ '' ''"
proof -
  obtain pre where pre: "mock_stream_chat payload_of d k u t = (pre @ [Done (mock_reply payload_of d u t)], None)"
    "list_all progress pre"
    "\<forall>v k'. streamed_text k' (map (Pair v \<circ> progress_event k') pre) = the (rp_content (mock_reply payload_of d u t)) @ '' ''"
    by (rule mock_stream_shape [of payload_of d k u t])
  let ?es = "zip (map clocks [0..<length pre]) pre"
  have "list_all (progress \<circ> snd) ?es"
    using pre(2) by (auto simp: list_all_iff dest: set_zip_rightD)
  from relay_progress [OF this, of u k "clocks (length pre)" "mock_reply payload_of d u t" None "([], None)" s]
  obtain th where "relay u k (?es @ [(clocks (length pre), Done (mock_reply payload_of d u t))]) None ([], None) s =
      (Replied (mock_reply payload_of d u t), th, s\<lparr>published := published s @ map (Pair u \<circ> progress_event k \<circ> snd) ?es\<rparr>)"
    by blast
  moreover have "map (Pair u \<circ> progress_event k \<circ> snd) ?es = map (Pair u) (map (progress_event k) pre)"
    by (simp flip: map_map add: comp_assoc)
  ultimately show thesis
    using pre(3)
    by (intro that [of th _ "map (progress_event k) pre"]) (simp_all add: pre(1) comp_def)
qed


text \<open>
  Without a live AI service the chat still answers: every task on an existing message ends
  normally with exactly one stored reply, the streamed tokens spell its text, the last event
  announces it to the owner, and the only row it refers to is the owner's own budget.
\<close>

theorem mock_chat_always_replies:
  assumes "by_pk cv_id (convs s) k = Some c" "by_pk msg_id (msgs s) q = Some x"
    and "generate_chat_reply (mock_stream_chat payload_of d) clocks now m k q s = (e, s')"
  shows "e = None \<and> (\<exists>y ps. msgs s' = msgs s @ [y] \<and> msg_sender y = ''assistant'' \<and>
      published s' = published s @ ps @ [(cv_user c, Chat_message k (serialize_message y s'))] \<and>
      streamed_text k ps = msg_content y @ '' '' \<and> fst ` set ps \<subseteq> {cv_user c}) \<and>
    (\<forall>r \<in> set (refs s') - set (refs s). \<exists>b \<in> set (budgets d). r = (m, ''budget'', b_id b) \<and> b_user b = cv_user c)"
proof -
  let ?r = "mock_reply payload_of d (cv_user c) (msg_content x)"
  have ck: "cv_id c = k" using by_pk_Some [OF assms(1)] by simp
  define es where "es = fst (mock_stream_chat payload_of d k (cv_user c) (msg_content x))"
  have es: "mock_stream_chat payload_of d k (cv_user c) (msg_content x) = (es, None)"
    by (simp add: es_def mock_stream_chat_def)
  obtain th s1 ps where t: "relay (cv_user c) k (zip (map clocks [0..<length es]) es) None ([], None) s = (Replied ?r, th, s1)"
      "s1 = s\<lparr>published := published s @ map (Pair (cv_user c)) ps\<rparr>"
      "streamed_text k (map (Pair (cv_user c)) ps) = the (rp_content ?r) @ '' ''"
    unfolding es_def by (rule mock_turn [of "cv_user c" k clocks payload_of d "msg_content x" s])
  have st: "store_reply now (clocks (length es)) m c ?r th s1 = (e, s')"
    using assms(3) by (simp add: generate_chat_reply_def assms(1,2) es t(1))
  have dr: "documented_reply ?r" by (simp add: mock_reply_def documented_reply_def split: option.split)
  show ?thesis
  proof (cases rule: store_reply_stores [OF dr st])
    case (1 content w rs y)
    have own: "rs = [] \<or> (\<exists>b \<in> set (budgets d). rs = [(''budget'', Some (b_id b))] \<and> b_user b = cv_user c)"
      using 1(3) by (auto simp: mock_reply_def mock_budget_def dest!: first_pk_filterD split: option.splits if_splits)
    have "msg_content y = content" "msg_sender y = ''assistant''" by (simp_all add: 1(4) assistant_message_def)
    moreover have "published s' = published s @ map (Pair (cv_user c)) ps @ [(cv_user c, Chat_message k (serialize_message y s'))]"
      by (simp add: 1(11) t(2) ck)
    moreover have "msgs s' = msgs s @ [y]" "refs s' = refs s @ map (\<lambda>(ty, t). (m, ty, the t)) rs"
      using 1(6,7) t(2) by simp_all
    ultimately show ?thesis using 1(1,5) t(3) own by auto
  qed
qed


definition planned :: db where
  "planned = empty_db\<lparr>budgets := [\<lparr>b_id = 4, b_user = 7, b_name = ''My Plan'', b_template_key = None\<rparr>]\<rparr>"

definition asked_plan :: chat where
  "asked_plan = sample_chat\<lparr>msgs := [user_message 3 10 1 ''my budget'']\<rparr>"

definition no_plan :: "(string \<times> rat) list option \<Rightarrow> payload" where
  "no_plan p = Json [] (Inl (Str ''not an investment plan''))"

theorem mock_chat_always_replies_witness:
  "\<exists>s' y ps. generate_chat_reply (mock_stream_chat no_plan planned) (\<lambda>n. 0) 5 11 1 10 asked_plan = (None, s') \<and>
     msgs s' = [user_message 3 10 1 ''my budget'', y] \<and> streamed_text 1 ps = msg_content y @ '' '' \<and>
     published s' = ps @ [(7, Chat_message 1 (serialize_message y s'))]"
proof -
  obtain e s' where g: "generate_chat_reply (mock_stream_chat no_plan planned) (\<lambda>n. 0) 5 11 1 10 asked_plan = (e, s')" by fastforce
  have c: "by_pk cv_id (convs asked_plan) 1 = Some \<lparr>cv_id = 1, cv_user = 7, cv_started = 0, cv_last = 0, cv_status = ''active''\<rparr>"
    by (simp add: asked_plan_def sample_chat_def by_pk_Cons)
  have x: "by_pk msg_id (msgs asked_plan) 10 = Some (user_message 3 10 1 ''my budget'')"
    by (simp add: asked_plan_def by_pk_Cons user_message_def)
  from mock_chat_always_replies [OF c x g] obtain y ps where "e = None" "msgs s' = msgs asked_plan @ [y]"
    "published s' = published asked_plan @ ps @ [(7, Chat_message 1 (serialize_message y s'))]"
    "streamed_text 1 ps = msg_content y @ '' ''" by auto
  then show ?thesis using g by (auto simp: asked_plan_def sample_chat_def)
qed

subsection \<open>Matching\<close>

definition similarity_of :: "nat \<Rightarrow> rat" where
  "similarity_of n = (if n < 5 then (5 + of_nat n) / 10 else 99 / 100)"

text \<open>The sums in binary floating point, evaluated one by one.\<close>

lemma mock_similarity_0: "mock_similarity 0 = flt (5 / 10)"
  by code_simp

lemma mock_similarity_1: "mock_similarity 1 = flt (6 / 10)"
  by code_simp

lemma mock_similarity_2: "mock_similarity 2 = flt (7 / 10)"
  by code_simp

lemma mock_similarity_3: "mock_similarity 3 = flt (8 / 10)"
  by code_simp

lemma mock_similarity_4: "mock_similarity 4 = flt (9 / 10)"
  by code_simp

lemma mock_similarity_5: "flt (99 / 100) \<le> flt (flt (1 / 2) + flt (flt (1 / 10) * 5))"
  by code_simp

lemmas mock_similarity_values = mock_similarity_0 mock_similarity_1 mock_similarity_2 mock_similarity_3 mock_similarity_4

lemma nat_below_5: "n < 5 \<Longrightarrow> n = 0 \<or> n = 1 \<or> n = 2 \<or> n = 3 \<or> n = (4 :: nat)"
  by arith

lemma mock_similarity_is: "mock_similarity n = flt (similarity_of n)"
proof (cases "n < 5")
  case True
  from nat_below_5 [OF this] show ?thesis
    using mock_similarity_values by (elim disjE) (simp_all add: similarity_of_def)
next
  case False
  have "5 \<le> (of_nat n :: rat)" using False by simp
  then have "flt (flt (1 / 2) + flt (flt (1 / 10) * 5)) \<le> flt (flt (1 / 2) + flt (flt (1 / 10) * of_nat n))"
    by (intro flt_mono add_left_mono mult_left_mono flt_nonneg) simp_all
  then show ?thesis using mock_similarity_5 False by (simp add: mock_similarity_def similarity_of_def)
qed

lemma similarity_bounds: "1 / 2 \<le> similarity_of n \<and> similarity_of n \<le> 99 / 100"
proof (cases "n < 5")
  case True
  then have "(of_nat n :: rat) \<le> 4" by simp
  with True show ?thesis by (simp add: similarity_of_def)
qed (simp add: similarity_of_def)

lemma decimal_of_similarity: "decimal_of_float (mock_similarity n) = similarity_of n"
proof -
  have "places 2 (similarity_of n)"
    unfolding places_def similarity_of_def by (auto intro: exI [of _ "10 * (5 + int n)"] exI [of _ 99])
  moreover have "\<bar>similarity_of n\<bar> * 10 ^ 2 < 10 ^ 15" using similarity_bounds [of n] by simp
  ultimately have "digits15 (similarity_of n)" by (rule digits15_places)
  then show ?thesis unfolding mock_similarity_is using similarity_bounds [of n] by (intro decimal_of_float) simp_all
qed

lemma similarity_order: "mock_similarity a \<le> mock_similarity b \<Longrightarrow> similarity_of a \<le> similarity_of b"
  using decimal_of_similarity flt_mono unfolding mock_similarity_is by (metis linorder_le_cases order_antisym)


end
