(* ===== verification/Matching_Laws.thy ===== *)
theory Matching_Laws
  imports AI_Laws Feedback_Laws Statement_Laws
begin

text \<open>
  The mock client behind the recommendations and the statement pipeline: what it matches can
  always be shown, in its ranking, and a pipeline it serves never waits for a job.
\<close>

subsection \<open>Recommendations\<close>

lemma show_matches_fits:
  assumes "\<forall>m \<in> set ms. \<bar>quantize_hu 4 (ma_similarity m)\<bar> < 10"
  shows "\<exists>rs. fst (show_matches now ids u q ps ms s) = Inr rs"
  using assms
proof (induction ms arbitrary: ids s)
  case (Cons m ms)
  show ?case
  proof (cases "List.find (\<lambda>p. uuid_str (pr_id p) = ma_product m) ps")
    case None
    with Cons show ?thesis by simp
  next
    case (Some p)
    define s1 where "s1 = s\<lparr>logs := logs s @ [\<lparr>lo_id = ids 0, lo_user = u, lo_product = pr_id p, lo_query = q,
        lo_similarity = quantize_hu 4 (ma_similarity m), lo_shown = now\<rparr>]\<rparr>"
    have "\<forall>m \<in> set ms. \<bar>quantize_hu 4 (ma_similarity m)\<bar> < 10" using Cons.prems by simp
    from Cons.IH [OF this] obtain rs where "fst (show_matches now (ids \<circ> Suc) u q ps ms s1) = Inr rs" by blast
    then obtain s2 where "show_matches now (ids \<circ> Suc) u q ps ms s1 = (Inr rs, s2)" by (metis eq_fst_iff)
    then show ?thesis using Some Cons.prems by (simp add: s1_def not_le)
  qed
qed simp

lemma take_sort_sorted: "sorted_wrt (\<lambda>a b. f b \<le> f a) (take k (sort_key (\<lambda>x. - (f x :: rat)) xs))"
proof -
  have "sorted (map (\<lambda>x. - f x) (sort_key (\<lambda>x. - f x) xs))" by simp
  then have "sorted_wrt (\<lambda>a b. f b \<le> f a) (sort_key (\<lambda>x. - f x) xs)" by (simp add: sorted_map)
  then show ?thesis by (rule sorted_wrt_take)
qed

text \<open>What the mock matches: live products, with a similarity between a half and 0.99, best first.\<close>

lemma similarity_column: "\<bar>quantize_hu 4 (similarity_of n)\<bar> < 10"
proof -
  define x where "x = similarity_of n * 10 ^ 4"
  have "0 \<le> x" "x + 1 / 2 < 10 ^ 4" using similarity_bounds [of n] by (simp_all add: x_def)
  then have "0 \<le> rhu x" "rhu x < 10 ^ 4" by (simp_all add: rhu_def floor_less_iff)
  then have "0 \<le> (of_int (rhu x) :: rat)" "(of_int (rhu x) :: rat) < 10000"
    using of_int_less_iff [of "rhu x" "10 ^ 4", where 'a = rat] by simp_all
  moreover have "quantize_hu 4 (similarity_of n) = of_int (rhu x) / 10000" by (simp add: quantize_hu_def x_def)
  ultimately show ?thesis by simp
qed

lemma mock_match_is:
  assumes "m \<in> set (mock_match_recommendations query k ps)"
  obtains p n where "p \<in> set ps" "pr_active p" "ma_product m = uuid_str (pr_id p)" "ma_similarity m = similarity_of n"
proof (cases "query = []")
  case True
  with assms obtain p where "p \<in> set (filter pr_active ps)" "ma_product m = uuid_str (pr_id p)" "ma_similarity m = 1 / 2"
    by (auto simp: mock_match_recommendations_def dest!: in_set_takeD)
  then show thesis using that [of p 0] by (simp add: similarity_of_def)
next
  case False
  with assms obtain p where "p \<in> set ps" "pr_active p" "ma_product m = uuid_str (pr_id p)"
      "ma_similarity m = similarity_of (match_count (words_from [] (str_lower query)) p)"
    by (auto simp: mock_match_recommendations_def Let_def decimal_of_similarity dest!: in_set_takeD)
  then show thesis by (rule that)
qed

lemma mock_match_count: "length (mock_match_recommendations query k ps) \<le> k"
  by (simp add: mock_match_recommendations_def Let_def)

lemma mock_match_ranked: "sorted_wrt (\<lambda>a b. ma_similarity b \<le> ma_similarity a) (mock_match_recommendations query k ps)"
proof (cases "query = []")
  case True
  have "sorted_wrt (\<lambda>a b. ma_similarity b \<le> ma_similarity a) (map (\<lambda>p. \<lparr>ma_product = f p, ma_similarity = x\<rparr>) qs)" for f x qs
    by (induction qs) auto
  then show ?thesis using True by (simp add: mock_match_recommendations_def)
next
  case False
  define terms where "terms = words_from [] (str_lower query)"
  define scored where "scored = map (\<lambda>p. (mock_similarity (match_count terms p), p))
      (filter (\<lambda>p. 0 < match_count terms p) (filter pr_active ps))"
  have "sorted_wrt (\<lambda>a b. fst b \<le> fst a) (take k (sort_key (\<lambda>s. - fst s) scored))" by (rule take_sort_sorted)
  moreover have "\<exists>n. fst a = mock_similarity n" if "a \<in> set (take k (sort_key (\<lambda>s. - fst s) scored))" for a
    using in_set_takeD [OF that] by (auto simp: scored_def)
  ultimately have "sorted_wrt (\<lambda>a b. decimal_of_float (fst b) \<le> decimal_of_float (fst a)) (take k (sort_key (\<lambda>s. - fst s) scored))"
    by (intro sorted_wrt_mono_rel [where Q = "\<lambda>a b. decimal_of_float (fst b) \<le> decimal_of_float (fst a)" and P = "\<lambda>a b. fst b \<le> fst a"])
       (metis decimal_of_similarity similarity_order)
  then show ?thesis
    using False by (simp add: mock_match_recommendations_def Let_def terms_def [symmetric] 
        sorted_wrt_map case_prod_unfold scored_def)
qed

text \<open>
  The recommendations endpoint behind the mock: it never fails, and it shows every match, in the
  matcher's ranking and no more than asked for.
\<close>

definition mock_matcher :: "nat \<Rightarrow> product list \<Rightarrow> string \<Rightarrow> string \<Rightarrow> string + match list" where
  "mock_matcher k ps u query = Inr (mock_match_recommendations query k ps)"

lemma mock_recommendations_shown:
  assumes read: "\<forall>p \<in> set (products s). to_uuid (uuid_str (pr_id p)) = Some (pr_id p)"
  obtains rs s' where "get_recommendations (mock_matcher k (products s)) to_uuid now ids u q s = (Inr rs, s')"
    "length rs \<le> k" "sorted_wrt (\<lambda>a b. b \<le> a) (map rc_similarity rs)" "length (logs s') = length (logs s) + length rs"
proof -
  define query where "query = str_strip (case_option [] id q)"
  define ms where "ms = mock_match_recommendations query k (products s)"
  have shape: "\<exists>p \<in> set (products s). pr_active p \<and> ma_product m = uuid_str (pr_id p)"
      "\<bar>quantize_hu 4 (ma_similarity m)\<bar> < 10" if "m \<in> set ms" for m
    using that similarity_column unfolding ms_def by (auto elim!: mock_match_is)
  have "\<forall>m \<in> set ms. to_uuid (ma_product m) \<noteq> None" using shape(1) read by fastforce
  then obtain ps where ps: "matched_products to_uuid ms (products s) = Inr ps"
    by (auto simp: matched_products_def)
  obtain rs s' where shown: "show_matches now ids u (if query = [] then None else Some query) ps ms s = (Inr rs, s')"
    using show_matches_fits [of ms now ids u _ ps s] shape(2) by (metis prod.collapse)
  have m: "mock_matcher k (products s) (uuid_str u) query = Inr ms" by (simp add: mock_matcher_def ms_def)
  have g: "get_recommendations (mock_matcher k (products s)) to_uuid now ids u q s = (Inr rs, s')"
    using m ps shown by (simp add: get_recommendations_def query_def [symmetric])
  from get_recommendationsD [OF g m [unfolded query_def] read] obtain gs q' where gs:
      "s' = s\<lparr>logs := logs s @ gs\<rparr>" "list_all2 (logged_as now u q' (filter pr_active (products s))) gs rs"
      "map rc_similarity rs = map ma_similarity
        (filter (\<lambda>m. \<exists>p \<in> set (products s). pr_active p \<and> uuid_str (pr_id p) = ma_product m) ms)" by blast
  have "filter (\<lambda>m. \<exists>p \<in> set (products s). pr_active p \<and> uuid_str (pr_id p) = ma_product m) ms = ms"
    using shape(1) by (intro filter_True ballI) metis
  with gs(3) have sim: "map rc_similarity rs = map ma_similarity ms" by simp
  then have "length rs \<le> k" using mock_match_count [of query k "products s"] by (metis length_map ms_def)
  moreover have "sorted_wrt (\<lambda>a b. b \<le> a) (map rc_similarity rs)"
    using mock_match_ranked [of query k "products s"] by (simp add: sim ms_def sorted_wrt_map)
  ultimately show thesis using that g gs(1) list_all2_lengthD [OF gs(2)] by simp
qed

subsection \<open>Jobs\<close>

text \<open>A client whose jobs are over when they are polled: a run of the task never asks for another.\<close>

definition immediate :: "ai_client \<Rightarrow> bool" where
  "immediate ai \<longleftrightarrow> (\<forall>n j. get_job_status ai n j \<noteq> Inr Job_running)"

lemma mock_job_over: "mock_get_job_status rng today job d \<noteq> Inr Job_running"
  by (auto simp: mock_get_job_status_def Let_def map_sum_def split: list.splits sum.splits)

lemma immediate_loop:
  "fst (pipeline_loop ai now target retries s job poll n d) = Retry_later j q \<Longrightarrow> \<not> immediate ai"
proof (induction ai now target retries s job poll n d rule: pipeline_loop.induct)
  case (1 ai now target retries s job poll n d)
  from 1(2) show ?case
    by (subst (asm) pipeline_loop.simps)
      (auto simp: fail_and_stop_def fail_phase_def Let_def immediate_def dest: 1(1)
        split: if_splits option.splits prod.splits sum.splits job_state.splits)
qed

lemma immediate_run:
  assumes "immediate ai"
  shows "fst (process_statement_pipeline ai now k target job poll retries n d) = None"
proof -
  have "pipeline_loop ai now target retries s job poll n d \<noteq> (Retry_later j q, rest)" for s j q rest
    using immediate_loop [of ai now target retries s job poll n d j q] assms by auto
  then show ?thesis
    by (auto simp: process_statement_pipeline_def split: option.splits prod.splits tick_end.splits)
qed

end
