(* ===== verification/Event_Bus.thy ===== *)
theory Event_Bus
  imports Sessions Conversations
begin

text \<open>
  The event stream of a user: Redis pub/sub behind \<open>publish_user_event\<close> and the generator
  \<open>stream_user_events\<close> (services/event_bus.py) that GET /events/stream serves
  (core/views/events.py) to whoever redeems a ticket. An event reaches the connections that
  listen when it is published and no other: nothing is replayed. The JSON module is an argument,
  and one turn of the generator's loop is one step.
\<close>

subsection \<open>Channels and connections\<close>

definition channel :: "uuid \<Rightarrow> string" where
  "channel u = ''sse:user:'' @ uuid_str u"

text \<open>An event is its type with the JSON value of its data.\<close>

record 'v json_module =
  dumps_event :: "string \<times> 'v \<Rightarrow> string"
  dumps_data :: "'v \<Rightarrow> string"
  loads_event :: "string \<Rightarrow> (string \<times> 'v) option"

text \<open>What \<open>get_message\<close> hands over: a confirmation, or a message with its data.\<close>

datatype pubsub_message = Subscribed | Message string

text \<open>
  A generator subscribes when the server asks it for the first chunk, not when the view returns
  it; it ends with the client's connection or with an exception.
\<close>

datatype stream_phase = Waiting | Listening | Ended

record listener =
  cx_user :: uuid
  cx_phase :: stream_phase
  cx_inbox :: "pubsub_message list"
  cx_sent :: "string list"

record hub =
  gate :: sessions
  conns :: "listener list"

subsection \<open>Publishing\<close>

definition deliver :: "string \<Rightarrow> string \<Rightarrow> listener \<Rightarrow> listener" where
  "deliver c text x =
     (if cx_phase x = Listening \<and> channel (cx_user x) = c then x\<lparr>cx_inbox := cx_inbox x @ [Message text]\<rparr> else x)"

definition publish_event :: "'v json_module \<Rightarrow> uuid \<Rightarrow> string \<Rightarrow> 'v \<Rightarrow> hub \<Rightarrow> hub" where
  "publish_event js u ev v h = h\<lparr>conns := map (deliver (channel u) (dumps_event js (ev, v))) (conns h)\<rparr>"

subsection \<open>Streaming\<close>

definition line_feed :: string where
  "line_feed = [CHR 0x0A]"

definition connected_comment :: string where
  "connected_comment = '': connected'' @ line_feed @ line_feed"

definition heartbeat_comment :: string where
  "heartbeat_comment = '': heartbeat'' @ line_feed @ line_feed"

definition event_frame :: "'v json_module \<Rightarrow> string \<times> 'v \<Rightarrow> string" where
  "event_frame js e = ''event: '' @ fst e @ line_feed @ ''data: '' @ dumps_data js (snd e) @ line_feed @ line_feed"

text \<open>The generator up to its first chunk, then one turn of the loop at a time.\<close>

definition next_chunk :: "'v json_module \<Rightarrow> listener \<Rightarrow> listener" where
  "next_chunk js x =
     (case cx_phase x of
        Waiting \<Rightarrow> x\<lparr>cx_phase := Listening, cx_inbox := [Subscribed], cx_sent := cx_sent x @ [connected_comment]\<rparr>
      | Listening \<Rightarrow>
         (case cx_inbox x of
            [] \<Rightarrow> x\<lparr>cx_sent := cx_sent x @ [heartbeat_comment]\<rparr>
          | Subscribed # ms \<Rightarrow> x\<lparr>cx_inbox := ms\<rparr>
          | Message t # ms \<Rightarrow>
             (case loads_event js t of
                None \<Rightarrow> x\<lparr>cx_phase := Ended, cx_inbox := []\<rparr>
              | Some e \<Rightarrow> x\<lparr>cx_inbox := ms, cx_sent := cx_sent x @ [event_frame js e]\<rparr>))
      | Ended \<Rightarrow> x)"

text \<open>The \<open>finally\<close> of the generator: unsubscribe and close.\<close>

definition close_stream :: "listener \<Rightarrow> listener" where
  "close_stream x = x\<lparr>cx_phase := Ended, cx_inbox := []\<rparr>"

text \<open>GET /events/stream. Without a ticket the default permission refuses the request.\<close>

definition open_stream :: "int \<Rightarrow> string option \<Rightarrow> hub \<Rightarrow> (exc + unit) \<times> hub" where
  "open_stream now given h =
     (case authenticate_sse now given (gate h) of
        (Inl e, s) \<Rightarrow> (Inl e, h\<lparr>gate := s\<rparr>)
      | (Inr None, s) \<Rightarrow>
          (Inl (APIException 401 ''not_authenticated'' (Str ''Authentication credentials were not provided.'')), h\<lparr>gate := s\<rparr>)
      | (Inr (Some u), s) \<Rightarrow>
          (Inr (), \<lparr>gate = s, conns = conns h @ [\<lparr>cx_user = user_id u, cx_phase = Waiting, cx_inbox = [], cx_sent = []\<rparr>]\<rparr>))"

subsection \<open>Everything that happens to the hub\<close>

datatype 'v hub_op =
    Publish uuid string 'v
  | Open_stream int "string option"
  | Next nat
  | Disconnect nat
  | Mint int string user

definition on_connection :: "nat \<Rightarrow> (listener \<Rightarrow> listener) \<Rightarrow> hub \<Rightarrow> hub" where
  "on_connection n f h = (if n < length (conns h) then h\<lparr>conns := (conns h)[n := f (conns h ! n)]\<rparr> else h)"

fun hub_step :: "'v json_module \<Rightarrow> 'v hub_op \<Rightarrow> hub \<Rightarrow> hub" where
  "hub_step js (Publish u ev v) h = publish_event js u ev v h"
| "hub_step js (Open_stream now t) h = snd (open_stream now t h)"
| "hub_step js (Next n) h = on_connection n (next_chunk js) h"
| "hub_step js (Disconnect n) h = on_connection n close_stream h"
| "hub_step js (Mint now t u) h = h\<lparr>gate := snd (mint_sse_ticket now t u (gate h))\<rparr>"

subsection \<open>The chat's events\<close>

text \<open>The names under which the task of core/tasks/conversations.py publishes.\<close>

fun event_type :: "chat_event \<Rightarrow> string" where
  "event_type (Chat_token k t) = ''chat_token''"
| "event_type (Chat_tool_status k call tool st) = ''chat_tool_status''"
| "event_type (Chat_agent_selected k a) = ''chat_agent_selected''"
| "event_type (Chat_message k m) = ''chat_message''"
| "event_type (Chat_error k m) = ''chat_error''"

definition publish_chat :: "(uuid \<times> chat_event) list \<Rightarrow> chat_event hub_op list" where
  "publish_chat ps = map (\<lambda>(u, e). Publish u (event_type e) e) ps"

end
