(* ===== verification/Event_Laws.thy ===== *)
theory Event_Laws
  imports Event_Bus Bank_Link Chat_Laws Session_Laws
begin

text \<open>
  What an open event stream carries: the events published to its user from its first chunk to
  its end, each once, in order, and nothing else.
\<close>

subsection \<open>Channels\<close>

lemma channel_eq:
  assumes "u < 16 ^ 32" "v < 16 ^ 32"
  shows "channel u = channel v \<longleftrightarrow> u = v"
proof
  assume "channel u = channel v"
  then have "parse_uuid (uuid_str u) = parse_uuid (uuid_str v)" by (simp add: channel_def)
  then show "u = v" using assms by (simp add: parse_uuid_str)
qed simp

definition hub_run :: "'v json_module \<Rightarrow> 'v hub_op list \<Rightarrow> hub \<Rightarrow> hub" where
  "hub_run js ops h = fold (hub_step js) ops h"

lemma hub_run_simps [simp]:
  "hub_run js [] h = h" "hub_run js (op # ops) h = hub_run js ops (hub_step js op h)"
  "hub_run js (ops @ ops') h = hub_run js ops' (hub_run js ops h)"
  by (simp_all add: hub_run_def)

subsection \<open>One connection in a history\<close>

text \<open>The history as one connection sees it: its phase, and the events it hears.\<close>

fun phase_after :: "nat \<Rightarrow> 'v hub_op \<Rightarrow> stream_phase \<Rightarrow> stream_phase" where
  "phase_after n (Next m) p = (if m = n \<and> p = Waiting then Listening else p)"
| "phase_after n (Disconnect m) p = (if m = n then Ended else p)"
| "phase_after n op p = p"

fun heard_now :: "uuid \<Rightarrow> stream_phase \<Rightarrow> 'v hub_op \<Rightarrow> (string \<times> 'v) list" where
  "heard_now u p (Publish v ev x) = (if p = Listening \<and> v = u then [(ev, x)] else [])"
| "heard_now u p op = []"

fun heard :: "nat \<Rightarrow> uuid \<Rightarrow> stream_phase \<Rightarrow> 'v hub_op list \<Rightarrow> (string \<times> 'v) list" where
  "heard n u p [] = []"
| "heard n u p (op # ops) = heard_now u p op @ heard n u (phase_after n op p) ops"

text \<open>What has gone out of the events, and what waits in the subscription.\<close>

definition event_chunks :: "listener \<Rightarrow> string list" where
  "event_chunks x = filter (\<lambda>c. take 1 c \<noteq> '':'') (cx_sent x)"

definition queued_chunks :: "'v json_module \<Rightarrow> listener \<Rightarrow> string list" where
  "queued_chunks js x = concat (map (\<lambda>m. case m of Subscribed \<Rightarrow> [] | Message t \<Rightarrow>
     (case loads_event js t of None \<Rightarrow> [] | Some e \<Rightarrow> [event_frame js e])) (cx_inbox x))"

definition json_ok :: "'v json_module \<Rightarrow> bool" where
  "json_ok js \<longleftrightarrow> (\<forall>e. loads_event js (dumps_event js e) = Some e)"

text \<open>A connection hears only while it listens, and what it was handed can be read.\<close>

fun readable :: "'v json_module \<Rightarrow> pubsub_message \<Rightarrow> bool" where
  "readable js Subscribed = True"
| "readable js (Message t) = (loads_event js t \<noteq> None)"

definition listener_ok :: "'v json_module \<Rightarrow> listener \<Rightarrow> bool" where
  "listener_ok js x \<longleftrightarrow> cx_user x < 16 ^ 32 \<and> (cx_phase x \<noteq> Listening \<longrightarrow> cx_inbox x = []) \<and>
     list_all (readable js) (cx_inbox x)"

fun proper_op :: "'v hub_op \<Rightarrow> bool" where
  "proper_op (Publish v ev x) = (v < 16 ^ 32)"
| "proper_op op = True"

lemma chunk_simps [simp]:
  "take (Suc 0) connected_comment = '':''" "take (Suc 0) heartbeat_comment = '':''"
  "take (Suc 0) (event_frame js e) = ''e''"
  by (simp_all add: connected_comment_def heartbeat_comment_def event_frame_def)

lemma open_stream_conns: "\<exists>xs. conns (snd (open_stream now t h)) = conns h @ xs"
  by (auto simp: open_stream_def split: sum.splits option.splits prod.splits)

lemma hub_step_length: "n < length (conns h) \<Longrightarrow> n < length (conns (hub_step js op h))"
proof (cases op)
  case (Open_stream now t)
  assume "n < length (conns h)"
  with open_stream_conns [of now t h] Open_stream show ?thesis by auto
qed (simp_all add: publish_event_def on_connection_def)

text \<open>One step, seen from one connection: everything is heard exactly once.\<close>

lemma hub_step_one:
  assumes n: "n < length (conns h)" and ok: "listener_ok js (conns h ! n)" "json_ok js" "proper_op op"
  defines "x \<equiv> conns h ! n" and "x' \<equiv> conns (hub_step js op h) ! n"
  shows "cx_user x' = cx_user x \<and> cx_phase x' = phase_after n op (cx_phase x) \<and> listener_ok js x' \<and>
    (\<exists>lost. event_chunks x' @ queued_chunks js x' @ lost = event_chunks x @ queued_chunks js x @ map (event_frame js) (heard_now (cx_user x) (cx_phase x) op) \<and>
      (lost = [] \<or> cx_phase x' = Ended))"
proof (cases op)
  case (Publish v ev y)
  then have "x' = deliver (channel v) (dumps_event js (ev, y)) x" using n by (simp add: x_def x'_def publish_event_def)
  moreover have "channel (cx_user x) = channel v \<longleftrightarrow> cx_user x = v"
    using ok Publish by (intro channel_eq) (simp_all add: listener_ok_def x_def)
  moreover have "loads_event js (dumps_event js (ev, y)) = Some (ev, y)" using ok(2) by (simp add: json_ok_def)
  ultimately show ?thesis
    using ok(1) Publish unfolding x_def [symmetric]
    by (auto simp: deliver_def listener_ok_def queued_chunks_def event_chunks_def)
next
  case (Open_stream now t)
  obtain xs where "conns (hub_step js op h) = conns h @ xs" using Open_stream open_stream_conns [of now t h] by auto
  then have "x' = x" using n by (simp add: x_def x'_def nth_append)
  then show ?thesis using ok(1) Open_stream by (simp add: x_def)
next
  case (Next m)
  show ?thesis
  proof (cases "m = n")
    case False
    then have "x' = x" using Next by (simp add: x_def x'_def on_connection_def)
    then show ?thesis using ok(1) Next False by (simp add: x_def)
  next
    case True
    then have x': "x' = next_chunk js x" using Next n by (simp add: x_def x'_def on_connection_def)
    show ?thesis
      using ok(1) Next True unfolding x' x_def [symmetric]
      by (cases "cx_phase x"; cases "cx_inbox x"; cases "hd (cx_inbox x)")
         (auto simp: next_chunk_def listener_ok_def queued_chunks_def event_chunks_def)
  qed
next
  case (Disconnect m)
  show ?thesis
  proof (cases "m = n")
    case False
    then have "x' = x" using Disconnect by (simp add: x_def x'_def on_connection_def)
    then show ?thesis using ok(1) Disconnect False by (simp add: x_def)
  next
    case True
    then have x': "x' = close_stream x" using Disconnect n by (simp add: x_def x'_def on_connection_def)
    show ?thesis using ok(1) Disconnect True unfolding x' x_def [symmetric]
      by (simp add: close_stream_def listener_ok_def queued_chunks_def event_chunks_def)
  qed
next
  case (Mint now t u)
  then have "x' = x" by (simp add: x_def x'_def)
  then show ?thesis using ok(1) Mint by (simp add: x_def)
qed


lemma phase_after_ended [simp]: "phase_after n op Ended = Ended"
  by (cases op) simp_all

lemma heard_now_ended [simp]: "heard_now u Ended op = []"
  by (cases op) simp_all

lemma ended_stays [simp]: "fold (phase_after n) ops Ended = Ended" "heard n u Ended ops = []"
  by (induction ops) simp_all

lemma queued_ended: "listener_ok js x \<Longrightarrow> cx_phase x \<noteq> Listening \<Longrightarrow> queued_chunks js x = []"
  by (simp add: listener_ok_def queued_chunks_def)

lemma hub_run_one:
  assumes "n < length (conns h)" "listener_ok js (conns h ! n)" "json_ok js" "list_all proper_op ops"
  defines "x \<equiv> conns h ! n" and "x' \<equiv> conns (hub_run js ops h) ! n"
  shows "cx_user x' = cx_user x \<and> cx_phase x' = fold (phase_after n) ops (cx_phase x) \<and> listener_ok js x' \<and>
    (\<exists>lost. event_chunks x' @ queued_chunks js x' @ lost = event_chunks x @ queued_chunks js x @ map (event_frame js) (heard n (cx_user x) (cx_phase x) ops) \<and>
      (lost = [] \<or> cx_phase x' = Ended))"
  using assms(1-4) unfolding x_def x'_def
proof (induction ops arbitrary: h)
  case Nil
  then show ?case by simp
next
  case (Cons op ops)
  define x where "x = conns h ! n"
  define h1 where "h1 = hub_step js op h"
  define x1 where "x1 = conns h1 ! n"
  define x2 where "x2 = conns (hub_run js ops h1) ! n"
  have op: "proper_op op" "list_all proper_op ops" using Cons.prems(4) by simp_all
  from hub_step_one [OF Cons.prems(1-3) op(1), folded h1_def, folded x_def x1_def] obtain lost where
    one: "cx_user x1 = cx_user x" "cx_phase x1 = phase_after n op (cx_phase x)" "listener_ok js x1"
      "event_chunks x1 @ queued_chunks js x1 @ lost = event_chunks x @ queued_chunks js x @ map (event_frame js) (heard_now (cx_user x) (cx_phase x) op)"
      "lost = [] \<or> cx_phase x1 = Ended" by blast
  from Cons.IH [of h1, folded x1_def x2_def, OF hub_step_length [OF Cons.prems(1), of js op, folded h1_def] one(3) Cons.prems(3) op(2)]
  obtain lost' where
    rest: "cx_user x2 = cx_user x1" "cx_phase x2 = fold (phase_after n) ops (cx_phase x1)" "listener_ok js x2"
      "event_chunks x2 @ queued_chunks js x2 @ lost' = event_chunks x1 @ queued_chunks js x1 @ map (event_frame js) (heard n (cx_user x1) (cx_phase x1) ops)"
      "lost' = [] \<or> cx_phase x2 = Ended" by blast
  have "\<exists>l. event_chunks x2 @ queued_chunks js x2 @ l = event_chunks x @ queued_chunks js x @
      map (event_frame js) (heard n (cx_user x) (cx_phase x) (op # ops)) \<and> (l = [] \<or> cx_phase x2 = Ended)"
  proof (cases "lost = []")
    case True
    then have "event_chunks x2 @ queued_chunks js x2 @ lost' = event_chunks x @ queued_chunks js x @
        map (event_frame js) (heard n (cx_user x) (cx_phase x) (op # ops))"
      using one(1,2,4) rest(4) by simp
    then show ?thesis using rest(5) by blast
  next
    case False
    then have e: "cx_phase x1 = Ended" using one(5) by blast
    then have p: "queued_chunks js x1 = []" using one(3) by (simp add: queued_ended)
    have "event_chunks x2 @ queued_chunks js x2 @ lost' = event_chunks x1" using rest(4) e p by simp
    from arg_cong [OF this, of "\<lambda>l. l @ lost"]
    have "event_chunks x2 @ queued_chunks js x2 @ lost' @ lost = event_chunks x1 @ lost" by simp
    also have "\<dots> = event_chunks x @ queued_chunks js x @ map (event_frame js) (heard n (cx_user x) (cx_phase x) (op # ops))"
      using one(2,4) e p by (simp flip: one(2))
    finally have "event_chunks x2 @ queued_chunks js x2 @ lost' @ lost = event_chunks x @ queued_chunks js x @
        map (event_frame js) (heard n (cx_user x) (cx_phase x) (op # ops))" .
    then show ?thesis using rest(2) e by (intro exI [of _ "lost' @ lost"]) simp
  qed
  then show ?case using one rest by (simp add: h1_def x_def [symmetric] x2_def)
qed

text \<open>Asked for as many chunks as it has messages waiting, a connection has sent all of them.\<close>

lemma hub_drain:
  assumes "n < length (conns h)" "listener_ok js (conns h ! n)" "cx_phase (conns h ! n) = Listening"
  shows "\<exists>x. conns (hub_run js (replicate (length (cx_inbox (conns h ! n))) (Next n)) h) ! n = x \<and>
    cx_phase x = Listening \<and> event_chunks x = event_chunks (conns h ! n) @ queued_chunks js (conns h ! n)"
  using assms
proof (induction "cx_inbox (conns h ! n)" arbitrary: h)
  case Nil
  then show ?case using Nil(1) [symmetric] by (simp add: queued_chunks_def)
next
  case (Cons m ms)
  let ?x = "conns h ! n" and ?h = "on_connection n (next_chunk js) h"
  have nx: "conns ?h ! n = next_chunk js ?x" using Cons.prems(1) by (simp add: on_connection_def)
  have step: "cx_inbox (next_chunk js ?x) = ms \<and> cx_phase (next_chunk js ?x) = Listening \<and> listener_ok js (next_chunk js ?x) \<and>
      event_chunks (next_chunk js ?x) @ queued_chunks js (next_chunk js ?x) = event_chunks ?x @ queued_chunks js ?x"
    using Cons.prems(2,3) Cons.hyps(2) [symmetric]
    by (cases m) (auto simp: next_chunk_def listener_ok_def queued_chunks_def event_chunks_def)
  have "n < length (conns ?h)" using Cons.prems(1) by (simp add: on_connection_def)
  from Cons.hyps(1) [of ?h, unfolded nx, OF step [THEN conjunct1, symmetric] this] step show ?case
    by (simp add: Cons.hyps(2) [symmetric])
qed


text \<open>What the view returns is an idle connection of the ticket's user.\<close>

lemma open_streamE:
  assumes "open_stream now given h = (Inr (), h1)"
  obtains t u e where "given = Some t" "u \<in> set (users (base (gate h)))"
    "kv (gate h) (sse_key t) = Some (Text (uuid_str (user_id u)), e)" "now < e" "kv (gate h1) (sse_key t) = None"
    "conns h1 = conns h @ [\<lparr>cx_user = user_id u, cx_phase = Waiting, cx_inbox = [], cx_sent = []\<rparr>]"
proof -
  from assms obtain u s where a: "authenticate_sse now given (gate h) = (Inr (Some u), s)"
      "h1 = \<lparr>gate = s, conns = conns h @ [\<lparr>cx_user = user_id u, cx_phase = Waiting, cx_inbox = [], cx_sent = []\<rparr>]\<rparr>"
    by (auto simp: open_stream_def split: sum.splits option.splits prod.splits)
  then obtain t v r where t: "given = Some t" "redeem_ticket now t (kv (gate h)) = (Some v, r)"
      "row_named user_id (users (base (gate h))) v = Some u" "s = (gate h)\<lparr>kv := r\<rparr>"
    by (auto simp: authenticate_sse_def cookie_value_def split: option.splits if_splits prod.splits)
  have "fst (redeem_ticket now t (kv (gate h))) = Some v" using t(2) by simp
  from redeem_Some(1) [OF this] obtain e where e: "kv (gate h) (sse_key t) = Some (Text v, e)" "now < e" by blast
  have "r (sse_key t) = None" using redeem_redis(1) [of now t "kv (gate h)"] t(2) by simp
  then show thesis
    using that [of t u e] row_named_in [OF t(3)] t(1,4) e a(2) by simp
qed

text \<open>C33. An open event stream carries, in order and once each, the events published to the user of
  its ticket between its first chunk and its end: what has been sent is always an initial part of
  them, and a stream that is still open sends all of them when it is asked for more chunks.
\<close>

theorem stream_follows_history:
  assumes opened: "open_stream now given h = (Inr (), h1)" and json: "json_ok js"
    and ids: "\<forall>u \<in> set (users (base (gate h))). user_id u < 16 ^ 32" "list_all proper_op ops"
  shows "\<exists>t u e. given = Some t \<and> kv (gate h) (sse_key t) = Some (Text (uuid_str u), e) \<and> now < e \<and>
    (let n = length (conns h); x = conns (hub_run js ops h1) ! n;
         all = map (event_frame js) (heard n u Waiting ops)
     in cx_user x = u \<and> (\<exists>rest. event_chunks x @ rest = all) \<and>
        (cx_phase x = Listening \<longrightarrow>
           (\<exists>k. event_chunks (conns (hub_run js (ops @ replicate k (Next n)) h1) ! n) = all)))"
proof -
  from open_streamE [OF opened] obtain t u e where t: "given = Some t" "u \<in> set (users (base (gate h)))"
      "kv (gate h) (sse_key t) = Some (Text (uuid_str (user_id u)), e)" "now < e"
      "conns h1 = conns h @ [\<lparr>cx_user = user_id u, cx_phase = Waiting, cx_inbox = [], cx_sent = []\<rparr>]" by metis
  define n where "n = length (conns h)"
  have n: "n < length (conns h1)" "conns h1 ! n = \<lparr>cx_user = user_id u, cx_phase = Waiting, cx_inbox = [], cx_sent = []\<rparr>"
    using t(5) by (simp_all add: n_def)
  have ok: "listener_ok js (conns h1 ! n)" using ids(1) t(2) by (simp add: n listener_ok_def)
  define x where "x = conns (hub_run js ops h1) ! n"
  from hub_run_one [OF n(1) ok json ids(2), folded x_def] obtain lost where x: "cx_user x = user_id u" "listener_ok js x"
      "event_chunks x @ queued_chunks js x @ lost = map (event_frame js) (heard n (user_id u) Waiting ops)"
      "lost = [] \<or> cx_phase x = Ended"
    by (auto simp: n event_chunks_def queued_chunks_def)
  have "\<exists>k. event_chunks (conns (hub_run js (ops @ replicate k (Next n)) h1) ! n) = map (event_frame js) (heard n (user_id u) Waiting ops)"
    if "cx_phase x = Listening"
  proof -
    have "n < length (conns (hub_run js ops h1))"
      using n(1) by (induction ops arbitrary: h1) (simp_all add: hub_step_length)
    from hub_drain [OF this, folded x_def, OF x(2) that] show ?thesis using x(3,4) that
      by (intro exI [of _ "length (cx_inbox x)"]) auto
  qed
  then show ?thesis
    using t(1,3,4) x(1,3) unfolding Let_def n_def [symmetric] x_def [symmetric]
    by (intro exI [of _ t] exI [of _ "user_id u"] exI [of _ e]) (auto intro: exI [of _ "queued_chunks js x @ lost"])
qed


text \<open>A module for events without data, one ticket, and a stream that misses what came before it.\<close>

definition plain_json :: "unit json_module" where
  "plain_json = \<lparr>dumps_event = fst, dumps_data = \<lambda>_. ''null'', loads_event = \<lambda>t. Some (t, ())\<rparr>"

definition ticketed :: hub where
  "ticketed = \<lparr>gate = \<lparr>base = empty_db\<lparr>users := [\<lparr>user_id = 7, user_name = ''Mona'', user_email = ''mona@nbe.eg'', user_phone = None,
       employment_status = None, income_bracket = None, monthly_income = None, income_steadiness = None, dependents_count = 0,
       user_status = ''active'', email_verified = True, password = None\<rparr>]\<rparr>,
     kv = [sse_key ''t'' \<mapsto> (Text (uuid_str 7), 30)], jwts = \<lparr>outstanding = [], blacklisted = []\<rparr>, admins = [], admin_blacklist = [], mails = []\<rparr>, conns = []\<rparr>"

theorem stream_follows_history_witness:
  "\<exists>h1 k. open_stream 5 (Some ''t'') ticketed = (Inr (), h1) \<and>
     event_chunks (conns (hub_run plain_json ([Publish 7 ''missed'' (), Next 0, Publish 7 ''ping'' (), Publish 8 ''other'' ()] @
       replicate k (Next 0)) h1) ! 0) = [event_frame plain_json (''ping'', ())]"
proof -
  obtain r h1 where o: "open_stream 5 (Some ''t'') ticketed = (r, h1)" by fastforce
  then have r: "r = Inr ()" "conns h1 = [\<lparr>cx_user = 7, cx_phase = Waiting, cx_inbox = [], cx_sent = []\<rparr>]"
    by (auto simp: open_stream_def authenticate_sse_def ticketed_def cookie_value_def redeem_ticket_def redis_getdel_def row_named_def)
  let ?ops = "[Publish 7 ''missed'' (), Next 0, Publish 7 ''ping'' (), Publish 8 ''other'' ()] :: unit hub_op list"
  have js: "json_ok plain_json" by (simp add: json_ok_def plain_json_def)
  have ids: "\<forall>u \<in> set (users (base (gate ticketed))). user_id u < 16 ^ 32" "list_all proper_op ?ops"
    by (simp_all add: ticketed_def)
  have now: "cx_phase (conns (hub_run plain_json ?ops h1) ! 0) = Listening \<and> cx_user (conns (hub_run plain_json ?ops h1) ! 0) = 7"
    by (simp add: publish_event_def on_connection_def r next_chunk_def deliver_def channel_def)
  have n: "length (conns ticketed) = 0" by (simp add: ticketed_def)
  have h: "heard 0 7 Waiting ?ops = [(''ping'', ())]" by simp
  from stream_follows_history [OF o [unfolded r(1)] js ids, unfolded Let_def n] now obtain k where
    "event_chunks (conns (hub_run plain_json (?ops @ replicate k (Next 0)) h1) ! 0) = map (event_frame plain_json) (heard 0 7 Waiting ?ops)"
    by metis
  then have "event_chunks (conns (hub_run plain_json (?ops @ replicate k (Next 0)) h1) ! 0) = [event_frame plain_json (''ping'', ())]"
    unfolding h by simp
  then show ?thesis using o unfolding r(1) by blast
qed

text \<open>The chat's events as the hub delivers them: a listening owner hears each of its own.\<close>

lemma heard_chat: "heard n u Listening (publish_chat ps) = map (\<lambda>p. (event_type (snd p), snd p)) (filter (\<lambda>p. fst p = u) ps)"
  by (induction ps) (auto simp: publish_chat_def)

lemma published_chat_reaches_owner:
  assumes "n < length (conns h)" "listener_ok js (conns h ! n)" "json_ok js" "\<forall>p \<in> set ps. fst p < 16 ^ 32"
    and "cx_phase (conns h ! n) = Listening" "cx_user (conns h ! n) = u"
  shows "event_chunks (conns (hub_run js (publish_chat ps) h) ! n) @ queued_chunks js (conns (hub_run js (publish_chat ps) h) ! n) =
    event_chunks (conns h ! n) @ queued_chunks js (conns h ! n) @
    map (\<lambda>p. event_frame js (event_type (snd p), snd p)) (filter (\<lambda>p. fst p = u) ps)"
proof -
  have ops: "list_all proper_op (publish_chat ps)" using assms(4) by (auto simp: publish_chat_def list_all_iff)
  have "phase_after n op Listening = Listening" if "op \<in> set (publish_chat ps)" for op
    using that by (auto simp: publish_chat_def)
  then have "fold (phase_after n) (publish_chat ps) Listening = Listening"
    by (induction "publish_chat ps" rule: rev_induct) (auto intro: fold_invariant [where Q = "\<lambda>op. op \<in> set (publish_chat ps)"])
  with hub_run_one [OF assms(1-3) ops] show ?thesis by (auto simp: assms(5,6) heard_chat comp_def)
qed

end
