(* ===== verification/Plan_Views.thy ===== *)
theory Plan_Views
  imports Conversations Investment_Laws
begin

text \<open>
  What a client is shown of a saved plan: SavedInvestmentScenarioSerializer of
  core/serializers/investment_scenarios.py behind the list and detail endpoints of
  core/views/investment_scenarios.py. The state shown for an item is the one its endpoints act
  on, and a plan shown as current has quotes young enough for every instrument. The time a
  purchase was recorded is left out, as in the purchase rows.
\<close>

subsection \<open>The state of each item\<close>

record allocation_state =
  as_instrument :: uuid
  as_purchased :: bool
  as_holding :: "uuid option"

text \<open>The dictionary of a plan's purchases by instrument; a later row would win.\<close>

definition purchases_by_instrument :: "uuid \<Rightarrow> portfolio \<Rightarrow> uuid \<Rightarrow> purchase option" where
  "purchases_by_instrument k s i = map_of (rev (map (\<lambda>p. (pu_instrument p, p)) (filter (\<lambda>p. pu_scenario p = k) (purchases s)))) i"

definition allocation_states :: "scenario \<Rightarrow> portfolio \<Rightarrow> allocation_state list" where
  "allocation_states c s =
     map (\<lambda>x. let p = purchases_by_instrument (sc_id c) s (it_instrument x)
              in \<lparr>as_instrument = it_instrument x, as_purchased = (p \<noteq> None), as_holding = Option.bind p pu_holding\<rparr>)
         (pl_items (sc_payload c))"

subsection \<open>The age of the quotes\<close>

text \<open>What is read of one stored item, \<open>None\<close> where its id or its time cannot be read.\<close>

record seen_item =
  se_instrument :: uuid
  se_observed :: int
  se_mode :: string

definition seen_of :: "item \<Rightarrow> seen_item option" where
  "seen_of x = Some \<lparr>se_instrument = it_instrument x, se_observed = it_observed x, se_mode = it_mode x\<rparr>"

definition oldest :: "seen_item list \<Rightarrow> int option" where
  "oldest xs = (if xs = [] then None else Some (Min (set (map se_observed xs))))"

text \<open>\<open>now - observed_at > timedelta(seconds=...)\<close>, in microseconds.\<close>

definition is_stale :: "int \<Rightarrow> instrument list \<Rightarrow> seen_item \<Rightarrow> bool" where
  "is_stale now is x =
     (case by_pk ins_id is (se_instrument x) of
        None \<Rightarrow> False
      | Some i \<Rightarrow> ins_max_age i * 10 ^ 6 < now - se_observed x)"

definition quote_summary :: "int \<Rightarrow> instrument list \<Rightarrow> seen_item option list \<Rightarrow> string \<times> int option" where
  "quote_summary now is seen =
     (if None \<in> set seen then (''unavailable'', None)
      else
        (let xs = map the seen; modes = map se_mode xs
         in if ''mock'' \<in> set modes then (''mock'', oldest xs)
            else if ''user_supplied'' \<in> set modes then (''user_supplied'', oldest xs)
            else let live = catalogue (map se_instrument xs) is
                 in if length live \<noteq> length xs then (''unavailable'', oldest xs)
                    else (if \<exists>x \<in> set xs. is_stale now live x then ''needs_refresh'' else ''current'', oldest xs)))"

subsection \<open>The plan as it is shown\<close>

record shown_plan =
  sp_id :: uuid
  sp_title :: string
  sp_status :: scenario_status
  sp_payload :: plan
  sp_message :: "uuid option"
  sp_conversation :: "uuid option"
  sp_quote_status :: string
  sp_oldest :: "int option"
  sp_states :: "allocation_state list"
  sp_saved_at :: int

definition source_conversation_id :: "scenario \<Rightarrow> chat \<Rightarrow> uuid option" where
  "source_conversation_id c s = Option.bind (sc_source c) (\<lambda>m. map_option msg_conversation (by_pk msg_id (msgs s) m))"

definition show_scenario :: "int \<Rightarrow> chat \<Rightarrow> scenario \<Rightarrow> shown_plan" where
  "show_scenario now s c =
     (let q = quote_summary now (instruments (folio s)) (map seen_of (pl_items (sc_payload c)))
      in \<lparr>sp_id = sc_id c, sp_title = sc_title c, sp_status = sc_status c, sp_payload = sc_payload c,
          sp_message = sc_source c, sp_conversation = source_conversation_id c s, sp_quote_status = fst q,
          sp_oldest = snd q, sp_states = allocation_states c (folio s), sp_saved_at = sc_saved_at c\<rparr>)"

text \<open>GET /investment-scenarios and GET /investment-scenarios/{id}.\<close>

definition get_scenarios :: "int \<Rightarrow> uuid \<Rightarrow> string option \<Rightarrow> chat \<Rightarrow> exc + shown_plan list" where
  "get_scenarios now u p s = res_bind (list_scenarios u p (folio s)) (\<lambda>cs. Inr (map (show_scenario now s) cs))"

definition get_scenario :: "int \<Rightarrow> uuid \<Rightarrow> uuid \<Rightarrow> chat \<Rightarrow> exc + shown_plan" where
  "get_scenario now u k s =
     (case own_scenario u k (folio s) of None \<Rightarrow> Inl scenario_missing | Some c \<Rightarrow> Inr (show_scenario now s c))"

subsection \<open>The state shown is the state acted on\<close>

lemma purchases_by_instrument_None:
  "purchases_by_instrument k s i = None \<longleftrightarrow> \<not> (\<exists>p \<in> set (purchases s). pu_scenario p = k \<and> pu_instrument p = i)"
  by (auto simp: purchases_by_instrument_def map_of_eq_None_iff image_iff)

lemma purchases_by_instrument_Some:
  "purchases_by_instrument k s i = Some p \<Longrightarrow> p \<in> set (purchases s) \<and> pu_scenario p = k \<and> pu_instrument p = i"
  by (auto simp: purchases_by_instrument_def dest: map_of_SomeD)

lemma allocation_states_iff:
  "x \<in> set (allocation_states c s) \<Longrightarrow>
   as_instrument x \<in> it_instrument ` set (pl_items (sc_payload c)) \<and>
   (as_purchased x \<longleftrightarrow> (\<exists>p \<in> set (purchases s). pu_scenario p = sc_id c \<and> pu_instrument p = as_instrument x)) \<and>
   (\<forall>h. as_holding x = Some h \<longrightarrow>
      (\<exists>p \<in> set (purchases s). pu_scenario p = sc_id c \<and> pu_instrument p = as_instrument x \<and> pu_holding p = Some h))"
  unfolding allocation_states_def Let_def
  by (auto simp: purchases_by_instrument_None bind_eq_Some_conv) (use purchases_by_instrument_Some in blast)

text \<open>The state a plan shows for an item decides what its endpoints do with it: a purchased item
  can be neither edited nor removed and repeating its purchase changes nothing, a planned one can
  be edited and its first purchase is recorded; a plan shown after a recorded purchase shows it.
\<close>

theorem shown_state_decides:
  assumes c: "own_scenario u k s = Some c" "sc_status c = Saved" and x: "x \<in> set (allocation_states c s)"
  shows "(as_purchased x \<longrightarrow>
      patch_allocation wording now u k (as_instrument x) v s = (Inl already_owned, s) \<and>
      delete_allocation wording now u k (as_instrument x) s = (Inl already_owned, s) \<and>
      snd (purchase_allocation today hid pid u k (as_instrument x) w s) = s) \<and>
    (\<not> as_purchased x \<longrightarrow> editable u k (as_instrument x) s = Inr c \<and>
      (\<forall>s' b. purchase_allocation today hid pid u k (as_instrument x) w s = (Inr b, s') \<longrightarrow> b \<and>
        (\<exists>y \<in> set (allocation_states c s'). as_instrument y = as_instrument x \<and> as_purchased y \<and>
           as_holding y \<in> (Some \<circ> ho_id) ` set (holdings s'))))"
proof -
  note st = allocation_states_iff [OF x]
  have ck: "sc_id c = k" using by_pk_Some [OF c(1) [unfolded own_scenario_def]] by simp
  show ?thesis
  proof (cases "as_purchased x")
    case True
    then have p: "\<exists>p \<in> set (purchases s). pu_scenario p = k \<and> pu_instrument p = as_instrument x" using st ck by simp
    then have e: "editable u k (as_instrument x) s = Inl already_owned" by (simp add: editable_def c)
    obtain q where "purchase_of k (as_instrument x) s = Some q" using p purchase_of_None [of k _ s] by fastforce
    then have "snd (purchase_allocation today hid pid u k (as_instrument x) w s) = s"
      by (simp add: purchase_allocation_def c split: sum.split)
    then show ?thesis using True e by (simp add: patch_allocation_def delete_allocation_def)
  next
    case False
    then have p: "\<not> (\<exists>p \<in> set (purchases s). pu_scenario p = k \<and> pu_instrument p = as_instrument x)" using st ck by simp
    then have e: "editable u k (as_instrument x) s = Inr c" by (simp add: editable_def c)
    have none: "purchase_of k (as_instrument x) s = None" using p purchase_of_None [of k "as_instrument x" s] by blast
    have "b \<and> (\<exists>y \<in> set (allocation_states c s'). as_instrument y = as_instrument x \<and> as_purchased y \<and>
           as_holding y \<in> (Some \<circ> ho_id) ` set (holdings s'))"
      if r: "purchase_allocation today hid pid u k (as_instrument x) w s = (Inr b, s')" for s' b
    proof -
      obtain d h where d: "b" "purchases s' = purchases s @ [purchase_row pid k (as_instrument x) d h]" "h \<in> set (holdings s')"
        using r by (auto simp: purchase_allocation_def c none Let_def holding_of_def save_row_def
            dest!: first_pk_filterD split: if_splits sum.splits option.splits)
      have row: "purchases_by_instrument k s' (as_instrument x) = Some (purchase_row pid k (as_instrument x) d h)"
        by (simp add: purchases_by_instrument_def d(2) purchase_row_def)
      obtain z where z: "z \<in> set (pl_items (sc_payload c))" "it_instrument z = as_instrument x" using st by auto
      have "\<exists>y \<in> set (allocation_states c s'). as_instrument y = as_instrument x \<and> as_purchased y \<and> as_holding y = Some (ho_id h)"
        using z by (auto simp: allocation_states_def ck row purchase_row_def intro!: bexI [of _ z])
      then show ?thesis using d(1,3) by auto
    qed
    then show ?thesis using False e by blast
  qed
qed


text \<open>A gram of gold of the plan is bought; from then on the item is shown as purchased.\<close>

definition gold_row_plan :: scenario where
  "gold_row_plan = \<lparr>sc_id = 5, sc_user = 1, sc_title = ''Plan'', sc_status = Saved, sc_payload = gold_plan,
     sc_source = None, sc_saved_at = 0\<rparr>"

theorem shown_state_decides_witness:
  "\<exists>s' x. allocation_states gold_row_plan s' = [x] \<and> as_purchased x \<and>
     purchase_allocation (Date 2026 7 2) 10 11 1 5 4 (Inr gold_purchase) gold_portfolio = (Inr True, s')"
proof -
  obtain s' where s': "purchase_allocation (Date 2026 7 2) 10 11 1 5 4 (Inr gold_purchase) gold_portfolio = (Inr True, s')"
    using gold_bought by blast
  define x where "x = \<lparr>as_instrument = 4, as_purchased = False, as_holding = None\<rparr>"
  have "own_scenario 1 5 gold_portfolio = Some gold_row_plan" "sc_status gold_row_plan = Saved" "x \<in> set (allocation_states gold_row_plan gold_portfolio)"
    by (simp_all add: own_scenario_def gold_portfolio_def gold_row_plan_def by_pk_Cons allocation_states_def gold_plan_def gold_item_def
        purchases_by_instrument_def x_def)
  from shown_state_decides [OF this, of undefined 0 "Inl (Str [])" "Date 2026 7 2" 10 11 "Inr gold_purchase"] s'
  obtain y where y: "y \<in> set (allocation_states gold_row_plan s')" "as_purchased y"
    by (auto simp: x_def)
  obtain z where z: "allocation_states gold_row_plan s' = [z]"
    by (simp add: allocation_states_def gold_row_plan_def gold_plan_def)
  with y z s' show ?thesis by (intro exI [of _ s'] exI [of _ z]) auto
qed

subsection \<open>The status shown for the quotes\<close>

text \<open>Current means: no mock or typed-in price, every instrument still offered, and no quote older
  than its instrument allows.\<close>

lemma quote_summary_current:
  assumes "fst (quote_summary now is (map Some xs)) = ''current''"
  shows "(\<forall>x \<in> set xs. se_mode x \<notin> {''mock'', ''user_supplied''}) \<and>
    length (catalogue (map se_instrument xs) is) = length xs \<and>
    (\<forall>x \<in> set xs. \<not> is_stale now (catalogue (map se_instrument xs) is) x)"
  using assms by (auto simp: quote_summary_def Let_def comp_def rev_image_eqI split: if_splits)

lemma is_stale_mono: "now \<le> now' \<Longrightarrow> is_stale now is x \<Longrightarrow> is_stale now' is x"
  by (auto simp: is_stale_def split: option.splits)

text \<open>Time passing only ever turns current into needs\_refresh.\<close>

lemma quote_summary_later:
  assumes "now \<le> now'"
  shows "quote_summary now' is seen = quote_summary now is seen \<or>
    fst (quote_summary now is seen) = ''current'' \<and>
    quote_summary now' is seen = (''needs_refresh'', snd (quote_summary now is seen))"
  using is_stale_mono [OF assms] by (auto simp: quote_summary_def Let_def)

lemma oldest_le: "x \<in> set xs \<Longrightarrow> \<exists>t. oldest xs = Some t \<and> t \<le> se_observed x"
  by (auto simp: oldest_def)

text \<open>The plans shown to a user are his own, newest first.\<close>

lemma get_scenarios_own:
  assumes "get_scenarios now u p s = Inr vs"
  shows "\<forall>v \<in> set vs. \<exists>c \<in> set (scenarios (folio s)). sc_user c = u \<and> v = show_scenario now s c"
  using assms by (auto simp: get_scenarios_def list_scenarios_def res_bind_Inr)

end
