(* ===== verification/Detected.thy ===== *)
theory Detected
  imports Analytics_Laws
begin

text \<open>
  The rest of the analytics endpoints of core/views/aggregations.py: the recurring charges and
  spending insights another system leaves in the database, which are only listed
  (core/models/aggregations/recurring_charge.py, spending_pattern_insight.py), and what the
  serializers of core/serializers/aggregations.py show of a transaction and of an anomaly.
\<close>

subsection \<open>Rows that are only listed\<close>

record recurring_charge =
  rc_id :: uuid
  rc_user :: uuid
  rc_account :: "uuid option"
  rc_merchant :: string
  rc_frequency :: string
  rc_average :: "rat option"
  rc_last :: "date option"
  rc_next :: "date option"

record 'v spending_insight =
  si_id :: uuid
  si_user :: uuid
  si_type :: string
  si_period :: "string option"
  si_value :: 'v
  si_created :: int

definition list_recurring_charges :: "uuid \<Rightarrow> uuid option \<Rightarrow> recurring_charge list \<Rightarrow> recurring_charge list" where
  "list_recurring_charges u acct rs = filter (\<lambda>r. rc_user r = u \<and> wants acct (\<lambda>a. rc_account r = Some a)) rs"

definition list_spending_insights ::
  "uuid \<Rightarrow> string option \<Rightarrow> string option \<Rightarrow> 'v spending_insight list \<Rightarrow> 'v spending_insight list" where
  "list_spending_insights u ty per rs =
     filter (\<lambda>r. si_user r = u \<and> wants ty (\<lambda>x. si_type r = x) \<and> wants per (\<lambda>x. si_period r = Some x)) rs"

record shown_charge =
  sc_charge_id :: uuid
  sc_merchant :: string
  sc_frequency :: string
  sc_average :: "rat option"
  sc_last :: "date option"
  sc_next :: "date option"

definition show_charge :: "recurring_charge \<Rightarrow> shown_charge" where
  "show_charge r = \<lparr>sc_charge_id = rc_id r, sc_merchant = rc_merchant r, sc_frequency = rc_frequency r,
     sc_average = rc_average r, sc_last = rc_last r, sc_next = rc_next r\<rparr>"

definition get_recurring_charges :: "uuid \<Rightarrow> uuid option \<Rightarrow> recurring_charge list \<Rightarrow> shown_charge list" where
  "get_recurring_charges u acct rs = map show_charge (list_recurring_charges u acct rs)"

text \<open>The type, the period, the value and the time, of each.\<close>

definition get_spending_insights ::
  "uuid \<Rightarrow> string option \<Rightarrow> string option \<Rightarrow> 'v spending_insight list \<Rightarrow> (string \<times> string option \<times> 'v \<times> int) list" where
  "get_spending_insights u ty per rs =
     map (\<lambda>r. (si_type r, si_period r, si_value r, si_created r)) (list_spending_insights u ty per rs)"

subsection \<open>What is shown of a transaction\<close>

text \<open>The references as ids, the category as its name; the constant \<open>confidence_score\<close> and
  \<open>extra_fields\<close> of the rows this code writes are left out, as in the rows.\<close>

record shown_txn =
  sx_id :: uuid
  sx_account :: uuid
  sx_statement :: "uuid option"
  sx_date :: date
  sx_merchant_raw :: "string option"
  sx_merchant :: "string option"
  sx_category :: "string option"
  sx_amount :: rat
  sx_currency :: string
  sx_recurring :: bool
  sx_source :: string
  sx_balance :: "rat option"
  sx_type :: "string option"
  sx_created :: int

definition show_txn :: "db \<Rightarrow> txn \<Rightarrow> shown_txn" where
  "show_txn d t = \<lparr>sx_id = txn_id t, sx_account = txn_account t, sx_statement = txn_statement t, sx_date = transaction_date t,
     sx_merchant_raw = merchant_raw t, sx_merchant = merchant_normalized t, sx_category = category_name_of d t, sx_amount = amount t,
     sx_currency = txn_currency t, sx_recurring = is_recurring t, sx_source = source t, sx_balance = balance t,
     sx_type = transaction_type t, sx_created = txn_created t\<rparr>"

definition ledger_view :: "uuid \<Rightarrow> txn_filter \<Rightarrow> db \<Rightarrow> shown_txn list" where
  "ledger_view u f d = map (show_txn d) (list_transactions u f d)"

definition ledger_row_view :: "uuid \<Rightarrow> uuid \<Rightarrow> db \<Rightarrow> exc + shown_txn" where
  "ledger_row_view u k d =
     (case by_pk txn_id (filter (\<lambda>t. txn_user t = u) (txns d)) k of
        None \<Rightarrow> Inl (Http404 ''No Transaction matches the given query.'')
      | Some t \<Rightarrow> Inr (show_txn d t))"

subsection \<open>What is shown of an anomaly\<close>

record shown_anomaly =
  sa_id :: uuid
  sa_txn :: "uuid option"
  sa_account :: "uuid option"
  sa_category :: "string option"
  sa_month :: string
  sa_amount :: "rat option"
  sa_reason :: string
  sa_severity :: string
  sa_resolved :: bool

definition show_anomaly :: "anomaly \<Rightarrow> shown_anomaly" where
  "show_anomaly f = \<lparr>sa_id = an_id f, sa_txn = an_txn f, sa_account = an_account f, sa_category = an_category f, sa_month = an_month f,
     sa_amount = an_amount f, sa_reason = an_reason f, sa_severity = severity f, sa_resolved = resolved f\<rparr>"

definition get_anomalies :: "uuid \<Rightarrow> uuid option \<Rightarrow> string option \<Rightarrow> bool option \<Rightarrow> db \<Rightarrow> shown_anomaly list" where
  "get_anomalies u acct sev res d = map show_anomaly (list_anomalies u acct sev res d)"

definition patch_anomaly :: "uuid \<Rightarrow> uuid \<Rightarrow> detail + bool option \<Rightarrow> db \<Rightarrow> shown_anomaly response" where
  "patch_anomaly u k validated d = apfst (map_sum id show_anomaly) (resolve_anomaly u k validated d)"

subsection \<open>Lists and details agree\<close>

text \<open>The list without a filter shows exactly the transactions the detail endpoint shows.\<close>

definition no_filter :: txn_filter where
  "no_filter = \<lparr>tf_account = None, tf_category = None, tf_flow = None, tf_search = None, tf_min = None, tf_max = None,
     tf_source = None, tf_recurring = None, tf_type = None, tf_from = None, tf_to = None\<rparr>"

lemma set_latest_first_rows: "set (latest_first ts) = set ts"
  by (induction ts) (simp_all add: latest_first_def)

lemma listed_is_shown:
  assumes "distinct (map txn_id (txns d))"
  shows "x \<in> set (ledger_view u no_filter d) \<longleftrightarrow> ledger_row_view u (sx_id x) d = Inr x"
proof -
  let ?own = "filter (\<lambda>t. txn_user t = u) (txns d)"
  have d: "distinct (map txn_id ?own)" using assms by (simp add: distinct_map_filter)
  have "x \<in> set (ledger_view u no_filter d) \<longleftrightarrow> (\<exists>t \<in> set ?own. x = show_txn d t)"
    by (auto simp: ledger_view_def list_transactions_def set_latest_first_rows matches_filter_def no_filter_def wants_def)
  also have "\<dots> \<longleftrightarrow> ledger_row_view u (sx_id x) d = Inr x"
  proof
    assume "\<exists>t \<in> set ?own. x = show_txn d t"
    then obtain t where t: "t \<in> set ?own" "x = show_txn d t" by blast
    then have "by_pk txn_id ?own (txn_id t) = Some t" using by_pk_unique [OF d] by blast
    then show "ledger_row_view u (sx_id x) d = Inr x" using t(2) by (simp add: ledger_row_view_def show_txn_def)
  next
    assume "ledger_row_view u (sx_id x) d = Inr x"
    then obtain t where "by_pk txn_id ?own (sx_id x) = Some t" "x = show_txn d t"
      by (auto simp: ledger_row_view_def split: option.splits)
    then show "\<exists>t \<in> set ?own. x = show_txn d t" using by_pk_Some by fastforce
  qed
  finally show ?thesis .
qed

text \<open>A resolved anomaly is no longer in the list of open ones, and is in the list of resolved ones.\<close>

lemma resolved_anomaly_moves:
  assumes "patch_anomaly u k (Inr (Some True)) d = (Inr x, d')"
  shows "x \<in> set (get_anomalies u None None (Some True) d') \<and> k \<notin> sa_id ` set (get_anomalies u None None (Some False) d')"
proof -
  obtain f where f: "by_pk an_id (filter (\<lambda>f. an_user f = u) (anomalies d)) k = Some f"
      "x = show_anomaly (f\<lparr>resolved := True\<rparr>)" "d' = d\<lparr>anomalies := save_row an_id (f\<lparr>resolved := True\<rparr>) (anomalies d)\<rparr>"
    using assms by (auto simp: patch_anomaly_def resolve_anomaly_def Let_def split: option.splits)
  have k: "f \<in> set (anomalies d)" "an_user f = u" "an_id f = k" using by_pk_Some [OF f(1)] by auto
  have rows: "set (anomalies d') = insert (f\<lparr>resolved := True\<rparr>) {g \<in> set (anomalies d). an_id g \<noteq> k}"
    using k unfolding f(3) save_row_def by auto
  have "f\<lparr>resolved := True\<rparr> \<in> set (list_anomalies u None None (Some True) d')" using k(2) rows by (simp add: list_anomalies_def wants_def)
  moreover have "an_id g \<noteq> k" if "g \<in> set (list_anomalies u None None (Some False) d')" for g
    using that rows by (auto simp: list_anomalies_def wants_def)
  then have "k \<notin> an_id ` set (list_anomalies u None None (Some False) d')" by blast
  then have "k \<notin> sa_id ` set (get_anomalies u None None (Some False) d')"
    by (simp add: get_anomalies_def show_anomaly_def image_image)
  ultimately show ?thesis unfolding f(2) get_anomalies_def by simp
qed

end
