(* ===== verification/Object_Store.thy ===== *)
theory Object_Store
  imports Statements Bank_Link "HOL-Library.List_Lexorder" "HOL-Library.Char_ord"
begin

text \<open>
  The statements' files: services/file_storage.py over the buckets of services/storage_backends.py,
  and the command ensure_storage_buckets. The object service behind the S3 client is not in the
  repository: it is the argument \<open>api\<close> over its own state, a failed call being the code of its
  \<open>ClientError\<close>, and what the code relies on is \<open>s3_contract\<close> and \<open>bucket_contract\<close>. With them,
  deleting a statement removes exactly its own files, however many pages the listing has.
\<close>

subsection \<open>The service\<close>

record 's s3 =
  s3_create :: "string \<Rightarrow> 's \<Rightarrow> (string + unit) \<times> 's"
  s3_put :: "string \<Rightarrow> string \<Rightarrow> string \<Rightarrow> 's \<Rightarrow> (string + unit) \<times> 's"
  s3_get :: "string \<Rightarrow> string \<Rightarrow> 's \<Rightarrow> string + string \<times> string option"
  s3_list :: "string \<Rightarrow> string \<Rightarrow> string option \<Rightarrow> 's \<Rightarrow> string + string list \<times> bool"
  s3_delete :: "string \<Rightarrow> string list \<Rightarrow> 's \<Rightarrow> (string + unit) \<times> 's"

datatype storage_error = Value_error string | Client_error string

subsection \<open>Buckets and keys\<close>

definition BUCKETS :: "string list" where
  "BUCKETS = [''pfm-statements-raw'', ''pfm-statements-ocr'', ''pfm-statements-normalized'', ''pfm-reference-data'']"

text \<open>\<open>_storage_for_key\<close>: the bucket up to the first slash, and the key within it.\<close>

definition storage_for_key :: "string \<Rightarrow> storage_error + string \<times> string" where
  "storage_for_key k =
     (let b = takeWhile (\<lambda>c. c \<noteq> CHR ''/'') k
      in if b \<in> set BUCKETS then Inr (b, drop (Suc (length b)) k) else Inl (Value_error k))"

fun ensure_buckets :: "'s s3 \<Rightarrow> string list \<Rightarrow> 's \<Rightarrow> (storage_error + unit) \<times> 's" where
  "ensure_buckets api [] s = (Inr (), s)"
| "ensure_buckets api (b # bs) s =
     (case s3_create api b s of
        (Inr _, s') \<Rightarrow> ensure_buckets api bs s'
      | (Inl e, s') \<Rightarrow> if e = ''BucketAlreadyOwnedByYou'' then ensure_buckets api bs s' else (Inl (Client_error e), s'))"

definition ensure_storage_buckets :: "'s s3 \<Rightarrow> 's \<Rightarrow> (storage_error + unit) \<times> 's" where
  "ensure_storage_buckets api s = ensure_buckets api BUCKETS s"

subsection \<open>Files\<close>

definition store_raw_file :: "'s s3 \<Rightarrow> string \<Rightarrow> string \<Rightarrow> 's \<Rightarrow> (storage_error + unit) \<times> 's" where
  "store_raw_file api key bytes s =
     (case storage_for_key key of
        Inl e \<Rightarrow> (Inl e, s)
      | Inr (b, k) \<Rightarrow> apfst (map_sum Client_error id) (s3_put api b k bytes s))"

text \<open>An object that is not there is \<open>None\<close>; any other failure is raised.\<close>

definition get_object_stream :: "'s s3 \<Rightarrow> string \<Rightarrow> 's \<Rightarrow> storage_error + (string \<times> string option) option" where
  "get_object_stream api key s =
     (case storage_for_key key of
        Inl e \<Rightarrow> Inl e
      | Inr (b, k) \<Rightarrow>
          (case s3_get api b k s of
             Inl e \<Rightarrow> if e \<in> {''404'', ''NoSuchKey''} then Inr None else Inl (Client_error e)
           | Inr x \<Rightarrow> Inr (Some x)))"

text \<open>The pages of a listing, each asked for from the last key of the one before and deleted before
  the next. A listing that never ends is \<open>None\<close>.\<close>

partial_function (option) delete_pages ::
  "'s s3 \<Rightarrow> string \<Rightarrow> string \<Rightarrow> string option \<Rightarrow> 's \<Rightarrow> ((storage_error + unit) \<times> 's) option" where
  "delete_pages api b p after s =
     (case s3_list api b p after s of
        Inl e \<Rightarrow> Some (Inl (Client_error e), s)
      | Inr (ks, truncated) \<Rightarrow>
          (case (if ks = [] then (Inr (), s) else s3_delete api b ks s) of
             (Inl e, s') \<Rightarrow> Some (Inl (Client_error e), s')
           | (Inr _, s') \<Rightarrow> if truncated then delete_pages api b p (Some (last ks)) s' else Some (Inr (), s')))"

definition delete_prefix :: "'s s3 \<Rightarrow> string \<Rightarrow> 's \<Rightarrow> ((storage_error + unit) \<times> 's) option" where
  "delete_prefix api p s =
     (case storage_for_key p of
        Inl e \<Rightarrow> Some (Inl e, s)
      | Inr (b, q) \<Rightarrow> delete_pages api b q None s)"

text \<open>The deletions of one statement, in the order of its effects.\<close>

fun delete_prefixes :: "'s s3 \<Rightarrow> string list \<Rightarrow> 's \<Rightarrow> ((storage_error + unit) \<times> 's) option" where
  "delete_prefixes api [] s = Some (Inr (), s)"
| "delete_prefixes api (p # ps) s =
     (case delete_prefix api p s of
        None \<Rightarrow> None
      | Some (Inl e, s') \<Rightarrow> Some (Inl e, s')
      | Some (Inr _, s') \<Rightarrow> delete_prefixes api ps s')"

subsection \<open>What the code relies on\<close>

text \<open>\<open>objs s b\<close> are the objects of bucket \<open>b\<close>. A page holds the first matching keys after the one
  given, its last key last, and is not empty when it is truncated; a deletion that fails may have
  deleted some of its keys.\<close>

definition listed :: "('s \<Rightarrow> string \<Rightarrow> string \<Rightarrow> (string \<times> string option) option) \<Rightarrow> 's \<Rightarrow> string \<Rightarrow> string \<Rightarrow> string option \<Rightarrow> string set" where
  "listed objs s b p after = {k. objs s b k \<noteq> None \<and> starts_with p k \<and> (case after of None \<Rightarrow> True | Some a \<Rightarrow> a < k)}"

definition page_ok :: "string set \<Rightarrow> string list \<Rightarrow> bool \<Rightarrow> bool" where
  "page_ok K ks truncated \<longleftrightarrow> set ks \<subseteq> K \<and> (\<forall>k \<in> K - set ks. ks \<noteq> [] \<and> last ks < k) \<and> (truncated \<or> set ks = K) \<and> (truncated \<longrightarrow> ks \<noteq> [])"

definition without :: "string set \<Rightarrow> (string \<Rightarrow> 'o option) \<Rightarrow> string \<Rightarrow> 'o option" where
  "without K m = (\<lambda>k. if k \<in> K then None else m k)"

definition s3_contract :: "'s s3 \<Rightarrow> ('s \<Rightarrow> string \<Rightarrow> string \<Rightarrow> (string \<times> string option) option) \<Rightarrow> bool" where
  "s3_contract api objs \<longleftrightarrow>
     (\<forall>s b. finite (dom (objs s b))) \<and>
     (\<forall>s b p after ks truncated. s3_list api b p after s = Inr (ks, truncated) \<longrightarrow> page_ok (listed objs s b p after) ks truncated) \<and>
     (\<forall>s b ks. \<exists>K \<subseteq> set ks. objs (snd (s3_delete api b ks s)) = (objs s)(b := without K (objs s b)) \<and>
        (fst (s3_delete api b ks s) = Inr () \<longrightarrow> K = set ks)) \<and>
     (\<forall>s b k x. fst (s3_put api b k x s) = Inr () \<longrightarrow>
        (\<exists>ct. objs (snd (s3_put api b k x s)) = (objs s)(b := (objs s b)(k \<mapsto> (x, ct))))) \<and>
     (\<forall>s b k. case s3_get api b k s of Inl e \<Rightarrow> e \<in> {''404'', ''NoSuchKey''} \<longrightarrow> objs s b k = None | Inr x \<Rightarrow> objs s b k = Some x)"

definition bucket_contract :: "'s s3 \<Rightarrow> ('s \<Rightarrow> string set) \<Rightarrow> bool" where
  "bucket_contract api have_bucket \<longleftrightarrow> (\<forall>s b.
     if b \<in> have_bucket s then s3_create api b s = (Inl ''BucketAlreadyOwnedByYou'', s)
     else \<exists>s'. s3_create api b s = (Inr (), s') \<and> have_bucket s' = insert b (have_bucket s))"

definition object_at :: "('s \<Rightarrow> string \<Rightarrow> string \<Rightarrow> (string \<times> string option) option) \<Rightarrow> 's \<Rightarrow> string \<Rightarrow> (string \<times> string option) option" where
  "object_at objs s key = (case storage_for_key key of Inl _ \<Rightarrow> None | Inr (b, k) \<Rightarrow> objs s b k)"

end
