(* ===== verification/Object_Laws.thy ===== *)
theory Object_Laws
  imports Object_Store
begin

text \<open>
  What the object store promises about a statement's files: the loop over the pages of a listing
  ends and deletes exactly the keys of the prefix, and the prefixes of one statement hold nothing of
  another's.
\<close>

subsection \<open>One prefix\<close>

lemma s3_contractD:
  assumes "s3_contract api objs"
  shows "finite (dom (objs s b))"
    "s3_list api b p after s = Inr (ks, truncated) \<Longrightarrow> page_ok (listed objs s b p after) ks truncated"
    "\<exists>K \<subseteq> set ks. objs (snd (s3_delete api b ks s)) = (objs s)(b := without K (objs s b)) \<and>
        (fst (s3_delete api b ks s) = Inr () \<longrightarrow> K = set ks)"
    "fst (s3_put api b k x s) = Inr () \<Longrightarrow> \<exists>ct. objs (snd (s3_put api b k x s)) = (objs s)(b := (objs s b)(k \<mapsto> (x, ct)))"
    "case s3_get api b k s of Inl e \<Rightarrow> e \<in> {''404'', ''NoSuchKey''} \<longrightarrow> objs s b k = None | Inr x \<Rightarrow> objs s b k = Some x"
  using assms unfolding s3_contract_def by blast+

lemma without_simps [simp]: "without {} m = m" "without K m k = (if k \<in> K then None else m k)"
  "without K (without L m) = without (L \<union> K) m"
  by (auto simp: without_def)

lemma finite_listed: "finite (dom (objs s b)) \<Longrightarrow> finite (listed objs s b p after)"
  by (rule finite_subset [rotated]) (auto simp: listed_def)

lemma listed_next:
  assumes "page_ok (listed objs s b p after) ks truncated" "ks \<noteq> []" "objs s' = (objs s)(b := without (set ks) (objs s b))"
  shows "listed objs s' b p (Some (last ks)) = listed objs s b p after - set ks"
proof -
  have l: "last ks \<in> listed objs s b p after" using assms(1,2) unfolding page_ok_def by auto
  then have a: "case after of None \<Rightarrow> True | Some a \<Rightarrow> a < last ks" by (simp add: listed_def)
  have later: "\<forall>k \<in> listed objs s b p after - set ks. last ks < k" using assms(1) unfolding page_ok_def by blast
  show ?thesis
  proof (intro set_eqI iffI)
    fix k assume "k \<in> listed objs s' b p (Some (last ks))"
    then have "k \<notin> set ks" "objs s b k \<noteq> None" "starts_with p k" "last ks < k"
      by (auto simp: listed_def assms(3) split: if_splits)
    then show "k \<in> listed objs s b p after - set ks" using a by (cases after) (auto simp: listed_def)
  next
    fix k assume k: "k \<in> listed objs s b p after - set ks"
    then show "k \<in> listed objs s' b p (Some (last ks))" using later by (auto simp: listed_def assms(3))
  qed
qed

lemma delete_pages_ok:
  assumes c: "s3_contract api objs"
  shows "\<exists>r s' K. delete_pages api b p after s = Some (r, s') \<and> K \<subseteq> listed objs s b p after \<and>
    objs s' = (objs s)(b := without K (objs s b)) \<and> (r = Inr () \<longrightarrow> K = listed objs s b p after)"
proof (induction "card (listed objs s b p after)" arbitrary: after s rule: less_induct)
  case less
  let ?K = "listed objs s b p after"
  show ?case
  proof (cases "s3_list api b p after s")
    case (Inl e)
    then show ?thesis by (subst delete_pages.simps) (auto intro!: exI [of _ "{}"])
  next
    case (Inr x)
    then obtain ks truncated where l: "s3_list api b p after s = Inr (ks, truncated)" by (cases x) auto
    note page = s3_contractD(2) [OF c l]
    have sub: "set ks \<subseteq> ?K" using page by (simp add: page_ok_def)
    show ?thesis
    proof (cases "ks = []")
      case True
      then have "\<not> truncated" "?K = {}" using page by (auto simp: page_ok_def)
      then show ?thesis using True l by (subst delete_pages.simps) (auto intro!: exI [of _ "{}"])
    next
      case ne: False
      obtain r1 s1 where d: "s3_delete api b ks s = (r1, s1)" by fastforce
      from s3_contractD(3) [OF c, of ks b s] obtain K where K: "K \<subseteq> set ks" "objs s1 = (objs s)(b := without K (objs s b))"
          "r1 = Inr () \<longrightarrow> K = set ks" by (auto simp: d)
      show ?thesis
      proof (cases r1)
        case (Inl e)
        then have "delete_pages api b p after s = Some (Inl (Client_error e), s1)"
          using ne l d by (subst delete_pages.simps) simp
        then show ?thesis using K(1,2) sub by (intro exI [of _ "Inl (Client_error e)"] exI [of _ s1] exI [of _ K]) auto
      next
        case (Inr z)
        then have s1: "objs s1 = (objs s)(b := without (set ks) (objs s b))" using K by simp
        show ?thesis
        proof (cases truncated)
          case False
          then have "delete_pages api b p after s = Some (Inr (), s1)" using ne l d Inr by (subst delete_pages.simps) simp
          moreover have "set ks = ?K" using False page by (simp add: page_ok_def)
          ultimately show ?thesis using s1 by (intro exI [of _ "Inr ()"] exI [of _ s1] exI [of _ ?K]) simp
        next
          case True
          note next_page = listed_next [OF page ne s1]
          obtain k where "k \<in> set ks" using ne by (cases ks) auto
          then have "?K - set ks \<subset> ?K" using sub by blast
          then have "card (?K - set ks) < card ?K"
            by (rule psubset_card_mono [OF finite_listed [of objs, OF s3_contractD(1) [OF c]]])
          from less [of s1 "Some (last ks)"] this next_page obtain r s' L where
            L: "delete_pages api b p (Some (last ks)) s1 = Some (r, s')" "L \<subseteq> ?K - set ks"
              "objs s' = (objs s1)(b := without L (objs s1 b))" "r = Inr () \<longrightarrow> L = ?K - set ks" by auto
          have "delete_pages api b p after s = Some (r, s')" using ne l d Inr True L(1) by (subst delete_pages.simps) simp
          moreover have "objs s' = (objs s)(b := without (set ks \<union> L) (objs s b))" using L(3) s1 by simp
          moreover have "set ks \<union> L \<subseteq> ?K" "r = Inr () \<longrightarrow> set ks \<union> L = ?K" using L(2,4) sub by auto
          ultimately show ?thesis by (intro exI [of _ r] exI [of _ s'] exI [of _ "set ks \<union> L"]) simp
        qed
      qed
    qed
  qed
qed

subsection \<open>The prefixes of a statement\<close>

lemma bucket_no_slash: "b \<in> set BUCKETS \<Longrightarrow> c \<in> set b \<Longrightarrow> c \<noteq> CHR ''/''"
  by (auto simp: BUCKETS_def)

lemma storage_for_key_bucket [simp]:
  assumes "b \<in> set BUCKETS"
  shows "storage_for_key (b @ CHR ''/'' # k) = Inr (b, k)"
proof -
  have "takeWhile (\<lambda>c. c \<noteq> CHR ''/'') (b @ CHR ''/'' # k) = b" using bucket_no_slash [OF assms] by (simp add: takeWhile_tail)
  then show ?thesis using assms by (simp add: storage_for_key_def Let_def)
qed

lemma storage_for_key_InrD:
  assumes "storage_for_key key = Inr (b, k)"
  shows "b \<in> set BUCKETS" "key = b @ CHR ''/'' # k \<or> key = b \<and> k = []"
proof -
  let ?b = "takeWhile (\<lambda>c. c \<noteq> CHR ''/'') key"
  have b: "b = ?b" "b \<in> set BUCKETS" "k = drop (Suc (length b)) key"
    using assms by (auto simp: storage_for_key_def Let_def split: if_splits)
  show "b \<in> set BUCKETS" by (rule b(2))
  have key: "key = b @ dropWhile (\<lambda>c. c \<noteq> CHR ''/'') key" using b(1) by simp
  show "key = b @ CHR ''/'' # k \<or> key = b \<and> k = []"
  proof (cases "dropWhile (\<lambda>c. c \<noteq> CHR ''/'') key")
    case Nil
    then have "key = b" using key by (metis append_Nil2)
    then show ?thesis using b(3) by simp
  next
    case (Cons c r)
    then have "c = CHR ''/''" using hd_dropWhile [of "\<lambda>c. c \<noteq> CHR ''/''" key] by simp
    then have "key = b @ CHR ''/'' # r" using Cons key by simp
    moreover from this have "k = r" using b(3) by simp
    ultimately show ?thesis by simp
  qed
qed

lemma starts_with_append [simp]: "starts_with (p @ q) (p @ k) \<longleftrightarrow> starts_with q k"
  by (simp add: starts_with_def)

lemma starts_with_ex: "starts_with p k \<longleftrightarrow> (\<exists>r. k = p @ r)"
  unfolding starts_with_def by (metis append_eq_conv_conj append_take_drop_id)

lemma in_prefix_iff:
  assumes "b \<in> set BUCKETS" "q \<noteq> []"
  shows "starts_with (b @ CHR ''/'' # q) key \<longleftrightarrow> (\<exists>k. storage_for_key key = Inr (b, k) \<and> starts_with q k)"
proof
  assume "starts_with (b @ CHR ''/'' # q) key"
  then obtain r where "key = b @ CHR ''/'' # (q @ r)" by (auto simp: starts_with_ex)
  then show "\<exists>k. storage_for_key key = Inr (b, k) \<and> starts_with q k" using assms(1) by (auto simp: starts_with_ex)
next
  assume "\<exists>k. storage_for_key key = Inr (b, k) \<and> starts_with q k"
  then obtain k where k: "storage_for_key key = Inr (b, k)" "starts_with q k" by blast
  then have "k \<noteq> []" using assms(2) by (auto simp: starts_with_def)
  then have "key = b @ CHR ''/'' # k" using storage_for_key_InrD(2) [OF k(1)] by simp
  then show "starts_with (b @ CHR ''/'' # q) key" using k(2) by (auto simp: starts_with_ex)
qed

lemma delete_prefix_ok:
  assumes c: "s3_contract api objs" and b: "b \<in> set BUCKETS" "q \<noteq> []"
  shows "\<exists>r s'. delete_prefix api (b @ CHR ''/'' # q) s = Some (r, s') \<and>
    (\<forall>key. object_at objs s' key \<in> {None, object_at objs s key} \<and>
      (\<not> starts_with (b @ CHR ''/'' # q) key \<longrightarrow> object_at objs s' key = object_at objs s key) \<and>
      (r = Inr () \<longrightarrow> starts_with (b @ CHR ''/'' # q) key \<longrightarrow> object_at objs s' key = None))"
proof -
  from delete_pages_ok [OF c, of b q None s] obtain r s' K where d: "delete_pages api b q None s = Some (r, s')"
      "K \<subseteq> listed objs s b q None" "objs s' = (objs s)(b := without K (objs s b))" "r = Inr () \<longrightarrow> K = listed objs s b q None" by blast
  have at: "object_at objs s' key = (case storage_for_key key of Inl _ \<Rightarrow> None
      | Inr (b', k) \<Rightarrow> if b' = b \<and> k \<in> K then None else object_at objs s key)" for key
    by (simp add: object_at_def d(3) split: sum.split)
  have "object_at objs s' key \<in> {None, object_at objs s key} \<and>
      (\<not> starts_with (b @ CHR ''/'' # q) key \<longrightarrow> object_at objs s' key = object_at objs s key) \<and>
      (r = Inr () \<longrightarrow> starts_with (b @ CHR ''/'' # q) key \<longrightarrow> object_at objs s' key = None)" for key
  proof (cases "storage_for_key key")
    case (Inl e)
    then show ?thesis using at [of key] by (simp add: object_at_def)
  next
    case (Inr x)
    obtain b' k where x: "x = (b', k)" by fastforce
    have "object_at objs s' key = None" if "r = Inr ()" "b' = b" "starts_with q k"
      using that d(4) at [of key] Inr x by (cases "objs s b k") (auto simp: object_at_def listed_def)
    moreover have "starts_with q k" if "k \<in> K" using that d(2) by (auto simp: listed_def)
    ultimately show ?thesis using at [of key] Inr x unfolding in_prefix_iff [OF b] by auto
  qed
  moreover have "delete_prefix api (b @ CHR ''/'' # q) s = Some (r, s')" using b(1) d(1) by (simp add: delete_prefix_def)
  ultimately show ?thesis by blast
qed

text \<open>All prefixes of a statement, one after another.\<close>

definition covered_by :: "string list \<Rightarrow> string \<Rightarrow> bool" where
  "covered_by ps key \<longleftrightarrow> list_ex (\<lambda>p. starts_with p key) ps"

definition prefix_ok :: "string \<Rightarrow> bool" where
  "prefix_ok p \<longleftrightarrow> (\<exists>b q. p = b @ CHR ''/'' # q \<and> b \<in> set BUCKETS \<and> q \<noteq> [])"

lemma delete_prefixes_ok:
  assumes c: "s3_contract api objs" and ps: "list_all prefix_ok ps"
  shows "\<exists>r s'. delete_prefixes api ps s = Some (r, s') \<and>
    (\<forall>key. object_at objs s' key \<in> {None, object_at objs s key} \<and>
      (\<not> covered_by ps key \<longrightarrow> object_at objs s' key = object_at objs s key) \<and>
      (r = Inr () \<longrightarrow> covered_by ps key \<longrightarrow> object_at objs s' key = None))"
  using ps
proof (induction ps arbitrary: s)
  case (Cons p ps)
  then obtain b q where p: "p = b @ CHR ''/'' # q" "b \<in> set BUCKETS" "q \<noteq> []" by (auto simp: prefix_ok_def)
  from delete_prefix_ok [OF c p(2,3), of s, folded p(1)] obtain r s1 where d: "delete_prefix api p s = Some (r, s1)"
      "\<And>key. object_at objs s1 key \<in> {None, object_at objs s key}"
      "\<And>key. \<not> starts_with p key \<Longrightarrow> object_at objs s1 key = object_at objs s key"
      "\<And>key. r = Inr () \<Longrightarrow> starts_with p key \<Longrightarrow> object_at objs s1 key = None" by blast
  show ?case
  proof (cases r)
    case (Inl e)
    then show ?thesis using d by (intro exI [of _ r] exI [of _ s1]) (auto simp: covered_by_def)
  next
    case (Inr x)
    obtain r' s2 where e: "delete_prefixes api ps s1 = Some (r', s2)"
      "\<And>key. object_at objs s2 key \<in> {None, object_at objs s1 key}"
      "\<And>key. \<not> covered_by ps key \<Longrightarrow> object_at objs s2 key = object_at objs s1 key"
      "\<And>key. r' = Inr () \<Longrightarrow> covered_by ps key \<Longrightarrow> object_at objs s2 key = None"
      using Cons.IH [of s1] Cons.prems by auto
    have "object_at objs s2 key \<in> {None, object_at objs s key} \<and>
      (\<not> covered_by (p # ps) key \<longrightarrow> object_at objs s2 key = object_at objs s key) \<and>
      (r' = Inr () \<longrightarrow> covered_by (p # ps) key \<longrightarrow> object_at objs s2 key = None)" for key
      using d(2-4) [of key] e(2-4) [of key] Inr by (auto simp: covered_by_def)
    then show ?thesis using d(1) e(1) Inr by (intro exI [of _ r'] exI [of _ s2]) simp
  qed
qed (simp add: covered_by_def)

subsection \<open>Whose files they are\<close>

lemma uuid_str_inj:
  assumes "uuid_str j = uuid_str k" "j < 16 ^ 32" "k < 16 ^ 32"
  shows "j = k"
proof -
  have "Some j = Some k" using parse_uuid_str [OF assms(2)] parse_uuid_str [OF assms(3)] unfolding assms(1) by (rule trans [OF sym])
  then show ?thesis by (rule option.inject [THEN iffD1])
qed

definition STATEMENT_BUCKETS :: "string list" where
  "STATEMENT_BUCKETS = [''pfm-statements-raw'', ''pfm-statements-ocr'', ''pfm-statements-normalized'']"

lemma statement_buckets: "b \<in> set STATEMENT_BUCKETS \<Longrightarrow> b \<in> set BUCKETS"
  by (auto simp: STATEMENT_BUCKETS_def BUCKETS_def)

lemma statement_prefixes_eq:
  "statement_prefixes u k = map (\<lambda>b. b @ CHR ''/'' # uuid_str u @ CHR ''/'' # k @ ''/'') STATEMENT_BUCKETS"
  by (simp add: statement_prefixes_def STATEMENT_BUCKETS_def)

lemma statement_prefixes_ok: "list_all prefix_ok (statement_prefixes u k)"
  unfolding statement_prefixes_eq list_all_iff prefix_ok_def set_map using statement_buckets by blast

text \<open>A key of one of the statement's files.\<close>

definition key_of_statement :: "uuid \<Rightarrow> uuid \<Rightarrow> string \<Rightarrow> bool" where
  "key_of_statement u k key \<longleftrightarrow> covered_by (statement_prefixes u (uuid_str k)) key"

lemma key_of_statement_iff: "key_of_statement u k key \<longleftrightarrow>
    (\<exists>b r. b \<in> set STATEMENT_BUCKETS \<and> key = b @ CHR ''/'' # uuid_str u @ CHR ''/'' # uuid_str k @ CHR ''/'' # r)"
  unfolding key_of_statement_def covered_by_def statement_prefixes_eq starts_with_ex list_ex_iff by auto

lemma key_of_one_statement:
  assumes "key_of_statement u k key" "key_of_statement v j key" "u < 16 ^ 32" "k < 16 ^ 32" "v < 16 ^ 32" "j < 16 ^ 32"
  shows "u = v \<and> k = j"
proof -
  obtain b r where b: "key = b @ CHR ''/'' # uuid_str u @ CHR ''/'' # uuid_str k @ CHR ''/'' # r" "b \<in> set BUCKETS"
    using assms(1) statement_buckets unfolding key_of_statement_iff by blast
  obtain c t where c: "key = c @ CHR ''/'' # uuid_str v @ CHR ''/'' # uuid_str j @ CHR ''/'' # t" "c \<in> set BUCKETS"
    using assms(2) statement_buckets unfolding key_of_statement_iff by blast
  have "Inr (b, uuid_str u @ CHR ''/'' # uuid_str k @ CHR ''/'' # r) = (Inr (c, uuid_str v @ CHR ''/'' # uuid_str j @ CHR ''/'' # t)
      :: storage_error + string \<times> string)"
    using storage_for_key_bucket [OF b(2)] storage_for_key_bucket [OF c(2)] b(1) c(1) by metis
  then have "uuid_str u @ CHR ''/'' # uuid_str k @ CHR ''/'' # r = uuid_str v @ CHR ''/'' # uuid_str j @ CHR ''/'' # t" by simp
  then have u: "uuid_str u = uuid_str v" and "uuid_str k @ CHR ''/'' # r = uuid_str j @ CHR ''/'' # t"
    by (simp_all add: append_eq_append_conv)
  then have k: "uuid_str k = uuid_str j" by (simp add: append_eq_append_conv)
  show ?thesis using uuid_str_inj [OF u assms(3,5)] uuid_str_inj [OF k assms(4,6)] by simp
qed

lemma key_of_statementI: "b \<in> set STATEMENT_BUCKETS \<Longrightarrow> key_of_statement u k (b @ CHR ''/'' # uuid_str u @ CHR ''/'' # uuid_str k @ CHR ''/'' # r)"
  unfolding key_of_statement_iff by blast

lemma statement_keys:
  "key_of_statement u k (raw_statement_key u k x)" "key_of_statement u k (ocr_artifact_key u k @ x)"
  "key_of_statement u k (normalized_artifact_key u k)"
  using key_of_statementI [of "''pfm-statements-raw''" u k "''original.'' @ x"] key_of_statementI [of "''pfm-statements-ocr''" u k x]
    key_of_statementI [of "''pfm-statements-normalized''" u k "''normalized.json''"]
  by (simp_all add: raw_statement_key_def ocr_artifact_key_def normalized_artifact_key_def STATEMENT_BUCKETS_def)


text \<open>A stored file is read back, and is one of its statement's.\<close>

lemma stored_file_reads_back:
  assumes c: "s3_contract api objs" and st: "store_raw_file api (raw_statement_key u k x) bytes v = (Inr (), v')"
  shows "case get_object_stream api (raw_statement_key u k x) v' of
      Inl e \<Rightarrow> \<exists>code. e = Client_error code \<and> code \<notin> {''404'', ''NoSuchKey''} | Inr r \<Rightarrow> \<exists>ct. r = Some (bytes, ct)"
proof -
  obtain b q where key: "storage_for_key (raw_statement_key u k x) = Inr (b, q)"
    using statement_keys(1) [of u k x] statement_buckets unfolding key_of_statement_iff by auto
  obtain r v2 where put: "s3_put api b q bytes v = (r, v2)" by fastforce
  have r: "r = Inr ()" "v' = v2" using st by (cases r; simp add: store_raw_file_def key put)+
  then obtain ct where o: "objs v' b q = Some (bytes, ct)"
    using s3_contractD(4) [OF c, where b = b and k = q and x = bytes and s = v] put by auto
  show ?thesis
  proof (cases "s3_get api b q v'")
    case (Inl e)
    then have "e \<notin> {''404'', ''NoSuchKey''}" using s3_contractD(5) [OF c, where b = b and k = q and s = v'] o by auto
    then show ?thesis using Inl by (simp add: get_object_stream_def key)
  next
    case (Inr y)
    then have "y = (bytes, ct)" using s3_contractD(5) [OF c, where b = b and k = q and s = v'] o by simp
    then show ?thesis using Inr by (simp add: get_object_stream_def key)
  qed
qed


subsection \<open>A service in memory\<close>

type_synonym memory = "((string \<times> string) \<times> string \<times> string option) list"

definition memory_keys :: "memory \<Rightarrow> string \<Rightarrow> string \<Rightarrow> string option \<Rightarrow> string list" where
  "memory_keys m b p after = sort (remdups (map (snd \<circ> fst) (filter (\<lambda>x. fst (fst x) = b \<and> starts_with p (snd (fst x)) \<and>
     (case after of None \<Rightarrow> True | Some a \<Rightarrow> a < snd (fst x))) m)))"

definition memory_s3 :: "memory s3" where
  "memory_s3 = \<lparr>s3_create = \<lambda>b m. (Inr (), m), s3_put = \<lambda>b k x m. (Inr (), ((b, k), x, None) # m),
     s3_get = \<lambda>b k m. (case map_of m (b, k) of None \<Rightarrow> Inl ''NoSuchKey'' | Some x \<Rightarrow> Inr x),
     s3_list = \<lambda>b p after m. (let ks = memory_keys m b p after in Inr (take 2 ks, 2 < length ks)),
     s3_delete = \<lambda>b ks m. (Inr (), filter (\<lambda>x. \<not> (fst (fst x) = b \<and> snd (fst x) \<in> set ks)) m)\<rparr>"

definition memory_objects :: "memory \<Rightarrow> string \<Rightarrow> string \<Rightarrow> (string \<times> string option) option" where
  "memory_objects m b k = map_of m (b, k)"

lemma first_page:
  fixes ks :: "string list"
  assumes "sorted ks" "distinct ks"
  shows "page_ok (set ks) (take 2 ks) (2 < length ks)"
proof -
  have "last (take 2 ks) < k" "take 2 ks \<noteq> []" if k: "k \<in> set ks - set (take 2 ks)" for k
  proof -
    have ne: "take 2 ks \<noteq> []" using k by (cases ks) auto
    have "k \<in> set (drop 2 ks)" using k by (metis DiffE Un_iff append_take_drop_id set_append)
    moreover have "sorted (take 2 ks @ drop 2 ks)" using assms(1) by simp
    ultimately have "last (take 2 ks) \<le> k" using ne unfolding sorted_append by simp
    moreover have "last (take 2 ks) \<noteq> k" using k ne last_in_set by blast
    ultimately show "last (take 2 ks) < k" by simp
    show "take 2 ks \<noteq> []" by (rule ne)
  qed
  moreover have "set (take 2 ks) \<subseteq> set ks" by (rule set_take_subset)
  moreover have "2 < length ks \<or> take 2 ks = ks" by auto
  ultimately show ?thesis unfolding page_ok_def by auto
qed

lemma memory_keys_set: "set (memory_keys m b p after) = listed memory_objects m b p after"
proof -
  have "k \<in> set (memory_keys m b p after) \<longleftrightarrow> k \<in> listed memory_objects m b p after" for k
    unfolding memory_keys_def listed_def memory_objects_def map_of_eq_None_iff mem_Collect_eq not_not
    by (cases after) (force simp: image_iff)+
  then show ?thesis by blast
qed

lemma memory_delete: "memory_objects (snd (s3_delete memory_s3 b ks m)) = (memory_objects m)(b := without (set ks) (memory_objects m b))"
proof -
  have "map_of (filter (\<lambda>x. \<not> (fst (fst x) = b \<and> snd (fst x) \<in> set ks)) m) (c, k) =
      (if c = b \<and> k \<in> set ks then None else map_of m (c, k))" for c k
    by (induction m) auto
  then show ?thesis by (intro ext) (simp add: memory_s3_def memory_objects_def without_def)
qed

lemma memory_put: "memory_objects (snd (s3_put memory_s3 b k x m)) = (memory_objects m)(b := (memory_objects m b)(k \<mapsto> (x, None)))"
  by (intro ext) (simp add: memory_s3_def memory_objects_def)

lemma memory_list:
  assumes "s3_list memory_s3 b p after m = Inr (ks, tr)"
  shows "page_ok (listed memory_objects m b p after) ks tr"
proof -
  have "ks = take 2 (memory_keys m b p after)" "tr = (2 < length (memory_keys m b p after))"
    using assms by (simp_all add: memory_s3_def Let_def)
  moreover have "sorted (memory_keys m b p after)" "distinct (memory_keys m b p after)" by (simp_all add: memory_keys_def)
  ultimately show ?thesis using first_page [of "memory_keys m b p after"] by (simp add: memory_keys_set)
qed

lemma memory_finite: "finite (dom (memory_objects m b))"
proof (rule finite_subset)
  show "dom (memory_objects m b) \<subseteq> snd ` fst ` set m"
    by (auto simp: memory_objects_def dest!: map_of_SomeD) (force simp: image_iff)
qed simp

lemma memory_contract: "s3_contract memory_s3 memory_objects"
  unfolding s3_contract_def
proof (intro conjI allI impI)
  fix s b ks show "\<exists>K \<subseteq> set ks. memory_objects (snd (s3_delete memory_s3 b ks s)) = (memory_objects s)(b := without K (memory_objects s b)) \<and>
      (fst (s3_delete memory_s3 b ks s) = Inr () \<longrightarrow> K = set ks)"
    using memory_delete [of b ks s] by blast
next
  fix s b k show "case s3_get memory_s3 b k s of Inl e \<Rightarrow> e \<in> {''404'', ''NoSuchKey''} \<longrightarrow> memory_objects s b k = None
      | Inr x \<Rightarrow> memory_objects s b k = Some x"
    by (simp add: memory_s3_def memory_objects_def split: option.split)
qed (use memory_finite memory_list memory_put in blast)+

text \<open>A file of a statement next to one of another.\<close>

definition held_statement :: statement where
  "held_statement = \<lparr>st_id = 2, st_user = 1, st_account = None, seaweed_file_id = raw_statement_key 1 2 ''pdf'', checksum = [],
     file_size = None, file_type = None, status = Extracted, failure_reason = None, failed_phase = None, is_processing = False,
     start_transaction_date = None, last_transaction_date = None, upload_date = 0\<rparr>"

definition held_files :: memory where
  "held_files = snd (store_raw_file memory_s3 (raw_statement_key 1 3 ''pdf'') ''other''
     (snd (store_raw_file memory_s3 (raw_statement_key 1 2 ''pdf'') ''file'' [])))"

lemma raw_key_bucket: "storage_for_key (raw_statement_key u k x) =
    Inr (''pfm-statements-raw'', uuid_str u @ CHR ''/'' # uuid_str k @ CHR ''/'' # ''original.'' @ x)"
proof -
  have "''pfm-statements-raw'' \<in> set BUCKETS" by (simp add: BUCKETS_def)
  from storage_for_key_bucket [OF this, of "uuid_str u @ CHR ''/'' # uuid_str k @ CHR ''/'' # ''original.'' @ x"]
  show ?thesis by (simp add: raw_statement_key_def)
qed


subsection \<open>The bootstrap command\<close>

text \<open>It succeeds, leaves every bucket there, and changes nothing when run again.\<close>

lemma ensure_buckets_ok:
  assumes "bucket_contract api have_bucket"
  shows "\<exists>s'. ensure_buckets api bs s = (Inr (), s') \<and> have_bucket s' = have_bucket s \<union> set bs \<and>
    (set bs \<subseteq> have_bucket s \<longrightarrow> s' = s)"
proof (induction bs arbitrary: s)
  case (Cons b bs)
  show ?case
  proof (cases "b \<in> have_bucket s")
    case True
    then have "s3_create api b s = (Inl ''BucketAlreadyOwnedByYou'', s)" using assms by (auto simp: bucket_contract_def)
    then show ?thesis using Cons.IH [of s] True by auto
  next
    case False
    then obtain s1 where "s3_create api b s = (Inr (), s1)" "have_bucket s1 = insert b (have_bucket s)"
      using assms unfolding bucket_contract_def by metis
    then show ?thesis using Cons.IH [of s1] False by auto
  qed
qed simp

lemma ensure_storage_buckets_idempotent:
  assumes "bucket_contract api have_bucket" "ensure_storage_buckets api s = (r, s')"
  shows "r = Inr () \<and> set BUCKETS \<subseteq> have_bucket s' \<and> ensure_storage_buckets api s' = (Inr (), s')"
  using ensure_buckets_ok [OF assms(1), of BUCKETS s] ensure_buckets_ok [OF assms(1), of BUCKETS s'] assms(2)
  by (auto simp: ensure_storage_buckets_def)

end
