(* ===== verification/Category_Migration.thy ===== *)
theory Category_Migration
  imports Categories
begin

text \<open>
  The data migration core/migrations/0012_convert_category_to_fk.py: the free text of a
  transaction's and an allocation's category becomes a reference to a row of the taxonomy, and
  back. In between both columns are there; the last operation makes the reference of an
  allocation required. It files a row exactly where the application would file it today, and
  going back and forth again changes nothing.
\<close>

subsection \<open>The tables while the migration runs\<close>

record legacy_txn =
  lt_id :: uuid
  lt_type :: "string option"
  lt_str :: "string option"
  lt_category :: "uuid option"

record legacy_alloc =
  la_id :: uuid
  la_str :: "string option"
  la_category :: "uuid option"

record legacy =
  le_categories :: "category list"
  le_txns :: "legacy_txn list"
  le_allocs :: "legacy_alloc list"

text \<open>The copy of the alias table in the migration.\<close>

definition MIGRATION_ALIASES :: "(string \<times> string) list" where
  "MIGRATION_ALIASES =
    [(''groceries'', ''food''), (''dining'', ''food''), (''restaurants'', ''food''), (''transportation'', ''transport''),
     (''utilities'', ''housing''), (''bills'', ''housing''), (''rent'', ''housing''), (''shopping'', ''lifestyle''),
     (''entertainment'', ''lifestyle''), (''health'', ''other''), (''income'', ''other_income''), (''transfer'', ''transfers_in'')]"

text \<open>The dictionary by name; a later row of the same name would win.\<close>

definition by_name :: "category list \<Rightarrow> string \<Rightarrow> category option" where
  "by_name cs name = map_of (rev (map (\<lambda>c. (cat_name c, c)) cs)) name"

definition resolve_legacy :: "category list \<Rightarrow> string option \<Rightarrow> category option \<Rightarrow> category option" where
  "resolve_legacy cs raw fallback =
     (case raw of
        None \<Rightarrow> fallback
      | Some r \<Rightarrow>
          let key = str_lower (str_strip r)
          in case by_name cs key of
               Some c \<Rightarrow> Some c
             | None \<Rightarrow>
                 (case map_of MIGRATION_ALIASES key of
                    None \<Rightarrow> fallback
                  | Some a \<Rightarrow> (case by_name cs a of Some c \<Rightarrow> Some c | None \<Rightarrow> fallback)))"

definition backfill_txn :: "category list \<Rightarrow> legacy_txn \<Rightarrow> legacy_txn" where
  "backfill_txn cs t =
     (case lt_str t of
        None \<Rightarrow> t
      | Some r \<Rightarrow> t\<lparr>lt_category := map_option cat_id (resolve_legacy cs (Some r) (fallback_category cs (is_credit (lt_type t))))\<rparr>)"

definition backfill_alloc :: "category list \<Rightarrow> legacy_alloc \<Rightarrow> legacy_alloc" where
  "backfill_alloc cs a = a\<lparr>la_category := map_option cat_id (resolve_legacy cs (la_str a) (fallback_category cs False))\<rparr>"

definition backfill_categories :: "legacy \<Rightarrow> legacy" where
  "backfill_categories d = d\<lparr>le_txns := map (backfill_txn (le_categories d)) (le_txns d),
     le_allocs := map (backfill_alloc (le_categories d)) (le_allocs d)\<rparr>"

definition name_of :: "category list \<Rightarrow> uuid option \<Rightarrow> string option" where
  "name_of cs k = Option.bind k (\<lambda>i. map_option cat_name (by_pk cat_id cs i))"

definition restore_category_strings :: "legacy \<Rightarrow> legacy" where
  "restore_category_strings d =
     d\<lparr>le_txns := map (\<lambda>t. t\<lparr>lt_str := name_of (le_categories d) (lt_category t)\<rparr>) (le_txns d),
       le_allocs := map (\<lambda>a. a\<lparr>la_str := name_of (le_categories d) (la_category a)\<rparr>) (le_allocs d)\<rparr>"

text \<open>The migration is one transaction: \<open>AlterField\<close> to a required column fails on a null.\<close>

definition convert_category_to_fk :: "legacy \<Rightarrow> exc + legacy" where
  "convert_category_to_fk d =
     (let d' = backfill_categories d
      in if \<exists>a \<in> set (le_allocs d'). la_category a = None then Inl (Unhandled ''IntegrityError'') else Inr d')"

subsection \<open>It files rows where the application does\<close>

lemma migration_aliases: "MIGRATION_ALIASES = CATEGORY_ALIASES"
  by (simp add: MIGRATION_ALIASES_def CATEGORY_ALIASES_def)

text \<open>A taxonomy as the seed leaves it: names unique and written the way a name is looked up.\<close>

definition tidy :: "category list \<Rightarrow> bool" where
  "tidy cs \<longleftrightarrow> distinct (map cat_id cs) \<and> distinct (map cat_name cs) \<and> (\<forall>c \<in> set cs. str_lower (str_strip (cat_name c)) = cat_name c)"

lemma by_name_in: "distinct (map cat_name cs) \<Longrightarrow> by_name cs n = Some c \<longleftrightarrow> c \<in> set cs \<and> cat_name c = n"
  unfolding by_name_def by (subst map_of_eq_Some_iff) (auto simp: comp_def rev_map [symmetric])

lemma by_name_is_category_named: "distinct (map cat_name cs) \<Longrightarrow> by_name cs = category_named cs"
proof
  fix n
  assume d: "distinct (map cat_name cs)"
  show "by_name cs n = category_named cs n"
  proof (cases "category_named cs n")
    case None
    then have "by_name cs n \<noteq> Some c" for c using by_name_in [OF d, of n c] by (auto simp: category_named_None)
    then have "by_name cs n = None" using not_None_eq by metis
    then show ?thesis using None by simp
  next
    case (Some c)
    then show ?thesis using by_name_in [OF d, of n c] category_named_Some by simp
  qed
qed

lemma resolve_legacy_is_resolve:
  "distinct (map cat_name cs) \<Longrightarrow> resolve_legacy cs (Some r) (fallback_category cs (is_credit ty)) = resolve_category cs (Some r) ty"
  by (auto simp: resolve_legacy_def resolve_category_def by_name_is_category_named migration_aliases Let_def split: option.split)

lemma resolve_legacy_name:
  assumes "tidy cs" "c \<in> set cs"
  shows "resolve_legacy cs (Some (cat_name c)) f = Some c"
  using assms by_name_in [of cs "cat_name c" c] by (simp add: resolve_legacy_def tidy_def Let_def)

lemma resolve_legacy_in:
  assumes "tidy cs" "f = None \<or> the f \<in> set cs" "resolve_legacy cs r f = Some c"
  shows "c \<in> set cs"
  using assms by_name_in [of cs] by (auto simp: resolve_legacy_def tidy_def Let_def split: option.splits)

lemma fallback_in: "fallback_category cs i = None \<or> the (fallback_category cs i) \<in> set cs"
  using fallback_category_Some [of cs i] by (cases "fallback_category cs i") auto


lemma name_of_Some: "distinct (map cat_id cs) \<Longrightarrow> c \<in> set cs \<Longrightarrow> name_of cs (Some (cat_id c)) = Some (cat_name c)"
  by (simp add: name_of_def by_pk_unique [OF _ _ refl])

definition unconverted :: "legacy \<Rightarrow> bool" where
  "unconverted d \<longleftrightarrow> (\<forall>t \<in> set (le_txns d). lt_category t = None)"

lemma backfill_txn_again:
  assumes "tidy cs" "lt_category t = None"
  shows "lt_category (backfill_txn cs ((backfill_txn cs t)\<lparr>lt_str := name_of cs (lt_category (backfill_txn cs t))\<rparr>)) =
    lt_category (backfill_txn cs t)"
proof (cases "lt_category (backfill_txn cs t)")
  case None
  then show ?thesis by (simp add: backfill_txn_def name_of_def)
next
  case (Some k)
  then obtain r c where "lt_str t = Some r"
      "resolve_legacy cs (Some r) (fallback_category cs (is_credit (lt_type t))) = Some c" "k = cat_id c"
    using assms(2) by (auto simp: backfill_txn_def split: option.splits)
  moreover from this have c: "c \<in> set cs" using resolve_legacy_in [OF assms(1) fallback_in] by blast
  moreover have "name_of cs (Some (cat_id c)) = Some (cat_name c)" using c assms(1) by (simp add: name_of_Some tidy_def)
  ultimately show ?thesis using resolve_legacy_name [OF assms(1) c] by (simp add: backfill_txn_def)
qed

lemma backfill_alloc_again:
  assumes "tidy cs"
  shows "la_category (backfill_alloc cs ((backfill_alloc cs a)\<lparr>la_str := name_of cs (la_category (backfill_alloc cs a))\<rparr>)) =
    la_category (backfill_alloc cs a)"
proof (cases "resolve_legacy cs (la_str a) (fallback_category cs False)")
  case None
  then have "fallback_category cs False = None" by (auto simp: resolve_legacy_def Let_def split: option.splits)
  then show ?thesis using None by (simp add: backfill_alloc_def name_of_def resolve_legacy_def)
next
  case (Some c)
  then have c: "c \<in> set cs" using resolve_legacy_in [OF assms fallback_in] by blast
  then have "name_of cs (Some (cat_id c)) = Some (cat_name c)" using assms by (simp add: name_of_Some tidy_def)
  then show ?thesis using Some resolve_legacy_name [OF assms c] by (simp add: backfill_alloc_def)
qed


text \<open>Two categories, a transaction under an alias, one left alone, and an allocation under a name of no category.\<close>

definition before_0012 :: legacy where
  "before_0012 = \<lparr>le_categories = [\<lparr>cat_id = 1, cat_name = ''food'', cat_label = ''Food'', cat_type = ''expense'', cat_fallback = False\<rparr>,
       \<lparr>cat_id = 2, cat_name = ''other'', cat_label = ''Other'', cat_type = ''expense'', cat_fallback = True\<rparr>],
     le_txns = [\<lparr>lt_id = 3, lt_type = Some ''debit'', lt_str = Some ''Dining '', lt_category = None\<rparr>,
       \<lparr>lt_id = 4, lt_type = Some ''debit'', lt_str = None, lt_category = None\<rparr>],
     le_allocs = [\<lparr>la_id = 5, la_str = Some ''Fun'', la_category = None\<rparr>]\<rparr>"


end
