(* ===== verification/Demo_Seed.thy ===== *)
theory Demo_Seed
  imports Bank_Link Sessions
begin

text \<open>
  The commands that seed the demo bank: register_mock_bank_customer.py and
  seed_bank_demo_data.py of core/management/commands/, which drive the bank's two services and
  the backend over their own routes, and the debug route of mock-bank-oauth they read the OTP
  from. Every request is taken to reach its service, but for the health check; what a service
  draws is an argument. A \<open>CommandError\<close> is its text, in the login of the linked customers without
  the addresses and response bodies it quotes.
\<close>

subsection \<open>Requests to the ledger service\<close>

text \<open>\<open>^\+[1-9]\d{7,14}$\<close>, the pattern of the phone in the body of POST /simulate/customer.\<close>

definition is_digit :: "char \<Rightarrow> bool" where
  "is_digit c \<longleftrightarrow> 48 \<le> (of_char c :: nat) \<and> (of_char c :: nat) \<le> 57"

definition bank_phone_ok :: "string \<Rightarrow> bool" where
  "bank_phone_ok s = (case s of
       p # d # ds \<Rightarrow> p = CHR ''+'' \<and> is_digit d \<and> d \<noteq> CHR ''0'' \<and> list_all is_digit ds \<and> 7 \<le> length ds \<and> length ds \<le> 14
     | _ \<Rightarrow> False)"

text \<open>What one seeded customer draws: ids, account numbers, and the choices of each transaction.\<close>

record draw =
  dw_customer :: uuid
  dw_accounts :: "nat \<Rightarrow> uuid"
  dw_numbers :: "nat \<Rightarrow> string"
  dw_txns :: "nat \<Rightarrow> uuid"
  dw_chances :: "nat \<Rightarrow> chance"

definition post_customer ::
  "int \<Rightarrow> draw \<Rightarrow> (string \<Rightarrow> string) \<Rightarrow> string \<Rightarrow> string \<Rightarrow> string \<Rightarrow> string option \<Rightarrow> bank_ledger \<Rightarrow>
   mock_account list http \<times> bank_ledger" where
  "post_customer now w repr bank_id email phone name s =
     (if \<not> bank_phone_ok phone then (Inl (HTTPException 422 ''string_pattern_mismatch''), s)
      else simulate_customer now (dw_customer w) (dw_accounts w) (dw_numbers w) repr bank_id email phone name None s)"

text \<open>\<open>body\<close> is the start of a failed response's text.\<close>

definition returned :: "(http_error \<Rightarrow> string) \<Rightarrow> string \<Rightarrow> http_error \<Rightarrow> string" where
  "returned body what e = (case e of HTTPException st m \<Rightarrow> what @ '' returned '' @ nat_str st @ '': '' @ body e)"

text \<open>\<open>health\<close> is the outcome of GET /health: the exception's text, or the status.\<close>

definition check_service_health :: "string \<Rightarrow> string \<Rightarrow> string + nat \<Rightarrow> string + unit" where
  "check_service_health url name health =
     (case health of
        Inl e \<Rightarrow> Inl (''Could not reach '' @ name @ '' at '' @ url @ ''/health: '' @ e @ ''. Is it running? (`docker compose up -d '' @ name @ ''`)'')
      | Inr st \<Rightarrow> guard_res (st < 400) (name @ '' health check at '' @ url @ ''/health returned '' @ nat_str st))"

text \<open>\<open>n\<close> transactions on one account, each a POST /simulate/transaction that names it.\<close>

definition blank_txn :: "string \<Rightarrow> simulated_txn" where
  "blank_txn account = \<lparr>sm_account = Some account, sm_amount = None, sm_merchant = None, sm_type = None, sm_time = None\<rparr>"

fun starter_transactions ::
  "(push \<Rightarrow> 'd) \<Rightarrow> int \<Rightarrow> draw \<Rightarrow> string \<Rightarrow> nat \<Rightarrow> nat \<Rightarrow> bank_ledger \<Rightarrow> unit http \<times> bank_ledger" where
  "starter_transactions deliver now w account 0 i s = (Inr (), s)"
| "starter_transactions deliver now w account (Suc n) i s =
     (case simulate_transaction deliver (dw_chances w i) now (dw_txns w i) (blank_txn account) s of
        (Inl e, s') \<Rightarrow> (Inl e, s')
      | (Inr _, s') \<Rightarrow> starter_transactions deliver now w account n (Suc i) s')"

subsection \<open>One customer\<close>

definition STARTER_TRANSACTION_COUNT :: nat where
  "STARTER_TRANSACTION_COUNT = 15"

definition delete_existing_customer :: "(http_error \<Rightarrow> string) \<Rightarrow> string \<Rightarrow> bank_ledger \<Rightarrow> (string + unit) \<times> bank_ledger" where
  "delete_existing_customer body bank_id s =
     (case delete_simulated_customer bank_id s of
        (Inl (HTTPException st m), s') \<Rightarrow>
          (guard_res (st = 404) (returned body (''DELETE /simulate/customer/'' @ bank_id) (HTTPException st m)), s')
      | (Inr _, s') \<Rightarrow> (Inr (), s'))"

text \<open>A customer who is there already (409) is removed and created again; the result is the
  account number shown.\<close>

definition register_mock_bank_customer ::
  "bool \<Rightarrow> string \<Rightarrow> string + nat \<Rightarrow> (http_error \<Rightarrow> string) \<Rightarrow> (push \<Rightarrow> 'd) \<Rightarrow> (string \<Rightarrow> string) \<Rightarrow> int \<Rightarrow> draw \<Rightarrow>
   string \<Rightarrow> string \<Rightarrow> bank_ledger \<Rightarrow> (string + string option) \<times> bank_ledger" where
  "register_mock_bank_customer debug url health body deliver repr now w email phone s =
     (if \<not> debug then (Inl ''Refusing to register a mock bank customer: settings.DEBUG is False.'', s)
      else
       (case check_service_health url ''mock-bank-sync'' health of
          Inl e \<Rightarrow> (Inl e, s)
        | Inr _ \<Rightarrow>
            (case (case post_customer now w repr email email phone None s of
                     (Inl (HTTPException st m), s1) \<Rightarrow>
                        if st \<noteq> 409 then (Inl (returned body ''POST /simulate/customer'' (HTTPException st m)), s1)
                        else (case delete_existing_customer body email s1 of
                                (Inl e, s2) \<Rightarrow> (Inl e, s2)
                              | (Inr _, s2) \<Rightarrow> apfst (map_sum (returned body ''POST /simulate/customer'') id)
                                                 (post_customer now w repr email email phone None s2))
                   | (Inr as, s1) \<Rightarrow> (Inr as, s1)) of
               (Inl e, s2) \<Rightarrow> (Inl e, s2)
             | (Inr as, s2) \<Rightarrow>
                 (case starter_transactions deliver now w (aj_id (serialize_account (hd as))) STARTER_TRANSACTION_COUNT 0 s2 of
                    (Inl e, s3) \<Rightarrow> (Inl (returned body ''POST /simulate/transaction'' e), s3)
                  | (Inr _, s3) \<Rightarrow> (Inr (ma_number (hd as)), s3)))))"

subsection \<open>The demo batch\<close>

definition UNLINKED_ID_PREFIX :: string where
  "UNLINKED_ID_PREFIX = ''seed-bank-demo-unlinked-''"

definition LINKED_ID_PREFIX :: string where
  "LINKED_ID_PREFIX = ''seed-bank-demo-linked-''"

text \<open>Best effort: a failed deletion is a warning.\<close>

definition delete_mock_customer :: "string \<Rightarrow> bank_ledger \<Rightarrow> bank_ledger" where
  "delete_mock_customer bank_id s = snd (delete_simulated_customer bank_id s)"

definition sweep :: "nat \<Rightarrow> bank_ledger \<Rightarrow> bank_ledger" where
  "sweep n s = fold (\<lambda>i s. delete_mock_customer (LINKED_ID_PREFIX @ nat_str i)
     (delete_mock_customer (UNLINKED_ID_PREFIX @ nat_str i) s)) [0..<n] s"

text \<open>\<open>User.objects.filter(email__startswith=...).delete()\<close> and the sweep.\<close>

definition flush_users :: "sessions \<Rightarrow> sessions" where
  "flush_users s = fold (\<lambda>u s. snd (delete_me_sessions u s))
     (filter (\<lambda>u. starts_with LINKED_ID_PREFIX (user_email u)) (users (base s))) s"

definition seeded_customer ::
  "(http_error \<Rightarrow> string) \<Rightarrow> (push \<Rightarrow> 'd) \<Rightarrow> (string \<Rightarrow> string) \<Rightarrow> int \<Rightarrow> draw \<Rightarrow> string \<Rightarrow> string \<Rightarrow> string \<Rightarrow> bank_ledger \<Rightarrow>
   (string + mock_account) \<times> bank_ledger" where
  "seeded_customer body deliver repr now w bank_id email name s =
     (case post_customer now w repr bank_id email ''+201000000000'' (Some name) s of
        (Inl e, s1) \<Rightarrow> (Inl (returned body (''POST /simulate/customer for '' @ repr bank_id) e), s1)
      | (Inr as, s1) \<Rightarrow>
          (case starter_transactions deliver now w (aj_id (serialize_account (hd as))) 1 0 s1 of
             (Inl e, s2) \<Rightarrow> (Inl (returned body (''POST /simulate/transaction for account '' @ repr (aj_id (serialize_account (hd as)))) e), s2)
           | (Inr _, s2) \<Rightarrow> (Inr (hd as), s2)))"

text \<open>The customers that exist in the ledger alone, from number \<open>i\<close> on.\<close>

fun seed_unlinked ::
  "(http_error \<Rightarrow> string) \<Rightarrow> (push \<Rightarrow> 'd) \<Rightarrow> (string \<Rightarrow> string) \<Rightarrow> int \<Rightarrow> (nat \<Rightarrow> draw) \<Rightarrow> nat \<Rightarrow> nat \<Rightarrow> bank_ledger \<Rightarrow>
   (string + (string \<times> string \<times> string option) list) \<times> bank_ledger" where
  "seed_unlinked body deliver repr now w 0 i s = (Inr [], s)"
| "seed_unlinked body deliver repr now w (Suc n) i s =
     (let bank_id = UNLINKED_ID_PREFIX @ nat_str i; email = bank_id @ ''@example.com''
      in case seeded_customer body deliver repr now (w i) bank_id email (''Seed Unlinked Customer '' @ nat_str i) s of
           (Inl e, s1) \<Rightarrow> (Inl e, s1)
         | (Inr a, s1) \<Rightarrow>
             (case seed_unlinked body deliver repr now w n (Suc i) s1 of
                (Inl e, s2) \<Rightarrow> (Inl e, s2)
              | (Inr rs, s2) \<Rightarrow> (Inr ((bank_id, email, ma_number a) # rs), s2)))"

subsection \<open>Signing in at the bank\<close>

text \<open>GET /debug/challenges/{id} of the login service: the OTP in the clear, where it is enabled.\<close>

definition get_challenge_debug :: "bool \<Rightarrow> rat \<Rightarrow> string \<Rightarrow> oauth_store \<Rightarrow> string option http \<times> oauth_store" where
  "get_challenge_debug enabled now k s =
     (if \<not> enabled then (Inl (HTTPException 404 ''Not Found''), s)
      else (case get_challenge now k s of
              (None, s') \<Rightarrow> (Inl (HTTPException 404 ''Challenge not found''), s')
            | (Some c, s') \<Rightarrow> (Inr (ch_otp c), s')))"

fun page_status :: "oauth_page \<Rightarrow> nat" where
  "page_status (Error_page m st) = st"
| "page_status (Customer_form k) = 200"
| "page_status (Otp_form k) = 200"
| "page_status (Redirect_to url) = 302"
| "page_status (Token_error e m) = 400"
| "page_status (Token_issued j) = 200"
| "page_status (Server_error e) = 500"

text \<open>\<open>re.search(r"code=([^&]+)", url)\<close>.\<close>

fun code_in :: "string \<Rightarrow> string option" where
  "code_in [] = None"
| "code_in (c # s) =
     (if starts_with ''code='' (c # s) \<and> takeWhile (\<lambda>x. x \<noteq> CHR ''&'') (drop 5 (c # s)) \<noteq> []
      then Some (takeWhile (\<lambda>x. x \<noteq> CHR ''&'') (drop 5 (c # s))) else code_in s)"

text \<open>
  \<open>_complete_oauth_otp_dance\<close>: the login page of the authorization URL, the customer's id, the OTP
  through the debug route, and the code out of the redirect. A mail that cannot be sent (502) is
  no failure: the OTP is stored before. Without a stored OTP the form has no field (422).
\<close>

definition complete_oauth_otp_dance ::
  "bank_env \<Rightarrow> bool \<Rightarrow> rat \<Rightarrow> string \<Rightarrow> nat \<Rightarrow> string \<Rightarrow> string \<Rightarrow> string \<Rightarrow> string option \<Rightarrow> string \<Rightarrow> oauth_store \<Rightarrow>
   (string + string) \<times> oauth_store" where
  "complete_oauth_otp_dance env enabled now k n code client redirect st bank_id s =
     (case authorize env now k client redirect ''code'' st s of
        (Customer_form c, s1) \<Rightarrow>
          (case login_start env now n c bank_id s1 of
             (page, s2) \<Rightarrow>
               if page_status page \<notin> {200, 502} then (Inl (''POST /login/start returned '' @ nat_str (page_status page)), s2)
               else
                (case get_challenge_debug enabled now c s2 of
                   (Inl (HTTPException e m), s3) \<Rightarrow> (Inl (''GET /debug/challenges/'' @ c @ '' returned '' @ nat_str e), s3)
                 | (Inr None, s3) \<Rightarrow> (Inl ''POST /login/verify returned 422'', s3)
                 | (Inr (Some otp), s3) \<Rightarrow>
                    (case login_verify now code c otp s3 of
                       (Redirect_to url, s4) \<Rightarrow>
                         (case code_in url of
                            None \<Rightarrow> (Inl ''Could not find an authorization code in the redirect from /login/verify'', s4)
                          | Some x \<Rightarrow> (Inr x, s4))
                     | (page, s4) \<Rightarrow> (Inl (''POST /login/verify returned '' @ nat_str (page_status page)), s4))))
      | (page, s1) \<Rightarrow> (Inl (''GET /authorize returned '' @ nat_str (page_status page)), s1))"

text \<open>\<open>_wait_for_backfill\<close> over the states seen until the deadline: whether a synced row was seen.\<close>

definition backfilled :: "uuid \<Rightarrow> db \<Rightarrow> bool" where
  "backfilled u d \<longleftrightarrow> (\<exists>t \<in> set (txns d). source t = ''synced'' \<and>
     (\<exists>a \<in> set (accounts d). acc_id a = txn_account t \<and>
        (\<exists>c \<in> set (connections d). acc_connection a = Some (conn_id c) \<and> conn_user c = u)))"

definition wait_for_backfill :: "uuid \<Rightarrow> db list \<Rightarrow> bool" where
  "wait_for_backfill u seen \<longleftrightarrow> list_ex (backfilled u) seen"

subsection \<open>The customers registered in both systems\<close>

text \<open>The three services, what they are configured with, and what one login draws.\<close>

record demo =
  dm_app :: sessions
  dm_login :: oauth_store
  dm_bank :: bank_ledger

record demo_env =
  de_app :: auth_env
  de_bank :: bank_env
  de_decode :: decoder
  de_describe :: "string \<Rightarrow> string"
  de_secret :: string
  de_repr :: "string \<Rightarrow> string"
  de_body :: "http_error \<Rightarrow> string"
  de_redirect :: string
  de_debug_route :: bool

record login_draw =
  ld_state :: string
  ld_challenge :: string
  ld_otp :: nat
  ld_code :: string
  ld_refresh :: string
  ld_jti :: string

text \<open>The login service looks its customers up in the ledger as it is.\<close>

definition login_env :: "demo_env \<Rightarrow> bank_ledger \<Rightarrow> bank_env" where
  "login_env de b = (de_bank de)\<lparr>env_lookup := directory (de_secret de) (de_secret de) (de_repr de) b\<rparr>"

text \<open>The callback's exchange spends the code at the login service.\<close>

definition exchanged :: "demo_env \<Rightarrow> rat \<Rightarrow> login_draw \<Rightarrow> string \<Rightarrow> demo \<Rightarrow> oauth_store" where
  "exchanged de now l code s = snd (token_route (login_env de (dm_bank s)) now (ld_refresh l) ''authorization_code'' code
     (de_redirect de) (env_client_id (de_bank de)) (env_client_secret (de_bank de)) (dm_login s))"

definition bank_login :: "demo_env \<Rightarrow> int \<Rightarrow> login_draw \<Rightarrow> string \<Rightarrow> demo \<Rightarrow> (string + uuid) \<times> demo" where
  "bank_login de now l bank_id s =
     (case bank_login_initiate (de_app de) now (ld_state l) (Inr ''mock_bank'') (dm_app s) of
        (Inl e, a) \<Rightarrow> (Inl ''POST /auth/bank-login/initiate/ failed'', s\<lparr>dm_app := a\<rparr>)
      | (Inr (state, url), a) \<Rightarrow>
          (case complete_oauth_otp_dance (login_env de (dm_bank s)) (de_debug_route de) (of_int now) (ld_challenge l) (ld_otp l)
                  (ld_code l) (env_client_id (de_bank de)) (de_redirect de) (Some state) bank_id (dm_login s) of
             (Inl m, o') \<Rightarrow> (Inl m, s\<lparr>dm_app := a, dm_login := o'\<rparr>)
           | (Inr code, o') \<Rightarrow>
               let s1 = s\<lparr>dm_app := a, dm_login := o'\<rparr>;
                   pr = bank_provider (de_describe de) (login_env de (dm_bank s)) (de_decode de) (of_int now) (ld_refresh l)
                     (de_redirect de) o' (dm_bank s)
               in (case bank_login_callback (de_app de) pr id now (ld_jti l) (Inr (code, state)) a of
                     (Inl e, a') \<Rightarrow> (Inl ''POST /auth/bank-login/callback/ failed'',
                        s1\<lparr>dm_app := a', dm_login := exchanged de (of_int now) l code s1\<rparr>)
                   | (Inr (acc, u, refresh), a') \<Rightarrow> (Inr u, s1\<lparr>dm_app := a', dm_login := exchanged de (of_int now) l code s1\<rparr>))))"

text \<open>The wait for the backfill only warns, so it is not a step here.\<close>

fun seed_linked ::
  "demo_env \<Rightarrow> (push \<Rightarrow> 'd) \<Rightarrow> int \<Rightarrow> (nat \<Rightarrow> draw) \<Rightarrow> (nat \<Rightarrow> login_draw) \<Rightarrow> nat \<Rightarrow> nat \<Rightarrow> demo \<Rightarrow>
   (string + (string \<times> string \<times> uuid) list) \<times> demo" where
  "seed_linked de deliver now w l 0 i s = (Inr [], s)"
| "seed_linked de deliver now w l (Suc n) i s =
     (let bank_id = LINKED_ID_PREFIX @ nat_str i; email = bank_id @ ''@example.com''
      in case seeded_customer (de_body de) deliver (de_repr de) now (w i) bank_id email (''Seed Linked Customer '' @ nat_str i) (dm_bank s) of
           (Inl e, b) \<Rightarrow> (Inl e, s\<lparr>dm_bank := b\<rparr>)
         | (Inr a, b) \<Rightarrow>
             (case bank_login de now (l i) bank_id (s\<lparr>dm_bank := b\<rparr>) of
                (Inl e, s2) \<Rightarrow> (Inl e, s2)
              | (Inr u, s2) \<Rightarrow>
                  (case seed_linked de deliver now w l n (Suc i) s2 of
                     (Inl e, s3) \<Rightarrow> (Inl e, s3)
                   | (Inr rs, s3) \<Rightarrow> (Inr ((bank_id, email, u) # rs), s3))))"

definition flush_demo :: "nat \<Rightarrow> demo \<Rightarrow> demo" where
  "flush_demo n s = s\<lparr>dm_app := flush_users (dm_app s), dm_bank := sweep n (dm_bank s)\<rparr>"

text \<open>The whole command: the guard, the two health checks, the flush and the two batches.\<close>

definition seed_bank_demo_data ::
  "bool \<Rightarrow> bool \<Rightarrow> (string + nat) \<Rightarrow> (string + nat) \<Rightarrow> demo_env \<Rightarrow> (push \<Rightarrow> 'd) \<Rightarrow> int \<Rightarrow> (nat \<Rightarrow> draw) \<Rightarrow> (nat \<Rightarrow> draw) \<Rightarrow>
   (nat \<Rightarrow> login_draw) \<Rightarrow> nat \<Rightarrow> nat \<Rightarrow> demo \<Rightarrow>
   (string + (string \<times> string \<times> string option) list \<times> (string \<times> string \<times> uuid) list) \<times> demo" where
  "seed_bank_demo_data debug force oauth_health sync_health de deliver now wu wl l unlinked linked s =
     (if \<not> debug \<and> \<not> force then (Inl ''Refusing to seed bank demo data: settings.DEBUG is False. Pass --force to override.'', s)
      else
       (case res_bind (check_service_health ''MOCK_BANK_OAUTH_SERVICE_URL'' ''mock-bank-oauth'' oauth_health)
               (\<lambda>_. check_service_health ''MOCK_BANK_SYNC_SERVICE_URL'' ''mock-bank-sync'' sync_health) of
          Inl e \<Rightarrow> (Inl e, s)
        | Inr _ \<Rightarrow>
            let s1 = flush_demo (max (max unlinked linked) 10) s
            in (case seed_unlinked (de_body de) deliver (de_repr de) now wu unlinked 0 (dm_bank s1) of
                  (Inl e, b) \<Rightarrow> (Inl e, s1\<lparr>dm_bank := b\<rparr>)
                | (Inr us, b) \<Rightarrow>
                    (case seed_linked de deliver now wl l linked 0 (s1\<lparr>dm_bank := b\<rparr>) of
                       (Inl e, s2) \<Rightarrow> (Inl e, s2)
                     | (Inr ls, s2) \<Rightarrow> (Inr (us, ls), s2)))))"

end
