(* ===== verification/Demo_Laws.thy ===== *)
theory Demo_Laws
  imports Demo_Seed
begin

text \<open>
  What the demo commands promise: a customer registered again is replaced by one with a full set
  of starter transactions, nobody else's rows are touched, a flush removes its own rows only, and
  the login they drive ends with a code the token route accepts for that customer.
\<close>

subsection \<open>The ledger's tables\<close>

definition bank_ok :: "bank_ledger \<Rightarrow> bool" where
  "bank_ok s \<longleftrightarrow> distinct (map mc_id (bk_customers s)) \<and> distinct (map mc_bank_id (bk_customers s)) \<and>
     distinct (map ma_id (bk_accounts s)) \<and> ma_customer ` set (bk_accounts s) \<subseteq> mc_id ` set (bk_customers s) \<and>
     mt_account ` set (bk_txns s) \<subseteq> ma_id ` set (bk_accounts s)"

lemma bank_okD:
  assumes "bank_ok s"
  shows "a \<in> set (bk_accounts s) \<Longrightarrow> ma_customer a \<in> mc_id ` set (bk_customers s)"
    "t \<in> set (bk_txns s) \<Longrightarrow> mt_account t \<in> ma_id ` set (bk_accounts s)"
  using assms by (auto simp: bank_ok_def image_subset_iff)

text \<open>The customer of a bank id, and what is kept of everybody else.\<close>

definition bank_customers :: "string \<Rightarrow> bank_ledger \<Rightarrow> mock_customer list" where
  "bank_customers k s = filter (\<lambda>c. mc_bank_id c = k) (bk_customers s)"

definition others_kept :: "string \<Rightarrow> bank_ledger \<Rightarrow> bank_ledger \<Rightarrow> bool" where
  "others_kept k s s' \<longleftrightarrow> filter (\<lambda>c. mc_bank_id c \<noteq> k) (bk_customers s') = filter (\<lambda>c. mc_bank_id c \<noteq> k) (bk_customers s) \<and>
     (\<forall>c \<in> set (bk_customers s). mc_bank_id c \<noteq> k \<longrightarrow>
        filter (\<lambda>a. ma_customer a = mc_id c) (bk_accounts s') = filter (\<lambda>a. ma_customer a = mc_id c) (bk_accounts s) \<and>
        (\<forall>a \<in> set (bk_accounts s). ma_customer a = mc_id c \<longrightarrow>
           filter (\<lambda>t. mt_account t = ma_id a) (bk_txns s') = filter (\<lambda>t. mt_account t = ma_id a) (bk_txns s)))"

lemma distinct_key: "distinct (map f xs) \<Longrightarrow> x \<in> set xs \<Longrightarrow> y \<in> set xs \<Longrightarrow> f x = f y \<Longrightarrow> x = y"
  by (auto simp: distinct_map dest: inj_onD)

lemma filter_other: "b \<notin> G \<Longrightarrow> filter (\<lambda>t. f t = b) (filter (\<lambda>t. f t \<notin> G) xs) = filter (\<lambda>t. f t = b) xs"
  by (induction xs) auto

lemma delete_simulated_customer_ok:
  assumes "bank_ok s"
  shows "bank_ok (snd (delete_simulated_customer k s))"
proof (cases "List.find (\<lambda>c. mc_bank_id c = k) (bk_customers s)")
  case None
  then show ?thesis using assms by (simp add: delete_simulated_customer_def)
next
  case (Some c)
  note ok = assms [unfolded bank_ok_def]
  let ?as = "filter (\<lambda>a. ma_customer a \<noteq> mc_id c) (bk_accounts s)"
  let ?gone = "set (map ma_id (filter (\<lambda>a. ma_customer a = mc_id c) (bk_accounts s)))"
  have "ma_customer ` set ?as \<subseteq> mc_id ` set (filter (\<lambda>x. mc_id x \<noteq> mc_id c) (bk_customers s))"
  proof
    fix i assume "i \<in> ma_customer ` set ?as"
    then obtain a where "a \<in> set (bk_accounts s)" "ma_customer a = i" "i \<noteq> mc_id c" by auto
    moreover have "i \<in> mc_id ` set (bk_customers s)" using bank_okD(1) [OF assms \<open>a \<in> set (bk_accounts s)\<close>] \<open>ma_customer a = i\<close> by simp
    ultimately show "i \<in> mc_id ` set (filter (\<lambda>x. mc_id x \<noteq> mc_id c) (bk_customers s))" by auto
  qed
  moreover have "mt_account ` set (filter (\<lambda>t. mt_account t \<notin> ?gone) (bk_txns s)) \<subseteq> ma_id ` set ?as"
  proof
    fix i assume "i \<in> mt_account ` set (filter (\<lambda>t. mt_account t \<notin> ?gone) (bk_txns s))"
    then have i: "i \<in> mt_account ` set (bk_txns s)" "i \<notin> ?gone" by auto
    then have "i \<in> ma_id ` set (bk_accounts s)" using bank_okD(2) [OF assms] by auto
    then obtain a where "a \<in> set (bk_accounts s)" "ma_id a = i" by auto
    then show "i \<in> ma_id ` set ?as" using i(2) by auto
  qed
  ultimately show ?thesis
    using ok Some by (simp add: delete_simulated_customer_def Let_def bank_ok_def distinct_map_filter)
qed

lemma delete_simulated_customer_gone:
  assumes ok: "bank_ok s" and d: "delete_simulated_customer k s = (r, s')"
  shows "bank_customers k s' = [] \<and> others_kept k s s' \<and> (r = Inr () \<or> r = Inl (HTTPException 404 ''Customer not found''))"
proof (cases "List.find (\<lambda>c. mc_bank_id c = k) (bk_customers s)")
  case None
  then have "s' = s" "r = Inl (HTTPException 404 ''Customer not found'')" using d by (simp_all add: delete_simulated_customer_def)
  then show ?thesis using None by (simp add: bank_customers_def others_kept_def find_None_iff filter_empty_conv)
next
  case (Some c)
  then have c: "c \<in> set (bk_customers s)" "mc_bank_id c = k" by (auto simp: find_Some_iff)
  have id: "mc_id x = mc_id c \<longleftrightarrow> mc_bank_id x = k" if "x \<in> set (bk_customers s)" for x
    using ok c that distinct_key [of mc_id _ x c] distinct_key [of mc_bank_id _ x c] unfolding bank_ok_def by metis
  let ?gone = "set (map ma_id (filter (\<lambda>a. ma_customer a = mc_id c) (bk_accounts s)))"
  have s': "r = Inr ()" "s' = s\<lparr>bk_customers := filter (\<lambda>x. mc_id x \<noteq> mc_id c) (bk_customers s),
      bk_accounts := filter (\<lambda>a. ma_customer a \<noteq> mc_id c) (bk_accounts s), bk_txns := filter (\<lambda>t. mt_account t \<notin> ?gone) (bk_txns s)\<rparr>"
    using d Some by (auto simp: delete_simulated_customer_def Let_def)
  have "bank_customers k s' = []" using id by (auto simp: s'(2) bank_customers_def filter_empty_conv)
  moreover have "filter (\<lambda>x. mc_bank_id x \<noteq> k) (bk_customers s') = filter (\<lambda>x. mc_bank_id x \<noteq> k) (bk_customers s)"
    unfolding s'(2) by (simp, rule filter_cong [OF refl]) (use id in simp)
  moreover have "filter (\<lambda>a. ma_customer a = mc_id x) (bk_accounts s') = filter (\<lambda>a. ma_customer a = mc_id x) (bk_accounts s)"
    if "x \<in> set (bk_customers s)" "mc_bank_id x \<noteq> k" for x
    unfolding s'(2) by (simp, rule filter_cong [OF refl]) (use id [OF that(1)] that(2) in auto)
  moreover have "filter (\<lambda>t. mt_account t = ma_id a) (bk_txns s') = filter (\<lambda>t. mt_account t = ma_id a) (bk_txns s)"
    if "x \<in> set (bk_customers s)" "mc_bank_id x \<noteq> k" "a \<in> set (bk_accounts s)" "ma_customer a = mc_id x" for x a
  proof -
    have "ma_id a \<notin> ?gone"
    proof
      assume "ma_id a \<in> ?gone"
      then obtain b where "b \<in> set (bk_accounts s)" "ma_customer b = mc_id c" "ma_id b = ma_id a" by auto
      then have "b = a" using ok that(3) distinct_key [of ma_id] unfolding bank_ok_def by metis
      then show False using \<open>ma_customer b = mc_id c\<close> that id by metis
    qed
    from filter_other [OF this, of mt_account "bk_txns s"] show ?thesis unfolding s'(2) by simp
  qed
  ultimately show ?thesis using s'(1) unfolding others_kept_def by blast
qed


text \<open>A new customer, and transactions on an account of the ledger.\<close>

lemma simulate_customer_new:
  assumes "simulate_customer now c keys numbers repr k email phone name None s = (Inr as, s')"
  shows "bank_customers k s = []" "\<exists>a x. as = [a] \<and> ma_id a = keys 0 \<and> ma_customer a = c \<and> mc_id x = c \<and> mc_bank_id x = k \<and>
      s' = s\<lparr>bk_customers := bk_customers s @ [x], bk_accounts := bk_accounts s @ [a]\<rparr>"
proof -
  show "bank_customers k s = []"
    using assms by (auto simp: simulate_customer_def bank_customers_def filter_empty_conv split: if_splits)
  define x where "x = \<lparr>mc_id = c, mc_bank_id = k, mc_email = email, mc_phone = phone, mc_name = name\<rparr>"
  have "s' = s\<lparr>bk_customers := bk_customers s @ [x], bk_accounts := bk_accounts s @ as\<rparr>" "length as = 1" "ma_id (hd as) = keys 0" "ma_customer (hd as) = c"
    using assms by (auto simp: simulate_customer_def simulated_accounts_def Let_def x_def split: if_splits)
  then show "\<exists>a x. as = [a] \<and> ma_id a = keys 0 \<and> ma_customer a = c \<and> mc_id x = c \<and> mc_bank_id x = k \<and>
      s' = s\<lparr>bk_customers := bk_customers s @ [x], bk_accounts := bk_accounts s @ [a]\<rparr>"
    by (intro exI [of _ "hd as"] exI [of _ x]) (cases as; simp add: x_def)
qed

lemma simulate_customer_ok:
  assumes "bank_ok s" "simulate_customer now c keys numbers repr k email phone name None s = (Inr as, s')"
    and new: "c \<notin> mc_id ` set (bk_customers s)" "keys 0 \<notin> ma_id ` set (bk_accounts s)"
  shows "bank_ok s' \<and> others_kept k s s'"
proof -
  from simulate_customer_new [OF assms(2)] obtain a x where s': "bank_customers k s = []" "ma_id a = keys 0" "ma_customer a = c"
      "mc_id x = c" "mc_bank_id x = k" "s' = s\<lparr>bk_customers := bk_customers s @ [x], bk_accounts := bk_accounts s @ [a]\<rparr>" by blast
  have none: "k \<notin> mc_bank_id ` set (bk_customers s)" using s'(1) by (auto simp: bank_customers_def filter_empty_conv)
  have "bank_ok s'" using assms(1) new none s'(2-5) unfolding s'(6) bank_ok_def by auto
  moreover have "\<forall>y \<in> set (bk_customers s). mc_id y \<noteq> c" using new(1) by auto
  then have "others_kept k s s'" using s'(3,5) unfolding s'(6) others_kept_def by auto
  ultimately show ?thesis ..
qed

lemma simulated_row_account [simp]: "mt_account (simulated_row ch now k x a) = ma_id a"
  by (simp add: simulated_row_def Let_def)

lemma simulate_transaction_named:
  assumes "a \<in> set (bk_accounts s)" "distinct (map ma_id (bk_accounts s))" "ma_id a < 16 ^ 32"
  shows "\<exists>r t. simulate_transaction deliver ch now k (blank_txn (uuid_str (ma_id a))) s = (Inr r, s\<lparr>bk_txns := bk_txns s @ [t]\<rparr>) \<and>
    mt_account t = ma_id a"
proof -
  have "uuid_str (ma_id a) \<noteq> []" using length_uuid_str [of "ma_id a"] by fastforce
  then have "simulated_account ch (Some (uuid_str (ma_id a))) s = Inr a"
    using assms by (simp add: simulated_account_def falsy_def parse_uuid_str by_pk_unique)
  then have "\<exists>r. simulate_transaction deliver ch now k (blank_txn (uuid_str (ma_id a))) s =
      (Inr r, s\<lparr>bk_txns := bk_txns s @ [simulated_row ch now k (blank_txn (uuid_str (ma_id a))) a]\<rparr>)"
    by (simp add: simulate_transaction_def blank_txn_def Let_def)
  then show ?thesis using simulated_row_account by blast
qed

lemma starter_transactions_all:
  assumes "a \<in> set (bk_accounts s)" "bank_ok s" "ma_id a < 16 ^ 32"
  shows "\<exists>ts. starter_transactions deliver now w (uuid_str (ma_id a)) n i s = (Inr (), s\<lparr>bk_txns := bk_txns s @ ts\<rparr>) \<and>
    length ts = n \<and> (\<forall>t \<in> set ts. mt_account t = ma_id a)"
  using assms
proof (induction n arbitrary: i s)
  case (Suc n)
  have d: "distinct (map ma_id (bk_accounts s))" using Suc.prems(2) by (simp add: bank_ok_def)
  from simulate_transaction_named [OF Suc.prems(1) d Suc.prems(3)] obtain r t where
    t: "simulate_transaction deliver (dw_chances w i) now (dw_txns w i) (blank_txn (uuid_str (ma_id a))) s = (Inr r, s\<lparr>bk_txns := bk_txns s @ [t]\<rparr>)"
      "mt_account t = ma_id a" by blast
  let ?s = "s\<lparr>bk_txns := bk_txns s @ [t]\<rparr>"
  have "bank_ok ?s" using Suc.prems(1,2) t(2) by (auto simp: bank_ok_def)
  from Suc.IH [of ?s "Suc i"] Suc.prems(1,3) this obtain ts where
    ts: "starter_transactions deliver now w (uuid_str (ma_id a)) n (Suc i) ?s = (Inr (), ?s\<lparr>bk_txns := bk_txns ?s @ ts\<rparr>)"
      "length ts = n" "\<forall>t \<in> set ts. mt_account t = ma_id a" by auto
  then show ?case using t by (intro exI [of _ "t # ts"]) simp
qed simp

lemma others_kept_refl [simp]: "others_kept k s s"
  by (simp add: others_kept_def)

lemma others_kept_trans:
  assumes "others_kept k s s1" "others_kept k s1 s2"
  shows "others_kept k s s2"
  unfolding others_kept_def
proof (intro conjI ballI impI)
  show "filter (\<lambda>c. mc_bank_id c \<noteq> k) (bk_customers s2) = filter (\<lambda>c. mc_bank_id c \<noteq> k) (bk_customers s)"
    using assms by (simp add: others_kept_def)
next
  fix c assume c: "c \<in> set (bk_customers s)" "mc_bank_id c \<noteq> k"
  then have "c \<in> set (filter (\<lambda>c. mc_bank_id c \<noteq> k) (bk_customers s1))" using assms(1) by (simp add: others_kept_def)
  then have c1: "c \<in> set (bk_customers s1)" by simp
  show "filter (\<lambda>a. ma_customer a = mc_id c) (bk_accounts s2) = filter (\<lambda>a. ma_customer a = mc_id c) (bk_accounts s)"
    using assms c c1 by (simp add: others_kept_def)
  fix a assume a: "a \<in> set (bk_accounts s)" "ma_customer a = mc_id c"
  then have "a \<in> set (filter (\<lambda>a. ma_customer a = mc_id c) (bk_accounts s1))" using assms(1) c by (simp add: others_kept_def)
  then have "a \<in> set (bk_accounts s1)" by simp
  then show "filter (\<lambda>t. mt_account t = ma_id a) (bk_txns s2) = filter (\<lambda>t. mt_account t = ma_id a) (bk_txns s)"
    using assms a c c1 by (simp add: others_kept_def)
qed

lemma others_kept_txns:
  assumes "\<forall>t \<in> set ts. mt_account t = ma_id a" "a \<in> set (bk_accounts s)" "bank_ok s" "x \<in> set (bk_customers s)" "ma_customer a = mc_id x"
  shows "others_kept (mc_bank_id x) s (s\<lparr>bk_txns := bk_txns s @ ts\<rparr>)"
proof -
  have "ma_id b \<noteq> ma_id a" if "b \<in> set (bk_accounts s)" "c \<in> set (bk_customers s)" "ma_customer b = mc_id c" "mc_bank_id c \<noteq> mc_bank_id x" for b c
  proof
    assume "ma_id b = ma_id a"
    then have "b = a" using assms(2,3) that(1) distinct_key [of ma_id] unfolding bank_ok_def by metis
    then have "c = x" using assms(3-5) that(2,3) distinct_key [of mc_id] unfolding bank_ok_def by metis
    then show False using that(4) by simp
  qed
  then have "filter (\<lambda>t. mt_account t = ma_id b) ts = []"
    if "b \<in> set (bk_accounts s)" "c \<in> set (bk_customers s)" "ma_customer b = mc_id c" "mc_bank_id c \<noteq> mc_bank_id x" for b c
    using assms(1) that unfolding filter_empty_conv by metis
  then show ?thesis by (auto simp: others_kept_def)
qed

text \<open>What a seeded customer finds when nobody has its id.\<close>

lemma seeded_from_scratch:
  assumes ok: "bank_ok s" and c: "post_customer now w repr k email phone name s = (Inr as, s1)"
    and new: "dw_customer w \<notin> mc_id ` set (bk_customers s)" "dw_accounts w 0 \<notin> ma_id ` set (bk_accounts s)" "dw_accounts w 0 < 16 ^ 32"
  shows "\<exists>x a s2. starter_transactions deliver now w (aj_id (serialize_account (hd as))) n 0 s1 = (Inr (), s2) \<and> bank_ok s2 \<and>
    bank_customers k s2 = [x] \<and> mc_id x = dw_customer w \<and> filter (\<lambda>a. ma_customer a = mc_id x) (bk_accounts s2) = [a] \<and> hd as = a \<and>
    ma_id a = dw_accounts w 0 \<and> length (filter (\<lambda>t. mt_account t = ma_id a) (bk_txns s2)) = n \<and> others_kept k s s2"
proof -
  have sim: "simulate_customer now (dw_customer w) (dw_accounts w) (dw_numbers w) repr k email phone name None s = (Inr as, s1)"
    using c by (simp add: post_customer_def split: if_splits)
  note keep = simulate_customer_ok [OF ok sim new(1,2)]
  from simulate_customer_new [OF sim] obtain a x where s1: "bank_customers k s = []" "as = [a]" "ma_id a = dw_accounts w 0"
      "ma_customer a = dw_customer w" "mc_id x = dw_customer w" "mc_bank_id x = k"
      "s1 = s\<lparr>bk_customers := bk_customers s @ [x], bk_accounts := bk_accounts s @ [a]\<rparr>" by blast
  have a: "a \<in> set (bk_accounts s1)" "ma_id a < 16 ^ 32" using s1 new(3) by simp_all
  from starter_transactions_all [OF a(1) keep [THEN conjunct1] a(2)] obtain ts where ts:
      "starter_transactions deliver now w (uuid_str (ma_id a)) n 0 s1 = (Inr (), s1\<lparr>bk_txns := bk_txns s1 @ ts\<rparr>)"
      "length ts = n" "\<forall>t \<in> set ts. mt_account t = ma_id a" by blast
  let ?s2 = "s1\<lparr>bk_txns := bk_txns s1 @ ts\<rparr>"
  have "bank_ok ?s2" using keep ts(3) a(1) by (auto simp: bank_ok_def)
  moreover have "bank_customers k ?s2 = [x]" using s1(1,6) by (simp add: s1(7) bank_customers_def)
  moreover have "ma_customer b \<noteq> dw_customer w" if "b \<in> set (bk_accounts s)" for b
    using bank_okD(1) [OF ok that] new(1) by metis
  then have "filter (\<lambda>b. ma_customer b = mc_id x) (bk_accounts ?s2) = [a]" using s1(4,5) by (simp add: s1(7) filter_empty_conv)
  moreover have "mt_account t \<noteq> dw_accounts w 0" if "t \<in> set (bk_txns s)" for t
    using bank_okD(2) [OF ok that] new(2) by metis
  then have "length (filter (\<lambda>t. mt_account t = ma_id a) (bk_txns ?s2)) = n"
    using ts(2,3) s1(3) by (simp add: s1(7) filter_empty_conv)
  moreover have "others_kept k s1 ?s2"
    using others_kept_txns [OF ts(3) a(1) keep [THEN conjunct1], of x] s1(4-6) by (simp add: s1(7))
  then have "others_kept k s ?s2" using keep others_kept_trans by blast
  ultimately show ?thesis using ts(1) s1(2,3,5) by (intro exI [of _ x] exI [of _ a] exI [of _ ?s2]) (simp add: serialize_account_def)
qed

text \<open>Registering a customer of the demo bank, known or not, leaves exactly one customer of that
  id, with one account and fifteen transactions on it, and everything of everybody else as it was.
\<close>

theorem register_replaces_customer:
  assumes ok: "bank_ok s" and phone: "bank_phone_ok phone"
    and new: "dw_customer w \<notin> mc_id ` set (bk_customers s)" "dw_accounts w 0 \<notin> ma_id ` set (bk_accounts s)" "dw_accounts w 0 < 16 ^ 32"
  shows "\<exists>number s' x a. register_mock_bank_customer True url (Inr 200) body deliver repr now w email phone s = (Inr number, s') \<and>
    bank_ok s' \<and> bank_customers email s' = [x] \<and> filter (\<lambda>a. ma_customer a = mc_id x) (bk_accounts s') = [a] \<and> number = ma_number a \<and>
    length (filter (\<lambda>t. mt_account t = ma_id a) (bk_txns s')) = 15 \<and> others_kept email s s'"
proof -
  obtain r s0 where d: "delete_simulated_customer email s = (r, s0)" by fastforce
  note gone = delete_simulated_customer_gone [OF ok d]
  have ok0: "bank_ok s0" using delete_simulated_customer_ok [OF ok, of email] d by simp
  define s1 where "s1 = (if bank_customers email s = [] then s else s0)"
  have s1: "bank_ok s1" "bank_customers email s1 = []" "others_kept email s s1"
    using ok ok0 gone by (simp_all add: s1_def)
  have sub: "mc_id ` set (bk_customers s1) \<subseteq> mc_id ` set (bk_customers s)" "ma_id ` set (bk_accounts s1) \<subseteq> ma_id ` set (bk_accounts s)"
    using d by (auto simp: s1_def delete_simulated_customer_def Let_def split: option.splits)
  have new1: "dw_customer w \<notin> mc_id ` set (bk_customers s1)" "dw_accounts w 0 \<notin> ma_id ` set (bk_accounts s1)" using new sub by blast+
  obtain as s2 where p: "post_customer now w repr email email phone None s1 = (Inr as, s2)"
    using s1(2) phone by (auto simp: post_customer_def simulate_customer_def bank_customers_def filter_empty_conv Let_def)
  from seeded_from_scratch [OF s1(1) p new1 new(3), of deliver STARTER_TRANSACTION_COUNT] obtain x a s' where s':
      "starter_transactions deliver now w (aj_id (serialize_account (hd as))) STARTER_TRANSACTION_COUNT 0 s2 = (Inr (), s')" "bank_ok s'"
      "bank_customers email s' = [x]" "filter (\<lambda>a. ma_customer a = mc_id x) (bk_accounts s') = [a]" "hd as = a"
      "length (filter (\<lambda>t. mt_account t = ma_id a) (bk_txns s')) = STARTER_TRANSACTION_COUNT" "others_kept email s1 s'" by blast
  have "register_mock_bank_customer True url (Inr 200) body deliver repr now w email phone s = (Inr (ma_number a), s')"
  proof (cases "bank_customers email s = []")
    case True
    then show ?thesis using p s'(1,5)
      by (simp add: s1_def register_mock_bank_customer_def check_service_health_def guard_res_def)
  next
    case False
    then obtain m where "post_customer now w repr email email phone None s = (Inl (HTTPException 409 m), s)"
      using phone by (auto simp: post_customer_def simulate_customer_def bank_customers_def filter_empty_conv)
    moreover have "delete_existing_customer body email s = (Inr (), s0)"
      using d gone by (auto simp: delete_existing_customer_def guard_res_def)
    ultimately show ?thesis using p s'(1,5) False
      by (simp add: s1_def register_mock_bank_customer_def check_service_health_def guard_res_def)
  qed
  then show ?thesis using s'(2-4,6) others_kept_trans [OF s1(3) s'(7)] by (auto simp: STARTER_TRANSACTION_COUNT_def)
qed

text \<open>A ledger with a customer already registered under the address.\<close>

definition mona_bank :: bank_ledger where
  "mona_bank = \<lparr>bk_customers = [\<lparr>mc_id = 1, mc_bank_id = ''mona@nbe.eg'', mc_email = ''mona@nbe.eg'', mc_phone = ''+201000000000'', mc_name = None\<rparr>],
     bk_accounts = [\<lparr>ma_id = 2, ma_customer = 1, ma_bank_name = ''Mock National Bank'', ma_type = None, ma_number = None,
       ma_currency = ''EGP'', ma_created = 0\<rparr>], bk_txns = []\<rparr>"

definition sample_draw :: draw where
  "sample_draw = \<lparr>dw_customer = 3, dw_accounts = \<lambda>n. 4 + n, dw_numbers = \<lambda>n. ''12345678901234567'', dw_txns = \<lambda>n. 10 + n,
     dw_chances = \<lambda>n. \<lparr>pick_index = \<lambda>m. n, random_amount = 100\<rparr>\<rparr>"

theorem register_replaces_customer_witness:
  "\<exists>number s' x a. register_mock_bank_customer True ''http://bank'' (Inr 200) (\<lambda>e. []) (\<lambda>p. ()) id 0 sample_draw
       ''mona@nbe.eg'' ''+201000000000'' mona_bank = (Inr number, s') \<and>
     bank_customers ''mona@nbe.eg'' s' = [x] \<and> filter (\<lambda>a. ma_customer a = mc_id x) (bk_accounts s') = [a] \<and>
     number = ma_number a \<and> length (filter (\<lambda>t. mt_account t = ma_id a) (bk_txns s')) = 15"
proof -
  have "bank_ok mona_bank" by (simp add: bank_ok_def mona_bank_def)
  moreover have "bank_phone_ok ''+201000000000''" by code_simp
  moreover have "dw_customer sample_draw \<notin> mc_id ` set (bk_customers mona_bank)"
    "dw_accounts sample_draw 0 \<notin> ma_id ` set (bk_accounts mona_bank)" "dw_accounts sample_draw 0 < 16 ^ 32"
    by (simp_all add: mona_bank_def sample_draw_def)
  ultimately have "\<exists>number s' x a. register_mock_bank_customer True ''http://bank'' (Inr 200) (\<lambda>e. []) (\<lambda>p. ()) id 0 sample_draw
       ''mona@nbe.eg'' ''+201000000000'' mona_bank = (Inr number, s') \<and> bank_ok s' \<and> bank_customers ''mona@nbe.eg'' s' = [x] \<and>
     filter (\<lambda>a. ma_customer a = mc_id x) (bk_accounts s') = [a] \<and> number = ma_number a \<and>
     length (filter (\<lambda>t. mt_account t = ma_id a) (bk_txns s')) = 15 \<and> others_kept ''mona@nbe.eg'' mona_bank s'"
    by (rule register_replaces_customer)
  then show ?thesis by (elim exE conjE, intro exI conjI) assumption+
qed

subsection \<open>The login\<close>

lemma not_at_seam:
  assumes "\<not> str_in p (x # r)" "c0 \<notin> set p"
  shows "\<not> starts_with p ((x # r) @ c0 # rest)"
proof
  assume "starts_with p ((x # r) @ c0 # rest)"
  then have t: "take (length p) ((x # r) @ c0 # rest) = p" by (simp add: starts_with_def)
  show False
  proof (cases "length p \<le> length (x # r)")
    case True
    then have "take (length p) (x # r) = p" using t unfolding take_append by simp
    then show False using assms(1) by simp
  next
    case False
    then have "c0 \<in> set (take (length p) ((x # r) @ c0 # rest))"
      unfolding take_append by (cases "length p - length (x # r)") auto
    then show False using assms(2) t by simp
  qed
qed

lemma code_in_skip:
  assumes "\<not> str_in ''code='' r" "c0 \<in> {CHR ''?'', CHR ''&''}"
  shows "code_in (r @ c0 # rest) = code_in rest"
  using assms(1)
proof (induction r)
  case Nil
  have "\<not> starts_with ''code='' (c0 # rest)" using assms(2) by (auto simp: starts_with_def)
  then show ?case by simp
next
  case (Cons x r)
  have "c0 \<notin> set ''code=''" using assms(2) by auto
  from not_at_seam [OF Cons.prems this, of rest] have "\<not> starts_with ''code='' (x # r @ c0 # rest)" by simp
  then have "code_in (x # r @ c0 # rest) = code_in (r @ c0 # rest)" by (simp only: code_in.simps simp_thms if_False)
  moreover have "\<not> str_in ''code='' r" using Cons.prems unfolding str_in.simps by blast
  ultimately show ?case using Cons.IH by simp
qed

lemma quote_plus_unreserved: "list_all unreserved s \<Longrightarrow> quote_plus s = s"
  by (induction s) (simp_all add: quote_plus_def quote_char_def)

lemma amp_reserved: "\<not> unreserved (CHR ''&'')"
  by code_simp

lemma no_amp: "list_all unreserved s \<Longrightarrow> (\<And>x. x \<in> set s \<Longrightarrow> x \<noteq> CHR ''&'')"
  using amp_reserved by (metis list_all_iff)

lemma quote_words: "quote_plus ''code'' = ''code''" "quote_plus ''state'' = ''state''"
proof -
  have "list_all unreserved ''code''" "list_all unreserved ''state''" by code_simp+
  then show "quote_plus ''code'' = ''code''" "quote_plus ''state'' = ''state''" by (simp_all only: quote_plus_unreserved)
qed

lemma code_in_redirect:
  assumes "\<not> str_in ''code='' redirect" "list_all unreserved code" "code \<noteq> []"
  shows "code_in (redirect_url redirect code st) = Some code"
proof -
  define c0 where "c0 = (if CHR ''?'' \<in> set redirect then CHR ''&'' else CHR ''?'')"
  have c0: "c0 \<in> {CHR ''?'', CHR ''&''}" "(if CHR ''?'' \<in> set redirect then ''&'' else ''?'') = [c0]"
    by (simp_all add: c0_def)
  define rest where "rest = (case st of None \<Rightarrow> [] | Some v \<Rightarrow> CHR ''&'' # urlencode [(''state'', v)])"
  have r: "urlencode ((''code'', code) # (case st of None \<Rightarrow> [] | Some v \<Rightarrow> [(''state'', v)])) = ''code='' @ code @ rest"
    using quote_plus_unreserved [OF assms(2)] by (cases st) (simp_all add: rest_def quote_words)
  have "takeWhile (\<lambda>x. x \<noteq> CHR ''&'') (code @ rest) = code"
    using no_amp [OF assms(2)] by (cases st) (simp_all add: rest_def takeWhile_tail)
  then have "code_in (''code='' @ code @ rest) = Some code" using assms(3) by (simp add: starts_with_def)
  then show ?thesis using code_in_skip [OF assms(1) c0(1)] c0(2) r by (simp add: redirect_url_def)
qed

lemma nat_str_no_space: "c \<in> set (nat_str n) \<Longrightarrow> \<not> is_space c"
proof (induction n rule: nat_str.induct)
  case (1 n)
  have d: "\<not> is_space (''0123456789'' ! m)" if "m < 10" for m
  proof -
    from that have "m \<in> {0, 1, 2, 3, 4, 5, 6, 7, 8, 9}" by auto
    then show ?thesis by (auto simp: is_space_def)
  qed
  show ?case
  proof (cases "n < 10")
    case True
    then show ?thesis using 1(2) d [of n] by (simp add: nat_str.simps [of n])
  next
    case False
    then show ?thesis using 1 d [of "n mod 10"] by (auto simp: nat_str.simps [of n])
  qed
qed

lemma otp_text_strip: "str_strip (otp_text n) = otp_text n"
proof -
  have "nat_str n \<noteq> []" by (simp add: nat_str.simps [of n])
  then have ne: "otp_text n \<noteq> []" by (simp add: otp_text_def Let_def)
  have "\<not> is_space c" if "c \<in> set (otp_text n)" for c
    using that nat_str_no_space [of c n] by (auto simp: otp_text_def Let_def is_space_def split: if_splits)
  then show ?thesis using ne by (intro str_strip_id) simp_all
qed


lemma otp_page_status:
  assumes "get_challenge now k s = (Some c, s1)" "str_strip b \<noteq> []" "env_lookup env b = Customer (Some cu) (Some e) (Some ph) nm"
    "cu \<noteq> []" "e \<noteq> []" "ph \<noteq> []" "set_challenge_otp now n k cu e ph nm s1 = Some (otp, s2)"
  shows "\<exists>page. login_start env now n k b s = (page, s2) \<and> page_status page \<in> {200, 502}"
  using assms by (cases "env_send env e otp") (simp_all add: login_start_def falsy_def)

text \<open>A registered customer who signs in with the debug route on gets a code whatever the mail
  server answers, and the token route trades the code for a token of that customer within the minute.
\<close>

theorem demo_login_completes:
  assumes cust: "env_lookup env b = Customer (Some cu) (Some e) (Some ph) nm" "cu \<noteq> []" "e \<noteq> []" "ph \<noteq> []" "str_strip b \<noteq> []"
    and url: "redirect \<noteq> []" "env_redirects env = [] \<or> redirect \<in> set (env_redirects env)" "\<not> str_in ''code='' redirect"
    and code: "list_all unreserved code" "code \<noteq> []"
    and t: "t \<le> now + 60"
  shows "\<exists>s' j s''. complete_oauth_otp_dance env True now k n code (env_client_id env) redirect st b s = (Inr code, s') \<and>
    token_route env t rt ''authorization_code'' code redirect (env_client_id env) (env_client_secret env) s' = (Token_issued j, s'') \<and>
    tj_customer j = cu \<and> tj_email j = Some e"
proof -
  let ?s1 = "create_challenge now k (env_client_id env) redirect st s"
  let ?c = "the (challenges ?s1 k)"
  let ?d = "with_otp now cu e ph nm (otp_text n) ?c"
  let ?s2 = "?s1\<lparr>challenges := (challenges ?s1)(k \<mapsto> ?d)\<rparr>"
  have auth: "authorize env now k (env_client_id env) redirect ''code'' st s = (Customer_form k, ?s1)"
    using url(1,2) by (auto simp: authorize_def)
  have g1: "get_challenge now k ?s1 = (Some ?c, ?s1)"
    by (simp add: get_challenge_def create_challenge_def challenge_is_expired_def CHALLENGE_TTL_SECONDS_def)
  have otp: "set_challenge_otp now n k cu e ph nm ?s1 = Some (otp_text n, ?s2)"
    by (simp add: set_challenge_otp_def create_challenge_def)
  have g2: "get_challenge now k ?s2 = (Some ?d, ?s2)"
    by (simp add: get_challenge_def create_challenge_def challenge_is_expired_def CHALLENGE_TTL_SECONDS_def with_otp_def)
  from otp_page_status [OF g1 cust(5,1,2,3,4) otp] obtain page where
    page: "login_start env now n k b ?s1 = (page, ?s2)" "page_status page \<in> {200, 502}" by blast
  have dbg: "get_challenge_debug True now k ?s2 = (Inr (Some (otp_text n)), ?s2)"
    unfolding get_challenge_debug_def g2 by (simp add: with_otp_def)
  let ?s3 = "snd (pop_challenge k (create_authorization_code now code (env_client_id env) redirect cu (Some e) (Some ph) nm ?s2))"
  have ver: "login_verify now code k (otp_text n) ?s2 = (Redirect_to (redirect_url redirect code st), ?s3)"
    unfolding login_verify_def g2
    by (simp add: otp_text_strip with_otp_def otp_is_expired_def OTP_TTL_SECONDS_def create_challenge_def)
  have dance: "complete_oauth_otp_dance env True now k n code (env_client_id env) redirect st b s = (Inr code, ?s3)"
    using page(2) by (auto simp: complete_oauth_otp_dance_def auth page(1) dbg ver code_in_redirect [OF url(3) code])
  have stored: "auth_codes ?s3 code = Some \<lparr>ac_client = env_client_id env, ac_redirect = redirect, ac_customer = cu,
      ac_expires = now + AUTH_CODE_TTL_SECONDS, ac_email = Some e, ac_phone = Some ph, ac_name = nm, ac_used = False\<rparr>"
    by (simp add: pop_challenge_def create_authorization_code_def)
  then have "\<exists>j s''. token_route env t rt ''authorization_code'' code redirect (env_client_id env) (env_client_secret env) ?s3 =
      (Token_issued j, s'') \<and> tj_customer j = cu \<and> tj_email j = Some e"
    using t unfolding token_route_def consume_authorization_code_def stored
    by (simp add: validate_client_def code_is_expired_def AUTH_CODE_TTL_SECONDS_def)
  then show ?thesis unfolding dance by (simp only: prod.inject simp_thms) blast
qed

theorem demo_login_completes_witness:
  "\<exists>s' j s''. complete_oauth_otp_dance sample_bank True 0 ''k'' 7 ''x'' ''nbe'' ''app'' (Some ''st'') ''7'' \<lparr>challenges = \<lambda>k. None, auth_codes = \<lambda>k. None, refresh_tokens = \<lambda>k. None\<rparr> = (Inr ''x'', s') \<and>
    token_route sample_bank 60 ''r'' ''authorization_code'' ''x'' ''app'' ''nbe'' ''s'' s' = (Token_issued j, s'') \<and> tj_customer j = ''c1''"
proof -
  have "list_all unreserved ''x''" by code_simp
  moreover have "env_client_id sample_bank = ''nbe''" "env_client_secret sample_bank = ''s''" by (simp_all add: sample_bank_def)
  moreover have "env_lookup sample_bank ''7'' = Customer (Some ''c1'') (Some ''m@b.eg'') (Some ''+20'') None" "env_redirects sample_bank = []"
    by (simp_all add: sample_bank_def)
  moreover have "\<not> str_in ''code='' ''app''" by simp
  ultimately show ?thesis
    using demo_login_completes [of sample_bank "''7''" "''c1''" "''m@b.eg''" "''+20''" None "''app''" "''x''" 60 0 "''k''" 7 "Some ''st''"
        "\<lparr>challenges = \<lambda>k. None, auth_codes = \<lambda>k. None, refresh_tokens = \<lambda>k. None\<rparr>" "''r''"]
    by (simp add: sample_texts) blast
qed

end
