(* ===== verification/Seed_Catalogue.thy ===== *)
theory Seed_Catalogue
  imports Catalogue_Laws Demo_Seed
begin

text \<open>
  The shared rows of core/management/commands/seed_db.py: the products, problem statements and
  investment instruments it seeds, the administrators, the statement templates, and the flush that
  removes what an earlier run left. Ids and times are arguments; \<open>json\<close> is the text of a product's
  features, by its title or its instrument's code.
\<close>

subsection \<open>Markers\<close>

definition SEED_USER_EMAIL_PREFIX :: string where "SEED_USER_EMAIL_PREFIX = ''seed_user_''"
definition SEED_ADMIN_EMAIL_PREFIX :: string where "SEED_ADMIN_EMAIL_PREFIX = ''seed_admin_''"
definition SEED_PRODUCT_LINK_PREFIX :: string where "SEED_PRODUCT_LINK_PREFIX = ''https://example.com/seed-products/''"
definition SEED_TEMPLATE_SIGNATURE_PREFIX :: string where "SEED_TEMPLATE_SIGNATURE_PREFIX = ''seed-''"

text \<open>The argument \<open>--gen_statements\<close>; \<open>None\<close> is argparse's error.\<close>

definition bool_arg :: "string \<Rightarrow> bool option" where
  "bool_arg v = (let x = str_lower (str_strip v) in
     if x \<in> {''1'', ''true'', ''yes'', ''y''} then Some True
     else if x \<in> {''0'', ''false'', ''no'', ''n''} then Some False else None)"

text \<open>\<open>str.replace(" ", "-")\<close> and \<open>str.replace("--", "-")\<close>.\<close>

definition dashed :: "string \<Rightarrow> string" where
  "dashed s = map (\<lambda>c. if c = CHR '' '' then CHR ''-'' else c) s"

fun single_dashes :: "string \<Rightarrow> string" where
  "single_dashes (a # b # s) = (if a = CHR ''-'' \<and> b = CHR ''-'' then CHR ''-'' # single_dashes s else a # single_dashes (b # s))"
| "single_dashes s = s"

subsection \<open>The products\<close>

definition CATALOG :: "(string \<times> string \<times> string list \<times> string list) list" where
  "CATALOG =
    [(''NBE Certificate of Deposit - 3 Years'', ''Fixed-return savings certificate with a 3-year lock-in period.'',
        [''savings'', ''certificates''], [''fixed-income'', ''long-term'']),
     (''NBE Certificate of Deposit - 1 Year'', ''Fixed-return savings certificate with a 1-year lock-in period.'',
        [''savings'', ''certificates''], [''fixed-income'', ''short-term'']),
     (''Personal Loan - Salary Backed'', ''Unsecured personal loan for salaried employees with direct deposit.'',
        [''loans''], [''personal-finance'', ''salary-backed'']),
     (''Auto Loan'', ''Financing for new and used vehicle purchases.'', [''loans'', ''auto''], [''personal-finance'']),
     (''High-Yield Savings Account'', ''Everyday savings account with tiered interest based on balance.'',
        [''savings''], [''liquid'', ''everyday'']),
     (''Youth Credit Card'', ''Entry-level credit card for first-time cardholders aged 21-30.'', [''cards''], [''credit'', ''youth'']),
     (''Home Renovation Loan'', ''Installment loan earmarked for home improvement projects.'',
        [''loans'', ''home''], [''personal-finance''])]"

record seed_spec =
  ss_title :: string
  ss_description :: string
  ss_categories :: "string list"
  ss_tags :: "string list"
  ss_code :: string
  ss_class :: string
  ss_symbol :: string
  ss_price_type :: string
  ss_unit :: string
  ss_increment :: rat
  ss_fractional :: bool
  ss_max_age :: int

definition INVESTMENT_CATALOG :: "seed_spec list" where
  "INVESTMENT_CATALOG =
    [\<lparr>ss_title = ''24K Gold (per gram)'', ss_description = ''A curated 24-karat gold opportunity quoted in EGP per gram.'',
      ss_categories = [''investments'', ''gold''], ss_tags = [''store-of-value'', ''commodity''], ss_code = ''gold-24k-gram-egp'',
      ss_class = ''gold'', ss_symbol = ''XAU_EGP_GRAM_24K'', ss_price_type = ''spot'', ss_unit = ''gram_24k'',
      ss_increment = 1 / 100, ss_fractional = True, ss_max_age = 900\<rparr>,
     \<lparr>ss_title = ''EGX30 Index ETF'',
      ss_description = ''A curated Egyptian equity index fund quoted by its latest available delayed EGX market price per unit.'',
      ss_categories = [''investments'', ''funds''], ss_tags = [''index-fund'', ''egyptian-equities''], ss_code = ''egx30-index-etf'',
      ss_class = ''fund'', ss_symbol = ''EGX30ETF_MARKET_PRICE'', ss_price_type = ''market_price'', ss_unit = ''fund_unit'',
      ss_increment = 1, ss_fractional = False, ss_max_age = 259200\<rparr>,
     \<lparr>ss_title = ''US Dollar'',
      ss_description = ''A curated USD opportunity using the rate a customer pays to buy USD with EGP (the bank's cash-sell rate).'',
      ss_categories = [''investments'', ''currencies''], ss_tags = [''foreign-currency'', ''liquid''], ss_code = ''usd-egp-customer-buy'',
      ss_class = ''currency'', ss_symbol = ''USD_EGP_BUY'', ss_price_type = ''customer_buy_rate'', ss_unit = ''USD'',
      ss_increment = 1, ss_fractional = False, ss_max_age = 259200\<rparr>]"

text \<open>\<open>f"Looking for {description[0].lower()}{description[1:]}"\<close>.\<close>

definition looking_for :: "string \<Rightarrow> string" where
  "looking_for d = ''Looking for '' @ str_lower (take 1 d) @ drop 1 d"

definition add_product :: "int \<Rightarrow> uuid \<Rightarrow> string \<Rightarrow> string \<Rightarrow> string list \<Rightarrow> string list \<Rightarrow> string \<Rightarrow> string \<Rightarrow> string \<Rightarrow> store \<Rightarrow> store" where
  "add_product now k title desc cats tags features slug text s = s\<lparr>
     products := products s @ [\<lparr>pr_id = k, pr_title = title, pr_description = Some desc, pr_categories = cats, pr_tags = tags,
       pr_features = Some features, pr_link = Some (SEED_PRODUCT_LINK_PREFIX @ slug), pr_active = True, pr_created = now\<rparr>],
     problems := problems s @ [\<lparr>pb_product = k, pb_text = text, pb_embedding = []\<rparr>]\<rparr>"

fun seed_catalog ::
  "(string \<Rightarrow> string) \<Rightarrow> (nat \<Rightarrow> int) \<Rightarrow> (nat \<Rightarrow> uuid) \<Rightarrow> nat \<Rightarrow> (string \<times> string \<times> string list \<times> string list) list \<Rightarrow> store \<Rightarrow> store" where
  "seed_catalog json now ids i [] s = s"
| "seed_catalog json now ids i ((title, desc, cats, tags) # cs) s = seed_catalog json now ids (Suc i) cs
     (add_product (now i) (ids i) title desc cats tags (json title) (single_dashes (dashed (str_lower title))) (looking_for desc) s)"

definition seeded_listing :: "int \<Rightarrow> uuid \<Rightarrow> uuid \<Rightarrow> seed_spec \<Rightarrow> listing" where
  "seeded_listing now k p x = \<lparr>ls_id = k, ls_product = p, ls_code = ss_code x, ls_class = ss_class x, ls_symbol = ss_symbol x,
     ls_price_type = ss_price_type x, ls_currency = ''EGP'', ls_unit = ss_unit x, ls_increment = ss_increment x,
     ls_fractional = ss_fractional x, ls_max_age = ss_max_age x, ls_active = True, ls_created = now\<rparr>"

text \<open>The code of an instrument is unique: one that is taken is an \<open>IntegrityError\<close>.\<close>

fun seed_instruments ::
  "(string \<Rightarrow> string) \<Rightarrow> (nat \<Rightarrow> int) \<Rightarrow> (nat \<Rightarrow> uuid) \<Rightarrow> (nat \<Rightarrow> uuid) \<Rightarrow> nat \<Rightarrow> seed_spec list \<Rightarrow> store \<Rightarrow> exc + store" where
  "seed_instruments json now ids lids i [] s = Inr s"
| "seed_instruments json now ids lids i (x # xs) s =
     (let s1 = add_product (now i) (ids i) (ss_title x) (ss_description x) (ss_categories x) (ss_tags x) (json (ss_code x)) (ss_code x)
                 (''I want to invest in '' @ str_lower (ss_title x)) s
      in if ss_code x \<in> ls_code ` set (listings s) then Inl (Unhandled ''IntegrityError'')
         else seed_instruments json now ids lids (Suc i) xs
                (s1\<lparr>listings := listings s1 @ [seeded_listing (now i) (lids i) (ids i) x]\<rparr>))"

text \<open>The rows, and the ids of the products in their order.\<close>

definition seed_products ::
  "(string \<Rightarrow> string) \<Rightarrow> (nat \<Rightarrow> int) \<Rightarrow> (nat \<Rightarrow> uuid) \<Rightarrow> (nat \<Rightarrow> uuid) \<Rightarrow> store \<Rightarrow> exc + uuid list \<times> store" where
  "seed_products json now ids lids s =
     res_bind (seed_instruments json now ids lids (length CATALOG) INVESTMENT_CATALOG (seed_catalog json now ids 0 CATALOG s))
       (\<lambda>s'. Inr (map ids [0..<length CATALOG + length INVESTMENT_CATALOG], s'))"

subsection \<open>Administrators and statement templates\<close>

record bank_template =
  bt_id :: uuid
  bt_bank :: string
  bt_signature :: string
  bt_columns :: "(string \<times> string) list"
  bt_date_format :: string

definition seed_admins :: "(string \<Rightarrow> string) \<Rightarrow> uuid \<Rightarrow> uuid \<Rightarrow> admin_user list" where
  "seed_admins make_password j k =
     [\<lparr>adm_id = j, adm_email = SEED_ADMIN_EMAIL_PREFIX @ ''reviewer@example.com'', adm_password_hash = make_password ''SeedAdminPass123!'',
       adm_role = ''reviewer''\<rparr>,
      \<lparr>adm_id = k, adm_email = SEED_ADMIN_EMAIL_PREFIX @ ''super@example.com'', adm_password_hash = make_password ''SeedAdminPass123!'',
       adm_role = ''super_admin''\<rparr>]"

definition seed_templates :: "(nat \<Rightarrow> uuid) \<Rightarrow> bank_template list" where
  "seed_templates ids = map (\<lambda>(i, bank, fmt). \<lparr>bt_id = ids i, bt_bank = bank,
       bt_signature = SEED_TEMPLATE_SIGNATURE_PREFIX @ dashed (str_lower bank) @ ''-v1'',
       bt_columns = [(''date'', ''Transaction Date''), (''description'', ''Description''), (''amount'', ''Amount''), (''balance'', ''Balance'')],
       bt_date_format = fmt\<rparr>)
     [(0, ''National Bank of Egypt'', ''%d/%m/%Y''), (1, ''Commercial International Bank'', ''%m/%d/%Y''), (2, ''Banque Misr'', ''%d-%m-%Y'')]"

subsection \<open>The flush\<close>

definition flush_seed_users :: "sessions \<Rightarrow> sessions" where
  "flush_seed_users s = fold (\<lambda>u s. snd (delete_me_sessions u s))
     (filter (\<lambda>u. starts_with SEED_USER_EMAIL_PREFIX (user_email u)) (users (base s))) s"

definition flush_seed_admins :: "sessions \<Rightarrow> sessions" where
  "flush_seed_admins s = s\<lparr>admins := filter (\<lambda>a. \<not> starts_with SEED_ADMIN_EMAIL_PREFIX (adm_email a)) (admins s)\<rparr>"

definition seeded_product :: "product \<Rightarrow> bool" where
  "seeded_product p = (case pr_link p of None \<Rightarrow> False | Some l \<Rightarrow> starts_with SEED_PRODUCT_LINK_PREFIX l)"

text \<open>One query set: it is refused as a whole when an instrument of one of the products is protected.\<close>

definition flush_seed_products :: "store \<Rightarrow> exc + store" where
  "flush_seed_products s =
     (let gone = pr_id ` set (filter seeded_product (products s))
      in if list_ex (\<lambda>l. ls_product l \<in> gone \<and> protected (ls_id l) s) (listings s) then Inl (Unhandled ''ProtectedError'')
         else Inr (s\<lparr>products := filter (\<lambda>p. pr_id p \<notin> gone) (products s), problems := filter (\<lambda>b. pb_product b \<notin> gone) (problems s),
                listings := filter (\<lambda>l. ls_product l \<notin> gone) (listings s), logs := filter (\<lambda>g. lo_product g \<notin> gone) (logs s)\<rparr>))"

text \<open>Deleting a user cascades over the catalogue's tables too.\<close>

definition flush_user_rows :: "uuid set \<Rightarrow> store \<Rightarrow> store" where
  "flush_user_rows us s = s\<lparr>logs := filter (\<lambda>g. lo_user g \<notin> us) (logs s), reactions := filter (\<lambda>r. re_user r \<notin> us) (reactions s),
     issues := filter (\<lambda>i. is_user i \<notin> us) (issues s), positions := filter (\<lambda>h. ho_user h \<notin> us) (positions s),
     buys := filter (\<lambda>p. \<not> (\<exists>c \<in> set (plans s). sc_id c = pu_scenario p \<and> sc_user c \<in> us)) (buys s),
     plans := filter (\<lambda>c. sc_user c \<notin> us) (plans s)\<rparr>"

definition flush_templates :: "bank_template list \<Rightarrow> bank_template list" where
  "flush_templates ts = filter (\<lambda>t. \<not> starts_with SEED_TEMPLATE_SIGNATURE_PREFIX (bt_signature t)) ts"

end
