(* ===== verification/Seed_Ledger.thy ===== *)
theory Seed_Ledger
  imports Detected Statements
begin

text \<open>
  The ledger core/management/commands/seed_db.py makes up for one user and what it derives from it:
  accounts, transactions with their running balance, recurring charges, anomalies, insights,
  monthly summaries and the net worth. What \<open>random\<close> draws is an argument (\<open>ledger_draws\<close>), an
  amount drawn being the decimal its float is written as.
\<close>

subsection \<open>Fixed data\<close>

definition BANKS :: "string list" where
  "BANKS = [''National Bank of Egypt'', ''Banque Misr'', ''Commercial International Bank'', ''QNB Alahli'',
     ''Arab African International Bank'', ''HSBC Egypt'']"

text \<open>Merchant as the bank writes it and as it is shown, category, direction and the range of the amount.\<close>

type_synonym merchant_spec = "string \<times> string \<times> string \<times> string \<times> rat \<times> rat"

definition ONE_OFF_MERCHANTS :: "merchant_spec list" where
  "ONE_OFF_MERCHANTS =
    [(''CARREFOUR MAADI EG'', ''Carrefour'', ''food'', ''debit'', 150, 900),
     (''TALABAT EG*ORDER'', ''Talabat'', ''food'', ''debit'', 80, 400),
     (''UBER *TRIP'', ''Uber'', ''transport'', ''debit'', 40, 250),
     (''NOON.COM ONLINE'', ''Noon'', ''lifestyle'', ''debit'', 200, 3000),
     (''CIB ATM WITHDRAWAL'', ''ATM Withdrawal'', ''other'', ''debit'', 500, 3000),
     (''EGYPTAIR RESERVATIONS'', ''EgyptAir'', ''lifestyle'', ''debit'', 2000, 9000),
     (''SPINNEYS SUPERMARKET'', ''Spinneys'', ''food'', ''debit'', 200, 1200),
     (''CFC MALL RETAIL'', ''Cairo Festival City Mall'', ''lifestyle'', ''debit'', 300, 2500),
     (''BANK MAINTENANCE FEE'', ''Bank Maintenance Fee'', ''other'', ''fee'', 25, 75),
     (''NOON.COM REFUND'', ''Noon'', ''lifestyle'', ''credit'', 100, 600),
     (''RIGHT2LEARN TUITION'', ''Right2Learn'', ''other'', ''debit'', 500, 2500),
     (''VEZEETA CLINIC'', ''Vezeeta'', ''other'', ''debit'', 150, 800)]"

definition RECURRING_MERCHANTS :: "merchant_spec list" where
  "RECURRING_MERCHANTS =
    [(''VODAFONE EGYPT-POSTPAID'', ''Vodafone Egypt'', ''housing'', ''debit'', 180, 220),
     (''NETFLIX.COM'', ''Netflix'', ''lifestyle'', ''debit'', 190, 210),
     (''GOLDS GYM MEMBERSHIP'', ''Gold's Gym'', ''other'', ''debit'', 450, 550)]"

text \<open>\<open>_money\<close> of a drawn amount or of a decimal.\<close>

definition seed_money :: "rat \<Rightarrow> rat" where
  "seed_money x = quantize_hu 2 x"

subsection \<open>The rows of an account\<close>

record seed_row =
  sr_date :: date
  sr_raw :: string
  sr_merchant :: string
  sr_category :: string
  sr_type :: string
  sr_amount :: rat
  sr_recurring :: bool

type_synonym row_key = "date \<times> rat \<times> string"

definition row_key :: "seed_row \<Rightarrow> row_key" where
  "row_key r = (sr_date r, sr_amount r, sr_raw r)"

text \<open>\<open>add_row\<close>: a key that was seen is nudged once.\<close>

definition add_row :: "seed_row \<Rightarrow> row_key list \<times> seed_row list \<Rightarrow> row_key list \<times> seed_row list" where
  "add_row r acc =
     (let r' = (if row_key r \<in> set (fst acc) then r\<lparr>sr_amount := dec (sr_amount r + 13 / 100)\<rparr> else r)
      in (row_key r' # fst acc, snd acc @ [r']))"

text \<open>\<open>(cursor.replace(day=28) + timedelta(days=4)).replace(day=1)\<close>.\<close>

definition next_month_start :: "date \<Rightarrow> date" where
  "next_month_start c = (case add_days (Date (year c) (month c) 28) 4 of Date y m d \<Rightarrow> Date y m 1)"

lemma next_month_start_eq:
  "next_month_start (Date y m d) = (if m < 12 then Date y (m + 1) 1 else Date (y + 1) 1 1)"
proof -
  have b: "28 \<le> days_in_month y m" "days_in_month y m \<le> 31" using days_in_month_pos by auto
  have n: "28 \<le> days_in_month y (m + 1)" "28 \<le> days_in_month (y + 1) 1" using days_in_month_pos by auto
  consider "days_in_month y m = 28" | "days_in_month y m = 29" | "days_in_month y m = 30" | "days_in_month y m = 31"
    using b by linarith
  then show ?thesis
    by cases (use n in \<open>simp_all add: next_month_start_def add_days_def eval_nat_numeral\<close>)
qed

function month_starts :: "date \<Rightarrow> date \<Rightarrow> date list" where
  "month_starts today c = (if c \<le> today then c # month_starts today (next_month_start c) else [])"
  by pat_completeness auto

termination
proof (relation "measures [\<lambda>(t, c). nat (year t + 1 - year c), \<lambda>(t, c). nat (12 - month c)]")
  fix today c :: date assume "c \<le> today"
  then have "year c \<le> year today" by (auto simp: less_eq_date_def less_date_def)
  then show "((today, next_month_start c), today, c) \<in> measures [\<lambda>(t, c). nat (year t + 1 - year c), \<lambda>(t, c). nat (12 - month c)]"
    by (cases c) (simp add: next_month_start_eq)
qed simp

declare month_starts.simps [simp del]

record ledger_draws =
  rn_pay :: "nat \<Rightarrow> rat"
  rn_day :: "nat \<Rightarrow> nat \<Rightarrow> int"
  rn_charge :: "nat \<Rightarrow> nat \<Rightarrow> rat"
  rn_count :: nat
  rn_pick :: "nat \<Rightarrow> nat"
  rn_span :: "nat \<Rightarrow> int"
  rn_amount :: "nat \<Rightarrow> rat"
  rn_opening :: rat
  rn_file :: "nat \<Rightarrow> nat option"

definition payroll_rows :: "ledger_draws \<Rightarrow> date \<Rightarrow> date \<Rightarrow> date list \<Rightarrow> seed_row list" where
  "payroll_rows g start today ms =
     filter (\<lambda>r. start \<le> sr_date r \<and> sr_date r \<le> today)
       (map (\<lambda>(i, m). \<lparr>sr_date = Date (year m) (month m) (min 28 (day m + 4)), sr_raw = ''EMPLOYER PAYROLL'', sr_merchant = ''Employer Payroll'',
          sr_category = ''other'', sr_type = ''credit'', sr_amount = seed_money (rn_pay g i), sr_recurring = True\<rparr>) (enumerate 0 ms))"

definition recurring_rows :: "ledger_draws \<Rightarrow> date \<Rightarrow> date \<Rightarrow> date list \<Rightarrow> seed_row list" where
  "recurring_rows g start today ms =
     filter (\<lambda>r. start \<le> sr_date r \<and> sr_date r \<le> today)
       (concat (map (\<lambda>(j, raw, name, cat, ty, lo, hi).
          map (\<lambda>(i, m). \<lparr>sr_date = Date (year m) (month m) (min 28 (day m + rn_day g j i)), sr_raw = raw, sr_merchant = name,
            sr_category = cat, sr_type = ty, sr_amount = seed_money (rn_charge g j i), sr_recurring = True\<rparr>) (enumerate 0 ms))
        (enumerate 0 RECURRING_MERCHANTS)))"

definition one_off_rows :: "ledger_draws \<Rightarrow> date \<Rightarrow> seed_row list" where
  "one_off_rows g start =
     map (\<lambda>k. case ONE_OFF_MERCHANTS ! rn_pick g k of (raw, name, cat, ty, lo, hi) \<Rightarrow>
            \<lparr>sr_date = add_days start (rn_span g k), sr_raw = raw, sr_merchant = name, sr_category = cat, sr_type = ty,
             sr_amount = seed_money (rn_amount g k), sr_recurring = False\<rparr>) [0..<rn_count g]"

definition seed_rows :: "ledger_draws \<Rightarrow> date \<Rightarrow> date \<Rightarrow> seed_row list" where
  "seed_rows g start today =
     (let ms = month_starts today (Date (year start) (month start) 1)
      in sort_key sr_date (snd (fold add_row (payroll_rows g start today ms @ recurring_rows g start today ms @ one_off_rows g start) ([], []))))"

subsection \<open>The transactions\<close>

text \<open>The statements whose period covers the row, one of which may be its source.\<close>

definition covering :: "date \<Rightarrow> statement list \<Rightarrow> statement list" where
  "covering dt ss = filter (\<lambda>s. case (start_transaction_date s, last_transaction_date s) of
     (Some a, Some b) \<Rightarrow> a \<le> dt \<and> dt \<le> b | _ \<Rightarrow> False) ss"

definition row_source :: "ledger_draws \<Rightarrow> nat \<Rightarrow> date \<Rightarrow> statement list \<Rightarrow> uuid option" where
  "row_source g i dt ss =
     (case rn_file g i of
        None \<Rightarrow> None
      | Some j \<Rightarrow> if covering dt ss = [] then None else Some (st_id (covering dt ss ! j)))"

definition next_balance :: "rat \<Rightarrow> seed_row \<Rightarrow> rat" where
  "next_balance b r = (if sr_type r = ''credit'' then dec (b + sr_amount r) else dec (b - sr_amount r))"

definition seeded_txn :: "int \<Rightarrow> uuid \<Rightarrow> bank_account \<Rightarrow> uuid \<Rightarrow> uuid option \<Rightarrow> rat \<Rightarrow> seed_row \<Rightarrow> db \<Rightarrow> txn" where
  "seeded_txn now u a c src b r d =
     \<lparr>txn_id = fresh d, txn_user = u, txn_account = acc_id a, txn_statement = src, transaction_date = sr_date r,
      merchant_raw = Some (sr_raw r), merchant_normalized = Some (sr_merchant r), txn_category = Some c, amount = sr_amount r,
      txn_currency = acc_currency a, is_recurring = sr_recurring r, source = (if src = None then ''manual'' else ''statement''),
      balance = Some b, transaction_type = Some (sr_type r), txn_created = now\<rparr>"

text \<open>\<open>self._categories[...]\<close>: a name that is not there is a \<open>KeyError\<close>.\<close>

definition category_by_name :: "category list \<Rightarrow> string \<Rightarrow> uuid option" where
  "category_by_name cs n = map_of (rev (map (\<lambda>c. (cat_name c, cat_id c)) cs)) n"

fun seed_transactions ::
  "(nat \<Rightarrow> int) \<Rightarrow> ledger_draws \<Rightarrow> statement list \<Rightarrow> category list \<Rightarrow> uuid \<Rightarrow> bank_account \<Rightarrow> nat \<Rightarrow> rat \<Rightarrow> seed_row list \<Rightarrow> db \<Rightarrow>
   txn list response" where
  "seed_transactions now g ss cs u a i b [] d = (Inr [], d)"
| "seed_transactions now g ss cs u a i b (r # rs) d =
     (case category_by_name cs (sr_category r) of
        None \<Rightarrow> (Inl (Unhandled ''KeyError''), d)
      | Some c \<Rightarrow>
          let b' = next_balance b r; t = seeded_txn (now i) u a c (row_source g i (sr_date r) ss) b' r d
          in if unique_clash t (txns d) then (Inl (Unhandled ''IntegrityError''), d)
             else (case seed_transactions now g ss cs u a (Suc i) b' rs (insert_txn t d) of
                     (Inl e, d') \<Rightarrow> (Inl e, d')
                   | (Inr ts, d') \<Rightarrow> (Inr (t # ts), d')))"

subsection \<open>What is derived from them\<close>

text \<open>The keys of a dictionary in the order they were first used.\<close>

definition first_seen :: "'k list \<Rightarrow> 'k list" where
  "first_seen ks = rev (remdups (rev ks))"

definition seed_recurring_charges :: "(nat \<Rightarrow> uuid) \<Rightarrow> uuid \<Rightarrow> uuid \<Rightarrow> txn list \<Rightarrow> recurring_charge list" where
  "seed_recurring_charges ids u acct ts =
     (let cs = filter (\<lambda>t. is_recurring t \<and> transaction_type t \<noteq> Some ''credit'') ts;
          groups = filter (\<lambda>g. 2 \<le> length (snd g))
            (map (\<lambda>m. (m, sort_key transaction_date (filter (\<lambda>t. merchant_normalized t = m) cs))) (first_seen (map merchant_normalized cs)))
      in map (\<lambda>(i, m, g). \<lparr>rc_id = ids i, rc_user = u, rc_account = Some acct, rc_merchant = case_option [] id m, rc_frequency = ''monthly'',
           rc_average = Some (seed_money (dec (dec_sum 0 (map amount g) / of_nat (length g)))),
           rc_last = Some (transaction_date (last g)), rc_next = Some (add_days (transaction_date (last g)) 30)\<rparr>) (enumerate 0 groups))"

definition outliers :: "txn list \<Rightarrow> txn list" where
  "outliers ts = take 2 (sort_key (\<lambda>t. - amount t) (filter (has_type [''debit'', ''fee'']) ts))"

text \<open>\<open>picks\<close> draws the severity and whether it was resolved.\<close>

definition seed_anomalies :: "(nat \<Rightarrow> uuid) \<Rightarrow> (nat \<Rightarrow> string \<times> bool) \<Rightarrow> (rat \<Rightarrow> string) \<Rightarrow> txn list \<Rightarrow> anomaly list" where
  "seed_anomalies ids picks shown ts =
     map (\<lambda>(i, t). \<lparr>an_id = ids i, an_txn = Some (txn_id t), an_user = txn_user t, an_account = Some (txn_account t), an_category = None,
        an_month = [], an_amount = None,
        an_reason = ''Amount of '' @ shown (amount t) @ '' '' @ txn_currency t @ '' at '' @
          case_option [] id (merchant_shown (merchant_normalized t, merchant_raw t)) @
          '' is well above this user's typical spend for the category.'',
        severity = fst (picks i), resolved = snd (picks i)\<rparr>) (enumerate 0 (outliers ts))"

definition is_inflow :: "txn \<Rightarrow> bool" where
  "is_inflow t \<longleftrightarrow> transaction_type t = Some ''credit''"

text \<open>The months in their order, each with its exact inflow and outflow.\<close>

definition cash_flow :: "txn list \<Rightarrow> ((int \<times> int) \<times> rat \<times> rat) list" where
  "cash_flow ts = map (\<lambda>ym. let rows = filter (\<lambda>t. month_of t = ym) ts
     in (ym, dec_sum 0 (map amount (filter is_inflow rows)), dec_sum 0 (map amount (filter (\<lambda>t. \<not> is_inflow t) rows))))
     (rev (months_desc ts))"

datatype insight_value = Cash_flow "((int \<times> int) \<times> rat \<times> rat) list" | Income_stability rat string

definition stability_value :: "(rat \<Rightarrow> rat \<Rightarrow> rat) \<Rightarrow> rat list \<Rightarrow> insight_value" where
  "stability_value pow xs =
     (let cv = variation pow (map flt xs)
      in Income_stability (max 0 (min 1 (py_round 2 (flt (1 - cv)))))
           (if cv < flt (15 / 100) then ''stable'' else if last xs < hd xs then ''declining'' else ''improving''))"

definition seed_pattern_insights ::
  "(rat \<Rightarrow> rat \<Rightarrow> rat) \<Rightarrow> int \<Rightarrow> uuid \<Rightarrow> uuid \<Rightarrow> uuid \<Rightarrow> txn list \<Rightarrow> insight_value spending_insight list" where
  "seed_pattern_insights pow now j k u ts =
     (let ms = cash_flow ts; xs = map (fst \<circ> snd) ms
      in \<lparr>si_id = j, si_user = u, si_type = ''cash_flow'', si_period = Some ''last_4_months'',
            si_value = Cash_flow (map (\<lambda>(ym, a, b). (ym, flt a, flt b)) ms), si_created = now\<rparr> #
         (if 2 \<le> length xs then
            [\<lparr>si_id = k, si_user = u, si_type = ''income_stability'', si_period = Some ''last_6_months'',
              si_value = stability_value pow xs, si_created = now\<rparr>] else []))"

text \<open>A row of \<open>monthly_summaries\<close>: the JSON columns hold floats.\<close>

record monthly_summary =
  mo_user :: uuid
  mo_account :: uuid
  mo_month :: "int \<times> int"
  mo_spend :: rat
  mo_inflow :: rat
  mo_categories :: "(string \<times> rat) list"
  mo_merchants :: "(string \<times> rat) list"

text \<open>\<open>totals.get(key, 0) + amount\<close> over the rows that have a key.\<close>

definition totals_by :: "('r \<Rightarrow> 'k option) \<Rightarrow> ('r \<Rightarrow> rat) \<Rightarrow> 'r list \<Rightarrow> ('k \<times> rat) list" where
  "totals_by f v rs = map (\<lambda>k. (k, dec_sum 0 (map v (filter (\<lambda>r. f r = Some k) rs)))) (first_seen (List.map_filter f rs))"

definition seeded_summary :: "db \<Rightarrow> uuid \<Rightarrow> uuid \<Rightarrow> txn list \<Rightarrow> int \<times> int \<Rightarrow> monthly_summary" where
  "seeded_summary d u acct ts ym =
     (let rows = filter (\<lambda>t. month_of t = ym) ts
      in \<lparr>mo_user = u, mo_account = acct, mo_month = ym,
          mo_spend = dec_sum 0 (map amount (filter (has_type [''debit'', ''fee'']) rows)),
          mo_inflow = dec_sum 0 (map amount (filter is_inflow rows)),
          mo_categories = map (\<lambda>(k, v). (k, flt v)) (totals_by (category_name_of d) amount rows),
          mo_merchants = map (\<lambda>(k, v). (k, flt v)) (take 5 (by_total_desc
             (totals_by (\<lambda>t. merchant_shown (merchant_normalized t, merchant_raw t)) amount rows)))\<rparr>)"

definition seed_monthly_summaries :: "db \<Rightarrow> uuid \<Rightarrow> uuid \<Rightarrow> txn list \<Rightarrow> monthly_summary list" where
  "seed_monthly_summaries d u acct ts = map (seeded_summary d u acct ts) (first_seen (map month_of ts))"

text \<open>The snapshot: the total, and each account with its balance as a float.\<close>

record net_worth_snapshot =
  nw_user :: uuid
  nw_date :: date
  nw_total :: rat
  nw_accounts :: "(uuid \<times> string \<times> rat) list"

definition latest_balance :: "uuid \<Rightarrow> db \<Rightarrow> rat" where
  "latest_balance a d = (case newest (account_rows a (txns d)) of None \<Rightarrow> 0 | Some t \<Rightarrow> case_option 0 id (balance t))"

definition seed_net_worth_snapshot :: "date \<Rightarrow> uuid \<Rightarrow> bank_account list \<Rightarrow> db \<Rightarrow> net_worth_snapshot" where
  "seed_net_worth_snapshot today u as d =
     \<lparr>nw_user = u, nw_date = today, nw_total = dec_sum 0 (map (\<lambda>a. latest_balance (acc_id a) d) as),
      nw_accounts = map (\<lambda>a. (acc_id a, bank_name a, flt (latest_balance (acc_id a) d))) as\<rparr>"

end
