(* ===== verification/Seed_Db.thy ===== *)
theory Seed_Db
  imports Seed_Catalogue Seed_Ledger Budgets Conversations
begin

text \<open>
  The command core/management/commands/seed_db.py as a whole: for each user the account, the
  consents, the ledger and what is derived from it, the plan and the goal, the conversations, the
  feedback, and around them the guards, the flush and the one transaction.
\<close>

subsection \<open>One user\<close>

definition seq_db :: "'a response \<Rightarrow> ('a \<Rightarrow> db \<Rightarrow> 'b response) \<Rightarrow> 'b response" where
  "seq_db m f = (case m of (Inl e, d) \<Rightarrow> (Inl e, d) | (Inr x, d) \<Rightarrow> f x d)"

text \<open>What is drawn for a user: the statements and the ledger per account, the rest once.\<close>

record file_draw =
  fd_file :: string
  fd_checksum :: string
  fd_size :: nat
  fd_type :: string
  fd_confidence :: rat

record user_draws =
  ud_salt :: string
  ud_phone :: nat
  ud_employment :: string
  ud_bracket :: string
  ud_income :: rat
  ud_steadiness :: string
  ud_dependents :: int
  ud_banks :: "string list"
  ud_account_types :: "nat \<Rightarrow> string"
  ud_numbers :: "nat \<Rightarrow> nat"
  ud_revoked_before :: bool
  ud_consent_days :: "nat \<Rightarrow> int"
  ud_files :: "nat \<Rightarrow> nat \<Rightarrow> file_draw"
  ud_ledger :: "nat \<Rightarrow> ledger_draws"
  ud_anomalies :: "nat \<Rightarrow> string \<times> bool"
  ud_target :: rat
  ud_months :: int
  ud_via :: string
  ud_ratings :: "(nat \<times> int \<times> string option) list"
  ud_issue :: bool
  ud_talks :: nat
  ud_sample_txn :: nat
  ud_sample_statement :: nat
  ud_slider :: payload
  ud_ids :: "nat \<Rightarrow> nat \<Rightarrow> uuid"

definition seed_user :: "auth_env \<Rightarrow> nat \<Rightarrow> user_draws \<Rightarrow> db \<Rightarrow> user response" where
  "seed_user env i w d =
     seq_db (create_user env (SEED_USER_EMAIL_PREFIX @ nat_str i @ ''@example.com'') (''Seed User '' @ nat_str i)
               (''+2010'' @ nat_str (ud_phone w)) (Some (hash_password env (ud_salt w) ''SeedPass123!'')) d)
       (\<lambda>x d1. let x' = x\<lparr>employment_status := Some (ud_employment w), income_bracket := Some (ud_bracket w),
                   monthly_income := Some (seed_money (ud_income w)), income_steadiness := Some (ud_steadiness w),
                   dependents_count := ud_dependents w\<rparr>
               in (Inr x', d1\<lparr>users := save_row user_id x' (users d1)\<rparr>))"

definition seed_preferences :: "uuid \<Rightarrow> db \<Rightarrow> db" where
  "seed_preferences u d = (draw d)\<lparr>preferences := preferences d @ [default_preference (fresh d) u]\<rparr>"

fun seed_bank_accounts :: "user_draws \<Rightarrow> uuid \<Rightarrow> nat \<Rightarrow> string list \<Rightarrow> db \<Rightarrow> bank_account list \<times> db" where
  "seed_bank_accounts w u j [] d = ([], d)"
| "seed_bank_accounts w u j (b # bs) d =
     (let a = \<lparr>acc_id = fresh d, acc_user = u, bank_name = b, account_type = Some (ud_account_types w j),
                account_number = nat_str (ud_numbers w j), acc_currency = ''EGP'', is_active = True, link_type = Manual,
                acc_connection = None, external_account_id = None\<rparr>
      in apfst ((#) a) (seed_bank_accounts w u (Suc j) bs ((draw d)\<lparr>accounts := accounts d @ [a]\<rparr>)))"

text \<open>Times in microseconds. Some users revoked an older consent before they gave the present ones.\<close>

definition days :: "int \<Rightarrow> int" where
  "days n = n * 86400 * 10 ^ 6"

definition add_consent_row :: "int \<Rightarrow> uuid \<Rightarrow> string \<Rightarrow> string \<Rightarrow> int \<Rightarrow> int option \<Rightarrow> db \<Rightarrow> db" where
  "add_consent_row now u ty version given gone d = (draw d)\<lparr>consents := consents d @
     [\<lparr>con_id = fresh d, con_user = u, consent_type = ty, policy_version = version, granted_at = Some given, revoked_at = gone,
       con_created = now\<rparr>]\<rparr>"

definition CONSENT_TYPES :: "string list" where
  "CONSENT_TYPES = [''data_processing'', ''terms_of_service'']"

definition seed_consent :: "int \<Rightarrow> user_draws \<Rightarrow> uuid \<Rightarrow> db \<Rightarrow> db" where
  "seed_consent now w u d =
     (let d1 = (if ud_revoked_before w
                then add_consent_row now u ''data_processing'' ''v1.0'' (now - days 300) (Some (now - days 240)) d else d)
      in fold (\<lambda>(i, ty). add_consent_row (now + 1 + int i) u ty ''v2.0'' (now - days (ud_consent_days w i)) None)
           (enumerate 0 CONSENT_TYPES) d1)"

text \<open>Two approved statements for an account, over the two halves of the period.\<close>

fun seed_statement_files :: "int \<Rightarrow> (nat \<Rightarrow> file_draw) \<Rightarrow> uuid \<Rightarrow> bank_account \<Rightarrow> nat \<Rightarrow> (date \<times> date) list \<Rightarrow> db \<Rightarrow> statement list \<times> db" where
  "seed_statement_files now f u a i [] d = ([], d)"
| "seed_statement_files now f u a i ((lo, hi) # hs) d =
     (let s = \<lparr>st_id = fresh d, st_user = u, st_account = Some (acc_id a), seaweed_file_id = ''seed-placeholder-'' @ fd_file (f i),
                checksum = fd_checksum (f i), file_size = Some (fd_size (f i)), file_type = Some (fd_type (f i)), status = Approved,
                failure_reason = None, failed_phase = None, is_processing = False, start_transaction_date = Some lo,
                last_transaction_date = Some hi, upload_date = now\<rparr>;
          d1 = (draw d)\<lparr>statements := statements d @ [s]\<rparr>;
          d2 = (draw d1)\<lparr>ocr_results := ocr_results d1 @ [\<lparr>ocr_id = fresh d1, ocr_statement = st_id s, ocr_file = seaweed_file_id s,
                 ocr_engine = ''MinerU'', ocr_confidence = seed_money (fd_confidence (f i)), processed_at = now\<rparr>]\<rparr>;
          d3 = (draw d2)\<lparr>normalized_records := normalized_records d2 @ [\<lparr>nz_id = fresh d2, nz_statement = st_id s,
                 nz_payload = \<lparr>nj_bank_name = Some (bank_name a), nj_account_number = Some (account_number a), nj_transactions = None\<rparr>,
                 model_used = ''seed-mock-llm'', adjusted_at = now\<rparr>]\<rparr>
      in apfst ((#) s) (seed_statement_files now f u a (Suc i) hs d3))"

definition seed_statements :: "int \<Rightarrow> (nat \<Rightarrow> file_draw) \<Rightarrow> uuid \<Rightarrow> bank_account \<Rightarrow> date \<Rightarrow> date \<Rightarrow> db \<Rightarrow> statement list \<times> db" where
  "seed_statements now f u a start today d =
     (let mid = add_days start ((ordinal today - ordinal start) div 2)
      in seed_statement_files now f u a 0 [(start, mid), (mid, today)] d)"

text \<open>The statements of every account, then the transactions of every account; the clock is by
  account and row.\<close>

fun seed_all_statements :: "bool \<Rightarrow> int \<Rightarrow> user_draws \<Rightarrow> uuid \<Rightarrow> date \<Rightarrow> date \<Rightarrow> nat \<Rightarrow> bank_account list \<Rightarrow> db \<Rightarrow> statement list list \<times> db" where
  "seed_all_statements gen now w u start today j [] d = ([], d)"
| "seed_all_statements gen now w u start today j (a # as) d =
     (let (ss, d1) = (if gen then seed_statements now (ud_files w j) u a start today d else ([], d))
      in apfst ((#) ss) (seed_all_statements gen now w u start today (Suc j) as d1))"

fun seed_all_transactions ::
  "(nat \<Rightarrow> nat \<Rightarrow> int) \<Rightarrow> user_draws \<Rightarrow> category list \<Rightarrow> uuid \<Rightarrow> date \<Rightarrow> date \<Rightarrow> nat \<Rightarrow> (bank_account \<times> statement list) list \<Rightarrow> db \<Rightarrow>
   (uuid \<times> txn list) list response" where
  "seed_all_transactions clk w cs u start today j [] d = (Inr [], d)"
| "seed_all_transactions clk w cs u start today j ((a, ss) # rest) d =
     (let g = ud_ledger w j
      in seq_db (seed_transactions (clk j) g ss cs u a 0 (seed_money (rn_opening g)) (seed_rows g start today) d)
           (\<lambda>ts d1. seq_db (seed_all_transactions clk w cs u start today (Suc j) rest d1) (\<lambda>tss d2. (Inr ((acc_id a, ts) # tss), d2))))"

subsection \<open>The plan\<close>

definition ALLOCATION_PLAN :: "(string \<times> rat) list" where
  "ALLOCATION_PLAN = [(''housing'', 30), (''food'', 20), (''transport'', 15), (''savings'', 15), (''lifestyle'', 12), (''other'', 8)]"

definition PREVIOUS_ALLOCATIONS :: "(string \<times> rat) list" where
  "PREVIOUS_ALLOCATIONS = [(''housing'', 35), (''food'', 18), (''transport'', 12), (''savings'', 15), (''lifestyle'', 12), (''other'', 8)]"

fun seed_allocations :: "category list \<Rightarrow> uuid \<Rightarrow> rat \<Rightarrow> (string \<times> rat) list \<Rightarrow> db \<Rightarrow> unit response" where
  "seed_allocations cs b income [] d = (Inr (), d)"
| "seed_allocations cs b income ((n, p) # ps) d =
     (case category_by_name cs n of
        None \<Rightarrow> (Inl (Unhandled ''KeyError''), d)
      | Some c \<Rightarrow> seed_allocations cs b income ps ((draw d)\<lparr>allocations := allocations d @
          [\<lparr>al_id = fresh d, al_budget = b, al_category = c, al_percentage = p,
            al_amount = seed_money (dec (dec (income * p) / 100))\<rparr>]\<rparr>))"

text \<open>The history row holds names and percentages only.\<close>

record seeded_history =
  sh_budget :: uuid
  sh_allocations :: "(string \<times> rat) list"
  sh_via :: string

definition seed_budget :: "user_draws \<Rightarrow> category list \<Rightarrow> user \<Rightarrow> date \<Rightarrow> db \<Rightarrow> seeded_history response" where
  "seed_budget w cs x since d =
     (let b = \<lparr>b_id = fresh d, b_user = user_id x, b_name = ''My Plan'', b_template_key = None\<rparr>;
          d1 = (draw d)\<lparr>budgets := budgets d @ [b]\<rparr>;
          g = \<lparr>g_id = fresh d1, g_user = user_id x, g_name = ''Emergency Fund'', g_target = seed_money (ud_target w),
               g_months = ud_months w, g_created = since\<rparr>;
          d2 = (draw d1)\<lparr>goals := goals d1 @ [g]\<rparr>
      in seq_db (seed_allocations cs (b_id b) (case_option 0 id (monthly_income x)) ALLOCATION_PLAN d2)
           (\<lambda>_ d3. (Inr \<lparr>sh_budget = b_id b, sh_allocations = map (apsnd flt) PREVIOUS_ALLOCATIONS, sh_via = ud_via w\<rparr>, d3)))"

subsection \<open>The conversations\<close>

text \<open>Sender, stage, text, and whether the message carries the slider, whose JSON beyond its type is
  \<open>ud_slider\<close>.\<close>

definition EXCHANGES :: "(string \<times> string \<times> string \<times> bool) list" where
  "EXCHANGES =
    [(''user'', ''general'', ''How much did I spend on groceries last month?'', False),
     (''assistant'', ''general'', ''You spent about 1,450 EGP on groceries last month, mostly at Carrefour and Spinneys.'', False),
     (''user'', ''budget_review'', ''Can you adjust my budget to save more?'', False),
     (''assistant'', ''budget_review'', ''Here's an adjusted allocation you can confirm or tweak.'', True)]"

definition seed_messages :: "int \<Rightarrow> payload \<Rightarrow> uuid \<Rightarrow> (nat \<Rightarrow> uuid) \<Rightarrow> message list" where
  "seed_messages now slider c ids = map (\<lambda>(i, sender, stage, content, widget).
     \<lparr>msg_id = ids i, msg_conversation = c, msg_sender = sender, msg_content = content, msg_stage = stage,
      msg_widget = (if widget then Some \<lparr>w_type = Some ''allocation_slider'', w_payload = slider\<rparr> else None),
      msg_suggestions = None, msg_thinking = None, msg_created = now + int i\<rparr>) (enumerate 0 EXCHANGES)"

text \<open>The first message refers to a transaction, the last to a statement, where there is one.\<close>

definition seed_references :: "user_draws \<Rightarrow> txn list \<Rightarrow> statement list \<Rightarrow> message list \<Rightarrow> reference list" where
  "seed_references w ts ss ms =
     (if ts = [] then [] else [(msg_id (hd ms), ''transaction'', txn_id (ts ! ud_sample_txn w))]) @
     (if ss = [] then [] else [(msg_id (last ms), ''statement'', st_id (ss ! ud_sample_statement w))])"

definition seed_conversations ::
  "int \<Rightarrow> user_draws \<Rightarrow> uuid \<Rightarrow> txn list \<Rightarrow> statement list \<Rightarrow> (conversation \<times> message list \<times> reference list) list" where
  "seed_conversations now w u ts ss = map (\<lambda>n.
     let c = ud_ids w 4 n; ms = seed_messages now (ud_slider w) c (ud_ids w (1000 + n))
     in (\<lparr>cv_id = c, cv_user = u, cv_started = now, cv_last = now, cv_status = ''active''\<rparr>, ms, seed_references w ts ss ms)) [0..<ud_talks w]"

subsection \<open>The whole graph\<close>

record tables =
  tb_charges :: "recurring_charge list"
  tb_insights :: "insight_value spending_insight list"
  tb_summaries :: "monthly_summary list"
  tb_snapshots :: "net_worth_snapshot list"
  tb_histories :: "seeded_history list"
  tb_conversations :: "conversation list"
  tb_messages :: "message list"
  tb_references :: "reference list"

definition no_tables :: tables where
  "no_tables = \<lparr>tb_charges = [], tb_insights = [], tb_summaries = [], tb_snapshots = [], tb_histories = [],
     tb_conversations = [], tb_messages = [], tb_references = []\<rparr>"

definition seed_user_graph ::
  "auth_env \<Rightarrow> (rat \<Rightarrow> rat \<Rightarrow> rat) \<Rightarrow> (nat \<Rightarrow> nat \<Rightarrow> int) \<Rightarrow> int \<Rightarrow> date \<Rightarrow> bool \<Rightarrow> category list \<Rightarrow> nat \<Rightarrow> user_draws \<Rightarrow> tables \<Rightarrow> db \<Rightarrow>
   (user \<times> txn list \<times> tables) response" where
  "seed_user_graph env pow clk now today gen cs i w t d =
     seq_db (seed_user env i w d) (\<lambda>x d1.
       let u = user_id x; start = add_days today (- 120) in
       (case seed_bank_accounts w u 0 (ud_banks w) (seed_preferences u d1) of (as, d2) \<Rightarrow>
       (case seed_all_statements gen now w u start today 0 as (seed_consent now w u d2) of (sss, d3) \<Rightarrow>
        seq_db (seed_all_transactions clk w cs u start today 0 (zip as sss) d3) (\<lambda>by_account d4.
          let all_txns = concat (map snd by_account);
              cvs = seed_conversations now w u all_txns (concat sss);
              d5 = d4\<lparr>anomalies := anomalies d4 @ seed_anomalies (ud_ids w 0) (ud_anomalies w) money_str all_txns\<rparr>
          in seq_db (seed_budget w cs x start d5) (\<lambda>h d6.
               (Inr (x, all_txns,
                  \<lparr>tb_charges = tb_charges t @ concat (map (\<lambda>(j, a, ts). seed_recurring_charges (ud_ids w (10 + j)) u a ts) (enumerate 0 by_account)),
                   tb_insights = tb_insights t @ seed_pattern_insights pow now (ud_ids w 1 0) (ud_ids w 1 1) u all_txns,
                   tb_summaries = tb_summaries t @ concat (map (\<lambda>(a, ts). seed_monthly_summaries d5 u a ts) by_account),
                   tb_snapshots = tb_snapshots t @ [seed_net_worth_snapshot today u as d5],
                   tb_histories = tb_histories t @ [h],
                   tb_conversations = tb_conversations t @ map fst cvs,
                   tb_messages = tb_messages t @ concat (map (fst \<circ> snd) cvs),
                   tb_references = tb_references t @ concat (map (snd \<circ> snd) cvs)\<rparr>), d6))))))"

text \<open>Reactions on sampled transactions, and now and then an issue.\<close>

definition seed_feedback :: "int \<Rightarrow> user_draws \<Rightarrow> uuid \<Rightarrow> txn list \<Rightarrow> store \<Rightarrow> store" where
  "seed_feedback now w u ts s =
     (let s1 = fold (\<lambda>(i, k, rating, comment). create_reaction
                  \<lparr>re_id = ud_ids w 2 i, re_user = u, re_type = ''transaction'', re_target = txn_id (ts ! k),
                   re_rating = Some rating, re_comment = comment, re_created = now\<rparr>) (enumerate 0 (ud_ratings w)) s
      in if ud_issue w
         then s1\<lparr>issues := issues s1 @ [\<lparr>is_id = ud_ids w 3 0, is_user = u,
                is_description = ''A transaction from my statement seems to be missing.'', is_status = ''open'', is_created = now,
                is_resolved = None\<rparr>]\<rparr>
         else s1)"

text \<open>\<open>picks\<close>: for each user, which products were shown and how similar they were.\<close>

definition seed_recommendation_logs :: "int \<Rightarrow> (nat \<Rightarrow> nat \<Rightarrow> uuid) \<Rightarrow> (nat \<Rightarrow> (nat \<times> rat) list) \<Rightarrow> uuid list \<Rightarrow> uuid list \<Rightarrow> store \<Rightarrow> store" where
  "seed_recommendation_logs now ids picks us ps s =
     (if ps = [] then s
      else s\<lparr>logs := logs s @ concat (map (\<lambda>(i, u). map (\<lambda>(j, k, x).
        \<lparr>lo_id = ids i j, lo_user = u, lo_product = ps ! k, lo_query = Some ''How can I grow my savings?'',
         lo_similarity = quantize_he 4 (seed_money x), lo_shown = now\<rparr>) (enumerate 0 (picks i))) (enumerate 0 us))\<rparr>)"

subsection \<open>The command\<close>

record seed_state =
  sv_app :: sessions
  sv_store :: store
  sv_templates :: "bank_template list"
  sv_tables :: tables

record seed_draws =
  dr_json :: "string \<Rightarrow> string"
  dr_password :: "string \<Rightarrow> string"
  dr_ids :: "nat \<Rightarrow> nat \<Rightarrow> uuid"
  dr_times :: "nat \<Rightarrow> int"
  dr_clock :: "nat \<Rightarrow> nat \<Rightarrow> nat \<Rightarrow> int"
  dr_users :: "nat \<Rightarrow> user_draws"
  dr_picks :: "nat \<Rightarrow> (nat \<times> rat) list"

fun seed_users ::
  "auth_env \<Rightarrow> (rat \<Rightarrow> rat \<Rightarrow> rat) \<Rightarrow> int \<Rightarrow> date \<Rightarrow> bool \<Rightarrow> category list \<Rightarrow> seed_draws \<Rightarrow> nat \<Rightarrow> nat \<Rightarrow> tables \<Rightarrow> store \<Rightarrow> db \<Rightarrow>
   (user list \<times> tables \<times> store) response" where
  "seed_users env pow now today gen cs g 0 i t s d = (Inr ([], t, s), d)"
| "seed_users env pow now today gen cs g (Suc n) i t s d =
     seq_db (seed_user_graph env pow (dr_clock g i) now today gen cs i (dr_users g i) t d) (\<lambda>(x, ts, t1) d1.
       seq_db (seed_users env pow now today gen cs g n (Suc i) t1 (seed_feedback now (dr_users g i) (user_id x) ts s) d1)
         (\<lambda>(xs, t2, s2) d2. (Inr (x # xs, t2, s2), d2)))"

definition gone_conversations :: "uuid set \<Rightarrow> tables \<Rightarrow> uuid set" where
  "gone_conversations gone ts = cv_id ` set (filter (\<lambda>c. cv_user c \<in> gone) (tb_conversations ts))"

text \<open>\<open>_flush\<close>, in its order; the derived tables of the deleted users go with them.\<close>

definition flush_seeded :: "seed_state \<Rightarrow> exc + seed_state" where
  "flush_seeded v =
     (let gone = user_id ` set (filter (\<lambda>x. starts_with SEED_USER_EMAIL_PREFIX (user_email x)) (users (base (sv_app v))))
      in res_bind (flush_seed_products (flush_user_rows gone (sv_store v))) (\<lambda>s.
           Inr \<lparr>sv_app = flush_seed_admins (flush_seed_users (sv_app v)), sv_store = s, sv_templates = flush_templates (sv_templates v),
             sv_tables = \<lparr>tb_charges = filter (\<lambda>r. rc_user r \<notin> gone) (tb_charges (sv_tables v)),
               tb_insights = filter (\<lambda>r. si_user r \<notin> gone) (tb_insights (sv_tables v)),
               tb_summaries = filter (\<lambda>r. mo_user r \<notin> gone) (tb_summaries (sv_tables v)),
               tb_snapshots = filter (\<lambda>r. nw_user r \<notin> gone) (tb_snapshots (sv_tables v)),
               tb_histories = filter (\<lambda>h. \<not> (\<exists>b \<in> set (budgets (base (sv_app v))). b_id b = sh_budget h \<and> b_user b \<in> gone))
                 (tb_histories (sv_tables v)),
               tb_conversations = filter (\<lambda>c. cv_user c \<notin> gone) (tb_conversations (sv_tables v)),
               tb_messages = filter (\<lambda>m. msg_conversation m \<notin> gone_conversations gone (sv_tables v)) (tb_messages (sv_tables v)),
               tb_references = filter (\<lambda>r. fst r \<notin> msg_id ` set (filter (\<lambda>m. msg_conversation m \<in> gone_conversations gone (sv_tables v)) (tb_messages (sv_tables v))))
                 (tb_references (sv_tables v))\<rparr>\<rparr>))"

text \<open>An error inside the transaction leaves the state as it was. The result is the users' addresses,
  \<open>None\<close> where there was nothing to do.\<close>

definition seed_all ::
  "auth_env \<Rightarrow> (rat \<Rightarrow> rat \<Rightarrow> rat) \<Rightarrow> int \<Rightarrow> date \<Rightarrow> bool \<Rightarrow> seed_draws \<Rightarrow> nat \<Rightarrow> seed_state \<Rightarrow> exc + string list \<times> seed_state" where
  "seed_all env pow now today gen g n v =
     res_bind (flush_seeded v) (\<lambda>v1.
       res_bind (seed_products (dr_json g) (dr_times g) (dr_ids g 0) (dr_ids g 1) (sv_store v1)) (\<lambda>(ps, s1).
         let app = sv_app v1; app1 = app\<lparr>admins := admins app @ seed_admins (dr_password g) (dr_ids g 2 0) (dr_ids g 2 1)\<rparr> in
         (case seed_users env pow now today gen (categories (base app1)) g n 0 (sv_tables v1) s1 (base app1) of
            (Inl e, d) \<Rightarrow> Inl e
          | (Inr (xs, t, s2), d) \<Rightarrow>
              Inr (map user_email xs,
                v1\<lparr>sv_app := app1\<lparr>base := d\<rparr>,
                   sv_store := seed_recommendation_logs now (\<lambda>i. dr_ids g (4 + i)) (dr_picks g) (map user_id xs) ps s2,
                   sv_templates := sv_templates v1 @ (if gen then seed_templates (dr_ids g 3) else []), sv_tables := t\<rparr>))))"

definition seed_db ::
  "bool \<Rightarrow> bool \<Rightarrow> bool \<Rightarrow> auth_env \<Rightarrow> (rat \<Rightarrow> rat \<Rightarrow> rat) \<Rightarrow> int \<Rightarrow> date \<Rightarrow> bool \<Rightarrow> seed_draws \<Rightarrow> nat \<Rightarrow> seed_state \<Rightarrow>
   (exc + string list option) \<times> seed_state" where
  "seed_db debug force if_empty env pow now today gen g n v =
     (if if_empty \<and> products (sv_store v) \<noteq> [] then (Inr None, v)
      else if \<not> debug \<and> \<not> force then (Inl (Unhandled ''CommandError''), v)
      else (case seed_all env pow now today gen g n v of Inl e \<Rightarrow> (Inl e, v) | Inr (es, v') \<Rightarrow> (Inr (Some es), v')))"

end
