(* ===== verification/Seed_Laws.thy ===== *)
theory Seed_Laws
  imports Seed_Db
begin

text \<open>
  What the seeding command promises: its rows keep the laws the rest of the program relies on, it
  flushes its own rows only, and it does everything or nothing.
\<close>

subsection \<open>The shared catalogue\<close>

lemma seeded_listings_well_formed:
  "x \<in> set INVESTMENT_CATALOG \<Longrightarrow> well_formed (seeded_listing now k p x)"
proof -
  have "list_all (\<lambda>x. ss_price_type x \<in> set (case_option [] fst (map_of expected_price_types (ss_class x))) \<and>
      map_of expected_price_types (ss_class x) \<noteq> None \<and> 0 < ss_increment x \<and> (ss_fractional x \<or> is_whole (ss_increment x)) \<and>
      unit_ok (ss_class x) (ss_unit x) \<and> ss_unit x \<noteq> [] \<and> 0 < ss_max_age x) INVESTMENT_CATALOG"
    by code_simp
  then show "x \<in> set INVESTMENT_CATALOG \<Longrightarrow> well_formed (seeded_listing now k p x)"
    by (auto simp: list_all_iff well_formed_def seeded_listing_def)
qed

lemma allocation_plans_full: "sum_list (map snd ALLOCATION_PLAN) = 100" "sum_list (map snd PREVIOUS_ALLOCATIONS) = 100"
  by (simp_all add: ALLOCATION_PLAN_def PREVIOUS_ALLOCATIONS_def)

subsection \<open>The running balance\<close>

definition row_ok :: "seed_row \<Rightarrow> bool" where
  "row_ok r \<longleftrightarrow> places 2 (sr_amount r) \<and> \<bar>sr_amount r\<bar> \<le> 10 ^ 6"

lemma next_balance_exact:
  assumes r: "row_ok r" and b: "places 2 b" "\<bar>b\<bar> \<le> 10 ^ 12"
  shows "next_balance b r = (if sr_type r = ''credit'' then b + sr_amount r else b - sr_amount r)"
    and "places 2 (next_balance b r)" and "\<bar>next_balance b r\<bar> \<le> \<bar>b\<bar> + 10 ^ 6"
proof -
  have "places 2 (b + sr_amount r)" "places 2 (b - sr_amount r)" using r b by (simp_all add: row_ok_def)
  moreover have s: "\<bar>b + sr_amount r\<bar> \<le> \<bar>b\<bar> + 10 ^ 6" "\<bar>b - sr_amount r\<bar> \<le> \<bar>b\<bar> + 10 ^ 6"
    using r by (auto simp: row_ok_def abs_if split: if_splits)
  moreover have "\<bar>b + sr_amount r\<bar> < 10 ^ 26" "\<bar>b - sr_amount r\<bar> < 10 ^ 26" using s b(2) by simp_all
  ultimately show "next_balance b r = (if sr_type r = ''credit'' then b + sr_amount r else b - sr_amount r)"
    and "places 2 (next_balance b r)" and "\<bar>next_balance b r\<bar> \<le> \<bar>b\<bar> + 10 ^ 6"
    by (simp_all add: next_balance_def dec_places2)
qed

lemma insert_txn_txns [simp]: "txns (insert_txn t d) = txns d @ [t]"
  by (simp add: insert_txn_def draw_def)

lemma seeded_txn_fields [simp]:
  "txn_account (seeded_txn now u a c src b r d) = acc_id a" "txn_user (seeded_txn now u a c src b r d) = u"
  "balance (seeded_txn now u a c src b r d) = Some b" "amount (seeded_txn now u a c src b r d) = sr_amount r"
  "transaction_type (seeded_txn now u a c src b r d) = Some (sr_type r)"
  by (simp_all add: seeded_txn_def)

text \<open>The stored balances are exact: the last one is the opening balance with everything received
  added and everything spent taken off.\<close>

lemma seeded_balance_exact:
  assumes "seed_transactions now g ss cs u a i b rs d = (Inr ts, d')" "list_all row_ok rs"
    "places 2 b" "\<bar>b\<bar> + of_nat (length rs) * 10 ^ 6 \<le> 10 ^ 12"
  shows "txns d' = txns d @ ts \<and> (ts \<noteq> [] \<longrightarrow> balance (last ts) = Some (b + credits ts - outflows ts)) \<and>
    (\<forall>t \<in> set ts. txn_account t = acc_id a \<and> txn_user t = u \<and> (\<exists>x. balance t = Some x \<and> places 2 x \<and> \<bar>x\<bar> \<le> 10 ^ 12))"
  using assms
proof (induction rs arbitrary: i b d ts)
  case (Cons r rs)
  from Cons.prems(1) obtain c where c: "category_by_name cs (sr_category r) = Some c" by (cases "category_by_name cs (sr_category r)") auto
  define b' where "b' = next_balance b r"
  define t where "t = seeded_txn (now i) u a c (row_source g i (sr_date r) ss) b' r d"
  have nu: "\<not> unique_clash t (txns d)" using Cons.prems(1) c by (auto simp: Let_def b'_def t_def)
  then obtain ts' where ts': "seed_transactions now g ss cs u a (Suc i) b' rs (insert_txn t d) = (Inr ts', d')" and ts: "ts = t # ts'"
    using Cons.prems(1) c by (auto simp: Let_def b'_def t_def split: prod.splits sum.splits)
  have small: "\<bar>b\<bar> \<le> 10 ^ 12" and r: "row_ok r" using Cons.prems by simp_all
  note nb = next_balance_exact [OF r Cons.prems(3) small, folded b'_def]
  have bound: "\<bar>b'\<bar> + of_nat (length rs) * 10 ^ 6 \<le> 10 ^ 12" using nb(3) Cons.prems(4) by (simp add: algebra_simps)
  moreover have "0 \<le> of_nat (length rs) * (10 ^ 6 :: rat)" by simp
  ultimately have small': "\<bar>b'\<bar> \<le> 10 ^ 12" by linarith
  have IH: "txns d' = txns (insert_txn t d) @ ts' \<and> (ts' \<noteq> [] \<longrightarrow> balance (last ts') = Some (b' + credits ts' - outflows ts')) \<and>
    (\<forall>t \<in> set ts'. txn_account t = acc_id a \<and> txn_user t = u \<and> (\<exists>x. balance t = Some x \<and> places 2 x \<and> \<bar>x\<bar> \<le> 10 ^ 12))"
    using Cons.prems(2) by (intro Cons.IH [OF ts' _ nb(2) bound]) simp
  have fields: "txn_account t = acc_id a" "txn_user t = u" "balance t = Some b'" "amount t = sr_amount r" "transaction_type t = Some (sr_type r)"
    by (simp_all add: t_def)
  have head: "credits (t # xs) - outflows (t # xs) + b = b' + credits xs - outflows xs" for xs
    using nb(1) fields by (simp add: credits_def outflows_def)
  have last: "balance (last ts) = Some (b + credits ts - outflows ts)"
  proof (cases "ts' = []")
    case True
    then show ?thesis using head [of "[]"] fields(3) by (simp add: ts credits_def outflows_def algebra_simps)
  next
    case False
    then show ?thesis using IH head [of ts'] by (simp add: ts algebra_simps)
  qed
  show ?case unfolding ts using IH last [unfolded ts] nb(2) small' fields(1-3) by simp
qed simp

subsection \<open>The net worth\<close>

lemma later_cotrans: "later s t \<Longrightarrow> later s x \<or> later x t"
  unfolding later_def by (metis less_trans linorder_less_linear)

lemma newest_max: "newest ts = Some t \<Longrightarrow> s \<in> set ts \<Longrightarrow> \<not> later s t"
proof (induction ts arbitrary: t s)
  case (Cons x xs)
  show ?case
  proof (cases "newest xs")
    case (Some y)
    then have y: "\<And>s. s \<in> set xs \<Longrightarrow> \<not> later s y" using Cons.IH by blast
    show ?thesis
    proof (cases "later y x")
      case True
      then show ?thesis using Cons.prems Some y by (auto dest: later_asym)
    next
      case False
      then have t: "t = x" using Cons.prems(1) Some by simp
      show ?thesis
      proof (cases "s = x")
        case False
        then have "\<not> later s y" using Cons.prems(2) y by simp
        then show ?thesis using \<open>\<not> later y x\<close> later_cotrans t by blast
      qed (simp add: t)
    qed
  qed (use Cons.prems in simp)
qed simp

definition exact_balances :: "txn list \<Rightarrow> bool" where
  "exact_balances ts \<longleftrightarrow> (\<forall>t \<in> set ts. \<exists>x. balance t = Some x \<and> places 2 x \<and> \<bar>x\<bar> \<le> 10 ^ 12)"

lemma latest_is_current:
  assumes "exact_balances (account_rows a (txns d))"
  shows "latest_balance a d = current_balance a (txns d)"
proof -
  let ?rows = "account_rows a (txns d)"
  have all: "filter (\<lambda>t. balance t \<noteq> None) ?rows = ?rows" using assms by (auto simp: exact_balances_def filter_id_conv)
  show ?thesis
  proof (cases "newest ?rows")
    case None
    then have "?rows = []" by simp
    then show ?thesis by (simp add: latest_balance_def current_balance_def credits_def outflows_def)
  next
    case (Some t)
    obtain x where x: "balance t = Some x" "places 2 x" "\<bar>x\<bar> \<le> 10 ^ 12"
      using assms newest_in [OF Some] by (auto simp: exact_balances_def)
    have "filter (\<lambda>s. transaction_date t < transaction_date s \<or>
        transaction_date s = transaction_date t \<and> txn_created t < txn_created s) ?rows = []"
      using newest_max [OF Some] by (auto simp: filter_empty_conv later_def)
    moreover have "dec x = x" using x(2,3) by (intro dec_places2) simp_all
    ultimately show ?thesis unfolding current_balance_def Let_def all
      by (simp add: Some x latest_balance_def credits_def outflows_def)
  qed
qed

text \<open>The stored snapshot is the net worth the API computes.\<close>

lemma seeded_snapshot_is_net_worth:
  assumes "\<forall>a \<in> set (active_accounts u d). exact_balances (account_rows (acc_id a) (txns d))"
  shows "nw_total (seed_net_worth_snapshot today u (active_accounts u d) d) = fst (net_worth u d)"
    and "nw_accounts (seed_net_worth_snapshot today u (active_accounts u d) d) = map (apsnd (apsnd flt)) (snd (net_worth u d))"
proof -
  have e: "map (\<lambda>a. latest_balance (acc_id a) d) (active_accounts u d) = map (\<lambda>a. current_balance (acc_id a) (txns d)) (active_accounts u d)"
    using assms by (intro map_cong refl latest_is_current) auto
  show "nw_total (seed_net_worth_snapshot today u (active_accounts u d) d) = fst (net_worth u d)"
    unfolding seed_net_worth_snapshot_def net_worth_def Let_def net_worth_snapshot.simps e by (simp add: comp_def)
  show "nw_accounts (seed_net_worth_snapshot today u (active_accounts u d) d) = map (apsnd (apsnd flt)) (snd (net_worth u d))"
    using assms by (auto simp: seed_net_worth_snapshot_def net_worth_def Let_def latest_is_current)
qed

subsection \<open>The flush and the transaction\<close>

lemma flush_fold:
  "users (base (fold (\<lambda>u s. snd (delete_me_sessions u s)) us s)) = filter (\<lambda>x. user_id x \<notin> user_id ` set us) (users (base s))"
proof (induction us arbitrary: s)
  case (Cons u us)
  have "users (base (snd (delete_me_sessions u s))) = filter (\<lambda>x. user_id x \<noteq> user_id u) (users (base s))"
    by (simp add: delete_me_sessions_def delete_me_def delete_user_rows_def Let_def)
  then show ?case by (simp add: Cons.IH conj_commute)
qed simp

lemma flush_own_users_only:
  assumes "inj_on user_id (set (users (base s)))"
  shows "users (base (flush_seed_users s)) = filter (\<lambda>x. \<not> starts_with SEED_USER_EMAIL_PREFIX (user_email x)) (users (base s))"
  unfolding flush_seed_users_def flush_fold using assms by (intro filter_cong refl) (auto dest: inj_onD)

lemma flush_keeps_other_products:
  assumes "flush_seed_products s = Inr s'" "inj_on pr_id (set (products s))"
  shows "products s' = filter (\<lambda>p. \<not> seeded_product p) (products s)"
    and "l \<in> set (listings s) \<Longrightarrow> l \<notin> set (listings s') \<Longrightarrow> \<not> protected (ls_id l) s"
  using assms by (auto simp: flush_seed_products_def Let_def list_ex_iff split: if_splits intro!: filter_cong dest: inj_onD)

lemma seed_db_all_or_nothing:
  assumes "seed_db debug force if_empty env pow now today gen g n v = (r, v')"
  shows "v' = v \<and> (r = Inr None \<or> (\<exists>e. r = Inl e)) \<or> (debug \<or> force) \<and> (\<exists>es. r = Inr (Some es) \<and> seed_all env pow now today gen g n v = Inr (es, v'))"
  using assms by (auto simp: seed_db_def split: if_splits sum.splits)


text \<open>A repeated row is nudged once: two repeats are equal again.\<close>

lemma second_repeat_clashes:
  "snd (fold add_row [r, r, r] ([], [])) =
     [r, r\<lparr>sr_amount := dec (sr_amount r + 13 / 100)\<rparr>, r\<lparr>sr_amount := dec (sr_amount r + 13 / 100)\<rparr>]"
  by (simp add: add_row_def Let_def)

end
