(* ===== verification/Spec2Isabelle.thy ===== *)
theory Spec2Isabelle
  imports Approval Profile Sync_Laws Analytics_Laws Budget_Laws Investment_Laws Valuation_Laws Bank_Link Account_Laws Chat_Laws Feedback_Laws Template_Laws Matching_Laws Event_Laws Plan_Views Detected Object_Laws Category_Migration Demo_Laws Seed_Laws
begin

text \<open>
  A verification library for the backend of the NBE financial advisor: a Django REST service
  (core/, services/) with its Celery tasks, and the two small services of a mock bank it is
  linked to (mock-bank-oauth/, mock-bank-sync/). The theories model the operations as functions
  on explicit states and prove what the parts promise, alone and composed. Every path below is
  relative to the repository's root of sources.

  \<^bold>\<open>How the parts fit together.\<close> A user has accounts with transactions (the ledger).
  Transactions are typed in, or approved from an uploaded bank statement that a pipeline of
  tasks has read with the help of an AI service, or pushed by a linked bank. The analytics, the
  budget and the dashboard read the ledger. Investment plans are saved from the chat, bought item
  by item into holdings, and valued with live quotes. The chat relays the AI service's stream to
  the user's event stream. Administrators keep the categories, the product catalogue and the
  starter templates. Everything a request writes is either in one of the states below or among
  the \<open>effects\<close> (events, mails, queued work) it leaves.

  \<^bold>\<open>States.\<close> \<open>db\<close> (Model) is the main database: one list of rows per table, with the
  stream of fresh ids, the statement tasks in the queue, and the effects. \<open>portfolio\<close>
  (Investments) holds instruments, plans, purchases and holdings; \<open>chat\<close> (Conversations)
  extends to conversations, messages, references, reply tasks, published events and the
  portfolio; \<open>store\<close> (Catalogue) to products, statements, logs, reactions and issues;
  \<open>sessions\<close> (Sessions) is the \<open>db\<close> with Redis, the token tables and the admins; \<open>oauth_store\<close>
  and \<open>bank_ledger\<close> (Oauth, Bank_Ledger) are the bank's two services; \<open>hub\<close> (Event_Bus) is the
  sessions with the open streams; \<open>template_files\<close> (Templates) is the bucket of templates.
  A handler of the code is a function from its inputs and the state to a response, an error of
  type \<open>exc\<close> (Exceptions) or a value, and the state it leaves: where the code is not atomic the
  state of an error is the half-written one.

  \<^bold>\<open>Theories and sources.\<close>
  \<^item> Prelude, Numeric, Json_Numbers, Calendar: lists, results and strings; Python's 28-digit
    decimals (\<open>dec\<close>), binary floats (\<open>flt\<close>, \<open>py_round\<close>, \<open>decimal_of_float\<close>) and dates.
  \<^item> Exceptions: core/exceptions.py. Model: the tables of core/models/.
  \<^item> Categories: core/models/categories/, core/migrations/0011_category.py, core/views/categories.py.
  \<^item> Ledger, Ledger_Laws: the transactions of core/views/aggregations.py, the accounts of
    core/views/profile.py. Ledger_Import: what statement approval and bank feeds share.
  \<^item> Profile: the rest of core/views/profile.py with consent and preferences.
  \<^item> Statements, Statement_Laws, Approval: core/views/statements.py, core/tasks/statements.py.
  \<^item> Sync, Sync_Laws: services/bank_connectors/, core/tasks/bank_sync.py,
    core/views/bank_connections.py, core/views/webhooks.py.
  \<^item> Analytics, Budgets, Dashboard with Analytics_Laws and Budget_Laws: the analytics of
    core/views/aggregations.py, core/views/budgets.py and its serializers.
  \<^item> Investments, Valuation with their laws: core/serializers/investment_scenarios.py,
    core/views/investment_scenarios.py, core/views/investment_holdings.py, services/market_data.py.
  \<^item> Single_Use, Tickets: services/sse_tickets.py, link_tickets.py and bank_login_states.py.
  \<^item> Sessions, Session_Laws, Account_Laws: core/views/auth.py, core/auth_tokens.py,
    core/authentication.py and the admin sessions.
  \<^item> Oauth, Oauth_Laws, Bank_Ledger, Bank_Link: mock-bank-oauth/app, mock-bank-sync/app, and the
    backend linked to them.
  \<^item> Conversations, Chat_Laws: core/views/conversations.py, core/tasks/conversations.py.
    Event_Bus, Event_Laws: services/event_bus.py, core/views/events.py.
    AI_Clients, AI_Laws, Matching_Laws: services/ai_service/.
  \<^item> Catalogue, Templates, Feedback, Data_Export with their laws: core/views/administration.py,
    core/views/recommendation.py, core/views/feedback.py, services/file_storage.py,
    core/tasks/data_export.py.
  \<^item> Plan_Views: what a client is shown of a saved plan. Category_Migration:
    core/migrations/0012_convert_category_to_fk.py.
  \<^item> Demo_Seed, Demo_Laws: the commands register_mock_bank_customer and seed_bank_demo_data of
    core/management/commands/, with the debug route of mock-bank-oauth.
  \<^item> Detected: the lists of recurring charges, insights and anomalies of core/views/aggregations.py.
  \<^item> Object_Store, Object_Laws: services/file_storage.py over services/storage_backends.py, and
    core/management/commands/ensure_storage_buckets.py.
  \<^item> Seed_Catalogue, Seed_Ledger, Seed_Db, Seed_Laws: core/management/commands/seed_db.py.
  \<^bold>\<open>What the lemmas show.\<close>
  \<^item> Invariants by rule induction over step relations that contain every writing operation,
    failed ones included: \<open>ledger_change\<close>, \<open>st_step\<close>, \<open>bank_step\<close>, \<open>budget_step\<close>,
    \<open>portfolio_step\<close>, \<open>store_reach\<close>, \<open>bucket_reach\<close>. Each operation is first shown to be a
    sequence of such steps, then the steps keep the invariant.
  \<^item> What an operation does on every branch: approval and ingestion add each row once, a plan
    change keeps the old plan, a purchase adds its quantity once, a refused bank login changes
    nothing.
  \<^item> Numbers: amounts, percentages, weighted averages and JSON floats, with every rounding the
    code performs, stay where the exact values are, or within a stated distance.
  \<^item> Histories: secrets redeemed once, tokens that go back to a mailed code, sessions ended by a
    reset, every chat message answered, a stream that carries its user's events.
  \<^item> Composition: the backend and the bank together land the accounts the bank keeps for the
    customer who logged in; the chat with the in-process AI client always replies.

  \<^bold>\<open>Interfaces.\<close> \<open>ledger_import\<close> is the contract of an importer (an item already in the
  ledger changes nothing, another appends one row); \<open>approval\<close> and \<open>feed\<close> interpret it.
  \<open>single_use\<close> is a secret redeemed at most once; \<open>sse\<close>, \<open>link\<close>, \<open>login\<close> and \<open>codes\<close>
  interpret it on Redis and on the bank's authorization codes. \<open>ai_chat\<close> is what the reply task
  relies on in the AI service; \<open>mock_chat\<close> interprets it on the in-process client, and
  \<open>http_is_ai_chat\<close> gives it for the HTTP client when the frames are the documented ones.

  \<^bold>\<open>Bounds and fuel.\<close> The pipeline polls a job at most \<open>MAX_POLL_ATTEMPTS\<close> = 240 times, each poll
  a run of the task that Celery's retry count also limits; \<open>pipeline_loop\<close> terminates by the
  status, which only rises, and \<open>run_to_end\<close> by the retries left, so 241 runs are enough for any
  answers of the service. No function has fuel: loops are structural or come with a measure. A
  text renders a UUID faithfully below \<open>16 ^ 32\<close>, which is the hypothesis wherever ids are compared
  as text.

  \<^bold>\<open>Parameters and hypotheses.\<close> Code outside the repository is an argument: the AI service's
  answers and frames, password hashing and JWT signing, the mail server, the quote provider, the
  webhook delivery, random draws, \<open>json\<close>, and Django REST framework's reading of a request body
  (an argument \<open>detail + data\<close>, the errors or the validated data). What the proofs need of them
  is a named predicate: \<open>jwt_contract\<close> and \<open>jwt_carries\<close> (what is encoded decodes, and to the
  same claims), \<open>signed_contract\<close> (Django's token generator), \<open>own_refusals\<close> (a library raises
  its own errors), \<open>documented\<close> (the shapes of the AI service's frames), \<open>fields_ok\<close> and
  \<open>template_fields\<close> (the declared fields' own checks), \<open>json_ok\<close> (loads after dumps). Each property
  that has one also has a witness in which a concrete function satisfies it.

  \<^bold>\<open>Conventions.\<close> A decimal or float is a rational with the roundings written out; a timestamp
  is an integer, a date a value of \<open>date\<close>; a UUID is a natural number and a fresh one comes from the
  state's stream or is an argument. An exception DRF does not handle is \<open>Unhandled\<close> with its
  class. A read-only query is a function of the rows in the order the code asks for; where it
  asks for none, the order of the list.

  \<^bold>\<open>Not modelled.\<close> config/ (settings, URL tables, the Celery and ASGI entry points), core/urls.py,
  core/openapi.py, core/schema.py, core/renderers.py and the serializers that only document a
  response's shape: configuration, with no behaviour of its own. The schema migrations other than
  0011 and 0012: the tables they create are the records of Model, whose constraints the invariants
  carry. The HTML and mail texts of the mock bank (page.py, email_templates.py), health checks,
  logging and Alembic. Within the modelled parts: embeddings are not stored (no code here reads the
  vectors), pagination envelopes and response headers are left out, random draws are arguments, and
  each request and each task run is one step except where a component's introduction says how it is
  split.
\<close>

end
